(* ===== verification/Prelude.thy ===== *)
theory Prelude
  imports Main "HOL-Library.AList"
begin

text \<open>
  Shared vocabulary of the development: Python exceptions as values, computations that may
  raise (\<open>'a res\<close>), computations that mutate a store and may raise (\<open>('s, 'a) sres\<close>),
  Python dictionaries as insertion-ordered association lists, and the text of numbers.
  The generic lemmas that the component theories use are collected here.
\<close>

named_theorems res_simps \<open>unfolding of the exception and state combinators\<close>
named_theorems dict_simps \<open>lookups after dictionary updates\<close>

section \<open>Exceptions\<close>

text \<open>
  The exception classes that the modelled code raises or catches. Messages are dropped: no
  modelled branch reads them. Subclassing matters where an \<^verbatim>\<open>except\<close> clause names a base
  class: \<^verbatim>\<open>AmountFormatError\<close>, \<^verbatim>\<open>IdempotencyConflict\<close>, \<^verbatim>\<open>RuleError\<close> and \<^verbatim>\<open>NonCanonical\<close> derive from
  \<^verbatim>\<open>ValueError\<close>. \<^verbatim>\<open>RailError\<close> and \<^verbatim>\<open>LimitExceeded\<close> carry a code, \<^verbatim>\<open>BridgeError\<close> its subclass (\<open>ShopError\<close> is \<^verbatim>\<open>RappiError\<close>).
\<close>

datatype bridge_error =
    Disabled | CapExceeded | CartNotClean | PriceDrift | AddressMismatch | ApprovalInvalid | ApprovalExpired | DryRunMismatch
  | SessionExpired | MinAmountRejected | UncertainState | CardRequires3ds | CashPaymentRefused | PaymentUnresolved
  | ExecutionConflict | ShopError

datatype exn =
    AmountFormatError
  | ValueError
  | TypeError
  | KeyError
  | IndexError
  | AttributeError
  | InvalidOperation
  | OverflowError
  | RuntimeError
  | ReservationRejected
  | IdempotencyConflict
  | StopIteration
  | RuleError
  | NonCanonical
  | BadSignature
  | RailError string
  | LimitExceeded string
  | DatabaseError
  | HttpError int
  | PasskeyError
  | EscalationNotFound
  | EscalationConflict string
  | VaultError
  | PaymentRefused string
  | DisputeError
  | InvalidJWSSignature
  | InvalidSignature
  | TokenExpired
  | NotYetValid
  | InvalidKeyBinding
  | CheckoutJWTError
  | ChargeRefused string
  | ChargeSettlementError
  | KernelClientError
  | BridgeError bridge_error

definition is_ValueError :: "exn \<Rightarrow> bool" where
  "is_ValueError e \<longleftrightarrow> e \<in> {ValueError, AmountFormatError, IdempotencyConflict, RuleError, NonCanonical}"

lemma is_ValueError_simps [simp]:
  "is_ValueError ValueError" "is_ValueError AmountFormatError" "is_ValueError IdempotencyConflict"
  "\<not> is_ValueError TypeError" "\<not> is_ValueError KeyError" "\<not> is_ValueError IndexError"
  "\<not> is_ValueError AttributeError" "\<not> is_ValueError InvalidOperation"
  "\<not> is_ValueError OverflowError" "\<not> is_ValueError RuntimeError"
  "\<not> is_ValueError ReservationRejected" "\<not> is_ValueError StopIteration"
  "is_ValueError RuleError" "is_ValueError NonCanonical" "\<not> is_ValueError BadSignature"
  "\<not> is_ValueError (RailError c)" "\<not> is_ValueError (LimitExceeded c)" "\<not> is_ValueError DatabaseError"
  "\<not> is_ValueError (HttpError n)" "\<not> is_ValueError PasskeyError" "\<not> is_ValueError EscalationNotFound"
  "\<not> is_ValueError (EscalationConflict c)" "\<not> is_ValueError VaultError" "\<not> is_ValueError (PaymentRefused c)"
  "\<not> is_ValueError DisputeError" "\<not> is_ValueError InvalidJWSSignature" "\<not> is_ValueError InvalidSignature"
  "\<not> is_ValueError TokenExpired" "\<not> is_ValueError NotYetValid" "\<not> is_ValueError InvalidKeyBinding"
  "\<not> is_ValueError CheckoutJWTError" "\<not> is_ValueError (ChargeRefused c)" "\<not> is_ValueError ChargeSettlementError"
  "\<not> is_ValueError KernelClientError" "\<not> is_ValueError (BridgeError b)"
  by (simp_all add: is_ValueError_def)

section \<open>Computations that may raise\<close>

type_synonym 'a res = "exn + 'a"

definition bind_res :: "'a res \<Rightarrow> ('a \<Rightarrow> 'b res) \<Rightarrow> 'b res" where
  "bind_res m f = (case m of Inl e \<Rightarrow> Inl e | Inr x \<Rightarrow> f x)"

lemma bind_res_simps [simp, res_simps]:
  "bind_res (Inl e) f = Inl e"
  "bind_res (Inr x) f = f x"
  by (simp_all add: bind_res_def)

lemma bind_res_Inr_iff: "bind_res m f = Inr y \<longleftrightarrow> (\<exists>x. m = Inr x \<and> f x = Inr y)"
  by (cases m) auto

lemma bind_res_Inl_iff:
  "bind_res m f = Inl e \<longleftrightarrow> m = Inl e \<or> (\<exists>x. m = Inr x \<and> f x = Inl e)"
  by (cases m) auto

text \<open>\<open>try_res m h\<close>: run \<open>m\<close>, and the handler \<open>h\<close> on the exception it raises.\<close>

definition try_res :: "'a res \<Rightarrow> (exn \<Rightarrow> 'a res) \<Rightarrow> 'a res" where
  "try_res m h = (case m of Inl e \<Rightarrow> h e | Inr x \<Rightarrow> Inr x)"

lemma try_res_simps [simp, res_simps]:
  "try_res (Inl e) h = h e"
  "try_res (Inr x) h = Inr x"
  by (simp_all add: try_res_def)

text \<open>A list comprehension over a function that may raise stops at the first exception.\<close>

fun map_res :: "('a \<Rightarrow> 'b res) \<Rightarrow> 'a list \<Rightarrow> 'b list res" where
  "map_res f [] = Inr []"
| "map_res f (x # xs) = bind_res (f x) (\<lambda>y. bind_res (map_res f xs) (\<lambda>ys. Inr (y # ys)))"

lemma map_res_Inr_length: "map_res f xs = Inr ys \<Longrightarrow> length ys = length xs"
  by (induction xs arbitrary: ys) (auto simp: bind_res_Inr_iff)

section \<open>Computations over a store\<close>

text \<open>
  A method of an object with mutable state is a function from the state to a result and the new
  state. An exception does not undo the mutations made before it: the in-memory adapters have no
  rollback.
\<close>

type_synonym ('s, 'a) sres = "'s \<Rightarrow> 'a res \<times> 's"

definition return_s :: "'a \<Rightarrow> ('s, 'a) sres" where
  "return_s x s = (Inr x, s)"

definition raise_s :: "exn \<Rightarrow> ('s, 'a) sres" where
  "raise_s e s = (Inl e, s)"

definition bind_s :: "('s, 'a) sres \<Rightarrow> ('a \<Rightarrow> ('s, 'b) sres) \<Rightarrow> ('s, 'b) sres" where
  "bind_s m f s = (case m s of (Inl e, s') \<Rightarrow> (Inl e, s') | (Inr x, s') \<Rightarrow> f x s')"

definition try_s :: "('s, 'a) sres \<Rightarrow> (exn \<Rightarrow> ('s, 'a) sres) \<Rightarrow> ('s, 'a) sres" where
  "try_s m h s = (case m s of (Inl e, s') \<Rightarrow> h e s' | (Inr x, s') \<Rightarrow> (Inr x, s'))"

text \<open>
  \<open>either_s m h k\<close>: the statement \<^verbatim>\<open>try: x = m; except: return h\<close> followed by \<open>k x\<close>; exceptions
  of \<open>k\<close> are not handled by \<open>h\<close>. \<open>retry_s m n\<close> runs \<open>n\<close> when \<open>m\<close> raises \<^verbatim>\<open>TypeError\<close>.
\<close>

definition either_s ::
  "('s, 'a) sres \<Rightarrow> (exn \<Rightarrow> ('s, 'b) sres) \<Rightarrow> ('a \<Rightarrow> ('s, 'b) sres) \<Rightarrow> ('s, 'b) sres" where
  "either_s m h k s = (case m s of (Inl e, s') \<Rightarrow> h e s' | (Inr x, s') \<Rightarrow> k x s')"

definition retry_s :: "('s, 'a) sres \<Rightarrow> ('s, 'a) sres \<Rightarrow> ('s, 'a) sres" where
  "retry_s m n = either_s m (\<lambda>e. if e = TypeError then n else raise_s e) return_s"

definition lift_res :: "'a res \<Rightarrow> ('s, 'a) sres" where
  "lift_res m s = (m, s)"

definition get_s :: "('s \<Rightarrow> 'a) \<Rightarrow> ('s, 'a) sres" where
  "get_s f s = (Inr (f s), s)"

definition modify_s :: "('s \<Rightarrow> 's) \<Rightarrow> ('s, unit) sres" where
  "modify_s f s = (Inr (), f s)"

lemmas sres_defs [res_simps] = return_s_def raise_s_def lift_res_def get_s_def modify_s_def

lemma bind_s_eq: "m s = (Inr x, s') \<Longrightarrow> bind_s m f s = f x s'"
  by (simp add: bind_s_def)

lemma bind_s_raise: "m s = (Inl e, s') \<Longrightarrow> bind_s m f s = (Inl e, s')"
  by (simp add: bind_s_def)

lemma try_s_ok: "m s = (Inr x, s') \<Longrightarrow> try_s m h s = (Inr x, s')"
  by (simp add: try_s_def)

lemma try_s_raise: "m s = (Inl e, s') \<Longrightarrow> try_s m h s = h e s'"
  by (simp add: try_s_def)

text \<open>A property of the state that both parts keep is kept by the sequence and the handler.\<close>

definition keeps :: "('s \<Rightarrow> bool) \<Rightarrow> ('s, 'a) sres \<Rightarrow> bool" where
  "keeps I m \<longleftrightarrow> (\<forall>s. I s \<longrightarrow> I (snd (m s)))"

lemma keepsI: "(\<And>s. I s \<Longrightarrow> I (snd (m s))) \<Longrightarrow> keeps I m"
  by (simp add: keeps_def)

lemma keepsD: "keeps I m \<Longrightarrow> I s \<Longrightarrow> m s = (r, s') \<Longrightarrow> I s'"
  by (metis keeps_def snd_conv)

lemma keeps_return [intro, simp]: "keeps I (return_s x)"
  and keeps_raise [intro, simp]: "keeps I (raise_s e)"
  and keeps_lift [intro, simp]: "keeps I (lift_res r)"
  and keeps_get [intro, simp]: "keeps I (get_s f)"
  by (simp_all add: keeps_def sres_defs)

lemma keeps_modify: "(\<And>s. I s \<Longrightarrow> I (f s)) \<Longrightarrow> keeps I (modify_s f)"
  by (simp add: keeps_def sres_defs)

lemma keeps_bind [intro]: "keeps I m \<Longrightarrow> (\<And>x. keeps I (f x)) \<Longrightarrow> keeps I (bind_s m f)"
  by (fastforce simp: keeps_def bind_s_def split: prod.splits sum.splits)

lemma keeps_try [intro]: "keeps I m \<Longrightarrow> (\<And>e. keeps I (h e)) \<Longrightarrow> keeps I (try_s m h)"
  by (fastforce simp: keeps_def try_s_def split: prod.splits sum.splits)

lemma keeps_either [intro]:
  "keeps I m \<Longrightarrow> (\<And>e. keeps I (h e)) \<Longrightarrow> (\<And>x. keeps I (k x)) \<Longrightarrow> keeps I (either_s m h k)"
  by (fastforce simp: keeps_def either_s_def split: prod.splits sum.splits)

lemma keeps_retry [intro]: "keeps I m \<Longrightarrow> keeps I n \<Longrightarrow> keeps I (retry_s m n)"
  unfolding retry_s_def by (intro keeps_either) (simp_all add: keeps_def sres_defs)

lemma keeps_option [intro]:
  "keeps I a \<Longrightarrow> (\<And>x. keeps I (b x)) \<Longrightarrow> keeps I (case r of None \<Rightarrow> a | Some x \<Rightarrow> b x)"
  by (cases r) auto

lemma keeps_if [intro]: "keeps I m \<Longrightarrow> keeps I n \<Longrightarrow> keeps I (if b then m else n)"
  by simp

subsection \<open>Transactions\<close>

text \<open>The dependency \<^verbatim>\<open>get_session\<close>: commit on success, roll back on an exception.\<close>

definition in_transaction :: "('s, 'a) sres \<Rightarrow> ('s, 'a) sres" where
  "in_transaction m db = (case m db of (Inl e, _) \<Rightarrow> (Inl e, db) | (Inr x, db') \<Rightarrow> (Inr x, db'))"

lemma keeps_transaction: "keeps P m \<Longrightarrow> keeps P (in_transaction m)"
  by (fastforce simp: keeps_def in_transaction_def split: prod.splits sum.splits)

lemma transaction_returns [simp]:
  "in_transaction m db = (Inr x, db') \<longleftrightarrow> m db = (Inr x, db')"
  "in_transaction m db = (Inl e, db') \<longleftrightarrow> db' = db \<and> (\<exists>db1. m db = (Inl e, db1))"
  by (auto simp: in_transaction_def split: prod.splits sum.splits)

lemma keeps_request: "I db \<Longrightarrow> in_transaction m db = (r, db') \<Longrightarrow> keeps I m \<Longrightarrow> I db'"
  using keeps_transaction [of I m] by (rule keepsD)

section \<open>Dictionaries\<close>

text \<open>
  A Python \<^verbatim>\<open>dict\<close> keeps insertion order and overwrites in place. That is \<^const>\<open>AList.update\<close>;
  \<^verbatim>\<open>pop\<close> is \<^const>\<open>AList.delete\<close>, \<^verbatim>\<open>get\<close> is \<^const>\<open>map_of\<close>.
\<close>

type_synonym ('k, 'v) dict = "('k \<times> 'v) list"

abbreviation dict_get :: "('k, 'v) dict \<Rightarrow> 'k \<Rightarrow> 'v option" where
  "dict_get \<equiv> map_of"

abbreviation dict_set :: "'k \<Rightarrow> 'v \<Rightarrow> ('k, 'v) dict \<Rightarrow> ('k, 'v) dict" where
  "dict_set \<equiv> AList.update"

abbreviation dict_pop :: "'k \<Rightarrow> ('k, 'v) dict \<Rightarrow> ('k, 'v) dict" where
  "dict_pop \<equiv> AList.delete"

definition dict_get_or :: "('k, 'v) dict \<Rightarrow> 'k \<Rightarrow> 'v \<Rightarrow> 'v" where
  "dict_get_or d k v = (case dict_get d k of None \<Rightarrow> v | Some x \<Rightarrow> x)"

text \<open>\<^verbatim>\<open>d.update(other)\<close>: the entries of \<open>other\<close> in order.\<close>

definition dict_merge :: "('k, 'v) dict \<Rightarrow> ('k, 'v) dict \<Rightarrow> ('k, 'v) dict" where
  "dict_merge d other = fold (\<lambda>(k, v). dict_set k v) other d"

lemma dict_get_set [simp, dict_simps]: "dict_get (dict_set k v d) k' = (if k' = k then Some v else dict_get d k')"
  by (simp add: update_conv')

lemma dict_get_pop [simp, dict_simps]: "dict_get (dict_pop k d) k' = (if k' = k then None else dict_get d k')"
  by (simp add: delete_conv')

lemma dict_get_or_set [simp, dict_simps]:
  "dict_get_or (dict_set k v d) k' x = (if k' = k then v else dict_get_or d k' x)"
  by (simp add: dict_get_or_def)

lemma distinct_dict_set: "distinct (map fst d) \<Longrightarrow> distinct (map fst (dict_set k v d))"
  by (rule distinct_update)

lemma dict_get_map_values:
  "dict_get (map (\<lambda>(k, v). (k, f v)) d) k = map_option f (dict_get d k)"
  by (induction d) auto

lemma dict_set_fresh: "dict_get d k = None \<Longrightarrow> dict_set k v d = d @ [(k, v)]"
  by (induction d) (auto split: if_splits)

text \<open>Summing the values of a dictionary, and how one assignment changes the sum.\<close>

definition dict_sum :: "('v \<Rightarrow> int) \<Rightarrow> ('k, 'v) dict \<Rightarrow> int" where
  "dict_sum f d = sum_list (map (f \<circ> snd) d)"

lemma dict_sum_simps [simp]:
  "dict_sum f [] = 0"
  "dict_sum f ((k, v) # d) = f v + dict_sum f d"
  by (simp_all add: dict_sum_def)

lemma dict_sum_set:
  "distinct (map fst d) \<Longrightarrow>
   dict_sum f (dict_set k v d) =
   dict_sum f d + f v - (case dict_get d k of None \<Rightarrow> 0 | Some w \<Rightarrow> f w)"
proof (induction d)
  case Nil
  then show ?case by simp
next
  case (Cons p d)
  obtain a b where p: "p = (a, b)" by (cases p)
  show ?case
  proof (cases "a = k")
    case True
    then show ?thesis by (simp add: p)
  next
    case False
    with Cons show ?thesis by (simp add: p)
  qed
qed

lemma dict_sum_pop:
  "distinct (map fst d) \<Longrightarrow>
   dict_sum f (dict_pop k d) =
   dict_sum f d - (case dict_get d k of None \<Rightarrow> 0 | Some w \<Rightarrow> f w)"
proof (induction d)
  case Nil
  then show ?case by simp
next
  case (Cons p d)
  obtain a b where p: "p = (a, b)" by (cases p)
  show ?case
  proof (cases "a = k")
    case True
    with Cons.prems have "dict_get d k = None"
      by (auto simp: p map_of_eq_None_iff)
    then have "dict_pop k d = d"
      by (simp add: delete_id map_of_eq_None_iff)
    with True show ?thesis by (simp add: p)
  next
    case False
    with Cons show ?thesis by (simp add: p)
  qed
qed

lemma dict_sum_nonneg:
  assumes "distinct (map fst d)" "\<And>k v. dict_get d k = Some v \<Longrightarrow> 0 \<le> f v"
  shows "0 \<le> dict_sum f d"
  unfolding dict_sum_def using assms by (intro sum_list_nonneg) auto

section \<open>The text of numbers\<close>

definition digit_char :: "nat \<Rightarrow> char" where
  "digit_char n = char_of (48 + n)"

definition is_digit :: "char \<Rightarrow> bool" where
  "is_digit c \<longleftrightarrow> 48 \<le> (of_char c :: nat) \<and> (of_char c :: nat) \<le> 57"

definition digit_val :: "char \<Rightarrow> nat" where
  "digit_val c = of_char c - 48"

lemma digit_char_simps [simp]:
  "digit_char 0 = CHR ''0''" "digit_char 1 = CHR ''1''" "digit_char (Suc 0) = CHR ''1''"
  "digit_char 2 = CHR ''2''" "digit_char 3 = CHR ''3''" "digit_char 4 = CHR ''4''"
  "digit_char 5 = CHR ''5''" "digit_char 6 = CHR ''6''" "digit_char 7 = CHR ''7''"
  "digit_char 8 = CHR ''8''" "digit_char 9 = CHR ''9''"
  by code_simp+

lemma digit_val_char [simp]: "n < 10 \<Longrightarrow> digit_val (digit_char n) = n"
  by (simp add: digit_val_def digit_char_def)

lemma is_digit_char [simp]: "n < 10 \<Longrightarrow> is_digit (digit_char n)"
  by (simp add: is_digit_def digit_char_def)

lemma digit_val_less: "is_digit c \<Longrightarrow> digit_val c < 10"
  by (auto simp: is_digit_def digit_val_def)

text \<open>Decimal digits of a natural number, most significant first, without leading zeros.\<close>

fun nat_str :: "nat \<Rightarrow> string" where
  "nat_str n = (if n < 10 then [digit_char n] else nat_str (n div 10) @ [digit_char (n mod 10)])"

declare nat_str.simps [simp del]

definition int_str :: "int \<Rightarrow> string" where
  "int_str i = (if i < 0 then ''-'' @ nat_str (nat (- i)) else nat_str (nat i))"

text \<open>A number written with exactly \<open>k\<close> digits, padded with zeros on the left.\<close>

fun pad_str :: "nat \<Rightarrow> nat \<Rightarrow> string" where
  "pad_str 0 n = []"
| "pad_str (Suc k) n = pad_str k (n div 10) @ [digit_char (n mod 10)]"

text \<open>Reading digits back.\<close>

fun digits_val_acc :: "nat \<Rightarrow> string \<Rightarrow> nat" where
  "digits_val_acc a [] = a"
| "digits_val_acc a (c # cs) = digits_val_acc (10 * a + digit_val c) cs"

definition digits_val :: "string \<Rightarrow> nat" where
  "digits_val s = digits_val_acc 0 s"

lemma digits_val_acc_append [simp]:
  "digits_val_acc a (s @ t) = digits_val_acc (digits_val_acc a s) t"
  by (induction s arbitrary: a) auto

lemma digits_val_Nil [simp]: "digits_val [] = 0"
  by (simp add: digits_val_def)

lemma digits_val_snoc [simp]: "digits_val (s @ [c]) = 10 * digits_val s + digit_val c"
  by (simp add: digits_val_def)

lemma digits_val_single [simp]: "digits_val [c] = digit_val c"
  by (simp add: digits_val_def)

lemma digits_nat_str [simp]: "digits_val (nat_str n) = n"
proof (induction n rule: nat_str.induct)
  case (1 n)
  then show ?case by (subst nat_str.simps) simp
qed

lemma all_digits_nat_str: "list_all is_digit (nat_str n)"
proof (induction n rule: nat_str.induct)
  case (1 n)
  then show ?case by (subst nat_str.simps) simp
qed

lemma nat_str_nonempty [simp]: "nat_str n \<noteq> []"
  by (subst nat_str.simps) simp

lemma length_pad_str [simp]: "length (pad_str k n) = k"
  by (induction k arbitrary: n) auto

lemma all_digits_pad_str: "list_all is_digit (pad_str k n)"
  by (induction k arbitrary: n) auto

lemma digits_pad_str: "n < 10 ^ k \<Longrightarrow> digits_val (pad_str k n) = n"
proof (induction k arbitrary: n)
  case 0
  then show ?case by simp
next
  case (Suc k)
  then have "n div 10 < 10 ^ k" by (simp add: less_mult_imp_div_less mult.commute)
  with Suc.IH show ?case by simp
qed

lemma nat_str_no_leading_zero: "n > 0 \<Longrightarrow> hd (nat_str n) \<noteq> CHR ''0''"
proof (induction n rule: nat_str.induct)
  case (1 n)
  show ?case
  proof (cases "n < 10")
    case True
    have "digit_val (digit_char n) \<noteq> digit_val (CHR ''0'')"
      using True 1 by (simp add: digit_val_def digit_char_def)
    then have "digit_char n \<noteq> CHR ''0''" by metis
    then show ?thesis using True by (subst nat_str.simps) simp
  next
    case False
    with 1 show ?thesis by (subst nat_str.simps) auto
  qed
qed

end
