(* ===== verification/Py_Decimal.thy ===== *)
theory Py_Decimal
  imports Prelude
begin

text \<open>
  The part of Python's \<^verbatim>\<open>decimal\<close> module that the money code relies on: finite decimals as a
  coefficient and an exponent, arithmetic rounded to the default context (28 digits, half even),
  numeric comparison, \<^verbatim>\<open>quantize\<close> to cents, \<^verbatim>\<open>str\<close> and the constructor from text. Signed zeros
  are identified, and the exponent limits of the context (about \<open>10 ^ 18\<close>) are not modelled.
\<close>

section \<open>Numbers\<close>

datatype dec = Dec (coeff: int) (expo: int)

abbreviation decimal_prec :: nat where
  "decimal_prec \<equiv> 28"

fun ndigits :: "nat \<Rightarrow> nat" where
  "ndigits n = (if n < 10 then 1 else Suc (ndigits (n div 10)))"

declare ndigits.simps [simp del]

text \<open>Division of an integer by a positive one, rounded to the nearest, ties to even.\<close>

definition round_half_even :: "int \<Rightarrow> int \<Rightarrow> int" where
  "round_half_even c d =
     (let q = c div d; r = c mod d
      in if 2 * r < d then q
         else if 2 * r > d then q + 1
         else if even q then q else q + 1)"

text \<open>Rounding a result to the precision of the context.\<close>

definition dec_fix :: "dec \<Rightarrow> dec" where
  "dec_fix x =
     (let n = ndigits (nat \<bar>coeff x\<bar>)
      in if n \<le> decimal_prec then x
         else let k = n - decimal_prec;
                  c = round_half_even (coeff x) (10 ^ k)
              in if \<bar>c\<bar> = 10 ^ decimal_prec then Dec (c div 10) (expo x + int k + 1)
                 else Dec c (expo x + int k))"

text \<open>The coefficient of a decimal at a smaller exponent.\<close>

definition dec_scale :: "dec \<Rightarrow> int \<Rightarrow> int" where
  "dec_scale x m = coeff x * 10 ^ nat (expo x - m)"

definition dec_add :: "dec \<Rightarrow> dec \<Rightarrow> dec" where
  "dec_add x y =
     (let m = min (expo x) (expo y) in dec_fix (Dec (dec_scale x m + dec_scale y m) m))"

definition dec_sub :: "dec \<Rightarrow> dec \<Rightarrow> dec" where
  "dec_sub x y =
     (let m = min (expo x) (expo y) in dec_fix (Dec (dec_scale x m - dec_scale y m) m))"

definition dec_mul :: "dec \<Rightarrow> dec \<Rightarrow> dec" where
  "dec_mul x y = dec_fix (Dec (coeff x * coeff y) (expo x + expo y))"

text \<open>Stripping trailing zeros of an exact quotient down to the ideal exponent.\<close>

function strip_to :: "int \<Rightarrow> int \<Rightarrow> int \<Rightarrow> dec" where
  "strip_to c e ideal =
     (if e < ideal \<and> c mod 10 = 0 \<and> c \<noteq> 0 then strip_to (c div 10) (e + 1) ideal else Dec c e)"
  by pat_completeness auto
termination
  by (relation "measure (\<lambda>(c, e, ideal). nat (ideal - e))") auto

declare strip_to.simps [simp del]

text \<open>
  Division of non-negative decimals by a positive one: one digit more than the precision, a
  sticky last digit for an inexact quotient, then the context's rounding.
\<close>

definition dec_div :: "dec \<Rightarrow> dec \<Rightarrow> dec" where
  "dec_div x y =
     (let ideal = expo x - expo y
      in if coeff x = 0 then Dec 0 ideal
         else let shift = int (ndigits (nat (coeff y))) - int (ndigits (nat (coeff x)))
                            + int decimal_prec + 1;
                  e = ideal - shift;
                  num = (if 0 \<le> shift then coeff x * 10 ^ nat shift else coeff x);
                  den = (if 0 \<le> shift then coeff y else coeff y * 10 ^ nat (- shift));
                  q = num div den; r = num mod den
              in if r \<noteq> 0 then dec_fix (Dec (if q mod 5 = 0 then q + 1 else q) e)
                 else dec_fix (strip_to q e ideal))"

text \<open>
  Remainder of non-negative decimals by a positive one. The integer quotient has to fit the
  precision, otherwise \<^verbatim>\<open>InvalidOperation\<close> is raised.
\<close>

definition dec_mod :: "dec \<Rightarrow> dec \<Rightarrow> dec res" where
  "dec_mod x y =
     (let m = min (expo x) (expo y);
          a = dec_scale x m; b = dec_scale y m
      in if a div b < 10 ^ decimal_prec then Inr (dec_fix (Dec (a mod b) m))
         else Inl InvalidOperation)"

definition dec_eq :: "dec \<Rightarrow> dec \<Rightarrow> bool" where
  "dec_eq x y \<longleftrightarrow> (let m = min (expo x) (expo y) in dec_scale x m = dec_scale y m)"

definition dec_less :: "dec \<Rightarrow> dec \<Rightarrow> bool" where
  "dec_less x y \<longleftrightarrow> (let m = min (expo x) (expo y) in dec_scale x m < dec_scale y m)"

definition dec_le :: "dec \<Rightarrow> dec \<Rightarrow> bool" where
  "dec_le x y \<longleftrightarrow> (let m = min (expo x) (expo y) in dec_scale x m \<le> dec_scale y m)"

text \<open>\<^verbatim>\<open>int(d)\<close> truncates towards zero.\<close>

definition dec_trunc :: "dec \<Rightarrow> int" where
  "dec_trunc x =
     (if 0 \<le> expo x then coeff x * 10 ^ nat (expo x)
      else sgn (coeff x) * (\<bar>coeff x\<bar> div 10 ^ nat (- expo x)))"

section \<open>Cents\<close>

text \<open>
  Money that has passed \<^verbatim>\<open>quantize(Decimal("0.01"))\<close> is a decimal of exponent \<open>-2\<close>: the model
  carries its coefficient, the number of cents.
\<close>

type_synonym cents = int

abbreviation cents_dec :: "cents \<Rightarrow> dec" where
  "cents_dec c \<equiv> Dec c (- 2)"

abbreviation cents_limit :: int where
  "cents_limit \<equiv> 10 ^ decimal_prec"

definition valid_cents :: "cents \<Rightarrow> bool" where
  "valid_cents c \<longleftrightarrow> 0 \<le> c \<and> c < cents_limit"

text \<open>
  \<^verbatim>\<open>quantize\<close> rounds half even to two decimals and raises \<^verbatim>\<open>InvalidOperation\<close> when the result
  needs more digits than the precision.
\<close>

definition dec_quantize_cent :: "dec \<Rightarrow> cents res" where
  "dec_quantize_cent x =
     (let c = (if - 2 \<le> expo x then coeff x * 10 ^ nat (expo x + 2)
               else round_half_even (coeff x) (10 ^ nat (- 2 - expo x)))
      in if \<bar>c\<bar> < cents_limit then Inr c else Inl InvalidOperation)"

section \<open>Text\<close>

definition cents_str :: "cents \<Rightarrow> string" where
  "cents_str c = nat_str (nat c div 100) @ ''.'' @ pad_str 2 (nat c mod 100)"

definition dec_str :: "dec \<Rightarrow> string" where
  "dec_str x =
     (let ds = nat_str (nat \<bar>coeff x\<bar>);
          left = expo x + int (length ds);
          dot = (if expo x \<le> 0 \<and> left > - 6 then left else 1);
          mant = (if dot \<le> 0 then ''0.'' @ replicate (nat (- dot)) (CHR ''0'') @ ds
                  else if int (length ds) \<le> dot
                  then ds @ replicate (nat (dot - int (length ds))) (CHR ''0'')
                  else take (nat dot) ds @ ''.'' @ drop (nat dot) ds);
          ex = (if left = dot then ''''
                else ''E'' @ (if 0 \<le> left - dot then ''+'' else '''') @ int_str (left - dot))
      in (if coeff x < 0 then ''-'' else '''') @ mant @ ex)"

datatype decimal_literal = FiniteDecimal dec | SpecialDecimal

definition is_space :: "char \<Rightarrow> bool" where
  "is_space c \<longleftrightarrow> (of_char c :: nat) \<in> {9, 10, 11, 12, 13, 28, 29, 30, 31, 32}"

definition py_strip :: "string \<Rightarrow> string" where
  "py_strip s = rev (dropWhile is_space (rev (dropWhile is_space s)))"

definition to_lower :: "char \<Rightarrow> char" where
  "to_lower c =
     (let n = (of_char c :: nat) in if 65 \<le> n \<and> n \<le> 90 then char_of (n + 32) else c)"

definition to_upper :: "char \<Rightarrow> char" where
  "to_upper c =
     (let n = (of_char c :: nat) in if 97 \<le> n \<and> n \<le> 122 then char_of (n - 32) else c)"

definition take_sign :: "string \<Rightarrow> int \<times> string" where
  "take_sign s =
     (case s of [] \<Rightarrow> (1, [])
      | c # cs \<Rightarrow> if c = CHR ''-'' then (- 1, cs) else if c = CHR ''+'' then (1, cs) else (1, s))"

definition is_special_body :: "string \<Rightarrow> bool" where
  "is_special_body s \<longleftrightarrow>
     (let t = map to_lower s
      in t = ''inf'' \<or> t = ''infinity''
         \<or> (take 3 t = ''nan'' \<and> list_all is_digit (drop 3 t))
         \<or> (take 4 t = ''snan'' \<and> list_all is_digit (drop 4 t)))"

definition take_exponent :: "string \<Rightarrow> int option" where
  "take_exponent s =
     (case s of [] \<Rightarrow> Some 0
      | c # cs \<Rightarrow>
          if c = CHR ''e'' \<or> c = CHR ''E''
          then (let (sg, ds) = take_sign cs
                in if ds \<noteq> [] \<and> list_all is_digit ds then Some (sg * int (digits_val ds)) else None)
          else None)"

text \<open>\<^verbatim>\<open>Decimal(text)\<close>: surrounding white space and underscores are ignored.\<close>

definition parse_decimal :: "string \<Rightarrow> decimal_literal res" where
  "parse_decimal raw =
     (let (sg, body) = take_sign (filter (\<lambda>c. c \<noteq> CHR ''_'') (py_strip raw));
          ip = takeWhile is_digit body;
          r1 = dropWhile is_digit body;
          has_dot = (r1 \<noteq> [] \<and> hd r1 = CHR ''.'');
          fp = (if has_dot then takeWhile is_digit (tl r1) else []);
          r2 = (if has_dot then dropWhile is_digit (tl r1) else r1)
      in if ip @ fp = []
         then (if is_special_body body then Inr SpecialDecimal else Inl InvalidOperation)
         else (case take_exponent r2 of
                 None \<Rightarrow> Inl InvalidOperation
               | Some ex \<Rightarrow>
                   Inr (FiniteDecimal (Dec (sg * int (digits_val (ip @ fp))) (ex - int (length fp))))))"

text \<open>The number that a text reads to, where special values are refused.\<close>

definition decimal_of :: "string \<Rightarrow> dec res" where
  "decimal_of t = bind_res (parse_decimal t) (\<lambda>l. case l of FiniteDecimal d \<Rightarrow> Inr d | SpecialDecimal \<Rightarrow> Inl ValueError)"

section \<open>Facts about rounding and comparison\<close>

lemma ndigits_upper: "n < 10 ^ ndigits n"
proof (induction n rule: ndigits.induct)
  case (1 n)
  show ?case
  proof (cases "n < 10")
    case True
    then show ?thesis by (simp add: ndigits.simps [of n])
  next
    case False
    with 1 have "n div 10 < 10 ^ ndigits (n div 10)" by simp
    then have "n < 10 * 10 ^ ndigits (n div 10)" by (simp add: div_less_iff_less_mult mult.commute)
    with False show ?thesis by (simp add: ndigits.simps [of n])
  qed
qed

lemma ndigits_lower: "n > 0 \<Longrightarrow> 10 ^ (ndigits n - 1) \<le> n"
proof (induction n rule: ndigits.induct)
  case (1 n)
  show ?case
  proof (cases "n < 10")
    case True
    with 1 show ?thesis by (simp add: ndigits.simps [of n])
  next
    case False
    then have "n div 10 > 0" by (simp add: div_greater_zero_iff)
    with 1 False have "10 ^ (ndigits (n div 10) - 1) \<le> n div 10" by simp
    then have "10 * 10 ^ (ndigits (n div 10) - 1) \<le> n" by simp
    moreover have "ndigits (n div 10) \<ge> 1" by (simp add: ndigits.simps [of "n div 10"])
    ultimately show ?thesis
      using False by (simp add: ndigits.simps [of n] flip: power_Suc)
  qed
qed

lemma ndigits_le_iff: "n > 0 \<Longrightarrow> ndigits n \<le> k \<longleftrightarrow> n < 10 ^ k"
proof
  assume "n > 0" "ndigits n \<le> k"
  then show "n < 10 ^ k"
    using ndigits_upper [of n] by (meson less_le_trans one_le_numeral power_increasing)
next
  assume n: "n > 0" "n < 10 ^ k"
  then have "(10::nat) ^ (ndigits n - 1) < 10 ^ k"
    using ndigits_lower [of n] by linarith
  then have "ndigits n - 1 < k" by simp
  then show "ndigits n \<le> k" by linarith
qed

lemma ndigits_0 [simp]: "ndigits 0 = 1"
  by (simp add: ndigits.simps)

lemma dec_fix_small:
  assumes "\<bar>c\<bar> < cents_limit"
  shows "dec_fix (Dec c e) = Dec c e"
proof (cases "c = 0")
  case True
  then show ?thesis by (simp add: dec_fix_def)
next
  case False
  with assms have "nat \<bar>c\<bar> > 0" "nat \<bar>c\<bar> < 10 ^ decimal_prec" by (auto simp: nat_less_iff)
  then have "ndigits (nat \<bar>c\<bar>) \<le> decimal_prec" by (simp only: ndigits_le_iff)
  then show ?thesis by (simp add: dec_fix_def Let_def)
qed

lemma round_half_even_ge:
  assumes "0 < d" "q * d \<le> c"
  shows "q \<le> round_half_even c d"
proof -
  have "q = q * d div d" using assms(1) by simp
  also have "\<dots> \<le> c div d" using assms(2,1) by (rule zdiv_mono1)
  finally show ?thesis by (simp add: round_half_even_def Let_def)
qed

text \<open>A value at or above the limit stays there when it is rounded to the precision.\<close>

definition above_limit :: "dec \<Rightarrow> bool" where
  "above_limit x \<longleftrightarrow> - 2 \<le> expo x \<and> cents_limit \<le> dec_scale x (- 2)"

lemma dec_fix_above_limit:
  assumes "cents_limit \<le> c"
  shows "above_limit (dec_fix (cents_dec c))"
proof -
  define n where "n = ndigits (nat \<bar>c\<bar>)"
  define k where "k = n - decimal_prec"
  define q where "q = round_half_even c (10 ^ k)"
  have pos: "nat \<bar>c\<bar> > 0" using assms by (simp add: order_less_le_trans [of 0 cents_limit])
  have big: "\<not> n \<le> decimal_prec"
    unfolding n_def ndigits_le_iff [OF pos] using assms by simp
  then have nk: "n - 1 = (decimal_prec - 1) + k" and k1: "1 \<le> k" by (simp_all add: k_def)
  have "10 ^ (n - 1) \<le> nat \<bar>c\<bar>" unfolding n_def by (rule ndigits_lower [OF pos])
  then have "(10::int) ^ (n - 1) \<le> c"
    using assms by (simp add: le_nat_iff)
  then have "(10::int) ^ (decimal_prec - 1) * 10 ^ k \<le> c"
    unfolding nk by (simp only: power_add)
  then have q: "10 ^ (decimal_prec - 1) \<le> q"
    unfolding q_def by (intro round_half_even_ge) simp_all
  have "cents_limit \<le> q * 10 ^ k"
  proof -
    have "(10::int) ^ decimal_prec = 10 ^ (decimal_prec - 1) * 10 ^ 1" by simp
    also have "\<dots> \<le> q * 10 ^ k"
      using q k1 by (intro mult_mono power_increasing) simp_all
    finally show ?thesis .
  qed
  moreover have "q = 10 ^ decimal_prec \<Longrightarrow> cents_limit \<le> (q div 10) * 10 ^ (k + 1)" by simp
  ultimately show ?thesis
    using big q by (auto simp: dec_fix_def Let_def above_limit_def dec_scale_def nat_add_distrib
        simp flip: n_def k_def q_def)
qed

lemma dec_add_cents:
  "dec_add (cents_dec a) (cents_dec b) = dec_fix (cents_dec (a + b))"
  by (simp add: dec_add_def dec_scale_def)

lemma dec_add_above_limit:
  assumes "above_limit x" "0 \<le> a"
  shows "above_limit (dec_add x (cents_dec a))"
proof -
  have "cents_limit \<le> dec_scale x (- 2) + a"
    using assms by (simp add: above_limit_def)
  then have "above_limit (dec_fix (cents_dec (dec_scale x (- 2) + a)))"
    by (rule dec_fix_above_limit)
  moreover have "dec_add x (cents_dec a) = dec_fix (cents_dec (dec_scale x (- 2) + a))"
    using assms by (auto simp: dec_add_def above_limit_def Let_def dec_scale_def min_def)
  ultimately show ?thesis by simp
qed

lemma dec_less_above_limit:
  "above_limit x \<Longrightarrow> b < cents_limit \<Longrightarrow> dec_less (cents_dec b) x"
  by (simp add: dec_less_def above_limit_def dec_scale_def min_def)

text \<open>
  Adding cents in the context is exact below the limit, and a rounded sum is above every amount
  that passed \<^verbatim>\<open>quantize\<close>. So the budget comparison of the gate is the exact one.
\<close>

lemma dec_sum3_exceeds:
  assumes "b < cents_limit" "valid_cents s" "valid_cents r" "valid_cents a"
  shows "dec_less (cents_dec b) (dec_add (dec_add (cents_dec s) (cents_dec r)) (cents_dec a))
         \<longleftrightarrow> b < s + r + a"
proof (cases "s + r + a < cents_limit")
  case True
  then have "dec_add (dec_add (cents_dec s) (cents_dec r)) (cents_dec a) = cents_dec (s + r + a)"
    using assms by (simp add: dec_add_cents dec_fix_small valid_cents_def)
  then show ?thesis by (simp add: dec_less_def dec_scale_def)
next
  case False
  have "above_limit (dec_add (dec_add (cents_dec s) (cents_dec r)) (cents_dec a))"
  proof (cases "s + r < cents_limit")
    case True
    then show ?thesis
      using assms False by (simp add: dec_add_cents dec_fix_small valid_cents_def dec_fix_above_limit)
  next
    case False
    then have "above_limit (dec_add (cents_dec s) (cents_dec r))"
      by (simp add: dec_add_cents dec_fix_above_limit)
    moreover have "0 \<le> a" using assms(4) by (simp add: valid_cents_def)
    ultimately show ?thesis by (rule dec_add_above_limit)
  qed
  then have "dec_less (cents_dec b) (dec_add (dec_add (cents_dec s) (cents_dec r)) (cents_dec a))"
    using assms by (intro dec_less_above_limit) (simp_all add: valid_cents_def)
  with False assms(1) show ?thesis by simp
qed

lemma dec_sum3_exceeds_iff:
  assumes "valid_cents b" "valid_cents s" "valid_cents r" "valid_cents a"
  shows "dec_less (cents_dec b) (dec_add (dec_add (cents_dec s) (cents_dec r)) (cents_dec a))
         \<longleftrightarrow> b < s + r + a"
  using assms by (intro dec_sum3_exceeds) (simp_all add: valid_cents_def)

lemma dec_less_cents [simp]: "dec_less (cents_dec a) (cents_dec b) \<longleftrightarrow> a < b"
  and dec_le_cents [simp]: "dec_le (cents_dec a) (cents_dec b) \<longleftrightarrow> a \<le> b"
  and dec_eq_cents [simp]: "dec_eq (cents_dec a) (cents_dec b) \<longleftrightarrow> a = b"
  by (simp_all add: dec_less_def dec_le_def dec_eq_def dec_scale_def)

lemma dec_less_iff_not_le: "dec_less x y \<longleftrightarrow> \<not> dec_le y x"
  by (auto simp: dec_less_def dec_le_def Let_def min.commute)

section \<open>Facts about text\<close>

lemma takeWhile_digits_append [simp]:
  assumes "list_all is_digit ds" "r = [] \<or> \<not> is_digit (hd r)"
  shows "takeWhile is_digit (ds @ r) = ds" "dropWhile is_digit (ds @ r) = r"
  using assms by (induction ds; cases r; simp)+

lemma not_digit_chars [simp]:
  "\<not> is_digit (CHR ''.'')" "\<not> is_digit (CHR ''-'')" "\<not> is_digit (CHR ''+'')"
  "\<not> is_digit (CHR ''_'')" "\<not> is_digit (CHR ''T'')" "\<not> is_digit (CHR '':'')"
  "is_digit (CHR ''0'')"
  by (simp_all add: is_digit_def)

lemma digit_not_space: "is_digit c \<Longrightarrow> \<not> is_space c"
  by (auto simp: is_digit_def is_space_def)

lemma py_strip_id:
  assumes "s \<noteq> []" "\<not> is_space (hd s)" "\<not> is_space (last s)"
  shows "py_strip s = s"
proof -
  have d: "dropWhile is_space t = t" if "t \<noteq> []" "\<not> is_space (hd t)" for t
    using that by (cases t) auto
  have "dropWhile is_space (rev s) = rev s" using assms by (intro d) (simp_all add: hd_rev)
  then show ?thesis using assms by (simp add: py_strip_def d)
qed

lemma quantize_cents [simp]: "valid_cents c \<Longrightarrow> dec_quantize_cent (cents_dec c) = Inr c"
  by (simp add: dec_quantize_cent_def valid_cents_def)

lemma quantize_Inr_bound: "dec_quantize_cent x = Inr c \<Longrightarrow> \<bar>c\<bar> < cents_limit"
  by (auto simp: dec_quantize_cent_def Let_def split: if_splits)

text \<open>Reading a plain two-decimal numeral gives its cents.\<close>

lemma parse_two_decimals:
  assumes ip: "ip \<noteq> []" "list_all is_digit ip" and fp: "list_all is_digit fp" "length fp = 2"
  shows "parse_decimal (ip @ ''.'' @ fp) = Inr (FiniteDecimal (cents_dec (int (digits_val (ip @ fp)))))"
proof -
  let ?s = "ip @ ''.'' @ fp"
  have nd: "c \<noteq> CHR ''_''" if "is_digit c" for c using that by auto
  from ip obtain c cs where c: "ip = c # cs" "is_digit c" by (cases ip) auto
  have lastd: "is_digit (last fp)" using fp by (cases fp rule: rev_cases) auto
  have strip: "py_strip ?s = ?s"
    using c lastd fp by (intro py_strip_id) (auto simp: digit_not_space)
  have keep: "filter (\<lambda>c. c \<noteq> CHR ''_'') ?s = ?s"
    using ip fp nd by (simp add: filter_id_conv list_all_iff)
  have sign: "take_sign ?s = (1, ?s)"
    using c by (auto simp: take_sign_def)
  have tw: "takeWhile is_digit ?s = ip" and dw: "dropWhile is_digit ?s = ''.'' @ fp"
    using ip by simp_all
  have tf: "takeWhile is_digit fp = fp" and df: "dropWhile is_digit fp = []"
    using fp takeWhile_digits_append [of fp "[]"] by simp_all
  show ?thesis
    unfolding parse_decimal_def strip keep sign prod.case tw dw Let_def
    using ip fp(2) by (simp add: take_exponent_def tf df)
qed

lemma digits_val_append: "digits_val (s @ t) = digits_val s * 10 ^ length t + digits_val t"
proof (induction t rule: rev_induct)
  case Nil
  then show ?case by simp
next
  case (snoc c t)
  have "digits_val (s @ t @ [c]) = 10 * digits_val (s @ t) + digit_val c"
    by (simp flip: append_assoc)
  with snoc show ?case by (simp add: algebra_simps)
qed

lemma parse_cents_str:
  assumes "0 \<le> c"
  shows "parse_decimal (cents_str c) = Inr (FiniteDecimal (cents_dec c))"
proof -
  have "int (digits_val (nat_str (nat c div 100) @ pad_str 2 (nat c mod 100))) = c"
    using assms by (simp add: digits_val_append digits_pad_str del: pad_str.simps)
  then show ?thesis
    unfolding cents_str_def
    by (subst parse_two_decimals) (simp_all add: all_digits_nat_str all_digits_pad_str
        del: pad_str.simps)
qed

lemma pad_str_two: "pad_str 2 n = [digit_char (n div 10 mod 10), digit_char (n mod 10)]"
  by (simp add: numeral_2_eq_2)

lemma nat_str_hundred: "100 \<le> n \<Longrightarrow> nat_str n = nat_str (n div 100) @ pad_str 2 (n mod 100)"
proof -
  assume n: "100 \<le> n"
  have "nat_str n = nat_str (n div 10) @ [digit_char (n mod 10)]" using n by (subst nat_str.simps) simp
  also have "nat_str (n div 10) = nat_str (n div 10 div 10) @ [digit_char (n div 10 mod 10)]" using n by (subst nat_str.simps) simp
  also have "n div 10 div 10 = n div 100" by (simp add: div_mult2_eq [symmetric])
  also have "n div 10 mod 10 = n mod 100 div 10 mod 10" using mod_mult2_eq [of n 10 10] by simp
  finally show ?thesis by (simp add: pad_str_two mod_mod_cancel)
qed

lemma dec_str_cents:
  assumes "0 \<le> c"
  shows "dec_str (cents_dec c) = cents_str c"
proof -
  obtain n where n: "c = int n" using assms by (metis zero_le_imp_eq_int)
  show ?thesis
  proof (cases "100 \<le> n")
    case True
    have "length (nat_str n) = length (nat_str (n div 100)) + 2" using nat_str_hundred [OF True] by simp
    moreover have "length (nat_str (n div 100)) \<noteq> 0" by simp
    ultimately show ?thesis
      using nat_str_hundred [OF True] unfolding n by (simp add: dec_str_def cents_str_def Let_def)
  next
    case False
    have zero: "char_of (48 :: nat) = CHR ''0''" by code_simp
    with False have z: "nat_str (n div 100) = ''0''" by (simp add: nat_str.simps digit_char_def)
    show ?thesis
    proof (cases "n < 10")
      case True
      then show ?thesis unfolding n
        by (simp add: dec_str_def cents_str_def Let_def nat_str.simps [of n] nat_str.simps [of 0] pad_str_two digit_char_def zero)
    next
      case small: False
      have "nat_str n = [digit_char (n div 10), digit_char (n mod 10)]"
        using False small by (subst nat_str.simps, subst nat_str.simps) simp
      with False small z show ?thesis unfolding n
        by (simp add: dec_str_def cents_str_def Let_def pad_str_two)
    qed
  qed
qed

end
