(* ===== verification/Py_Time.thy ===== *)
theory Py_Time
  imports Py_Decimal
begin

text \<open>
  Timestamps as Python's \<^verbatim>\<open>datetime\<close> has them. An aware timestamp is the instant it denotes, in
  microseconds since 0001-01-01T00:00:00Z; its original offset is never observed, since every use
  goes through a conversion to UTC first. The theory gives the Gregorian calendar, \<^verbatim>\<open>isoformat\<close>
  for UTC timestamps and the reader for that text, and proves that they are inverse.
\<close>

section \<open>Instants\<close>

type_synonym instant = int
type_synonym micros = int

datatype dtime = Naive instant | Aware instant

abbreviation us_per_second :: int where "us_per_second \<equiv> 1000000"
abbreviation us_per_minute :: int where "us_per_minute \<equiv> 60000000"
abbreviation us_per_day :: int where "us_per_day \<equiv> 86400000000"

abbreviation seconds :: "int \<Rightarrow> micros" where "seconds n \<equiv> n * us_per_second"

text \<open>The year ranges over 1 to 9999: 3652059 days.\<close>

definition in_range :: "instant \<Rightarrow> bool" where
  "in_range t \<longleftrightarrow> 0 \<le> t \<and> t < 3652059 * us_per_day"

text \<open>\<^verbatim>\<open>t + timedelta\<close> raises \<^verbatim>\<open>OverflowError\<close> outside that range.\<close>

definition dt_add :: "instant \<Rightarrow> micros \<Rightarrow> instant res" where
  "dt_add t d = (if in_range (t + d) then Inr (t + d) else Inl OverflowError)"

lemma dt_add_Inr: "dt_add t d = Inr u \<longleftrightarrow> u = t + d \<and> in_range (t + d)"
  by (auto simp: dt_add_def)

text \<open>\<^verbatim>\<open>replace(second=0, microsecond=0)\<close>\<close>

definition floor_minute :: "instant \<Rightarrow> instant" where
  "floor_minute t = t - t mod us_per_minute"

lemma floor_minute_le: "floor_minute t \<le> t"
  by (simp add: floor_minute_def)

lemma floor_minute_gt: "t < floor_minute t + us_per_minute"
  by (simp add: floor_minute_def algebra_simps pos_mod_bound)

lemma floor_minute_mono: "s \<le> t \<Longrightarrow> floor_minute s \<le> floor_minute t"
  by (simp add: floor_minute_def minus_mod_eq_mult_div zdiv_mono1)

section \<open>The calendar\<close>

definition is_leap :: "nat \<Rightarrow> bool" where
  "is_leap y \<longleftrightarrow> 4 dvd y \<and> (\<not> 100 dvd y \<or> 400 dvd y)"

definition days_in_year :: "nat \<Rightarrow> nat" where
  "days_in_year y = (if is_leap y then 366 else 365)"

definition days_in_month :: "nat \<Rightarrow> nat \<Rightarrow> nat" where
  "days_in_month y m =
     (if m = 2 then (if is_leap y then 29 else 28)
      else if m = 4 \<or> m = 6 \<or> m = 9 \<or> m = 11 then 30 else 31)"

text \<open>Days before the first of January of year \<open>y\<close>, and before the first of month \<open>m\<close>.\<close>

definition days_before_year :: "nat \<Rightarrow> nat" where
  "days_before_year y =
     (let z = y - 1 in 365 * z + z div 4 + z div 400 - z div 100)"

fun days_before_month :: "nat \<Rightarrow> nat \<Rightarrow> nat" where
  "days_before_month y 0 = 0"
| "days_before_month y (Suc m) = (if m = 0 then 0 else days_before_month y m + days_in_month y m)"

definition days_of_date :: "nat \<Rightarrow> nat \<Rightarrow> nat \<Rightarrow> nat" where
  "days_of_date y m d = days_before_year y + days_before_month y m + (d - 1)"

text \<open>The year that a day falls in: years of a 400-year cycle one after the other.\<close>

function year_from :: "nat \<Rightarrow> nat \<Rightarrow> nat \<times> nat" where
  "year_from y d =
     (if d < days_in_year y then (y, d) else year_from (Suc y) (d - days_in_year y))"
  by pat_completeness auto
termination
  by (relation "measure snd") (auto simp: days_in_year_def split: if_splits)

declare year_from.simps [simp del]

function month_from :: "nat \<Rightarrow> nat \<Rightarrow> nat \<Rightarrow> nat \<times> nat" where
  "month_from y m d =
     (if d < days_in_month y m \<or> 12 \<le> m then (m, d)
      else month_from y (Suc m) (d - days_in_month y m))"
  by pat_completeness auto
termination
  by (relation "measure (\<lambda>(y, m, d). 12 - m)") auto

declare month_from.simps [simp del]

definition date_of_days :: "nat \<Rightarrow> nat \<times> nat \<times> nat" where
  "date_of_days n =
     (let (y0, d0) = year_from 1 (n mod 146097);
          y = 400 * (n div 146097) + y0;
          (m, d) = month_from y 1 d0
      in (y, m, d + 1))"

lemma div_Suc_step: "Suc z div n = z div n + (if n dvd Suc z then 1 else 0)"
  by (simp add: div_Suc dvd_eq_mod_eq_0)

lemma days_before_year_Suc:
  assumes "1 \<le> y"
  shows "days_before_year (Suc y) = days_before_year y + days_in_year y"
proof -
  obtain z where y: "y = Suc z" using assms by (cases y) auto
  have le: "z div 100 \<le> z div 4" by (rule div_le_mono2) simp_all
  have leap: "100 dvd Suc z \<Longrightarrow> 4 dvd Suc z" "400 dvd Suc z \<Longrightarrow> 100 dvd Suc z"
    by (auto elim: dvd_trans [rotated])
  have "days_before_year (Suc y) =
      365 * Suc z + (z div 4 + (if 4 dvd Suc z then 1 else 0))
      + (z div 400 + (if 400 dvd Suc z then 1 else 0)) - (z div 100 + (if 100 dvd Suc z then 1 else 0))"
    unfolding days_before_year_def y Let_def diff_Suc_1 div_Suc_step ..
  also have "\<dots> = 365 * z + z div 4 + z div 400 - z div 100 + days_in_year y"
    using le leap by (cases "400 dvd Suc z"; cases "100 dvd Suc z"; cases "4 dvd Suc z")
      (simp_all only: days_in_year_def is_leap_def y simp_thms if_True if_False, simp_all add: ac_simps)
  finally show ?thesis unfolding y days_before_year_def [of "Suc z"] Let_def diff_Suc_1 .
qed

lemma is_leap_cycle [simp]: "is_leap (400 * k + y) = is_leap y"
proof -
  have "(n::nat) dvd 400 * k + y \<longleftrightarrow> n dvd y" if "n dvd 400" for n
    using that by (metis dvd_add_right_iff dvd_mult2)
  from this [of 4] this [of 100] this [of 400] show ?thesis
    by (simp add: is_leap_def)
qed

lemma days_in_year_cycle [simp]: "days_in_year (400 * k + y) = days_in_year y"
  by (simp add: days_in_year_def)

lemma days_before_year_cycle:
  assumes "1 \<le> y"
  shows "days_before_year (400 * k + y) = 146097 * k + days_before_year y"
proof -
  have shift: "365 * (400 * k + x) + (100 * k + a) + (k + c) - (4 * k + b) = 146097 * k + (365 * x + a + c - b)"
    if "b \<le> a" for x a b c :: nat
    using that by simp
  obtain z where y: "y = Suc z" using assms by (cases y) auto
  have le: "z div 100 \<le> z div 4" by (rule div_le_mono2) simp_all
  have cyc: "(400 * k + z) div 4 = 100 * k + z div 4"
    "(400 * k + z) div 400 = k + z div 400" "(400 * k + z) div 100 = 4 * k + z div 100"
    by simp_all
  show ?thesis
    unfolding days_before_year_def Let_def y add_Suc_right diff_Suc_1 cyc by (rule shift [OF le])
qed

lemma year_from_correct:
  assumes "1 \<le> y" "year_from y d = (y', d')"
  shows "days_before_year y' + d' = days_before_year y + d \<and> d' < days_in_year y' \<and> y \<le> y'"
  using assms
proof (induction y d rule: year_from.induct)
  case (1 y d)
  show ?case
  proof (cases "d < days_in_year y")
    case True
    with 1 show ?thesis by (simp add: year_from.simps [of y d])
  next
    case False
    with "1.prems" have "year_from (Suc y) (d - days_in_year y) = (y', d')"
      by (simp add: year_from.simps [of y d])
    with "1.IH" [OF False] have
      "days_before_year y' + d' = days_before_year (Suc y) + (d - days_in_year y) \<and>
       d' < days_in_year y' \<and> Suc y \<le> y'" by simp
    with False 1 show ?thesis by (simp add: days_before_year_Suc)
  qed
qed

lemma days_before_month_13: "days_before_month y 13 = days_in_year y"
  by (simp add: days_in_month_def days_in_year_def numeral_eq_Suc)

lemma month_from_correct:
  assumes "1 \<le> m" "m \<le> 12" "days_before_month y m + d < days_before_month y 13"
    "month_from y m d = (m', d')"
  shows "days_before_month y m' + d' = days_before_month y m + d \<and> d' < days_in_month y m'
         \<and> 1 \<le> m' \<and> m' \<le> 12"
  using assms
proof (induction y m d rule: month_from.induct)
  case (1 y m d)
  have step: "days_before_month y (Suc m) = days_before_month y m + days_in_month y m"
    using "1.prems" by simp
  show ?case
  proof (cases "d < days_in_month y m \<or> 12 \<le> m")
    case True
    then have "(m', d') = (m, d)" using "1.prems" by (simp add: month_from.simps [of y m d])
    moreover have "d < days_in_month y m"
    proof (rule ccontr)
      assume "\<not> d < days_in_month y m"
      with True "1.prems" have "m = 12" by simp
      with step "1.prems" \<open>\<not> d < days_in_month y m\<close> show False by simp
    qed
    ultimately show ?thesis using "1.prems" by simp
  next
    case False
    with "1.prems" have rest: "month_from y (Suc m) (d - days_in_month y m) = (m', d')"
      by (simp add: month_from.simps [of y m d])
    have "days_before_month y (Suc m) + (d - days_in_month y m) < days_before_month y 13"
      unfolding step using False "1.prems" by simp
    from "1.IH" [OF False _ _ this rest] False step show ?thesis by simp
  qed
qed

text \<open>The calendar date of a day denotes that day.\<close>

theorem date_of_days_correct:
  assumes "date_of_days n = (y, m, d)"
  shows "days_of_date y m d = n \<and> 1 \<le> m \<and> m \<le> 12 \<and> 1 \<le> d \<and> d \<le> days_in_month y m \<and> 1 \<le> y"
proof -
  define k r where "k = n div 146097" and "r = n mod 146097"
  obtain y0 d0 where yf: "year_from 1 r = (y0, d0)" by fastforce
  obtain m0 d1 where mf: "month_from (400 * k + y0) 1 d0 = (m0, d1)" by fastforce
  from assms yf mf have eqs: "y = 400 * k + y0" "m = m0" "d = d1 + 1"
    by (simp_all add: date_of_days_def k_def r_def Let_def)
  from year_from_correct [OF _ yf] have y0: "days_before_year y0 + d0 = r" "d0 < days_in_year y0" "1 \<le> y0"
    by (simp_all add: days_before_year_def)
  have "days_before_month y 1 + d0 < days_before_month y 13"
    using y0 eqs by (simp add: days_before_month_13)
  with month_from_correct [OF _ _ _ mf] eqs
  have m0: "days_before_month y m + d1 = d0" "d1 < days_in_month y m" "1 \<le> m" "m \<le> 12" by simp_all
  have "days_before_year y = 146097 * k + days_before_year y0"
    using y0 eqs by (simp add: days_before_year_cycle)
  then have "days_of_date y m d = 146097 * k + r"
    using m0 y0 eqs by (simp add: days_of_date_def)
  also have "\<dots> = n" by (simp add: k_def r_def)
  finally show ?thesis using m0 y0 eqs by simp
qed

lemma days_before_year_mono: "1 \<le> y \<Longrightarrow> y \<le> z \<Longrightarrow> days_before_year y \<le> days_before_year z"
proof (induction "z - y" arbitrary: z)
  case 0
  then show ?case by simp
next
  case (Suc n)
  then obtain w where z: "z = Suc w" by (cases z) auto
  with Suc.hyps Suc.prems have "y \<le> w" "n = w - y" by simp_all
  with Suc.hyps Suc.prems have "days_before_year y \<le> days_before_year w" by blast
  with \<open>y \<le> w\<close> Suc.prems z show ?case by (simp add: days_before_year_Suc)
qed

lemma date_of_days_year_bound:
  assumes "date_of_days n = (y, m, d)" "n < 3652059"
  shows "y < 10000"
proof (rule ccontr)
  assume "\<not> y < 10000"
  then have "days_before_year 10000 \<le> days_before_year y" by (intro days_before_year_mono) simp_all
  moreover have "days_before_year 10000 = 3652059" by (simp add: days_before_year_def)
  ultimately have "3652059 \<le> days_of_date y m d" by (simp add: days_of_date_def)
  with date_of_days_correct [OF assms(1)] assms(2) show False by simp
qed

section \<open>ISO 8601 text\<close>

definition time_str :: "nat \<Rightarrow> string" where
  "time_str us =
     (let s = us div 1000000; f = us mod 1000000
      in pad_str 2 (s div 3600) @ '':'' @ pad_str 2 (s div 60 mod 60) @ '':'' @ pad_str 2 (s mod 60)
         @ (if f = 0 then '''' else ''.'' @ pad_str 6 f))"

definition date_str :: "nat \<Rightarrow> string" where
  "date_str n = (let (y, m, d) = date_of_days n
                 in pad_str 4 y @ ''-'' @ pad_str 2 m @ ''-'' @ pad_str 2 d)"

text \<open>\<^verbatim>\<open>isoformat()\<close> of a timestamp in UTC, without and with its offset.\<close>

definition iso_naive :: "instant \<Rightarrow> string" where
  "iso_naive t = date_str (nat (t div us_per_day)) @ ''T'' @ time_str (nat (t mod us_per_day))"

definition isoformat :: "instant \<Rightarrow> string" where
  "isoformat t = iso_naive t @ ''+00:00''"

text \<open>\<^verbatim>\<open>isoformat().replace("+00:00", "Z")\<close>\<close>

definition isoformat_z :: "instant \<Rightarrow> string" where
  "isoformat_z t = iso_naive t @ ''Z''"

text \<open>
  \<^verbatim>\<open>fromisoformat\<close> on the extended format with an optional fraction of six digits and an optional
  offset \<open>+HH:MM\<close>. The other spellings that the library accepts are not needed: the modelled code
  reads back only what \<^verbatim>\<open>isoformat\<close> wrote.
\<close>

definition num_at :: "string \<Rightarrow> nat \<Rightarrow> nat \<Rightarrow> nat option" where
  "num_at s i k =
     (let w = take k (drop i s)
      in if length w = k \<and> list_all is_digit w then Some (digits_val w) else None)"

definition parse_offset :: "string \<Rightarrow> int option option" where
  "parse_offset s =
     (if s = '''' then Some None
      else if length s = 6 \<and> (s ! 0 = CHR ''+'' \<or> s ! 0 = CHR ''-'') \<and> s ! 3 = CHR '':''
      then (case (num_at s 1 2, num_at s 4 2) of
              (Some h, Some m) \<Rightarrow>
                if h < 24 \<and> m < 60
                then Some (Some ((if s ! 0 = CHR ''-'' then - 1 else 1) * int (60 * h + m) * us_per_minute))
                else None
            | _ \<Rightarrow> None)
      else None)"

definition fromisoformat :: "string \<Rightarrow> dtime res" where
  "fromisoformat s =
     (case (num_at s 0 4, num_at s 5 2, num_at s 8 2, num_at s 11 2, num_at s 14 2, num_at s 17 2) of
        (Some y, Some mo, Some d, Some h, Some mi, Some sec) \<Rightarrow>
          if s ! 4 = CHR ''-'' \<and> s ! 7 = CHR ''-'' \<and> s ! 10 = CHR ''T'' \<and> s ! 13 = CHR '':''
             \<and> s ! 16 = CHR '':''
             \<and> 1 \<le> y \<and> 1 \<le> mo \<and> mo \<le> 12 \<and> 1 \<le> d \<and> d \<le> days_in_month y mo
             \<and> h < 24 \<and> mi < 60 \<and> sec < 60
          then
            (let r = drop 19 s;
                 frac = (if r \<noteq> [] \<and> hd r = CHR ''.'' then num_at r 1 6 else Some 0);
                 rest = (if r \<noteq> [] \<and> hd r = CHR ''.'' then drop 7 r else r)
             in case (frac, parse_offset rest) of
                  (Some f, Some off) \<Rightarrow>
                    (let local = int (days_of_date y mo d) * us_per_day
                                 + int (3600 * h + 60 * mi + sec) * us_per_second + int f
                     in case off of None \<Rightarrow> Inr (Naive local) | Some o' \<Rightarrow> Inr (Aware (local - o')))
                | _ \<Rightarrow> Inl ValueError)
          else Inl ValueError
      | _ \<Rightarrow> Inl ValueError)"

text \<open>Fixed-width fields read back what was written, whatever surrounds them.\<close>

lemma num_at_pad:
  assumes "length pre = i" "n < 10 ^ k"
  shows "num_at (pre @ pad_str k n @ post) i k = Some n"
  using assms by (simp add: num_at_def all_digits_pad_str digits_pad_str)

lemma parse_offset_utc [simp]: "parse_offset ''+00:00'' = Some (Some 0)"
  by (simp add: parse_offset_def num_at_def is_digit_def digits_val_def digit_val_def)

text \<open>
  A timestamp laid out in fields reads back as the instant that the fields denote.
\<close>

lemma fromisoformat_fields:
  assumes "1 \<le> y" "y < 10000" "1 \<le> mo" "mo \<le> 12" "1 \<le> d" "d \<le> days_in_month y mo"
    and "h < 24" "mi < 60" "sec < 60" "f < 1000000"
  defines "s \<equiv> pad_str 4 y @ ''-'' @ pad_str 2 mo @ ''-'' @ pad_str 2 d @ ''T''
                @ pad_str 2 h @ '':'' @ pad_str 2 mi @ '':'' @ pad_str 2 sec
                @ (if f = 0 then '''' else ''.'' @ pad_str 6 f) @ ''+00:00''"
  shows "fromisoformat s =
     Inr (Aware (int (days_of_date y mo d) * us_per_day
                 + int (3600 * h + 60 * mi + sec) * us_per_second + int f))"
proof -
  let ?tail = "(if f = 0 then '''' else ''.'' @ pad_str 6 f) @ ''+00:00''"
  have "d \<le> 31" using assms(6) by (auto simp: days_in_month_def split: if_splits)
  have 1: "num_at s 0 4 = Some y"
    using num_at_pad [of "[]" 0 y 4] assms(2) by (simp add: s_def)
  have 2: "num_at s 5 2 = Some mo"
    using num_at_pad [of "pad_str 4 y @ ''-''" 5 mo 2] assms(4) by (simp add: s_def)
  have 3: "num_at s 8 2 = Some d"
    using num_at_pad [of "pad_str 4 y @ ''-'' @ pad_str 2 mo @ ''-''" 8 d 2] \<open>d \<le> 31\<close> by (simp add: s_def)
  have 4: "num_at s 11 2 = Some h"
    using num_at_pad [of "pad_str 4 y @ ''-'' @ pad_str 2 mo @ ''-'' @ pad_str 2 d @ ''T''" 11 h 2] assms(7)
    by (simp add: s_def)
  have 5: "num_at s 14 2 = Some mi"
    using num_at_pad [of "pad_str 4 y @ ''-'' @ pad_str 2 mo @ ''-'' @ pad_str 2 d @ ''T'' @ pad_str 2 h @ '':''" 14 mi 2]
      assms(8) by (simp add: s_def)
  have 6: "num_at s 17 2 = Some sec"
    using num_at_pad [of "pad_str 4 y @ ''-'' @ pad_str 2 mo @ ''-'' @ pad_str 2 d @ ''T'' @ pad_str 2 h @ '':'' @ pad_str 2 mi @ '':''" 17 sec 2]
      assms(9) by (simp add: s_def)
  have seps: "s ! 4 = CHR ''-''" "s ! 7 = CHR ''-''" "s ! 10 = CHR ''T''" "s ! 13 = CHR '':''" "s ! 16 = CHR '':''"
    by (simp_all add: s_def nth_append)
  have rest: "drop 19 s = ?tail" by (simp add: s_def)
  have frac: "num_at (CHR ''.'' # pad_str 6 f @ ''+00:00'') (Suc 0) 6 = Some f"
    using num_at_pad [of "''.''" 1 f 6] assms(10) by simp
  have tail: "drop 7 ((''.'' @ pad_str 6 f) @ ''+00:00'') = ''+00:00''" by simp
  show ?thesis
    using assms(1,3-9) by (simp add: fromisoformat_def 1 2 3 4 5 6 seps rest frac tail Let_def)
qed

text \<open>Every timestamp that Python can represent survives \<^verbatim>\<open>isoformat\<close> and \<^verbatim>\<open>fromisoformat\<close>.\<close>

lemma fromisoformat_isoformat:
  assumes "in_range t"
  shows "fromisoformat (isoformat t) = Inr (Aware t)"
proof -
  define n where "n = nat (t div us_per_day)"
  define us where "us = nat (t mod us_per_day)"
  obtain y mo d where date: "date_of_days n = (y, mo, d)" by (metis prod_cases3)
  have n: "n < 3652059" "int n = t div us_per_day"
    using assms by (auto simp: in_range_def n_def )
  have us: "us < 86400000000" "int us = t mod us_per_day"
    by (simp_all add: us_def)
  note dc = date_of_days_correct [OF date] and yb = date_of_days_year_bound [OF date n(1)]
  define s where "s = us div 1000000"
  have s: "s < 86400" using us(1) by (simp add: s_def less_mult_imp_div_less)
  have split: "s div 3600 < 24" "s div 60 mod 60 < 60" "s mod 60 < 60" "us mod 1000000 < 1000000"
    using s by (simp_all add: less_mult_imp_div_less)
  have "3600 * (s div 3600) + 60 * (s div 60 mod 60) + s mod 60 = s"
  proof -
    have "s div 3600 = s div 60 div 60" by (simp add: div_mult2_eq)
    then have "3600 * (s div 3600) + 60 * (s div 60 mod 60) = 60 * (60 * (s div 60 div 60) + s div 60 mod 60)"
      unfolding distrib_left by simp
    then show ?thesis by simp
  qed
  moreover have "s * 1000000 + us mod 1000000 = us" by (simp add: s_def)
  moreover have "int n * us_per_day + int us = t" by (simp add: n us)
  ultimately have "int (days_of_date y mo d) * us_per_day
      + int (3600 * (s div 3600) + 60 * (s div 60 mod 60) + s mod 60) * us_per_second + int (us mod 1000000) = t"
    using dc by (metis (no_types, opaque_lifting) add.assoc of_nat_add of_nat_mult of_nat_numeral)
  moreover have "isoformat t = pad_str 4 y @ ''-'' @ pad_str 2 mo @ ''-'' @ pad_str 2 d @ ''T''
      @ pad_str 2 (s div 3600) @ '':'' @ pad_str 2 (s div 60 mod 60) @ '':'' @ pad_str 2 (s mod 60)
      @ (if us mod 1000000 = 0 then '''' else ''.'' @ pad_str 6 (us mod 1000000)) @ ''+00:00''"
    by (simp add: isoformat_def iso_naive_def date_str_def time_str_def date Let_def
        flip: n_def us_def s_def)
  ultimately show ?thesis
    using fromisoformat_fields [of y mo d "s div 3600" "s div 60 mod 60" "s mod 60" "us mod 1000000"] dc yb split
    by simp
qed

end
