(* ===== verification/Py_Values.thy ===== *)
theory Py_Values
  imports Py_Time
begin

text \<open>
  The dynamically typed values that cross the interfaces of the program: JSON data with exact
  decimals and timestamps. A mapping is an association list in insertion order with string keys; a
  member of a \<^verbatim>\<open>StrEnum\<close> is its string. A binary float is its exact decimal value with its
  \<^verbatim>\<open>repr\<close>; not-a-number and the infinities are left out, and so are the sign of a decimal zero and
  the original offset of a timestamp. The theory defines truth, equality, ordering, membership,
  iteration, \<^verbatim>\<open>str\<close>, \<^verbatim>\<open>repr\<close> and \<^verbatim>\<open>int\<close> on these values as Python does.
\<close>

datatype pyval =
    PNone
  | PBool bool
  | PInt int
  | PFloat dec string
  | PDec dec
  | PStr string
  | PTime dtime
  | PList "pyval list"
  | PDict "(string \<times> pyval) list"

type_synonym pydict = "(string \<times> pyval) list"

text \<open>An argument that is a dataclass instance or plain data.\<close>

datatype 'r src = Obj 'r | Val pyval

text \<open>
  \<^verbatim>\<open>_value(source, name, default)\<close>: the key of a mapping or the attribute of an object. The
  attributes of an object are given by \<open>attr\<close>; plain data other than mappings has none of the names
  that the program asks for.
\<close>

definition src_value :: "('r \<Rightarrow> string \<Rightarrow> pyval option) \<Rightarrow> 'r src \<Rightarrow> string \<Rightarrow> pyval \<Rightarrow> pyval" where
  "src_value attr s name d =
     (case s of
        Obj r \<Rightarrow> (case attr r name of Some v \<Rightarrow> v | None \<Rightarrow> d)
      | Val (PDict m) \<Rightarrow> dict_get_or m name d
      | Val _ \<Rightarrow> d)"

definition opt_str :: "string option \<Rightarrow> pyval" where
  "opt_str s = (case s of None \<Rightarrow> PNone | Some x \<Rightarrow> PStr x)"

section \<open>Truth and equality\<close>

fun truthy :: "pyval \<Rightarrow> bool" where
  "truthy PNone = False"
| "truthy (PBool b) = b"
| "truthy (PInt i) = (i \<noteq> 0)"
| "truthy (PFloat d r) = (coeff d \<noteq> 0)"
| "truthy (PDec d) = (coeff d \<noteq> 0)"
| "truthy (PStr s) = (s \<noteq> [])"
| "truthy (PTime t) = True"
| "truthy (PList xs) = (xs \<noteq> [])"
| "truthy (PDict m) = (m \<noteq> [])"

text \<open>The exact value of a number; booleans are integers.\<close>

fun as_number :: "pyval \<Rightarrow> dec option" where
  "as_number (PBool b) = Some (Dec (if b then 1 else 0) 0)"
| "as_number (PInt i) = Some (Dec i 0)"
| "as_number (PFloat d r) = Some d"
| "as_number (PDec d) = Some d"
| "as_number v = None"

fun dtime_eq :: "dtime \<Rightarrow> dtime \<Rightarrow> bool" where
  "dtime_eq (Naive s) (Naive t) = (s = t)"
| "dtime_eq (Aware s) (Aware t) = (s = t)"
| "dtime_eq s t = False"

fun py_eq :: "pyval \<Rightarrow> pyval \<Rightarrow> bool"
  and py_eq_list :: "pyval list \<Rightarrow> pyval list \<Rightarrow> bool"
  and py_eq_dict :: "pydict \<Rightarrow> pydict \<Rightarrow> bool" where
  "py_eq x y =
     (case (as_number x, as_number y) of
        (Some d, Some e) \<Rightarrow> dec_eq d e
      | _ \<Rightarrow>
          (case x of
             PNone \<Rightarrow> y = PNone
           | PStr s \<Rightarrow> y = PStr s
           | PTime s \<Rightarrow> (case y of PTime t \<Rightarrow> dtime_eq s t | _ \<Rightarrow> False)
           | PList xs \<Rightarrow> (case y of PList ys \<Rightarrow> py_eq_list xs ys | _ \<Rightarrow> False)
           | PDict m \<Rightarrow> (case y of PDict n \<Rightarrow> length m = length n \<and> py_eq_dict m n | _ \<Rightarrow> False)
           | _ \<Rightarrow> False))"
| "py_eq_list [] ys = (ys = [])"
| "py_eq_list (x # xs) ys = (case ys of [] \<Rightarrow> False | y # ys' \<Rightarrow> py_eq x y \<and> py_eq_list xs ys')"
| "py_eq_dict [] n = True"
| "py_eq_dict ((k, v) # m) n =
     ((case dict_get n k of None \<Rightarrow> False | Some w \<Rightarrow> py_eq v w) \<and> py_eq_dict m n)"

declare py_eq.simps [simp del]

lemma py_eq_Str [simp]: "py_eq (PStr s) y \<longleftrightarrow> y = PStr s"
  by (cases y) (auto simp: py_eq.simps)

lemma py_eq_Str' [simp]: "py_eq x (PStr s) \<longleftrightarrow> x = PStr s"
  by (cases x) (auto simp: py_eq.simps)

lemma py_eq_None [simp]: "py_eq PNone y \<longleftrightarrow> y = PNone" "py_eq x PNone \<longleftrightarrow> x = PNone"
  by (cases y; simp add: py_eq.simps) (cases x; simp add: py_eq.simps)

lemma py_eq_Dec [simp]: "py_eq (PDec d) (PDec e) \<longleftrightarrow> dec_eq d e"
  by (simp add: py_eq.simps)

lemma py_eq_Int [simp]: "py_eq (PInt i) (PInt j) \<longleftrightarrow> i = j"
  by (simp add: py_eq.simps dec_eq_def dec_scale_def)

section \<open>Ordering\<close>

datatype ordering = OLess | OEqual | OGreater

definition dec_cmp :: "dec \<Rightarrow> dec \<Rightarrow> ordering" where
  "dec_cmp x y = (if dec_less x y then OLess else if dec_eq x y then OEqual else OGreater)"

definition int_cmp :: "int \<Rightarrow> int \<Rightarrow> ordering" where
  "int_cmp i j = (if i < j then OLess else if i = j then OEqual else OGreater)"

fun str_cmp :: "string \<Rightarrow> string \<Rightarrow> ordering" where
  "str_cmp [] [] = OEqual"
| "str_cmp [] (d # t) = OLess"
| "str_cmp (c # s) [] = OGreater"
| "str_cmp (c # s) (d # t) =
     (if c = d then str_cmp s t else int_cmp (int (of_char c)) (int (of_char d)))"

text \<open>
  The order that \<^verbatim>\<open><\<close> and its relatives decide. Lists compare at their first unequal position.
  Values without a common order raise \<^verbatim>\<open>TypeError\<close>.
\<close>

fun py_cmp :: "pyval \<Rightarrow> pyval \<Rightarrow> ordering res"
  and py_cmp_list :: "pyval list \<Rightarrow> pyval list \<Rightarrow> ordering res" where
  "py_cmp x y =
     (case (as_number x, as_number y) of
        (Some d, Some e) \<Rightarrow> Inr (dec_cmp d e)
      | _ \<Rightarrow>
          (case x of
             PStr s \<Rightarrow> (case y of PStr t \<Rightarrow> Inr (str_cmp s t) | _ \<Rightarrow> Inl TypeError)
           | PTime (Naive s) \<Rightarrow> (case y of PTime (Naive t) \<Rightarrow> Inr (int_cmp s t) | _ \<Rightarrow> Inl TypeError)
           | PTime (Aware s) \<Rightarrow> (case y of PTime (Aware t) \<Rightarrow> Inr (int_cmp s t) | _ \<Rightarrow> Inl TypeError)
           | PList xs \<Rightarrow> (case y of PList ys \<Rightarrow> py_cmp_list xs ys | _ \<Rightarrow> Inl TypeError)
           | _ \<Rightarrow> Inl TypeError))"
| "py_cmp_list [] ys = Inr (if ys = [] then OEqual else OLess)"
| "py_cmp_list (x # xs) ys =
     (case ys of
        [] \<Rightarrow> Inr OGreater
      | y # ys' \<Rightarrow> if py_eq x y then py_cmp_list xs ys' else py_cmp x y)"

declare py_cmp.simps [simp del]

section \<open>Text\<close>

definition hex_char :: "nat \<Rightarrow> char" where
  "hex_char n = (if n < 10 then digit_char n else char_of (87 + n))"

definition repr_char :: "char \<Rightarrow> char \<Rightarrow> string" where
  "repr_char q c =
     (let n = (of_char c :: nat)
      in if c = q \<or> n = 92 then [char_of (92::nat), c]
         else if n = 9 then [char_of (92::nat), CHR ''t'']
         else if n = 10 then [char_of (92::nat), CHR ''n'']
         else if n = 13 then [char_of (92::nat), CHR ''r'']
         else if n < 32 \<or> n = 127
         then [char_of (92::nat), CHR ''x'', hex_char (n div 16), hex_char (n mod 16)]
         else [c])"

definition str_repr :: "string \<Rightarrow> string" where
  "str_repr s =
     (let sq = char_of (39::nat); dq = char_of (34::nat);
          q = (if sq \<in> set s \<and> dq \<notin> set s then dq else sq)
      in [q] @ concat (map (repr_char q) s) @ [q])"

definition join_str :: "string \<Rightarrow> string list \<Rightarrow> string" where
  "join_str sep parts =
     (case parts of [] \<Rightarrow> '''' | p # ps \<Rightarrow> p @ concat (map (\<lambda>x. sep @ x) ps))"

definition dtime_instant :: "dtime \<Rightarrow> instant" where
  "dtime_instant t = (case t of Naive i \<Rightarrow> i | Aware i \<Rightarrow> i)"

definition dtime_str :: "dtime \<Rightarrow> string" where
  "dtime_str t =
     (let i = dtime_instant t
      in date_str (nat (i div us_per_day)) @ '' '' @ time_str (nat (i mod us_per_day))
         @ (case t of Naive _ \<Rightarrow> '''' | Aware _ \<Rightarrow> ''+00:00''))"

definition dtime_repr :: "dtime \<Rightarrow> string" where
  "dtime_repr t =
     (let i = dtime_instant t;
          (y, mo, d) = date_of_days (nat (i div us_per_day));
          us = nat (i mod us_per_day);
          s = us div 1000000;
          f = us mod 1000000;
          fields = [y, mo, d, s div 3600, s div 60 mod 60]
                   @ (if f \<noteq> 0 then [s mod 60, f] else if s mod 60 \<noteq> 0 then [s mod 60] else [])
      in ''datetime.datetime('' @ join_str '', '' (map nat_str fields)
         @ (case t of Naive _ \<Rightarrow> '''' | Aware _ \<Rightarrow> '', tzinfo=datetime.timezone.utc'') @ '')'')"

fun py_repr :: "pyval \<Rightarrow> string"
  and repr_items :: "pyval list \<Rightarrow> string list"
  and repr_entries :: "pydict \<Rightarrow> string list" where
  "py_repr PNone = ''None''"
| "py_repr (PBool b) = (if b then ''True'' else ''False'')"
| "py_repr (PInt i) = int_str i"
| "py_repr (PFloat d r) = r"
| "py_repr (PDec d) = ''Decimal('' @ str_repr (dec_str d) @ '')''"
| "py_repr (PStr s) = str_repr s"
| "py_repr (PTime t) = dtime_repr t"
| "py_repr (PList xs) = ''['' @ join_str '', '' (repr_items xs) @ '']''"
| "py_repr (PDict m) = ''{'' @ join_str '', '' (repr_entries m) @ ''}''"
| "repr_items [] = []"
| "repr_items (x # xs) = py_repr x # repr_items xs"
| "repr_entries [] = []"
| "repr_entries ((k, v) # m) = (str_repr k @ '': '' @ py_repr v) # repr_entries m"

fun py_str :: "pyval \<Rightarrow> string" where
  "py_str (PStr s) = s"
| "py_str (PDec d) = dec_str d"
| "py_str (PTime t) = dtime_str t"
| "py_str v = py_repr v"

section \<open>Iteration, membership and conversion\<close>

fun py_iter :: "pyval \<Rightarrow> pyval list res" where
  "py_iter (PList xs) = Inr xs"
| "py_iter (PStr s) = Inr (map (\<lambda>c. PStr [c]) s)"
| "py_iter (PDict m) = Inr (map (PStr \<circ> fst) m)"
| "py_iter v = Inl TypeError"

fun unhashable :: "pyval \<Rightarrow> bool" where
  "unhashable (PList xs) = True"
| "unhashable (PDict m) = True"
| "unhashable v = False"

fun is_substring :: "string \<Rightarrow> string \<Rightarrow> bool" where
  "is_substring n [] = (n = [])"
| "is_substring n (c # s) = (take (length n) (c # s) = n \<or> is_substring n s)"

fun py_in :: "pyval \<Rightarrow> pyval \<Rightarrow> bool res" where
  "py_in x (PList ys) = Inr (list_ex (py_eq x) ys)"
| "py_in x (PStr s) = (case x of PStr n \<Rightarrow> Inr (is_substring n s) | _ \<Rightarrow> Inl TypeError)"
| "py_in x (PDict m) =
     (if unhashable x then Inl TypeError
      else Inr (case x of PStr k \<Rightarrow> dict_get m k \<noteq> None | _ \<Rightarrow> False))"
| "py_in x v = Inl TypeError"

text \<open>
  \<^verbatim>\<open>int(text)\<close>: an optional sign and digits, single underscores allowed between digits.
\<close>

fun int_body :: "nat \<Rightarrow> bool \<Rightarrow> string \<Rightarrow> nat option" where
  "int_body a ok [] = (if ok then Some a else None)"
| "int_body a ok (c # cs) =
     (if is_digit c then int_body (10 * a + digit_val c) True cs
      else if c = CHR ''_'' \<and> ok then int_body a False cs
      else None)"

definition int_of_str :: "string \<Rightarrow> int res" where
  "int_of_str s =
     (let (sg, body) = take_sign (py_strip s)
      in case int_body 0 False body of None \<Rightarrow> Inl ValueError | Some n \<Rightarrow> Inr (sg * int n))"

fun py_int :: "pyval \<Rightarrow> int res" where
  "py_int (PBool b) = Inr (if b then 1 else 0)"
| "py_int (PInt i) = Inr i"
| "py_int (PFloat d r) = Inr (dec_trunc d)"
| "py_int (PDec d) = Inr (dec_trunc d)"
| "py_int (PStr s) = int_of_str s"
| "py_int v = Inl TypeError"

text \<open>
  \<^verbatim>\<open>C(**mapping)\<close> on a dataclass: a key that is not a field, or a missing required field, raises
  \<^verbatim>\<open>TypeError\<close>.
\<close>

definition kwargs_ok :: "string list \<Rightarrow> string list \<Rightarrow> pydict \<Rightarrow> bool" where
  "kwargs_ok req opt m \<longleftrightarrow>
     list_all (\<lambda>(k, v). k \<in> set req \<or> k \<in> set opt) m \<and> list_all (\<lambda>k. dict_get m k \<noteq> None) req"

text \<open>Attribute access on JSON values: \<^verbatim>\<open>value.get(key, default)\<close> and \<^verbatim>\<open>a or b\<close>.\<close>

definition py_get :: "pyval \<Rightarrow> string \<Rightarrow> pyval \<Rightarrow> pyval res" where
  "py_get v k d = (case v of PDict m \<Rightarrow> Inr (dict_get_or m k d) | _ \<Rightarrow> Inl AttributeError)"

definition py_or :: "pyval \<Rightarrow> pyval \<Rightarrow> pyval" where
  "py_or a b = (if truthy a then a else b)"

lemma int_of_str_nat_str: "int_of_str (nat_str n) = Inr (int n)"
proof -
  have body: "int_body a ok ds = Some (digits_val_acc a ds)"
    if "list_all is_digit ds" "ds \<noteq> [] \<or> ok" for a ok ds
    using that by (induction a ok ds rule: int_body.induct) auto
  have digits: "list_all is_digit (nat_str n)" by (rule all_digits_nat_str)
  then have hd_last: "is_digit (hd (nat_str n))" "is_digit (last (nat_str n))"
    by (metis list_all_iff nat_str_nonempty list.set_sel(1), metis list_all_iff nat_str_nonempty last_in_set)
  then have strip: "py_strip (nat_str n) = nat_str n"
    by (intro py_strip_id) (simp_all add: digit_not_space)
  have "take_sign (nat_str n) = (1, nat_str n)"
    using hd_last(1) by (cases "nat_str n") (auto simp: take_sign_def)
  with strip body [OF digits, of False 0] show ?thesis
    by (simp add: int_of_str_def flip: digits_val_def)
qed

end
