(* ===== verification/Domain_Models.thy ===== *)
theory Domain_Models
  imports Py_Values
begin

text \<open>
  The value objects of \<^verbatim>\<open>src/src/api/domain/models.py\<close>: exact money, the closed enumerations, and the
  frozen dataclasses with the checks that their constructors make. Money that has been validated is
  an integer number of cents.
\<close>

section \<open>Money\<close>

text \<open>The regular expression \<open>(?:0|[1-9][0-9]*)\.[0-9]{2}\<close>, matched against the whole text.\<close>

definition amount_re :: "string \<Rightarrow> bool" where
  "amount_re s \<longleftrightarrow>
     (let ip = takeWhile is_digit s; r = dropWhile is_digit s
      in ip \<noteq> [] \<and> (ip = ''0'' \<or> hd ip \<noteq> CHR ''0'')
         \<and> length r = 3 \<and> hd r = CHR ''.'' \<and> list_all is_digit (tl r))"

text \<open>The checks that follow the conversion to a decimal.\<close>

definition check_amount :: "decimal_literal res \<Rightarrow> cents res" where
  "check_amount lit =
     (case lit of
        Inl _ \<Rightarrow> Inl AmountFormatError
      | Inr SpecialDecimal \<Rightarrow> Inl AmountFormatError
      | Inr (FiniteDecimal d) \<Rightarrow>
          if coeff d < 0 then Inl AmountFormatError
          else (case dec_quantize_cent d of
                  Inl _ \<Rightarrow> Inl AmountFormatError
                | Inr q \<Rightarrow> if dec_eq (cents_dec q) d then Inr q else Inl AmountFormatError))"

text \<open>
  \<^verbatim>\<open>_decimal_amount\<close>. A decimal or an integer goes through \<^verbatim>\<open>Decimal(str(value))\<close>, which gives the
  same number back.
\<close>

fun decimal_amount :: "bool \<Rightarrow> pyval \<Rightarrow> cents res" where
  "decimal_amount canonical (PStr s) =
     (if canonical \<and> \<not> amount_re s then Inl AmountFormatError
      else if \<not> canonical \<and> s = [] then Inl AmountFormatError
      else check_amount (parse_decimal s))"
| "decimal_amount canonical (PDec d) = check_amount (Inr (FiniteDecimal d))"
| "decimal_amount canonical (PInt i) = check_amount (Inr (FiniteDecimal (Dec i 0)))"
| "decimal_amount canonical v = Inl AmountFormatError"

definition is_PStr :: "pyval \<Rightarrow> bool" where
  "is_PStr v = (case v of PStr s \<Rightarrow> True | _ \<Rightarrow> False)"

definition canonical_amount :: "pyval \<Rightarrow> string res" where
  "canonical_amount v =
     bind_res (if is_PStr v then decimal_amount True v else decimal_amount False v)
       (\<lambda>c. Inr (cents_str c))"

definition amount_decimal :: "pyval \<Rightarrow> cents res" where
  "amount_decimal v = decimal_amount (is_PStr v) v"

definition limit_decimal :: "pyval \<Rightarrow> cents res" where
  "limit_decimal v = decimal_amount False v"

definition ensure_utc :: "pyval \<Rightarrow> instant res" where
  "ensure_utc v = (case v of PTime (Aware t) \<Rightarrow> Inr t | _ \<Rightarrow> Inl ValueError)"

section \<open>Enumerations\<close>

datatype decision_value = APPROVED | REJECTED | ESCALATED

definition decision_value_str :: "decision_value \<Rightarrow> string" where
  "decision_value_str d =
     (case d of APPROVED \<Rightarrow> ''APPROVED'' | REJECTED \<Rightarrow> ''REJECTED'' | ESCALATED \<Rightarrow> ''ESCALATED'')"

datatype reason_code =
    AMOUNT_EXCEEDS_PER_TXN | BUDGET_EXCEEDED | LIMIT_EXHAUSTED | CATEGORY_FORBIDDEN
  | MERCHANT_NOT_ALLOWED | MANDATE_EXPIRED | MANDATE_NOT_YET_VALID | MANDATE_REVOKED
  | MANDATE_SUSPENDED | MANDATE_EXHAUSTED | CONDITION_FAILED | INVALID_SIGNATURE
  | INVALID_PROOF_OF_POSSESSION | DUPLICATE_JTI | NONCE_REUSED | ESCALATION_TIMEOUT_DENIED
  | RAIL_ERROR | RAIL_TOKEN_DELETED | VELOCITY_BURST | STEPUP_AMOUNT_THRESHOLD
  | STEPUP_BUDGET_USAGE | PRICE_MISMATCH_AUTO_REFUND | WEBHOOK_INVALID

definition all_reason_codes :: "reason_code list" where
  "all_reason_codes =
     [AMOUNT_EXCEEDS_PER_TXN, BUDGET_EXCEEDED, LIMIT_EXHAUSTED, CATEGORY_FORBIDDEN,
      MERCHANT_NOT_ALLOWED, MANDATE_EXPIRED, MANDATE_NOT_YET_VALID, MANDATE_REVOKED,
      MANDATE_SUSPENDED, MANDATE_EXHAUSTED, CONDITION_FAILED, INVALID_SIGNATURE,
      INVALID_PROOF_OF_POSSESSION, DUPLICATE_JTI, NONCE_REUSED, ESCALATION_TIMEOUT_DENIED,
      RAIL_ERROR, RAIL_TOKEN_DELETED, VELOCITY_BURST, STEPUP_AMOUNT_THRESHOLD,
      STEPUP_BUDGET_USAGE, PRICE_MISMATCH_AUTO_REFUND, WEBHOOK_INVALID]"

fun reason_str :: "reason_code \<Rightarrow> string" where
  "reason_str AMOUNT_EXCEEDS_PER_TXN = ''AMOUNT_EXCEEDS_PER_TXN''"
| "reason_str BUDGET_EXCEEDED = ''BUDGET_EXCEEDED''"
| "reason_str LIMIT_EXHAUSTED = ''LIMIT_EXHAUSTED''"
| "reason_str CATEGORY_FORBIDDEN = ''CATEGORY_FORBIDDEN''"
| "reason_str MERCHANT_NOT_ALLOWED = ''MERCHANT_NOT_ALLOWED''"
| "reason_str MANDATE_EXPIRED = ''MANDATE_EXPIRED''"
| "reason_str MANDATE_NOT_YET_VALID = ''MANDATE_NOT_YET_VALID''"
| "reason_str MANDATE_REVOKED = ''MANDATE_REVOKED''"
| "reason_str MANDATE_SUSPENDED = ''MANDATE_SUSPENDED''"
| "reason_str MANDATE_EXHAUSTED = ''MANDATE_EXHAUSTED''"
| "reason_str CONDITION_FAILED = ''CONDITION_FAILED''"
| "reason_str INVALID_SIGNATURE = ''INVALID_SIGNATURE''"
| "reason_str INVALID_PROOF_OF_POSSESSION = ''INVALID_PROOF_OF_POSSESSION''"
| "reason_str DUPLICATE_JTI = ''DUPLICATE_JTI''"
| "reason_str NONCE_REUSED = ''NONCE_REUSED''"
| "reason_str ESCALATION_TIMEOUT_DENIED = ''ESCALATION_TIMEOUT_DENIED''"
| "reason_str RAIL_ERROR = ''RAIL_ERROR''"
| "reason_str RAIL_TOKEN_DELETED = ''RAIL_TOKEN_DELETED''"
| "reason_str VELOCITY_BURST = ''VELOCITY_BURST''"
| "reason_str STEPUP_AMOUNT_THRESHOLD = ''STEPUP_AMOUNT_THRESHOLD''"
| "reason_str STEPUP_BUDGET_USAGE = ''STEPUP_BUDGET_USAGE''"
| "reason_str PRICE_MISMATCH_AUTO_REFUND = ''PRICE_MISMATCH_AUTO_REFUND''"
| "reason_str WEBHOOK_INVALID = ''WEBHOOK_INVALID''"

text \<open>\<^verbatim>\<open>ReasonCode(value)\<close> and \<^verbatim>\<open>DecisionValue(value)\<close>: the member with that value.\<close>

definition reason_of :: "pyval \<Rightarrow> reason_code res" where
  "reason_of v =
     (case v of
        PStr s \<Rightarrow>
          (case find (\<lambda>r. reason_str r = s) all_reason_codes of
             None \<Rightarrow> Inl ValueError | Some r \<Rightarrow> Inr r)
      | _ \<Rightarrow> Inl ValueError)"

definition decision_value_of :: "pyval \<Rightarrow> decision_value res" where
  "decision_value_of v =
     (if v = PStr ''APPROVED'' then Inr APPROVED
      else if v = PStr ''REJECTED'' then Inr REJECTED
      else if v = PStr ''ESCALATED'' then Inr ESCALATED
      else Inl ValueError)"

datatype mandate_status = DRAFT | ACTIVE | SUSPENDED | REVOKED | EXPIRED | EXHAUSTED

fun status_str :: "mandate_status \<Rightarrow> string" where
  "status_str DRAFT = ''draft''"
| "status_str ACTIVE = ''active''"
| "status_str SUSPENDED = ''suspended''"
| "status_str REVOKED = ''revoked''"
| "status_str EXPIRED = ''expired''"
| "status_str EXHAUSTED = ''exhausted''"

definition mandate_status_of :: "pyval \<Rightarrow> mandate_status res" where
  "mandate_status_of v =
     (case v of
        PStr s \<Rightarrow>
          (case find (\<lambda>m. status_str m = s) [DRAFT, ACTIVE, SUSPENDED, REVOKED, EXPIRED, EXHAUSTED] of
             None \<Rightarrow> Inl ValueError | Some m \<Rightarrow> Inr m)
      | _ \<Rightarrow> Inl ValueError)"

definition as_mandate_status :: "pyval \<Rightarrow> mandate_status option" where
  "as_mandate_status v = (case mandate_status_of v of Inl _ \<Rightarrow> None | Inr m \<Rightarrow> Some m)"

datatype escalation_level = L3 | L3_PLUS

definition level_str :: "escalation_level \<Rightarrow> string" where
  "level_str l = (case l of L3 \<Rightarrow> ''L3'' | L3_PLUS \<Rightarrow> ''L3+'')"

text \<open>\<^verbatim>\<open>_as_level\<close>: an unhashable value fails in the membership test.\<close>

definition as_level :: "pyval \<Rightarrow> escalation_level res" where
  "as_level v =
     (if unhashable v then Inl TypeError
      else if v \<in> set (map PStr [''L3+'', ''L3_PLUS'', ''l3+'', ''l3_plus'']) then Inr L3_PLUS
      else if v = PStr ''L3'' then Inr L3
      else Inl ValueError)"

lemma reason_of_str [simp]: "reason_of (PStr (reason_str r)) = Inr r"
  by (cases r) (simp_all add: reason_of_def all_reason_codes_def)

lemma decision_value_of_str [simp]: "decision_value_of (PStr (decision_value_str d)) = Inr d"
  by (cases d) (simp_all add: decision_value_of_def decision_value_str_def)

lemma mandate_status_of_str [simp]: "mandate_status_of (PStr (status_str m)) = Inr m"
  by (cases m) (simp_all add: mandate_status_of_def)

lemma as_level_str [simp]: "as_level (PStr (level_str l)) = Inr l"
  by (cases l) (simp_all add: as_level_def level_str_def)

section \<open>Mandates\<close>

record max_txn_limit =
  mt_count :: int
  mt_period :: string

definition MaxTxnLimit :: "pyval \<Rightarrow> pyval \<Rightarrow> max_txn_limit res" where
  "MaxTxnLimit count period =
     (case count of
        PInt n \<Rightarrow>
          if n < 0 then Inl ValueError
          else if unhashable period then Inl TypeError
          else (case period of
                  PStr p \<Rightarrow> if p \<in> set [''day'', ''week'', ''month'']
                             then Inr \<lparr>mt_count = n, mt_period = p\<rparr> else Inl ValueError
                | _ \<Rightarrow> Inl ValueError)
      | _ \<Rightarrow> Inl ValueError)"

definition MaxTxnLimit_kw :: "pydict \<Rightarrow> max_txn_limit res" where
  "MaxTxnLimit_kw m =
     (if kwargs_ok [''count'', ''period''] [] m
      then MaxTxnLimit (dict_get_or m ''count'' PNone) (dict_get_or m ''period'' PNone)
      else Inl TypeError)"

text \<open>
  The field \<^verbatim>\<open>max_txn\<close> after construction: absent, a checked limit, or any other value, which the
  constructor keeps as it is.
\<close>

datatype max_txn_field = NoMaxTxn | MaxTxn max_txn_limit | OtherMaxTxn pyval

record mandate_limits =
  ml_max_per_txn :: cents
  ml_total_budget :: cents
  ml_max_txn :: max_txn_field

definition MandateLimits :: "pyval \<Rightarrow> pyval \<Rightarrow> max_txn_limit src \<Rightarrow> mandate_limits res" where
  "MandateLimits per_txn budget mt =
     bind_res (limit_decimal per_txn) (\<lambda>p.
     bind_res (limit_decimal budget) (\<lambda>b.
     bind_res (case mt of
                 Obj l \<Rightarrow> Inr (MaxTxn l)
               | Val PNone \<Rightarrow> Inr NoMaxTxn
               | Val (PDict m) \<Rightarrow> bind_res (MaxTxnLimit_kw m) (\<lambda>l. Inr (MaxTxn l))
               | Val v \<Rightarrow> Inr (OtherMaxTxn v)) (\<lambda>f.
     Inr \<lparr>ml_max_per_txn = p, ml_total_budget = b, ml_max_txn = f\<rparr>)))"

definition MandateLimits_kw :: "pydict \<Rightarrow> mandate_limits res" where
  "MandateLimits_kw m =
     (if kwargs_ok [''max_per_txn'', ''total_budget''] [''max_txn''] m
      then MandateLimits (dict_get_or m ''max_per_txn'' PNone) (dict_get_or m ''total_budget'' PNone)
             (Val (dict_get_or m ''max_txn'' PNone))
      else Inl TypeError)"

record mandate_scope =
  ms_categories :: "string list"
  ms_merchants :: "string list"

definition MandateScope :: "pyval \<Rightarrow> pyval \<Rightarrow> mandate_scope res" where
  "MandateScope cs ms =
     bind_res (py_iter cs) (\<lambda>c.
     bind_res (py_iter ms) (\<lambda>m.
     (let categories = map py_str c; merchants = map py_str m
      in if list_ex (\<lambda>item. item = []) (categories @ merchants) then Inl ValueError
         else Inr \<lparr>ms_categories = categories, ms_merchants = merchants\<rparr>)))"

definition MandateScope_kw :: "pydict \<Rightarrow> mandate_scope res" where
  "MandateScope_kw m =
     (if kwargs_ok [] [''categories'', ''merchants''] m
      then MandateScope (dict_get_or m ''categories'' (PList [])) (dict_get_or m ''merchants'' (PList []))
      else Inl TypeError)"

record mandate_validity =
  mv_not_before :: instant
  mv_expires_at :: instant

definition MandateValidity :: "pyval \<Rightarrow> pyval \<Rightarrow> mandate_validity res" where
  "MandateValidity nb ex =
     bind_res (ensure_utc nb) (\<lambda>n.
     bind_res (ensure_utc ex) (\<lambda>e.
     if e \<le> n then Inl ValueError else Inr \<lparr>mv_not_before = n, mv_expires_at = e\<rparr>))"

definition MandateValidity_kw :: "pydict \<Rightarrow> mandate_validity res" where
  "MandateValidity_kw m =
     (if kwargs_ok [''not_before'', ''expires_at''] [] m
      then MandateValidity (dict_get_or m ''not_before'' PNone) (dict_get_or m ''expires_at'' PNone)
      else Inl TypeError)"

record mandate_claims =
  mc_jti :: string
  mc_agent :: "string option"
  mc_currency :: string
  mc_scope :: mandate_scope
  mc_limits :: "mandate_limits option"
  mc_validity :: "mandate_validity option"
  mc_status :: string
  mc_conditions :: pyval
  mc_payment_method_ref :: "string option"
  mc_subject :: "string option"
  mc_agent_id :: "string option"
  mc_parent_jti :: "string option"

text \<open>\<^verbatim>\<open>a or b\<close> on optional text.\<close>

definition or_str :: "string option \<Rightarrow> string option \<Rightarrow> string option" where
  "or_str a b = (case a of Some s \<Rightarrow> if s = [] then b else a | None \<Rightarrow> b)"

text \<open>
  The constructor of \<^verbatim>\<open>MandateClaims\<close>. Scope, limits and validity are objects or mappings to convert;
  a status outside the enumeration is kept, for the gate to deny.
\<close>

definition MandateClaims ::
  "string \<Rightarrow> string option \<Rightarrow> string \<Rightarrow> (mandate_scope + pydict) \<Rightarrow> (mandate_limits + pydict) option
   \<Rightarrow> (mandate_validity + pydict) option \<Rightarrow> pyval \<Rightarrow> pyval \<Rightarrow> string option \<Rightarrow> string option
   \<Rightarrow> string option \<Rightarrow> string option \<Rightarrow> mandate_claims res" where
  "MandateClaims jti agent currency scope limits validity status conditions pmr subject agent_id parent =
     (if jti = [] then Inl ValueError
      else if or_str agent agent_id = Some [] then Inl ValueError
      else
        bind_res (case scope of Inl s \<Rightarrow> Inr s | Inr m \<Rightarrow> MandateScope_kw m) (\<lambda>sc.
        bind_res (case limits of
                    None \<Rightarrow> Inr None
                  | Some (Inl l) \<Rightarrow> Inr (Some l)
                  | Some (Inr m) \<Rightarrow> bind_res (MandateLimits_kw m) (\<lambda>l. Inr (Some l))) (\<lambda>li.
        bind_res (case validity of
                    None \<Rightarrow> Inr None
                  | Some (Inl v) \<Rightarrow> Inr (Some v)
                  | Some (Inr m) \<Rightarrow> bind_res (MandateValidity_kw m) (\<lambda>v. Inr (Some v))) (\<lambda>va.
        Inr \<lparr>mc_jti = jti, mc_agent = or_str agent agent_id, mc_currency = map to_upper currency,
             mc_scope = sc, mc_limits = li, mc_validity = va,
             mc_status = (case as_mandate_status status of
                            None \<Rightarrow> py_str status | Some st \<Rightarrow> status_str st),
             mc_conditions = conditions, mc_payment_method_ref = pmr, mc_subject = subject,
             mc_agent_id = agent_id, mc_parent_jti = parent\<rparr>))))"

text \<open>The attributes of a mandate that are plain data.\<close>

definition claims_attr :: "mandate_claims \<Rightarrow> string \<Rightarrow> pyval option" where
  "claims_attr c name =
     (if name = ''jti'' then Some (PStr (mc_jti c))
      else if name = ''agent'' then Some (opt_str (mc_agent c))
      else if name = ''currency'' then Some (PStr (mc_currency c))
      else if name = ''status'' then Some (PStr (mc_status c))
      else if name = ''conditions'' then Some (mc_conditions c)
      else if name = ''payment_method_ref'' then Some (opt_str (mc_payment_method_ref c))
      else if name = ''subject'' then Some (opt_str (mc_subject c))
      else if name = ''agent_id'' then Some (opt_str (mc_agent_id c))
      else if name = ''parent_jti'' then Some (opt_str (mc_parent_jti c))
      else None)"

abbreviation mandate_value :: "mandate_claims src \<Rightarrow> string \<Rightarrow> pyval \<Rightarrow> pyval" where
  "mandate_value \<equiv> src_value claims_attr"

text \<open>The attributes of a mandate that are objects again, or mappings of plain data.\<close>

definition mandate_scope_of :: "mandate_claims src \<Rightarrow> mandate_scope src" where
  "mandate_scope_of m =
     (case m of Obj c \<Rightarrow> Obj (mc_scope c) | Val v \<Rightarrow> Val (src_value claims_attr m ''scope'' PNone))"

definition mandate_limits_of :: "mandate_claims src \<Rightarrow> mandate_limits src" where
  "mandate_limits_of m =
     (case m of
        Obj c \<Rightarrow> (case mc_limits c of None \<Rightarrow> Val PNone | Some l \<Rightarrow> Obj l)
      | Val v \<Rightarrow> Val (src_value claims_attr m ''limits'' PNone))"

definition mandate_validity_of :: "mandate_claims src \<Rightarrow> mandate_validity src" where
  "mandate_validity_of m =
     (case m of
        Obj c \<Rightarrow> (case mc_validity c of None \<Rightarrow> Val PNone | Some v \<Rightarrow> Obj v)
      | Val v \<Rightarrow> Val (src_value claims_attr m ''validity'' PNone))"

definition validity_attr :: "mandate_validity \<Rightarrow> string \<Rightarrow> pyval option" where
  "validity_attr v name =
     (if name = ''not_before'' then Some (PTime (Aware (mv_not_before v)))
      else if name = ''expires_at'' then Some (PTime (Aware (mv_expires_at v)))
      else None)"

definition limits_attr :: "mandate_limits \<Rightarrow> string \<Rightarrow> pyval option" where
  "limits_attr l name =
     (if name = ''max_per_txn'' then Some (PDec (cents_dec (ml_max_per_txn l)))
      else if name = ''total_budget'' then Some (PDec (cents_dec (ml_total_budget l)))
      else None)"

section \<open>Offers, intents and the spend projection\<close>

record offer =
  of_offer_id :: string
  of_merchant_id :: string
  of_category :: string
  of_amount :: string
  of_currency :: string
  of_title :: string
  of_description :: "string option"

definition Offer ::
  "string \<Rightarrow> string \<Rightarrow> string \<Rightarrow> pyval \<Rightarrow> string \<Rightarrow> string \<Rightarrow> string option \<Rightarrow> offer res" where
  "Offer oid merchant category amount currency title description =
     bind_res (canonical_amount amount) (\<lambda>a.
     Inr \<lparr>of_offer_id = oid, of_merchant_id = merchant, of_category = category, of_amount = a,
          of_currency = map to_upper currency, of_title = title, of_description = description\<rparr>)"

record purchase_intent =
  pi_jti :: string
  pi_mandate_jti :: string
  pi_agent :: string
  pi_merchant_id :: string
  pi_offer_id :: string
  pi_amount :: string
  pi_currency :: string
  pi_nonce :: string
  pi_iat :: pyval
  pi_exp :: pyval
  pi_category :: "string option"
  pi_offer_amount :: "string option"
  pi_agent_id :: "string option"

definition PurchaseIntent ::
  "string \<Rightarrow> string \<Rightarrow> string \<Rightarrow> string \<Rightarrow> string \<Rightarrow> pyval \<Rightarrow> string \<Rightarrow> string \<Rightarrow> pyval \<Rightarrow> pyval
   \<Rightarrow> string option \<Rightarrow> pyval \<Rightarrow> string option \<Rightarrow> purchase_intent res" where
  "PurchaseIntent jti mjti agent merchant oid amount currency nonce iat exp category oamount agent_id =
     (if jti = [] \<or> mjti = [] then Inl ValueError
      else if or_str agent_id None \<noteq> None \<and> agent \<noteq> [] \<and> agent_id \<noteq> Some agent then Inl ValueError
      else
        bind_res (canonical_amount amount) (\<lambda>a.
        bind_res (if oamount = PNone then Inr None
                  else bind_res (canonical_amount oamount) (\<lambda>o'. Inr (Some o'))) (\<lambda>oa.
        Inr \<lparr>pi_jti = jti, pi_mandate_jti = mjti, pi_agent = agent, pi_merchant_id = merchant,
             pi_offer_id = oid, pi_amount = a, pi_currency = map to_upper currency, pi_nonce = nonce,
             pi_iat = iat, pi_exp = exp, pi_category = category, pi_offer_amount = oa,
             pi_agent_id = or_str agent_id (Some agent)\<rparr>)))"

definition intent_attr :: "purchase_intent \<Rightarrow> string \<Rightarrow> pyval option" where
  "intent_attr i name =
     (if name = ''jti'' then Some (PStr (pi_jti i))
      else if name = ''mandate_jti'' then Some (PStr (pi_mandate_jti i))
      else if name = ''agent'' then Some (PStr (pi_agent i))
      else if name = ''merchant_id'' then Some (PStr (pi_merchant_id i))
      else if name = ''offer_id'' then Some (PStr (pi_offer_id i))
      else if name = ''amount'' then Some (PStr (pi_amount i))
      else if name = ''currency'' then Some (PStr (pi_currency i))
      else if name = ''nonce'' then Some (PStr (pi_nonce i))
      else if name = ''iat'' then Some (pi_iat i)
      else if name = ''exp'' then Some (pi_exp i)
      else if name = ''category'' then Some (opt_str (pi_category i))
      else if name = ''offer_amount'' then Some (opt_str (pi_offer_amount i))
      else if name = ''agent_id'' then Some (opt_str (pi_agent_id i))
      else None)"

abbreviation intent_value :: "purchase_intent src \<Rightarrow> string \<Rightarrow> pyval \<Rightarrow> pyval" where
  "intent_value \<equiv> src_value intent_attr"

record spend_view =
  sv_spent_total :: cents
  sv_reserved_total :: cents
  sv_txn_count_period :: int
  sv_mandate_status :: pyval
  sv_intents_last_60s :: int
  sv_escalations_last_hour :: int
  sv_open_authorizations :: int
  sv_cooldown_until :: "instant option"

text \<open>The check of a counter field: a non-negative integer that is not a boolean.\<close>

definition counter_field :: "pyval \<Rightarrow> int res" where
  "counter_field v = (case v of PInt n \<Rightarrow> if n < 0 then Inl ValueError else Inr n | _ \<Rightarrow> Inl ValueError)"

definition optional_utc :: "pyval \<Rightarrow> instant option res" where
  "optional_utc v = (if v = PNone then Inr None else bind_res (ensure_utc v) (\<lambda>t. Inr (Some t)))"

definition SpendView ::
  "pyval \<Rightarrow> pyval \<Rightarrow> pyval \<Rightarrow> pyval \<Rightarrow> pyval \<Rightarrow> pyval \<Rightarrow> pyval \<Rightarrow> pyval \<Rightarrow> spend_view res" where
  "SpendView spent reserved txn status intents escs authz cooldown =
     bind_res (limit_decimal spent) (\<lambda>s.
     bind_res (limit_decimal reserved) (\<lambda>r.
     bind_res (counter_field txn) (\<lambda>n.
     bind_res (counter_field intents) (\<lambda>i.
     bind_res (counter_field escs) (\<lambda>e.
     bind_res (counter_field authz) (\<lambda>a.
     bind_res (optional_utc cooldown) (\<lambda>c.
     Inr \<lparr>sv_spent_total = s, sv_reserved_total = r, sv_txn_count_period = n,
          sv_mandate_status = status, sv_intents_last_60s = i, sv_escalations_last_hour = e,
          sv_open_authorizations = a, sv_cooldown_until = c\<rparr>)))))))"

definition opt_time :: "instant option \<Rightarrow> pyval" where
  "opt_time t = (case t of None \<Rightarrow> PNone | Some i \<Rightarrow> PTime (Aware i))"

definition spend_attr :: "spend_view \<Rightarrow> string \<Rightarrow> pyval option" where
  "spend_attr s name =
     (if name = ''spent_total'' then Some (PDec (cents_dec (sv_spent_total s)))
      else if name = ''reserved_total'' then Some (PDec (cents_dec (sv_reserved_total s)))
      else if name = ''txn_count_period'' then Some (PInt (sv_txn_count_period s))
      else if name = ''mandate_status'' then Some (sv_mandate_status s)
      else if name \<in> set [''intents_last_60s'', ''intent_count_60s''] then Some (PInt (sv_intents_last_60s s))
      else if name \<in> set [''escalations_last_hour'', ''escalation_count_hour'']
      then Some (PInt (sv_escalations_last_hour s))
      else if name \<in> set [''open_authorizations'', ''open_authz''] then Some (PInt (sv_open_authorizations s))
      else if name = ''cooldown_until'' then Some (opt_time (sv_cooldown_until s))
      else None)"

abbreviation spend_value :: "spend_view src \<Rightarrow> string \<Rightarrow> pyval \<Rightarrow> pyval" where
  "spend_value \<equiv> src_value spend_attr"

section \<open>Decisions\<close>

record decision =
  d_decision :: decision_value
  d_reason_code :: "reason_code option"
  d_reservation_id :: "string option"
  d_diff :: "pydict option"
  d_level :: "escalation_level option"
  d_ttl_seconds :: "int option"
  d_requires_uv :: bool

definition mk_decision :: "decision_value \<Rightarrow> reason_code option \<Rightarrow> pydict option \<Rightarrow> decision" where
  "mk_decision v r diff =
     \<lparr>d_decision = v, d_reason_code = r, d_reservation_id = None, d_diff = diff, d_level = None,
      d_ttl_seconds = None, d_requires_uv = False\<rparr>"

abbreviation approved :: decision where
  "approved \<equiv> mk_decision APPROVED None None"

abbreviation rejected :: "reason_code \<Rightarrow> decision" where
  "rejected r \<equiv> mk_decision REJECTED (Some r) None"

abbreviation rejected_diff :: "reason_code \<Rightarrow> pydict \<Rightarrow> decision" where
  "rejected_diff r diff \<equiv> mk_decision REJECTED (Some r) (Some diff)"

lemma mk_decision_simps [simp]:
  "d_decision (mk_decision v r diff) = v"
  "d_reason_code (mk_decision v r diff) = r"
  "d_diff (mk_decision v r diff) = diff"
  "d_level (mk_decision v r diff) = None"
  "d_ttl_seconds (mk_decision v r diff) = None"
  "d_requires_uv (mk_decision v r diff) = False"
  "d_reservation_id (mk_decision v r diff) = None"
  by (simp_all add: mk_decision_def)

lemma mk_decision_inject [simp]:
  "mk_decision v r diff = mk_decision v' r' diff' \<longleftrightarrow> v = v' \<and> r = r' \<and> diff = diff'"
  by (auto simp: mk_decision_def)

text \<open>The constructor on untyped arguments, with its coercions to the enumerations.\<close>

definition Decision :: "pyval \<Rightarrow> pyval \<Rightarrow> string option \<Rightarrow> pydict option \<Rightarrow> pyval \<Rightarrow> int option \<Rightarrow> bool \<Rightarrow> decision res" where
  "Decision value_d reason rid diff lvl ttl uv =
     bind_res (decision_value_of value_d) (\<lambda>v.
     bind_res (if reason = PNone then Inr None else bind_res (reason_of reason) (\<lambda>r. Inr (Some r))) (\<lambda>r.
     bind_res (if lvl = PNone then Inr None else bind_res (as_level lvl) (\<lambda>l. Inr (Some l))) (\<lambda>l.
     if (case ttl of Some t \<Rightarrow> t < 0 | None \<Rightarrow> False) then Inl ValueError
     else Inr \<lparr>d_decision = v, d_reason_code = r, d_reservation_id = rid, d_diff = diff, d_level = l,
               d_ttl_seconds = ttl, d_requires_uv = uv\<rparr>)))"

definition is_approved :: "decision \<Rightarrow> bool" where "is_approved d \<longleftrightarrow> d_decision d = APPROVED"
definition is_rejected :: "decision \<Rightarrow> bool" where "is_rejected d \<longleftrightarrow> d_decision d = REJECTED"
definition is_escalated :: "decision \<Rightarrow> bool" where "is_escalated d \<longleftrightarrow> d_decision d = ESCALATED"

section \<open>Burst and step-up configuration\<close>

record burst_config =
  bc_max_intents :: int
  bc_window :: micros
  bc_cooldown :: micros
  bc_max_open_authorizations :: int
  bc_max_escalations_per_hour :: int

definition BurstConfig :: "int \<Rightarrow> micros \<Rightarrow> micros \<Rightarrow> int \<Rightarrow> int \<Rightarrow> burst_config res" where
  "BurstConfig mi w cd oa eh =
     (if mi < 0 \<or> oa < 0 \<or> eh < 0 then Inl ValueError
      else if w \<le> 0 \<or> cd \<le> 0 then Inl ValueError
      else Inr \<lparr>bc_max_intents = mi, bc_window = w, bc_cooldown = cd,
                bc_max_open_authorizations = oa, bc_max_escalations_per_hour = eh\<rparr>)"

definition default_burst_config :: burst_config where
  "default_burst_config =
     \<lparr>bc_max_intents = 3, bc_window = seconds 60, bc_cooldown = seconds 600,
      bc_max_open_authorizations = 3, bc_max_escalations_per_hour = 5\<rparr>"

record burst_state =
  bs_intents_in_window :: int
  bs_cooldown_until :: "instant option"
  bs_open_authorizations :: int
  bs_escalations_in_hour :: int

definition BurstState :: "pyval \<Rightarrow> pyval \<Rightarrow> pyval \<Rightarrow> pyval \<Rightarrow> burst_state res" where
  "BurstState intents cooldown authz escs =
     bind_res (counter_field intents) (\<lambda>i.
     bind_res (counter_field authz) (\<lambda>a.
     bind_res (counter_field escs) (\<lambda>e.
     bind_res (optional_utc cooldown) (\<lambda>c.
     Inr \<lparr>bs_intents_in_window = i, bs_cooldown_until = c, bs_open_authorizations = a,
          bs_escalations_in_hour = e\<rparr>))))"

record burst_decision =
  bd_decision :: decision_value
  bd_reason_code :: "reason_code option"
  bd_cooldown_until :: "instant option"
  bd_auto_suspend :: bool
  bd_diff :: "pydict option"

record stepup_config =
  sc_amount_ratio :: dec
  sc_budget_ratio :: dec
  sc_ttl_l3 :: micros
  sc_ttl_l3_plus :: micros

definition StepUpConfig :: "dec \<Rightarrow> dec \<Rightarrow> micros \<Rightarrow> micros \<Rightarrow> stepup_config res" where
  "StepUpConfig ar br t1 t2 =
     (if dec_le ar (Dec 0 0) \<or> dec_less (Dec 1 0) ar then Inl ValueError
      else if dec_le br (Dec 0 0) \<or> dec_less (Dec 1 0) br then Inl ValueError
      else if t1 \<le> 0 \<or> t2 \<le> 0 then Inl ValueError
      else Inr \<lparr>sc_amount_ratio = ar, sc_budget_ratio = br, sc_ttl_l3 = t1, sc_ttl_l3_plus = t2\<rparr>)"

definition default_stepup_config :: stepup_config where
  "default_stepup_config =
     \<lparr>sc_amount_ratio = Dec 70 (- 2), sc_budget_ratio = Dec 80 (- 2), sc_ttl_l3 = seconds 120,
      sc_ttl_l3_plus = seconds 300\<rparr>"

record stepup_decision =
  su_required :: bool
  su_level :: "escalation_level option"
  su_reasons :: "reason_code list"
  su_ttl_seconds :: "int option"
  su_max_age :: "int option"
  su_requires_uv :: bool
  su_expires_at :: "instant option"
  su_diff :: "pydict option"

definition no_stepup :: stepup_decision where
  "no_stepup =
     \<lparr>su_required = False, su_level = None, su_reasons = [], su_ttl_seconds = None, su_max_age = None,
      su_requires_uv = False, su_expires_at = None, su_diff = None\<rparr>"

record escalation =
  es_level :: escalation_level
  es_created_at :: instant
  es_timeout_at :: "instant option"
  es_diff :: "pydict option"

definition Escalation :: "pyval \<Rightarrow> pyval \<Rightarrow> pyval \<Rightarrow> pydict option \<Rightarrow> escalation res" where
  "Escalation lvl created timeout diff =
     bind_res (as_level lvl) (\<lambda>l.
     bind_res (ensure_utc created) (\<lambda>c.
     bind_res (optional_utc timeout) (\<lambda>t.
     if (case t of Some u \<Rightarrow> u \<le> c | None \<Rightarrow> False) then Inl ValueError
     else Inr \<lparr>es_level = l, es_created_at = c, es_timeout_at = t, es_diff = diff\<rparr>)))"

section \<open>Facts about money\<close>

lemma check_amount_Inr:
  assumes "check_amount lit = Inr c"
  shows "valid_cents c \<and> (\<exists>d. lit = Inr (FiniteDecimal d) \<and> dec_eq (cents_dec c) d)"
proof -
  from assms obtain d where lit: "lit = Inr (FiniteDecimal d)" and pos: "\<not> coeff d < 0"
    and q: "dec_quantize_cent d = Inr c" and eq: "dec_eq (cents_dec c) d"
    by (auto simp: check_amount_def split: sum.splits decimal_literal.splits if_splits)
  have "0 \<le> dec_scale d (min (- 2) (expo d))"
    using pos by (simp add: dec_scale_def)
  with eq have "0 \<le> c * 10 ^ nat (- 2 - min (- 2) (expo d))"
    by (simp add: dec_eq_def dec_scale_def Let_def)
  then have "0 \<le> c" by (metis zero_le_mult_iff not_le zero_less_numeral zero_less_power)
  with quantize_Inr_bound [OF q] show ?thesis
    using lit eq by (auto simp: valid_cents_def)
qed

lemma check_amount_Inl: "check_amount lit = Inl e \<Longrightarrow> e = AmountFormatError"
  by (auto simp: check_amount_def split: sum.splits decimal_literal.splits if_splits)

lemma check_amount_cents [simp]:
  "valid_cents c \<Longrightarrow> check_amount (Inr (FiniteDecimal (cents_dec c))) = Inr c"
  by (simp add: check_amount_def) (simp add: valid_cents_def)

lemma decimal_amount_valid: "decimal_amount b v = Inr c \<Longrightarrow> valid_cents c"
  by (cases v) (auto split: if_splits dest: check_amount_Inr)

lemma decimal_amount_Inl: "decimal_amount b v = Inl e \<Longrightarrow> e = AmountFormatError"
  by (cases v) (auto split: if_splits dest: check_amount_Inl)

lemma limit_decimal_valid: "limit_decimal v = Inr c \<Longrightarrow> valid_cents c"
  and amount_decimal_valid: "amount_decimal v = Inr c \<Longrightarrow> valid_cents c"
  by (auto simp: limit_decimal_def amount_decimal_def dest: decimal_amount_valid)

lemma limit_decimal_Inl: "limit_decimal v = Inl e \<Longrightarrow> e = AmountFormatError"
  and amount_decimal_Inl: "amount_decimal v = Inl e \<Longrightarrow> e = AmountFormatError"
  by (auto simp: limit_decimal_def amount_decimal_def dest: decimal_amount_Inl)

lemma amount_decimal_cents [simp]: "valid_cents c \<Longrightarrow> amount_decimal (PDec (cents_dec c)) = Inr c"
  by (simp add: amount_decimal_def)

text \<open>The canonical texts are exactly the texts of non-negative amounts of cents.\<close>

lemma amount_re_cents_str: "0 \<le> c \<Longrightarrow> amount_re (cents_str c)"
proof -
  assume "0 \<le> c"
  let ?n = "nat c div 100"
  have digits: "list_all is_digit (nat_str ?n)" by (rule all_digits_nat_str)
  have tw: "takeWhile is_digit (cents_str c) = nat_str ?n"
    and dw: "dropWhile is_digit (cents_str c) = ''.'' @ pad_str 2 (nat c mod 100)"
    using digits by (simp_all add: cents_str_def)
  have "nat_str ?n = ''0'' \<or> hd (nat_str ?n) \<noteq> CHR ''0''"
  proof (cases "?n = 0")
    case True
    then show ?thesis by (simp add: nat_str.simps)
  next
    case False
    then show ?thesis using nat_str_no_leading_zero by blast
  qed
  then show ?thesis
    using all_digits_pad_str [of 2 "nat c mod 100"] by (simp add: amount_re_def tw dw Let_def)
qed

lemma digits_val_inj:
  "list_all is_digit s \<Longrightarrow> list_all is_digit t \<Longrightarrow> length s = length t \<Longrightarrow>
   digits_val s = digits_val t \<Longrightarrow> s = t"
proof (induction s arbitrary: t rule: rev_induct)
  case Nil
  then show ?case by simp
next
  case (snoc x xs)
  then obtain ys y where t: "t = ys @ [y]" by (cases t rule: rev_cases) auto
  have d: "digit_val x < 10" "digit_val y < 10" using snoc.prems by (auto simp: t digit_val_less)
  have "10 * digits_val xs + digit_val x = 10 * digits_val ys + digit_val y"
    using snoc.prems(4) by (simp add: t)
  with d have "digits_val xs = digits_val ys" "digit_val x = digit_val y" by presburger+
  moreover have "48 \<le> (of_char x :: nat)" "48 \<le> (of_char y :: nat)"
    using snoc.prems by (simp_all add: t is_digit_def)
  with calculation(2) have "(of_char x :: nat) = of_char y" by (simp only: digit_val_def eq_diff_iff)
  then have "x = y" by simp
  ultimately show ?case using snoc by (simp add: t)
qed

lemma nat_str_unique:
  assumes "list_all is_digit s" "s \<noteq> []" "s = ''0'' \<or> hd s \<noteq> CHR ''0''"
  shows "s = nat_str (digits_val s)"
  using assms
proof (induction s rule: rev_induct)
  case Nil
  then show ?case by simp
next
  case (snoc x xs)
  have x: "digit_val x < 10" "digit_char (digit_val x) = x"
    using snoc.prems by (auto simp: digit_val_less digit_char_def digit_val_def is_digit_def)
  show ?case
  proof (cases "xs = []")
    case True
    then show ?thesis using x by (simp add: nat_str.simps)
  next
    case False
    with snoc.prems have hd: "hd xs \<noteq> CHR ''0''" by auto
    with False snoc have IH: "xs = nat_str (digits_val xs)" by simp
    have "digits_val xs \<noteq> 0"
    proof
      assume "digits_val xs = 0"
      with IH have "xs = ''0''" by (simp add: nat_str.simps)
      with hd show False by simp
    qed
    with x IH show ?thesis by (subst nat_str.simps) simp
  qed
qed

lemma amount_reE:
  assumes "amount_re s"
  obtains c where "0 \<le> c" "s = cents_str c"
proof -
  define ip r where "ip = takeWhile is_digit s" and "r = dropWhile is_digit s"
  from assms have ip: "ip \<noteq> []" "ip = ''0'' \<or> hd ip \<noteq> CHR ''0''"
    and r: "length r = 3" "hd r = CHR ''.''" "list_all is_digit (tl r)"
    by (auto simp: amount_re_def Let_def ip_def r_def)
  have ipd: "list_all is_digit ip" by (auto simp: ip_def list_all_iff dest: set_takeWhileD)
  define f where "f = tl r"
  have f: "length f = 2" "list_all is_digit f" "r = ''.'' @ f"
    using r by (cases r; simp add: f_def)+
  have fv: "digits_val f < 100"
  proof -
    obtain a b where "f = [a, b]" using f(1) by (auto simp: length_Suc_conv numeral_2_eq_2)
    moreover from this f(2) have "digit_val a < 10" "digit_val b < 10" by (auto simp: digit_val_less)
    ultimately show ?thesis by (simp add: digits_val_def)
  qed
  then have "f = pad_str 2 (digits_val f)"
    using f by (intro digits_val_inj) (simp_all add: all_digits_pad_str digits_pad_str)
  moreover have "ip = nat_str (digits_val ip)" by (rule nat_str_unique [OF ipd ip])
  moreover have "s = ip @ r" by (simp add: ip_def r_def)
  ultimately have "s = cents_str (int (100 * digits_val ip + digits_val f))"
    using fv f by (simp add: cents_str_def nat_add_distrib nat_mult_distrib)
  then show thesis by (rule that [rotated]) simp
qed

lemma decimal_amount_cents_str [simp]:
  "valid_cents c \<Longrightarrow> decimal_amount b (PStr (cents_str c)) = Inr c"
  by (auto simp: amount_re_cents_str parse_cents_str valid_cents_def)
     (simp_all add: check_amount_def valid_cents_def cents_str_def)

lemma amount_decimal_cents_str [simp]: "valid_cents c \<Longrightarrow> amount_decimal (PStr (cents_str c)) = Inr c"
  unfolding amount_decimal_def by (rule decimal_amount_cents_str)

lemma cents_str_inject: "valid_cents a \<Longrightarrow> valid_cents b \<Longrightarrow> cents_str a = cents_str b \<longleftrightarrow> a = b"
  by (metis decimal_amount_cents_str sum.inject(2))

lemma canonical_amount_Inr_iff:
  "canonical_amount v = Inr s \<longleftrightarrow> (\<exists>c. amount_decimal v = Inr c \<and> valid_cents c \<and> s = cents_str c)"
  by (auto simp: canonical_amount_def amount_decimal_def bind_res_Inr_iff dest: decimal_amount_valid)

lemma canonical_amount_Inl: "canonical_amount v = Inl e \<Longrightarrow> e = AmountFormatError"
  by (auto simp: canonical_amount_def bind_res_Inl_iff split: if_splits dest: decimal_amount_Inl)

text \<open>The limits that a mandate carries are amounts of cents.\<close>

lemma MandateLimits_valid:
  assumes "MandateLimits p b m = Inr l"
  shows "valid_cents (ml_max_per_txn l) \<and> valid_cents (ml_total_budget l)"
  using assms by (auto simp: MandateLimits_def bind_res_Inr_iff dest: limit_decimal_valid)

lemma SpendView_valid:
  assumes "SpendView s r n st i e a c = Inr v"
  shows "valid_cents (sv_spent_total v) \<and> valid_cents (sv_reserved_total v)
         \<and> 0 \<le> sv_txn_count_period v"
  using assms
  by (auto simp: SpendView_def bind_res_Inr_iff counter_field_def split: pyval.splits if_splits
      dest: limit_decimal_valid)

end
