(* ===== verification/Json_Logic.thy ===== *)
theory Json_Logic
  imports Domain_Models
begin

text \<open>
  The signed conditions of a mandate: the JsonLogic interpreter of \<^verbatim>\<open>src/src/api/domain/policy.py\<close>
  (\<^verbatim>\<open>_lookup_var\<close>, \<^verbatim>\<open>_numeric\<close>, \<^verbatim>\<open>_comparison\<close>, \<^verbatim>\<open>_jsonlogic\<close>, \<^verbatim>\<open>_lookup_missing\<close>,
  \<^verbatim>\<open>evaluate_conditions\<close>). The interpreter recurses over the expression and terminates on every
  input; exceptions are values, so that what a condition can raise is visible.
\<close>

section \<open>The evaluation context\<close>

text \<open>\<^verbatim>\<open>_as_offer_mapping\<close>: the price and the amount of a mapping fill in for each other.\<close>

definition as_offer_mapping :: "offer src \<Rightarrow> pydict option res" where
  "as_offer_mapping off =
     (case off of
        Obj r \<Rightarrow>
          Inr (Some [(''offer_id'', PStr (of_offer_id r)), (''merchant_id'', PStr (of_merchant_id r)),
                     (''category'', PStr (of_category r)), (''amount'', PStr (of_amount r)),
                     (''price'', PStr (of_amount r)), (''currency'', PStr (of_currency r)),
                     (''title'', PStr (of_title r)), (''description'', opt_str (of_description r))])
      | Val PNone \<Rightarrow> Inr None
      | Val (PDict m) \<Rightarrow>
          (let m1 = (case (dict_get m ''amount'', dict_get m ''price'') of
                       (Some a, None) \<Rightarrow> dict_set ''price'' a m | _ \<Rightarrow> m);
               m2 = (case (dict_get m1 ''price'', dict_get m1 ''amount'') of
                       (Some p, None) \<Rightarrow> dict_set ''amount'' p m1 | _ \<Rightarrow> m1)
           in Inr (Some m2))
      | Val _ \<Rightarrow> Inl ValueError)"

record jl_context =
  cx_offer :: pydict
  cx_now :: string

fun split_dot :: "string \<Rightarrow> string list" where
  "split_dot [] = [[]]"
| "split_dot (c # s) =
     (if c = CHR ''.'' then [] # split_dot s
      else (case split_dot s of [] \<Rightarrow> [[c]] | p # ps \<Rightarrow> (c # p) # ps))"

fun walk_path :: "pyval \<Rightarrow> string list \<Rightarrow> pyval res" where
  "walk_path cur [] = Inr cur"
| "walk_path cur (p # ps) =
     (case cur of
        PDict m \<Rightarrow> (case dict_get m p of None \<Rightarrow> Inl KeyError | Some v \<Rightarrow> walk_path v ps)
      | _ \<Rightarrow> Inl KeyError)"

definition lookup_var :: "pyval \<Rightarrow> jl_context \<Rightarrow> pyval res" where
  "lookup_var path cx =
     (case path of
        PStr p \<Rightarrow>
          if p = ''now'' then Inr (PStr (cx_now cx))
          else if take 6 p = ''offer.'' then walk_path (PDict (cx_offer cx)) (split_dot (drop 6 p))
          else Inl KeyError
      | _ \<Rightarrow> Inl AttributeError)"

definition lookup_missing :: "jl_context \<Rightarrow> pyval \<Rightarrow> bool res" where
  "lookup_missing cx path =
     (case lookup_var path cx of
        Inr _ \<Rightarrow> Inr False
      | Inl e \<Rightarrow> if e = KeyError \<or> e = TypeError then Inr True else Inl e)"

section \<open>Operators\<close>

definition as_decimal :: "pyval \<Rightarrow> cents res" where
  "as_decimal v =
     (case v of
        PStr _ \<Rightarrow> amount_decimal v
      | PDec _ \<Rightarrow> amount_decimal v
      | PInt _ \<Rightarrow> amount_decimal v
      | _ \<Rightarrow> Inl AmountFormatError)"

definition numeric :: "pyval \<Rightarrow> cents option" where
  "numeric v = (case as_decimal v of Inl _ \<Rightarrow> None | Inr c \<Rightarrow> Some c)"

definition comparison :: "pyval \<Rightarrow> pyval \<Rightarrow> string \<Rightarrow> bool res" where
  "comparison left right op =
     (let (l, r) = (case (numeric left, numeric right) of
                      (Some a, Some b) \<Rightarrow> (PDec (cents_dec a), PDec (cents_dec b))
                    | _ \<Rightarrow> (left, right))
      in if op \<in> set [''=='', ''==='', ''='', ''eq''] then Inr (py_eq l r)
         else if op \<in> set [''!='', ''!=='', ''neq''] then Inr (\<not> py_eq l r)
         else if op = ''<'' then bind_res (py_cmp l r) (\<lambda>c. Inr (c = OLess))
         else if op = ''<='' then bind_res (py_cmp l r) (\<lambda>c. Inr (c \<noteq> OGreater))
         else if op = ''>'' then bind_res (py_cmp l r) (\<lambda>c. Inr (c = OGreater))
         else if op = ''>='' then bind_res (py_cmp l r) (\<lambda>c. Inr (c \<noteq> OLess))
         else Inl ValueError)"

text \<open>The arithmetic operators on validated amounts; intermediate results are rounded decimals.\<close>

definition arithmetic :: "string \<Rightarrow> pyval list \<Rightarrow> pyval res" where
  "arithmetic op vals =
     (let numbers = map numeric vals
      in if None \<in> set numbers then Inl ValueError
         else
           (let exact = map (cents_dec \<circ> the) numbers
            in if op = ''+'' then Inr (PDec (fold (\<lambda>x a. dec_add a x) exact (Dec 0 0)))
               else if op = ''-''
               then (case exact of
                       [] \<Rightarrow> Inl IndexError
                     | [x] \<Rightarrow> Inr (PDec x)
                     | x # xs \<Rightarrow> Inr (PDec (dec_sub x (fold (\<lambda>y a. dec_add a y) xs (Dec 0 0)))))
               else if op = ''*'' then Inr (PDec (fold (\<lambda>x a. dec_mul a x) exact (Dec 1 0)))
               else if op = ''/''
               then (case exact of
                       [x, y] \<Rightarrow> if coeff y = 0 then Inl ValueError else Inr (PDec (dec_div x y))
                     | _ \<Rightarrow> Inl ValueError)
               else if op = ''%''
               then (case exact of
                       [x, y] \<Rightarrow> if coeff y = 0 then Inl ValueError
                                  else bind_res (dec_mod x y) (\<lambda>d. Inr (PDec d))
                     | _ \<Rightarrow> Inl ValueError)
               else (case exact of
                       [] \<Rightarrow> Inl ValueError
                     | x # xs \<Rightarrow>
                         Inr (PDec (fold (\<lambda>y a. if (if op = ''min'' then dec_less y a else dec_less a y)
                                                  then y else a) xs x)))))"

fun filter_missing :: "jl_context \<Rightarrow> pyval list \<Rightarrow> pyval list res" where
  "filter_missing cx [] = Inr []"
| "filter_missing cx (p # ps) =
     bind_res (lookup_missing cx p) (\<lambda>m.
     bind_res (filter_missing cx ps) (\<lambda>r. Inr (if m then p # r else r)))"

text \<open>The operator \<^verbatim>\<open>missing\<close> catches only \<^verbatim>\<open>KeyError\<close>.\<close>

fun missing_vars :: "jl_context \<Rightarrow> pyval list \<Rightarrow> pyval list res" where
  "missing_vars cx [] = Inr []"
| "missing_vars cx (p # ps) =
     (case lookup_var p cx of
        Inr _ \<Rightarrow> missing_vars cx ps
      | Inl e \<Rightarrow> if e = KeyError then bind_res (missing_vars cx ps) (\<lambda>r. Inr (p # r)) else Inl e)"

definition missing_some :: "jl_context \<Rightarrow> int \<Rightarrow> pyval \<Rightarrow> pyval res" where
  "missing_some cx minimum paths =
     bind_res (py_iter paths) (\<lambda>ps.
     bind_res (filter_missing cx ps) (\<lambda>missing.
     Inr (PList (if int (length ps) - int (length missing) \<ge> minimum then [] else missing))))"

definition merge_values :: "pyval list \<Rightarrow> pyval list" where
  "merge_values vs = concat (map (\<lambda>v. case v of PList xs \<Rightarrow> xs | _ \<Rightarrow> [v]) vs)"

definition as_args :: "pyval \<Rightarrow> pyval list" where
  "as_args raw = (case raw of PList xs \<Rightarrow> xs | v \<Rightarrow> [v])"

definition comparison_ops :: "string list" where
  "comparison_ops = [''=='', ''==='', ''!='', ''!=='', ''='', ''eq'', ''neq'', ''<'', ''<='', ''>'', ''>='']"

definition arithmetic_ops :: "string list" where
  "arithmetic_ops = [''+'', ''-'', ''*'', ''/'', ''%'', ''min'', ''max'']"

section \<open>The interpreter\<close>

lemma as_args_size: "size_list size (as_args raw) \<le> Suc (size raw)"
  by (cases raw) (simp_all add: as_args_def)

lemma as_args_size_double: "2 * size_list size (as_args raw) \<le> Suc (Suc (Suc (Suc (2 * size raw))))"
  using as_args_size [of raw] by linarith

function jsonlogic :: "jl_context \<Rightarrow> pyval \<Rightarrow> pyval res"
  and jl_map :: "jl_context \<Rightarrow> pyval list \<Rightarrow> pyval list res"
  and jl_and :: "jl_context \<Rightarrow> pyval \<Rightarrow> pyval list \<Rightarrow> pyval res"
  and jl_or :: "jl_context \<Rightarrow> pyval \<Rightarrow> pyval list \<Rightarrow> pyval res"
  and jl_if :: "jl_context \<Rightarrow> pyval list \<Rightarrow> pyval res"
  and jl_op :: "jl_context \<Rightarrow> string \<Rightarrow> pyval list \<Rightarrow> pyval res" where
  "jsonlogic cx e =
     (case e of
        PFloat _ _ \<Rightarrow> Inl ValueError
      | PTime _ \<Rightarrow> Inl ValueError
      | PList xs \<Rightarrow> bind_res (jl_map cx xs) (\<lambda>ys. Inr (PList ys))
      | PDict m \<Rightarrow> (case m of [(op, raw)] \<Rightarrow> jl_op cx op (as_args raw) | _ \<Rightarrow> Inl ValueError)
      | v \<Rightarrow> Inr v)"
| "jl_map cx [] = Inr []"
| "jl_map cx (x # xs) =
     bind_res (jsonlogic cx x) (\<lambda>y. bind_res (jl_map cx xs) (\<lambda>ys. Inr (y # ys)))"
| "jl_and cx result [] = Inr result"
| "jl_and cx result (x # xs) =
     bind_res (jsonlogic cx x) (\<lambda>y. if truthy y then jl_and cx y xs else Inr y)"
| "jl_or cx result [] = Inr result"
| "jl_or cx result (x # xs) =
     bind_res (jsonlogic cx x) (\<lambda>y. if truthy y then Inr y else jl_or cx y xs)"
| "jl_if cx [] = Inr PNone"
| "jl_if cx [x] = jsonlogic cx x"
| "jl_if cx (c # v # rest) =
     bind_res (jsonlogic cx c) (\<lambda>b. if truthy b then jsonlogic cx v else jl_if cx rest)"
| "jl_op cx op args =
     (if op = ''var''
      then (case args of
              [] \<Rightarrow> Inr PNone
            | path # rest \<Rightarrow>
                if \<not> is_PStr path then Inl ValueError
                else (case lookup_var path cx of
                        Inr v \<Rightarrow> Inr v
                      | Inl e \<Rightarrow> if e = KeyError
                                 then (case rest of [] \<Rightarrow> Inr PNone | d # _ \<Rightarrow> jsonlogic cx d)
                                 else Inl e))
      else if op = ''if'' \<or> op = ''?:''
      then (if length args < 2 then Inl ValueError else jl_if cx args)
      else if op = ''and'' then jl_and cx PNone args
      else if op = ''or'' then jl_or cx PNone args
      else if op = ''!'' \<or> op = ''!!''
      then bind_res (case args of [] \<Rightarrow> Inr True
                     | x # _ \<Rightarrow> bind_res (jsonlogic cx x) (\<lambda>y. Inr (\<not> truthy y)))
             (\<lambda>b. Inr (PBool (if op = ''!'' then b else \<not> b)))
      else if op \<in> set comparison_ops
      then (case args of
              [x, y] \<Rightarrow> bind_res (jsonlogic cx x) (\<lambda>l. bind_res (jsonlogic cx y) (\<lambda>r.
                          bind_res (comparison l r op) (\<lambda>b. Inr (PBool b))))
            | _ \<Rightarrow> Inl ValueError)
      else if op = ''in''
      then (case args of
              [x, y] \<Rightarrow> bind_res (jsonlogic cx x) (\<lambda>l. bind_res (jsonlogic cx y) (\<lambda>r.
                          bind_res (py_in l r) (\<lambda>b. Inr (PBool b))))
            | _ \<Rightarrow> Inl ValueError)
      else if op = ''missing'' then bind_res (missing_vars cx args) (\<lambda>ms. Inr (PList ms))
      else if op = ''missing_some''
      then (case args of
              [x, y] \<Rightarrow> bind_res (jsonlogic cx x) (\<lambda>lo. bind_res (py_int lo) (\<lambda>n.
                          bind_res (jsonlogic cx y) (\<lambda>paths. missing_some cx n paths)))
            | _ \<Rightarrow> Inl ValueError)
      else if op \<in> set arithmetic_ops then bind_res (jl_map cx args) (arithmetic op)
      else if op = ''cat''
      then bind_res (jl_map cx args) (\<lambda>vs. Inr (PStr (concat (map py_str vs))))
      else if op = ''merge'' then bind_res (jl_map cx args) (\<lambda>vs. Inr (PList (merge_values vs)))
      else Inl ValueError)"
  by pat_completeness auto
termination
proof (relation "measure (\<lambda>x. case x of
      Inl (Inl (_, e)) \<Rightarrow> 2 * size e
    | Inl (Inr (Inl (_, xs))) \<Rightarrow> 2 * size_list size xs
    | Inl (Inr (Inr (_, _, xs))) \<Rightarrow> 2 * size_list size xs
    | Inr (Inl (_, _, xs)) \<Rightarrow> 2 * size_list size xs
    | Inr (Inr (Inl (_, xs))) \<Rightarrow> 2 * size_list size xs
    | Inr (Inr (Inr (_, _, xs))) \<Rightarrow> 2 * size_list size xs + 1)")
qed (auto simp: less_Suc_eq_le intro: as_args_size_double)

declare jsonlogic.simps [simp del] jl_op.simps [simp del]

text \<open>\<^verbatim>\<open>evaluate_conditions\<close>: what the interpreter raises is a failed condition, except the exceptions
  that the handler does not name.\<close>

definition condition_caught :: "exn \<Rightarrow> bool" where
  "condition_caught e \<longleftrightarrow> e = KeyError \<or> e = TypeError \<or> is_ValueError e \<or> e = InvalidOperation"

definition evaluate_conditions :: "pyval \<Rightarrow> offer src \<Rightarrow> pyval \<Rightarrow> bool res" where
  "evaluate_conditions conditions off now =
     (if \<not> truthy conditions then Inr True
      else
        bind_res (as_offer_mapping off) (\<lambda>om.
        case om of
          None \<Rightarrow> Inr False
        | Some m \<Rightarrow>
            try_res
              (bind_res (ensure_utc now) (\<lambda>current.
               bind_res (jsonlogic \<lparr>cx_offer = m, cx_now = isoformat_z current\<rparr> conditions) (\<lambda>v.
               Inr (truthy v))))
              (\<lambda>e. if condition_caught e then Inr False else Inl e)))"

section \<open>What a condition can raise\<close>

text \<open>
  The interpreter raises only exceptions of a fixed list; two of them, \<^verbatim>\<open>IndexError\<close> and
  \<^verbatim>\<open>AttributeError\<close>, pass through \<^verbatim>\<open>evaluate_conditions\<close>.
\<close>

definition jl_exn :: "exn \<Rightarrow> bool" where
  "jl_exn e \<longleftrightarrow> e \<in> {ValueError, TypeError, IndexError, AttributeError, InvalidOperation}"

lemma lookup_var_Inl: "lookup_var p cx = Inl e \<Longrightarrow> e = KeyError \<or> e = AttributeError"
proof -
  have "walk_path v ps = Inl e' \<Longrightarrow> e' = KeyError" for v ps e'
    by (induction v ps rule: walk_path.induct) (auto split: pyval.splits option.splits)
  then show "lookup_var p cx = Inl e \<Longrightarrow> ?thesis"
    by (auto simp: lookup_var_def split: pyval.splits if_splits)
qed

lemma missing_vars_Inl: "missing_vars cx ps = Inl e \<Longrightarrow> jl_exn e"
  by (induction ps) (auto simp: jl_exn_def bind_res_Inl_iff split: sum.splits if_splits dest: lookup_var_Inl)

lemma filter_missing_Inl: "filter_missing cx ps = Inl e \<Longrightarrow> jl_exn e"
  by (induction ps)
     (auto simp: jl_exn_def bind_res_Inl_iff lookup_missing_def split: sum.splits if_splits
       dest: lookup_var_Inl)

lemma py_cmp_Inl: "py_cmp x y = Inl e \<Longrightarrow> e = TypeError"
  and py_cmp_list_Inl: "py_cmp_list xs ys = Inl e \<Longrightarrow> e = TypeError"
proof (induction x y and xs ys rule: py_cmp_py_cmp_list.induct)
  case (1 x y)
  then show ?case
    by (subst (asm) py_cmp.simps) (auto split: option.splits pyval.splits dtime.splits)
qed (auto split: list.splits if_splits)

lemma comparison_Inl: "comparison l r op = Inl e \<Longrightarrow> jl_exn e"
  by (auto simp: comparison_def jl_exn_def bind_res_Inl_iff Let_def split: prod.splits if_splits
      dest: py_cmp_Inl)

lemma py_in_Inl: "py_in x y = Inl e \<Longrightarrow> jl_exn e"
  by (cases y) (auto simp: jl_exn_def split: pyval.splits if_splits)

lemma arithmetic_Inl: "arithmetic op vs = Inl e \<Longrightarrow> jl_exn e"
  by (auto simp: arithmetic_def jl_exn_def bind_res_Inl_iff dec_mod_def Let_def
      split: if_splits list.splits)

lemma py_iter_Inl: "py_iter v = Inl e \<Longrightarrow> e = TypeError"
  by (cases v) auto

lemma py_int_Inl: "py_int v = Inl e \<Longrightarrow> jl_exn e"
  by (cases v) (auto simp: jl_exn_def int_of_str_def Let_def split: option.splits prod.splits)

lemma missing_some_Inl: "missing_some cx n v = Inl e \<Longrightarrow> jl_exn e"
  using py_iter_Inl [of v e] filter_missing_Inl [of cx _ e]
  by (auto simp: missing_some_def bind_res_Inl_iff) (simp add: jl_exn_def)

lemmas jl_Inl = missing_vars_Inl comparison_Inl py_in_Inl arithmetic_Inl py_int_Inl missing_some_Inl

text \<open>
  The operators raise nothing new if the evaluation of their arguments does not. The arguments are
  smaller than the expression, so that one induction over the size gives the result.
\<close>

definition jl_safe :: "jl_context \<Rightarrow> pyval \<Rightarrow> bool" where
  "jl_safe cx x \<longleftrightarrow> (\<forall>e. jsonlogic cx x = Inl e \<longrightarrow> jl_exn e)"

lemma jl_safeD: "jl_safe cx x \<Longrightarrow> jsonlogic cx x = Inl e \<Longrightarrow> jl_exn e"
  by (simp add: jl_safe_def)

lemma jl_map_Inl: "list_all (jl_safe cx) xs \<Longrightarrow> jl_map cx xs = Inl e \<Longrightarrow> jl_exn e"
  by (induction xs) (auto simp: bind_res_Inl_iff dest: jl_safeD)

lemma jl_and_Inl: "list_all (jl_safe cx) xs \<Longrightarrow> jl_and cx r xs = Inl e \<Longrightarrow> jl_exn e"
  by (induction xs arbitrary: r) (auto simp: bind_res_Inl_iff split: if_splits dest: jl_safeD)

lemma jl_or_Inl: "list_all (jl_safe cx) xs \<Longrightarrow> jl_or cx r xs = Inl e \<Longrightarrow> jl_exn e"
  by (induction xs arbitrary: r) (auto simp: bind_res_Inl_iff split: if_splits dest: jl_safeD)

lemma jl_if_Inl: "list_all (jl_safe cx) xs \<Longrightarrow> jl_if cx xs = Inl e \<Longrightarrow> jl_exn e"
  by (induction xs rule: induct_list012) (auto simp: bind_res_Inl_iff split: if_splits dest: jl_safeD)

lemma jl_pair_Inl:
  assumes "list_all (jl_safe cx) args"
    and "\<And>l r y. f l r = Inl y \<Longrightarrow> jl_exn y"
    and "(case args of [x, y] \<Rightarrow> bind_res (jsonlogic cx x) (\<lambda>l. bind_res (jsonlogic cx y) (f l))
          | _ \<Rightarrow> Inl ValueError) = Inl e"
  shows "jl_exn e"
proof -
  have "jl_exn ValueError" by (simp add: jl_exn_def)
  with assms show ?thesis
    by (auto simp: bind_res_Inl_iff split: list.splits dest: jl_safeD)
qed

lemma jl_op_Inl:
  assumes args: "list_all (jl_safe cx) args" and eq: "jl_op cx op args = Inl e"
  shows "jl_exn e"
proof -
  have VE: "jl_exn ValueError" by (simp add: jl_exn_def)
  note eq' = eq [unfolded jl_op.simps [of cx op args]]
  consider (var) "op = ''var''" | (cond) "op = ''if'' \<or> op = ''?:''"
    | (conj) "op = ''and''" | (disj) "op = ''or''"
    | (neg) "op = ''!'' \<or> op = ''!!''" | (cmp) "op \<in> set comparison_ops" | (mem) "op = ''in''"
    | (miss) "op = ''missing''" | (miss_some) "op = ''missing_some''" | (arith) "op \<in> set arithmetic_ops"
    | (text_op) "op = ''cat'' \<or> op = ''merge''"
    | (other) "op \<notin> set ([''var'', ''if'', ''?:'', ''and'', ''or'', ''!'', ''!!'', ''in'', ''missing'',
        ''missing_some'', ''cat'', ''merge''] @ comparison_ops @ arithmetic_ops)"
    by auto
  then show ?thesis
  proof cases
    case var
    with eq' args show ?thesis
      by (auto split: list.splits if_splits sum.splits dest: lookup_var_Inl jl_safeD simp: jl_exn_def)
  next
    case cond
    with eq' args VE show ?thesis by (auto split: if_splits dest: jl_if_Inl)
  next
    case conj
    with eq' args show ?thesis by (auto dest: jl_and_Inl)
  next
    case disj
    with eq' args show ?thesis by (auto dest: jl_or_Inl)
  next
    case neg
    with eq' args show ?thesis by (auto simp: bind_res_Inl_iff split: list.splits dest: jl_safeD)
  next
    case cmp
    then have h: "jl_op cx op args = (case args of
        [x, y] \<Rightarrow> bind_res (jsonlogic cx x) (\<lambda>l. bind_res (jsonlogic cx y) (\<lambda>r.
                    bind_res (comparison l r op) (\<lambda>b. Inr (PBool b))))
      | _ \<Rightarrow> Inl ValueError)"
      by (subst jl_op.simps) (auto simp: comparison_ops_def)
    show ?thesis
      by (rule jl_pair_Inl [OF args _ trans [OF h [symmetric] eq]])
         (auto simp: bind_res_Inl_iff dest: comparison_Inl)
  next
    case mem
    then have h: "jl_op cx op args = (case args of
        [x, y] \<Rightarrow> bind_res (jsonlogic cx x) (\<lambda>l. bind_res (jsonlogic cx y) (\<lambda>r.
                    bind_res (py_in l r) (\<lambda>b. Inr (PBool b))))
      | _ \<Rightarrow> Inl ValueError)"
      by (subst jl_op.simps) (simp add: comparison_ops_def)
    show ?thesis
      by (rule jl_pair_Inl [OF args _ trans [OF h [symmetric] eq]])
         (auto simp: bind_res_Inl_iff dest: py_in_Inl)
  next
    case miss
    with eq' show ?thesis by (auto simp: bind_res_Inl_iff comparison_ops_def dest: missing_vars_Inl)
  next
    case miss_some
    then have h: "jl_op cx op args = (case args of
        [x, y] \<Rightarrow> bind_res (jsonlogic cx x) (\<lambda>lo. bind_res (py_int lo) (\<lambda>n.
                    bind_res (jsonlogic cx y) (missing_some cx n)))
      | _ \<Rightarrow> Inl ValueError)"
      by (subst jl_op.simps) (simp add: comparison_ops_def)
    show ?thesis
    proof (cases "\<exists>x y. args = [x, y]")
      case True
      then obtain x y where xy: "args = [x, y]" by blast
      from h eq consider "jsonlogic cx x = Inl e" | lo where "py_int lo = Inl e" | "jsonlogic cx y = Inl e"
        | n v where "missing_some cx n v = Inl e"
        by (auto simp: xy bind_res_Inl_iff)
      then show ?thesis
        using args by cases (auto simp: xy dest: missing_some_Inl py_int_Inl jl_safeD)
    next
      case False
      with h eq VE show ?thesis by (auto split: list.splits)
    qed
  next
    case arith
    have "set arithmetic_ops \<inter> set ([''var'', ''if'', ''?:'', ''and'', ''or'', ''!'', ''!!'', ''in'', ''missing'',
        ''missing_some''] @ comparison_ops) = {}" by (simp add: comparison_ops_def arithmetic_ops_def)
    with arith have "op \<notin> set ([''var'', ''if'', ''?:'', ''and'', ''or'', ''!'', ''!!'', ''in'', ''missing'',
        ''missing_some''] @ comparison_ops)" by blast
    with arith have "jl_op cx op args = bind_res (jl_map cx args) (arithmetic op)"
      by (subst jl_op.simps) simp
    with eq have "bind_res (jl_map cx args) (arithmetic op) = Inl e" by simp
    with args show ?thesis by (auto simp: bind_res_Inl_iff dest: arithmetic_Inl jl_map_Inl)
  next
    case text_op
    with eq' have "jl_map cx args = Inl e"
      by (auto simp: bind_res_Inl_iff comparison_ops_def arithmetic_ops_def)
    with args show ?thesis by (rule jl_map_Inl)
  next
    case other
    with eq' VE show ?thesis by (simp split: if_splits)
  qed
qed

lemma jsonlogic_Inl: "jsonlogic cx e = Inl x \<Longrightarrow> jl_exn x"
proof (induction e arbitrary: x rule: measure_induct_rule [where f = size])
  case (less e)
  have VE: "jl_exn ValueError" by (simp add: jl_exn_def)
  have safe: "list_all (jl_safe cx) xs" if "size_list size xs \<le> size e" for xs
    using that
  proof (induction xs)
    case (Cons y ys)
    then show ?case using less.IH [of y] by (auto simp: jl_safe_def)
  qed simp
  show ?case
  proof (cases e)
    case (PList xs)
    with less.prems safe [of xs] show ?thesis
      by (subst (asm) jsonlogic.simps) (auto simp: bind_res_Inl_iff dest: jl_map_Inl)
  next
    case (PDict m)
    show ?thesis
    proof (cases "\<exists>op raw. m = [(op, raw)]")
      case True
      then obtain op raw where m: "m = [(op, raw)]" by blast
      with less.prems PDict have "jl_op cx op (as_args raw) = Inl x"
        by (subst (asm) jsonlogic.simps) simp
      moreover have "size_list size (as_args raw) \<le> size e"
        using as_args_size [of raw] by (simp add: PDict m)
      ultimately show ?thesis using jl_op_Inl safe by blast
    next
      case False
      with less.prems PDict VE show ?thesis
        by (subst (asm) jsonlogic.simps) (auto split: list.splits prod.splits)
    qed
  qed (use less.prems VE in \<open>auto simp: jsonlogic.simps\<close>)
qed

lemma evaluate_conditions_Inl:
  assumes "evaluate_conditions c off now = Inl e"
  shows "e = IndexError \<or> e = AttributeError \<or> as_offer_mapping off = Inl e"
proof -
  have caught: "jl_exn e \<Longrightarrow> \<not> condition_caught e \<Longrightarrow> e = IndexError \<or> e = AttributeError"
    by (auto simp: jl_exn_def condition_caught_def)
  have utc: "ensure_utc now = Inl x \<Longrightarrow> condition_caught x" for x
    by (auto simp: ensure_utc_def condition_caught_def split: pyval.splits dtime.splits)
  show ?thesis
  proof (cases "as_offer_mapping off")
    case (Inl x)
    with assms show ?thesis by (auto simp: evaluate_conditions_def split: if_splits)
  next
    case (Inr om)
    with assms obtain m r where "om = Some m" and r: "r = bind_res (ensure_utc now) (\<lambda>current.
        bind_res (jsonlogic \<lparr>cx_offer = m, cx_now = isoformat_z current\<rparr> c) (\<lambda>v. Inr (truthy v)))"
      and e: "try_res r (\<lambda>e. if condition_caught e then Inr False else Inl e) = Inl e"
      by (auto simp: evaluate_conditions_def split: if_splits option.splits)
    from e have "r = Inl e" "\<not> condition_caught e" by (cases r; auto split: if_splits)+
    with r caught utc show ?thesis
      by (auto simp: bind_res_Inl_iff dest!: sym [of "Inl e"] jsonlogic_Inl)
  qed
qed

end
