(* ===== verification/Canonical_Json.thy ===== *)
theory Canonical_Json
  imports Domain_Models "HOL-Library.Char_ord" "HOL-Library.List_Lexorder" "HOL-Library.Multiset"
begin

text \<open>
  Deterministic JSON text. The program has three serializers over \<^verbatim>\<open>json.dumps\<close> with sorted keys
  and compact separators: for request fingerprints (\<^verbatim>\<open>src/src/api/domain/idempotency.py\<close>), for
  evidence (\<^verbatim>\<open>src/src/api/canonical.py\<close>) and for the audit chain
  (\<^verbatim>\<open>src/src/api/audit/hashing.py\<close>); the decision service has a fourth for event identifiers. They
  differ in the treatment of values that JSON does not have. The central fact is that the text does
  not depend on the order of the keys of a mapping.
\<close>

section \<open>The serializer\<close>

definition json_char :: "char \<Rightarrow> string" where
  "json_char c =
     (let n = (of_char c :: nat); b = char_of (92::nat)
      in if n = 34 \<or> n = 92 then [b, c]
         else if n = 8 then [b, CHR ''b'']
         else if n = 9 then [b, CHR ''t'']
         else if n = 10 then [b, CHR ''n'']
         else if n = 12 then [b, CHR ''f'']
         else if n = 13 then [b, CHR ''r'']
         else if n < 32 then [b] @ ''u00'' @ [hex_char (n div 16), hex_char (n mod 16)]
         else [c])"

definition json_string :: "string \<Rightarrow> string" where
  "json_string s = [char_of (34::nat)] @ concat (map json_char s) @ [char_of (34::nat)]"

text \<open>
  \<^verbatim>\<open>json.dumps(value, sort_keys=True, separators=(",", ":"), ensure_ascii=False, default=...)\<close>.
  The argument \<open>dflt\<close> turns a decimal or a timestamp into text, or raises.
\<close>

fun json_dumps :: "(pyval \<Rightarrow> string res) \<Rightarrow> pyval \<Rightarrow> string res"
  and json_items :: "(pyval \<Rightarrow> string res) \<Rightarrow> pyval list \<Rightarrow> string list res"
  and json_entries :: "(pyval \<Rightarrow> string res) \<Rightarrow> pydict \<Rightarrow> (string \<times> string) list res" where
  "json_dumps dflt PNone = Inr ''null''"
| "json_dumps dflt (PBool b) = Inr (if b then ''true'' else ''false'')"
| "json_dumps dflt (PInt i) = Inr (int_str i)"
| "json_dumps dflt (PFloat d r) = Inr r"
| "json_dumps dflt (PDec d) = bind_res (dflt (PDec d)) (\<lambda>t. Inr (json_string t))"
| "json_dumps dflt (PStr s) = Inr (json_string s)"
| "json_dumps dflt (PTime t) = bind_res (dflt (PTime t)) (\<lambda>u. Inr (json_string u))"
| "json_dumps dflt (PList xs) =
     bind_res (json_items dflt xs) (\<lambda>ts. Inr (''['' @ join_str '','' ts @ '']''))"
| "json_dumps dflt (PDict m) =
     bind_res (json_entries dflt m) (\<lambda>es.
     Inr (''{'' @ join_str '','' (map (\<lambda>(k, t). json_string k @ '':'' @ t) (sort_key fst es)) @ ''}''))"
| "json_items dflt [] = Inr []"
| "json_items dflt (x # xs) =
     bind_res (json_dumps dflt x) (\<lambda>t. bind_res (json_items dflt xs) (\<lambda>ts. Inr (t # ts)))"
| "json_entries dflt [] = Inr []"
| "json_entries dflt ((k, v) # m) =
     bind_res (json_dumps dflt v) (\<lambda>t. bind_res (json_entries dflt m) (\<lambda>ts. Inr ((k, t) # ts)))"

text \<open>\<^verbatim>\<open>format(value, "f")\<close>: fixed-point text of a decimal.\<close>

definition dec_format_f :: "dec \<Rightarrow> string" where
  "dec_format_f x =
     (let sg = (if coeff x < 0 then ''-'' else ''''); n = nat \<bar>coeff x\<bar>
      in if 0 \<le> expo x then sg @ nat_str (n * 10 ^ nat (expo x))
         else sg @ nat_str (n div 10 ^ nat (- expo x)) @ ''.''
              @ pad_str (nat (- expo x)) (n mod 10 ^ nat (- expo x)))"

text \<open>\<^verbatim>\<open>default=str\<close>, as in \<^verbatim>\<open>_canonical_payload\<close> of the service and \<^verbatim>\<open>canonical_diff_digest\<close>.\<close>

definition default_str :: "pyval \<Rightarrow> string res" where
  "default_str v = Inr (py_str v)"

definition payload_json :: "pyval \<Rightarrow> string res" where
  "payload_json v = json_dumps default_str v"

text \<open>\<^verbatim>\<open>_json_default\<close> of the fingerprints.\<close>

definition domain_default :: "pyval \<Rightarrow> string res" where
  "domain_default v =
     (case v of
        PDec d \<Rightarrow> Inr (dec_format_f d)
      | PTime (Aware t) \<Rightarrow> Inr (isoformat_z t)
      | _ \<Rightarrow> Inl TypeError)"

definition domain_canonical_json :: "pyval \<Rightarrow> string res" where
  "domain_canonical_json v = json_dumps domain_default v"

text \<open>
  \<^verbatim>\<open>normalize_utc\<close>, of a timestamp or of ISO text; a \<^verbatim>\<open>Z\<close> stands for the offset of UTC.
\<close>

definition replace_Z :: "string \<Rightarrow> string" where
  "replace_Z s = concat (map (\<lambda>c. if c = CHR ''Z'' then ''+00:00'' else [c]) s)"

definition normalize_utc :: "pyval \<Rightarrow> string res" where
  "normalize_utc v =
     bind_res (case v of
                 PStr s \<Rightarrow> fromisoformat (replace_Z s)
               | PTime t \<Rightarrow> Inr t
               | _ \<Rightarrow> Inl TypeError)
       (\<lambda>t. case t of Naive _ \<Rightarrow> Inl ValueError | Aware i \<Rightarrow> Inr (isoformat_z i))"

text \<open>Both strict serializers refuse floats anywhere in the structure.\<close>

fun no_floats :: "pyval \<Rightarrow> bool"
  and no_floats_list :: "pyval list \<Rightarrow> bool"
  and no_floats_dict :: "pydict \<Rightarrow> bool" where
  "no_floats (PFloat d r) = False"
| "no_floats (PList xs) = no_floats_list xs"
| "no_floats (PDict m) = no_floats_dict m"
| "no_floats v = True"
| "no_floats_list [] = True"
| "no_floats_list (x # xs) = (no_floats x \<and> no_floats_list xs)"
| "no_floats_dict [] = True"
| "no_floats_dict ((k, v) # m) = (no_floats v \<and> no_floats_dict m)"

definition strict_default :: "pyval \<Rightarrow> string res" where
  "strict_default v =
     (case v of
        PDec d \<Rightarrow> Inr (dec_format_f d)
      | PTime t \<Rightarrow> normalize_utc v
      | _ \<Rightarrow> Inl TypeError)"

definition evidence_canonical_json :: "pyval \<Rightarrow> string res" where
  "evidence_canonical_json v =
     (if no_floats v then json_dumps strict_default v else Inl TypeError)"

definition audit_json_default :: "pyval \<Rightarrow> string res" where
  "audit_json_default v =
     (case v of
        PDec d \<Rightarrow> Inr (dec_format_f d)
      | PTime t \<Rightarrow> normalize_utc v
      | _ \<Rightarrow> Inl TypeError)"

definition audit_canonical_json :: "pyval \<Rightarrow> string res" where
  "audit_canonical_json v =
     (if no_floats v then json_dumps audit_json_default v else Inl TypeError)"

section \<open>Independence of key order\<close>

lemma json_entries_Inr_iff:
  "json_entries dflt m = Inr es \<longleftrightarrow>
   list_all2 (\<lambda>(k, v) (k', t). k' = k \<and> json_dumps dflt v = Inr t) m es"
proof (induction m arbitrary: es)
  case Nil
  then show ?case by auto
next
  case (Cons p m)
  then show ?case
    by (cases p; cases es) (auto simp: bind_res_Inr_iff)
qed

lemma json_entries_keys: "json_entries dflt m = Inr es \<Longrightarrow> map fst es = map fst m"
  by (induction m arbitrary: es) (auto simp: bind_res_Inr_iff)

lemma json_entries_perm:
  assumes "json_entries dflt m = Inr es" "mset n = mset m"
  shows "\<exists>fs. json_entries dflt n = Inr fs \<and> mset fs = mset es"
proof -
  let ?R = "\<lambda>(k, v) (k', t). k' = k \<and> json_dumps dflt v = Inr t"
  from assms(1) have "list_all2 ?R m es" by (simp add: json_entries_Inr_iff)
  from list_all2_reorder_left_invariance [OF this assms(2)] obtain fs
    where "list_all2 ?R n fs" "mset fs = mset es" by blast
  then show ?thesis by (auto simp: json_entries_Inr_iff)
qed

lemma json_dumps_key_order:
  assumes "json_dumps dflt (PDict m) = Inr t" "mset n = mset m" "distinct (map fst m)"
  shows "json_dumps dflt (PDict n) = Inr t"
proof -
  from assms(1) obtain es where es: "json_entries dflt m = Inr es"
    and t: "t = ''{'' @ join_str '','' (map (\<lambda>(k, t). json_string k @ '':'' @ t) (sort_key fst es)) @ ''}''"
    by (auto simp: bind_res_Inr_iff)
  from json_entries_perm [OF es assms(2)] obtain fs
    where fs: "json_entries dflt n = Inr fs" "mset fs = mset es" by blast
  have "distinct (map fst es)" using assms(3) json_entries_keys [OF es] by simp
  then have "inj_on fst (set es)" by (simp add: distinct_map)
  then have "inj_on fst (set fs)" by (metis fs(2) mset_eq_setD)
  then have "sort_key fst fs = sort_key fst es"
    using fs(2) by (intro sort_key_inj_key_eq) simp_all
  with fs t show ?thesis by simp
qed

end
