(* ===== verification/Policy_Gate.thy ===== *)
theory Policy_Gate
  imports Json_Logic Canonical_Json
begin

text \<open>
  The deterministic policy of \<^verbatim>\<open>src/src/api/domain/policy.py\<close>: signal classification, price, scope,
  mandate state, limits, burst, step-up, the resolution of an escalation, and the gate
  \<^verbatim>\<open>PolicyGate.evaluate\<close> that composes them. Inputs may be dataclass instances or mappings, as in
  the code; an exception that a rule raises and nobody catches is a result of the gate.
\<close>

section \<open>Signals\<close>

definition VERDICTIVE_REASONS :: "reason_code list" where
  "VERDICTIVE_REASONS =
     [AMOUNT_EXCEEDS_PER_TXN, BUDGET_EXCEEDED, LIMIT_EXHAUSTED, CATEGORY_FORBIDDEN,
      MERCHANT_NOT_ALLOWED, MANDATE_EXPIRED, MANDATE_NOT_YET_VALID, MANDATE_REVOKED,
      MANDATE_SUSPENDED, MANDATE_EXHAUSTED, CONDITION_FAILED, INVALID_SIGNATURE,
      INVALID_PROOF_OF_POSSESSION, DUPLICATE_JTI, NONCE_REUSED, ESCALATION_TIMEOUT_DENIED,
      RAIL_ERROR, RAIL_TOKEN_DELETED, PRICE_MISMATCH_AUTO_REFUND, WEBHOOK_INVALID]"

definition CORROBORATIVE_REASONS :: "reason_code list" where
  "CORROBORATIVE_REASONS = [VELOCITY_BURST, STEPUP_AMOUNT_THRESHOLD, STEPUP_BUDGET_USAGE]"

definition is_verdictive :: "reason_code \<Rightarrow> bool" where
  "is_verdictive r \<longleftrightarrow> r \<in> set VERDICTIVE_REASONS"

definition is_corroborative :: "reason_code \<Rightarrow> bool" where
  "is_corroborative r \<longleftrightarrow> r \<in> set CORROBORATIVE_REASONS"

record risk_signal =
  rs_reason_code :: reason_code
  rs_diff :: "pydict option"
  rs_verdictive :: "bool option"

definition signal_verdictive :: "risk_signal \<Rightarrow> bool" where
  "signal_verdictive s \<longleftrightarrow> rs_verdictive s = Some True \<or> is_verdictive (rs_reason_code s)"

definition decision_from_signals :: "risk_signal list \<Rightarrow> decision" where
  "decision_from_signals signals =
     (case find signal_verdictive signals of
        Some s \<Rightarrow> mk_decision REJECTED (Some (rs_reason_code s)) (rs_diff s)
      | None \<Rightarrow>
          (case signals of
             s # _ \<Rightarrow> (mk_decision ESCALATED (Some (rs_reason_code s)) (rs_diff s))
                        \<lparr>d_level := Some L3, d_ttl_seconds := Some 120\<rparr>
           | [] \<Rightarrow> approved))"

section \<open>Price and scope\<close>

definition price_matches :: "pyval \<Rightarrow> pyval \<Rightarrow> bool" where
  "price_matches intent_amount offer_amount =
     (case (canonical_amount intent_amount, canonical_amount offer_amount) of
        (Inr a, Inr b) \<Rightarrow> a = b
      | _ \<Rightarrow> False)"

definition amount_text :: "pyval \<Rightarrow> string" where
  "amount_text v = (case canonical_amount v of Inr s \<Rightarrow> s | Inl _ \<Rightarrow> py_str v)"

definition price_check :: "pyval \<Rightarrow> pyval \<Rightarrow> decision" where
  "price_check intent_amount offer_amount =
     (if price_matches intent_amount offer_amount then approved
      else rejected_diff CONDITION_FAILED
             [(''field'', PStr ''amount''), (''attempted'', PStr (amount_text intent_amount)),
              (''offer'', PStr (amount_text offer_amount))])"

definition as_scope :: "mandate_scope src \<Rightarrow> mandate_scope res" where
  "as_scope s =
     (case s of Obj sc \<Rightarrow> Inr sc | Val (PDict m) \<Rightarrow> MandateScope_kw m | Val _ \<Rightarrow> Inl ValueError)"

definition scope_allows :: "mandate_scope src \<Rightarrow> string \<Rightarrow> string \<Rightarrow> bool" where
  "scope_allows s merchant category =
     (case as_scope s of
        Inl _ \<Rightarrow> False
      | Inr sc \<Rightarrow> merchant \<noteq> [] \<and> category \<noteq> [] \<and> merchant \<in> set (ms_merchants sc)
                  \<and> category \<in> set (ms_categories sc))"

section \<open>Mandate state\<close>

fun status_reason :: "mandate_status \<Rightarrow> reason_code option" where
  "status_reason DRAFT = Some MANDATE_NOT_YET_VALID"
| "status_reason SUSPENDED = Some MANDATE_SUSPENDED"
| "status_reason REVOKED = Some MANDATE_REVOKED"
| "status_reason EXPIRED = Some MANDATE_EXPIRED"
| "status_reason EXHAUSTED = Some MANDATE_EXHAUSTED"
| "status_reason ACTIVE = None"

definition mandate_state_reason :: "mandate_claims src \<Rightarrow> pyval \<Rightarrow> reason_code option" where
  "mandate_state_reason mandate now =
     (case ensure_utc now of
        Inl _ \<Rightarrow> Some MANDATE_SUSPENDED
      | Inr current \<Rightarrow>
          (case mandate_status_of (mandate_value mandate ''status''
                  (case mandate of Val (PStr s) \<Rightarrow> PStr s | _ \<Rightarrow> PNone)) of
             Inl _ \<Rightarrow> Some MANDATE_SUSPENDED
           | Inr status \<Rightarrow>
               if status \<noteq> ACTIVE then status_reason status
               else if mandate_validity_of mandate = Val PNone then Some MANDATE_NOT_YET_VALID
               else
                 (case (ensure_utc (src_value validity_attr (mandate_validity_of mandate) ''not_before'' PNone),
                        ensure_utc (src_value validity_attr (mandate_validity_of mandate) ''expires_at'' PNone)) of
                    (Inr nb, Inr ex) \<Rightarrow>
                      if ex \<le> nb then Some MANDATE_EXPIRED
                      else if current < nb then Some MANDATE_NOT_YET_VALID
                      else if ex \<le> current then Some MANDATE_EXPIRED
                      else None
                  | _ \<Rightarrow> Some MANDATE_SUSPENDED)))"

definition mandate_is_active :: "mandate_claims src \<Rightarrow> pyval \<Rightarrow> bool" where
  "mandate_is_active mandate now \<longleftrightarrow> mandate_state_reason mandate now = None"

section \<open>Limits\<close>

definition as_limits :: "mandate_limits src \<Rightarrow> mandate_limits res" where
  "as_limits l =
     (case l of Obj r \<Rightarrow> Inr r | Val (PDict m) \<Rightarrow> MandateLimits_kw m | Val _ \<Rightarrow> Inl TypeError)"

abbreviation zero_amount :: pyval where
  "zero_amount \<equiv> PDec (Dec 0 (- 2))"

text \<open>
  The transaction counter against \<^verbatim>\<open>max_txn\<close>. The constructor keeps a value that is neither a mapping
  nor a limit; reading its attribute \<^verbatim>\<open>count\<close> gives a method for text and lists, which an integer
  cannot be compared with, and fails for the rest.
\<close>

definition txn_count_decision :: "mandate_limits \<Rightarrow> spend_view src \<Rightarrow> decision res" where
  "txn_count_decision l spend =
     (if ml_max_txn l = NoMaxTxn then Inr approved
      else
        (case spend_value spend ''txn_count_period'' (PInt 0) of
           PInt n \<Rightarrow>
             if n < 0 then Inr (rejected LIMIT_EXHAUSTED)
             else
               (case ml_max_txn l of
                  MaxTxn mt \<Rightarrow>
                    if n + 1 > mt_count mt
                    then Inr (rejected_diff LIMIT_EXHAUSTED
                                [(''limit'', PStr ''max_txn''), (''value'', PInt (mt_count mt)),
                                 (''attempted'', PInt (n + 1))])
                    else Inr approved
                | OtherMaxTxn (PStr _) \<Rightarrow> Inl TypeError
                | OtherMaxTxn (PList _) \<Rightarrow> Inl TypeError
                | _ \<Rightarrow> Inl AttributeError)
         | _ \<Rightarrow> Inr (rejected LIMIT_EXHAUSTED)))"

definition limits_decision :: "mandate_limits src \<Rightarrow> pyval \<Rightarrow> spend_view src \<Rightarrow> decision res" where
  "limits_decision limits intent_amount spend =
     (if limits = Val PNone then Inr (rejected LIMIT_EXHAUSTED)
      else
        (case bind_res (as_limits limits) (\<lambda>l.
              bind_res (as_decimal intent_amount) (\<lambda>a.
              bind_res (as_decimal (spend_value spend ''spent_total'' zero_amount)) (\<lambda>s.
              bind_res (as_decimal (spend_value spend ''reserved_total'' zero_amount)) (\<lambda>r.
              Inr (l, a, s, r))))) of
           Inl e \<Rightarrow> if is_ValueError e \<or> e = TypeError then Inr (rejected LIMIT_EXHAUSTED) else Inl e
         | Inr (l, a, s, r) \<Rightarrow>
             if ml_max_per_txn l < a
             then Inr (rejected_diff AMOUNT_EXCEEDS_PER_TXN
                         [(''limit'', PStr ''max_per_txn''),
                          (''value'', PStr (dec_str (cents_dec (ml_max_per_txn l)))),
                          (''attempted'', PStr (dec_str (cents_dec a)))])
             else
               (let total = dec_add (dec_add (cents_dec s) (cents_dec r)) (cents_dec a)
                in if dec_less (cents_dec (ml_total_budget l)) total
                   then Inr (rejected_diff BUDGET_EXCEEDED
                               [(''limit'', PStr ''total_budget''),
                                (''value'', PStr (dec_str (cents_dec (ml_total_budget l)))),
                                (''attempted'', PStr (dec_str total))])
                   else txn_count_decision l spend)))"

section \<open>Burst\<close>

datatype burst_src = BurstObj burst_state | SpendObj spend_view | BurstVal pyval

definition burst_state_of :: "burst_src \<Rightarrow> burst_state res" where
  "burst_state_of st =
     (case st of
        BurstObj b \<Rightarrow> Inr b
      | SpendObj s \<Rightarrow> BurstState (PInt (sv_intents_last_60s s)) (opt_time (sv_cooldown_until s))
                       (PInt (sv_open_authorizations s)) (PInt (sv_escalations_last_hour s))
      | BurstVal (PDict m) \<Rightarrow>
          BurstState
            (dict_get_or m ''intents_in_window''
               (dict_get_or m ''intents_last_60s'' (dict_get_or m ''intent_count_60s'' (PInt 0))))
            (dict_get_or m ''cooldown_until'' PNone)
            (dict_get_or m ''open_authorizations'' (dict_get_or m ''open_authz'' (PInt 0)))
            (dict_get_or m ''escalations_in_hour'' (dict_get_or m ''escalations_last_hour'' (PInt 0)))
      | BurstVal _ \<Rightarrow> BurstState (PInt 0) PNone (PInt 0) (PInt 0))"

text \<open>The keyword arguments of \<^verbatim>\<open>evaluate_burst\<close> override the observed counters one by one.\<close>

definition burst_override :: "pyval \<Rightarrow> pyval \<Rightarrow> pyval \<Rightarrow> pyval \<Rightarrow> burst_state \<Rightarrow> burst_state res" where
  "burst_override iw cu oa eh b0 =
     bind_res (if iw = PNone then Inr b0
               else BurstState iw (opt_time (bs_cooldown_until b0)) (PInt (bs_open_authorizations b0))
                      (PInt (bs_escalations_in_hour b0))) (\<lambda>b1.
     bind_res (if cu = PNone then Inr b1
               else BurstState (PInt (bs_intents_in_window b1)) cu (PInt (bs_open_authorizations b1))
                      (PInt (bs_escalations_in_hour b1))) (\<lambda>b2.
     bind_res (if oa = PNone then Inr b2
               else BurstState (PInt (bs_intents_in_window b2)) (opt_time (bs_cooldown_until b2)) oa
                      (PInt (bs_escalations_in_hour b2))) (\<lambda>b3.
     if eh = PNone then Inr b3
     else BurstState (PInt (bs_intents_in_window b3)) (opt_time (bs_cooldown_until b3))
            (PInt (bs_open_authorizations b3)) eh)))"

definition burst_rule :: "burst_config \<Rightarrow> burst_state \<Rightarrow> instant \<Rightarrow> burst_decision res" where
  "burst_rule p b current =
     (if (case bs_cooldown_until b of Some u \<Rightarrow> current < u | None \<Rightarrow> False)
      then Inr \<lparr>bd_decision = REJECTED, bd_reason_code = Some VELOCITY_BURST,
                bd_cooldown_until = bs_cooldown_until b, bd_auto_suspend = False,
                bd_diff = Some [(''cause'', PStr ''cooldown''),
                                (''until'', PStr (isoformat (the (bs_cooldown_until b))))]\<rparr>
      else if bs_escalations_in_hour b > bc_max_escalations_per_hour p
      then Inr \<lparr>bd_decision = REJECTED, bd_reason_code = Some MANDATE_SUSPENDED,
                bd_cooldown_until = None, bd_auto_suspend = True,
                bd_diff = Some [(''limit'', PStr ''escalations_per_hour''),
                                (''value'', PInt (bc_max_escalations_per_hour p)),
                                (''observed'', PInt (bs_escalations_in_hour b))]\<rparr>
      else if bs_intents_in_window b + 1 > bc_max_intents p
      then bind_res (dt_add current (bc_cooldown p)) (\<lambda>until.
           Inr \<lparr>bd_decision = ESCALATED, bd_reason_code = Some VELOCITY_BURST,
                bd_cooldown_until = Some until, bd_auto_suspend = False,
                bd_diff = Some [(''limit'', PStr ''intents''),
                                (''window_seconds'', PInt (bc_window p div us_per_second)),
                                (''observed'', PInt (bs_intents_in_window b + 1)),
                                (''cooldown_until'', PStr (isoformat until))]\<rparr>)
      else if bs_open_authorizations b + 1 > bc_max_open_authorizations p
      then Inr \<lparr>bd_decision = ESCALATED, bd_reason_code = Some VELOCITY_BURST,
                bd_cooldown_until = None, bd_auto_suspend = False,
                bd_diff = Some [(''limit'', PStr ''open_authorizations''),
                                (''value'', PInt (bc_max_open_authorizations p)),
                                (''attempted'', PInt (bs_open_authorizations b + 1))]\<rparr>
      else Inr \<lparr>bd_decision = APPROVED, bd_reason_code = None, bd_cooldown_until = None,
                bd_auto_suspend = False, bd_diff = None\<rparr>)"

definition evaluate_burst ::
  "burst_src \<Rightarrow> pyval \<Rightarrow> burst_config \<Rightarrow> pyval \<Rightarrow> pyval \<Rightarrow> pyval \<Rightarrow> pyval \<Rightarrow> burst_decision res" where
  "evaluate_burst st now p iw cu oa eh =
     (if now = PNone then Inl ValueError
      else
        bind_res (ensure_utc now) (\<lambda>current.
        bind_res (burst_state_of st) (\<lambda>b0.
        bind_res (burst_override iw cu oa eh b0) (\<lambda>b.
        burst_rule p b current))))"

section \<open>Step-up\<close>

definition ttl_for_level :: "escalation_level \<Rightarrow> stepup_config \<Rightarrow> int" where
  "ttl_for_level l p = (if l = L3_PLUS then sc_ttl_l3_plus p else sc_ttl_l3 p) div us_per_second"

definition escalation_deadline :: "instant \<Rightarrow> escalation_level \<Rightarrow> stepup_config \<Rightarrow> instant res" where
  "escalation_deadline created l p = dt_add created (seconds (ttl_for_level l p))"

definition escalation_expired :: "instant \<Rightarrow> instant \<Rightarrow> bool" where
  "escalation_expired timeout_at now \<longleftrightarrow> timeout_at \<le> now"

definition stepup_unparsable :: stepup_decision where
  "stepup_unparsable =
     \<lparr>su_required = True, su_level = Some L3_PLUS, su_reasons = [], su_ttl_seconds = None,
      su_max_age = None, su_requires_uv = True, su_expires_at = None, su_diff = None\<rparr>"

text \<open>The two thresholds on validated amounts.\<close>

definition amount_threshold :: "stepup_config \<Rightarrow> cents \<Rightarrow> cents \<Rightarrow> bool" where
  "amount_threshold p candidate maximum \<longleftrightarrow>
     maximum > 0 \<and> dec_le (dec_mul (sc_amount_ratio p) (cents_dec maximum)) (cents_dec candidate)"

definition budget_threshold :: "stepup_config \<Rightarrow> cents \<Rightarrow> cents \<Rightarrow> cents option \<Rightarrow> bool" where
  "budget_threshold p spent reserved budget =
     (case budget of
        None \<Rightarrow> False
      | Some b \<Rightarrow> b > 0 \<and> dec_le (sc_budget_ratio p)
                            (dec_div (dec_add (cents_dec spent) (cents_dec reserved)) (cents_dec b)))"

definition stepup_rule ::
  "stepup_config \<Rightarrow> cents \<Rightarrow> cents \<Rightarrow> cents \<Rightarrow> cents \<Rightarrow> cents option \<Rightarrow> pyval \<Rightarrow> bool \<Rightarrow> bool
   \<Rightarrow> stepup_decision res" where
  "stepup_rule p candidate maximum spent reserved budget now first fresh =
     (let by_amount = amount_threshold p candidate maximum;
          by_budget = budget_threshold p spent reserved budget;
          reasons = (if by_amount then [STEPUP_AMOUNT_THRESHOLD] else [])
                    @ (if by_budget then [STEPUP_BUDGET_USAGE] else []);
          diff = (if by_amount
                  then [(''amount_threshold'',
                         PDict [(''ratio'', PStr (dec_str (sc_amount_ratio p))),
                                (''amount'', PStr (dec_str (cents_dec candidate))),
                                (''max_per_txn'', PStr (dec_str (cents_dec maximum)))])] else [])
                 @ (if by_budget
                    then [(''budget_threshold'',
                           PDict [(''ratio'', PStr (dec_str (sc_budget_ratio p))),
                                  (''spent_plus_reserved'',
                                   PStr (dec_str (dec_add (cents_dec spent) (cents_dec reserved)))),
                                  (''total_budget'', PStr (dec_str (cents_dec (the budget))))])] else [])
      in if reasons = [] \<and> \<not> (first \<or> fresh) then Inr no_stepup
         else
           (let level = (if reasons \<noteq> [] \<or> first \<or> fresh then L3_PLUS else L3);
                ttl = ttl_for_level level p
            in bind_res (if now = PNone then Inr None
                         else bind_res (ensure_utc now) (\<lambda>t.
                              bind_res (escalation_deadline t level p) (\<lambda>d. Inr (Some d)))) (\<lambda>expires.
               Inr \<lparr>su_required = True, su_level = Some level, su_reasons = reasons,
                    su_ttl_seconds = Some ttl, su_max_age = Some ttl,
                    su_requires_uv = (level = L3_PLUS), su_expires_at = expires,
                    su_diff = Some (diff @ (if first then [(''first_escalation'', PBool True)] else [])
                                         @ (if fresh then [(''fresh_agent_key'', PBool True)] else []))\<rparr>)))"

definition evaluate_step_up ::
  "pyval \<Rightarrow> pyval \<Rightarrow> pyval \<Rightarrow> pyval \<Rightarrow> pyval \<Rightarrow> pyval \<Rightarrow> stepup_config \<Rightarrow> bool \<Rightarrow> bool
   \<Rightarrow> stepup_decision res" where
  "evaluate_step_up amount max_per_txn spent_total reserved_total total_budget now p first fresh =
     (case bind_res (as_decimal amount) (\<lambda>c.
           bind_res (as_decimal max_per_txn) (\<lambda>m.
           bind_res (as_decimal spent_total) (\<lambda>s.
           bind_res (as_decimal reserved_total) (\<lambda>r.
           bind_res (if total_budget = PNone then Inr None
                     else bind_res (as_decimal total_budget) (\<lambda>b. Inr (Some b))) (\<lambda>b.
           Inr (c, m, s, r, b)))))) of
        Inl e \<Rightarrow> if e = AmountFormatError then Inr stepup_unparsable else Inl e
      | Inr (c, m, s, r, b) \<Rightarrow> stepup_rule p c m s r b now first fresh)"

definition requires_step_up :: "pyval \<Rightarrow> pyval \<Rightarrow> pyval \<Rightarrow> pyval \<Rightarrow> pyval \<Rightarrow> bool res" where
  "requires_step_up amount max_per_txn spent_total reserved_total total_budget =
     bind_res (evaluate_step_up amount max_per_txn spent_total reserved_total total_budget PNone
                 default_stepup_config False False)
       (\<lambda>d. Inr (su_required d))"

section \<open>The gate\<close>

record policy_gate =
  pg_burst_config :: burst_config
  pg_stepup_config :: stepup_config

definition default_gate :: policy_gate where
  "default_gate = \<lparr>pg_burst_config = default_burst_config, pg_stepup_config = default_stepup_config\<rparr>"

text \<open>The checks that compare the intent with the mandate: identity, agent, currency.\<close>

definition binding_reason :: "mandate_claims src \<Rightarrow> purchase_intent src \<Rightarrow> reason_code option" where
  "binding_reason mandate intent =
     (let mandate_jti = mandate_value mandate ''jti'' PNone;
          mandate_agent = mandate_value mandate ''agent'' (mandate_value mandate ''agent_id'' PNone);
          intent_agent = intent_value intent ''agent'' (intent_value intent ''agent_id'' PNone);
          mandate_currency = map to_upper (py_str (mandate_value mandate ''currency'' (PStr '''')));
          intent_currency = map to_upper (py_str (intent_value intent ''currency'' (PStr '''')))
      in if \<not> truthy mandate_jti \<or> \<not> py_eq (intent_value intent ''mandate_jti'' PNone) mandate_jti
         then Some INVALID_PROOF_OF_POSSESSION
         else if \<not> truthy mandate_agent \<or> \<not> py_eq intent_agent mandate_agent
         then Some INVALID_PROOF_OF_POSSESSION
         else if mandate_currency = [] \<or> intent_currency \<noteq> mandate_currency
         then Some CONDITION_FAILED
         else None)"

text \<open>
  The comparison of the intent with the offer. The result is a rejection, or the merchant and the
  category that the scope is checked against.
\<close>

definition offer_binding ::
  "purchase_intent src \<Rightarrow> pydict option \<Rightarrow> decision + string \<times> string" where
  "offer_binding intent om =
     (let amount = intent_value intent ''amount'' PNone
      in case om of
           Some m \<Rightarrow>
             (let offer_amount = dict_get_or m ''amount'' PNone;
                  merchant = py_str (dict_get_or m ''merchant_id'' (PStr ''''));
                  category = py_str (dict_get_or m ''category'' (PStr ''''))
              in if \<not> py_eq (intent_value intent ''offer_id'' PNone) (dict_get_or m ''offer_id'' PNone)
                 then Inl (rejected CONDITION_FAILED)
                 else if \<not> price_matches amount offer_amount then Inl (price_check amount offer_amount)
                 else if \<not> py_eq (intent_value intent ''merchant_id'' PNone) (PStr merchant)
                 then Inl (rejected MERCHANT_NOT_ALLOWED)
                 else Inr (merchant, category))
         | None \<Rightarrow>
             (let offer_amount = intent_value intent ''offer_amount'' PNone
              in if offer_amount \<noteq> PNone \<and> \<not> price_matches amount offer_amount
                 then Inl (price_check amount offer_amount)
                 else Inr (py_str (intent_value intent ''merchant_id'' (PStr '''')),
                           py_str (intent_value intent ''category'' (PStr '''')))))"

definition scope_reason :: "mandate_scope src \<Rightarrow> string \<Rightarrow> string \<Rightarrow> reason_code option res" where
  "scope_reason scope merchant category =
     (case as_scope scope of
        Inl e \<Rightarrow> if is_ValueError e \<or> e = TypeError then Inr (Some MERCHANT_NOT_ALLOWED) else Inl e
      | Inr sc \<Rightarrow>
          Inr (if scope_allows (Obj sc) merchant category then None
               else if merchant \<notin> set (ms_merchants sc) then Some MERCHANT_NOT_ALLOWED
               else Some CATEGORY_FORBIDDEN))"

definition spend_burst :: "spend_view src \<Rightarrow> burst_src" where
  "spend_burst s = (case s of Obj v \<Rightarrow> SpendObj v | Val v \<Rightarrow> BurstVal v)"

text \<open>The escalations that the burst rule and the step-up rule ask for, in the order of the code.\<close>

definition gate_escalations :: "policy_gate \<Rightarrow> burst_decision \<Rightarrow> stepup_decision \<Rightarrow> decision list" where
  "gate_escalations g burst stepup =
     (if bd_decision burst = ESCALATED
      then [(mk_decision ESCALATED (bd_reason_code burst) (bd_diff burst))
              \<lparr>d_level := Some L3, d_ttl_seconds := Some (ttl_for_level L3 (pg_stepup_config g))\<rparr>]
      else [])
     @ (if su_required stepup
        then [(mk_decision ESCALATED (case su_reasons stepup of [] \<Rightarrow> None | r # _ \<Rightarrow> Some r) (su_diff stepup))
                \<lparr>d_level := su_level stepup, d_ttl_seconds := su_ttl_seconds stepup,
                 d_requires_uv := su_requires_uv stepup\<rparr>]
        else [])"

text \<open>\<^verbatim>\<open>max\<close> with a key returns the first element of the highest rank.\<close>

definition select_escalation :: "decision list \<Rightarrow> decision" where
  "select_escalation es =
     (case find (\<lambda>d. d_level d = Some L3_PLUS) es of
        Some d \<Rightarrow> d
      | None \<Rightarrow> (case es of d # _ \<Rightarrow> d | [] \<Rightarrow> approved))"

text \<open>The last part of the gate, after the limits: burst, step-up and the selection.\<close>

definition risk_decision ::
  "policy_gate \<Rightarrow> mandate_claims src \<Rightarrow> purchase_intent src \<Rightarrow> spend_view src \<Rightarrow> pyval \<Rightarrow> bool
   \<Rightarrow> decision res" where
  "risk_decision g mandate intent spend current approved_stepup =
     bind_res (evaluate_burst (spend_burst spend) current (pg_burst_config g) PNone PNone PNone PNone) (\<lambda>burst.
     if bd_decision burst = REJECTED
     then Inr (mk_decision REJECTED (bd_reason_code burst) (bd_diff burst))
     else
       (let limits = mandate_limits_of mandate
        in bind_res
             (if approved_stepup then Inr no_stepup
              else evaluate_step_up (intent_value intent ''amount'' PNone)
                     (src_value limits_attr limits ''max_per_txn'' PNone)
                     (spend_value spend ''spent_total'' zero_amount)
                     (spend_value spend ''reserved_total'' zero_amount)
                     (src_value limits_attr limits ''total_budget'' PNone)
                     current (pg_stepup_config g) False False) (\<lambda>stepup.
           case gate_escalations g burst stepup of
             [] \<Rightarrow> Inr approved
           | es \<Rightarrow> Inr (select_escalation es))))"

definition evaluate ::
  "policy_gate \<Rightarrow> mandate_claims src \<Rightarrow> purchase_intent src \<Rightarrow> spend_view src \<Rightarrow> pyval \<Rightarrow> offer src
   \<Rightarrow> bool \<Rightarrow> decision res" where
  "evaluate g mandate intent spend now off approved_stepup =
     (case ensure_utc now of
        Inl _ \<Rightarrow> Inr (rejected MANDATE_SUSPENDED)
      | Inr t \<Rightarrow>
          (let current = PTime (Aware t)
           in case mandate_state_reason mandate current of
                Some r \<Rightarrow> Inr (rejected r)
              | None \<Rightarrow>
          (case binding_reason mandate intent of
                Some r \<Rightarrow> Inr (rejected r)
              | None \<Rightarrow>
           bind_res (as_offer_mapping off) (\<lambda>om.
           case offer_binding intent om of
             Inl d \<Rightarrow> Inr d
           | Inr (merchant, category) \<Rightarrow>
           bind_res (scope_reason (mandate_scope_of mandate) merchant category) (\<lambda>sr.
           case sr of
             Some r \<Rightarrow> Inr (rejected r)
           | None \<Rightarrow>
           (let conditions = mandate_value mandate ''conditions'' PNone
            in bind_res (if truthy conditions
                         then evaluate_conditions conditions (case om of None \<Rightarrow> Val PNone | Some m \<Rightarrow> Val (PDict m)) current
                         else Inr True) (\<lambda>ok.
           if \<not> ok then Inr (rejected CONDITION_FAILED)
           else
           bind_res (limits_decision (mandate_limits_of mandate) (intent_value intent ''amount'' PNone) spend) (\<lambda>ld.
           if is_rejected ld then Inr ld
           else risk_decision g mandate intent spend current approved_stepup))))))))"

section \<open>Resolving an escalation\<close>

text \<open>
  The port for user verification, given as a function of the challenge, the assertion and the
  maximal age. Without a port the fail-closed verifier answers.
\<close>

type_synonym uv_verifier = "string \<Rightarrow> pyval \<Rightarrow> int \<Rightarrow> bool res"

definition fail_closed_uv :: uv_verifier where
  "fail_closed_uv challenge assertion max_age = Inr False"

definition canonical_diff_digest :: "(string \<Rightarrow> string) \<Rightarrow> pydict option \<Rightarrow> string res" where
  "canonical_diff_digest sha256 diff =
     bind_res (payload_json (PDict (case diff of None \<Rightarrow> [] | Some m \<Rightarrow> m))) (\<lambda>t. Inr (sha256 t))"

definition uv_check ::
  "(string \<Rightarrow> string) \<Rightarrow> uv_verifier option \<Rightarrow> pyval \<Rightarrow> pydict option \<Rightarrow> int \<Rightarrow> bool" where
  "uv_check sha256 verifier assertion diff max_age =
     (case bind_res (canonical_diff_digest sha256 diff) (\<lambda>challenge.
           (case verifier of None \<Rightarrow> fail_closed_uv | Some f \<Rightarrow> f) challenge assertion max_age) of
        Inl _ \<Rightarrow> False
      | Inr b \<Rightarrow> b)"

definition approval_given :: "pyval \<Rightarrow> bool" where
  "approval_given a \<longleftrightarrow> a \<noteq> PBool False \<and> map to_upper (py_str a) = ''APPROVE''"

definition resolve_escalation ::
  "(string \<Rightarrow> string) \<Rightarrow> escalation \<Rightarrow> pyval \<Rightarrow> pyval \<Rightarrow> uv_verifier option \<Rightarrow> pyval \<Rightarrow> pydict option
   \<Rightarrow> bool option \<Rightarrow> decision res" where
  "resolve_escalation sha256 esc now approval verifier assertion diff uv_verified =
     bind_res (ensure_utc now) (\<lambda>current.
     bind_res (case es_timeout_at esc of
                 Some t \<Rightarrow> Inr t
               | None \<Rightarrow> escalation_deadline (es_created_at esc) (es_level esc) default_stepup_config) (\<lambda>timeout.
     if timeout \<le> current then Inr (rejected ESCALATION_TIMEOUT_DENIED)
     else if \<not> approval_given approval then Inr (rejected ESCALATION_TIMEOUT_DENIED)
     else if es_level esc = L3_PLUS
             \<and> \<not> (case uv_verified of
                     Some b \<Rightarrow> b
                   | None \<Rightarrow> uv_check sha256 verifier assertion
                               (case diff of Some d \<Rightarrow> Some d | None \<Rightarrow> es_diff esc)
                               ((timeout - es_created_at esc) div us_per_second))
     then Inr (rejected ESCALATION_TIMEOUT_DENIED)
     else Inr approved))"

section \<open>Facts about the rules\<close>

lemma as_decimal_valid: "as_decimal v = Inr c \<Longrightarrow> valid_cents c"
  by (auto simp: as_decimal_def split: pyval.splits dest: amount_decimal_valid)

lemma as_decimal_Inl: "as_decimal v = Inl e \<Longrightarrow> e = AmountFormatError"
  by (auto simp: as_decimal_def split: pyval.splits dest: amount_decimal_Inl)

lemma as_decimal_cents [simp]: "valid_cents c \<Longrightarrow> as_decimal (PDec (cents_dec c)) = Inr c"
  by (simp add: as_decimal_def)

lemma as_decimal_cents_str [simp]: "valid_cents c \<Longrightarrow> as_decimal (PStr (cents_str c)) = Inr c"
  by (simp add: as_decimal_def)

text \<open>
  The limits of a mandate object hold amounts of cents, as its constructor guarantees; limits given
  as a mapping are checked when they are read.
\<close>

definition wf_limits :: "mandate_limits src \<Rightarrow> bool" where
  "wf_limits ls =
     (case ls of
        Obj l \<Rightarrow> valid_cents (ml_max_per_txn l) \<and> valid_cents (ml_total_budget l)
      | Val _ \<Rightarrow> True)"

definition wf_mandate :: "mandate_claims src \<Rightarrow> bool" where
  "wf_mandate m \<longleftrightarrow> wf_limits (mandate_limits_of m)"

lemma wf_mandate_Val [simp]: "wf_mandate (Val v)"
  by (simp add: wf_mandate_def wf_limits_def mandate_limits_of_def)

lemma MandateLimits_kw_valid:
  "MandateLimits_kw m = Inr l \<Longrightarrow> valid_cents (ml_max_per_txn l) \<and> valid_cents (ml_total_budget l)"
  by (auto simp: MandateLimits_kw_def split: if_splits dest: MandateLimits_valid)

lemma as_limits_valid:
  "as_limits ls = Inr l \<Longrightarrow> wf_limits ls \<Longrightarrow> valid_cents (ml_max_per_txn l) \<and> valid_cents (ml_total_budget l)"
  by (auto simp: as_limits_def wf_limits_def split: src.splits pyval.splits dest: MandateLimits_kw_valid)

lemma MandateClaims_wf:
  assumes "MandateClaims jti agent cur sc li va st co pmr sub aid par = Inr c"
    and "\<And>l. li = Some (Inl l) \<Longrightarrow> valid_cents (ml_max_per_txn l) \<and> valid_cents (ml_total_budget l)"
  shows "wf_mandate (Obj c)"
  using assms
  by (auto simp: MandateClaims_def wf_mandate_def wf_limits_def mandate_limits_of_def bind_res_Inr_iff
      split: if_splits option.splits sum.splits src.splits dest: MandateLimits_kw_valid)

text \<open>The limit rule admits exactly the amounts that the limits leave room for.\<close>

lemma limits_decision_not_rejected:
  assumes "limits_decision ls amount spend = Inr d" "\<not> is_rejected d" "wf_limits ls"
  obtains l a s r where
    "as_limits ls = Inr l" "as_decimal amount = Inr a"
    "as_decimal (spend_value spend ''spent_total'' zero_amount) = Inr s"
    "as_decimal (spend_value spend ''reserved_total'' zero_amount) = Inr r"
    "a \<le> ml_max_per_txn l" "s + r + a \<le> ml_total_budget l"
    "\<And>mt n. ml_max_txn l = MaxTxn mt \<Longrightarrow>
       spend_value spend ''txn_count_period'' (PInt 0) = PInt n \<Longrightarrow> n < mt_count mt"
    "d = approved"
proof -
  from assms obtain l a s r where
    la: "as_limits ls = Inr l" "as_decimal amount = Inr a"
      "as_decimal (spend_value spend ''spent_total'' zero_amount) = Inr s"
      "as_decimal (spend_value spend ''reserved_total'' zero_amount) = Inr r"
    and per: "\<not> ml_max_per_txn l < a"
    and tot: "\<not> dec_less (cents_dec (ml_total_budget l))
                 (dec_add (dec_add (cents_dec s) (cents_dec r)) (cents_dec a))"
    and txn: "txn_count_decision l spend = Inr d"
    by (auto simp: limits_decision_def is_rejected_def bind_res_def Let_def
        split: if_splits sum.splits prod.splits)
  have "s + r + a \<le> ml_total_budget l"
    using tot la as_decimal_valid as_limits_valid [OF la(1) assms(3)]
    by (simp add: dec_sum3_exceeds_iff)
  moreover have "n < mt_count mt"
    if "ml_max_txn l = MaxTxn mt" "spend_value spend ''txn_count_period'' (PInt 0) = PInt n" for mt n
    using txn assms(2) that by (auto simp: txn_count_decision_def is_rejected_def split: if_splits)
  moreover have "d = approved"
    using txn assms(2)
    by (auto simp: txn_count_decision_def is_rejected_def split: if_splits pyval.splits max_txn_field.splits)
  ultimately show thesis using la per that [of l a s r] by simp
qed

lemma status_reason_None [simp]: "status_reason st = None \<longleftrightarrow> st = ACTIVE"
  by (cases st) auto

lemma mandate_state_reason_None:
  assumes "mandate_state_reason m (PTime (Aware t)) = None"
  obtains nb ex where
    "mandate_status_of (mandate_value m ''status'' (case m of Val (PStr s) \<Rightarrow> PStr s | _ \<Rightarrow> PNone)) = Inr ACTIVE"
    "ensure_utc (src_value validity_attr (mandate_validity_of m) ''not_before'' PNone) = Inr nb"
    "ensure_utc (src_value validity_attr (mandate_validity_of m) ''expires_at'' PNone) = Inr ex"
    "nb \<le> t" "t < ex"
  using assms that
  by (auto simp: mandate_state_reason_def ensure_utc_def
      split: sum.splits if_splits pyval.splits dtime.splits)

lemma scope_reason_None:
  "scope_reason sc merchant category = Inr None \<Longrightarrow> scope_allows sc merchant category"
  by (auto simp: scope_reason_def scope_allows_def as_scope_def split: sum.splits if_splits)

lemma price_check_rejected: "\<not> price_matches a b \<Longrightarrow> is_rejected (price_check a b)"
  by (simp add: price_check_def is_rejected_def)

lemma offer_binding_Inl: "offer_binding i om = Inl d \<Longrightarrow> is_rejected d"
  by (auto simp: offer_binding_def Let_def price_check_def is_rejected_def split: option.splits if_splits)

text \<open>A decision that does not reject has passed every hard rule.\<close>

lemma evaluate_not_rejected:
  assumes "evaluate g m i spend now off st = Inr d" "\<not> is_rejected d"
  obtains t om merchant category where
    "now = PTime (Aware t)"
    "mandate_state_reason m now = None"
    "binding_reason m i = None"
    "as_offer_mapping off = Inr om"
    "offer_binding i om = Inr (merchant, category)"
    "scope_allows (mandate_scope_of m) merchant category"
    "truthy (mandate_value m ''conditions'' PNone) \<Longrightarrow>
       evaluate_conditions (mandate_value m ''conditions'' PNone)
         (case om of None \<Rightarrow> Val PNone | Some x \<Rightarrow> Val (PDict x)) now = Inr True"
    "\<exists>ld. limits_decision (mandate_limits_of m) (intent_value i ''amount'' PNone) spend = Inr ld
          \<and> \<not> is_rejected ld"
    "risk_decision g m i spend now st = Inr d"
proof -
  from assms obtain t where t: "ensure_utc now = Inr t"
    by (auto simp: evaluate_def is_rejected_def split: sum.splits)
  then have now: "now = PTime (Aware t)"
    by (auto simp: ensure_utc_def split: pyval.splits dtime.splits)
  note step = assms(1) [unfolded evaluate_def t Let_def sum.case]
  from step assms(2) have sr: "mandate_state_reason m now = None"
    by (auto simp: now is_rejected_def split: option.splits)
  from step assms(2) sr have br: "binding_reason m i = None"
    by (auto simp: now is_rejected_def split: option.splits)
  from step sr br obtain om where om: "as_offer_mapping off = Inr om"
    by (auto simp: now bind_res_Inr_iff)
  from step assms(2) sr br om obtain merchant category where
    ob: "offer_binding i om = Inr (merchant, category)"
    by (auto simp: now split: sum.splits dest: offer_binding_Inl)
  from step sr br om ob obtain x where x: "scope_reason (mandate_scope_of m) merchant category = Inr x"
    by (auto simp: now bind_res_Inr_iff)
  with step assms(2) sr br om ob have "x = None"
    by (cases x) (auto simp: now is_rejected_def)
  with step assms(2) sr br om ob x show thesis
    by (intro that [of t om merchant category])
       (auto simp: now bind_res_Inr_iff scope_reason_None is_rejected_def split: if_splits)
qed

section \<open>Properties of the gate\<close>


lemma burst_rule_REJECTED:
  assumes "burst_rule p b t = Inr bd" "bd_decision bd = REJECTED"
  shows "bd_reason_code bd = Some MANDATE_SUSPENDED
         \<or> bd_reason_code bd = Some VELOCITY_BURST \<and> (\<exists>u. bs_cooldown_until b = Some u \<and> t < u)"
  using assms by (auto simp: burst_rule_def bind_res_Inr_iff split: if_splits option.splits)

lemma txn_count_decision_reason:
  "txn_count_decision l spend = Inr d \<Longrightarrow> is_rejected d \<Longrightarrow> d_reason_code d = Some LIMIT_EXHAUSTED"
  by (auto simp: txn_count_decision_def is_rejected_def
      split: if_splits pyval.splits max_txn_field.splits)

lemma limits_decision_reason:
  assumes "limits_decision ls a spend = Inr d" "is_rejected d"
  shows "\<exists>r. d_reason_code d = Some r \<and> is_verdictive r"
  using assms txn_count_decision_reason
  by (fastforce simp: limits_decision_def is_verdictive_def VERDICTIVE_REASONS_def Let_def
      split: if_splits sum.splits prod.splits)

lemma state_reason_verdictive: "mandate_state_reason m now = Some r \<Longrightarrow> is_verdictive r"
proof -
  have "status_reason st = Some r \<Longrightarrow> is_verdictive r" for st
    by (cases st) (auto simp: is_verdictive_def VERDICTIVE_REASONS_def)
  then show "mandate_state_reason m now = Some r \<Longrightarrow> ?thesis"
    by (auto simp: mandate_state_reason_def is_verdictive_def VERDICTIVE_REASONS_def
        split: sum.splits if_splits)
qed

lemma gate_escalations_ESCALATED: "e \<in> set (gate_escalations g b u) \<Longrightarrow> d_decision e = ESCALATED"
  by (auto simp: gate_escalations_def split: if_splits)

lemma select_escalation_in: "es \<noteq> [] \<Longrightarrow> select_escalation es \<in> set es"
proof -
  assume "es \<noteq> []"
  moreover have "find P es = Some x \<Longrightarrow> x \<in> set es" for P x by (auto simp: find_Some_iff)
  ultimately show ?thesis by (auto simp: select_escalation_def split: option.splits list.splits)
qed

text \<open>The outcomes of the last part of the gate.\<close>

lemma risk_decision_cases:
  assumes "risk_decision g m i spend now st = Inr d"
  obtains (burst_rejected) bd where
      "evaluate_burst (spend_burst spend) now (pg_burst_config g) PNone PNone PNone PNone = Inr bd"
      "bd_decision bd = REJECTED" "d = mk_decision REJECTED (bd_reason_code bd) (bd_diff bd)"
  | (escalated) bd su where
      "evaluate_burst (spend_burst spend) now (pg_burst_config g) PNone PNone PNone PNone = Inr bd"
      "bd_decision bd \<noteq> REJECTED"
      "st \<Longrightarrow> su = no_stepup" "gate_escalations g bd su \<noteq> []"
      "d = select_escalation (gate_escalations g bd su)" "d_decision d = ESCALATED"
  | (passed) bd su where
      "evaluate_burst (spend_burst spend) now (pg_burst_config g) PNone PNone PNone PNone = Inr bd"
      "bd_decision bd \<noteq> REJECTED" "gate_escalations g bd su = []" "d = approved"
      "\<not> st \<Longrightarrow> evaluate_step_up (intent_value i ''amount'' PNone)
           (src_value limits_attr (mandate_limits_of m) ''max_per_txn'' PNone)
           (spend_value spend ''spent_total'' zero_amount)
           (spend_value spend ''reserved_total'' zero_amount)
           (src_value limits_attr (mandate_limits_of m) ''total_budget'' PNone)
           now (pg_stepup_config g) False False = Inr su"
proof -
  from assms obtain bd where bd:
    "evaluate_burst (spend_burst spend) now (pg_burst_config g) PNone PNone PNone PNone = Inr bd"
    by (auto simp: risk_decision_def bind_res_Inr_iff)
  show thesis
  proof (cases "bd_decision bd = REJECTED")
    case True
    with assms bd burst_rejected [of bd] show ?thesis by (simp add: risk_decision_def)
  next
    case False
    define X where "X = (if st then Inr no_stepup
        else evaluate_step_up (intent_value i ''amount'' PNone)
           (src_value limits_attr (mandate_limits_of m) ''max_per_txn'' PNone)
           (spend_value spend ''spent_total'' zero_amount)
           (spend_value spend ''reserved_total'' zero_amount)
           (src_value limits_attr (mandate_limits_of m) ''total_budget'' PNone)
           now (pg_stepup_config g) False False)"
    have "bind_res X (\<lambda>su. case gate_escalations g bd su of [] \<Rightarrow> Inr approved
        | e # es \<Rightarrow> Inr (select_escalation (e # es))) = Inr d"
      using assms unfolding risk_decision_def bd bind_res_simps if_not_P [OF False] Let_def X_def .
    from this [unfolded bind_res_Inr_iff] obtain su where su: "X = Inr su"
      and d: "(case gate_escalations g bd su of [] \<Rightarrow> Inr approved
        | e # es \<Rightarrow> Inr (select_escalation (e # es))) = (Inr d :: decision res)" by blast
    note su = su [unfolded X_def]
    show ?thesis
    proof (cases "gate_escalations g bd su = []")
      case True
      with d have "d = approved" by simp
      with su show ?thesis by (intro passed [OF bd False True]) (simp_all split: if_splits)
    next
      case es: False
      with d have "d = select_escalation (gate_escalations g bd su)" by (auto split: list.splits)
      moreover from this es have "d_decision d = ESCALATED"
        using gate_escalations_ESCALATED select_escalation_in by metis
      ultimately show ?thesis using su by (intro escalated [OF bd False _ es]) (simp_all split: if_splits)
    qed
  qed
qed

text \<open>
  A rejection of the gate always carries a reason, and the reason is one of those that may
  reject. The one exception is \<^verbatim>\<open>VELOCITY_BURST\<close>, which rejects only while a cooldown that
  was set earlier is still running.
\<close>

theorem gate_rejection_reason:
  assumes "evaluate g m i spend now off st = Inr d" "is_rejected d"
  shows "\<exists>r. d_reason_code d = Some r
     \<and> (is_verdictive r
        \<or> r = VELOCITY_BURST
          \<and> (\<exists>b t u. burst_state_of (spend_burst spend) = Inr b \<and> now = PTime (Aware t)
                 \<and> bs_cooldown_until b = Some u \<and> t < u))"
proof -
  have verd [simp]: "is_verdictive MANDATE_SUSPENDED" "is_verdictive INVALID_PROOF_OF_POSSESSION"
    "is_verdictive CONDITION_FAILED" "is_verdictive MERCHANT_NOT_ALLOWED" "is_verdictive CATEGORY_FORBIDDEN"
    by (simp_all add: is_verdictive_def VERDICTIVE_REASONS_def)
  have bind: "is_verdictive r" if "binding_reason m i = Some r" for r
    using that by (auto simp: binding_reason_def Let_def split: if_splits)
  have offer: "\<exists>r. d_reason_code x = Some r \<and> is_verdictive r" if "offer_binding i om = Inl x" for om x
    using that by (auto simp: offer_binding_def Let_def price_check_def split: option.splits if_splits)
  have scope: "is_verdictive r" if "scope_reason sc me ca = Inr (Some r)" for sc me ca r
    using that by (auto simp: scope_reason_def split: sum.splits if_splits)
  show ?thesis
  proof (cases "ensure_utc now")
    case (Inl e)
    with assms show ?thesis by (auto simp: evaluate_def)
  next
    case (Inr t)
    then have now: "now = PTime (Aware t)"
      by (auto simp: ensure_utc_def split: pyval.splits dtime.splits)
    have risk: ?thesis if "risk_decision g m i spend now st = Inr d"
      using that
    proof (cases rule: risk_decision_cases)
      case (burst_rejected bd)
      then obtain b where b: "burst_state_of (spend_burst spend) = Inr b"
        and rule: "burst_rule (pg_burst_config g) b t = Inr bd"
        by (auto simp: evaluate_burst_def now ensure_utc_def bind_res_Inr_iff burst_override_def)
      from burst_rule_REJECTED [OF rule burst_rejected(2)] b burst_rejected(3) now show ?thesis by auto
    next
      case (escalated bd su)
      with assms(2) show ?thesis by (simp add: is_rejected_def)
    next
      case (passed bd su)
      with assms(2) show ?thesis by (simp add: is_rejected_def)
    qed
    note h = assms(1) [unfolded evaluate_def Inr Let_def sum.case, folded now]
    show ?thesis
    proof (cases "mandate_state_reason m now")
      case (Some r)
      with h show ?thesis using state_reason_verdictive [OF Some] by auto
    next
      case state: None
      show ?thesis
      proof (cases "binding_reason m i")
        case (Some r)
        with h state show ?thesis using bind [OF Some] by auto
      next
        case bnd: None
        with h state obtain om where om: "as_offer_mapping off = Inr om" by (auto simp: bind_res_Inr_iff)
        show ?thesis
        proof (cases "offer_binding i om")
          case (Inl x)
          with h state bnd om show ?thesis using offer [OF Inl] by auto
        next
          case (Inr mc)
          obtain me ca where mc: "mc = (me, ca)" by (cases mc)
          with h state bnd om Inr obtain x where x: "scope_reason (mandate_scope_of m) me ca = Inr x"
            by (auto simp: bind_res_Inr_iff)
          show ?thesis
          proof (cases x)
            case (Some r)
            with h state bnd om Inr mc x show ?thesis using scope [of _ me ca r] by auto
          next
            case None
            with h state bnd om Inr mc x have
              "d = rejected CONDITION_FAILED
               \<or> limits_decision (mandate_limits_of m) (intent_value i ''amount'' PNone) spend = Inr d
               \<or> risk_decision g m i spend now st = Inr d"
              by (auto simp: bind_res_Inr_iff split: if_splits)
            then consider "d = rejected CONDITION_FAILED"
              | "limits_decision (mandate_limits_of m) (intent_value i ''amount'' PNone) spend = Inr d"
              | "risk_decision g m i spend now st = Inr d" by blast
            then show ?thesis
            proof cases
              case 2
              from limits_decision_reason [OF this assms(2)] show ?thesis by blast
            qed (use risk in auto)
          qed
        qed
      qed
    qed
  qed
qed

lemma evaluate_burst_gate:
  assumes "evaluate_burst (spend_burst spend) (PTime (Aware t)) p PNone PNone PNone PNone = Inr bd"
  obtains b where "burst_state_of (spend_burst spend) = Inr b" "burst_rule p b t = Inr bd"
  using assms by (auto simp: evaluate_burst_def ensure_utc_def bind_res_Inr_iff burst_override_def)

text \<open>
  the gate approves on its own only below both step-up thresholds and inside the burst limits:
  no cooldown is running, fewer intents than allowed were seen in the window, and an authorization
  slot is free. A larger purchase or a burst is never approved without the human step.
\<close>

theorem gate_approved_below_thresholds:
  assumes "evaluate g m i spend now off False = Inr d" "is_approved d"
  shows "\<exists>t b c x s r bud. now = PTime (Aware t)
     \<and> burst_state_of (spend_burst spend) = Inr b
     \<and> (\<forall>u. bs_cooldown_until b = Some u \<longrightarrow> u \<le> t)
     \<and> bs_intents_in_window b < bc_max_intents (pg_burst_config g)
     \<and> bs_open_authorizations b < bc_max_open_authorizations (pg_burst_config g)
     \<and> bs_escalations_in_hour b \<le> bc_max_escalations_per_hour (pg_burst_config g)
     \<and> as_decimal (intent_value i ''amount'' PNone) = Inr c
     \<and> as_decimal (src_value limits_attr (mandate_limits_of m) ''max_per_txn'' PNone) = Inr x
     \<and> as_decimal (spend_value spend ''spent_total'' zero_amount) = Inr s
     \<and> as_decimal (spend_value spend ''reserved_total'' zero_amount) = Inr r
     \<and> \<not> amount_threshold (pg_stepup_config g) c x
     \<and> \<not> budget_threshold (pg_stepup_config g) s r bud
     \<and> (bud = None \<longleftrightarrow> src_value limits_attr (mandate_limits_of m) ''total_budget'' PNone = PNone)
     \<and> (\<forall>v. bud = Some v \<longrightarrow>
           as_decimal (src_value limits_attr (mandate_limits_of m) ''total_budget'' PNone) = Inr v)"
proof -
  have "\<not> is_rejected d" using assms(2) by (simp add: is_approved_def is_rejected_def)
  from evaluate_not_rejected [OF assms(1) this] obtain t where now: "now = PTime (Aware t)"
    and risk: "risk_decision g m i spend now False = Inr d" by metis
  from risk show ?thesis
  proof (cases rule: risk_decision_cases)
    case (burst_rejected bd)
    with assms(2) show ?thesis by (simp add: is_approved_def)
  next
    case (escalated bd su)
    with assms(2) show ?thesis by (simp add: is_approved_def)
  next
    case (passed bd su)
    from passed(1) [unfolded now] obtain b where
      b: "burst_state_of (spend_burst spend) = Inr b" "burst_rule (pg_burst_config g) b t = Inr bd"
      by (rule evaluate_burst_gate)
    have nb: "bd_decision bd \<noteq> ESCALATED" "\<not> su_required su"
      using passed(3) by (auto simp: gate_escalations_def split: if_splits)
    from b(2) passed(2) nb(1) have
      "(\<forall>u. bs_cooldown_until b = Some u \<longrightarrow> u \<le> t) \<and> bs_intents_in_window b < bc_max_intents (pg_burst_config g)
       \<and> bs_open_authorizations b < bc_max_open_authorizations (pg_burst_config g)
       \<and> bs_escalations_in_hour b \<le> bc_max_escalations_per_hour (pg_burst_config g)"
      by (auto simp: burst_rule_def bind_res_Inr_iff split: if_splits option.splits)
    moreover from passed(5) nb(2) obtain c x s r bud where
      "as_decimal (intent_value i ''amount'' PNone) = Inr c"
      "as_decimal (src_value limits_attr (mandate_limits_of m) ''max_per_txn'' PNone) = Inr x"
      "as_decimal (spend_value spend ''spent_total'' zero_amount) = Inr s"
      "as_decimal (spend_value spend ''reserved_total'' zero_amount) = Inr r"
      "bud = None \<longleftrightarrow> src_value limits_attr (mandate_limits_of m) ''total_budget'' PNone = PNone"
      "\<forall>v. bud = Some v \<longrightarrow>
           as_decimal (src_value limits_attr (mandate_limits_of m) ''total_budget'' PNone) = Inr v"
      "stepup_rule (pg_stepup_config g) c x s r bud now False False = Inr su"
      by (force simp: evaluate_step_up_def stepup_unparsable_def bind_res_Inr_iff bind_res_Inl_iff
          split: sum.splits if_splits prod.splits dest: as_decimal_Inl)
    moreover from this(7) nb(2) have
      "\<not> amount_threshold (pg_stepup_config g) c x" "\<not> budget_threshold (pg_stepup_config g) s r bud"
      by (auto simp: stepup_rule_def Let_def bind_res_Inr_iff split: if_splits)
    ultimately show ?thesis using now b(1) by blast
  qed
qed

section \<open>Properties of the rules\<close>

text \<open>
  The price rule compares exact amounts: two values match exactly when both are amounts of the
  same number of cents, whatever their representation (canonical text, decimal or integer).
\<close>

theorem price_matches_iff_same_cents:
  "price_matches x y \<longleftrightarrow> (\<exists>c. amount_decimal x = Inr c \<and> amount_decimal y = Inr c)"
proof
  assume "price_matches x y"
  then obtain u where "canonical_amount x = Inr u" "canonical_amount y = Inr u"
    by (auto simp: price_matches_def split: sum.splits)
  then show "\<exists>c. amount_decimal x = Inr c \<and> amount_decimal y = Inr c"
    by (auto simp: canonical_amount_Inr_iff cents_str_inject)
next
  assume "\<exists>c. amount_decimal x = Inr c \<and> amount_decimal y = Inr c"
  then obtain c where "amount_decimal x = Inr c" "amount_decimal y = Inr c" by blast
  then have "canonical_amount x = Inr (cents_str c)" "canonical_amount y = Inr (cents_str c)"
    using amount_decimal_valid by (auto simp: canonical_amount_Inr_iff)
  then show "price_matches x y" by (simp add: price_matches_def)
qed

text \<open>
  The gold rule for several signals: one verdictive signal is enough to reject, with the first
  verdictive reason; corroborative signals alone escalate; no signal approves.
\<close>

theorem decision_from_signals_gold_rule:
  "d_decision (decision_from_signals ss) =
     (if \<exists>s\<in>set ss. signal_verdictive s then REJECTED else if ss = [] then APPROVED else ESCALATED)
   \<and> (is_rejected (decision_from_signals ss) \<longrightarrow>
        (\<exists>as s bs. ss = as @ s # bs \<and> signal_verdictive s \<and> (\<forall>a\<in>set as. \<not> signal_verdictive a)
           \<and> d_reason_code (decision_from_signals ss) = Some (rs_reason_code s)))"
proof (cases "\<exists>s\<in>set ss. signal_verdictive s")
  case True
  then obtain as s bs where split: "ss = as @ s # bs" "signal_verdictive s" "\<forall>a\<in>set as. \<not> signal_verdictive a"
    using split_list_first_prop [OF True] by blast
  have "find signal_verdictive (as @ s # bs) = Some s"
    using split(2,3) by (induction as) auto
  with True split show ?thesis by (auto simp: decision_from_signals_def)
next
  case False
  then have "find signal_verdictive ss = None" by (simp add: find_None_iff)
  with False show ?thesis by (auto simp: decision_from_signals_def is_rejected_def split: list.splits)
qed

lemma ttl_default [simp]:
  "ttl_for_level L3 default_stepup_config = 120" "ttl_for_level L3_PLUS default_stepup_config = 300"
  by (simp_all add: ttl_for_level_def default_stepup_config_def)

lemma default_ratios [simp]:
  "sc_amount_ratio default_stepup_config = cents_dec 70" "sc_budget_ratio default_stepup_config = cents_dec 80"
  by (simp_all add: default_stepup_config_def)

text \<open>Below 10^26 cents the product with the default ratio is exact.\<close>

lemma amount_threshold_exact:
  assumes "0 \<le> m" "m < 10 ^ 26"
  shows "amount_threshold default_stepup_config c m \<longleftrightarrow> 0 < m \<and> 7 * m \<le> 10 * c"
proof -
  have "\<bar>70 * m\<bar> < cents_limit" using assms by simp
  then have "dec_mul (Dec 70 (- 2)) (cents_dec m) = Dec (70 * m) (- 4)"
    by (simp add: dec_mul_def dec_fix_small)
  then show ?thesis
    by (auto simp: amount_threshold_def default_stepup_config_def dec_le_def dec_scale_def)
qed

text \<open>
  With the default configuration an amount that parses asks for a step-up exactly when it
  reaches 70\% of the limit per transaction or the budget rule fires; the level is then L3+ with
  user verification and a window of 300 seconds. (Limits below 10^26 cents, where the decimal
  product is exact.)
\<close>

theorem step_up_at_seventy_percent:
  assumes "valid_cents c" "0 \<le> m" "m < 10 ^ 26" "valid_cents s" "valid_cents r"
  shows "\<exists>d. evaluate_step_up (PDec (cents_dec c)) (PDec (cents_dec m)) (PDec (cents_dec s))
               (PDec (cents_dec r)) PNone PNone default_stepup_config False False = Inr d
         \<and> (su_required d \<longleftrightarrow> 0 < m \<and> 7 * m \<le> 10 * c)
         \<and> (su_required d \<longrightarrow> su_level d = Some L3_PLUS \<and> su_requires_uv d \<and> su_ttl_seconds d = Some 300
               \<and> su_reasons d = [STEPUP_AMOUNT_THRESHOLD])"
proof -
  have "valid_cents m" using assms by (simp add: valid_cents_def)
  then show ?thesis
    using assms
    by (simp add: evaluate_step_up_def stepup_rule_def amount_threshold_exact budget_threshold_def
        no_stepup_def Let_def)
qed

lemma uv_check_needs_verifier: "uv_check sha256 verifier assertion diff max_age \<Longrightarrow> verifier \<noteq> None"
  by (cases verifier) (auto simp: uv_check_def fail_closed_uv_def bind_res_Inr_iff split: sum.splits)

lemma resolve_escalation_guards:
  assumes "resolve_escalation sha esc now approval verifier assertion diff uvv = Inr d" "is_approved d"
  shows "\<exists>t timeout. now = PTime (Aware t)
     \<and> (es_timeout_at esc = Some timeout
        \<or> es_timeout_at esc = None
          \<and> escalation_deadline (es_created_at esc) (es_level esc) default_stepup_config = Inr timeout)
     \<and> t < timeout \<and> approval_given approval
     \<and> (es_level esc = L3_PLUS \<longrightarrow>
          uvv = Some True
          \<or> uvv = None \<and> verifier \<noteq> None
            \<and> uv_check sha verifier assertion (case diff of Some d \<Rightarrow> Some d | None \<Rightarrow> es_diff esc)
                ((timeout - es_created_at esc) div us_per_second))"
proof -
  from assms(1) obtain t timeout where t: "ensure_utc now = Inr t"
    and to: "(case es_timeout_at esc of Some t \<Rightarrow> Inr t
              | None \<Rightarrow> escalation_deadline (es_created_at esc) (es_level esc) default_stepup_config) = Inr timeout"
    by (auto simp: resolve_escalation_def bind_res_Inr_iff)
  note body = assms(1) [unfolded resolve_escalation_def t to bind_res_simps]
  have d: "d \<noteq> rejected ESCALATION_TIMEOUT_DENIED" using assms(2) by (auto simp: is_approved_def)
  from body d have "t < timeout" "approval_given approval"
    by (auto split: if_splits)
  moreover from body d have "case uvv of Some b \<Rightarrow> b
      | None \<Rightarrow> uv_check sha verifier assertion (case diff of Some d \<Rightarrow> Some d | None \<Rightarrow> es_diff esc)
                ((timeout - es_created_at esc) div us_per_second)" if "es_level esc = L3_PLUS"
    using that by (auto split: if_splits)
  ultimately show ?thesis
    using t to uv_check_needs_verifier
    by (auto simp: ensure_utc_def split: pyval.splits dtime.splits option.splits)
qed

text \<open>
  Resolving an escalation approves only before its deadline, on an explicit approval, and at
  level L3+ only after the user was verified: either the caller vouches for it, or there is a
  verification port and it accepted an assertion bound to this diff within the escalation's lifetime.
\<close>

theorem resolve_escalation_approved:
  assumes "resolve_escalation sha esc now approval verifier assertion diff uvv = Inr d" "is_approved d"
  shows "\<exists>t timeout. now = PTime (Aware t)
     \<and> (es_timeout_at esc = Some timeout
        \<or> es_timeout_at esc = None
          \<and> escalation_deadline (es_created_at esc) (es_level esc) default_stepup_config = Inr timeout)
     \<and> t < timeout \<and> approval_given approval
     \<and> (es_level esc = L3_PLUS \<longrightarrow>
          uvv = Some True
          \<or> uvv = None \<and> verifier \<noteq> None
            \<and> uv_check sha verifier assertion (case diff of Some d \<Rightarrow> Some d | None \<Rightarrow> es_diff esc)
                ((timeout - es_created_at esc) div us_per_second))"
  using resolve_escalation_guards [OF assms] .

section \<open>Concrete inputs\<close>

text \<open>A mandate of 500.00 in total and 100.00 per purchase, and purchases under it.\<close>

definition sample_claims :: mandate_claims where
  "sample_claims =
     \<lparr>mc_jti = ''m1'', mc_agent = Some ''agent'', mc_currency = ''USD'',
      mc_scope = \<lparr>ms_categories = [''food''], ms_merchants = [''shop'']\<rparr>,
      mc_limits = Some \<lparr>ml_max_per_txn = 10000, ml_total_budget = 50000, ml_max_txn = NoMaxTxn\<rparr>,
      mc_validity = Some \<lparr>mv_not_before = 0, mv_expires_at = 100000000000000000\<rparr>,
      mc_status = ''active'', mc_conditions = PNone, mc_payment_method_ref = None,
      mc_subject = None, mc_agent_id = None, mc_parent_jti = None\<rparr>"

definition sample_intent :: "cents \<Rightarrow> purchase_intent" where
  "sample_intent c =
     \<lparr>pi_jti = ''i1'', pi_mandate_jti = ''m1'', pi_agent = ''agent'', pi_merchant_id = ''shop'',
      pi_offer_id = ''o1'', pi_amount = cents_str c, pi_currency = ''USD'', pi_nonce = '''',
      pi_iat = PNone, pi_exp = PNone, pi_category = Some ''food'', pi_offer_amount = None,
      pi_agent_id = Some ''agent''\<rparr>"

definition sample_offer :: "cents \<Rightarrow> offer" where
  "sample_offer c =
     \<lparr>of_offer_id = ''o1'', of_merchant_id = ''shop'', of_category = ''food'', of_amount = cents_str c,
      of_currency = ''USD'', of_title = '''', of_description = None\<rparr>"

definition sample_spend :: "cents \<Rightarrow> int \<Rightarrow> spend_view" where
  "sample_spend spent intents =
     \<lparr>sv_spent_total = spent, sv_reserved_total = 0, sv_txn_count_period = 0,
      sv_mandate_status = PStr ''active'', sv_intents_last_60s = intents,
      sv_escalations_last_hour = 0, sv_open_authorizations = 0, sv_cooldown_until = None\<rparr>"

abbreviation sample_now :: pyval where
  "sample_now \<equiv> PTime (Aware 63900000000000000)"

lemma sample_wf: "wf_mandate (Obj sample_claims)"
  by (simp add: wf_mandate_def wf_limits_def mandate_limits_of_def sample_claims_def valid_cents_def)

lemmas sample_defs = sample_claims_def sample_intent_def sample_offer_def sample_spend_def

lemmas gate_defs = evaluate_def mandate_state_reason_def ensure_utc_def src_value_def claims_attr_def
  mandate_validity_of_def validity_attr_def binding_reason_def intent_attr_def opt_str_def
  as_offer_mapping_def offer_binding_def dict_get_or_def scope_reason_def mandate_scope_of_def
  as_scope_def scope_allows_def limits_decision_def mandate_limits_of_def as_limits_def spend_attr_def
  txn_count_decision_def risk_decision_def evaluate_burst_def spend_burst_def burst_state_of_def
  BurstState_def counter_field_def optional_utc_def opt_time_def burst_override_def burst_rule_def
  default_gate_def default_burst_config_def evaluate_step_up_def stepup_rule_def budget_threshold_def
  limits_attr_def gate_escalations_def mandate_status_of_def is_rejected_def Let_def

lemma valid_cents_numeral [simp]:
  "valid_cents 0" "valid_cents (numeral n) \<longleftrightarrow> (numeral n :: int) < cents_limit"
  by (simp_all add: valid_cents_def)

lemma price_matches_cents [simp]:
  assumes "valid_cents c"
  shows "price_matches (PStr (cents_str c)) (PStr (cents_str c))"
proof -
  from assms have "canonical_amount (PStr (cents_str c)) = Inr (cents_str c)"
    by (auto simp: canonical_amount_Inr_iff)
  then show ?thesis by (simp add: price_matches_def)
qed

lemma sample_gate_approved:
  "evaluate default_gate (Obj sample_claims) (Obj (sample_intent 1250)) (Obj (sample_spend 0 0))
     sample_now (Obj (sample_offer 1250)) False = Inr approved"
  by (simp add: sample_defs gate_defs amount_threshold_exact no_stepup_def dec_sum3_exceeds_iff
      dec_add_cents dec_fix_small dec_div_def dec_le_def dec_scale_def)

lemma sample_gate_rejected:
  "evaluate default_gate (Obj sample_claims) (Obj (sample_intent 1250)) (Obj (sample_spend 0 0))
     (PTime (Aware 200000000000000000)) (Obj (sample_offer 1250)) False = Inr (rejected MANDATE_EXPIRED)"
  by (simp add: sample_defs gate_defs)


theorem gate_rejection_reason_witness:
  "\<exists>r. d_reason_code (rejected MANDATE_EXPIRED) = Some r
     \<and> (is_verdictive r
        \<or> r = VELOCITY_BURST
          \<and> (\<exists>b t u. burst_state_of (spend_burst (Obj (sample_spend 0 0))) = Inr b
                 \<and> PTime (Aware 200000000000000000) = PTime (Aware t) \<and> bs_cooldown_until b = Some u \<and> t < u))"
  by (rule gate_rejection_reason [OF sample_gate_rejected]) (simp add: is_rejected_def)

theorem gate_approved_below_thresholds_witness:
  "\<exists>c x. as_decimal (intent_value (Obj (sample_intent 1250)) ''amount'' PNone) = Inr c
     \<and> as_decimal (src_value limits_attr (mandate_limits_of (Obj sample_claims)) ''max_per_txn'' PNone) = Inr x
     \<and> \<not> amount_threshold default_stepup_config c x"
  using gate_approved_below_thresholds [OF sample_gate_approved]
  by (auto simp: is_approved_def default_gate_def)

theorem decision_from_signals_gold_rule_witness:
  "is_rejected (decision_from_signals
     [\<lparr>rs_reason_code = VELOCITY_BURST, rs_diff = None, rs_verdictive = None\<rparr>,
      \<lparr>rs_reason_code = BUDGET_EXCEEDED, rs_diff = None, rs_verdictive = None\<rparr>])"
  using decision_from_signals_gold_rule [of
     "[\<lparr>rs_reason_code = VELOCITY_BURST, rs_diff = None, rs_verdictive = None\<rparr>,
       \<lparr>rs_reason_code = BUDGET_EXCEEDED, rs_diff = None, rs_verdictive = None\<rparr>]"]
  by (simp add: signal_verdictive_def is_verdictive_def VERDICTIVE_REASONS_def is_rejected_def)

theorem step_up_at_seventy_percent_witness:
  "\<exists>d. evaluate_step_up (PDec (cents_dec 7000)) (PDec (cents_dec 10000)) (PDec (cents_dec 0))
          (PDec (cents_dec 0)) PNone PNone default_stepup_config False False = Inr d
       \<and> su_required d \<and> su_level d = Some L3_PLUS"
  using step_up_at_seventy_percent [of 7000 10000 0 0] by auto

definition sample_escalation :: escalation where
  "sample_escalation = \<lparr>es_level = L3, es_created_at = 0, es_timeout_at = Some 120000000, es_diff = None\<rparr>"

theorem resolve_escalation_approved_witness:
  "resolve_escalation id sample_escalation (PTime (Aware 60000000)) (PStr ''approve'') None PNone None None
     = Inr approved \<and> approval_given (PStr ''approve'')"
proof -
  have given: "approval_given (PStr ''approve'')"
    by (simp add: approval_given_def) code_simp
  have "resolve_escalation id sample_escalation (PTime (Aware 60000000)) (PStr ''approve'') None PNone None None
     = Inr approved"
    by (simp add: resolve_escalation_def sample_escalation_def ensure_utc_def given)
  with resolve_escalation_approved [OF this] show ?thesis by (auto simp: is_approved_def)
qed

end
