(* ===== verification/Idempotency.thy ===== *)
theory Idempotency
  imports Policy_Gate
begin

text \<open>
  Replay protection: the pure helpers of \<^verbatim>\<open>src/src/api/domain/idempotency.py\<close>, the claim of
  \<^verbatim>\<open>src/src/api/decision/idempotency.py\<close> and the in-memory store of
  \<^verbatim>\<open>src/src/api/decision/repository_memory.py\<close>. The hash functions are parameters. A locale states
  what a client of the store relies on; the in-memory store interprets it.
\<close>

text \<open>SHA-256 of a text and HMAC-SHA-256 of a key and a text, as hexadecimal digests.\<close>

record crypto =
  sha256_hex :: "string \<Rightarrow> string"
  hmac_hex :: "string \<Rightarrow> string \<Rightarrow> string"

section \<open>Keys, fingerprints and records\<close>

definition secret_bytes :: "string \<Rightarrow> string res" where
  "secret_bytes secret = (if secret = [] then Inl ValueError else Inr secret)"

definition derive_idempotency_key :: "crypto \<Rightarrow> string \<Rightarrow> string \<Rightarrow> string res" where
  "derive_idempotency_key cr jti secret =
     (if jti = [] then Inl ValueError
      else bind_res (secret_bytes secret) (\<lambda>k. Inr (hmac_hex cr k jti)))"

definition request_fingerprint :: "crypto \<Rightarrow> pyval \<Rightarrow> string res" where
  "request_fingerprint cr v = bind_res (domain_canonical_json v) (\<lambda>t. Inr (sha256_hex cr t))"

record idempotency_record =
  ir_key :: string
  ir_scope :: string
  ir_derived_from :: string
  ir_request_fingerprint :: string
  ir_expires_at :: instant
  ir_response :: "pydict option"
  ir_created_at :: "instant option"
  ir_claim_token :: "string option"

text \<open>The checks of the constructor.\<close>

definition check_record :: "idempotency_record \<Rightarrow> idempotency_record res" where
  "check_record r =
     (if ir_key r = [] \<or> ir_scope r = [] \<or> ir_derived_from r = [] then Inl ValueError
      else if (case ir_created_at r of Some c \<Rightarrow> ir_expires_at r \<le> c | None \<Rightarrow> False) then Inl ValueError
      else Inr r)"

definition is_expired :: "idempotency_record \<Rightarrow> instant \<Rightarrow> bool" where
  "is_expired r now \<longleftrightarrow> ir_expires_at r \<le> now"

abbreviation IDEMPOTENCY_TTL :: micros where
  "IDEMPOTENCY_TTL \<equiv> 45 * us_per_day"

definition make_record ::
  "crypto \<Rightarrow> string \<Rightarrow> string \<Rightarrow> string \<Rightarrow> pyval \<Rightarrow> pyval \<Rightarrow> micros \<Rightarrow> pydict option \<Rightarrow> string option
   \<Rightarrow> idempotency_record res" where
  "make_record cr jti secret scope request created_at ttl response token =
     bind_res (ensure_utc created_at) (\<lambda>created.
     if ttl \<le> 0 then Inl ValueError
     else
       bind_res (derive_idempotency_key cr jti secret) (\<lambda>key.
       bind_res (request_fingerprint cr request) (\<lambda>fp.
       bind_res (dt_add created ttl) (\<lambda>expires.
       check_record \<lparr>ir_key = key, ir_scope = scope, ir_derived_from = jti,
                     ir_request_fingerprint = fp, ir_expires_at = expires, ir_response = response,
                     ir_created_at = Some created, ir_claim_token = token\<rparr>))))"

definition validate_reuse ::
  "crypto \<Rightarrow> idempotency_record \<Rightarrow> string \<Rightarrow> string \<Rightarrow> string \<Rightarrow> pyval \<Rightarrow> pyval \<Rightarrow> bool res" where
  "validate_reuse cr r jti secret scope request now =
     bind_res (ensure_utc now) (\<lambda>t.
     if is_expired r t then Inr False
     else
       bind_res (derive_idempotency_key cr jti secret) (\<lambda>key.
       bind_res (request_fingerprint cr request) (\<lambda>fp.
       if ir_key r \<noteq> key \<or> ir_derived_from r \<noteq> jti \<or> ir_scope r \<noteq> scope then Inl IdempotencyConflict
       else if ir_request_fingerprint r \<noteq> fp then Inl IdempotencyConflict
       else Inr True)))"

section \<open>The in-memory store\<close>

record idem_store =
  is_secret :: string
  is_records :: "(string, idempotency_record) dict"

text \<open>
  \<^verbatim>\<open>reserve\<close>, at the instant that the caller passes or, without one, at the wall clock.
\<close>

definition same_request :: "idempotency_record \<Rightarrow> idempotency_record \<Rightarrow> bool" where
  "same_request a b \<longleftrightarrow> ir_scope a = ir_scope b \<and> ir_derived_from a = ir_derived_from b
     \<and> ir_request_fingerprint a = ir_request_fingerprint b"

definition idem_reserve :: "crypto \<Rightarrow> instant \<Rightarrow> idempotency_record \<Rightarrow> (idem_store, idempotency_record) sres" where
  "idem_reserve cr current candidate s =
     (case derive_idempotency_key cr (ir_derived_from candidate) (is_secret s) of
        Inl e \<Rightarrow> (Inl e, s)
      | Inr expected \<Rightarrow>
          if ir_key candidate \<noteq> expected then (Inl IdempotencyConflict, s)
          else
            (let stored = (Inr candidate,
                           s\<lparr>is_records := dict_set (ir_key candidate) candidate (is_records s)\<rparr>)
             in case dict_get (is_records s) (ir_key candidate) of
                  None \<Rightarrow> stored
                | Some existing \<Rightarrow>
                    if is_expired existing current then stored
                    else if \<not> same_request existing candidate then (Inl IdempotencyConflict, s)
                    else (Inr existing, s)))"

definition reserve_for ::
  "crypto \<Rightarrow> string \<Rightarrow> string \<Rightarrow> string \<Rightarrow> pyval \<Rightarrow> pyval \<Rightarrow> micros \<Rightarrow> (idem_store, idempotency_record) sres" where
  "reserve_for cr uuid jti scope request created_at ttl s =
     (case make_record cr jti (is_secret s) scope request created_at ttl None (Some uuid) of
        Inl e \<Rightarrow> (Inl e, s)
      | Inr r \<Rightarrow>
          (case ensure_utc created_at of
             Inl e \<Rightarrow> (Inl e, s)
           | Inr t \<Rightarrow> idem_reserve cr t r s))"

definition idem_get :: "string \<Rightarrow> instant \<Rightarrow> (idem_store, idempotency_record option) sres" where
  "idem_get key current s =
     (case dict_get (is_records s) key of
        Some r \<Rightarrow>
          if is_expired r current
          then (Inr None, s\<lparr>is_records := dict_pop key (is_records s)\<rparr>)
          else (Inr (Some r), s)
      | None \<Rightarrow> (Inr None, s))"

definition idem_save_response :: "string \<Rightarrow> pydict \<Rightarrow> instant \<Rightarrow> (idem_store, idempotency_record) sres" where
  "idem_save_response key response current s =
     (case dict_get (is_records s) key of
        None \<Rightarrow> (Inl KeyError, s)
      | Some r \<Rightarrow>
          if is_expired r current
          then (Inl KeyError, s\<lparr>is_records := dict_pop key (is_records s)\<rparr>)
          else if ir_response r \<noteq> None then (Inr r, s)
          else (let updated = r\<lparr>ir_response := Some response\<rparr>
                in (Inr updated, s\<lparr>is_records := dict_set key updated (is_records s)\<rparr>)))"

definition purge_expired :: "instant \<Rightarrow> (idem_store, nat) sres" where
  "purge_expired current s =
     (let expired = map fst (filter (\<lambda>(k, r). is_expired r current) (is_records s))
      in (Inr (length expired), s\<lparr>is_records := fold dict_pop expired (is_records s)\<rparr>))"

section \<open>Claims\<close>

record idempotency_claim =
  ic_record :: idempotency_record
  ic_owns_claim :: bool

text \<open>
  \<^verbatim>\<open>claim_idempotency\<close>. The token is a fresh UUID, an argument here; the store is asked without an
  instant, so that its expiry check reads the wall clock.
\<close>

definition claim_idempotency ::
  "crypto \<Rightarrow> string \<Rightarrow> instant \<Rightarrow> string \<Rightarrow> string \<Rightarrow> string \<Rightarrow> pyval \<Rightarrow> pyval
   \<Rightarrow> (idem_store, idempotency_claim) sres" where
  "claim_idempotency cr uuid wall jti secret scope request now s =
     (case make_record cr jti secret scope request now IDEMPOTENCY_TTL None (Some uuid) of
        Inl e \<Rightarrow> (Inl e, s)
      | Inr candidate \<Rightarrow>
          (case idem_reserve cr wall candidate s of
             (Inl e, s') \<Rightarrow> (Inl e, s')
           | (Inr r, s') \<Rightarrow>
               (Inr \<lparr>ic_record = r, ic_owns_claim = (ir_claim_token r = ir_claim_token candidate)\<rparr>, s')))"

section \<open>The contract of an idempotency store\<close>

text \<open>
  \<open>live s k t\<close> is the record under key \<open>k\<close> that has not expired at \<open>t\<close>; \<open>admissible s r\<close> says
  that the store accepts \<open>r\<close>, \<open>stored t r\<close> is what it keeps of it, and \<open>storable\<close> holds of the
  responses it can keep.
\<close>

locale idempotency_store =
  fixes reserve :: "instant \<Rightarrow> idempotency_record \<Rightarrow> ('s, idempotency_record) sres"
    and save_response :: "string \<Rightarrow> pydict \<Rightarrow> instant \<Rightarrow> ('s, idempotency_record) sres"
    and live :: "'s \<Rightarrow> string \<Rightarrow> instant \<Rightarrow> idempotency_record option"
    and admissible :: "'s \<Rightarrow> idempotency_record \<Rightarrow> bool"
    and stored :: "instant \<Rightarrow> idempotency_record \<Rightarrow> idempotency_record"
    and storable :: "pydict \<Rightarrow> bool"
  assumes stored_same: "ir_key (stored t r) = ir_key r" "same_request (stored t r) r"
      "ir_response (stored t r) = ir_response r" "is_expired (stored t r) u = is_expired r u"
    and reserve_new:
      "admissible s r \<Longrightarrow> live s (ir_key r) t = None \<Longrightarrow>
       \<exists>s'. reserve t r s = (Inr (stored t r), s')
          \<and> (\<forall>k u. live s' k u =
                (if k = ir_key r then (if is_expired r u then None else Some (stored t r)) else live s k u))
          \<and> (\<forall>q. admissible s' q = admissible s q)"
    and reserve_same:
      "admissible s r \<Longrightarrow> live s (ir_key r) t = Some e \<Longrightarrow> same_request e r \<Longrightarrow>
       reserve t r s = (Inr e, s)"
    and reserve_conflict:
      "live s (ir_key r) t = Some e \<Longrightarrow> \<not> same_request e r \<Longrightarrow>
       \<exists>x. reserve t r s = (Inl x, s) \<and> (admissible s r \<longrightarrow> x = IdempotencyConflict)"
    and save_first:
      "storable resp \<Longrightarrow> live s k t = Some r \<Longrightarrow> ir_response r = None \<Longrightarrow>
       \<exists>s'. save_response k resp t s = (Inr (r\<lparr>ir_response := Some resp\<rparr>), s')
          \<and> (\<forall>k' u. live s' k' u =
                (if k' = k then (if is_expired r u then None else Some (r\<lparr>ir_response := Some resp\<rparr>))
                 else live s k' u))
          \<and> (\<forall>q. admissible s' q = admissible s q)"
    and save_again:
      "live s k t = Some r \<Longrightarrow> ir_response r \<noteq> None \<Longrightarrow> save_response k resp t s = (Inr r, s)"
begin

text \<open>A new request whose response is saved is answered with that response from then on.\<close>

lemma replay:
  assumes "admissible s r" "live s (ir_key r) t = None" "ir_response r = None" "storable resp"
    and run: "reserve t r s = (Inr r1, s1)" "save_response (ir_key r1) resp t1 s1 = (Inr r2, s2)"
    and retry: "ir_key r' = ir_key r" "same_request r r'" "admissible s r'"
    and time: "\<not> is_expired r t1" "\<not> is_expired r t2"
  shows "reserve t2 r' s2 = (Inr ((stored t r)\<lparr>ir_response := Some resp\<rparr>), s2)"
proof -
  note same = stored_same [of t r]
  from reserve_new [OF assms(1,2)] run(1) have r1: "r1 = stored t r"
    and l1: "live s1 (ir_key r) u = (if is_expired r u then None else Some (stored t r))"
    and a1: "admissible s1 q = admissible s q" for u q by auto
  have "live s1 (ir_key r) t1 = Some (stored t r)" using l1 time by simp
  from save_first [OF assms(4) this] assms(3) run(2) r1 same have
    l2: "live s2 (ir_key r) u = (if is_expired r u then None else Some ((stored t r)\<lparr>ir_response := Some resp\<rparr>))"
    and a2: "admissible s2 q = admissible s1 q" for u q by auto
  show ?thesis
    using l2 [of t2] a1 a2 retry time same(2)
    by (intro reserve_same) (auto simp: same_request_def)
qed

text \<open>The first response that is saved is the one that stays.\<close>

lemma first_response_wins:
  assumes "storable resp" "live s k t = Some r" "ir_response r = None" "\<not> is_expired r t'"
    and "save_response k resp t s = (x, s1)"
  shows "save_response k resp' t' s1 = (Inr (r\<lparr>ir_response := Some resp\<rparr>), s1)"
proof -
  from save_first [OF assms(1-3)] assms(5) have
    "live s1 k t' = Some (r\<lparr>ir_response := Some resp\<rparr>)" using assms(4) by auto
  from save_again [OF this] show ?thesis by simp
qed

text \<open>Another request under a key that is in use is refused and changes nothing.\<close>

lemma conflict_changes_nothing:
  assumes "live s (ir_key r) t = Some e" "\<not> same_request e r"
  shows "\<exists>x. reserve t r s = (Inl x, s)"
  using reserve_conflict [OF assms] by blast

end

section \<open>The in-memory store meets the contract\<close>

definition idem_live :: "idem_store \<Rightarrow> string \<Rightarrow> instant \<Rightarrow> idempotency_record option" where
  "idem_live s k t =
     (case dict_get (is_records s) k of
        None \<Rightarrow> None | Some r \<Rightarrow> if is_expired r t then None else Some r)"

definition idem_admissible :: "crypto \<Rightarrow> idem_store \<Rightarrow> idempotency_record \<Rightarrow> bool" where
  "idem_admissible cr s r \<longleftrightarrow>
     derive_idempotency_key cr (ir_derived_from r) (is_secret s) = Inr (ir_key r)"

lemma is_expired_response [simp]: "is_expired (r\<lparr>ir_response := x\<rparr>) t = is_expired r t"
  by (simp add: is_expired_def)

interpretation mem_idem: idempotency_store
  "idem_reserve cr" idem_save_response idem_live "idem_admissible cr" "\<lambda>_ r. r" "\<lambda>_. True" for cr
  by unfold_locales
     (auto simp: idem_admissible_def idem_reserve_def idem_live_def idem_save_response_def Let_def same_request_def
      split: option.splits if_splits sum.splits)

text \<open>
  A request that was claimed and answered is answered with the stored response for as long as
  the record is retained: every later claim of the same operation with the same body, whatever its
  token, returns the record with that response and leaves the store as it is.
\<close>

theorem idempotent_replay:
  assumes "idem_admissible cr s r" "idem_live s (ir_key r) t = None" "ir_response r = None"
    and "idem_reserve cr t r s = (Inr r1, s1)" "idem_save_response (ir_key r1) resp t1 s1 = (Inr r2, s2)"
    and "ir_key r' = ir_key r" "same_request r r'" "idem_admissible cr s r'"
    and "\<not> is_expired r t1" "\<not> is_expired r t2"
  shows "idem_reserve cr t2 r' s2 = (Inr (r\<lparr>ir_response := Some resp\<rparr>), s2)"
  using mem_idem.replay [OF assms(1-3) TrueI assms(4-)] .

lemma make_record_fields:
  assumes "make_record cr jti secret scope request now ttl resp tok = Inr r"
  shows "derive_idempotency_key cr jti secret = Inr (ir_key r)" "ir_scope r = scope"
    "ir_derived_from r = jti" "request_fingerprint cr request = Inr (ir_request_fingerprint r)"
    "ir_claim_token r = tok" "ir_response r = resp" "jti \<noteq> []"
proof -
  from assms obtain key fp e c where
    "derive_idempotency_key cr jti secret = Inr key" "request_fingerprint cr request = Inr fp"
    "r = \<lparr>ir_key = key, ir_scope = scope, ir_derived_from = jti, ir_request_fingerprint = fp,
          ir_expires_at = e, ir_response = resp, ir_created_at = Some c, ir_claim_token = tok\<rparr>"
    by (auto simp: make_record_def check_record_def bind_res_Inr_iff split: if_splits)
  then show "derive_idempotency_key cr jti secret = Inr (ir_key r)" "ir_scope r = scope"
    "ir_derived_from r = jti" "request_fingerprint cr request = Inr (ir_request_fingerprint r)"
    "ir_claim_token r = tok" "ir_response r = resp" "jti \<noteq> []"
    by (auto simp: derive_idempotency_key_def)
qed

text \<open>
  At most one caller owns a pending operation. After one claim of a key succeeded, a claim of
  the same key by another token, while the record is retained, does not own it and changes
  nothing; it raises a conflict exactly when its scope or its body differ.
\<close>

theorem claim_single_owner:
  assumes first: "claim_idempotency cr uuid wall jti secret scope request now s = (Inr c, s1)"
    and second: "claim_idempotency cr uuid' wall' jti secret scope' request' now' s1 = (res, s2)"
    and parses: "make_record cr jti secret scope' request' now' IDEMPOTENCY_TTL None (Some uuid') = Inr r'"
    and fresh: "ir_claim_token (ic_record c) \<noteq> Some uuid'"
    and live: "\<not> is_expired (ic_record c) wall" "\<not> is_expired (ic_record c) wall'"
  shows "s2 = s1
    \<and> (res = Inl IdempotencyConflict \<longleftrightarrow>
        scope' \<noteq> scope \<or> request_fingerprint cr request' \<noteq> request_fingerprint cr request)
    \<and> (\<forall>c'. res = Inr c' \<longrightarrow> ic_record c' = ic_record c \<and> \<not> ic_owns_claim c')"
proof -
  from first obtain r where r: "make_record cr jti secret scope request now IDEMPOTENCY_TTL None (Some uuid) = Inr r"
    and rsv: "idem_reserve cr wall r s = (Inr (ic_record c), s1)"
    by (auto simp: claim_idempotency_def split: sum.splits prod.splits)
  note f = make_record_fields [OF r] and f' = make_record_fields [OF parses]
  have key: "ir_key r' = ir_key r" using f(1) f'(1) by simp
  from rsv f have stored: "dict_get (is_records s1) (ir_key r) = Some (ic_record c)"
    and adm: "derive_idempotency_key cr jti (is_secret s1) = Inr (ir_key r)"
    and same: "same_request (ic_record c) r"
    by (auto simp: idem_reserve_def same_request_def Let_def split: sum.splits option.splits if_splits)
  have rsv': "idem_reserve cr wall' r' s1 =
      (if same_request (ic_record c) r' then (Inr (ic_record c), s1) else (Inl IdempotencyConflict, s1))"
    using stored adm live key f' by (simp add: idem_reserve_def Let_def)
  have iff: "same_request (ic_record c) r' \<longleftrightarrow>
      scope' = scope \<and> request_fingerprint cr request' = request_fingerprint cr request"
    using same f f' by (auto simp: same_request_def)
  from second parses rsv' fresh f' iff show ?thesis
    by (auto simp: claim_idempotency_def split: if_splits)
qed

text \<open>
  the fingerprint of a request does not depend on the order of the keys of its body, so that a
  retry that serializes its fields in another order is the same request.
\<close>

theorem fingerprint_key_order:
  assumes "mset n = mset m" "distinct (map fst m)" "request_fingerprint cr (PDict m) = Inr fp"
  shows "request_fingerprint cr (PDict n) = Inr fp"
  using assms json_dumps_key_order [of domain_default m _ n]
  by (auto simp: request_fingerprint_def domain_canonical_json_def bind_res_Inr_iff simp del: json_dumps.simps)

section \<open>Concrete runs\<close>

text \<open>Hash functions with readable digests, and an operation under them.\<close>

definition sample_crypto :: crypto where
  "sample_crypto = \<lparr>sha256_hex = (\<lambda>t. ''sha:'' @ t), hmac_hex = (\<lambda>k t. k @ '':'' @ t)\<rparr>"

definition sample_record :: "string \<Rightarrow> idempotency_record" where
  "sample_record token =
     \<lparr>ir_key = ''key:i1'', ir_scope = ''verify'', ir_derived_from = ''i1'',
      ir_request_fingerprint = ''sha:null'', ir_expires_at = 3888000000000, ir_response = None,
      ir_created_at = Some 0, ir_claim_token = Some token\<rparr>"

definition sample_idem_store :: "idempotency_record list \<Rightarrow> idem_store" where
  "sample_idem_store rs = \<lparr>is_secret = ''key'', is_records = map (\<lambda>r. (ir_key r, r)) rs\<rparr>"

lemma sample_make_record:
  "make_record sample_crypto ''i1'' ''key'' ''verify'' PNone (PTime (Aware 0)) IDEMPOTENCY_TTL None (Some u)
   = Inr (sample_record u)"
  by (simp add: make_record_def ensure_utc_def derive_idempotency_key_def secret_bytes_def
      request_fingerprint_def domain_canonical_json_def sample_crypto_def dt_add_def in_range_def
      check_record_def sample_record_def)

lemmas sample_idem_defs = sample_crypto_def sample_record_def sample_idem_store_def idem_reserve_def
  idem_save_response_def derive_idempotency_key_def secret_bytes_def is_expired_def same_request_def
  idem_live_def idem_admissible_def Let_def

theorem idempotent_replay_witness:
  "idem_reserve sample_crypto 20 (sample_record ''u2'')
     (sample_idem_store [(sample_record ''u1'')\<lparr>ir_response := Some [(''status'', PStr ''ok'')]\<rparr>])
   = (Inr ((sample_record ''u1'')\<lparr>ir_response := Some [(''status'', PStr ''ok'')]\<rparr>),
      sample_idem_store [(sample_record ''u1'')\<lparr>ir_response := Some [(''status'', PStr ''ok'')]\<rparr>])"
  by (rule idempotent_replay [where s = "sample_idem_store []" and t = 0 and ?t1.0 = 10 and ?r1.0 = "sample_record ''u1''"
        and ?s1.0 = "sample_idem_store [sample_record ''u1'']"
        and ?r2.0 = "(sample_record ''u1'')\<lparr>ir_response := Some [(''status'', PStr ''ok'')]\<rparr>"])
     (simp_all add: sample_idem_defs)

theorem claim_single_owner_witness:
  "claim_idempotency sample_crypto ''u2'' 10 ''i1'' ''key'' ''verify'' PNone (PTime (Aware 0))
     (sample_idem_store [sample_record ''u1''])
   = (Inr \<lparr>ic_record = sample_record ''u1'', ic_owns_claim = False\<rparr>, sample_idem_store [sample_record ''u1''])
   \<and> \<not> ic_owns_claim \<lparr>ic_record = sample_record ''u1'', ic_owns_claim = False\<rparr>"
proof -
  have first: "claim_idempotency sample_crypto ''u1'' 0 ''i1'' ''key'' ''verify'' PNone (PTime (Aware 0))
      (sample_idem_store [])
    = (Inr \<lparr>ic_record = sample_record ''u1'', ic_owns_claim = True\<rparr>, sample_idem_store [sample_record ''u1''])"
    unfolding claim_idempotency_def sample_make_record by (simp add: sample_idem_defs)
  have second: "claim_idempotency sample_crypto ''u2'' 10 ''i1'' ''key'' ''verify'' PNone (PTime (Aware 0))
      (sample_idem_store [sample_record ''u1''])
    = (Inr \<lparr>ic_record = sample_record ''u1'', ic_owns_claim = False\<rparr>, sample_idem_store [sample_record ''u1''])"
    unfolding claim_idempotency_def sample_make_record by (simp add: sample_idem_defs)
  from claim_single_owner [OF first second sample_make_record] second show ?thesis
    by (simp add: sample_record_def is_expired_def)
qed

theorem fingerprint_key_order_witness:
  "request_fingerprint sample_crypto (PDict [(''b'', PNone), (''a'', PBool True)]) =
   request_fingerprint sample_crypto (PDict [(''a'', PBool True), (''b'', PNone)])"
proof -
  obtain fp where "request_fingerprint sample_crypto (PDict [(''a'', PBool True), (''b'', PNone)]) = Inr fp"
    by (simp add: request_fingerprint_def domain_canonical_json_def)
  with fingerprint_key_order [OF _ _ this, of "[(''b'', PNone), (''a'', PBool True)]"] show ?thesis
    by simp
qed

end
