(* ===== verification/Reservation_Store.thy ===== *)
theory Reservation_Store
  imports Policy_Gate
begin

text \<open>
  The conditional reservation of budget: \<^verbatim>\<open>InMemoryReservationStore\<close> of
  \<^verbatim>\<open>src/src/api/decision/repository_memory.py\<close>, and the coordinator of
  \<^verbatim>\<open>src/src/api/decision/reservation.py\<close>. A locale states the contract of a ledger that never
  commits more than its budget; the store interprets it.
\<close>

section \<open>The store\<close>

record mandate_row =
  mr_total_budget :: cents
  mr_spent_total :: cents
  mr_reserved_total :: cents
  mr_txn_count_period :: int
  mr_status :: string

record reservation_store =
  rv_mandates :: "(string, mandate_row) dict"
  rv_reservations :: "(string, string \<times> cents) dict"
  rv_reservation_keys :: "(string, string) dict"

definition empty_reservations :: reservation_store where
  "empty_reservations = \<lparr>rv_mandates = [], rv_reservations = [], rv_reservation_keys = []\<rparr>"

definition register_mandate ::
  "string \<Rightarrow> pyval \<Rightarrow> pyval \<Rightarrow> pyval \<Rightarrow> int \<Rightarrow> string \<Rightarrow> (reservation_store, unit) sres" where
  "register_mandate mid budget spent reserved txn status s =
     (case bind_res (amount_decimal budget) (\<lambda>b.
           bind_res (amount_decimal spent) (\<lambda>sp.
           bind_res (amount_decimal reserved) (\<lambda>r.
           Inr \<lparr>mr_total_budget = b, mr_spent_total = sp, mr_reserved_total = r,
                mr_txn_count_period = txn, mr_status = status\<rparr>))) of
        Inl e \<Rightarrow> (Inl e, s)
      | Inr row \<Rightarrow> (Inr (), s\<lparr>rv_mandates := dict_set mid row (rv_mandates s)\<rparr>))"

text \<open>\<^verbatim>\<open>spent + reserved + candidate > total_budget\<close> in decimal arithmetic.\<close>

definition over_budget :: "mandate_row \<Rightarrow> cents \<Rightarrow> bool" where
  "over_budget row a \<longleftrightarrow>
     dec_less (cents_dec (mr_total_budget row))
       (dec_add (dec_add (cents_dec (mr_spent_total row)) (cents_dec (mr_reserved_total row))) (cents_dec a))"

text \<open>
  \<^verbatim>\<open>reserve\<close> after the amounts are read. The row of an unknown mandate is created before the
  conditions are tested, and stays. A successful reservation adds amounts whose sum is within the
  budget, so that the decimal sum is exact.
\<close>

definition default_row :: "cents \<Rightarrow> mandate_row" where
  "default_row budget =
     \<lparr>mr_total_budget = budget, mr_spent_total = 0, mr_reserved_total = 0, mr_txn_count_period = 0,
      mr_status = ''active''\<rparr>"

definition add_reservation ::
  "string \<Rightarrow> mandate_row \<Rightarrow> cents \<Rightarrow> string \<Rightarrow> string option \<Rightarrow> reservation_store \<Rightarrow> reservation_store" where
  "add_reservation mid row a rid rkey s =
     s\<lparr>rv_mandates := dict_set mid (row\<lparr>mr_reserved_total := mr_reserved_total row + a,
                                       mr_txn_count_period := mr_txn_count_period row + 1\<rparr>) (rv_mandates s),
       rv_reservations := dict_set rid (mid, a) (rv_reservations s),
       rv_reservation_keys := (case rkey of None \<Rightarrow> rv_reservation_keys s
                               | Some k \<Rightarrow> dict_set k rid (rv_reservation_keys s))\<rparr>"

definition reserve_row ::
  "string \<Rightarrow> string \<Rightarrow> cents \<Rightarrow> cents \<Rightarrow> pyval \<Rightarrow> string option \<Rightarrow> string option
   \<Rightarrow> (reservation_store, string option) sres" where
  "reserve_row uuid mid a budget max_txn rid rkey s =
     (let s1 = (case dict_get (rv_mandates s) mid of
                  None \<Rightarrow> s\<lparr>rv_mandates := dict_set mid (default_row budget) (rv_mandates s)\<rparr>
                | Some _ \<Rightarrow> s);
          row = (case dict_get (rv_mandates s) mid of None \<Rightarrow> default_row budget | Some r \<Rightarrow> r);
          ident = (case rid of Some i \<Rightarrow> if i = [] then uuid else i | None \<Rightarrow> uuid)
      in if mr_status row \<noteq> ''active'' then (Inr None, s1)
         else if over_budget row a then (Inr None, s1)
         else
           (case (if max_txn = PNone then Inr OEqual else py_cmp (PInt (mr_txn_count_period row + 1)) max_txn) of
              Inl e \<Rightarrow> (Inl e, s1)
            | Inr OGreater \<Rightarrow> (Inr None, s1)
            | Inr _ \<Rightarrow>
                (case dict_get (rv_reservations s) ident of
                   Some existing \<Rightarrow> (Inr (if existing = (mid, a) then Some ident else None), s1)
                 | None \<Rightarrow> (Inr (Some ident), add_reservation mid row a ident rkey s1))))"

definition reserve ::
  "string \<Rightarrow> string \<Rightarrow> pyval \<Rightarrow> pyval \<Rightarrow> pyval \<Rightarrow> string option \<Rightarrow> string option
   \<Rightarrow> (reservation_store, string option) sres" where
  "reserve uuid mid amount total_budget max_txn rid rkey s =
     (case bind_res (amount_decimal amount) (\<lambda>a. bind_res (amount_decimal total_budget) (\<lambda>b. Inr (a, b))) of
        Inl e \<Rightarrow> (Inl e, s)
      | Inr (a, b) \<Rightarrow>
          (case (case rkey of None \<Rightarrow> None | Some k \<Rightarrow> dict_get (rv_reservation_keys s) k) of
             Some existing_id \<Rightarrow>
               (Inr (if dict_get (rv_reservations s) existing_id = Some (mid, a)
                     then Some existing_id else None), s)
           | None \<Rightarrow> reserve_row uuid mid a b max_txn rid rkey s))"

text \<open>\<^verbatim>\<open>release\<close>: the reservation is removed before its mandate is compared.\<close>

definition release_row :: "string \<Rightarrow> cents \<Rightarrow> (reservation_store, bool) sres" where
  "release_row mid a s =
     (case dict_get (rv_mandates s) mid of
        None \<Rightarrow> (Inr False, s)
      | Some row \<Rightarrow>
          if mr_reserved_total row < a then (Inr False, s)
          else (Inr True,
                s\<lparr>rv_mandates := dict_set mid
                    (row\<lparr>mr_reserved_total := mr_reserved_total row - a,
                         mr_txn_count_period := max 0 (mr_txn_count_period row - 1)\<rparr>) (rv_mandates s)\<rparr>))"

definition release :: "string \<Rightarrow> pyval \<Rightarrow> string option \<Rightarrow> (reservation_store, bool) sres" where
  "release mid amount rid s =
     (case amount_decimal amount of
        Inl e \<Rightarrow> (Inl e, s)
      | Inr candidate \<Rightarrow>
          (case rid of
             None \<Rightarrow> release_row mid candidate s
           | Some r \<Rightarrow>
               (let s1 = s\<lparr>rv_reservations := dict_pop r (rv_reservations s)\<rparr>
                in case dict_get (rv_reservations s) r of
                     None \<Rightarrow> (Inr False, s1)
                   | Some (owner, a) \<Rightarrow>
                       if owner \<noteq> mid then (Inr False, s1)
                       else release_row mid a
                              (s1\<lparr>rv_reservation_keys := filter (\<lambda>(k, i). i \<noteq> r) (rv_reservation_keys s)\<rparr>))))"

section \<open>The coordinator\<close>

record reservation_result =
  rr_reservation_id :: string
  rr_mandate_id :: string
  rr_amount :: decimal_literal

text \<open>\<^verbatim>\<open>Decimal(str(amount))\<close>\<close>

definition reserve_atomically ::
  "string \<Rightarrow> string \<Rightarrow> pyval \<Rightarrow> pyval \<Rightarrow> pyval \<Rightarrow> string option \<Rightarrow> (reservation_store, reservation_result) sres" where
  "reserve_atomically uuid mid amount total_budget max_txn rid s =
     (case reserve uuid mid amount total_budget max_txn rid None s of
        (Inl e, s') \<Rightarrow> (Inl e, s')
      | (Inr result, s') \<Rightarrow>
          (case result of
             Some i \<Rightarrow>
               if i = [] then (Inl ReservationRejected, s')
               else (case parse_decimal (py_str amount) of
                       Inl e \<Rightarrow> (Inl e, s')
                     | Inr d \<Rightarrow> (Inr \<lparr>rr_reservation_id = i, rr_mandate_id = mid, rr_amount = d\<rparr>, s'))
           | None \<Rightarrow> (Inl ReservationRejected, s')))"

section \<open>Invariants\<close>

definition row_ok :: "mandate_row \<Rightarrow> bool" where
  "row_ok row \<longleftrightarrow> valid_cents (mr_total_budget row) \<and> valid_cents (mr_spent_total row)
     \<and> valid_cents (mr_reserved_total row)
     \<and> mr_spent_total row + mr_reserved_total row \<le> mr_total_budget row"

definition rows_ok :: "reservation_store \<Rightarrow> bool" where
  "rows_ok s \<longleftrightarrow> (\<forall>mid row. dict_get (rv_mandates s) mid = Some row \<longrightarrow> row_ok row)
     \<and> (\<forall>rid mid a. dict_get (rv_reservations s) rid = Some (mid, a) \<longrightarrow> valid_cents a)"

text \<open>What the reservations of a mandate add up to.\<close>

definition held :: "reservation_store \<Rightarrow> string \<Rightarrow> int" where
  "held s mid = dict_sum (\<lambda>(owner, a). if owner = mid then a else 0) (rv_reservations s)"

definition accounted :: "reservation_store \<Rightarrow> bool" where
  "accounted s \<longleftrightarrow> distinct (map fst (rv_reservations s))
     \<and> (\<forall>rid mid a. dict_get (rv_reservations s) rid = Some (mid, a) \<longrightarrow> dict_get (rv_mandates s) mid \<noteq> None)
     \<and> (\<forall>mid. held s mid = (case dict_get (rv_mandates s) mid of None \<Rightarrow> 0 | Some row \<Rightarrow> mr_reserved_total row))"

lemma over_budget_iff:
  "row_ok row \<Longrightarrow> valid_cents a \<Longrightarrow>
   over_budget row a \<longleftrightarrow> mr_total_budget row < mr_spent_total row + mr_reserved_total row + a"
  by (simp add: over_budget_def row_ok_def dec_sum3_exceeds_iff)

lemma default_row_ok: "valid_cents b \<Longrightarrow> row_ok (default_row b)"
  by (simp add: row_ok_def default_row_def valid_cents_def)

lemma reserved_row_ok:
  "row_ok row \<Longrightarrow> valid_cents a \<Longrightarrow> \<not> over_budget row a \<Longrightarrow>
   row_ok (row\<lparr>mr_reserved_total := mr_reserved_total row + a, mr_txn_count_period := n\<rparr>)"
  by (auto simp: over_budget_iff) (auto simp: row_ok_def valid_cents_def)

lemma reserve_row_rows_ok:
  assumes "rows_ok s" "valid_cents a" "valid_cents b"
  shows "rows_ok (snd (reserve_row uuid mid a b mt rid rk s))"
proof -
  define row where "row = (case dict_get (rv_mandates s) mid of None \<Rightarrow> default_row b | Some r \<Rightarrow> r)"
  define s1 where "s1 = (case dict_get (rv_mandates s) mid of
      None \<Rightarrow> s\<lparr>rv_mandates := dict_set mid (default_row b) (rv_mandates s)\<rparr> | Some _ \<Rightarrow> s)"
  have row: "row_ok row"
    using assms by (auto simp: row_def rows_ok_def default_row_ok split: option.splits)
  have s1: "rows_ok s1"
    using assms by (auto simp: s1_def rows_ok_def default_row_ok split: option.splits)
  have "rows_ok (add_reservation mid row a i rk s1)" if "\<not> over_budget row a" for i
    using s1 reserved_row_ok [OF row assms(2) that] assms(2)
    by (auto simp: rows_ok_def add_reservation_def)
  with s1 show ?thesis
    by (auto simp: reserve_row_def Let_def simp flip: row_def s1_def split: sum.splits ordering.splits option.splits)
qed

lemma reserve_rows_ok: "keeps rows_ok (reserve uuid mid amount tb mt rid rk)"
proof (rule keepsI)
  fix s
  assume "rows_ok s"
  then show "rows_ok (snd (reserve uuid mid amount tb mt rid rk s))"
    using reserve_row_rows_ok amount_decimal_valid
    by (auto simp: reserve_def bind_res_def split: sum.splits option.splits)
qed

lemma release_row_rows_ok:
  assumes "rows_ok s" "0 \<le> a"
  shows "rows_ok (snd (release_row mid a s))"
proof -
  have "row_ok (row\<lparr>mr_reserved_total := mr_reserved_total row - a, mr_txn_count_period := n\<rparr>)"
    if "row_ok row" "\<not> mr_reserved_total row < a" for row n
    using that assms(2) by (auto simp: row_ok_def valid_cents_def)
  with assms(1) show ?thesis by (auto simp: release_row_def rows_ok_def split: option.splits)
qed

lemma release_rows_ok: "keeps rows_ok (release mid amount rid)"
proof (rule keepsI)
  fix s
  assume s: "rows_ok s"
  let ?pop = "\<lambda>r. s\<lparr>rv_reservations := dict_pop r (rv_reservations s)\<rparr>"
  have pop: "rows_ok (?pop r)" for r using s by (auto simp: rows_ok_def)
  then have "rows_ok ((?pop r)\<lparr>rv_reservation_keys := ks\<rparr>)" for r ks by (simp add: rows_ok_def)
  moreover have "0 \<le> a" if "dict_get (rv_reservations s) r = Some (m, a)" for r m a
    using s that by (auto simp: rows_ok_def valid_cents_def)
  moreover have "0 \<le> c" if "amount_decimal amount = Inr c" for c
    using amount_decimal_valid [OF that] by (simp add: valid_cents_def)
  ultimately show "rows_ok (snd (release mid amount rid s))"
    using s pop release_row_rows_ok
    by (auto simp: release_def Let_def split: sum.splits option.splits)
qed

lemma held_add:
  assumes "distinct (map fst (rv_reservations s))" "dict_get (rv_reservations s) i = None"
  shows "held (add_reservation mid row a i rk s) m = held s m + (if m = mid then a else 0)"
  using dict_sum_set [OF assms(1), of "\<lambda>(owner, a). if owner = m then a else 0" i "(mid, a)"] assms(2)
  by (simp add: held_def add_reservation_def)

lemma reserve_row_accounted:
  assumes "accounted s"
  shows "accounted (snd (reserve_row uuid mid a b mt rid rk s))"
proof -
  define row where "row = (case dict_get (rv_mandates s) mid of None \<Rightarrow> default_row b | Some r \<Rightarrow> r)"
  define s1 where "s1 = (case dict_get (rv_mandates s) mid of
      None \<Rightarrow> s\<lparr>rv_mandates := dict_set mid (default_row b) (rv_mandates s)\<rparr> | Some _ \<Rightarrow> s)"
  have res: "rv_reservations s1 = rv_reservations s" by (simp add: s1_def split: option.splits)
  have s1: "accounted s1"
    using assms by (auto simp: s1_def accounted_def held_def default_row_def split: option.splits if_splits)
  have row: "dict_get (rv_mandates s1) mid = Some row"
    by (auto simp: s1_def row_def split: option.splits)
  have "accounted (add_reservation mid row a i rk s1)" if "dict_get (rv_reservations s) i = None" for i
  proof -
    have d: "distinct (map fst (rv_reservations s1))" using s1 by (simp add: accounted_def)
    have "held (add_reservation mid row a i rk s1) m = held s1 m + (if m = mid then a else 0)" for m
      by (rule held_add [OF d]) (simp add: res that)
    with s1 row d show ?thesis
      by (auto simp: accounted_def add_reservation_def distinct_update split: option.splits)
  qed
  with s1 show ?thesis
    by (auto simp: reserve_row_def Let_def simp flip: row_def s1_def split: sum.splits ordering.splits option.splits)
qed

lemma reserve_accounted: "keeps accounted (reserve uuid mid amount tb mt rid rk)"
  using reserve_row_accounted
  by (intro keepsI) (auto simp: reserve_def split: sum.splits option.splits)

text \<open>Releasing a reservation under its own mandate keeps the books; nothing is lost.\<close>

lemma release_accounted:
  assumes acc: "accounted s" and ok: "rows_ok s" and r: "dict_get (rv_reservations s) r = Some (mid, a)"
    and amt: "amount_decimal amount = Inr c"
  shows "\<exists>s' row. release mid amount (Some r) s = (Inr True, s') \<and> accounted s'
     \<and> dict_get (rv_mandates s) mid = Some row
     \<and> dict_get (rv_mandates s') mid =
         Some (row\<lparr>mr_reserved_total := mr_reserved_total row - a,
                  mr_txn_count_period := max 0 (mr_txn_count_period row - 1)\<rparr>)
     \<and> dict_get (rv_reservations s') r = None"
proof -
  let ?f = "\<lambda>m (owner, a). if owner = m then a else (0::int)"
  have d: "distinct (map fst (rv_reservations s))" using acc by (simp add: accounted_def)
  have pop: "dict_sum (?f m) (dict_pop r (rv_reservations s)) = held s m - (if m = mid then a else 0)" for m
    using dict_sum_pop [OF d, of "?f m" r] r by (simp add: held_def)
  have "0 \<le> dict_sum (?f mid) (dict_pop r (rv_reservations s))"
    using d ok by (intro dict_sum_nonneg) (auto simp: distinct_delete rows_ok_def valid_cents_def split: if_splits)
  with pop [of mid] have "a \<le> held s mid" by simp
  moreover obtain row where row: "dict_get (rv_mandates s) mid = Some row"
    using acc r by (fastforce simp: accounted_def)
  moreover from this have "held s mid = mr_reserved_total row" using acc by (simp add: accounted_def)
  ultimately have le: "\<not> mr_reserved_total row < a" by simp
  define row' where "row' = row\<lparr>mr_reserved_total := mr_reserved_total row - a,
      mr_txn_count_period := max 0 (mr_txn_count_period row - 1)\<rparr>"
  define s' where "s' = s\<lparr>rv_reservations := dict_pop r (rv_reservations s),
      rv_reservation_keys := filter (\<lambda>(k, i). i \<noteq> r) (rv_reservation_keys s),
      rv_mandates := dict_set mid row' (rv_mandates s)\<rparr>"
  have "release mid amount (Some r) s = (Inr True, s')"
    using r amt row le by (simp add: release_def release_row_def Let_def s'_def row'_def)
  moreover have "accounted s'"
    using acc pop row
    by (auto simp: accounted_def s'_def row'_def held_def distinct_delete split: if_splits)
  ultimately show ?thesis
    using row by (intro exI [of _ s'] exI [of _ row]) (simp add: s'_def row'_def)
qed

section \<open>The contract of a budget ledger\<close>

text \<open>
  A ledger commits amounts against the budgets of the accounts it knows. An invariant keeps every
  commitment within its budget, and no operation changes the budget of a known account; then no run
  of operations commits more than the budget that an account started with.
\<close>

locale budget_ledger =
  fixes ledger_ok :: "'s \<Rightarrow> bool"
    and known :: "'s \<Rightarrow> 'm \<Rightarrow> bool"
    and committed :: "'s \<Rightarrow> 'm \<Rightarrow> int"
    and budget :: "'s \<Rightarrow> 'm \<Rightarrow> int"
    and step :: "'s \<Rightarrow> 's \<Rightarrow> bool"
  assumes ok_within: "ledger_ok s \<Longrightarrow> known s m \<Longrightarrow> committed s m \<le> budget s m"
    and step_ok: "ledger_ok s \<Longrightarrow> step s s' \<Longrightarrow> ledger_ok s'"
    and step_known: "ledger_ok s \<Longrightarrow> step s s' \<Longrightarrow> known s m \<Longrightarrow> known s' m \<and> budget s' m = budget s m"
begin

lemma run_within_budget:
  assumes "step\<^sup>*\<^sup>* s s'" "ledger_ok s" "known s m"
  shows "ledger_ok s' \<and> known s' m \<and> budget s' m = budget s m \<and> committed s' m \<le> budget s m"
  using assms
proof (induction rule: rtranclp_induct)
  case base
  then show ?case by (simp add: ok_within)
next
  case (step y z)
  then have y: "ledger_ok y" "known y m" "budget y m = budget s m" by auto
  have "ledger_ok z" using step_ok [OF y(1) step.hyps(2)] .
  moreover have "known z m" "budget z m = budget y m" using step_known [OF y(1) step.hyps(2) y(2)] by auto
  ultimately show ?case using y ok_within [of z m] by simp
qed

end

text \<open>The operations of the store that the decision service calls.\<close>

inductive rv_step :: "reservation_store \<Rightarrow> reservation_store \<Rightarrow> bool" where
  do_reserve: "rv_step s (snd (reserve uuid mid amount tb mt rid rk s))"
| do_release: "rv_step s (snd (release mid amount rid s))"

definition rv_known :: "reservation_store \<Rightarrow> string \<Rightarrow> bool" where
  "rv_known s m \<longleftrightarrow> dict_get (rv_mandates s) m \<noteq> None"

definition rv_committed :: "reservation_store \<Rightarrow> string \<Rightarrow> int" where
  "rv_committed s m = (case dict_get (rv_mandates s) m of
     None \<Rightarrow> 0 | Some row \<Rightarrow> mr_spent_total row + mr_reserved_total row)"

definition rv_budget :: "reservation_store \<Rightarrow> string \<Rightarrow> int" where
  "rv_budget s m = (case dict_get (rv_mandates s) m of None \<Rightarrow> 0 | Some row \<Rightarrow> mr_total_budget row)"

definition same_terms :: "mandate_row \<Rightarrow> mandate_row \<Rightarrow> bool" where
  "same_terms a b \<longleftrightarrow> mr_total_budget a = mr_total_budget b \<and> mr_spent_total a = mr_spent_total b
     \<and> mr_status a = mr_status b"

lemma reserve_row_terms:
  assumes "dict_get (rv_mandates s) m = Some row"
  shows "\<exists>row'. dict_get (rv_mandates (snd (reserve_row uuid mid a b mt rid rk s))) m = Some row'
     \<and> same_terms row' row"
  using assms
  by (auto simp: reserve_row_def Let_def add_reservation_def same_terms_def
      split: sum.splits ordering.splits option.splits)

lemma rv_step_terms:
  assumes "rv_step s s'" "dict_get (rv_mandates s) m = Some row"
  shows "\<exists>row'. dict_get (rv_mandates s') m = Some row' \<and> same_terms row' row"
  using assms
proof cases
  case (do_reserve uuid mid amount tb mt rid rk)
  have "same_terms row row" by (simp add: same_terms_def)
  with do_reserve assms(2) reserve_row_terms [OF assms(2)] show ?thesis
    by (auto simp: reserve_def split: sum.splits option.splits)
next
  case (do_release mid amount rid)
  have "\<exists>row'. dict_get (rv_mandates (snd (release_row mid a t))) m = Some row' \<and> same_terms row' row"
    if "rv_mandates t = rv_mandates s" for a t
    using assms(2) that by (auto simp: release_row_def same_terms_def split: option.splits)
  moreover have "same_terms row row" by (simp add: same_terms_def)
  ultimately show ?thesis
    using assms(2) do_release by (auto simp: release_def Let_def split: sum.splits option.splits)
qed

lemma rv_step_rows_ok: "rows_ok s \<Longrightarrow> rv_step s s' \<Longrightarrow> rows_ok s'"
  using reserve_rows_ok release_rows_ok by (auto elim!: rv_step.cases simp: keeps_def)

interpretation mem_ledger: budget_ledger rows_ok rv_known rv_committed rv_budget rv_step
proof
  fix s m
  assume "rows_ok s" "rv_known s m"
  then show "rv_committed s m \<le> rv_budget s m"
    by (auto simp: rows_ok_def row_ok_def rv_known_def rv_committed_def rv_budget_def)
next
  fix s s'
  assume "rows_ok s" "rv_step s s'"
  then show "rows_ok s'" by (rule rv_step_rows_ok)
next
  fix s s' m
  assume "rv_step s s'" "rv_known s m"
  then show "rv_known s' m \<and> rv_budget s' m = rv_budget s m"
    using rv_step_terms [of s s' m] by (auto simp: rv_known_def rv_budget_def same_terms_def)
qed

text \<open>
  Whatever sequence of reservations and releases runs against the store, in any interleaving,
  the amount spent and reserved under a mandate never exceeds the total budget that the mandate had
  at the start.
\<close>

theorem reservations_never_exceed_budget:
  assumes "rv_step\<^sup>*\<^sup>* s s'" "rows_ok s" "rv_known s m"
  shows "rv_known s' m \<and> rv_budget s' m = rv_budget s m \<and> rv_committed s' m \<le> rv_budget s m"
  using mem_ledger.run_within_budget [OF assms] by simp

text \<open>
  A reservation is idempotent in its key: repeating a successful reservation with the same key
  returns the same identifier and leaves the store unchanged, so that a retry never reserves twice.
\<close>

theorem reserve_idempotent_by_key:
  assumes res: "reserve uuid mid amount tb mt (Some r) (Some k) s = (Inr (Some i), s1)" and "r \<noteq> []"
  shows "reserve uuid' mid amount tb mt (Some r) (Some k) s1 = (Inr (Some i), s1)"
proof -
  from res obtain a b where ab: "amount_decimal amount = Inr a" "amount_decimal tb = Inr b"
    by (auto simp: reserve_def bind_res_def split: sum.splits)
  show ?thesis
  proof (cases "dict_get (rv_reservation_keys s) k")
    case (Some j)
    with res ab show ?thesis by (auto simp: reserve_def split: if_splits)
  next
    case None
    define row where "row = (case dict_get (rv_mandates s) mid of None \<Rightarrow> default_row b | Some r \<Rightarrow> r)"
    define t where "t = (case dict_get (rv_mandates s) mid of
        None \<Rightarrow> s\<lparr>rv_mandates := dict_set mid (default_row b) (rv_mandates s)\<rparr> | Some _ \<Rightarrow> s)"
    have t: "dict_get (rv_mandates t) mid = Some row" "rv_reservations t = rv_reservations s"
      "rv_reservation_keys t = rv_reservation_keys s"
      by (auto simp: t_def row_def split: option.splits)
    have "reserve_row uuid mid a b mt (Some r) (Some k) s = (Inr (Some i), s1)"
      using res ab None by (simp add: reserve_def)
    with \<open>r \<noteq> []\<close> have i: "i = r" and conds: "mr_status row = ''active''" "\<not> over_budget row a"
      "\<exists>c. (if mt = PNone then Inr OEqual else py_cmp (PInt (mr_txn_count_period row + 1)) mt) = Inr c
           \<and> c \<noteq> OGreater"
      and s1: "dict_get (rv_reservations s) r = Some (mid, a) \<and> s1 = t
               \<or> dict_get (rv_reservations s) r = None \<and> s1 = add_reservation mid row a r (Some k) t"
      by (auto simp: reserve_row_def Let_def simp flip: row_def t_def
          split: if_splits sum.splits ordering.splits option.splits)
    from s1 show ?thesis
    proof
      assume "dict_get (rv_reservations s) r = None \<and> s1 = add_reservation mid row a r (Some k) t"
      then show ?thesis by (simp add: reserve_def ab add_reservation_def i)
    next
      assume A: "dict_get (rv_reservations s) r = Some (mid, a) \<and> s1 = t"
      from conds(3) obtain c where
        "(if mt = PNone then Inr OEqual else py_cmp (PInt (mr_txn_count_period row + 1)) mt) = Inr c"
        "c \<noteq> OGreater" by blast
      with A conds(1,2) t \<open>r \<noteq> []\<close> i None ab show ?thesis
        by (cases c) (simp_all add: reserve_def reserve_row_def Let_def)
    qed
  qed
qed

text \<open>
  Releasing a reservation gives the budget back: after a new reservation under a known mandate
  its release succeeds, and the mandate's row is what it was before.
\<close>

theorem release_undoes_reserve:
  assumes "accounted s" "rows_ok s" and row: "dict_get (rv_mandates s) mid = Some row"
    and "0 \<le> mr_txn_count_period row"
    and res: "reserve uuid mid amount tb mt (Some r) rk s = (Inr (Some r), s1)" "r \<noteq> []"
    and new: "dict_get (rv_reservations s) r = None"
      "rk = None \<or> dict_get (rv_reservation_keys s) (the rk) = None"
  shows "\<exists>s2. release mid amount (Some r) s1 = (Inr True, s2)
     \<and> dict_get (rv_mandates s2) mid = Some row \<and> dict_get (rv_reservations s2) r = None \<and> accounted s2"
proof -
  from res(1) obtain a b where ab: "amount_decimal amount = Inr a" "amount_decimal tb = Inr b"
    by (auto simp: reserve_def bind_res_def split: sum.splits)
  have "reserve_row uuid mid a b mt (Some r) rk s = (Inr (Some r), s1)"
    using res(1) ab new(2) by (auto simp: reserve_def split: option.splits)
  with row new(1) res(2) have s1: "s1 = add_reservation mid row a r rk s"
    by (auto simp: reserve_row_def Let_def split: if_splits sum.splits ordering.splits)
  have acc: "accounted s1" "rows_ok s1"
    using keepsD [OF reserve_accounted assms(1) res(1)] keepsD [OF reserve_rows_ok assms(2) res(1)]
    by simp_all
  have "dict_get (rv_reservations s1) r = Some (mid, a)" by (simp add: s1 add_reservation_def)
  from release_accounted [OF acc this ab(1)] obtain s2 row1 where
    "release mid amount (Some r) s1 = (Inr True, s2)" "accounted s2"
    "dict_get (rv_mandates s1) mid = Some row1" "dict_get (rv_reservations s2) r = None"
    "dict_get (rv_mandates s2) mid = Some (row1\<lparr>mr_reserved_total := mr_reserved_total row1 - a,
       mr_txn_count_period := max 0 (mr_txn_count_period row1 - 1)\<rparr>)" by blast
  moreover have "row1 = row\<lparr>mr_reserved_total := mr_reserved_total row + a,
      mr_txn_count_period := mr_txn_count_period row + 1\<rparr>"
    using calculation(3) by (simp add: s1 add_reservation_def)
  ultimately show ?thesis using assms(4) by simp
qed

text \<open>
  A release that names another mandate than the owner of the reservation fails, but it has
  removed the reservation: the amount stays reserved under the owner, and the owner's own release
  fails from then on.
\<close>

theorem release_by_other_mandate_strands_budget:
  assumes "dict_get (rv_reservations s) r = Some (mid, a)" "other \<noteq> mid"
    and "amount_decimal amount = Inr c"
  shows "\<exists>s1 s2. release other amount (Some r) s = (Inr False, s1)
     \<and> rv_mandates s1 = rv_mandates s \<and> dict_get (rv_reservations s1) r = None
     \<and> release mid amount (Some r) s1 = (Inr False, s2) \<and> rv_mandates s2 = rv_mandates s"
  using assms by (simp add: release_def Let_def)

section \<open>Concrete runs of the store\<close>

definition sample_row :: mandate_row where
  "sample_row = \<lparr>mr_total_budget = 50000, mr_spent_total = 0, mr_reserved_total = 0,
     mr_txn_count_period = 0, mr_status = ''active''\<rparr>"

definition sample_reservations :: reservation_store where
  "sample_reservations = \<lparr>rv_mandates = [(''m1'', sample_row)], rv_reservations = [], rv_reservation_keys = []\<rparr>"

lemma sample_reservations_ok: "rows_ok sample_reservations" "accounted sample_reservations" "rv_known sample_reservations ''m1''"
  by (simp_all add: rows_ok_def row_ok_def sample_reservations_def sample_row_def accounted_def held_def rv_known_def)

definition sample_reserved :: reservation_store where
  "sample_reserved = add_reservation ''m1'' sample_row 1250 ''r1'' (Some ''p1'') sample_reservations"

lemma sample_reserve:
  "reserve ''u'' ''m1'' (PStr (cents_str 1250)) (PStr (cents_str 50000)) PNone (Some ''r1'') (Some ''p1'')
     sample_reservations = (Inr (Some ''r1''), sample_reserved)"
  by (simp add: reserve_def reserve_row_def sample_reservations_def sample_row_def Let_def
      over_budget_def dec_sum3_exceeds_iff sample_reserved_def)

theorem reservations_never_exceed_budget_witness:
  "rv_committed sample_reserved ''m1'' \<le> rv_budget sample_reservations ''m1''"
proof -
  have "rv_step sample_reservations sample_reserved"
    using do_reserve [of sample_reservations "''u''" "''m1''" "PStr (cents_str 1250)" "PStr (cents_str 50000)"
        PNone "Some ''r1''" "Some ''p1''"] by (simp add: sample_reserve)
  then have "rv_step\<^sup>*\<^sup>* sample_reservations sample_reserved" by blast
  from reservations_never_exceed_budget [OF this sample_reservations_ok(1,3)] show ?thesis by simp
qed

theorem reserve_idempotent_by_key_witness:
  "reserve ''v'' ''m1'' (PStr (cents_str 1250)) (PStr (cents_str 50000)) PNone (Some ''r1'') (Some ''p1'')
     sample_reserved = (Inr (Some ''r1''), sample_reserved)"
  by (rule reserve_idempotent_by_key [OF sample_reserve]) simp

theorem release_undoes_reserve_witness:
  "\<exists>s2. release ''m1'' (PStr (cents_str 1250)) (Some ''r1'') sample_reserved = (Inr True, s2)
     \<and> dict_get (rv_mandates s2) ''m1'' = Some sample_row"
  using release_undoes_reserve [OF sample_reservations_ok(2,1) _ _ sample_reserve, of sample_row]
  by (auto simp: sample_reservations_def sample_row_def)

theorem release_by_other_mandate_strands_budget_witness:
  "\<exists>s1 s2. release ''m2'' (PStr (cents_str 1250)) (Some ''r1'') sample_reserved = (Inr False, s1)
     \<and> release ''m1'' (PStr (cents_str 1250)) (Some ''r1'') s1 = (Inr False, s2)
     \<and> rv_mandates s2 = rv_mandates sample_reserved"
  using release_by_other_mandate_strands_budget
    [of sample_reserved "''r1''" "''m1''" 1250 "''m2''" "PStr (cents_str 1250)" 1250]
  by (auto simp: sample_reserved_def add_reservation_def)

end
