(* ===== verification/Decision_Stores.thy ===== *)
theory Decision_Stores
  imports Idempotency Reservation_Store
begin

text \<open>
  The remaining in-memory adapters of \<^verbatim>\<open>src/src/api/decision/repository_memory.py\<close> and the records of
  \<^verbatim>\<open>src/src/api/decision/ports.py\<close>: the velocity counters in minute buckets, the purchases, the
  escalations, the outbox, the mandate reader and the offer catalogue.
\<close>

section \<open>Velocity counters\<close>

type_synonym bucket_key = "string \<times> string \<times> string \<times> instant"

record velocity_store =
  vs_buckets :: "(bucket_key, dec) dict"
  vs_cooldowns :: "(string, instant) dict"

definition empty_velocity :: velocity_store where
  "empty_velocity = \<lparr>vs_buckets = [], vs_cooldowns = []\<rparr>"

text \<open>The instant 1970-01-01T00:00:00Z: 719162 days after the first day of year 1.\<close>

definition OPEN_BUCKET :: instant where
  "OPEN_BUCKET = 719162 * us_per_day"

definition vs_add :: "bucket_key \<Rightarrow> dec \<Rightarrow> velocity_store \<Rightarrow> velocity_store" where
  "vs_add key v s =
     s\<lparr>vs_buckets := dict_set key (dec_add (dict_get_or (vs_buckets s) key (Dec 0 0)) v) (vs_buckets s)\<rparr>"

definition in_window :: "string \<Rightarrow> string \<Rightarrow> string \<Rightarrow> instant \<Rightarrow> instant \<Rightarrow> bucket_key \<Rightarrow> bool" where
  "in_window mid counter window start stop key =
     (case key of (m, c, w, b) \<Rightarrow> m = mid \<and> c = counter \<and> w = window \<and> start \<le> b \<and> b \<le> stop)"

definition vs_sum :: "velocity_store \<Rightarrow> string \<Rightarrow> string \<Rightarrow> string \<Rightarrow> instant \<Rightarrow> instant \<Rightarrow> dec" where
  "vs_sum s mid counter window start stop =
     fold (\<lambda>v a. dec_add a v)
       (map snd (filter (\<lambda>(k, v). in_window mid counter window start stop k) (vs_buckets s))) (Dec 0 0)"

text \<open>The amount is read between the two counters: a bad amount leaves the first one incremented.\<close>

definition increment_intent :: "string \<Rightarrow> pyval \<Rightarrow> instant \<Rightarrow> (velocity_store, unit) sres" where
  "increment_intent mid amount now s =
     (let bucket = floor_minute now;
          s1 = vs_add (mid, ''intents'', ''1m'', bucket) (Dec 1 0) s
      in case amount_decimal amount of
           Inl e \<Rightarrow> (Inl e, s1)
         | Inr a \<Rightarrow> (Inr (), vs_add (mid, ''amount_sum'', ''1m'', bucket) (cents_dec a) s1))"

definition increment_escalation :: "string \<Rightarrow> instant \<Rightarrow> (velocity_store, unit) sres" where
  "increment_escalation mid now s =
     (Inr (), vs_add (mid, ''escalations'', ''1h'', floor_minute now) (Dec 1 0) s)"

definition open_key :: "string \<Rightarrow> bucket_key" where
  "open_key mid = (mid, ''open_authz'', ''current'', OPEN_BUCKET)"

definition increment_open_authorizations :: "string \<Rightarrow> (velocity_store, unit) sres" where
  "increment_open_authorizations mid s = (Inr (), vs_add (open_key mid) (Dec 1 0) s)"

definition decrement_open_authorizations :: "string \<Rightarrow> (velocity_store, unit) sres" where
  "decrement_open_authorizations mid s =
     (let v = dec_sub (dict_get_or (vs_buckets s) (open_key mid) (Dec 0 0)) (Dec 1 0)
      in (Inr (), s\<lparr>vs_buckets := dict_set (open_key mid) (if dec_less (Dec 0 0) v then v else Dec 0 0)
                                    (vs_buckets s)\<rparr>))"

definition record_cooldown :: "string \<Rightarrow> instant \<Rightarrow> (velocity_store, unit) sres" where
  "record_cooldown mid expiry s =
     (Inr (), if dict_get_or (vs_cooldowns s) mid 0 < expiry
              then s\<lparr>vs_cooldowns := dict_set mid expiry (vs_cooldowns s)\<rparr> else s)"

definition get_cooldown :: "string \<Rightarrow> instant \<Rightarrow> (velocity_store, instant option) sres" where
  "get_cooldown mid now s =
     (case dict_get (vs_cooldowns s) mid of
        None \<Rightarrow> (Inr None, s)
      | Some expiry \<Rightarrow>
          if expiry \<le> now then (Inr None, s\<lparr>vs_cooldowns := dict_pop mid (vs_cooldowns s)\<rparr>)
          else (Inr (Some expiry), s))"

text \<open>\<^verbatim>\<open>current - window\<close> fails before the first day of year 1.\<close>

definition count_intents :: "velocity_store \<Rightarrow> string \<Rightarrow> instant \<Rightarrow> micros \<Rightarrow> int res" where
  "count_intents s mid now window =
     bind_res (dt_add now (- window)) (\<lambda>start.
     Inr (dec_trunc (vs_sum s mid ''intents'' ''1m'' (floor_minute start) (floor_minute now))))"

definition count_escalations :: "velocity_store \<Rightarrow> string \<Rightarrow> instant \<Rightarrow> int res" where
  "count_escalations s mid now =
     bind_res (dt_add now (- seconds 3600)) (\<lambda>start.
     Inr (dec_trunc (vs_sum s mid ''escalations'' ''1h'' (floor_minute start) (floor_minute now))))"

definition amount_sum :: "velocity_store \<Rightarrow> string \<Rightarrow> instant \<Rightarrow> dec res" where
  "amount_sum s mid now =
     bind_res (dt_add now (- seconds 60)) (\<lambda>start.
     Inr (vs_sum s mid ''amount_sum'' ''1m'' (floor_minute start) (floor_minute now)))"

definition open_authorizations :: "velocity_store \<Rightarrow> string \<Rightarrow> int" where
  "open_authorizations s mid = max 0 (dec_trunc (dict_get_or (vs_buckets s) (open_key mid) (Dec 0 0)))"

definition get_spend_view ::
  "string \<Rightarrow> instant \<Rightarrow> pyval \<Rightarrow> pyval \<Rightarrow> pyval \<Rightarrow> pyval \<Rightarrow> (velocity_store, spend_view) sres" where
  "get_spend_view mid now spent reserved txn status s =
     (case bind_res (count_intents s mid now (seconds 60)) (\<lambda>i.
           bind_res (count_escalations s mid now) (\<lambda>e. Inr (i, e))) of
        Inl e \<Rightarrow> (Inl e, s)
      | Inr (i, e) \<Rightarrow>
          (case get_cooldown mid now s of
             (Inl x, s') \<Rightarrow> (Inl x, s')
           | (Inr c, s') \<Rightarrow>
               (SpendView spent reserved txn status (PInt i) (PInt e) (PInt (open_authorizations s mid))
                  (opt_time c), s')))"

section \<open>Purchases and escalations\<close>

record purchase_record =
  pr_purchase_id :: string
  pr_mandate_id :: string
  pr_intent_jti :: string
  pr_status :: string
  pr_reason_code :: "string option"
  pr_reservation_id :: "string option"
  pr_escalation_id :: "string option"
  pr_receipt :: "pydict option"
  pr_created_at :: instant
  pr_updated_at :: instant

type_synonym purchase_store = "(string, purchase_record) dict"

definition new_purchase ::
  "instant \<Rightarrow> string \<Rightarrow> string \<Rightarrow> string \<Rightarrow> string \<Rightarrow> string option \<Rightarrow> string option \<Rightarrow> string option
   \<Rightarrow> purchase_record" where
  "new_purchase wall pid mid jti status reason rid eid =
     \<lparr>pr_purchase_id = pid, pr_mandate_id = mid, pr_intent_jti = jti, pr_status = status,
      pr_reason_code = reason, pr_reservation_id = rid, pr_escalation_id = eid, pr_receipt = None,
      pr_created_at = wall, pr_updated_at = wall\<rparr>"

definition purchase_create :: "purchase_record \<Rightarrow> (purchase_store, purchase_record) sres" where
  "purchase_create p s =
     (case dict_get s (pr_purchase_id p) of
        Some q \<Rightarrow> (Inr q, s)
      | None \<Rightarrow> (Inr p, dict_set (pr_purchase_id p) p s))"

text \<open>\<^verbatim>\<open>update\<close> with the changed fields given as a function on the record.\<close>

definition purchase_update ::
  "instant \<Rightarrow> string \<Rightarrow> (purchase_record \<Rightarrow> purchase_record) \<Rightarrow> (purchase_store, purchase_record option) sres" where
  "purchase_update wall pid changes s =
     (case dict_get s pid of
        None \<Rightarrow> (Inr None, s)
      | Some p \<Rightarrow> (let q = (changes p)\<lparr>pr_updated_at := wall\<rparr> in (Inr (Some q), dict_set pid q s)))"

definition purchase_by_intent :: "purchase_store \<Rightarrow> string \<Rightarrow> purchase_record option" where
  "purchase_by_intent s jti = find (\<lambda>p. pr_intent_jti p = jti) (map snd s)"

record escalation_record =
  er_escalation_id :: string
  er_purchase_id :: string
  er_mandate_id :: string
  er_intent :: "purchase_intent src"
  er_offer :: "offer src"
  er_status :: string
  er_level :: string
  er_diff :: pydict
  er_created_at :: instant
  er_timeout_at :: instant
  er_decision :: "string option"
  er_approver :: "string option"

type_synonym escalation_store = "(string, escalation_record) dict"

definition escalation_create :: "escalation_record \<Rightarrow> (escalation_store, escalation_record) sres" where
  "escalation_create e s =
     (case dict_get s (er_escalation_id e) of
        Some q \<Rightarrow> (Inr q, s)
      | None \<Rightarrow> (Inr e, dict_set (er_escalation_id e) e s))"

definition escalation_update ::
  "string \<Rightarrow> (escalation_record \<Rightarrow> escalation_record) \<Rightarrow> (escalation_store, escalation_record option) sres" where
  "escalation_update eid changes s =
     (case dict_get s eid of
        None \<Rightarrow> (Inr None, s)
      | Some e \<Rightarrow> (Inr (Some (changes e)), dict_set eid (changes e) s))"

section \<open>Outbox\<close>

record outbox_event =
  oe_event_id :: string
  oe_type :: string
  oe_aggregate_id :: string
  oe_payload :: pydict
  oe_created_at :: instant

record outbox_writer =
  ob_events :: "outbox_event list"
  ob_fail :: bool

definition outbox_append :: "outbox_event \<Rightarrow> (outbox_writer, unit) sres" where
  "outbox_append ev s =
     (if ob_fail s then (Inl RuntimeError, s)
      else if list_ex (\<lambda>x. oe_event_id x = oe_event_id ev) (ob_events s) then (Inr (), s)
      else (Inr (), s\<lparr>ob_events := ob_events s @ [ev]\<rparr>))"

section \<open>Mandates and offers\<close>

definition put_mandate :: "mandate_claims src \<Rightarrow> string option \<Rightarrow> ((string, mandate_claims src) dict, unit) sres" where
  "put_mandate m jti s =
     (let key = (case or_str jti None of
                   Some k \<Rightarrow> PStr k
                 | None \<Rightarrow> mandate_value m ''jti'' PNone)
      in (Inr (), dict_set (py_str key) m s))"

definition offer_attr :: "offer \<Rightarrow> string \<Rightarrow> pyval option" where
  "offer_attr r name =
     (if name = ''offer_id'' then Some (PStr (of_offer_id r))
      else if name = ''merchant_id'' then Some (PStr (of_merchant_id r))
      else if name = ''category'' then Some (PStr (of_category r))
      else if name = ''amount'' then Some (PStr (of_amount r))
      else if name = ''currency'' then Some (PStr (of_currency r))
      else if name = ''title'' then Some (PStr (of_title r))
      else if name = ''description'' then Some (opt_str (of_description r))
      else None)"

definition put_offer :: "offer src \<Rightarrow> string option \<Rightarrow> ((string, offer src) dict, unit) sres" where
  "put_offer off oid s =
     (let key = (case or_str oid None of
                   Some k \<Rightarrow> PStr k
                 | None \<Rightarrow> src_value offer_attr off ''offer_id'' PNone)
      in (Inr (), dict_set (py_str key) off s))"

section \<open>Facts about the stores\<close>

text \<open>
  The minute buckets that are summed for the last 60 seconds contain the bucket of every intent
  of the last 60 seconds: no recent intent escapes the burst rule.
\<close>

theorem recent_intent_in_window:
  assumes "t \<le> now" "now \<le> t + seconds 60"
  shows "in_window mid ''intents'' ''1m'' (floor_minute (now - seconds 60)) (floor_minute now)
           (mid, ''intents'', ''1m'', floor_minute t)"
  using assms floor_minute_mono [of t now] floor_minute_mono [of "now - seconds 60" t]
  by (simp add: in_window_def)

theorem recent_intent_in_window_witness:
  "in_window ''m1'' ''intents'' ''1m'' (floor_minute (63900000061000000 - seconds 60)) (floor_minute 63900000061000000)
     (''m1'', ''intents'', ''1m'', floor_minute 63900000001000001)"
  by (rule recent_intent_in_window) simp_all

lemma outbox_no_duplicates:
  "distinct (map oe_event_id (ob_events s)) \<Longrightarrow>
   distinct (map oe_event_id (ob_events (snd (outbox_append ev s))))"
  by (auto simp: outbox_append_def list_ex_iff)

lemma outbox_append_ok: "outbox_append ev s = (Inr (), s') \<Longrightarrow> oe_event_id ev \<in> oe_event_id ` set (ob_events s')"
  by (auto simp: outbox_append_def list_ex_iff image_iff split: if_splits) (metis)

lemma record_cooldown_monotone:
  "record_cooldown mid u s = (x, s') \<Longrightarrow> dict_get (vs_cooldowns s) m = Some v \<Longrightarrow>
   \<exists>w. dict_get (vs_cooldowns s') m = Some w \<and> v \<le> w"
  by (auto simp: record_cooldown_def dict_get_or_def split: if_splits)

end
