(* ===== verification/Decision_Service.thy ===== *)
theory Decision_Service
  imports Decision_Stores
begin

text \<open>
  The use case \<^verbatim>\<open>DecisionService\<close> of \<^verbatim>\<open>src/src/api/decision/service.py\<close>, with the helpers of
  \<^verbatim>\<open>escalation_flow.py\<close>, over the in-memory adapters that \<^verbatim>\<open>deps.decision_service\<close> wires. There is no
  transaction manager, so that an exception keeps the writes made before it. Identifiers drawn from
  \<^verbatim>\<open>uuid4\<close> and the wall clock are given by the environment; every read of the wall clock during one
  call returns the same instant.
\<close>

section \<open>State and environment\<close>

record service_env =
  en_crypto :: crypto
  en_gate :: policy_gate
  en_uv_verifier :: "uv_verifier option"
  en_secret :: string
  en_scope :: string
  en_wall :: instant
  en_claim_uuid :: string
  en_escalation_uuid :: string
  en_reservation_uuid :: string

record service_state =
  ss_mandates :: "(string, mandate_claims src) dict"
  ss_offers :: "(string, offer src) dict"
  ss_velocity :: velocity_store
  ss_reservations :: reservation_store
  ss_purchases :: purchase_store
  ss_escalations :: escalation_store
  ss_outbox :: outbox_writer
  ss_idem :: idem_store

type_synonym 'a svc = "(service_state, 'a) sres"

text \<open>An operation of one store, run on the state of the service.\<close>

definition on_velocity :: "(velocity_store, 'a) sres \<Rightarrow> 'a svc" where
  "on_velocity m s = (case m (ss_velocity s) of (r, t) \<Rightarrow> (r, s\<lparr>ss_velocity := t\<rparr>))"

definition on_reservations :: "(reservation_store, 'a) sres \<Rightarrow> 'a svc" where
  "on_reservations m s = (case m (ss_reservations s) of (r, t) \<Rightarrow> (r, s\<lparr>ss_reservations := t\<rparr>))"

definition on_purchases :: "(purchase_store, 'a) sres \<Rightarrow> 'a svc" where
  "on_purchases m s = (case m (ss_purchases s) of (r, t) \<Rightarrow> (r, s\<lparr>ss_purchases := t\<rparr>))"

definition on_escalations :: "(escalation_store, 'a) sres \<Rightarrow> 'a svc" where
  "on_escalations m s = (case m (ss_escalations s) of (r, t) \<Rightarrow> (r, s\<lparr>ss_escalations := t\<rparr>))"

definition on_outbox :: "(outbox_writer, 'a) sres \<Rightarrow> 'a svc" where
  "on_outbox m s = (case m (ss_outbox s) of (r, t) \<Rightarrow> (r, s\<lparr>ss_outbox := t\<rparr>))"

definition on_idem :: "(idem_store, 'a) sres \<Rightarrow> 'a svc" where
  "on_idem m s = (case m (ss_idem s) of (r, t) \<Rightarrow> (r, s\<lparr>ss_idem := t\<rparr>))"

section \<open>Results\<close>

record verification_result =
  vr_decision :: decision
  vr_purchase_id :: string
  vr_status :: string
  vr_escalation_id :: "string option"

definition mk_result :: "decision \<Rightarrow> string \<Rightarrow> string \<Rightarrow> string option \<Rightarrow> verification_result" where
  "mk_result d pid st eid =
     \<lparr>vr_decision = d, vr_purchase_id = pid, vr_status = st, vr_escalation_id = eid\<rparr>"

lemma mk_result_simps [simp]:
  "vr_decision (mk_result d pid st eid) = d" "vr_purchase_id (mk_result d pid st eid) = pid"
  "vr_status (mk_result d pid st eid) = st" "vr_escalation_id (mk_result d pid st eid) = eid"
  by (simp_all add: mk_result_def)

definition opt_int :: "int option \<Rightarrow> pyval" where
  "opt_int i = (case i of None \<Rightarrow> PNone | Some n \<Rightarrow> PInt n)"

definition as_dict :: "verification_result \<Rightarrow> pydict" where
  "as_dict r =
     (let d = vr_decision r
      in [(''decision'', PStr (decision_value_str (d_decision d))),
          (''reason_code'', opt_str (map_option reason_str (d_reason_code d))),
          (''reservation_id'', opt_str (d_reservation_id d)),
          (''purchase_id'', PStr (vr_purchase_id r)),
          (''status'', PStr (vr_status r)),
          (''escalation_id'', opt_str (vr_escalation_id r)),
          (''diff'', PDict (case d_diff d of None \<Rightarrow> [] | Some m \<Rightarrow> m)),
          (''level'', opt_str (map_option level_str (d_level d))),
          (''ttl_seconds'', opt_int (d_ttl_seconds d)),
          (''requires_uv'', PBool (d_requires_uv d))])"

text \<open>Reading the typed fields of a stored response back.\<close>

definition str_of :: "pyval \<Rightarrow> string option" where
  "str_of v = (case v of PStr s \<Rightarrow> Some s | _ \<Rightarrow> None)"

definition int_of :: "pyval \<Rightarrow> int option" where
  "int_of v = (case v of PInt i \<Rightarrow> Some i | _ \<Rightarrow> None)"

definition dict_of :: "pyval \<Rightarrow> pydict option" where
  "dict_of v = (case v of PDict m \<Rightarrow> Some m | _ \<Rightarrow> None)"

definition result_from_idempotency :: "pydict \<Rightarrow> string \<Rightarrow> verification_result" where
  "result_from_idempotency m fallback =
     (let get = (\<lambda>k d. dict_get_or m k d);
          d = (case Decision (get ''decision'' (PStr ''REJECTED'')) (get ''reason_code'' PNone)
                      (str_of (get ''reservation_id'' PNone)) (dict_of (get ''diff'' PNone))
                      (get ''level'' PNone) (int_of (get ''ttl_seconds'' PNone))
                      (truthy (get ''requires_uv'' (PBool False))) of
                 Inr d \<Rightarrow> d
               | Inl _ \<Rightarrow> mk_decision REJECTED (Some MANDATE_SUSPENDED) None)
      in mk_result d (py_str (get ''purchase_id'' (PStr fallback))) (py_str (get ''status'' (PStr ''rejected'')))
           (str_of (get ''escalation_id'' PNone)))"

section \<open>Readers\<close>

definition mandate_id_of :: "mandate_claims src \<Rightarrow> string \<Rightarrow> string" where
  "mandate_id_of m fallback = py_str (mandate_value m ''id'' (mandate_value m ''jti'' (PStr fallback)))"

definition intent_jti :: "purchase_intent src \<Rightarrow> string" where
  "intent_jti i = py_str (intent_value i ''jti'' (PStr ''unknown-intent''))"

definition read_mandate :: "string \<Rightarrow> service_state \<Rightarrow> mandate_claims src option" where
  "read_mandate jti s = dict_get (ss_mandates s) jti"

definition read_offer :: "string \<Rightarrow> service_state \<Rightarrow> offer src option" where
  "read_offer oid s = dict_get (ss_offers s) oid"

definition src_truthy :: "'r src \<Rightarrow> bool" where
  "src_truthy x = (case x of Obj _ \<Rightarrow> True | Val v \<Rightarrow> truthy v)"

definition spend :: "string \<Rightarrow> mandate_claims src \<Rightarrow> instant \<Rightarrow> spend_view svc" where
  "spend mid m now =
     retry_s
       (on_velocity (get_spend_view mid now
          (mandate_value m ''spent_total'' (mandate_value m ''spent'' (PStr ''0.00'')))
          (mandate_value m ''reserved_total'' (mandate_value m ''reserved_amount'' (PStr ''0.00'')))
          (mandate_value m ''txn_count_period'' (PInt 0))
          (mandate_value m ''status'' (PStr ''active''))))
       (on_velocity (get_spend_view mid now zero_amount zero_amount (PInt 0) (PStr ''active'')))"

definition svc_evaluate ::
  "policy_gate \<Rightarrow> mandate_claims src \<Rightarrow> purchase_intent src \<Rightarrow> spend_view \<Rightarrow> instant \<Rightarrow> offer src \<Rightarrow> bool
   \<Rightarrow> decision res" where
  "svc_evaluate g m i sv now off st =
     (let t = PTime (Aware now)
      in case evaluate g m i (Obj sv) t off st of
           Inl TypeError \<Rightarrow>
             (case evaluate g m i (Obj sv) t off False of
                Inl TypeError \<Rightarrow> evaluate g m i (Obj sv) t (Val PNone) False
              | x \<Rightarrow> x)
         | x \<Rightarrow> x)"

section \<open>Effects\<close>

definition new_event :: "crypto \<Rightarrow> string \<Rightarrow> string \<Rightarrow> pydict \<Rightarrow> instant \<Rightarrow> outbox_event res" where
  "new_event cr ty agg payload now =
     bind_res (payload_json (PDict payload)) (\<lambda>t.
     Inr \<lparr>oe_event_id = ty @ '':'' @ agg @ '':'' @ take 24 (sha256_hex cr t), oe_type = ty,
          oe_aggregate_id = agg, oe_payload = payload, oe_created_at = now\<rparr>)"

definition emit :: "service_env \<Rightarrow> string \<Rightarrow> string \<Rightarrow> pydict \<Rightarrow> instant \<Rightarrow> unit svc" where
  "emit en ty agg payload now =
     bind_s (lift_res (new_event (en_crypto en) ty agg payload now)) (\<lambda>ev. on_outbox (outbox_append ev))"

definition update_purchase ::
  "service_env \<Rightarrow> string \<Rightarrow> (purchase_record \<Rightarrow> purchase_record) \<Rightarrow> purchase_record option svc" where
  "update_purchase en pid changes = on_purchases (purchase_update (en_wall en) pid changes)"

definition save_purchase :: "purchase_record \<Rightarrow> purchase_record svc" where
  "save_purchase p = on_purchases (purchase_create p)"

definition observe_intent :: "string \<Rightarrow> purchase_intent src \<Rightarrow> instant \<Rightarrow> unit svc" where
  "observe_intent mid i now = on_velocity (increment_intent mid (intent_value i ''amount'' (PStr ''0.00'')) now)"

text \<open>The cooldown that a burst decision carries as ISO text is parsed and recorded.\<close>

definition cooldown_of :: "pyval \<Rightarrow> instant res" where
  "cooldown_of v =
     bind_res (case v of PStr s \<Rightarrow> fromisoformat (replace_Z s)
               | PTime t \<Rightarrow> Inr t | _ \<Rightarrow> Inl AttributeError)
       (\<lambda>t. case t of Naive _ \<Rightarrow> Inl ValueError | Aware u \<Rightarrow> Inr u)"

definition diff_get :: "decision \<Rightarrow> string \<Rightarrow> pyval" where
  "diff_get d k = (case d_diff d of None \<Rightarrow> PNone | Some m \<Rightarrow> dict_get_or m k PNone)"

definition observe_escalation :: "string \<Rightarrow> instant \<Rightarrow> decision \<Rightarrow> unit svc" where
  "observe_escalation mid now d =
     bind_s (on_velocity (increment_escalation mid now)) (\<lambda>_.
     (let c = diff_get d ''cooldown_until''
      in if c = PNone then return_s ()
         else bind_s (lift_res (cooldown_of c)) (\<lambda>u. on_velocity (record_cooldown mid u))))"

definition plain_count :: "pyval \<Rightarrow> pyval" where
  "plain_count v =
     (case v of
        PDict m \<Rightarrow> dict_get_or m ''count'' PNone
      | PStr _ \<Rightarrow> PStr ''count''
      | PList _ \<Rightarrow> PStr ''count''
      | _ \<Rightarrow> PNone)"

text \<open>
  The arguments of the reservation: the total budget and the bound on the number of transactions.
  Text and lists have a method \<^verbatim>\<open>count\<close>; it cannot be compared with a number, like the text that
  stands for it here.
\<close>

definition reserve_budget :: "mandate_claims src \<Rightarrow> pyval" where
  "reserve_budget m =
     (if mandate_limits_of m = Val PNone then PStr ''0.00''
      else src_value limits_attr (mandate_limits_of m) ''total_budget'' PNone)"

definition reserve_max_txn :: "mandate_claims src \<Rightarrow> pyval" where
  "reserve_max_txn m =
     (case mandate_limits_of m of
        Obj l \<Rightarrow> (case ml_max_txn l of
                     NoMaxTxn \<Rightarrow> PNone | MaxTxn mt \<Rightarrow> PInt (mt_count mt) | OtherMaxTxn v \<Rightarrow> plain_count v)
      | Val v \<Rightarrow> plain_count (src_value limits_attr (Val v) ''max_txn'' PNone))"

definition svc_reserve ::
  "service_env \<Rightarrow> mandate_claims src \<Rightarrow> string \<Rightarrow> purchase_intent src \<Rightarrow> string \<Rightarrow> string svc" where
  "svc_reserve en m mid i pid =
     (let mt = reserve_max_txn m;
          rid = Some (''reservation:'' @ pid);
          call = (\<lambda>mt rid key. on_reservations (reserve (en_reservation_uuid en) mid
                    (intent_value i ''amount'' PNone) (reserve_budget m) mt rid key))
      in bind_s (retry_s (call mt rid (Some pid)) (retry_s (call mt rid None) (call PNone None None)))
           (\<lambda>result. case result of
                None \<Rightarrow> raise_s ReservationRejected
              | Some r \<Rightarrow> if r = [] then raise_s ReservationRejected else return_s r))"

definition svc_release :: "string \<Rightarrow> pyval \<Rightarrow> string option \<Rightarrow> bool svc" where
  "svc_release mid amount rid =
     retry_s (on_reservations (release mid amount rid)) (on_reservations (release mid amount None))"

section \<open>The escalation envelope\<close>

definition create_escalation ::
  "string \<Rightarrow> string \<Rightarrow> string \<Rightarrow> purchase_intent src \<Rightarrow> offer src \<Rightarrow> decision \<Rightarrow> instant \<Rightarrow> escalation_record res" where
  "create_escalation uuid pid mid i off d created_at =
     (let level = (case d_level d of None \<Rightarrow> L3 | Some l \<Rightarrow> l)
      in bind_res (escalation_deadline created_at level default_stepup_config) (\<lambda>timeout.
         (let ttl = (case d_ttl_seconds d of
                       Some n \<Rightarrow> if n = 0 then (timeout - created_at) div us_per_second else n
                     | None \<Rightarrow> (timeout - created_at) div us_per_second);
              diff0 = dict_merge (case d_diff d of None \<Rightarrow> [] | Some m \<Rightarrow> m)
                        [(''level'', PStr (level_str level)), (''timeout_at'', PStr (isoformat timeout)),
                         (''ttl_seconds'', PInt ttl)];
              diff1 = (case d_reason_code d of
                         None \<Rightarrow> diff0 | Some r \<Rightarrow> dict_set ''reason_code'' (PStr (reason_str r)) diff0);
              diff2 = (if d_requires_uv d then dict_set ''requires_uv'' (PBool True) diff1 else diff1)
          in Inr \<lparr>er_escalation_id = uuid, er_purchase_id = pid, er_mandate_id = mid, er_intent = i,
                  er_offer = off, er_status = ''pending'', er_level = level_str level, er_diff = diff2,
                  er_created_at = created_at, er_timeout_at = timeout, er_decision = None,
                  er_approver = None\<rparr>)))"

definition domain_escalation :: "escalation_record \<Rightarrow> escalation res" where
  "domain_escalation r =
     Escalation (PStr (er_level r)) (PTime (Aware (er_created_at r))) (PTime (Aware (er_timeout_at r)))
       (Some (er_diff r))"

definition resolve_envelope ::
  "service_env \<Rightarrow> escalation_record \<Rightarrow> instant \<Rightarrow> pyval \<Rightarrow> pyval \<Rightarrow> bool option \<Rightarrow> decision res" where
  "resolve_envelope en r now approval assertion uv_verified =
     (if er_status r \<noteq> ''pending'' \<or> escalation_expired (er_timeout_at r) now
      then Inr (mk_decision REJECTED (Some ESCALATION_TIMEOUT_DENIED) None)
      else
        bind_res (domain_escalation r) (\<lambda>esc.
        resolve_escalation (sha256_hex (en_crypto en)) esc (PTime (Aware now)) approval
          (en_uv_verifier en) assertion (Some (er_diff r)) uv_verified))"

definition mark_expired :: "escalation_record \<Rightarrow> escalation_record" where
  "mark_expired r = r\<lparr>er_status := ''expired'', er_decision := Some (reason_str ESCALATION_TIMEOUT_DENIED)\<rparr>"

section \<open>The branches of verify\<close>

definition suspended_result :: "string \<Rightarrow> string \<Rightarrow> string option \<Rightarrow> verification_result" where
  "suspended_result pid st eid = mk_result (mk_decision REJECTED (Some MANDATE_SUSPENDED) None) pid st eid"

definition set_rejected :: "string option \<Rightarrow> purchase_record \<Rightarrow> purchase_record" where
  "set_rejected reason p =
     p\<lparr>pr_status := ''rejected'', pr_reason_code := reason, pr_reservation_id := None, pr_escalation_id := None\<rparr>"

definition svc_rejected ::
  "service_env \<Rightarrow> purchase_intent src \<Rightarrow> string \<Rightarrow> string \<Rightarrow> decision \<Rightarrow> instant \<Rightarrow> verification_result svc" where
  "svc_rejected en i mid pid d now =
     (let reason = map_option reason_str (d_reason_code d)
      in try_s
           (bind_s (observe_intent mid i now) (\<lambda>_.
            bind_s (update_purchase en pid (set_rejected reason)) (\<lambda>updated.
            bind_s (if updated = None
                    then bind_s (save_purchase (new_purchase (en_wall en) pid mid (intent_jti i) ''rejected''
                                                  reason None None)) (\<lambda>_. return_s ())
                    else return_s ()) (\<lambda>_.
            bind_s (emit en ''purchase.rejected'' pid
                      [(''purchase_id'', PStr pid), (''intent_jti'', PStr (intent_jti i)),
                       (''reason_code'', opt_str reason)] now) (\<lambda>_.
            bind_s (if truthy (diff_get d ''auto_suspend'')
                    then emit en ''fraud.alert'' mid
                           [(''mandate_id'', PStr mid), (''kind'', PStr ''escalation_flood'')] now
                    else return_s ()) (\<lambda>_.
            return_s (mk_result d pid ''rejected'' None)))))))
           (\<lambda>_. bind_s (update_purchase en pid (set_rejected (Some (reason_str MANDATE_SUSPENDED)))) (\<lambda>_.
                 return_s (suspended_result pid ''rejected'' None))))"

definition svc_escalated ::
  "service_env \<Rightarrow> string \<Rightarrow> purchase_intent src \<Rightarrow> offer src \<Rightarrow> string \<Rightarrow> decision \<Rightarrow> instant
   \<Rightarrow> verification_result svc" where
  "svc_escalated en mid i off pid d now =
     bind_s (lift_res (create_escalation (en_escalation_uuid en) pid mid i off d now)) (\<lambda>esc.
     (let reason = map_option reason_str (d_reason_code d);
          eid = er_escalation_id esc
      in try_s
           (bind_s (observe_intent mid i now) (\<lambda>_.
            bind_s (observe_escalation mid now d) (\<lambda>_.
            bind_s (save_purchase (new_purchase (en_wall en) pid mid (intent_jti i) ''awaiting_escalation''
                                     reason None (Some eid))) (\<lambda>_.
            bind_s (on_escalations (escalation_create esc)) (\<lambda>_.
            bind_s (emit en ''purchase.escalated'' pid
                      [(''purchase_id'', PStr pid), (''escalation_id'', PStr eid),
                       (''diff'', PDict (er_diff esc))] now) (\<lambda>_.
            bind_s (if d_requires_uv d \<or> d_reason_code d \<in> {Some STEPUP_AMOUNT_THRESHOLD, Some STEPUP_BUDGET_USAGE}
                    then emit en ''risk.stepup_required'' pid
                           [(''purchase_id'', PStr pid), (''level'', PStr (er_level esc)),
                            (''reason_code'', opt_str reason)] now
                    else return_s ()) (\<lambda>_.
            bind_s (if truthy (diff_get d ''cooldown_until'')
                    then emit en ''agent.paused_cooldown'' mid
                           [(''mandate_id'', PStr mid), (''until'', diff_get d ''cooldown_until'')] now
                    else return_s ()) (\<lambda>_.
            return_s (mk_result d pid ''awaiting_escalation'' (Some eid))))))))))
           (\<lambda>_. bind_s (update_purchase en pid (set_rejected (Some (reason_str MANDATE_SUSPENDED)))) (\<lambda>_.
                 bind_s (on_escalations (escalation_update eid
                           (\<lambda>e. e\<lparr>er_status := ''expired'', er_decision := Some (reason_str MANDATE_SUSPENDED)\<rparr>))) (\<lambda>_.
                 return_s (suspended_result pid ''rejected'' None))))))"

text \<open>The work of an approval after the reservation.\<close>

definition approve_reserved ::
  "service_env \<Rightarrow> string \<Rightarrow> purchase_intent src \<Rightarrow> string \<Rightarrow> string \<Rightarrow> instant \<Rightarrow> verification_result svc" where
  "approve_reserved en mid i pid rid now =
     bind_s (save_purchase (new_purchase (en_wall en) pid mid (intent_jti i) ''pending_capture'' None (Some rid) None)) (\<lambda>_.
     bind_s (on_velocity (increment_open_authorizations mid)) (\<lambda>_.
     bind_s (emit en ''purchase.verified'' pid
               [(''purchase_id'', PStr pid), (''reservation_id'', PStr rid)] now) (\<lambda>_.
     return_s (mk_result (approved\<lparr>d_reservation_id := Some rid\<rparr>) pid ''pending_capture'' None))))"

definition approve_compensate ::
  "service_env \<Rightarrow> string \<Rightarrow> purchase_intent src \<Rightarrow> string \<Rightarrow> string option \<Rightarrow> instant \<Rightarrow> verification_result svc" where
  "approve_compensate en mid i pid rid now =
     bind_s (case rid of
               None \<Rightarrow> return_s ()
             | Some r \<Rightarrow>
                 bind_s (svc_release mid (intent_value i ''amount'' PNone) (Some r)) (\<lambda>released.
                 if released then on_velocity (decrement_open_authorizations mid) else return_s ())) (\<lambda>_.
     svc_rejected en i mid pid (mk_decision REJECTED (Some MANDATE_SUSPENDED) None) now)"

definition svc_approved ::
  "service_env \<Rightarrow> mandate_claims src \<Rightarrow> string \<Rightarrow> purchase_intent src \<Rightarrow> string \<Rightarrow> instant
   \<Rightarrow> verification_result svc" where
  "svc_approved en m mid i pid now =
     (let budget_rejected =
            svc_rejected en i mid pid (mk_decision REJECTED (Some BUDGET_EXCEEDED) None) now
      in either_s (bind_s (observe_intent mid i now) (\<lambda>_. svc_reserve en m mid i pid))
           (\<lambda>e. if e = ReservationRejected then budget_rejected
                else approve_compensate en mid i pid None now)
           (\<lambda>rid. try_s (approve_reserved en mid i pid rid now)
                    (\<lambda>e. if e = ReservationRejected then budget_rejected
                         else approve_compensate en mid i pid (Some rid) now)))"

section \<open>Verify\<close>

definition intent_body :: "purchase_intent src \<Rightarrow> pyval" where
  "intent_body i =
     (case i of
        Val v \<Rightarrow> v
      | Obj r \<Rightarrow>
          PDict [(''jti'', PStr (pi_jti r)), (''mandate_jti'', PStr (pi_mandate_jti r)),
                 (''agent'', PStr (pi_agent r)), (''merchant_id'', PStr (pi_merchant_id r)),
                 (''offer_id'', PStr (pi_offer_id r)), (''amount'', PStr (pi_amount r)),
                 (''currency'', PStr (pi_currency r)), (''nonce'', PStr (pi_nonce r)),
                 (''iat'', pi_iat r), (''exp'', pi_exp r), (''category'', opt_str (pi_category r)),
                 (''offer_amount'', opt_str (pi_offer_amount r)), (''agent_id'', opt_str (pi_agent_id r))])"

definition svc_claim ::
  "service_env \<Rightarrow> purchase_intent src \<Rightarrow> instant \<Rightarrow> pyval \<Rightarrow> string option
   \<Rightarrow> (idempotency_record option \<times> bool) svc" where
  "svc_claim en i now request scope =
     (let jti = intent_jti i
      in if jti = [] \<or> jti = ''unknown-intent'' then return_s (None, True)
         else
           bind_s (on_idem (claim_idempotency (en_crypto en) (en_claim_uuid en) (en_wall en) jti
                     (en_secret en) (case or_str scope None of Some sc \<Rightarrow> sc | None \<Rightarrow> en_scope en)
                     (if request = PNone then intent_body i else request) (PTime (Aware now)))) (\<lambda>c.
           return_s (Some (ic_record c), ic_owns_claim c)))"

definition save_idempotency ::
  "idempotency_record option \<Rightarrow> verification_result \<Rightarrow> instant \<Rightarrow> verification_result svc" where
  "save_idempotency record result now =
     (case record of
        None \<Rightarrow> return_s result
      | Some r \<Rightarrow>
          if ir_response r \<noteq> None then return_s result
          else bind_s (on_idem (idem_save_response (ir_key r) (as_dict result) now)) (\<lambda>_. return_s result))"

text \<open>The local function \<^verbatim>\<open>finish\<close> of \<^verbatim>\<open>verify\<close>.\<close>

definition finish ::
  "idempotency_record option \<Rightarrow> instant \<Rightarrow> verification_result \<Rightarrow> verification_result svc" where
  "finish record now result =
     try_s (save_idempotency record result now)
       (\<lambda>_. return_s (suspended_result (vr_purchase_id result) ''rejected'' (vr_escalation_id result)))"

definition result_for_existing_purchase :: "purchase_record \<Rightarrow> service_state \<Rightarrow> verification_result res" where
  "result_for_existing_purchase p s =
     (let reason = (case or_str (pr_reason_code p) None of
                      None \<Rightarrow> None
                    | Some c \<Rightarrow> (case reason_of (PStr c) of Inr r \<Rightarrow> Some r | Inl _ \<Rightarrow> Some MANDATE_SUSPENDED))
      in if pr_status p = ''pending_capture''
         then Inr (mk_result (approved\<lparr>d_reservation_id := pr_reservation_id p\<rparr>) (pr_purchase_id p) (pr_status p) None)
         else if pr_status p = ''awaiting_escalation''
         then
           (let esc = (case or_str (pr_escalation_id p) None of
                         None \<Rightarrow> None | Some eid \<Rightarrow> dict_get (ss_escalations s) eid)
            in bind_res
                 (Decision (PStr ''ESCALATED'') (opt_str (map_option reason_str reason)) None
                    (map_option er_diff esc)
                    (case esc of None \<Rightarrow> PNone | Some e \<Rightarrow> PStr (er_level e))
                    (case esc of None \<Rightarrow> None | Some e \<Rightarrow> int_of (dict_get_or (er_diff e) ''ttl_seconds'' PNone))
                    (case esc of None \<Rightarrow> False | Some e \<Rightarrow> truthy (dict_get_or (er_diff e) ''requires_uv'' PNone)))
                 (\<lambda>d. Inr (mk_result d (pr_purchase_id p) (pr_status p) (pr_escalation_id p))))
         else
           Inr (mk_result (mk_decision REJECTED (Some (case reason of None \<Rightarrow> MANDATE_SUSPENDED | Some r \<Rightarrow> r)) None)
                  (pr_purchase_id p) (pr_status p) None))"

text \<open>What \<^verbatim>\<open>verify\<close> does with a loaded mandate and offer: gate, then one side-effect branch.\<close>

definition verify_gated ::
  "service_env \<Rightarrow> purchase_intent src \<Rightarrow> mandate_claims src \<Rightarrow> offer src \<Rightarrow> string \<Rightarrow> string \<Rightarrow> instant
   \<Rightarrow> verification_result svc" where
  "verify_gated en i m off mid pid now =
     either_s (bind_s (spend mid m now) (\<lambda>sv. lift_res (svc_evaluate (en_gate en) m i sv now off False)))
       (\<lambda>_. svc_rejected en i mid pid (mk_decision REJECTED (Some MANDATE_SUSPENDED) None) now)
       (\<lambda>d. if is_rejected d then svc_rejected en i mid pid d now
            else if is_escalated d then svc_escalated en mid i off pid d now
            else svc_approved en m mid i pid now)"

definition verify_new ::
  "service_env \<Rightarrow> purchase_intent src \<Rightarrow> mandate_claims src option \<Rightarrow> string \<Rightarrow> instant \<Rightarrow> verification_result svc" where
  "verify_new en i mandate pid now =
     (let mandate_jti = py_str (intent_value i ''mandate_jti'' (PStr ''''))
      in bind_s (get_s (\<lambda>s. case mandate of
                          Some m \<Rightarrow> if src_truthy m then Some m else read_mandate mandate_jti s
                        | None \<Rightarrow> read_mandate mandate_jti s)) (\<lambda>loaded.
         (let mid = mandate_id_of (case loaded of Some m \<Rightarrow> m | None \<Rightarrow> Val PNone) mandate_jti
          in case loaded of
               None \<Rightarrow> svc_rejected en i mid pid (mk_decision REJECTED (Some MANDATE_SUSPENDED) None) now
             | Some m \<Rightarrow>
                 bind_s (get_s (read_offer (py_str (intent_value i ''offer_id'' (PStr ''''))))) (\<lambda>resolved.
                 case resolved of
                   None \<Rightarrow> svc_rejected en i mid pid (mk_decision REJECTED (Some CONDITION_FAILED) None) now
                 | Some off \<Rightarrow> verify_gated en i m off mid pid now))))"

definition verify ::
  "service_env \<Rightarrow> purchase_intent src \<Rightarrow> dtime \<Rightarrow> mandate_claims src option \<Rightarrow> string option \<Rightarrow> pyval
   \<Rightarrow> string option \<Rightarrow> verification_result svc" where
  "verify en i now mandate purchase_id request scope =
     (let pid = (case or_str purchase_id None of Some p \<Rightarrow> p | None \<Rightarrow> ''purchase-'' @ intent_jti i)
      in case now of
           Naive _ \<Rightarrow> return_s (suspended_result pid ''rejected'' None)
         | Aware current \<Rightarrow>
             either_s (svc_claim en i current request scope)
               (\<lambda>e. if e = IdempotencyConflict then raise_s e
                    else return_s (suspended_result pid ''rejected'' None))
               (\<lambda>(record, owns).
                  case Option.bind record ir_response of
                    Some response \<Rightarrow> return_s (result_from_idempotency response pid)
                  | None \<Rightarrow>
                      if record \<noteq> None \<and> \<not> owns
                      then return_s (mk_result (mk_decision REJECTED (Some RAIL_ERROR) None) pid ''rejected'' None)
                      else
                        bind_s (get_s (\<lambda>s. purchase_by_intent (ss_purchases s) (intent_jti i))) (\<lambda>existing.
                        case existing of
                          Some p \<Rightarrow> bind_s (bind_s (get_s (result_for_existing_purchase p)) lift_res) (finish record current)
                        | None \<Rightarrow> bind_s (verify_new en i mandate pid current) (finish record current))))"

section \<open>Resolving an escalated purchase\<close>

text \<open>
  \<^verbatim>\<open>_expire_and_compensate\<close>. The first part returns whether a reservation was released and which
  identifier was used, since the handler of the second part depends on both.
\<close>

definition release_and_close ::
  "string \<Rightarrow> pyval \<Rightarrow> string \<Rightarrow> bool svc" where
  "release_and_close mid amount rid =
     bind_s (svc_release mid amount (Some rid)) (\<lambda>released.
     bind_s (if released then on_velocity (decrement_open_authorizations mid) else return_s ()) (\<lambda>_.
     return_s released))"

definition expire_records ::
  "service_env \<Rightarrow> escalation_record \<Rightarrow> instant \<Rightarrow> reason_code \<Rightarrow> string option \<Rightarrow> bool \<Rightarrow> unit svc" where
  "expire_records en r now reason release_id released =
     bind_s (on_escalations (escalation_update (er_escalation_id r)
               (\<lambda>e. e\<lparr>er_status := ''expired'', er_decision := Some (reason_str reason)\<rparr>))) (\<lambda>_.
     bind_s (update_purchase en (er_purchase_id r)
               (\<lambda>p. p\<lparr>pr_status := ''compensated'', pr_reason_code := Some (reason_str reason),
                      pr_reservation_id := (if released then None else release_id)\<rparr>)) (\<lambda>_.
     emit en ''escalation.expired'' (er_escalation_id r)
       [(''escalation_id'', PStr (er_escalation_id r)), (''purchase_id'', PStr (er_purchase_id r))] now))"

definition expire_and_compensate ::
  "service_env \<Rightarrow> escalation_record \<Rightarrow> instant \<Rightarrow> reason_code \<Rightarrow> string option \<Rightarrow> verification_result svc" where
  "expire_and_compensate en r now reason reservation_id =
     bind_s (get_s (\<lambda>s. case dict_get (ss_purchases s) (er_purchase_id r) of
                          Some p \<Rightarrow> (case or_str (pr_reservation_id p) None of Some x \<Rightarrow> Some x | None \<Rightarrow> reservation_id)
                        | None \<Rightarrow> reservation_id)) (\<lambda>release_id.
     (let amount = intent_value (er_intent r) ''amount'' PNone;
          failed = suspended_result (er_purchase_id r) ''compensated'' (Some (er_escalation_id r));
          retry = (\<lambda>released. case release_id of
                     None \<Rightarrow> return_s failed
                   | Some rid \<Rightarrow> if released then return_s failed
                                 else bind_s (try_s (release_and_close (er_mandate_id r) amount rid)
                                                (\<lambda>_. return_s False)) (\<lambda>_. return_s failed))
      in either_s (case release_id of
                     None \<Rightarrow> return_s False
                   | Some rid \<Rightarrow> svc_release (er_mandate_id r) amount (Some rid))
           (\<lambda>_. retry False)
           (\<lambda>released.
              try_s
                (bind_s (if released then on_velocity (decrement_open_authorizations (er_mandate_id r)) else return_s ()) (\<lambda>_.
                 bind_s (expire_records en r now reason release_id released) (\<lambda>_.
                 return_s (mk_result (mk_decision REJECTED (Some reason) None) (er_purchase_id r) ''compensated''
                             (Some (er_escalation_id (mark_expired r)))))))
                (\<lambda>_. retry released))))"

text \<open>The work of a resolution after the reservation.\<close>

definition resolve_reserved ::
  "service_env \<Rightarrow> string \<Rightarrow> escalation_record \<Rightarrow> string \<Rightarrow> instant \<Rightarrow> verification_result svc" where
  "resolve_reserved en eid r rid now =
     bind_s (on_escalations (escalation_update eid
               (\<lambda>e. e\<lparr>er_status := ''resolved'', er_decision := Some ''APPROVE''\<rparr>))) (\<lambda>_.
     bind_s (update_purchase en (er_purchase_id r)
               (\<lambda>p. p\<lparr>pr_status := ''pending_capture'', pr_reservation_id := Some rid, pr_reason_code := None\<rparr>)) (\<lambda>_.
     bind_s (on_velocity (increment_open_authorizations (er_mandate_id r))) (\<lambda>_.
     bind_s (emit en ''escalation.resolved'' eid
               [(''escalation_id'', PStr eid), (''decision'', PStr ''APPROVE'')] now) (\<lambda>_.
     bind_s (emit en ''purchase.verified'' (er_purchase_id r)
               [(''purchase_id'', PStr (er_purchase_id r)), (''reservation_id'', PStr rid)] now) (\<lambda>_.
     return_s (mk_result (approved\<lparr>d_reservation_id := Some rid\<rparr>) (er_purchase_id r) ''pending_capture'' (Some eid)))))))"

definition resolve_gated ::
  "service_env \<Rightarrow> string \<Rightarrow> escalation_record \<Rightarrow> mandate_claims src \<Rightarrow> offer src \<Rightarrow> instant \<Rightarrow> verification_result svc" where
  "resolve_gated en eid r m off now =
     either_s (bind_s (spend (er_mandate_id r) m now)
                 (\<lambda>sv. lift_res (svc_evaluate (en_gate en) m (er_intent r) sv now off True)))
       (\<lambda>_. expire_and_compensate en r now MANDATE_SUSPENDED None)
       (\<lambda>d. if \<not> is_approved d
            then expire_and_compensate en r now
                   (case d_reason_code d of Some x \<Rightarrow> x | None \<Rightarrow> ESCALATION_TIMEOUT_DENIED) None
            else
              either_s (svc_reserve en m (er_mandate_id r) (er_intent r) (er_purchase_id r))
                (\<lambda>_. expire_and_compensate en r now MANDATE_SUSPENDED None)
                (\<lambda>rid. try_s (resolve_reserved en eid r rid now)
                         (\<lambda>_. expire_and_compensate en r now MANDATE_SUSPENDED (Some rid))))"

definition svc_resolve_escalation ::
  "service_env \<Rightarrow> string \<Rightarrow> pyval \<Rightarrow> dtime \<Rightarrow> pyval \<Rightarrow> verification_result svc" where
  "svc_resolve_escalation en eid approval now assertion =
     (case now of
        Naive _ \<Rightarrow> raise_s ValueError
      | Aware current \<Rightarrow>
          bind_s (get_s (\<lambda>s. dict_get (ss_escalations s) eid)) (\<lambda>found.
          case found of
            None \<Rightarrow> return_s (mk_result (mk_decision REJECTED (Some ESCALATION_TIMEOUT_DENIED) None)
                                (''purchase-'' @ eid) ''rejected'' (Some eid))
          | Some r \<Rightarrow>
              if er_status r \<noteq> ''pending''
              then bind_s (get_s (\<lambda>s. dict_get (ss_purchases s) (er_purchase_id r))) (\<lambda>existing.
                   case existing of
                     Some p \<Rightarrow> bind_s (get_s (result_for_existing_purchase p)) lift_res
                   | None \<Rightarrow> return_s (mk_result (mk_decision REJECTED (Some ESCALATION_TIMEOUT_DENIED) None)
                                         (er_purchase_id r) ''rejected'' (Some eid)))
              else if er_timeout_at r \<le> current
              then expire_and_compensate en r current ESCALATION_TIMEOUT_DENIED None
              else
                bind_s (lift_res (resolve_envelope en r current approval assertion None)) (\<lambda>env.
                if is_rejected env then expire_and_compensate en r current ESCALATION_TIMEOUT_DENIED None
                else
                  bind_s (get_s (\<lambda>s.
                      let m1 = read_mandate (er_mandate_id r) s;
                          m2 = read_mandate (py_str (intent_value (er_intent r) ''mandate_jti'' (PStr (er_mandate_id r)))) s
                      in case m1 of Some m \<Rightarrow> if src_truthy m then Some m else m2 | None \<Rightarrow> m2)) (\<lambda>loaded.
                  case loaded of
                    None \<Rightarrow> expire_and_compensate en r current MANDATE_SUSPENDED None
                  | Some m \<Rightarrow>
                      bind_s (get_s (read_offer (py_str (intent_value (er_intent r) ''offer_id'' (PStr ''''))))) (\<lambda>resolved.
                      case resolved of
                        None \<Rightarrow> expire_and_compensate en r current CONDITION_FAILED None
                      | Some off \<Rightarrow> resolve_gated en eid r m off current)))))"

end
