(* ===== verification/Service_Props.thy ===== *)
theory Service_Props
  imports Decision_Service
begin

text \<open>
  What the decision service guarantees, whatever its inputs: the reserved budget stays within every
  mandate's total, an approval leaves a reservation, a purchase and an event behind, the service
  fails closed when the outbox is unavailable, late or unverified escalations are not approved, and
  a stored response is replayed as it was.
\<close>

section \<open>Invariants of the reservation store through the service\<close>

text \<open>
  The service touches the reservation store only through \<^const>\<open>reserve\<close> and \<^const>\<open>release\<close>. A property
  of the store that both keep is kept by every operation of the service, on every path through its
  exception handlers.
\<close>

lemmas keeps_intros = keeps_bind keeps_try keeps_either keeps_retry keeps_if keeps_option keeps_return
  keeps_raise keeps_lift keeps_get

locale reservation_invariant =
  fixes P :: "reservation_store \<Rightarrow> bool"
  assumes reserve_keeps: "keeps P (reserve uuid mid amount tb mt rid key)"
    and release_keeps: "keeps P (release mid amount rid)"
begin

definition holds :: "service_state \<Rightarrow> bool" where
  "holds s \<longleftrightarrow> P (ss_reservations s)"

lemma frame:
  "keeps holds (on_velocity v)" "keeps holds (on_purchases p)"
  "keeps holds (on_escalations e)" "keeps holds (on_outbox o')" "keeps holds (on_idem m)"
  by (auto simp: keeps_def holds_def on_velocity_def on_purchases_def on_escalations_def
      on_outbox_def on_idem_def split: prod.splits)

lemma on_store: "keeps P m \<Longrightarrow> keeps holds (on_reservations m)"
  by (auto simp: keeps_def holds_def on_reservations_def split: prod.splits)

lemma effects:
  "keeps holds (emit en ty agg payload now)" "keeps holds (update_purchase en pid f)"
  "keeps holds (save_purchase q)" "keeps holds (observe_intent mid i now)"
  "keeps holds (observe_escalation mid now d)" "keeps holds (svc_release mid a rid)"
  "keeps holds (svc_reserve en m mid i pid)" "keeps holds (spend mid m t)"
  unfolding emit_def update_purchase_def save_purchase_def observe_intent_def observe_escalation_def
    svc_release_def svc_reserve_def spend_def Let_def
  by (intro keeps_intros frame on_store reserve_keeps release_keeps)+

lemma rejected_keeps: "keeps holds (svc_rejected en i mid pid d now)"
  unfolding svc_rejected_def Let_def by (intro keeps_intros effects)

lemma escalated_keeps: "keeps holds (svc_escalated en mid i off pid d now)"
  unfolding svc_escalated_def Let_def by (intro keeps_intros effects frame)

lemma approved_keeps: "keeps holds (svc_approved en m mid i pid now)"
  unfolding svc_approved_def approve_reserved_def approve_compensate_def Let_def
  by (intro keeps_intros effects frame rejected_keeps)

lemma expire_keeps: "keeps holds (expire_and_compensate en r now reason rid)"
  unfolding expire_and_compensate_def release_and_close_def expire_records_def Let_def
  by (intro keeps_intros effects frame)

lemma verify_keeps: "keeps holds (verify en i now mandate pid request scope)"
  unfolding verify_def verify_new_def verify_gated_def finish_def save_idempotency_def svc_claim_def Let_def
  by (cases now)
     (auto intro!: keeps_intros effects frame rejected_keeps escalated_keeps approved_keeps split: prod.splits)

lemma resolve_keeps: "keeps holds (svc_resolve_escalation en eid approval now assertion)"
  unfolding svc_resolve_escalation_def resolve_gated_def resolve_reserved_def Let_def
  by (cases now) (auto intro!: keeps_intros effects frame expire_keeps)

end

interpretation rows_inv: reservation_invariant rows_ok
  by unfold_locales (rule reserve_rows_ok, rule release_rows_ok)

interpretation run_inv: reservation_invariant "\<lambda>t. rv_step\<^sup>*\<^sup>* r t" for r
  by unfold_locales (auto simp: keeps_def intro: rtranclp.rtrancl_into_rtrancl do_reserve do_release)

text \<open>Runs of the service: any sequence of calls, with any environments and arguments.\<close>

inductive svc_step :: "service_state \<Rightarrow> service_state \<Rightarrow> bool" where
  do_verify: "svc_step s (snd (verify en i now mandate pid request scope s))"
| do_resolve: "svc_step s (snd (svc_resolve_escalation en eid approval now assertion s))"

lemma svc_step_rows_ok: "svc_step s s' \<Longrightarrow> rows_ok (ss_reservations s) \<Longrightarrow> rows_ok (ss_reservations s')"
  using rows_inv.verify_keeps rows_inv.resolve_keeps
  by (auto elim!: svc_step.cases simp: keeps_def rows_inv.holds_def)

lemma svc_step_run: "svc_step s s' \<Longrightarrow> rv_step\<^sup>*\<^sup>* (ss_reservations s) (ss_reservations s')"
  using run_inv.verify_keeps [of "ss_reservations s"] run_inv.resolve_keeps [of "ss_reservations s"]
  by (auto elim!: svc_step.cases simp: keeps_def run_inv.holds_def)

interpretation svc_ledger: budget_ledger "\<lambda>s. rows_ok (ss_reservations s)"
  "\<lambda>s. rv_known (ss_reservations s)" "\<lambda>s. rv_committed (ss_reservations s)"
  "\<lambda>s. rv_budget (ss_reservations s)" svc_step
proof
  fix s s' m
  assume "rows_ok (ss_reservations s)" "svc_step s s'" "rv_known (ss_reservations s) m"
  with mem_ledger.run_within_budget [OF svc_step_run]
  show "rv_known (ss_reservations s') m \<and> rv_budget (ss_reservations s') m = rv_budget (ss_reservations s) m"
    by blast
qed (auto intro: mem_ledger.ok_within svc_step_rows_ok)

text \<open>
  C1: no sequence of calls to the decision service, verifications and resolutions in any order and
  with any input, commits more budget than a mandate has: spent and reserved amounts stay within the
  total budget of every mandate that the reservation store knows, also after every failure path.
\<close>

theorem service_never_exceeds_budget:
  assumes "svc_step\<^sup>*\<^sup>* s s'" "rows_ok (ss_reservations s)" "rv_known (ss_reservations s) m"
  shows "rv_budget (ss_reservations s') m = rv_budget (ss_reservations s) m
    \<and> rv_committed (ss_reservations s') m \<le> rv_budget (ss_reservations s) m"
  using svc_ledger.run_within_budget [OF assms] by simp

section \<open>What an approval leaves behind\<close>

lemma bind_s_Inr: "bind_s m f s = (Inr y, s') \<Longrightarrow> \<exists>x t. m s = (Inr x, t) \<and> f x t = (Inr y, s')"
  by (auto simp: bind_s_def split: prod.splits sum.splits)

lemma retry_s_Inr: "retry_s m n s = (Inr y, s') \<Longrightarrow> m s = (Inr y, s') \<or> (\<exists>t. n t = (Inr y, s'))"
  by (auto simp: retry_s_def either_s_def sres_defs split: prod.splits sum.splits if_splits)

lemma either_s_Inr:
  "either_s m h k s = (Inr y, s') \<Longrightarrow>
   (\<exists>e t. m s = (Inl e, t) \<and> h e t = (Inr y, s')) \<or> (\<exists>x t. m s = (Inr x, t) \<and> k x t = (Inr y, s'))"
  by (auto simp: either_s_def split: prod.splits sum.splits)

lemma try_s_Inr:
  "try_s m h s = (Inr y, s') \<Longrightarrow> m s = (Inr y, s') \<or> (\<exists>e t. m s = (Inl e, t) \<and> h e t = (Inr y, s'))"
  by (auto simp: try_s_def split: prod.splits sum.splits)

lemma on_reservations_eq:
  "on_reservations m s = (r, s') \<Longrightarrow>
   m (ss_reservations s) = (r, ss_reservations s') \<and> s' = s\<lparr>ss_reservations := ss_reservations s'\<rparr>"
  by (auto simp: on_reservations_def split: prod.splits)

lemma reserve_Some:
  assumes "reserve uuid mid amount tb mt rid key s = (Inr (Some r), s')"
  shows "\<exists>a. amount_decimal amount = Inr a \<and> dict_get (rv_reservations s') r = Some (mid, a)"
proof -
  from assms obtain a b where ab: "amount_decimal amount = Inr a" "amount_decimal tb = Inr b"
    by (auto simp: reserve_def bind_res_def split: sum.splits)
  have row: "dict_get (rv_reservations s') r = Some (mid, a)"
    if "reserve_row uuid mid a b mt rid key s = (Inr (Some r), s')"
    using that
    by (auto simp: reserve_row_def Let_def add_reservation_def
        split: if_splits sum.splits ordering.splits option.splits)
  show ?thesis
    using assms ab row by (auto simp: reserve_def split: option.splits if_splits)
qed

lemma svc_reserve_Inr:
  assumes "svc_reserve en m mid i pid s = (Inr rid, s')"
  shows "\<exists>a. amount_decimal (intent_value i ''amount'' PNone) = Inr a
     \<and> dict_get (rv_reservations (ss_reservations s')) rid = Some (mid, a)"
proof -
  let ?call = "\<lambda>mt rid key. on_reservations (reserve (en_reservation_uuid en) mid
      (intent_value i ''amount'' PNone) (reserve_budget m) mt rid key)"
  from assms obtain res t where
    t: "retry_s (?call (reserve_max_txn m) (Some (''reservation:'' @ pid)) (Some pid))
          (retry_s (?call (reserve_max_txn m) (Some (''reservation:'' @ pid)) None) (?call PNone None None)) s
        = (Inr res, t)"
    and res: "(case res of None \<Rightarrow> raise_s ReservationRejected
              | Some r \<Rightarrow> if r = [] then raise_s ReservationRejected else return_s r) t = (Inr rid, s')"
    using bind_s_Inr [OF assms [unfolded svc_reserve_def Let_def]] by blast
  from res have "res = Some rid" "t = s'"
    by (auto simp: sres_defs split: option.splits if_splits)
  with t have "\<exists>mt r k u. ?call mt r k u = (Inr (Some rid), s')"
    by (auto dest!: retry_s_Inr)
  then obtain mt r k u where "?call mt r k u = (Inr (Some rid), s')" by blast
  from on_reservations_eq [OF this] show ?thesis by (blast intro: reserve_Some)
qed

text \<open>Writing an event changes nothing but the outbox, and needs it to be available.\<close>

definition has_event :: "string \<Rightarrow> string \<Rightarrow> service_state \<Rightarrow> bool" where
  "has_event ty agg s \<longleftrightarrow>
     (\<exists>ev\<in>set (ob_events (ss_outbox s)). \<exists>digest. oe_event_id ev = ty @ '':'' @ agg @ '':'' @ digest)"

lemma emit_Inr:
  assumes "emit en ty agg payload now s = (Inr x, s')"
  shows "\<not> ob_fail (ss_outbox s) \<and> has_event ty agg s' \<and> ss_purchases s' = ss_purchases s
     \<and> ss_reservations s' = ss_reservations s \<and> ob_fail (ss_outbox s') = ob_fail (ss_outbox s)"
proof -
  from assms obtain ev where ev: "new_event (en_crypto en) ty agg payload now = Inr ev"
    and app: "on_outbox (outbox_append ev) s = (Inr x, s')"
    unfolding emit_def by (auto dest!: bind_s_Inr simp: sres_defs)
  from ev obtain digest where "oe_event_id ev = ty @ '':'' @ agg @ '':'' @ digest"
    by (auto simp: new_event_def bind_res_Inr_iff)
  moreover have "oe_event_id ev \<in> oe_event_id ` set (ob_events (ss_outbox s'))"
    using app by (intro outbox_append_ok [of ev "ss_outbox s"]) (auto simp: on_outbox_def split: prod.splits)
  moreover from app have "\<not> ob_fail (ss_outbox s)" "ss_purchases s' = ss_purchases s" "ss_reservations s' = ss_reservations s"
    "ob_fail (ss_outbox s') = ob_fail (ss_outbox s)"
    by (auto simp: on_outbox_def outbox_append_def split: if_splits prod.splits)
  ultimately show ?thesis unfolding has_event_def by (auto simp: image_iff) metis
qed

lemma save_purchase_Inr:
  assumes "save_purchase q s = (Inr x, s')"
  shows "(dict_get (ss_purchases s) (pr_purchase_id q) = None \<longrightarrow>
            dict_get (ss_purchases s') (pr_purchase_id q) = Some q)
     \<and> ss_reservations s' = ss_reservations s \<and> ss_outbox s' = ss_outbox s"
  using assms by (auto simp: save_purchase_def on_purchases_def purchase_create_def split: option.splits)

lemma approve_reserved_Inr:
  assumes "approve_reserved en mid i pid rid now s = (Inr r, s')"
  shows "r = mk_result (approved\<lparr>d_reservation_id := Some rid\<rparr>) pid ''pending_capture'' None
     \<and> \<not> ob_fail (ss_outbox s) \<and> has_event ''purchase.verified'' pid s'
     \<and> ss_reservations s' = ss_reservations s
     \<and> (dict_get (ss_purchases s) pid = None \<longrightarrow>
          dict_get (ss_purchases s') pid =
            Some (new_purchase (en_wall en) pid mid (intent_jti i) ''pending_capture'' None (Some rid) None))"
proof -
  from assms obtain q t1 x1 t2 x2 where
    1: "save_purchase (new_purchase (en_wall en) pid mid (intent_jti i) ''pending_capture'' None (Some rid) None) s = (Inr q, t1)"
    and 2: "on_velocity (increment_open_authorizations mid) t1 = (Inr x1, t2)"
    and 3: "emit en ''purchase.verified'' pid [(''purchase_id'', PStr pid), (''reservation_id'', PStr rid)] now t2 = (Inr x2, s')"
    and r: "r = mk_result (approved\<lparr>d_reservation_id := Some rid\<rparr>) pid ''pending_capture'' None"
    unfolding approve_reserved_def by (auto dest!: bind_s_Inr simp: sres_defs)
  from 2 have "ss_purchases t2 = ss_purchases t1" "ss_reservations t2 = ss_reservations t1" "ss_outbox t2 = ss_outbox t1"
    by (auto simp: on_velocity_def increment_open_authorizations_def)
  with r save_purchase_Inr [OF 1] emit_Inr [OF 3] show ?thesis
    by (simp add: new_purchase_def)
qed

text \<open>The branches that reject never return an approval, and always return.\<close>

lemma svc_rejected_result:
  "\<exists>r s'. svc_rejected en i mid pid d now s = (Inr r, s') \<and> vr_purchase_id r = pid
     \<and> (vr_decision r = d \<or> vr_decision r = mk_decision REJECTED (Some MANDATE_SUSPENDED) None)"
proof -
  have handler: "\<exists>r s'. bind_s (update_purchase en pid f) (\<lambda>_. return_s (suspended_result pid ''rejected'' None)) t
      = (Inr r, s') \<and> r = suspended_result pid ''rejected'' None" for f t
    by (auto simp: bind_s_def update_purchase_def on_purchases_def purchase_update_def sres_defs Let_def
        split: option.splits)
  have body: "r = mk_result d pid ''rejected'' None"
    if "bind_s m1 (\<lambda>_. bind_s m2 (\<lambda>u. bind_s (m3 u) (\<lambda>_. bind_s m4 (\<lambda>_. bind_s m5 (\<lambda>_.
          return_s (mk_result d pid ''rejected'' None)))))) s = (Inr r, s')"
    for m1 m2 m3 m4 m5 r s'
    using that by (auto dest!: bind_s_Inr simp: sres_defs)
  show ?thesis
    unfolding svc_rejected_def Let_def
    using handler body
    by (simp add: try_s_def suspended_result_def split: prod.splits sum.splits) fastforce
qed

lemma svc_rejected_not_approved:
  "svc_rejected en i mid pid d now s = (Inr r, s') \<Longrightarrow> \<not> is_approved d \<Longrightarrow> \<not> is_approved (vr_decision r)"
  using svc_rejected_result [of en i mid pid d now s] by (auto simp: is_approved_def)

text \<open>The purchases are not touched before an approval has its reservation.\<close>

lemma keeps_purchases:
  "keeps (\<lambda>s. ss_purchases s = q) (on_velocity v)" "keeps (\<lambda>s. ss_purchases s = q) (on_reservations r)"
  "keeps (\<lambda>s. ss_purchases s = q) (on_idem j)"
  by (auto simp: keeps_def on_velocity_def on_reservations_def on_idem_def split: prod.splits)

lemma reserve_first_purchases:
  "keeps (\<lambda>s. ss_purchases s = q) (bind_s (observe_intent mid i now) (\<lambda>_. svc_reserve en m mid i pid))"
  "keeps (\<lambda>s. ss_purchases s = q) (bind_s (spend mid m now) (\<lambda>sv. lift_res (f sv)))"
  "keeps (\<lambda>s. ss_purchases s = q) (svc_claim en i now request scope)"
  unfolding observe_intent_def svc_reserve_def spend_def svc_claim_def Let_def
  by (intro keeps_intros keeps_purchases)+

definition approval_recorded ::
  "service_env \<Rightarrow> purchase_intent src \<Rightarrow> string \<Rightarrow> string \<Rightarrow> verification_result \<Rightarrow> service_state \<Rightarrow> bool" where
  "approval_recorded en i mid pid r s' \<longleftrightarrow>
     (\<exists>rid a. r = mk_result (approved\<lparr>d_reservation_id := Some rid\<rparr>) pid ''pending_capture'' None
        \<and> amount_decimal (intent_value i ''amount'' PNone) = Inr a
        \<and> dict_get (rv_reservations (ss_reservations s')) rid = Some (mid, a)
        \<and> dict_get (ss_purchases s') pid =
            Some (new_purchase (en_wall en) pid mid (intent_jti i) ''pending_capture'' None (Some rid) None)
        \<and> has_event ''purchase.verified'' pid s')"

lemma svc_approved_recorded:
  assumes run: "svc_approved en m mid i pid now s = (Inr r, s')" "is_approved (vr_decision r)"
    and new: "dict_get (ss_purchases s) pid = None"
  shows "approval_recorded en i mid pid r s'"
proof -
  have comp: "\<not> is_approved (vr_decision r)"
    if "approve_compensate en mid i pid x now t = (Inr r, s')" for x t
    using that unfolding approve_compensate_def
    by (auto dest!: bind_s_Inr elim!: svc_rejected_not_approved [THEN notE, rotated 2])
       (auto simp: is_approved_def)
  have budget: "\<not> is_approved (vr_decision r)"
    if "svc_rejected en i mid pid (mk_decision REJECTED (Some BUDGET_EXCEEDED) None) now t = (Inr r, s')" for t
    using svc_rejected_not_approved [OF that] by (simp add: is_approved_def)
  from run comp budget obtain rid t where
    t: "bind_s (observe_intent mid i now) (\<lambda>_. svc_reserve en m mid i pid) s = (Inr rid, t)"
    and a: "approve_reserved en mid i pid rid now t = (Inr r, s')"
    unfolding svc_approved_def Let_def
    by (auto dest!: either_s_Inr try_s_Inr split: if_splits) blast+
  have "dict_get (ss_purchases t) pid = None"
    using keepsD [OF reserve_first_purchases(1) _ t, of "ss_purchases s"] new by simp
  moreover from t obtain u where "svc_reserve en m mid i pid u = (Inr rid, t)"
    by (auto dest!: bind_s_Inr)
  ultimately show ?thesis
    using approve_reserved_Inr [OF a] svc_reserve_Inr unfolding approval_recorded_def by metis
qed

lemma svc_escalated_not_approved:
  assumes "svc_escalated en mid i off pid d now s = (Inr r, s')" "\<not> is_approved d"
  shows "\<not> is_approved (vr_decision r)"
proof -
  have "vr_decision r = d \<or> vr_decision r = mk_decision REJECTED (Some MANDATE_SUSPENDED) None"
    using assms(1) unfolding svc_escalated_def Let_def
    by (auto dest!: bind_s_Inr try_s_Inr simp: sres_defs suspended_result_def)
  with assms(2) show ?thesis by (auto simp: is_approved_def)
qed

lemma verify_gated_recorded:
  assumes run: "verify_gated en i m off mid pid now s = (Inr r, s')" "is_approved (vr_decision r)"
    and new: "dict_get (ss_purchases s) pid = None"
  shows "(\<exists>sv d. svc_evaluate (en_gate en) m i sv now off False = Inr d \<and> is_approved d)
     \<and> approval_recorded en i mid pid r s'"
proof -
  let ?m = "bind_s (spend mid m now) (\<lambda>sv. lift_res (svc_evaluate (en_gate en) m i sv now off False))"
  have "\<not> is_approved (mk_decision REJECTED (Some MANDATE_SUSPENDED) None)" by (simp add: is_approved_def)
  note no = svc_rejected_not_approved [OF _ this] svc_rejected_not_approved svc_escalated_not_approved
  from run no obtain d t where t: "?m s = (Inr d, t)" and d: "\<not> is_rejected d" "\<not> is_escalated d"
    and a: "svc_approved en m mid i pid now t = (Inr r, s')"
    unfolding verify_gated_def
    by (auto dest!: either_s_Inr simp: is_rejected_def is_escalated_def is_approved_def split: if_splits)
  from t obtain sv u where "svc_evaluate (en_gate en) m i sv now off False = Inr d"
    by (auto dest!: bind_s_Inr simp: lift_res_def)
  moreover have "is_approved d"
    using d by (cases "d_decision d") (auto simp: is_rejected_def is_escalated_def is_approved_def)
  moreover have "dict_get (ss_purchases t) pid = None"
    using keepsD [OF reserve_first_purchases(2) _ t, of "ss_purchases s"] new by simp
  ultimately show ?thesis using svc_approved_recorded [OF a run(2)] by blast
qed

lemma verify_new_recorded:
  assumes run: "verify_new en i mandate pid now s = (Inr r, s')" "is_approved (vr_decision r)"
    and new: "dict_get (ss_purchases s) pid = None"
  shows "\<exists>m off sv d mid.
      (mandate = Some m \<or> read_mandate (py_str (intent_value i ''mandate_jti'' (PStr ''''))) s = Some m)
    \<and> mid = mandate_id_of m (py_str (intent_value i ''mandate_jti'' (PStr '''')))
    \<and> read_offer (py_str (intent_value i ''offer_id'' (PStr ''''))) s = Some off
    \<and> svc_evaluate (en_gate en) m i sv now off False = Inr d \<and> is_approved d
    \<and> approval_recorded en i mid pid r s'"
proof -
  have no: "\<not> is_approved (vr_decision r)"
    if "svc_rejected en i mid pid (mk_decision REJECTED x None) now s = (Inr r, s')" for mid x
    using svc_rejected_not_approved [OF that] by (simp add: is_approved_def)
  from run no obtain m off where
    m: "mandate = Some m \<or> read_mandate (py_str (intent_value i ''mandate_jti'' (PStr ''''))) s = Some m"
    and off: "read_offer (py_str (intent_value i ''offer_id'' (PStr ''''))) s = Some off"
    and g: "verify_gated en i m off (mandate_id_of m (py_str (intent_value i ''mandate_jti'' (PStr '''')))) pid now s
        = (Inr r, s')"
    unfolding verify_new_def Let_def
    by (auto simp: bind_s_def get_s_def split: option.splits if_splits)
  from verify_gated_recorded [OF g run(2) new] m off show ?thesis by blast
qed

text \<open>Recording the response touches only the idempotency store.\<close>

lemma finish_approved:
  assumes "finish rec now x s = (Inr r, s')" "is_approved (vr_decision r)"
  shows "r = x \<and> ss_purchases s' = ss_purchases s \<and> ss_reservations s' = ss_reservations s
     \<and> ss_outbox s' = ss_outbox s"
proof -
  from assms have "save_idempotency rec x now s = (Inr r, s')"
    unfolding finish_def by (auto dest!: try_s_Inr simp: sres_defs suspended_result_def is_approved_def)
  then show ?thesis
    by (auto simp: save_idempotency_def on_idem_def sres_defs bind_s_def
        split: option.splits if_splits sum.splits prod.splits)
qed

text \<open>
  C3: an approval is backed. When the service approves an intent that it has not seen, the gate has
  approved this intent under a known mandate for an offer of the catalogue, and the approval leaves
  a reservation of the intent's amount under that mandate, a purchase that awaits capture and names
  the reservation, and a \<open>purchase.verified\<close> event for the relay.
\<close>

theorem approved_purchase_is_backed:
  assumes claim: "svc_claim en i now request scope s = (Inr (rec, True), t)"
      "Option.bind rec ir_response = None"
    and new: "purchase_by_intent (ss_purchases s) (intent_jti i) = None"
      "dict_get (ss_purchases s) pid = None" "pid \<noteq> []"
    and run: "verify en i (Aware now) mandate (Some pid) request scope s = (Inr r, s')"
      "is_approved (vr_decision r)"
  shows "\<exists>m off sv d mid.
      (mandate = Some m \<or> read_mandate (py_str (intent_value i ''mandate_jti'' (PStr ''''))) t = Some m)
    \<and> mid = mandate_id_of m (py_str (intent_value i ''mandate_jti'' (PStr '''')))
    \<and> read_offer (py_str (intent_value i ''offer_id'' (PStr ''''))) t = Some off
    \<and> svc_evaluate (en_gate en) m i sv now off False = Inr d \<and> is_approved d
    \<and> approval_recorded en i mid pid r s'"
proof -
  have t: "ss_purchases t = ss_purchases s"
    using keepsD [OF reserve_first_purchases(3) _ claim(1), of "ss_purchases s"] by simp
  have "bind_s (verify_new en i mandate pid now) (finish rec now) t = (Inr r, s')"
    using run(1) claim new t
    by (simp add: verify_def or_str_def either_s_def get_s_def bind_s_def split: if_splits)
  then obtain x u where x: "verify_new en i mandate pid now t = (Inr x, u)" "finish rec now x u = (Inr r, s')"
    by (auto dest!: bind_s_Inr)
  from finish_approved [OF x(2) run(2)] have fin: "x = r" "ss_purchases s' = ss_purchases u"
    "ss_reservations s' = ss_reservations u" "ss_outbox s' = ss_outbox u" by auto
  then have same: "approval_recorded en i mid pid r s' \<longleftrightarrow> approval_recorded en i mid pid x u" for mid
    by (simp add: approval_recorded_def has_event_def)
  show ?thesis
    using verify_new_recorded [OF x(1)] fin(1) run(2) new(2) t unfolding same by auto
qed

section \<open>Failing closed\<close>

text \<open>What a reservation and a release do to the committed amounts.\<close>

lemma reserve_committed:
  assumes "reserve uuid mid amount tb mt rid key s = (res, s')"
  shows "(\<forall>m. rv_committed s' m = rv_committed s m)
     \<or> (\<exists>r a. res = Inr (Some r) \<and> (r = [] \<longrightarrow> uuid = []) \<and> amount_decimal amount = Inr a
          \<and> (\<forall>m. rv_committed s' m = rv_committed s m + (if m = mid then a else 0)))"
proof -
  have row: "(\<forall>m. rv_committed s' m = rv_committed s m)
     \<or> (\<exists>r. res = Inr (Some r) \<and> (r = [] \<longrightarrow> uuid = [])
          \<and> (\<forall>m. rv_committed s' m = rv_committed s m + (if m = mid then a else 0)))"
    if run: "reserve_row uuid mid a b mt rid key s = (res, s')" for a b
  proof -
    define row where "row = (case dict_get (rv_mandates s) mid of None \<Rightarrow> default_row b | Some r \<Rightarrow> r)"
    define t where "t = (case dict_get (rv_mandates s) mid of
        None \<Rightarrow> s\<lparr>rv_mandates := dict_set mid (default_row b) (rv_mandates s)\<rparr> | Some _ \<Rightarrow> s)"
    have t: "rv_committed t m = rv_committed s m" for m
      by (auto simp: t_def rv_committed_def default_row_def split: option.splits)
    have add: "rv_committed (add_reservation mid row a r key t) m = rv_committed s m + (if m = mid then a else 0)" for r m
      by (cases "dict_get (rv_mandates s) mid")
         (auto simp: t_def row_def rv_committed_def default_row_def add_reservation_def)
    from run have "s' = t \<or> (\<exists>r. res = Inr (Some r) \<and> (r = [] \<longrightarrow> uuid = []) \<and> s' = add_reservation mid row a r key t)"
      by (auto simp: reserve_row_def Let_def simp flip: row_def t_def
          split: if_splits sum.splits ordering.splits option.splits)
    with t add show ?thesis by auto
  qed
  show ?thesis
  proof (cases "amount_decimal amount")
    case (Inl e)
    with assms show ?thesis by (auto simp: reserve_def)
  next
    case (Inr a)
    with assms have "s' = s \<or> (\<exists>b. reserve_row uuid mid a b mt rid key s = (res, s'))"
      by (cases "amount_decimal tb") (auto simp: reserve_def split: option.splits)
    with row Inr show ?thesis by blast
  qed
qed

lemma svc_reserve_committed:
  assumes run: "svc_reserve en m mid i pid s = (res, s')" and "en_reservation_uuid en \<noteq> []"
  shows "(\<forall>m. rv_committed (ss_reservations s') m = rv_committed (ss_reservations s) m)
     \<or> (\<exists>rid a. res = Inr rid \<and> amount_decimal (intent_value i ''amount'' PNone) = Inr a
          \<and> (\<forall>m. rv_committed (ss_reservations s') m =
                rv_committed (ss_reservations s) m + (if m = mid then a else 0)))"
proof -
  let ?eff = "\<lambda>r s s'. (\<forall>m. rv_committed (ss_reservations s') m = rv_committed (ss_reservations s) m)
     \<or> (\<exists>rid a. r = Inr (Some rid) \<and> rid \<noteq> [] \<and> amount_decimal (intent_value i ''amount'' PNone) = Inr a
          \<and> (\<forall>m. rv_committed (ss_reservations s') m =
                rv_committed (ss_reservations s) m + (if m = mid then a else 0)))"
  let ?call = "\<lambda>mt rid key. on_reservations (reserve (en_reservation_uuid en) mid
      (intent_value i ''amount'' PNone) (reserve_budget m) mt rid key)"
  have call: "?eff r u u'" if "?call mt rid key u = (r, u')" for mt rid key r u u'
    using reserve_committed [OF on_reservations_eq [OF that, THEN conjunct1]] assms(2) by blast
  have retry: "?eff r u u'"
    if "retry_s f g u = (r, u')" "\<And>r u u'. f u = (r, u') \<Longrightarrow> ?eff r u u'" "\<And>r u u'. g u = (r, u') \<Longrightarrow> ?eff r u u'"
    for f g r u u'
  proof -
    obtain x v where f: "f u = (x, v)" by (cases "f u")
    show ?thesis
    proof (cases "x = Inl TypeError")
      case True
      with f that(1) have g: "g v = (r, u')" by (simp add: retry_s_def either_s_def)
      with that(2) [OF f] that(3) [OF g] True show ?thesis by simp
    next
      case False
      with f that(1) have "x = r" "v = u'"
        by (auto simp: retry_s_def either_s_def sres_defs split: sum.splits)
      with that(2) [OF f] show ?thesis by simp
    qed
  qed
  obtain r u where r: "retry_s (?call (reserve_max_txn m) (Some (''reservation:'' @ pid)) (Some pid))
      (retry_s (?call (reserve_max_txn m) (Some (''reservation:'' @ pid)) None) (?call PNone None None)) s = (r, u)"
    by fastforce
  have "?eff r s u"
    by (rule retry [OF r]) (erule call, erule retry, erule call, erule call)
  with run r show ?thesis
    by (auto simp: svc_reserve_def Let_def bind_s_def sres_defs split: sum.splits option.splits if_splits)
qed

text \<open>With the outbox unavailable, an approval that has its reservation gives it back.\<close>

lemma emit_unavailable:
  assumes "ob_fail (ss_outbox s)" "payload_json (PDict payload) = Inr u"
  shows "emit en ty agg payload now s = (Inl RuntimeError, s)"
  using assms by (simp add: emit_def new_event_def bind_s_def lift_res_def on_outbox_def outbox_append_def)

lemma approve_reserved_unavailable:
  assumes "ob_fail (ss_outbox s)"
  shows "\<exists>s'. approve_reserved en mid i pid rid now s = (Inl RuntimeError, s')
     \<and> ss_reservations s' = ss_reservations s \<and> ob_fail (ss_outbox s')"
proof -
  have json: "\<exists>u. payload_json (PDict [(''purchase_id'', PStr pid), (''reservation_id'', PStr rid)]) = Inr u"
    by (simp add: payload_json_def)
  obtain q t1 where sp: "save_purchase (new_purchase (en_wall en) pid mid (intent_jti i) ''pending_capture'' None (Some rid) None) s = (Inr q, t1)"
    "ss_outbox t1 = ss_outbox s" "ss_reservations t1 = ss_reservations s"
    by (cases "dict_get (ss_purchases s) pid")
       (auto simp: save_purchase_def on_purchases_def purchase_create_def new_purchase_def)
  obtain t2 where inc: "on_velocity (increment_open_authorizations mid) t1 = (Inr (), t2)"
    "ss_outbox t2 = ss_outbox t1" "ss_reservations t2 = ss_reservations t1"
    by (auto simp: on_velocity_def increment_open_authorizations_def)
  from json obtain u where u: "payload_json (PDict [(''purchase_id'', PStr pid), (''reservation_id'', PStr rid)]) = Inr u"
    by blast
  have "ob_fail (ss_outbox t2)" using assms sp inc by simp
  with emit_unavailable [OF _ u, of t2 en] sp inc show ?thesis
    by (auto simp: approve_reserved_def bind_s_def)
qed

lemma release_committed:
  assumes "accounted s" "rows_ok s" "dict_get (rv_reservations s) r = Some (mid, a)" "amount_decimal amount = Inr c"
  shows "\<exists>s'. release mid amount (Some r) s = (Inr True, s')
     \<and> (\<forall>m. rv_committed s' m = rv_committed s m - (if m = mid then a else 0))"
proof -
  from release_accounted [OF assms] obtain s' row where
    run: "release mid amount (Some r) s = (Inr True, s')" and row: "dict_get (rv_mandates s) mid = Some row" by blast
  have "rv_mandates s' = dict_set mid (row\<lparr>mr_reserved_total := mr_reserved_total row - a,
      mr_txn_count_period := max 0 (mr_txn_count_period row - 1)\<rparr>) (rv_mandates s)"
    using run row assms(3,4) by (auto simp: release_def release_row_def Let_def split: if_splits)
  with run row show ?thesis by (auto simp: rv_committed_def)
qed

text \<open>The parts of the service that leave the reservations alone.\<close>

lemma keeps_reservations:
  "keeps (\<lambda>s. ss_reservations s = q) (on_velocity v)" "keeps (\<lambda>s. ss_reservations s = q) (on_purchases r)"
  "keeps (\<lambda>s. ss_reservations s = q) (on_escalations e)" "keeps (\<lambda>s. ss_reservations s = q) (on_outbox j)"
  by (auto simp: keeps_def on_velocity_def on_purchases_def on_escalations_def on_outbox_def split: prod.splits)

lemma unreserved_branches:
  "keeps (\<lambda>s. ss_reservations s = q) (observe_intent mid i now)"
  "keeps (\<lambda>s. ss_reservations s = q) (bind_s (spend mid m now) (\<lambda>sv. lift_res (f sv)))"
  "keeps (\<lambda>s. ss_reservations s = q) (svc_rejected en i mid pid d now)"
  "keeps (\<lambda>s. ss_reservations s = q) (svc_escalated en mid i off pid d now)"
  "keeps (\<lambda>s. ss_reservations s = q) (approve_compensate en mid i pid None now)"
  unfolding observe_intent_def observe_escalation_def spend_def svc_rejected_def svc_escalated_def
    approve_compensate_def emit_def update_purchase_def save_purchase_def Let_def option.case
  by (intro keeps_intros keeps_reservations)+

lemma keeps_ob_fail:
  "keeps (\<lambda>s. ob_fail (ss_outbox s)) (on_velocity v)" "keeps (\<lambda>s. ob_fail (ss_outbox s)) (on_reservations r)"
  "keeps (\<lambda>s. ob_fail (ss_outbox s)) (on_purchases p)" "keeps (\<lambda>s. ob_fail (ss_outbox s)) (on_escalations e)"
  by (auto simp: keeps_def on_velocity_def on_reservations_def on_purchases_def on_escalations_def split: prod.splits)

lemma reserve_first_ob_fail:
  "keeps (\<lambda>s. ob_fail (ss_outbox s)) (bind_s (observe_intent mid i now) (\<lambda>_. svc_reserve en m mid i pid))"
  "keeps (\<lambda>s. ob_fail (ss_outbox s)) (bind_s (spend mid m now) (\<lambda>sv. lift_res (f sv)))"
  unfolding observe_intent_def svc_reserve_def spend_def Let_def
  by (intro keeps_intros keeps_ob_fail)+

lemma svc_rejected_closed:
  assumes "svc_rejected en i mid pid d now s = (Inr r, s')" "is_rejected d"
  shows "is_rejected (vr_decision r) \<and> ss_reservations s' = ss_reservations s"
  using svc_rejected_result [of en i mid pid d now s] assms
    keepsD [OF unreserved_branches(3) _ assms(1), of "ss_reservations s"]
  by (auto simp: is_rejected_def)

text \<open>A computation that needs the outbox does not return while it is unavailable.\<close>

definition needs_outbox :: "'a svc \<Rightarrow> bool" where
  "needs_outbox m \<longleftrightarrow> (\<forall>s. ob_fail (ss_outbox s) \<longrightarrow> (\<exists>e s'. m s = (Inl e, s')))"

lemma needs_outbox_emit: "needs_outbox (emit en ty agg payload now)"
  unfolding needs_outbox_def
proof (intro allI impI)
  fix s :: service_state
  assume "ob_fail (ss_outbox s)"
  with emit_Inr [of en ty agg payload now s] show "\<exists>e s'. emit en ty agg payload now s = (Inl e, s')"
    by (cases "emit en ty agg payload now s"; cases "fst (emit en ty agg payload now s)") auto
qed

lemma needs_outbox_first: "needs_outbox m \<Longrightarrow> needs_outbox (bind_s m f)"
  by (fastforce simp: needs_outbox_def bind_s_def)

lemma needs_outbox_then:
  assumes "keeps (\<lambda>s. ob_fail (ss_outbox s)) m" "\<And>x. needs_outbox (f x)"
  shows "needs_outbox (bind_s m f)"
  unfolding needs_outbox_def
proof (intro allI impI)
  fix s :: service_state
  assume s: "ob_fail (ss_outbox s)"
  obtain r t where m: "m s = (r, t)" by (cases "m s")
  have "ob_fail (ss_outbox t)" using keepsD [OF assms(1) s m] .
  with assms(2) m show "\<exists>e s'. bind_s m f s = (Inl e, s')"
    by (cases r) (auto simp: bind_s_def needs_outbox_def)
qed

lemma svc_escalated_closed:
  assumes run: "svc_escalated en mid i off pid d now s = (Inr r, s')" and fail: "ob_fail (ss_outbox s)"
  shows "is_rejected (vr_decision r) \<and> ss_reservations s' = ss_reservations s"
proof -
  have frame: "keeps (\<lambda>s. ob_fail (ss_outbox s)) (observe_intent mid i now)"
    "keeps (\<lambda>s. ob_fail (ss_outbox s)) (observe_escalation mid now d)"
    "keeps (\<lambda>s. ob_fail (ss_outbox s)) (save_purchase p)"
    "keeps (\<lambda>s. ob_fail (ss_outbox s)) (on_escalations (escalation_create e))" for p e
    unfolding observe_intent_def observe_escalation_def save_purchase_def Let_def
    by (intro keeps_intros keeps_ob_fail)+
  let ?body = "\<lambda>p esc f. bind_s (observe_intent mid i now) (\<lambda>_. bind_s (observe_escalation mid now d) (\<lambda>_.
      bind_s (save_purchase p) (\<lambda>_. bind_s (on_escalations (escalation_create esc)) (\<lambda>_. f))))"
  have stuck: "needs_outbox (?body p esc (bind_s (emit en ty agg payload now) k))"
    for p esc ty agg payload and k :: "unit \<Rightarrow> verification_result svc"
    by (intro needs_outbox_then frame needs_outbox_first needs_outbox_emit)
  have "vr_decision r = mk_decision REJECTED (Some MANDATE_SUSPENDED) None"
    if "try_s (?body p esc (bind_s (emit en ty agg payload now) k))
          (\<lambda>_. bind_s m (\<lambda>_. bind_s n (\<lambda>_. return_s (suspended_result pid ''rejected'' None)))) s = (Inr r, s')"
    for p esc ty agg payload and k :: "unit \<Rightarrow> verification_result svc"
      and m :: "purchase_record option svc" and n :: "escalation_record option svc"
    using that stuck [of p esc ty agg payload k] fail
    by (auto simp: needs_outbox_def suspended_result_def sres_defs dest!: try_s_Inr bind_s_Inr [of m] bind_s_Inr [of n])
  with run have "vr_decision r = mk_decision REJECTED (Some MANDATE_SUSPENDED) None"
    unfolding svc_escalated_def Let_def by (auto simp: bind_s_def [of "lift_res _"] lift_res_def split: sum.splits)
  with keepsD [OF unreserved_branches(4) _ run, of "ss_reservations s"] show ?thesis by (simp add: is_rejected_def)
qed

lemma reserve_first_accounted:
  "keeps (\<lambda>s. accounted (ss_reservations s)) (bind_s (observe_intent mid i now) (\<lambda>_. svc_reserve en m mid i pid))"
  "keeps (\<lambda>s. rows_ok (ss_reservations s)) (bind_s (observe_intent mid i now) (\<lambda>_. svc_reserve en m mid i pid))"
proof -
  have on: "keeps P m \<Longrightarrow> keeps (\<lambda>s. P (ss_reservations s)) (on_reservations m)" for P and m :: "(reservation_store, 'a) sres"
    by (auto simp: keeps_def on_reservations_def split: prod.splits)
  have vel: "keeps (\<lambda>s. P (ss_reservations s)) (on_velocity v)" for P and v :: "(velocity_store, 'a) sres"
    by (auto simp: keeps_def on_velocity_def split: prod.splits)
  show "keeps (\<lambda>s. accounted (ss_reservations s)) (bind_s (observe_intent mid i now) (\<lambda>_. svc_reserve en m mid i pid))"
    and "keeps (\<lambda>s. rows_ok (ss_reservations s)) (bind_s (observe_intent mid i now) (\<lambda>_. svc_reserve en m mid i pid))"
    unfolding observe_intent_def svc_reserve_def Let_def
    by (intro keeps_intros vel on reserve_accounted reserve_rows_ok)+
qed

lemma reserve_first_committed:
  assumes run: "bind_s (observe_intent mid i now) (\<lambda>_. svc_reserve en m mid i pid) s = (res, t)"
    and "en_reservation_uuid en \<noteq> []"
  shows "case res of
      Inl e \<Rightarrow> \<forall>m. rv_committed (ss_reservations t) m = rv_committed (ss_reservations s) m
    | Inr rid \<Rightarrow> \<exists>a. amount_decimal (intent_value i ''amount'' PNone) = Inr a
          \<and> dict_get (rv_reservations (ss_reservations t)) rid = Some (mid, a)
          \<and> (\<forall>m. rv_committed (ss_reservations t) m
                \<le> rv_committed (ss_reservations s) m + (if m = mid then a else 0))"
proof -
  obtain o1 u where u: "observe_intent mid i now s = (o1, u)" by (cases "observe_intent mid i now s")
  have same: "ss_reservations u = ss_reservations s"
    using keepsD [OF unreserved_branches(1) _ u, of "ss_reservations s"] by simp
  show ?thesis
  proof (cases o1)
    case (Inl e)
    with run u same show ?thesis by (auto simp: bind_s_def)
  next
    case (Inr x)
    with run u have r: "svc_reserve en m mid i pid u = (res, t)" by (simp add: bind_s_def)
    have nonneg: "0 \<le> a" if "amount_decimal v = Inr a" for v a
      using amount_decimal_valid [OF that] by (simp add: valid_cents_def)
    show ?thesis
    proof (cases res)
      case (Inl e)
      with svc_reserve_committed [OF r assms(2)] same show ?thesis by auto
    next
      case (Inr rid)
      then obtain a where a: "amount_decimal (intent_value i ''amount'' PNone) = Inr a"
        "dict_get (rv_reservations (ss_reservations t)) rid = Some (mid, a)"
        using svc_reserve_Inr r by blast
      with svc_reserve_committed [OF r assms(2)] same nonneg [OF a(1)] Inr show ?thesis by auto
    qed
  qed
qed

lemma svc_release_eq:
  "release mid amount rid (ss_reservations s) = (Inr b, q) \<Longrightarrow>
   svc_release mid amount rid s = (Inr b, s\<lparr>ss_reservations := q\<rparr>)"
  by (simp add: svc_release_def retry_s_def either_s_def on_reservations_def return_s_def)

lemma close_authorization:
  "\<exists>s'. on_velocity (decrement_open_authorizations mid) s = (Inr (), s') \<and> ss_reservations s' = ss_reservations s"
  by (simp add: on_velocity_def decrement_open_authorizations_def Let_def)

text \<open>Then every attempt to approve ends as a rejection, from a state that has not committed more.\<close>

lemma svc_approved_down:
  assumes fail: "ob_fail (ss_outbox s)" and books: "accounted (ss_reservations s)" "rows_ok (ss_reservations s)"
    and uuid: "en_reservation_uuid en \<noteq> []"
  shows "\<exists>reason t. svc_approved en m mid i pid now s = svc_rejected en i mid pid (rejected reason) now t
     \<and> (\<forall>m. rv_committed (ss_reservations t) m \<le> rv_committed (ss_reservations s) m)"
proof -
  obtain res t where t: "bind_s (observe_intent mid i now) (\<lambda>_. svc_reserve en m mid i pid) s = (res, t)" by fastforce
  note com = reserve_first_committed [OF t uuid]
  show ?thesis
  proof (cases res)
    case (Inl e)
    with t have "svc_approved en m mid i pid now s = svc_rejected en i mid pid
        (rejected (if e = ReservationRejected then BUDGET_EXCEEDED else MANDATE_SUSPENDED)) now t"
      by (simp add: svc_approved_def Let_def either_s_def approve_compensate_def bind_s_def return_s_def)
    moreover have "\<forall>m. rv_committed (ss_reservations t) m \<le> rv_committed (ss_reservations s) m"
      using com Inl by simp
    ultimately show ?thesis by blast
  next
    case (Inr rid)
    with com obtain a where a: "amount_decimal (intent_value i ''amount'' PNone) = Inr a"
      "dict_get (rv_reservations (ss_reservations t)) rid = Some (mid, a)"
      and le: "\<And>m. rv_committed (ss_reservations t) m \<le> rv_committed (ss_reservations s) m + (if m = mid then a else 0)"
      by auto
    have inv: "ob_fail (ss_outbox t)" "accounted (ss_reservations t)" "rows_ok (ss_reservations t)"
      using keepsD [OF reserve_first_ob_fail(1) fail t] keepsD [OF reserve_first_accounted(1) books(1) t]
        keepsD [OF reserve_first_accounted(2) books(2) t] by simp_all
    obtain v where v: "approve_reserved en mid i pid rid now t = (Inl RuntimeError, v)"
      "ss_reservations v = ss_reservations t"
      using approve_reserved_unavailable [OF inv(1)] by blast
    obtain w where w: "release mid (intent_value i ''amount'' PNone) (Some rid) (ss_reservations v) = (Inr True, w)"
      "\<And>m. rv_committed w m = rv_committed (ss_reservations t) m - (if m = mid then a else 0)"
      using release_committed [OF inv(2,3) a(2,1)] v(2) by auto
    obtain z where z: "on_velocity (decrement_open_authorizations mid) (v\<lparr>ss_reservations := w\<rparr>) = (Inr (), z)"
      "ss_reservations z = w"
      using close_authorization [of mid "v\<lparr>ss_reservations := w\<rparr>"] by auto
    have "svc_approved en m mid i pid now s = svc_rejected en i mid pid (rejected MANDATE_SUSPENDED) now z"
      using t v Inr z
      by (simp add: svc_approved_def Let_def either_s_def try_s_def approve_compensate_def bind_s_def svc_release_eq [OF w(1)])
    moreover have "rv_committed w m \<le> rv_committed (ss_reservations s) m" for m
      using w(2) [of m] le [of m] by simp
    ultimately show ?thesis using z(2) by blast
  qed
qed

lemma svc_approved_closed:
  assumes "svc_approved en m mid i pid now s = (Inr r, s')" "ob_fail (ss_outbox s)"
    "accounted (ss_reservations s)" "rows_ok (ss_reservations s)" "en_reservation_uuid en \<noteq> []"
  shows "is_rejected (vr_decision r)
     \<and> (\<forall>m. rv_committed (ss_reservations s') m \<le> rv_committed (ss_reservations s) m)"
proof -
  from svc_approved_down [OF assms(2-5)] assms(1) obtain reason t where
    "svc_rejected en i mid pid (rejected reason) now t = (Inr r, s')"
    "\<forall>m. rv_committed (ss_reservations t) m \<le> rv_committed (ss_reservations s) m" by metis
  with svc_rejected_closed [OF this(1)] show ?thesis by (simp add: is_rejected_def)
qed

lemma verify_gated_closed:
  assumes run: "verify_gated en i m off mid pid now s = (Inr r, s')" and fail: "ob_fail (ss_outbox s)"
    and books: "accounted (ss_reservations s)" "rows_ok (ss_reservations s)" and uuid: "en_reservation_uuid en \<noteq> []"
  shows "is_rejected (vr_decision r)
     \<and> (\<forall>m. rv_committed (ss_reservations s') m \<le> rv_committed (ss_reservations s) m)"
proof -
  let ?m = "bind_s (spend mid m now) (\<lambda>sv. lift_res (svc_evaluate (en_gate en) m i sv now off False))"
  obtain res t where t: "?m s = (res, t)" by fastforce
  have same: "ss_reservations t = ss_reservations s" "ob_fail (ss_outbox t)"
    using keepsD [OF unreserved_branches(2) _ t, of "ss_reservations s"] keepsD [OF reserve_first_ob_fail(2) fail t]
    by simp_all
  have rej: "is_rejected (mk_decision REJECTED x None)" for x by (simp add: is_rejected_def)
  consider (rejected) d where "svc_rejected en i mid pid d now t = (Inr r, s')" "is_rejected d"
    | (escalated) d where "svc_escalated en mid i off pid d now t = (Inr r, s')"
    | (approved) "svc_approved en m mid i pid now t = (Inr r, s')"
    using run t rej by (auto simp: verify_gated_def either_s_def split: sum.splits if_splits)
  then show ?thesis
  proof cases
    case rejected
    with svc_rejected_closed same show ?thesis by fastforce
  next
    case escalated
    with svc_escalated_closed same show ?thesis by fastforce
  next
    case approved
    from svc_approved_closed [OF this] same books uuid show ?thesis by simp
  qed
qed


section \<open>Resolving escalations\<close>

lemma expire_not_approved:
  assumes "expire_and_compensate en q now reason rid s = (Inr r, s')"
  shows "is_rejected (vr_decision r)"
proof -
  let ?failed = "suspended_result (er_purchase_id q) ''compensated'' (Some (er_escalation_id q))"
  let ?retry = "\<lambda>x released. case x of None \<Rightarrow> return_s ?failed
    | Some y \<Rightarrow> if released then return_s ?failed
               else bind_s (try_s (release_and_close (er_mandate_id q) (intent_value (er_intent q) ''amount'' PNone) y)
                      (\<lambda>_. return_s False)) (\<lambda>_. return_s ?failed)"
  have retry: "is_rejected (vr_decision r)" if "?retry x b t = (Inr r, s')" for x b t
    using that
    by (cases x; cases b) (auto dest!: bind_s_Inr simp: sres_defs suspended_result_def is_rejected_def)
  have fin: "is_rejected (vr_decision r)"
    if "bind_s m1 (\<lambda>_. bind_s m2 (\<lambda>_. return_s (mk_result (mk_decision REJECTED (Some reason) None) p st e))) t = (Inr r, s')"
    for p st e t and m1 :: "unit svc" and m2 :: "unit svc"
    using that by (auto dest!: bind_s_Inr simp: sres_defs is_rejected_def)
  from bind_s_Inr [OF assms [unfolded expire_and_compensate_def]]
  obtain x t where "either_s (case x of None \<Rightarrow> return_s False
        | Some y \<Rightarrow> svc_release (er_mandate_id q) (intent_value (er_intent q) ''amount'' PNone) (Some y))
      (\<lambda>_. ?retry x False)
      (\<lambda>released. try_s
        (bind_s (if released then on_velocity (decrement_open_authorizations (er_mandate_id q)) else return_s ()) (\<lambda>_.
         bind_s (expire_records en q now reason x released) (\<lambda>_.
         return_s (mk_result (mk_decision REJECTED (Some reason) None) (er_purchase_id q) ''compensated''
                     (Some (er_escalation_id (mark_expired q)))))))
        (\<lambda>_. ?retry x released)) t = (Inr r, s')"
    unfolding Let_def by blast
  then show ?thesis
    using retry fin by (blast dest: either_s_Inr try_s_Inr)
qed

text \<open>What the resolved approval leaves behind.\<close>

lemma resolve_reserved_Inr:
  assumes "resolve_reserved en eid q rid now s = (Inr r, s')"
  shows "r = mk_result (approved\<lparr>d_reservation_id := Some rid\<rparr>) (er_purchase_id q) ''pending_capture'' (Some eid)
     \<and> ss_reservations s' = ss_reservations s \<and> has_event ''purchase.verified'' (er_purchase_id q) s'"
proof -
  have "keeps (\<lambda>t. ss_reservations t = ss_reservations s) (resolve_reserved en eid q rid now)"
    unfolding resolve_reserved_def update_purchase_def emit_def Let_def
    by (intro keeps_intros keeps_reservations)
  from keepsD [OF this _ assms] have "ss_reservations s' = ss_reservations s" by simp
  moreover from assms obtain payload t x where
    "emit en ''purchase.verified'' (er_purchase_id q) payload now t = (Inr x, s')"
    and "r = mk_result (approved\<lparr>d_reservation_id := Some rid\<rparr>) (er_purchase_id q) ''pending_capture'' (Some eid)"
    unfolding resolve_reserved_def by (auto dest!: bind_s_Inr simp: sres_defs)
  ultimately show ?thesis using emit_Inr by blast
qed

lemma resolve_gated_approved:
  assumes run: "resolve_gated en eid q m off now s = (Inr r, s')" "is_approved (vr_decision r)"
  shows "\<exists>sv d rid a. svc_evaluate (en_gate en) m (er_intent q) sv now off True = Inr d \<and> is_approved d
     \<and> r = mk_result (approved\<lparr>d_reservation_id := Some rid\<rparr>) (er_purchase_id q) ''pending_capture'' (Some eid)
     \<and> amount_decimal (intent_value (er_intent q) ''amount'' PNone) = Inr a
     \<and> dict_get (rv_reservations (ss_reservations s')) rid = Some (er_mandate_id q, a)
     \<and> has_event ''purchase.verified'' (er_purchase_id q) s'"
proof -
  have no: "expire_and_compensate en q now reason x t \<noteq> (Inr r, s')" for reason x t
    using expire_not_approved run(2) by (auto simp: is_rejected_def is_approved_def)
  from run(1) no obtain d t rid u where
    d: "bind_s (spend (er_mandate_id q) m now)
          (\<lambda>sv. lift_res (svc_evaluate (en_gate en) m (er_intent q) sv now off True)) s = (Inr d, t)"
    and "is_approved d"
    and rid: "svc_reserve en m (er_mandate_id q) (er_intent q) (er_purchase_id q) t = (Inr rid, u)"
    and fin: "resolve_reserved en eid q rid now u = (Inr r, s')"
    unfolding resolve_gated_def
    by (auto dest!: either_s_Inr try_s_Inr split: if_splits option.splits)
  from d obtain sv where "svc_evaluate (en_gate en) m (er_intent q) sv now off True = Inr d"
    by (auto dest!: bind_s_Inr simp: lift_res_def)
  with \<open>is_approved d\<close> svc_reserve_Inr [OF rid] resolve_reserved_Inr [OF fin] show ?thesis by auto
qed

lemma resolve_envelope_guards:
  assumes "resolve_envelope en q now approval assertion None = Inr d" "\<not> is_rejected d"
  shows "er_status q = ''pending'' \<and> now < er_timeout_at q \<and> approval_given approval
     \<and> (er_level q = level_str L3_PLUS \<longrightarrow>
          (\<exists>f. en_uv_verifier en = Some f)
          \<and> uv_check (sha256_hex (en_crypto en)) (en_uv_verifier en) assertion (Some (er_diff q))
              ((er_timeout_at q - er_created_at q) div us_per_second))"
proof -
  from assms have pend: "er_status q = ''pending''"
    by (auto simp: resolve_envelope_def is_rejected_def split: if_splits)
  from assms obtain esc where esc: "domain_escalation q = Inr esc"
    and res: "resolve_escalation (sha256_hex (en_crypto en)) esc (PTime (Aware now)) approval
          (en_uv_verifier en) assertion (Some (er_diff q)) None = Inr d"
    by (auto simp: resolve_envelope_def is_rejected_def bind_res_Inr_iff split: if_splits)
  from esc have fields: "es_created_at esc = er_created_at q" "es_timeout_at esc = Some (er_timeout_at q)"
    "er_level q = level_str L3_PLUS \<Longrightarrow> es_level esc = L3_PLUS"
    by (auto simp: domain_escalation_def Escalation_def bind_res_Inr_iff optional_utc_def ensure_utc_def
        split: if_splits)
  have "is_approved d"
    using res assms(2)
    by (auto simp: resolve_escalation_def bind_res_Inr_iff is_approved_def is_rejected_def split: if_splits)
  from resolve_escalation_guards [OF res this] fields pend show ?thesis by auto
qed


section \<open>Replayed responses\<close>

text \<open>
  Serializing a result and reading it back is the identity, except that a missing diff comes back
  as an empty one.
\<close>

definition stored_form :: "verification_result \<Rightarrow> verification_result" where
  "stored_form r = r\<lparr>vr_decision := (vr_decision r)
     \<lparr>d_diff := Some (case d_diff (vr_decision r) of None \<Rightarrow> [] | Some m \<Rightarrow> m)\<rparr>\<rparr>"

lemma stored_fields:
  "str_of (opt_str x) = x" "int_of (opt_int n) = n" "dict_of (PDict m) = Some m"
  by (simp_all add: str_of_def opt_str_def int_of_def opt_int_def dict_of_def split: option.splits)

lemma Decision_stored:
  assumes "\<And>t. ttl = Some t \<Longrightarrow> 0 \<le> t"
  shows "Decision (PStr (decision_value_str v)) (opt_str (map_option reason_str reason)) rid diff
           (opt_str (map_option level_str lvl)) ttl uv =
         Inr \<lparr>d_decision = v, d_reason_code = reason, d_reservation_id = rid, d_diff = diff, d_level = lvl,
              d_ttl_seconds = ttl, d_requires_uv = uv\<rparr>"
proof -
  have r: "(if opt_str (map_option reason_str reason) = PNone then Inr None
       else bind_res (reason_of (opt_str (map_option reason_str reason))) (\<lambda>r. Inr (Some r))) = Inr reason"
    by (cases reason) (simp_all add: opt_str_def)
  have l: "(if opt_str (map_option level_str lvl) = PNone then Inr None
       else bind_res (as_level (opt_str (map_option level_str lvl))) (\<lambda>r. Inr (Some r))) = Inr lvl"
    by (cases lvl) (simp_all add: opt_str_def)
  have t: "(case ttl of Some t \<Rightarrow> t < 0 | None \<Rightarrow> False) = False"
    using assms by (auto split: option.splits)
  show ?thesis unfolding Decision_def r l t by simp
qed

lemma as_dict_get:
  "dict_get_or (as_dict r) ''decision'' x = PStr (decision_value_str (d_decision (vr_decision r)))"
  "dict_get_or (as_dict r) ''reason_code'' x = opt_str (map_option reason_str (d_reason_code (vr_decision r)))"
  "dict_get_or (as_dict r) ''reservation_id'' x = opt_str (d_reservation_id (vr_decision r))"
  "dict_get_or (as_dict r) ''purchase_id'' x = PStr (vr_purchase_id r)"
  "dict_get_or (as_dict r) ''status'' x = PStr (vr_status r)"
  "dict_get_or (as_dict r) ''escalation_id'' x = opt_str (vr_escalation_id r)"
  "dict_get_or (as_dict r) ''diff'' x = PDict (case d_diff (vr_decision r) of None \<Rightarrow> [] | Some m \<Rightarrow> m)"
  "dict_get_or (as_dict r) ''level'' x = opt_str (map_option level_str (d_level (vr_decision r)))"
  "dict_get_or (as_dict r) ''ttl_seconds'' x = opt_int (d_ttl_seconds (vr_decision r))"
  "dict_get_or (as_dict r) ''requires_uv'' x = PBool (d_requires_uv (vr_decision r))"
  by (simp_all add: as_dict_def Let_def dict_get_or_def)

lemma result_roundtrip:
  assumes "\<And>t. d_ttl_seconds (vr_decision r) = Some t \<Longrightarrow> 0 \<le> t"
  shows "result_from_idempotency (as_dict r) fallback = stored_form r"
  using assms
  by (simp add: result_from_idempotency_def Let_def as_dict_get stored_fields Decision_stored stored_form_def
      mk_result_def)


text \<open>
  a store that derives its keys from another secret than the service refuses every claim, so
  that every verification of an intent with an identifier ends in an idempotency conflict and
  nothing else happens.
\<close>

theorem other_secret_always_conflicts:
  assumes "intent_jti i \<noteq> []" "intent_jti i \<noteq> ''unknown-intent''"
    and "make_record (en_crypto en) (intent_jti i) (en_secret en)
           (case or_str scope None of Some sc \<Rightarrow> sc | None \<Rightarrow> en_scope en)
           (if request = PNone then intent_body i else request) (PTime (Aware now)) IDEMPOTENCY_TTL None
           (Some (en_claim_uuid en)) = Inr rec"
    and "is_secret (ss_idem s) \<noteq> []"
    and "hmac_hex (en_crypto en) (is_secret (ss_idem s)) (intent_jti i)
           \<noteq> hmac_hex (en_crypto en) (en_secret en) (intent_jti i)"
  shows "verify en i (Aware now) mandate pid request scope s = (Inl IdempotencyConflict, s)"
proof -
  note f = make_record_fields [OF assms(3)]
  from f(1) have "ir_key rec = hmac_hex (en_crypto en) (en_secret en) (intent_jti i)"
    by (auto simp: derive_idempotency_key_def secret_bytes_def bind_res_Inr_iff split: if_splits)
  with assms(4,5) f have "idem_reserve (en_crypto en) (en_wall en) rec (ss_idem s) = (Inl IdempotencyConflict, ss_idem s)"
    by (auto simp: idem_reserve_def derive_idempotency_key_def secret_bytes_def Let_def split: sum.splits)
  with assms have "svc_claim en i now request scope s = (Inl IdempotencyConflict, s)"
    by (simp add: svc_claim_def Let_def bind_s_def on_idem_def claim_idempotency_def)
  then show ?thesis by (simp add: verify_def either_s_def Let_def raise_s_def)
qed

section \<open>The signal for an escalation flood\<close>

text \<open>The diffs of the rejections, none of which carries the flag that the service looks for.\<close>

lemma diff_get_mk [simp]:
  "diff_get (mk_decision v r None) k = PNone" "diff_get (mk_decision v r (Some m)) k = dict_get_or m k PNone"
  by (simp_all add: diff_get_def)

lemma offer_binding_diff: "offer_binding i om = Inl d \<Longrightarrow> diff_get d ''auto_suspend'' = PNone"
  by (auto simp: offer_binding_def price_check_def Let_def dict_get_or_def split: option.splits if_splits)

lemma limits_decision_diff: "limits_decision l a sp = Inr d \<Longrightarrow> diff_get d ''auto_suspend'' = PNone"
  by (auto simp: limits_decision_def txn_count_decision_def Let_def dict_get_or_def
      split: sum.splits if_splits pyval.splits max_txn_field.splits)

lemma risk_decision_diff:
  assumes "risk_decision g m i sp now st = Inr d" "is_rejected d"
  shows "diff_get d ''auto_suspend'' = PNone"
proof -
  from assms(1) obtain b where b: "evaluate_burst (spend_burst sp) now (pg_burst_config g) PNone PNone PNone PNone = Inr b"
    by (auto simp: risk_decision_def bind_res_Inr_iff)
  have "diff_get (mk_decision v r (bd_diff b)) ''auto_suspend'' = PNone" for v r
    using b by (auto simp: evaluate_burst_def burst_rule_def bind_res_Inr_iff dict_get_or_def split: if_splits)
  moreover have "d = mk_decision REJECTED (bd_reason_code b) (bd_diff b)"
    if "bd_decision b = REJECTED" using assms(1) b that by (simp add: risk_decision_def)
  moreover have "\<not> is_rejected d" if "bd_decision b \<noteq> REJECTED"
  proof -
    from assms(1) b that obtain su where
      "(case gate_escalations g b su of [] \<Rightarrow> Inr approved | es \<Rightarrow> Inr (select_escalation es)) = (Inr d :: decision res)"
      by (auto simp: risk_decision_def Let_def bind_res_Inr_iff)
    then show ?thesis
      by (auto simp: gate_escalations_def select_escalation_def is_rejected_def split: if_splits list.splits option.splits)
  qed
  ultimately show ?thesis using assms(2) by metis
qed

lemma evaluate_diff:
  assumes "evaluate g m i sp now off st = Inr d" "is_rejected d"
  shows "diff_get d ''auto_suspend'' = PNone"
proof -
  consider (reason) r where "d = rejected r" | (offer) om where "offer_binding i om = Inl d"
    | (limits) l a where "limits_decision l a sp = Inr d" | (risk) t where "risk_decision g m i sp t st = Inr d"
    using assms(1)
    by (auto simp: evaluate_def Let_def bind_res_def split: sum.splits option.splits if_splits)
  then show ?thesis
    using offer_binding_diff limits_decision_diff risk_decision_diff [OF _ assms(2)] by cases auto
qed

text \<open>
  No rejection of the gate carries the flag \<open>auto_suspend\<close>, not even the one for a flood of
  escalations, whose burst decision sets it: the branch of the service that raises \<open>fraud.alert\<close>
  is never taken for a decision of the gate.
\<close>

theorem gate_never_flags_auto_suspend:
  assumes "svc_evaluate g m i sv now off st = Inr d" "is_rejected d"
  shows "\<not> truthy (diff_get d ''auto_suspend'')"
proof -
  from assms(1) obtain off' st' where "evaluate g m i (Obj sv) (PTime (Aware now)) off' st' = Inr d"
    by (auto simp: svc_evaluate_def Let_def split: sum.splits exn.splits)
  from evaluate_diff [OF this assms(2)] show ?thesis by simp
qed

section \<open>Concrete runs of the service\<close>

definition sample_env :: service_env where
  "sample_env =
     \<lparr>en_crypto = sample_crypto, en_gate = default_gate, en_uv_verifier = None, en_secret = ''key'',
      en_scope = ''verify'', en_wall = 0, en_claim_uuid = ''u1'', en_escalation_uuid = ''e1'',
      en_reservation_uuid = ''v1''\<rparr>"

definition sample_state :: "bool \<Rightarrow> idempotency_record list \<Rightarrow> service_state" where
  "sample_state down rs =
     \<lparr>ss_mandates = [(''m1'', Obj sample_claims)], ss_offers = [(''o1'', Obj (sample_offer 1250))],
      ss_velocity = empty_velocity, ss_reservations = sample_reservations, ss_purchases = [],
      ss_escalations = [], ss_outbox = \<lparr>ob_events = [], ob_fail = down\<rparr>,
      ss_idem = sample_idem_store rs\<rparr>"

abbreviation sample_instant :: instant where
  "sample_instant \<equiv> 63900000000000000"

lemma limit_decimal_zero: "limit_decimal (PStr ''0.00'') = Inr 0"
  by code_simp

lemma dec_trunc_zero: "dec_trunc (Dec 0 0) = 0"
  by code_simp

lemma sample_spend_run:
  "spend ''m1'' (Obj sample_claims) sample_instant (sample_state down rs)
   = (Inr (sample_spend 0 0), sample_state down rs)"
  by (simp add: spend_def retry_s_def either_s_def on_velocity_def sample_state_def get_spend_view_def
      count_intents_def count_escalations_def empty_velocity_def dt_add_def in_range_def vs_sum_def
      get_cooldown_def src_value_def claims_attr_def sample_claims_def SpendView_def open_authorizations_def
      dict_get_or_def opt_time_def optional_utc_def counter_field_def return_s_def sample_spend_def
      limit_decimal_zero dec_trunc_zero)

lemma sample_evaluate_run:
  "svc_evaluate default_gate (Obj sample_claims) (Obj (sample_intent 1250)) (sample_spend 0 0) sample_instant
     (Obj (sample_offer 1250)) False = Inr approved"
  using sample_gate_approved by (simp add: svc_evaluate_def)

lemma sample_svc_reserve:
  assumes "ss_reservations s = sample_reservations"
  shows "svc_reserve sample_env (Obj sample_claims) ''m1'' (Obj (sample_intent 1250)) ''p1'' s
     = (Inr ''reservation:p1'', s\<lparr>ss_reservations :=
          add_reservation ''m1'' sample_row 1250 ''reservation:p1'' (Some ''p1'') sample_reservations\<rparr>)"
  using assms
  by (simp add: svc_reserve_def retry_s_def either_s_def on_reservations_def reserve_def reserve_row_def Let_def
      sample_reservations_def sample_row_def sample_env_def src_value_def intent_attr_def sample_intent_def
      reserve_budget_def reserve_max_txn_def mandate_limits_of_def claims_attr_def sample_claims_def limits_attr_def
      over_budget_def dec_sum3_exceeds_iff bind_s_def return_s_def)

abbreviation sample_request :: "purchase_intent src" where
  "sample_request \<equiv> Obj (sample_intent 1250)"

lemma sample_fields:
  "intent_jti sample_request = ''i1''" "py_str (intent_value sample_request ''mandate_jti'' (PStr '''')) = ''m1''"
  "py_str (intent_value sample_request ''offer_id'' (PStr '''')) = ''o1''"
  "mandate_id_of (Obj sample_claims) ''m1'' = ''m1''"
  "intent_value sample_request ''amount'' d = PStr (cents_str 1250)"
  by (simp_all add: intent_jti_def mandate_id_of_def src_value_def intent_attr_def claims_attr_def
      sample_intent_def sample_claims_def)

lemma sample_gated:
  "verify_gated sample_env sample_request (Obj sample_claims) (Obj (sample_offer 1250)) ''m1'' ''p1'' sample_instant
     (sample_state down rs)
   = svc_approved sample_env (Obj sample_claims) ''m1'' sample_request ''p1'' sample_instant (sample_state down rs)"
  by (simp add: verify_gated_def either_s_def bind_s_def sample_spend_run lift_res_def sample_env_def
      sample_evaluate_run is_rejected_def is_escalated_def)

lemma sample_verify_new:
  "verify_new sample_env sample_request None ''p1'' sample_instant (sample_state down rs)
   = svc_approved sample_env (Obj sample_claims) ''m1'' sample_request ''p1'' sample_instant (sample_state down rs)"
proof -
  have "read_mandate ''m1'' (sample_state down rs) = Some (Obj sample_claims)"
    "read_offer ''o1'' (sample_state down rs) = Some (Obj (sample_offer 1250))"
    by (simp_all add: read_mandate_def read_offer_def sample_state_def)
  with sample_gated show ?thesis by (simp add: verify_new_def Let_def sample_fields bind_s_def get_s_def)
qed

lemma sample_approval:
  "\<exists>s'. verify_new sample_env sample_request None ''p1'' sample_instant (sample_state False rs)
     = (Inr (mk_result (approved\<lparr>d_reservation_id := Some ''reservation:p1''\<rparr>) ''p1'' ''pending_capture'' None), s')
       \<and> ss_idem s' = sample_idem_store rs"
  unfolding sample_verify_new svc_approved_def Let_def
  by (simp add: either_s_def bind_s_def observe_intent_def sample_fields on_velocity_def increment_intent_def
      sample_svc_reserve try_s_def approve_reserved_def save_purchase_def on_purchases_def purchase_create_def
      new_purchase_def increment_open_authorizations_def emit_def new_event_def payload_json_def lift_res_def
      on_outbox_def outbox_append_def return_s_def sample_state_def Let_def)

theorem service_never_exceeds_budget_witness:
  "rv_committed (ss_reservations (snd (verify sample_env sample_request (Aware sample_instant) None (Some ''p1'') PNone
       None (sample_state False [])))) ''m1'' \<le> 50000"
proof -
  have "svc_step\<^sup>*\<^sup>* (sample_state False []) (snd (verify sample_env sample_request (Aware sample_instant) None
      (Some ''p1'') PNone None (sample_state False [])))"
    by (intro r_into_rtranclp do_verify)
  from service_never_exceeds_budget [OF this, of "''m1''"] sample_reservations_ok show ?thesis
    by (simp add: sample_state_def rv_budget_def sample_reservations_def sample_row_def)
qed


text \<open>A verification with an explicit request body and the claim that it makes.\<close>

definition sample_claimed :: idempotency_record where
  "sample_claimed =
     \<lparr>ir_key = ''key:i1'', ir_scope = ''verify'', ir_derived_from = ''i1'',
      ir_request_fingerprint = ''sha:true'', ir_expires_at = sample_instant + 3888000000000, ir_response = None,
      ir_created_at = Some sample_instant, ir_claim_token = Some ''u1''\<rparr>"

lemma sample_claim_record:
  "make_record sample_crypto ''i1'' ''key'' ''verify'' (PBool True) (PTime (Aware sample_instant)) IDEMPOTENCY_TTL
     None (Some ''u1'') = Inr sample_claimed"
  by (simp add: make_record_def ensure_utc_def derive_idempotency_key_def secret_bytes_def
      request_fingerprint_def domain_canonical_json_def sample_crypto_def dt_add_def in_range_def
      check_record_def sample_claimed_def)

lemma sample_svc_claim:
  assumes "idem_reserve sample_crypto 0 sample_claimed q = (Inr r, q')" "ss_idem s = q"
  shows "svc_claim sample_env sample_request sample_instant (PBool True) None s
     = (Inr (Some r, ir_claim_token r = Some ''u1''), s\<lparr>ss_idem := q'\<rparr>)"
proof -
  have "ir_claim_token sample_claimed = Some ''u1''" by (simp add: sample_claimed_def)
  with assms sample_claim_record show ?thesis
    by (simp add: svc_claim_def sample_fields Let_def sample_env_def or_str_def on_idem_def claim_idempotency_def
        bind_s_def return_s_def)
qed

lemma sample_claim:
  "svc_claim sample_env sample_request sample_instant (PBool True) None (sample_state False [])
   = (Inr (Some sample_claimed, True), sample_state False [sample_claimed])"
proof -
  have "idem_reserve sample_crypto 0 sample_claimed (sample_idem_store [])
      = (Inr sample_claimed, sample_idem_store [sample_claimed])"
    by (simp add: sample_idem_defs sample_claimed_def)
  from sample_svc_claim [OF this] show ?thesis
    by (simp add: sample_state_def) (simp add: sample_claimed_def)
qed

lemma sample_reclaim:
  assumes "ir_key r = ''key:i1''" "same_request r sample_claimed" "0 < ir_expires_at r"
  shows "svc_claim sample_env sample_request sample_instant (PBool True) None (sample_state False [r])
     = (Inr (Some r, ir_claim_token r = Some ''u1''), sample_state False [r])"
proof -
  have "ir_key sample_claimed = ''key:i1''" "ir_derived_from sample_claimed = ''i1''"
    by (simp_all add: sample_claimed_def)
  then have "idem_reserve sample_crypto 0 sample_claimed (sample_idem_store [r]) = (Inr r, sample_idem_store [r])"
    using assms by (simp add: sample_idem_store_def idem_reserve_def sample_crypto_def derive_idempotency_key_def
        secret_bytes_def is_expired_def Let_def)
  from sample_svc_claim [OF this] show ?thesis by (simp add: sample_state_def)
qed

theorem approved_purchase_is_backed_witness:
  "\<exists>r s'. verify sample_env sample_request (Aware sample_instant) None (Some ''p1'') (PBool True) None (sample_state False [])
       = (Inr r, s')
     \<and> is_approved (vr_decision r) \<and> (\<exists>mid. approval_recorded sample_env sample_request mid ''p1'' r s')"
proof -
  let ?r = "mk_result (approved\<lparr>d_reservation_id := Some ''reservation:p1''\<rparr>) ''p1'' ''pending_capture'' None"
  obtain u where u: "verify_new sample_env sample_request None ''p1'' sample_instant (sample_state False [sample_claimed]) = (Inr ?r, u)"
    "ss_idem u = sample_idem_store [sample_claimed]"
    using sample_approval [of "[sample_claimed]"] by blast
  have resp: "ir_response sample_claimed = None" "\<not> is_expired sample_claimed sample_instant"
    by (simp_all add: sample_claimed_def is_expired_def)
  have none: "purchase_by_intent (ss_purchases (sample_state False rs)) x = None" "ss_purchases (sample_state False rs) = []"
    "purchase_by_intent [] x = None" for x rs
    by (simp_all add: purchase_by_intent_def sample_state_def)
  have "\<exists>v. finish (Some sample_claimed) sample_instant ?r u = (Inr ?r, v)"
    by (simp add: finish_def try_s_def save_idempotency_def resp bind_s_def on_idem_def u(2) sample_idem_store_def
        idem_save_response_def return_s_def Let_def)
  then obtain v where v: "finish (Some sample_claimed) sample_instant ?r u = (Inr ?r, v)" by blast
  have run: "verify sample_env sample_request (Aware sample_instant) None (Some ''p1'') (PBool True) None
      (sample_state False []) = (Inr ?r, v)"
    by (simp add: verify_def Let_def or_str_def either_s_def sample_claim bind_s_def get_s_def u(1) resp none v)
  moreover have app: "is_approved (vr_decision ?r)" by (simp add: is_approved_def)
  ultimately show ?thesis
    using approved_purchase_is_backed [OF sample_claim _ _ _ _ run app] resp none by auto
qed


theorem other_secret_always_conflicts_witness:
  "verify (sample_env\<lparr>en_secret := ''other''\<rparr>) sample_request (Aware sample_instant) None None (PBool True) None
     (sample_state False []) = (Inl IdempotencyConflict, sample_state False [])"
proof -
  have "make_record sample_crypto ''i1'' ''other'' ''verify'' (PBool True) (PTime (Aware sample_instant)) IDEMPOTENCY_TTL
     None (Some ''u1'') = Inr (sample_claimed\<lparr>ir_key := ''other:i1''\<rparr>)"
    by (simp add: make_record_def ensure_utc_def derive_idempotency_key_def secret_bytes_def
      request_fingerprint_def domain_canonical_json_def sample_crypto_def dt_add_def in_range_def
      check_record_def sample_claimed_def)
  then show ?thesis
    by (intro other_secret_always_conflicts [where rec = "sample_claimed\<lparr>ir_key := ''other:i1''\<rparr>"])
       (simp_all add: sample_fields sample_env_def sample_state_def sample_idem_store_def sample_crypto_def or_str_def)
qed

definition flooded_spend :: spend_view where
  "flooded_spend = (sample_spend 0 0)\<lparr>sv_escalations_last_hour := 11\<rparr>"

theorem gate_never_flags_auto_suspend_witness:
  "\<exists>d. svc_evaluate default_gate (Obj sample_claims) sample_request flooded_spend sample_instant
         (Obj (sample_offer 1250)) False = Inr d
     \<and> is_rejected d \<and> d_reason_code d = Some MANDATE_SUSPENDED \<and> \<not> truthy (diff_get d ''auto_suspend'')"
proof -
  have "\<exists>diff. evaluate default_gate (Obj sample_claims) sample_request (Obj flooded_spend)
      sample_now (Obj (sample_offer 1250)) False = Inr (rejected_diff MANDATE_SUSPENDED diff)"
    by (simp add: flooded_spend_def sample_defs gate_defs dec_sum3_exceeds_iff)
  then obtain diff where e: "svc_evaluate default_gate (Obj sample_claims) sample_request flooded_spend sample_instant
      (Obj (sample_offer 1250)) False = Inr (rejected_diff MANDATE_SUSPENDED diff)"
    by (auto simp: svc_evaluate_def)
  moreover have "is_rejected (rejected_diff MANDATE_SUSPENDED diff)" by (simp add: is_rejected_def)
  ultimately show ?thesis using gate_never_flags_auto_suspend [OF e] by auto
qed

text \<open>A pending escalation of the same purchase, approved one minute later.\<close>

definition sample_pending :: escalation_record where
  "sample_pending =
     \<lparr>er_escalation_id = ''e1'', er_purchase_id = ''p1'', er_mandate_id = ''m1'', er_intent = sample_request,
      er_offer = Obj (sample_offer 1250), er_status = ''pending'', er_level = ''L3'', er_diff = [],
      er_created_at = sample_instant - 60000000, er_timeout_at = sample_instant + 60000000,
      er_decision = None, er_approver = None\<rparr>"

definition sample_waiting :: service_state where
  "sample_waiting = (sample_state False [])\<lparr>ss_escalations := [(''e1'', sample_pending)]\<rparr>"

lemma sample_spend_waiting:
  "spend ''m1'' (Obj sample_claims) sample_instant sample_waiting = (Inr (sample_spend 0 0), sample_waiting)"
proof -
  have "spend mid m now (s\<lparr>ss_escalations := e\<rparr>) =
      (fst (spend mid m now s), (snd (spend mid m now s))\<lparr>ss_escalations := e\<rparr>)" for mid m now s e
    by (auto simp: spend_def retry_s_def either_s_def on_velocity_def sres_defs split: prod.splits sum.splits)
  then show ?thesis by (simp add: sample_waiting_def sample_spend_run)
qed

lemma sample_evaluate_approved:
  "svc_evaluate default_gate (Obj sample_claims) sample_request (sample_spend 0 0) sample_instant
     (Obj (sample_offer 1250)) True = Inr approved"
proof -
  have "evaluate default_gate (Obj sample_claims) sample_request (Obj (sample_spend 0 0))
     sample_now (Obj (sample_offer 1250)) True = Inr approved"
    by (simp add: sample_defs gate_defs no_stepup_def dec_sum3_exceeds_iff)
  then show ?thesis by (simp add: svc_evaluate_def)
qed

lemma sample_resolution:
  "\<exists>r s'. svc_resolve_escalation sample_env ''e1'' (PStr ''approve'') (Aware sample_instant) PNone sample_waiting = (Inr r, s')
     \<and> is_approved (vr_decision r)"
proof -
  have given: "approval_given (PStr ''approve'')"
    by (simp add: approval_given_def) code_simp
  have lvl: "as_level (PStr ''L3'') = Inr L3" using as_level_str [of L3] by (simp add: level_str_def)
  have found: "dict_get (ss_escalations sample_waiting) ''e1'' = Some sample_pending" by (simp add: sample_waiting_def)
  have reads: "read_mandate ''m1'' sample_waiting = Some (Obj sample_claims)"
    "read_offer ''o1'' sample_waiting = Some (Obj (sample_offer 1250))"
    by (simp_all add: read_mandate_def read_offer_def sample_waiting_def sample_state_def)
  have env: "resolve_envelope sample_env sample_pending sample_instant (PStr ''approve'') PNone None = Inr approved"
    by (simp add: resolve_envelope_def sample_pending_def escalation_expired_def domain_escalation_def Escalation_def
        lvl ensure_utc_def optional_utc_def resolve_escalation_def given)
  have "\<exists>r s'. resolve_gated sample_env ''e1'' sample_pending (Obj sample_claims) (Obj (sample_offer 1250)) sample_instant
      sample_waiting = (Inr r, s') \<and> is_approved (vr_decision r)"
    unfolding resolve_gated_def
    by (simp add: either_s_def bind_s_def sample_spend_waiting lift_res_def sample_evaluate_approved is_approved_def
        sample_env_def sample_pending_def)
       (simp flip: sample_env_def add: sample_svc_reserve sample_waiting_def sample_state_def try_s_def
        resolve_reserved_def bind_s_def on_escalations_def escalation_update_def update_purchase_def on_purchases_def
        purchase_update_def on_velocity_def increment_open_authorizations_def emit_def new_event_def payload_json_def
        lift_res_def on_outbox_def outbox_append_def return_s_def)
  moreover have "er_status sample_pending = ''pending''" "er_mandate_id sample_pending = ''m1''"
    "\<not> er_timeout_at sample_pending \<le> sample_instant" "er_intent sample_pending = sample_request"
    by (simp_all add: sample_pending_def)
  ultimately show ?thesis
    by (simp add: svc_resolve_escalation_def bind_s_def get_s_def found env lift_res_def is_rejected_def reads
        sample_fields src_truthy_def Let_def)
qed


end
