(* ===== verification/Json_Reading.thy ===== *)
theory Json_Reading
  imports Canonical_Json
begin

text \<open>
  Canonical JSON texts can be read in one way only. Text is quoted so that its end is visible, and
  the text of a mapping ends where its brackets are balanced; so a text that concatenates quoted
  parts and a mapping determines them. The audit chain rests on this: its hashes bind the parts of
  an event and not only their concatenation.
\<close>

section \<open>Quoted text\<close>

definition hex_value :: "char \<Rightarrow> nat" where
  "hex_value c = (let n = of_char c in if n < 58 then n - 48 else n - 87)"

lemma hex_value_char [simp]: "n < 16 \<Longrightarrow> hex_value (hex_char n) = n"
  by (auto simp: hex_value_def hex_char_def digit_char_def Let_def)

lemma quote_code [simp]: "char_of (34::nat) = CHR 0x22" and backslash_code [simp]: "char_of (92::nat) = CHR 0x5C"
  by code_simp+

text \<open>A reader of one escaped character.\<close>

definition read_char :: "string \<Rightarrow> (char \<times> string) option" where
  "read_char s =
     (case s of
        [] \<Rightarrow> None
      | c # cs \<Rightarrow>
          if (of_char c :: nat) \<noteq> 92 then Some (c, cs)
          else
            (case cs of
               [] \<Rightarrow> None
             | d # ds \<Rightarrow>
                 if (of_char d :: nat) = 34 \<or> (of_char d :: nat) = 92 then Some (d, ds)
                 else if d = CHR ''b'' then Some (char_of (8::nat), ds)
                 else if d = CHR ''t'' then Some (char_of (9::nat), ds)
                 else if d = CHR ''n'' then Some (char_of (10::nat), ds)
                 else if d = CHR ''f'' then Some (char_of (12::nat), ds)
                 else if d = CHR ''r'' then Some (char_of (13::nat), ds)
                 else Some (char_of (16 * hex_value (ds ! 2) + hex_value (ds ! 3)), drop 4 ds)))"

lemma read_json_char: "read_char (json_char c @ r) = Some (c, r)"
proof -
  define n where "n = (of_char c :: nat)"
  then have oc: "of_char c = n" and c: "char_of n = c" by simp_all
  consider "n = 34 \<or> n = 92" | "n = 8" | "n = 9" | "n = 10" | "n = 12" | "n = 13"
    | (ctl) "n < 32" "n \<noteq> 8" "n \<noteq> 9" "n \<noteq> 10" "n \<noteq> 12" "n \<noteq> 13" | (plain) "32 \<le> n" "n \<noteq> 34" "n \<noteq> 92" by linarith
  then show ?thesis
  proof cases
    case ctl
    then have "n div 16 < 16" "n mod 16 < 16" "16 * (n div 16) + n mod 16 = n" by simp_all
    with ctl show ?thesis by (simp add: json_char_def read_char_def Let_def oc c)
  next
    case plain
    then show ?thesis by (simp add: json_char_def read_char_def Let_def oc)
  next
    case 1
    then show ?thesis by (auto simp: json_char_def read_char_def Let_def oc)
  qed (use c in \<open>auto simp: json_char_def read_char_def Let_def oc\<close>)
qed

lemma json_char_read:
  assumes "json_char a @ r = json_char b @ r'"
  shows "a = b \<and> r = r'"
proof -
  have "Some (a, r) = read_char (json_char a @ r)" by (simp only: read_json_char)
  also have "\<dots> = Some (b, r')" by (simp only: assms read_json_char)
  finally show ?thesis by simp
qed

abbreviation quote_char :: char where
  "quote_char \<equiv> CHR 0x22"

lemma json_char_no_quote: "json_char c @ r \<noteq> quote_char # r'"
  by (auto simp: json_char_def Let_def)

lemma json_body_read:
  "concat (map json_char a) @ quote_char # r = concat (map json_char b) @ quote_char # r' \<Longrightarrow> a = b \<and> r = r'"
proof (induction a arbitrary: b)
  case Nil
  then show ?case
    using json_char_no_quote by (cases b) (auto, metis append.assoc)
next
  case (Cons x a)
  show ?case
  proof (cases b)
    case Nil
    with Cons.prems json_char_no_quote show ?thesis by simp
  next
    case (Cons y b')
    with Cons.prems have "json_char x @ (concat (map json_char a) @ quote_char # r)
        = json_char y @ (concat (map json_char b') @ quote_char # r')" by simp
    from json_char_read [OF this] Cons.IH [of b'] show ?thesis using Cons by simp
  qed
qed

lemma json_string_read: "json_string a @ r = json_string b @ r' \<Longrightarrow> a = b \<and> r = r'"
  using json_body_read [of a r b r'] by (simp add: json_string_def)

section \<open>Brackets\<close>

datatype scan_mode = Outside | Quoted | Escaped

fun scan_step :: "int \<times> scan_mode \<Rightarrow> char \<Rightarrow> int \<times> scan_mode" where
  "scan_step (d, Outside) c =
     (if c = quote_char then (d, Quoted)
      else if c \<in> {CHR ''{'', CHR ''[''} then (d + 1, Outside)
      else if c \<in> {CHR ''}'', CHR '']''} then (d - 1, Outside)
      else (d, Outside))"
| "scan_step (d, Quoted) c =
     (if c = CHR 0x5C then (d, Escaped) else if c = quote_char then (d, Outside) else (d, Quoted))"
| "scan_step (d, Escaped) c = (d, Quoted)"

abbreviation scan :: "int \<times> scan_mode \<Rightarrow> string \<Rightarrow> int \<times> scan_mode" where
  "scan \<equiv> foldl scan_step"

text \<open>The depth stays at \<open>d\<close> or above over all prefixes.\<close>

fun stays :: "int \<Rightarrow> int \<times> scan_mode \<Rightarrow> string \<Rightarrow> bool" where
  "stays d st [] = (d \<le> fst st)"
| "stays d st (c # cs) = (d \<le> fst st \<and> stays d (scan_step st c) cs)"

lemma stays_append: "stays d st (a @ b) \<longleftrightarrow> stays d st a \<and> stays d (scan st a) b"
  by (induction a arbitrary: st) (auto elim: stays.elims)

lemma stays_prefix: "stays d st (a @ b) \<Longrightarrow> d \<le> fst (scan st a)"
  by (induction a arbitrary: st) (auto elim: stays.elims)

definition balanced :: "string \<Rightarrow> bool" where
  "balanced t \<longleftrightarrow> (\<forall>d. scan (d, Outside) t = (d, Outside) \<and> stays d (d, Outside) t)"

lemma stays_mono: "stays d st t \<Longrightarrow> e \<le> d \<Longrightarrow> stays e st t"
  by (induction t arbitrary: st) auto

lemma balanced_append: "balanced a \<Longrightarrow> balanced b \<Longrightarrow> balanced (a @ b)"
  by (simp add: balanced_def stays_append)

lemma balanced_Nil [simp]: "balanced []"
  by (simp add: balanced_def)

lemma balanced_plain:
  "c \<notin> {quote_char, CHR ''{'', CHR ''['', CHR ''}'', CHR '']''} \<Longrightarrow> balanced t \<Longrightarrow> balanced (c # t)"
  by (simp add: balanced_def)

lemma balanced_plain_all:
  "\<forall>c \<in> set t. c \<notin> {quote_char, CHR ''{'', CHR ''['', CHR ''}'', CHR '']''} \<Longrightarrow> balanced t"
  by (induction t) (auto intro!: balanced_plain)

lemma balanced_bracket:
  assumes "balanced t" "(a, z) \<in> {(CHR ''{'', CHR ''}''), (CHR ''['', CHR '']'')}"
  shows "balanced (a # t @ [z])"
proof -
  have "stays d (d + 1, Outside) t" for d
    using assms(1) stays_mono [of "d + 1" "(d + 1, Outside)" t d] by (simp add: balanced_def)
  with assms show ?thesis by (auto simp: balanced_def stays_append)
qed

lemma hex_char_plain: "k < 16 \<Longrightarrow> hex_char k \<noteq> CHR 0x5C \<and> hex_char k \<noteq> quote_char"
proof -
  assume "k < 16"
  have "list_all (\<lambda>k. hex_char k \<noteq> CHR 0x5C \<and> hex_char k \<noteq> quote_char) [0..<16]" by code_simp
  with \<open>k < 16\<close> show ?thesis by (simp add: list_all_iff)
qed

lemma scan_json_char: "scan (d, Quoted) (json_char c) = (d, Quoted) \<and> stays d (d, Quoted) (json_char c)"
proof -
  have "c = CHR 0x5C \<Longrightarrow> of_char c = (92::nat)" "c = quote_char \<Longrightarrow> of_char c = (34::nat)" by simp_all
  then show ?thesis using hex_char_plain by (auto simp: json_char_def Let_def)
qed
lemma scan_json_body:
  "scan (d, Quoted) (concat (map json_char s)) = (d, Quoted) \<and> stays d (d, Quoted) (concat (map json_char s))"
  by (induction s) (use scan_json_char in \<open>auto simp: stays_append\<close>)

lemma balanced_json_string [simp]: "balanced (json_string s)"
  using scan_json_body by (simp add: balanced_def json_string_def stays_append)

lemma balanced_join: "(\<And>t. t \<in> set ts \<Longrightarrow> balanced t) \<Longrightarrow> balanced (join_str '','' ts)"
proof -
  have tail: "balanced (concat (map ((@) '','') us))" if "\<And>u. u \<in> set us \<Longrightarrow> balanced u" for us
    using that by (induction us) (auto intro!: balanced_append balanced_plain)
  assume "\<And>t. t \<in> set ts \<Longrightarrow> balanced t"
  then show ?thesis
    using tail [of "tl ts"] by (cases ts) (auto simp: join_str_def intro!: balanced_append)
qed

lemma balanced_int_str: "balanced (int_str i)"
proof -
  have "is_digit c \<Longrightarrow> c \<notin> {quote_char, CHR ''{'', CHR ''['', CHR ''}'', CHR '']''}" for c
    by (auto simp: is_digit_def)
  then have "balanced (nat_str n)" for n
    using all_digits_nat_str [of n] by (intro balanced_plain_all) (auto simp: list_all_iff)
  then show ?thesis by (auto simp: int_str_def intro!: balanced_plain)
qed

text \<open>The text of a value without floats is balanced.\<close>

lemma json_dumps_balanced:
  "json_dumps dflt v = Inr t \<Longrightarrow> no_floats v \<Longrightarrow> balanced t"
  "json_items dflt vs = Inr ts \<Longrightarrow> no_floats_list vs \<Longrightarrow> (\<forall>t \<in> set ts. balanced t)"
  "json_entries dflt m = Inr es \<Longrightarrow> no_floats_dict m \<Longrightarrow> (\<forall>(k, t) \<in> set es. balanced t)"
proof (induction dflt v and dflt vs and dflt m arbitrary: t and ts and es rule: json_dumps_json_items_json_entries.induct)
  case (8 dflt xs)
  then show ?case
    by (auto simp: bind_res_Inr_iff intro!: balanced_bracket [where a = "CHR ''[''" and z = "CHR '']''", simplified] balanced_join)
next
  case (9 dflt m)
  then obtain es where es: "json_entries dflt m = Inr es"
    and t: "t = ''{'' @ join_str '','' (map (\<lambda>(k, t). json_string k @ '':'' @ t) (sort_key fst es)) @ ''}''"
    by (auto simp: bind_res_Inr_iff)
  from 9 es have "\<forall>(k, u) \<in> set es. balanced u" by simp
  then have "balanced (join_str '','' (map (\<lambda>(k, t). json_string k @ '':'' @ t) (sort_key fst es)))"
    by (intro balanced_join) (auto intro!: balanced_append balanced_plain)
  then show ?case
    unfolding t using balanced_bracket [where a = "CHR ''{''" and z = "CHR ''}''"] by simp
next
  case (1 dflt)
  then show ?case by (auto intro!: balanced_plain)
next
  case (2 dflt b)
  then show ?case by (auto intro!: balanced_plain)
qed (auto simp: bind_res_Inr_iff balanced_int_str intro: balanced_plain)

section \<open>The text of a mapping ends where its brackets close\<close>

lemma dict_text:
  assumes "json_dumps dflt (PDict m) = Inr t" "no_floats (PDict m)"
  shows "\<exists>u. t = CHR ''{'' # u @ ''}'' \<and> balanced u"
proof -
  from assms(1) obtain es where es: "json_entries dflt m = Inr es"
    and t: "t = ''{'' @ join_str '','' (map (\<lambda>(k, t). json_string k @ '':'' @ t) (sort_key fst es)) @ ''}''"
    by (auto simp: bind_res_Inr_iff)
  have "\<forall>(k, u) \<in> set es. balanced u" using json_dumps_balanced(3) [OF es] assms(2) by simp
  then have "balanced (join_str '','' (map (\<lambda>(k, t). json_string k @ '':'' @ t) (sort_key fst es)))"
    by (intro balanced_join) (auto intro!: balanced_append balanced_plain)
  with t show ?thesis by auto
qed

lemma closed_text_read:
  assumes "balanced u" "balanced v" "(CHR ''{'' # u @ ''}'') @ r = (CHR ''{'' # v @ ''}'') @ r'"
  shows "u = v \<and> r = r'"
proof -
  have no: "\<not> length x < length y"
    if "balanced x" "balanced y" "(CHR ''{'' # x @ ''}'') @ p = (CHR ''{'' # y @ ''}'') @ q" for x y p q
  proof
    assume "length x < length y"
    with that(3) obtain z where z: "y = x @ CHR ''}'' # z"
      by (auto simp: append_eq_append_conv2 Cons_eq_append_conv)
    from that(2) have "stays 1 (1, Outside) (x @ [CHR ''}''] @ z)" by (simp add: balanced_def z)
    then have "stays 1 (1, Outside) ((x @ [CHR ''}'']) @ z)" by simp
    from stays_prefix [OF this] that(1) show False by (simp add: balanced_def)
  qed
  have "length u = length v" using no [OF assms] no [OF assms(2,1) assms(3) [symmetric]] by linarith
  with assms(3) show ?thesis by simp
qed

lemma json_dict_read:
  assumes "json_dumps dflt (PDict m) = Inr t" "no_floats (PDict m)"
    and "json_dumps dflt (PDict n) = Inr t'" "no_floats (PDict n)"
    and "t @ r = t' @ r'"
  shows "t = t' \<and> r = r'"
proof -
  from dict_text [OF assms(1,2)] dict_text [OF assms(3,4)] obtain u v where
    "t = CHR ''{'' # u @ ''}''" "balanced u" "t' = CHR ''{'' # v @ ''}''" "balanced v" by blast
  with closed_text_read [of u v r r'] assms(5) show ?thesis by simp
qed

end
