(* ===== verification/Audit_Ledger.thy ===== *)
theory Audit_Ledger
  imports Json_Reading
begin

text \<open>
  The append-only audit ledger of \<^verbatim>\<open>src/src/api/audit\<close>: the hashes of events and roots
  (\<^verbatim>\<open>hashing.py\<close>), the validation of a chain (\<^verbatim>\<open>chain.py\<close>), the records (\<^verbatim>\<open>models.py\<close>), the in-memory
  repository and witness (\<^verbatim>\<open>repository_memory.py\<close>, \<^verbatim>\<open>witness_memory.py\<close>) and the service that signs and
  verifies roots (\<^verbatim>\<open>service.py\<close>). SHA-256 and the signature scheme are parameters; a signature is its
  hexadecimal text, and the verification of a text that is not hexadecimal answers \<open>False\<close>, as the
  handler of the code does. The clock is an argument of the operations that read it.
\<close>

section \<open>Hashes\<close>

type_synonym hash_fun = "string \<Rightarrow> string"

definition GENESIS_PREV_HASH :: string where
  "GENESIS_PREV_HASH = replicate 64 (CHR ''0'')"

definition event_envelope :: "string \<Rightarrow> string \<Rightarrow> string \<Rightarrow> pyval \<Rightarrow> string \<Rightarrow> pydict" where
  "event_envelope at mid ty payload prev =
     [(''created_at'', PStr at), (''mandate_id'', PStr mid), (''payload'', payload),
      (''prev_hash'', PStr prev), (''type'', PStr ty)]"

definition compute_event_hash ::
  "hash_fun \<Rightarrow> string \<Rightarrow> string \<Rightarrow> pyval \<Rightarrow> string \<Rightarrow> pyval \<Rightarrow> string res" where
  "compute_event_hash sha mid ty payload prev created =
     (if mid = [] then Inl ValueError
      else if ty = [] then Inl ValueError
      else if length prev \<noteq> 64 then Inl ValueError
      else
        bind_res (normalize_utc created) (\<lambda>at.
        bind_res (audit_canonical_json (PDict (event_envelope at mid ty payload prev))) (\<lambda>t.
        Inr (sha t))))"

definition root_envelope :: "int \<Rightarrow> int \<Rightarrow> string \<Rightarrow> int \<Rightarrow> pydict" where
  "root_envelope seq_start seq_end last_hash cardinality =
     [(''cardinality'', PInt cardinality), (''last_hash'', PStr last_hash),
      (''seq_end'', PInt seq_end), (''seq_start'', PInt seq_start)]"

definition compute_root_hash :: "hash_fun \<Rightarrow> int \<Rightarrow> int \<Rightarrow> string \<Rightarrow> int \<Rightarrow> string res" where
  "compute_root_hash sha seq_start seq_end last_hash cardinality =
     (if seq_start < 1 \<or> seq_end < seq_start then Inl ValueError
      else if cardinality \<noteq> seq_end - seq_start + 1 then Inl ValueError
      else if length last_hash \<noteq> 64 then Inl ValueError
      else
        bind_res (audit_canonical_json (PDict (root_envelope seq_start seq_end last_hash cardinality))) (\<lambda>t.
        Inr (sha t)))"

section \<open>Records\<close>

record audit_event =
  ae_mandate_id :: string
  ae_type :: string
  ae_payload :: pydict
  ae_prev_hash :: string
  ae_hash :: string
  ae_created_at :: instant
  ae_seq :: "int option"
  ae_root_sig :: "string option"

text \<open>\<^verbatim>\<open>__post_init__\<close> of \<^verbatim>\<open>AuditEvent\<close>; the timestamp is the normalized one.\<close>

definition check_event :: "audit_event \<Rightarrow> audit_event res" where
  "check_event e =
     (if ae_mandate_id e = [] \<or> ae_type e = [] \<or> length (ae_prev_hash e) \<noteq> 64 \<or> length (ae_hash e) \<noteq> 64
         \<or> (case ae_seq e of Some n \<Rightarrow> n < 1 | None \<Rightarrow> False)
      then Inl ValueError else Inr e)"

record chain_result =
  cr_ok :: bool
  cr_first_bad_seq :: "int option"
  cr_reason :: "string option"
  cr_verified_count :: int
  cr_last_hash :: "string option"

definition chain_ok :: "int \<Rightarrow> string option \<Rightarrow> chain_result" where
  "chain_ok n h = \<lparr>cr_ok = True, cr_first_bad_seq = None, cr_reason = None, cr_verified_count = n, cr_last_hash = h\<rparr>"

definition chain_bad :: "int option \<Rightarrow> string \<Rightarrow> int \<Rightarrow> chain_result" where
  "chain_bad bad reason n =
     \<lparr>cr_ok = False, cr_first_bad_seq = bad, cr_reason = Some reason, cr_verified_count = n, cr_last_hash = None\<rparr>"

lemma chain_result_simps [simp]:
  "cr_ok (chain_ok n h)" "\<not> cr_ok (chain_bad b r n)" "cr_last_hash (chain_ok n h) = h"
  "cr_verified_count (chain_ok n h) = n" "cr_first_bad_seq (chain_bad b r n) = b"
  "cr_verified_count (chain_bad b r n) = n" "cr_reason (chain_bad b r n) = Some r"
  by (simp_all add: chain_ok_def chain_bad_def)

record root_checkpoint =
  rc_seq_start :: int
  rc_seq_end :: int
  rc_root_hash :: string
  rc_root_sig :: string
  rc_cardinality :: int
  rc_created_at :: instant

definition RootCheckpoint :: "int \<Rightarrow> int \<Rightarrow> string \<Rightarrow> string \<Rightarrow> int \<Rightarrow> instant \<Rightarrow> root_checkpoint res" where
  "RootCheckpoint seq_start seq_end root_hash root_sig cardinality now =
     (if seq_start < 1 \<or> seq_end < seq_start then Inl ValueError
      else if cardinality \<noteq> seq_end - seq_start + 1 then Inl ValueError
      else if length root_hash \<noteq> 64 then Inl ValueError
      else if root_sig = [] then Inl ValueError
      else Inr \<lparr>rc_seq_start = seq_start, rc_seq_end = seq_end, rc_root_hash = root_hash,
                rc_root_sig = root_sig, rc_cardinality = cardinality, rc_created_at = now\<rparr>)"

section \<open>Validation of a chain\<close>

definition event_hash :: "hash_fun \<Rightarrow> audit_event \<Rightarrow> string res" where
  "event_hash sha e =
     compute_event_hash sha (ae_mandate_id e) (ae_type e) (PDict (ae_payload e)) (ae_prev_hash e)
       (PTime (Aware (ae_created_at e)))"

definition validate_event :: "hash_fun \<Rightarrow> audit_event \<Rightarrow> string \<Rightarrow> (bool \<times> string option) res" where
  "validate_event sha e expected =
     (if ae_prev_hash e \<noteq> expected
      then Inr (False, Some (''prev_hash mismatch: expected '' @ expected @ '', got '' @ ae_prev_hash e))
      else
        bind_res (event_hash sha e) (\<lambda>h.
        if ae_hash e \<noteq> h
        then Inr (False, Some (''hash mismatch: recomputed '' @ h @ '', recorded '' @ ae_hash e))
        else Inr (True, None)))"

definition expected_prev :: "string option \<Rightarrow> audit_event option \<Rightarrow> audit_event \<Rightarrow> string" where
  "expected_prev start prev e =
     (case prev of
        Some p \<Rightarrow> ae_hash p
      | None \<Rightarrow> (case start of
                   Some h \<Rightarrow> h
                 | None \<Rightarrow> if ae_seq e = Some 1 then GENESIS_PREV_HASH else ae_prev_hash e))"

definition sequence_gap :: "bool \<Rightarrow> audit_event option \<Rightarrow> audit_event \<Rightarrow> (int \<times> int) option" where
  "sequence_gap check prev e =
     (if check
      then (case prev of
              None \<Rightarrow> None
            | Some p \<Rightarrow> (case (ae_seq p, ae_seq e) of
                           (Some m, Some n) \<Rightarrow> if n \<noteq> m + 1 then Some (m, n) else None
                         | _ \<Rightarrow> None))
      else None)"

text \<open>The loop of \<^verbatim>\<open>validate_chain\<close> at index \<open>i\<close>, after the event \<open>prev\<close>.\<close>

fun chain_loop ::
  "hash_fun \<Rightarrow> string option \<Rightarrow> bool \<Rightarrow> int \<Rightarrow> audit_event option \<Rightarrow> audit_event list \<Rightarrow> chain_result res" where
  "chain_loop sha start check i prev [] = Inr (chain_ok i (map_option ae_hash prev))"
| "chain_loop sha start check i prev (e # es) =
     (case sequence_gap check prev e of
        Some (m, n) \<Rightarrow>
          Inr (chain_bad (Some n) (''sequence gap detected at index '' @ int_str i @ '': expected seq ''
                                   @ int_str (m + 1) @ '', got '' @ int_str n) i)
      | None \<Rightarrow>
          bind_res (validate_event sha e (expected_prev start prev e)) (\<lambda>(valid, reason).
          if \<not> valid
          then Inr (chain_bad (Some (case ae_seq e of Some n \<Rightarrow> n | None \<Rightarrow> i + 1)) (the reason) i)
          else chain_loop sha start check (i + 1) (Some e) es))"

definition validate_chain :: "hash_fun \<Rightarrow> audit_event list \<Rightarrow> string option \<Rightarrow> bool \<Rightarrow> chain_result res" where
  "validate_chain sha es start check = chain_loop sha start check 0 None es"

section \<open>The repository\<close>

type_synonym ledger_repo = "audit_event list"

definition ledger_append ::
  "hash_fun \<Rightarrow> string \<Rightarrow> string \<Rightarrow> pydict \<Rightarrow> dtime option \<Rightarrow> instant \<Rightarrow> (ledger_repo, audit_event) sres" where
  "ledger_append sha mid ty payload created now es =
     (let prev = (if es = [] then GENESIS_PREV_HASH else ae_hash (last es));
          ts = (case created of Some t \<Rightarrow> t | None \<Rightarrow> Aware now)
      in case bind_res (compute_event_hash sha mid ty (PDict payload) prev (PTime ts)) (\<lambda>h.
              case ts of
                Naive _ \<Rightarrow> Inl ValueError
              | Aware t \<Rightarrow>
                  check_event \<lparr>ae_mandate_id = mid, ae_type = ty, ae_payload = payload, ae_prev_hash = prev,
                               ae_hash = h, ae_created_at = t, ae_seq = Some (int (length es) + 1),
                               ae_root_sig = None\<rparr>) of
           Inl e \<Rightarrow> (Inl e, es)
         | Inr e \<Rightarrow> (Inr e, es @ [e]))"

definition seq_between :: "int \<Rightarrow> int \<Rightarrow> audit_event \<Rightarrow> bool" where
  "seq_between a b e = (case ae_seq e of Some n \<Rightarrow> a \<le> n \<and> n \<le> b | None \<Rightarrow> False)"

definition get_range :: "ledger_repo \<Rightarrow> int \<Rightarrow> int \<Rightarrow> audit_event list" where
  "get_range es a b = filter (seq_between a b) es"

definition get_by_mandate :: "ledger_repo \<Rightarrow> string \<Rightarrow> audit_event list" where
  "get_by_mandate es mid = filter (\<lambda>e. ae_mandate_id e = mid) es"

definition get_tail :: "ledger_repo \<Rightarrow> audit_event option" where
  "get_tail es = (if es = [] then None else Some (last es))"

text \<open>
  \<^verbatim>\<open>annotate_root\<close> builds each annotated event with the constructor, whose checks may raise; the
  list is replaced at the end.
\<close>

definition annotate_event :: "int \<Rightarrow> int \<Rightarrow> string \<Rightarrow> audit_event \<Rightarrow> audit_event res" where
  "annotate_event a b sig e =
     (if seq_between a b e \<and> ae_root_sig e = None then check_event (e\<lparr>ae_root_sig := Some sig\<rparr>) else Inr e)"

definition annotate_root :: "int \<Rightarrow> int \<Rightarrow> string \<Rightarrow> (ledger_repo, int) sres" where
  "annotate_root a b sig es =
     (case map_res (annotate_event a b sig) es of
        Inl x \<Rightarrow> (Inl x, es)
      | Inr es' \<Rightarrow> (Inr (int (length (filter (\<lambda>e. seq_between a b e \<and> ae_root_sig e = None) es))), es'))"

text \<open>\<^verbatim>\<open>tamper\<close> replaces a field of the first event with the given sequence number, checked or not.\<close>

fun tamper_first :: "int \<Rightarrow> (audit_event \<Rightarrow> audit_event) \<Rightarrow> ledger_repo \<Rightarrow> ledger_repo option" where
  "tamper_first n f [] = None"
| "tamper_first n f (e # es) =
     (if ae_seq e = Some n then Some (f e # es) else map_option ((#) e) (tamper_first n f es))"

definition ledger_tamper :: "int \<Rightarrow> (audit_event \<Rightarrow> audit_event) \<Rightarrow> (ledger_repo, unit) sres" where
  "ledger_tamper n f es =
     (case tamper_first n f es of None \<Rightarrow> (Inl ValueError, es) | Some es' \<Rightarrow> (Inr (), es'))"

section \<open>The witness\<close>

type_synonym witness_store = "(int \<times> int, root_checkpoint) dict"

definition witness_put :: "root_checkpoint \<Rightarrow> (witness_store, unit) sres" where
  "witness_put cp w =
     (let key = (rc_seq_start cp, rc_seq_end cp)
      in case dict_get w key of
           Some _ \<Rightarrow> (Inl ValueError, w)
         | None \<Rightarrow> (Inr (), dict_set key cp w))"

definition witness_get :: "witness_store \<Rightarrow> int \<Rightarrow> int \<Rightarrow> root_checkpoint option" where
  "witness_get w a b = dict_get w (a, b)"

definition witness_delete :: "int \<Rightarrow> int \<Rightarrow> witness_store \<Rightarrow> witness_store" where
  "witness_delete a b w = dict_pop (a, b) w"

definition witness_tamper :: "int \<Rightarrow> int \<Rightarrow> (root_checkpoint \<Rightarrow> root_checkpoint) \<Rightarrow> (witness_store, unit) sres" where
  "witness_tamper a b f w =
     (case dict_get w (a, b) of None \<Rightarrow> (Inl ValueError, w) | Some cp \<Rightarrow> (Inr (), dict_set (a, b) (f cp) w))"

section \<open>The ledger service\<close>

record root_signer =
  sg_sign :: "string \<Rightarrow> string res"
  sg_verify :: "string \<Rightarrow> string \<Rightarrow> bool"

record ledger_state =
  ls_repo :: ledger_repo
  ls_witness :: witness_store

definition svc_append ::
  "hash_fun \<Rightarrow> string \<Rightarrow> string \<Rightarrow> pydict \<Rightarrow> dtime option \<Rightarrow> instant \<Rightarrow> (ledger_state, audit_event) sres" where
  "svc_append sha ty mid payload created now s =
     (case ledger_append sha mid ty payload created now (ls_repo s) of (r, es) \<Rightarrow> (r, s\<lparr>ls_repo := es\<rparr>))"

text \<open>The range of a root when its ends are not given.\<close>

definition annotated_seqs :: "audit_event list \<Rightarrow> int list" where
  "annotated_seqs es = map (the \<circ> ae_seq) (filter (\<lambda>e. ae_seq e \<noteq> None \<and> ae_root_sig e \<noteq> None) es)"

definition seq_or :: "audit_event \<Rightarrow> int \<Rightarrow> int" where
  "seq_or e d = (case ae_seq e of Some n \<Rightarrow> if n = 0 then d else n | None \<Rightarrow> d)"

definition root_start :: "audit_event list \<Rightarrow> int option \<Rightarrow> int" where
  "root_start es start =
     (case start of
        Some a \<Rightarrow> a
      | None \<Rightarrow> if annotated_seqs es \<noteq> [] then Max (set (annotated_seqs es)) + 1 else seq_or (hd es) 1)"

definition root_end :: "audit_event list \<Rightarrow> int option \<Rightarrow> int" where
  "root_end es stop = (case stop of Some b \<Rightarrow> b | None \<Rightarrow> seq_or (last es) (int (length es)))"

text \<open>The checkpoint of a range, computed and signed; nothing is stored yet.\<close>

definition make_root ::
  "hash_fun \<Rightarrow> root_signer \<Rightarrow> audit_event list \<Rightarrow> int \<Rightarrow> int \<Rightarrow> instant \<Rightarrow> root_checkpoint res" where
  "make_root sha sg es a b now =
     (let rs = get_range es a b
      in if a > b then Inl ValueError
         else if rs = [] then Inl ValueError
         else
           bind_res (validate_chain sha rs (Some (ae_prev_hash (hd rs))) True) (\<lambda>v.
           if \<not> cr_ok v then Inl RuntimeError
           else
             bind_res (compute_root_hash sha a b (ae_hash (last rs)) (int (length rs))) (\<lambda>h.
             bind_res (sg_sign sg h) (\<lambda>sig.
             RootCheckpoint a b h sig (int (length rs)) now))))"

text \<open>The events are annotated before the witness is asked, and stay so when it refuses.\<close>

definition sign_root ::
  "hash_fun \<Rightarrow> root_signer \<Rightarrow> int option \<Rightarrow> int option \<Rightarrow> instant \<Rightarrow> (ledger_state, root_checkpoint) sres" where
  "sign_root sha sg start stop now s =
     (if ls_repo s = [] then (Inl ValueError, s)
      else
        (let a = root_start (ls_repo s) start; b = root_end (ls_repo s) stop
         in case make_root sha sg (ls_repo s) a b now of
              Inl e \<Rightarrow> (Inl e, s)
            | Inr cp \<Rightarrow>
                (case annotate_root a b (rc_root_sig cp) (ls_repo s) of
                   (Inl e, es) \<Rightarrow> (Inl e, s\<lparr>ls_repo := es\<rparr>)
                 | (Inr _, es) \<Rightarrow>
                     (case witness_put cp (ls_witness s) of
                        (Inl e, w) \<Rightarrow> (Inl e, s\<lparr>ls_repo := es, ls_witness := w\<rparr>)
                      | (Inr _, w) \<Rightarrow> (Inr cp, s\<lparr>ls_repo := es, ls_witness := w\<rparr>)))))"

text \<open>\<^verbatim>\<open>verify_chain\<close> of one mandate: the hashes of its events, without their links.\<close>

fun verify_projection :: "hash_fun \<Rightarrow> string \<Rightarrow> audit_event list \<Rightarrow> audit_event list \<Rightarrow> chain_result res" where
  "verify_projection sha mid all [] = Inr (chain_ok (int (length all)) (Some (ae_hash (last all))))"
| "verify_projection sha mid all (e # es) =
     bind_res (event_hash sha e) (\<lambda>h.
     if ae_hash e \<noteq> h
     then Inr (chain_bad (ae_seq e) (''Hash mismatch at seq '' @ py_str (case ae_seq e of Some n \<Rightarrow> PInt n | None \<Rightarrow> PNone)
                                     @ '' in mandate '' @ mid) 0)
     else verify_projection sha mid all es)"

text \<open>
  Contiguous events with the same signature form a range. The loop keeps the current signature, the
  start of its range and the last sequence number.
\<close>

fun checkpoint_loop ::
  "string option \<Rightarrow> int option \<Rightarrow> int option \<Rightarrow> audit_event list \<Rightarrow> (int \<times> int \<times> string) list" where
  "checkpoint_loop cur start lst [] =
     (case (cur, start, lst) of (Some sig, Some a, Some b) \<Rightarrow> [(a, b, sig)] | _ \<Rightarrow> [])"
| "checkpoint_loop cur start lst (e # es) =
     (case ae_seq e of
        None \<Rightarrow> checkpoint_loop cur start lst es
      | Some n \<Rightarrow>
          if ae_root_sig e \<noteq> cur
          then (case (cur, start, lst) of (Some sig, Some a, Some b) \<Rightarrow> [(a, b, sig)] | _ \<Rightarrow> [])
               @ checkpoint_loop (ae_root_sig e) (Some n) (Some n) es
          else checkpoint_loop cur start (Some n) es)"

definition checkpoint_ranges :: "audit_event list \<Rightarrow> (int \<times> int \<times> string) list" where
  "checkpoint_ranges es = checkpoint_loop None None None es"

text \<open>The check of one range: \<open>None\<close> when it agrees, and the failure otherwise.\<close>

definition range_text :: "int \<Rightarrow> int \<Rightarrow> string" where
  "range_text a b = int_str a @ ''-'' @ int_str b"

definition verify_range ::
  "hash_fun \<Rightarrow> root_signer \<Rightarrow> witness_store \<Rightarrow> audit_event list \<Rightarrow> int \<times> int \<times> string \<Rightarrow> chain_result option res" where
  "verify_range sha sg w es = (\<lambda>(a, b, sig).
     (let rs = filter (seq_between a b) es; n = int (length es)
      in bind_res (compute_root_hash sha a b (ae_hash (last rs)) (int (length rs))) (\<lambda>h.
         if \<not> sg_verify sg h sig
         then Inr (Some (chain_bad (Some a) (''invalid root signature for sequence range '' @ range_text a b) n))
         else
           (case witness_get w a b of
              None \<Rightarrow> Inr (Some (chain_bad (Some a) (''missing external witness for sequence range '' @ range_text a b) n))
            | Some cp \<Rightarrow>
                if rc_root_hash cp \<noteq> h \<or> rc_root_sig cp \<noteq> sig \<or> rc_cardinality cp \<noteq> int (length rs)
                then Inr (Some (chain_bad (Some a)
                       (''external witness divergence for sequence range '' @ range_text a b @ '': witness hash ''
                        @ rc_root_hash cp @ '', local hash '' @ h) n))
                else Inr None))))"

fun verify_ranges ::
  "hash_fun \<Rightarrow> root_signer \<Rightarrow> witness_store \<Rightarrow> audit_event list \<Rightarrow> (int \<times> int \<times> string) list \<Rightarrow> chain_result res" where
  "verify_ranges sha sg w es [] = Inr (chain_ok (int (length es)) (Some (ae_hash (last es))))"
| "verify_ranges sha sg w es (r # rs) =
     bind_res (verify_range sha sg w es r) (\<lambda>bad.
     case bad of Some c \<Rightarrow> Inr c | None \<Rightarrow> verify_ranges sha sg w es rs)"

definition verify_chain ::
  "hash_fun \<Rightarrow> root_signer \<Rightarrow> string option \<Rightarrow> (int \<times> int) option \<Rightarrow> ledger_state \<Rightarrow> chain_result res" where
  "verify_chain sha sg mandate seq_range s =
     (case mandate of
        Some mid \<Rightarrow>
          (let es = get_by_mandate (ls_repo s) mid
           in if es = [] then Inr (chain_ok 0 None) else verify_projection sha mid es es)
      | None \<Rightarrow>
          (let es = (case seq_range of Some (a, b) \<Rightarrow> get_range (ls_repo s) a b | None \<Rightarrow> ls_repo s)
           in if es = [] then Inr (chain_ok 0 None)
              else
                bind_res (validate_chain sha es None True) (\<lambda>c.
                if \<not> cr_ok c then Inr c
                else verify_ranges sha sg (ls_witness s) es (checkpoint_ranges es))))"

section \<open>What a hash binds\<close>

definition entry_text :: "string \<Rightarrow> string \<Rightarrow> string" where
  "entry_text k t = json_string k @ '':'' @ t"

lemma sort_envelope_keys:
  "sort_key fst [(''created_at'', a), (''mandate_id'', b), (''payload'', c), (''prev_hash'', d), (''type'', e)]
   = [(''created_at'', a), (''mandate_id'', b), (''payload'', c), (''prev_hash'', d), (''type'', e)]"
  by (simp add: insort_key_def)

lemma envelope_text:
  "audit_canonical_json (PDict (event_envelope at mid ty (PDict p) prev)) = Inr t \<longleftrightarrow>
   no_floats_dict p \<and> (\<exists>pt. json_dumps audit_json_default (PDict p) = Inr pt
     \<and> t = ''{'' @ entry_text ''created_at'' (json_string at) @ '','' @ entry_text ''mandate_id'' (json_string mid) @ '',''
           @ entry_text ''payload'' pt @ '','' @ entry_text ''prev_hash'' (json_string prev) @ '',''
           @ entry_text ''type'' (json_string ty) @ ''}'')"
proof -
  have "json_dumps dflt (PDict (event_envelope at mid ty (PDict p) prev)) =
     bind_res (json_dumps dflt (PDict p)) (\<lambda>pt.
       Inr (''{'' @ entry_text ''created_at'' (json_string at) @ '','' @ entry_text ''mandate_id'' (json_string mid) @ '',''
           @ entry_text ''payload'' pt @ '','' @ entry_text ''prev_hash'' (json_string prev) @ '',''
           @ entry_text ''type'' (json_string ty) @ ''}''))" for dflt
    by (subst json_dumps.simps(9), cases "json_dumps dflt (PDict p)")
       (simp_all add: event_envelope_def sort_envelope_keys join_str_def entry_text_def del: json_dumps.simps(9))
  moreover have "no_floats (PDict (event_envelope at mid ty (PDict p) prev)) = no_floats_dict p"
    by (simp add: event_envelope_def)
  ultimately show ?thesis
    by (auto simp: audit_canonical_json_def bind_res_Inr_iff simp del: json_dumps.simps(9))
qed

text \<open>Equal texts of two envelopes have equal parts.\<close>

lemma envelope_inject:
  assumes "audit_canonical_json (PDict (event_envelope at mid ty (PDict p) prev)) = Inr t"
    and "audit_canonical_json (PDict (event_envelope at' mid' ty' (PDict p') prev')) = Inr t"
  shows "at = at' \<and> mid = mid' \<and> ty = ty' \<and> prev = prev' \<and> audit_canonical_json (PDict p) = audit_canonical_json (PDict p')"
proof -
  let ?tail = "\<lambda>pt pv tt. pt @ '','' @ entry_text ''prev_hash'' (json_string pv) @ '',''
           @ entry_text ''type'' (json_string tt) @ ''}''"
  from assms obtain pt pt' where
    p: "no_floats_dict p" "json_dumps audit_json_default (PDict p) = Inr pt"
    and p': "no_floats_dict p'" "json_dumps audit_json_default (PDict p') = Inr pt'"
    and eq: "json_string at @ '','' @ entry_text ''mandate_id'' (json_string mid) @ '',''
           @ entry_text ''payload'' (?tail pt prev ty)
         = json_string at' @ '','' @ entry_text ''mandate_id'' (json_string mid') @ '',''
           @ entry_text ''payload'' (?tail pt' prev' ty')"
    unfolding envelope_text by (auto simp: entry_text_def simp del: json_dumps.simps(9))
  from json_string_read [OF eq] have at: "at = at'"
    and eq2: "json_string mid @ '','' @ entry_text ''payload'' (?tail pt prev ty)
        = json_string mid' @ '','' @ entry_text ''payload'' (?tail pt' prev' ty')"
    by (auto simp: entry_text_def)
  from json_string_read [OF eq2] have mid: "mid = mid'" and eq3: "?tail pt prev ty = ?tail pt' prev' ty'"
    by (auto simp: entry_text_def)
  from json_dict_read [OF p(2) _ p'(2) _ eq3] p(1) p'(1) have pt: "pt = pt'"
    and eq4: "json_string prev @ '','' @ entry_text ''type'' (json_string ty) @ ''}''
        = json_string prev' @ '','' @ entry_text ''type'' (json_string ty') @ ''}''"
    by (auto simp: entry_text_def)
  from json_string_read [OF eq4] have prev: "prev = prev'"
    and eq5: "json_string ty @ ''}'' = json_string ty' @ ''}''" by (auto simp: entry_text_def)
  from json_string_read [OF eq5] at mid prev pt p p' show ?thesis
    by (simp add: audit_canonical_json_def del: json_dumps.simps(9))
qed

section \<open>Valid chains\<close>

text \<open>What a valid chain is, without the loop: every event names the hash before it and carries its own.\<close>

fun linked :: "hash_fun \<Rightarrow> string \<Rightarrow> audit_event list \<Rightarrow> bool" where
  "linked sha h [] = True"
| "linked sha h (e # es) =
     (ae_prev_hash e = h \<and> event_hash sha e = Inr (ae_hash e) \<and> linked sha (ae_hash e) es)"

fun numbered :: "int \<Rightarrow> audit_event list \<Rightarrow> bool" where
  "numbered n [] = True"
| "numbered n (e # es) = (ae_seq e = Some n \<and> numbered (n + 1) es)"

lemma numbered_append: "numbered n (es @ fs) \<longleftrightarrow> numbered n es \<and> numbered (n + int (length es)) fs"
  by (induction es arbitrary: n) (auto simp: algebra_simps)

lemma numbered_in: "numbered n es \<Longrightarrow> e \<in> set es \<Longrightarrow> \<exists>k. ae_seq e = Some k \<and> n \<le> k \<and> k < n + int (length es)"
  by (induction es arbitrary: n) fastforce+

lemma linked_append:
  "linked sha h (es @ fs) \<longleftrightarrow> linked sha h es \<and> linked sha (if es = [] then h else ae_hash (last es)) fs"
  by (induction es arbitrary: h) auto

lemma validate_event_ok:
  "validate_event sha e h = Inr (True, r) \<longleftrightarrow> ae_prev_hash e = h \<and> event_hash sha e = Inr (ae_hash e) \<and> r = None"
  by (auto simp: validate_event_def bind_res_Inr_iff)

text \<open>The loop accepts a linked and numbered list, and accepts nothing that is not linked.\<close>

lemma chain_loop_accepts:
  assumes "linked sha h es" "numbered n es"
    and "case prev of
           Some p \<Rightarrow> ae_hash p = h \<and> ae_seq p = Some (n - 1)
         | None \<Rightarrow> (\<forall>e \<in> set (take 1 es). expected_prev start None e = h)"
  shows "chain_loop sha start check i prev es =
    Inr (chain_ok (i + int (length es)) (if es = [] then map_option ae_hash prev else Some (ae_hash (last es))))"
  using assms
proof (induction es arbitrary: h n prev i)
  case Nil
  then show ?case by simp
next
  case (Cons e es)
  have gap: "sequence_gap check prev e = None"
    using Cons.prems by (auto simp: sequence_gap_def split: option.splits)
  have "expected_prev start prev e = h"
    using Cons.prems(3) by (cases prev) (auto simp: expected_prev_def)
  then have "validate_event sha e (expected_prev start prev e) = Inr (True, None)"
    using Cons.prems(1) by (simp add: validate_event_ok)
  with gap Cons.IH [of "ae_hash e" "n + 1" "Some e" "i + 1"] Cons.prems show ?case by (simp add: algebra_simps)
qed

lemma chain_loop_linked:
  "chain_loop sha start check i (Some p) es = Inr c \<Longrightarrow> cr_ok c \<Longrightarrow>
   linked sha (ae_hash p) es \<and> cr_last_hash c = Some (ae_hash (last (p # es)))
   \<and> cr_verified_count c = i + int (length es)"
proof (induction es arbitrary: p i)
  case Nil
  then show ?case by auto
next
  case (Cons e es)
  from Cons.prems have "sequence_gap check (Some p) e = None" by (auto split: option.splits)
  with Cons.prems obtain valid reason where v: "validate_event sha e (ae_hash p) = Inr (valid, reason)"
    by (auto simp: bind_res_Inr_iff expected_prev_def)
  with Cons.prems \<open>sequence_gap check (Some p) e = None\<close> have "valid"
    and rest: "chain_loop sha start check (i + 1) (Some e) es = Inr c"
    by (auto simp: expected_prev_def split: if_splits)
  with v have "ae_prev_hash e = ae_hash p" "event_hash sha e = Inr (ae_hash e)"
    using validate_event_ok [of sha e "ae_hash p" reason] by auto
  with Cons.IH [OF rest Cons.prems(2)] show ?case by simp
qed

lemma sequence_gap_first [simp]: "sequence_gap check None e = None"
  by (simp add: sequence_gap_def)

lemma validate_chain_linked:
  assumes "validate_chain sha (e # es) start check = Inr c" "cr_ok c"
  shows "linked sha (expected_prev start None e) (e # es) \<and> cr_last_hash c = Some (ae_hash (last (e # es)))
     \<and> cr_verified_count c = int (length (e # es))"
proof -
  from assms obtain valid reason where v: "validate_event sha e (expected_prev start None e) = Inr (valid, reason)"
    by (auto simp: validate_chain_def bind_res_Inr_iff)
  with assms have "valid" and rest: "chain_loop sha start check 1 (Some e) es = Inr c"
    by (auto simp: validate_chain_def split: if_splits)
  with v have "ae_prev_hash e = expected_prev start None e" "event_hash sha e = Inr (ae_hash e)"
    using validate_event_ok [of sha e "expected_prev start None e" reason] by auto
  with chain_loop_linked [OF rest assms(2)] show ?thesis by simp
qed

section \<open>Tamper evidence\<close>

definition event_text :: "audit_event \<Rightarrow> string res" where
  "event_text e = audit_canonical_json (PDict (event_envelope (isoformat_z (ae_created_at e)) (ae_mandate_id e)
     (ae_type e) (PDict (ae_payload e)) (ae_prev_hash e)))"

definition same_content :: "audit_event \<Rightarrow> audit_event \<Rightarrow> bool" where
  "same_content e f \<longleftrightarrow> ae_mandate_id e = ae_mandate_id f \<and> ae_type e = ae_type f
     \<and> isoformat_z (ae_created_at e) = isoformat_z (ae_created_at f)
     \<and> ae_prev_hash e = ae_prev_hash f \<and> ae_hash e = ae_hash f
     \<and> audit_canonical_json (PDict (ae_payload e)) = audit_canonical_json (PDict (ae_payload f))"

lemma event_hash_text:
  assumes "event_hash sha e = Inr h"
  shows "\<exists>t. event_text e = Inr t \<and> h = sha t"
  using assms by (auto simp: event_hash_def compute_event_hash_def normalize_utc_def event_text_def bind_res_Inr_iff
      split: if_splits)

text \<open>No two of the given texts collide.\<close>

definition collision_free :: "hash_fun \<Rightarrow> audit_event list \<Rightarrow> audit_event list \<Rightarrow> bool" where
  "collision_free sha es fs \<longleftrightarrow>
     (\<forall>e \<in> set es. \<forall>f \<in> set fs. \<forall>t u. event_text e = Inr t \<longrightarrow> event_text f = Inr u \<longrightarrow> sha t = sha u \<longrightarrow> t = u)"

lemma collision_free_mono:
  "collision_free sha es fs \<Longrightarrow> set es' \<subseteq> set es \<Longrightarrow> set fs' \<subseteq> set fs \<Longrightarrow> collision_free sha es' fs'"
  unfolding collision_free_def by blast

lemma hash_binds_content:
  assumes "event_hash sha e = Inr (ae_hash e)" "event_hash sha f = Inr (ae_hash f)" "ae_hash e = ae_hash f"
    and "collision_free sha [e] [f]"
  shows "same_content e f"
proof -
  obtain t u where t: "event_text e = Inr t" "ae_hash e = sha t" and u: "event_text f = Inr u" "ae_hash f = sha u"
    using event_hash_text [OF assms(1)] event_hash_text [OF assms(2)] by blast
  then have "t = u" using assms(3,4) unfolding collision_free_def by (metis list.set_intros(1))
  with t u have "event_text f = Inr t" by simp
  from envelope_inject [OF t(1) [unfolded event_text_def] this [unfolded event_text_def]] assms(3) show ?thesis
    by (simp only: same_content_def)
qed

lemma linked_same_head:
  assumes "linked sha g es" "linked sha g' fs" "length es = length fs" "es \<noteq> []"
    and "ae_hash (last es) = ae_hash (last fs)" "collision_free sha es fs"
  shows "list_all2 same_content es fs"
  using assms
proof (induction es arbitrary: fs rule: rev_induct)
  case Nil
  then show ?case by simp
next
  case (snoc e es)
  then obtain gs f where fs: "fs = gs @ [f]" by (cases fs rule: rev_exhaust) auto
  have ef: "event_hash sha e = Inr (ae_hash e)" "event_hash sha f = Inr (ae_hash f)" "ae_hash e = ae_hash f"
    using snoc.prems(1,2,5) unfolding fs linked_append by simp_all
  have cf: "collision_free sha [e] [f]" "collision_free sha es gs"
    using collision_free_mono [OF snoc.prems(6)] by (simp_all add: fs subset_iff)
  have same: "same_content e f" by (rule hash_binds_content [OF ef cf(1)])
  show ?case
  proof (cases "es = []")
    case True
    with snoc.prems(3) fs same show ?thesis by simp
  next
    case False
    then have "gs \<noteq> []" using snoc.prems(3) by (auto simp: fs)
    have "ae_hash (last es) = ae_prev_hash e" "ae_hash (last gs) = ae_prev_hash f"
      using snoc.prems(1,2) False \<open>gs \<noteq> []\<close> by (simp_all add: fs linked_append)
    then have "ae_hash (last es) = ae_hash (last gs)" using same by (simp add: same_content_def)
    then have "list_all2 same_content es gs"
      using snoc.IH [of gs] snoc.prems(1-3) False cf(2) by (simp add: fs linked_append)
    with same show ?thesis by (simp add: fs list_all2_appendI)
  qed
qed

text \<open>
  C7: the ledger is tamper evident. Two chains of the same length that both validate and end in the
  same hash have the same content, event by event: mandate, type, time, links, hashes and canonical
  payload. Whoever keeps only the last hash notices every change to any event of the chain, unless it
  comes with a collision of the hash function.
\<close>

theorem chain_head_fixes_history:
  assumes "validate_chain sha es start check = Inr c" "cr_ok c"
    and "validate_chain sha fs start' check' = Inr c'" "cr_ok c'"
    and "cr_last_hash c = cr_last_hash c'" "cr_verified_count c = cr_verified_count c'"
    and "collision_free sha es fs"
  shows "list_all2 same_content es fs"
proof (cases es; cases fs)
  fix e es' f fs'
  assume E: "es = e # es'" and F: "fs = f # fs'"
  from validate_chain_linked [OF assms(1) [unfolded E] assms(2)] validate_chain_linked [OF assms(3) [unfolded F] assms(4)]
  show ?thesis
    using assms(5-7) linked_same_head [of sha "expected_prev start None e" es "expected_prev start' None f" fs]
    by (simp add: E F)
next
  fix e es'
  assume "es = e # es'" "fs = []"
  with assms validate_chain_linked [OF assms(1) [unfolded \<open>es = e # es'\<close>] assms(2)] show ?thesis
    by (auto simp: validate_chain_def chain_ok_def)
next
  fix f fs'
  assume "es = []" "fs = f # fs'"
  with assms validate_chain_linked [OF assms(3) [unfolded \<open>fs = f # fs'\<close>] assms(4)] show ?thesis
    by (auto simp: validate_chain_def chain_ok_def)
qed simp

end
