(* ===== verification/Audit_Verification.thy ===== *)
theory Audit_Verification
  imports Audit_Ledger
begin

text \<open>
  Runs of the ledger service. An honest ledger, one that only appends events and signs roots over the
  part that is not signed yet, always passes its own verification: chain, signatures and witness.
\<close>

section \<open>Which part is signed\<close>

text \<open>The checkpoints cover the events from \<open>n\<close> on, one after the other; the rest is unsigned.\<close>

fun segmented :: "int \<Rightarrow> root_checkpoint list \<Rightarrow> audit_event list \<Rightarrow> bool" where
  "segmented n [] es = (\<forall>e \<in> set es. ae_root_sig e = None)"
| "segmented n (cp # cps) es =
     (let k = nat (rc_seq_end cp + 1 - n)
      in rc_seq_start cp = n \<and> n \<le> rc_seq_end cp \<and> k \<le> length es
         \<and> (\<forall>e \<in> set (take k es). ae_root_sig e = Some (rc_root_sig cp))
         \<and> segmented (rc_seq_end cp + 1) cps (drop k es))"

definition next_start :: "int \<Rightarrow> root_checkpoint list \<Rightarrow> int" where
  "next_start n cps = (if cps = [] then n else rc_seq_end (last cps) + 1)"

lemma next_start_simps [simp]:
  "next_start n [] = n" "next_start n (c # cps) = next_start (rc_seq_end c + 1) cps"
  "next_start n (cps @ [c]) = rc_seq_end c + 1"
  by (simp_all add: next_start_def)

lemma segmented_append:
  "segmented n cps es \<Longrightarrow> ae_root_sig e = None \<Longrightarrow> segmented n cps (es @ [e])"
  by (induction cps arbitrary: n es) (auto simp: Let_def)

lemma segmented_next: "segmented n cps es \<Longrightarrow> n \<le> next_start n cps \<and> next_start n cps \<le> n + int (length es)"
proof (induction cps arbitrary: n es)
  case (Cons c cps)
  then show ?case by (fastforce simp: Let_def of_nat_diff)
qed simp

lemma segmented_bounds:
  "segmented n cps es \<Longrightarrow> cp \<in> set cps \<Longrightarrow>
   n \<le> rc_seq_start cp \<and> rc_seq_start cp \<le> rc_seq_end cp \<and> rc_seq_end cp < next_start n cps"
proof (induction cps arbitrary: n es)
  case (Cons c cps)
  then have rest: "segmented (rc_seq_end c + 1) cps (drop (nat (rc_seq_end c + 1 - n)) es)"
    and c: "rc_seq_start c = n" "n \<le> rc_seq_end c" by (simp_all add: Let_def)
  from Cons.IH [OF rest] segmented_next [OF rest] c Cons.prems(2) show ?case by auto
qed simp

text \<open>Signing the unsigned rest adds one checkpoint at the end.\<close>

lemma segmented_sign:
  assumes "segmented n cps es" "next_start n cps = rc_seq_start cp"
    and "rc_seq_end cp = n + int (length es) - 1" "rc_seq_start cp \<le> rc_seq_end cp"
    and "\<And>e. e \<in> set es \<Longrightarrow> f e = (if ae_root_sig e = None then e\<lparr>ae_root_sig := Some (rc_root_sig cp)\<rparr> else e)"
  shows "segmented n (cps @ [cp]) (map f es)"
  using assms
proof (induction cps arbitrary: n es)
  case Nil
  then show ?case by (simp add: Let_def)
next
  case (Cons c cps)
  let ?k = "nat (rc_seq_end c + 1 - n)"
  from Cons.prems(1) have c: "rc_seq_start c = n" "n \<le> rc_seq_end c" "?k \<le> length es"
    and sig: "\<forall>e \<in> set (take ?k es). ae_root_sig e = Some (rc_root_sig c)"
    and rest: "segmented (rc_seq_end c + 1) cps (drop ?k es)" by (simp_all add: Let_def)
  have "segmented (rc_seq_end c + 1) (cps @ [cp]) (map f (drop ?k es))"
  proof (rule Cons.IH [OF rest])
    show "next_start (rc_seq_end c + 1) cps = rc_seq_start cp" using Cons.prems(2) by simp
    show "rc_seq_end cp = rc_seq_end c + 1 + int (length (drop ?k es)) - 1" using Cons.prems(3) c by (simp add: of_nat_diff)
    show "rc_seq_start cp \<le> rc_seq_end cp" by (rule Cons.prems(4))
    show "f e = (if ae_root_sig e = None then e\<lparr>ae_root_sig := Some (rc_root_sig cp)\<rparr> else e)" if "e \<in> set (drop ?k es)" for e
      using Cons.prems(5) that by (meson in_set_dropD)
  qed
  moreover have "\<forall>e \<in> set (take ?k (map f es)). ae_root_sig e = Some (rc_root_sig c)"
  proof
    fix e
    assume "e \<in> set (take ?k (map f es))"
    then obtain d where "d \<in> set (take ?k es)" "e = f d" by (auto simp: take_map)
    moreover from this(1) have "d \<in> set es" by (rule in_set_takeD)
    ultimately show "ae_root_sig e = Some (rc_root_sig c)" using sig Cons.prems(5) [of d] by simp
  qed
  ultimately show ?case using c by (simp add: Let_def drop_map)
qed

text \<open>The signed events are exactly those before the next start.\<close>

lemma signed_iff:
  assumes "segmented n cps es" "numbered n es" "e \<in> set es"
  shows "ae_root_sig e \<noteq> None \<longleftrightarrow> the (ae_seq e) < next_start n cps"
  using assms
proof (induction cps arbitrary: n es)
  case Nil
  with numbered_in [OF Nil.prems(2,3)] show ?case by auto
next
  case (Cons c cps)
  let ?k = "nat (rc_seq_end c + 1 - n)"
  from Cons.prems(1) have c: "n \<le> rc_seq_end c" "?k \<le> length es"
    and sig: "\<forall>e \<in> set (take ?k es). ae_root_sig e = Some (rc_root_sig c)"
    and rest: "segmented (rc_seq_end c + 1) cps (drop ?k es)" by (simp_all add: Let_def)
  have len: "n + int (length (take ?k es)) = rc_seq_end c + 1" using c by simp
  have num: "numbered n (take ?k es @ drop ?k es)" using Cons.prems(2) by simp
  then have num': "numbered n (take ?k es)" "numbered (rc_seq_end c + 1) (drop ?k es)"
    using len unfolding numbered_append by simp_all
  from Cons.prems(3) have "e \<in> set (take ?k es) \<or> e \<in> set (drop ?k es)"
    by (metis Un_iff append_take_drop_id set_append)
  then show ?case
  proof
    assume e: "e \<in> set (take ?k es)"
    from numbered_in [OF num'(1) e] have "the (ae_seq e) < rc_seq_end c + 1" unfolding len by auto
    with segmented_next [OF rest] sig e show ?thesis by auto
  next
    assume "e \<in> set (drop ?k es)"
    with Cons.IH [OF rest num'(2)] show ?thesis by simp
  qed
qed

section \<open>The ranges that verification finds\<close>

definition flush_range :: "string option \<Rightarrow> int option \<Rightarrow> int option \<Rightarrow> (int \<times> int \<times> string) list" where
  "flush_range cur start lst = (case (cur, start, lst) of (Some sig, Some a, Some b) \<Rightarrow> [(a, b, sig)] | _ \<Rightarrow> [])"

lemma checkpoint_loop_simps:
  "checkpoint_loop cur start lst [] = flush_range cur start lst"
  "ae_seq e = Some n \<Longrightarrow> checkpoint_loop cur start lst (e # es) =
     (if ae_root_sig e \<noteq> cur then flush_range cur start lst @ checkpoint_loop (ae_root_sig e) (Some n) (Some n) es
      else checkpoint_loop cur start (Some n) es)"
  by (simp_all add: flush_range_def)

lemma flush_None [simp]: "flush_range None start lst = []"
  by (simp add: flush_range_def)

lemma checkpoint_loop_unsigned:
  assumes "numbered n es" "\<forall>e \<in> set es. ae_root_sig e = None"
  shows "checkpoint_loop cur start lst es = flush_range cur start lst"
proof -
  have none: "checkpoint_loop None start lst es = []" if "numbered n es" "\<forall>e \<in> set es. ae_root_sig e = None" for start lst n es
    using that by (induction es arbitrary: n start lst) (auto simp: checkpoint_loop_simps(2) simp del: checkpoint_loop.simps(2))
  show ?thesis
  proof (cases es)
    case Nil
    then show ?thesis by (simp add: checkpoint_loop_simps(1) del: checkpoint_loop.simps)
  next
    case (Cons e es')
    with assms none [of "n + 1" es'] none [of n es] show ?thesis
      by (cases cur) (simp_all add: checkpoint_loop_simps(2) del: checkpoint_loop.simps)
  qed
qed

lemma checkpoint_loop_same:
  assumes "numbered n seg" "\<forall>e \<in> set seg. ae_root_sig e = Some sig"
  shows "checkpoint_loop (Some sig) start lst (seg @ es) =
     checkpoint_loop (Some sig) start (if seg = [] then lst else Some (n + int (length seg) - 1)) es"
  using assms
proof (induction seg arbitrary: n lst)
  case (Cons e seg)
  then have "checkpoint_loop (Some sig) start lst ((e # seg) @ es) = checkpoint_loop (Some sig) start (Some n) (seg @ es)"
    by (simp add: checkpoint_loop_simps(2) del: checkpoint_loop.simps)
  also have "\<dots> = checkpoint_loop (Some sig) start (Some (n + int (length (e # seg)) - 1)) es"
    using Cons.IH [of "n + 1" "Some n"] Cons.prems by (simp add: algebra_simps)
  finally show ?case by simp
qed simp

lemma checkpoint_loop_segmented:
  assumes "segmented n cps es" "numbered n es" "distinct (map rc_root_sig cps)"
    and "\<forall>sig. cur = Some sig \<longrightarrow> sig \<notin> set (map rc_root_sig cps)"
  shows "checkpoint_loop cur start lst es =
     flush_range cur start lst @ map (\<lambda>cp. (rc_seq_start cp, rc_seq_end cp, rc_root_sig cp)) cps"
  using assms
proof (induction cps arbitrary: n es cur start lst)
  case Nil
  then show ?case using checkpoint_loop_unsigned [of n es] by simp
next
  case (Cons c cps)
  let ?k = "nat (rc_seq_end c + 1 - n)"
  let ?seg = "take ?k es"
  from Cons.prems(1) have c: "rc_seq_start c = n" "n \<le> rc_seq_end c" "?k \<le> length es"
    and sig: "\<forall>e \<in> set ?seg. ae_root_sig e = Some (rc_root_sig c)"
    and rest: "segmented (rc_seq_end c + 1) cps (drop ?k es)" by (simp_all add: Let_def)
  have len: "n + int (length ?seg) = rc_seq_end c + 1" using c by simp
  have "numbered n (?seg @ drop ?k es)" using Cons.prems(2) by simp
  then have num: "numbered n ?seg" "numbered (rc_seq_end c + 1) (drop ?k es)"
    using len unfolding numbered_append by simp_all
  have "?seg \<noteq> []" using len c by auto
  then obtain e seg where seg: "?seg = e # seg" by (cases ?seg) auto
  with num sig have e: "ae_seq e = Some n" "ae_root_sig e = Some (rc_root_sig c)" "numbered (n + 1) seg"
    "\<forall>d \<in> set seg. ae_root_sig d = Some (rc_root_sig c)" by simp_all
  have "checkpoint_loop cur start lst es = checkpoint_loop cur start lst (e # seg @ drop ?k es)"
    using seg by (metis append_Cons append_take_drop_id)
  also have "\<dots> = flush_range cur start lst
      @ checkpoint_loop (Some (rc_root_sig c)) (Some n) (Some n) (seg @ drop ?k es)"
    using e Cons.prems(4) by (auto simp: checkpoint_loop_simps(2) simp del: checkpoint_loop.simps)
  also have "checkpoint_loop (Some (rc_root_sig c)) (Some n) (Some n) (seg @ drop ?k es)
      = checkpoint_loop (Some (rc_root_sig c)) (Some n) (Some (rc_seq_end c)) (drop ?k es)"
  proof -
    have "n + int (length seg) = rc_seq_end c" using len unfolding seg by simp
    then have "(if seg = [] then Some n else Some (n + 1 + int (length seg) - 1)) = Some (rc_seq_end c)" by auto
    with checkpoint_loop_same [OF e(3,4), of "Some n" "Some n" "drop ?k es"] show ?thesis by simp
  qed
  also have "\<dots> = flush_range (Some (rc_root_sig c)) (Some n) (Some (rc_seq_end c))
      @ map (\<lambda>cp. (rc_seq_start cp, rc_seq_end cp, rc_root_sig cp)) cps"
    using Cons.IH [OF rest num(2)] Cons.prems(3) by simp
  finally show ?case using c by (simp add: flush_range_def)
qed

section \<open>The invariant of an honest ledger\<close>

definition root_ok :: "hash_fun \<Rightarrow> root_signer \<Rightarrow> ledger_state \<Rightarrow> root_checkpoint \<Rightarrow> bool" where
  "root_ok sha sg s cp \<longleftrightarrow>
     (let rs = get_range (ls_repo s) (rc_seq_start cp) (rc_seq_end cp)
      in rs \<noteq> []
         \<and> compute_root_hash sha (rc_seq_start cp) (rc_seq_end cp) (ae_hash (last rs)) (int (length rs)) = Inr (rc_root_hash cp)
         \<and> sg_verify sg (rc_root_hash cp) (rc_root_sig cp) \<and> rc_cardinality cp = int (length rs)
         \<and> witness_get (ls_witness s) (rc_seq_start cp) (rc_seq_end cp) = Some cp)"

definition ledger_inv :: "hash_fun \<Rightarrow> root_signer \<Rightarrow> root_checkpoint list \<Rightarrow> ledger_state \<Rightarrow> bool" where
  "ledger_inv sha sg cps s \<longleftrightarrow>
     linked sha GENESIS_PREV_HASH (ls_repo s) \<and> numbered 1 (ls_repo s)
     \<and> (\<forall>e \<in> set (ls_repo s). check_event e = Inr e)
     \<and> segmented 1 cps (ls_repo s) \<and> distinct (map rc_root_sig cps)
     \<and> (\<forall>cp \<in> set cps. root_ok sha sg s cp)
     \<and> (\<forall>k cp. dict_get (ls_witness s) k = Some cp \<longrightarrow> cp \<in> set cps \<and> k = (rc_seq_start cp, rc_seq_end cp))"

definition empty_ledger :: ledger_state where
  "empty_ledger = \<lparr>ls_repo = [], ls_witness = []\<rparr>"

lemma empty_ledger_inv: "ledger_inv sha sg [] empty_ledger"
  by (simp add: ledger_inv_def empty_ledger_def)

lemma get_range_append: "\<not> seq_between a b e \<Longrightarrow> get_range (es @ [e]) a b = get_range es a b"
  by (simp add: get_range_def)

lemma ledger_append_Inr:
  assumes "ledger_append sha mid ty payload created now es = (Inr e, es')"
  shows "es' = es @ [e] \<and> ae_prev_hash e = (if es = [] then GENESIS_PREV_HASH else ae_hash (last es))
     \<and> ae_seq e = Some (int (length es) + 1) \<and> ae_root_sig e = None \<and> check_event e = Inr e
     \<and> event_hash sha e = Inr (ae_hash e)"
proof -
  define prev where "prev = (if es = [] then GENESIS_PREV_HASH else ae_hash (last es))"
  define ts where "ts = (case created of Some t \<Rightarrow> t | None \<Rightarrow> Aware now)"
  from assms obtain h where h: "compute_event_hash sha mid ty (PDict payload) prev (PTime ts) = Inr h"
    and body: "(case ts of Naive _ \<Rightarrow> Inl ValueError
      | Aware t \<Rightarrow> check_event \<lparr>ae_mandate_id = mid, ae_type = ty, ae_payload = payload, ae_prev_hash = prev,
           ae_hash = h, ae_created_at = t, ae_seq = Some (int (length es) + 1), ae_root_sig = None\<rparr>) = Inr e"
    and es': "es' = es @ [e]"
    by (auto simp: ledger_append_def Let_def bind_res_Inr_iff simp flip: prev_def ts_def split: sum.splits)
  then show ?thesis
    by (cases ts) (auto simp: check_event_def event_hash_def prev_def split: if_splits)
qed

lemma ledger_append_inv:
  assumes inv: "ledger_inv sha sg cps s"
  shows "ledger_inv sha sg cps (snd (svc_append sha ty mid payload created now s))"
proof (cases "ledger_append sha mid ty payload created now (ls_repo s)")
  case (Pair r es)
  show ?thesis
  proof (cases r)
    case (Inl x)
    with Pair have "es = ls_repo s" by (auto simp: ledger_append_def Let_def split: sum.splits)
    with Pair inv show ?thesis by (simp add: svc_append_def)
  next
    case (Inr e)
    let ?prev = "if ls_repo s = [] then GENESIS_PREV_HASH else ae_hash (last (ls_repo s))"
    from ledger_append_Inr [OF Pair [unfolded Inr]]
    have es: "es = ls_repo s @ [e]" and e: "ae_prev_hash e = ?prev" "ae_seq e = Some (int (length (ls_repo s)) + 1)"
      "ae_root_sig e = None" "check_event e = Inr e" "event_hash sha e = Inr (ae_hash e)" by simp_all
    have seg: "segmented 1 cps (ls_repo s)" using inv by (simp add: ledger_inv_def)
    have "root_ok sha sg (s\<lparr>ls_repo := es\<rparr>) cp" if "cp \<in> set cps" for cp
    proof -
      have "\<not> seq_between (rc_seq_start cp) (rc_seq_end cp) e"
        using segmented_bounds [OF seg that] segmented_next [OF seg] e(2) by (simp add: seq_between_def)
      moreover have "root_ok sha sg s cp" using inv that by (simp add: ledger_inv_def)
      ultimately show ?thesis by (simp add: root_ok_def es get_range_append)
    qed
    with inv e segmented_append [OF seg, of e] have "ledger_inv sha sg cps (s\<lparr>ls_repo := es\<rparr>)"
      by (auto simp: ledger_inv_def es linked_append numbered_append algebra_simps)
    with Pair show ?thesis by (simp add: svc_append_def)
  qed
qed

lemma make_root_Inr:
  assumes "make_root sha sg es a b now = Inr cp"
  shows "rc_seq_start cp = a \<and> rc_seq_end cp = b \<and> a \<le> b \<and> get_range es a b \<noteq> []
     \<and> compute_root_hash sha a b (ae_hash (last (get_range es a b))) (int (length (get_range es a b))) = Inr (rc_root_hash cp)
     \<and> sg_sign sg (rc_root_hash cp) = Inr (rc_root_sig cp) \<and> rc_cardinality cp = int (length (get_range es a b))"
  using assms
  by (auto simp: make_root_def RootCheckpoint_def Let_def bind_res_Inr_iff split: if_splits)

text \<open>The default range of a root is the unsigned rest.\<close>

lemma root_start_next:
  assumes "segmented 1 cps es" "numbered 1 es" "es \<noteq> []"
  shows "root_start es None = next_start 1 cps"
proof (cases cps)
  case Nil
  with assms(1) have "annotated_seqs es = []" by (auto simp: annotated_seqs_def filter_empty_conv)
  with Nil assms(2,3) show ?thesis by (cases es) (simp_all add: root_start_def seq_or_def)
next
  case (Cons c cs)
  let ?m = "next_start 1 cps - 1"
  have bounds: "1 \<le> ?m" "?m \<le> int (length es)"
    using segmented_bounds [OF assms(1), of c] segmented_next [OF assms(1)] Cons by simp_all
  have "?m \<in> set (annotated_seqs es)"
  proof -
    have "nat (?m - 1) < length es" using bounds by simp
    then have e: "es ! nat (?m - 1) \<in> set es" by simp
    have nth: "numbered n xs \<Longrightarrow> i < length xs \<Longrightarrow> ae_seq (xs ! i) = Some (n + int i)" for n xs i
      by (induction xs arbitrary: n i) (auto simp: nth_Cons split: nat.splits)
    have "ae_seq (es ! nat (?m - 1)) = Some ?m"
      using nth [OF assms(2), of "nat (?m - 1)"] bounds by simp
    with signed_iff [OF assms(1,2) e] e show ?thesis
      unfolding annotated_seqs_def by (auto intro!: image_eqI [of _ _ "es ! nat (?m - 1)"])
  qed
  moreover have "k \<le> ?m" if "k \<in> set (annotated_seqs es)" for k
    using that signed_iff [OF assms(1,2)] by (fastforce simp: annotated_seqs_def)
  ultimately have "Max (set (annotated_seqs es)) = ?m" by (intro Max_eqI) auto
  with \<open>?m \<in> set (annotated_seqs es)\<close> show ?thesis by (auto simp: root_start_def)
qed

lemma root_end_last:
  assumes "numbered 1 es" "es \<noteq> []"
  shows "root_end es None = int (length es)"
proof -
  have "numbered n xs \<Longrightarrow> xs \<noteq> [] \<Longrightarrow> ae_seq (last xs) = Some (n + int (length xs) - 1)" for n xs
    by (induction xs arbitrary: n) auto
  from this [OF assms] assms(2) show ?thesis by (simp add: root_end_def seq_or_def)
qed

lemma annotate_root_checked:
  assumes "\<forall>e \<in> set es. check_event e = Inr e"
  shows "\<exists>n. annotate_root a b sig es =
     (Inr n, map (\<lambda>e. if seq_between a b e \<and> ae_root_sig e = None then e\<lparr>ae_root_sig := Some sig\<rparr> else e) es)"
proof -
  have one: "annotate_event a b sig e =
      Inr (if seq_between a b e \<and> ae_root_sig e = None then e\<lparr>ae_root_sig := Some sig\<rparr> else e)" if "e \<in> set es" for e
    using assms that by (auto simp: annotate_event_def check_event_def split: if_splits)
  have "map_res (annotate_event a b sig) xs =
      Inr (map (\<lambda>e. if seq_between a b e \<and> ae_root_sig e = None then e\<lparr>ae_root_sig := Some sig\<rparr> else e) xs)"
    if "set xs \<subseteq> set es" for xs
    using that one by (induction xs) simp_all
  from this [of es] show ?thesis by (simp add: annotate_root_def)
qed

text \<open>An annotation leaves everything but the signature as it is.\<close>

lemma annotated_frame:
  assumes "\<And>e. f e = e \<or> f e = e\<lparr>ae_root_sig := Some sig\<rparr>"
  shows "linked sha h (map f es) = linked sha h es" "numbered n (map f es) = numbered n es"
    "get_range (map f es) a b = map f (get_range es a b)" "ae_hash (f e) = ae_hash e" "check_event e = Inr e \<Longrightarrow> check_event (f e) = Inr (f e)"
proof -
  have same: "ae_hash (f e) = ae_hash e" "ae_prev_hash (f e) = ae_prev_hash e" "ae_seq (f e) = ae_seq e"
    "event_hash sha (f e) = event_hash sha e" "seq_between a b (f e) = seq_between a b e" for e
    using assms [of e] by (auto simp: event_hash_def seq_between_def)
  show "linked sha h (map f es) = linked sha h es" using same by (induction es arbitrary: h) auto
  show "numbered n (map f es) = numbered n es" using same by (induction es arbitrary: n) auto
  show "get_range (map f es) a b = map f (get_range es a b)"
    using same by (induction es) (auto simp: get_range_def)
  show "ae_hash (f e) = ae_hash e" by (rule same)
  show "check_event e = Inr e \<Longrightarrow> check_event (f e) = Inr (f e)"
    using assms [of e] by (auto simp: check_event_def split: if_splits)
qed

lemma sign_root_inv:
  assumes inv: "ledger_inv sha sg cps s" and run: "sign_root sha sg None None now s = (r, s')"
    and sound: "\<And>h sig. sg_sign sg h = Inr sig \<Longrightarrow> sg_verify sg h sig"
    and fresh: "\<And>cp. r = Inr cp \<Longrightarrow> rc_root_sig cp \<notin> set (map rc_root_sig cps)"
  shows "s' = s \<or> (\<exists>cp. r = Inr cp \<and> ledger_inv sha sg (cps @ [cp]) s')"
proof -
  let ?es = "ls_repo s"
  let ?a = "next_start 1 cps" and ?b = "int (length ?es)"
  from inv have num: "numbered 1 ?es" and seg: "segmented 1 cps ?es" and chk: "\<forall>e \<in> set ?es. check_event e = Inr e"
    by (simp_all add: ledger_inv_def)
  show ?thesis
  proof (cases "?es = [] \<or> (\<exists>x. make_root sha sg ?es ?a ?b now = Inl x)")
    case True
    then have "s' = s"
      using run root_start_next [OF seg num] root_end_last [OF num] by (auto simp: sign_root_def Let_def split: if_splits)
    then show ?thesis ..
  next
    case False
    then obtain cp where ne: "?es \<noteq> []" and cp: "make_root sha sg ?es ?a ?b now = Inr cp"
      by (cases "make_root sha sg ?es ?a ?b now") auto
    note mr = make_root_Inr [OF cp]
    define f where "f = (\<lambda>e. if seq_between ?a ?b e \<and> ae_root_sig e = None then e\<lparr>ae_root_sig := Some (rc_root_sig cp)\<rparr> else e)"
    have f: "f e = e \<or> f e = e\<lparr>ae_root_sig := Some (rc_root_sig cp)\<rparr>" for e by (simp add: f_def)
    note frame = annotated_frame [OF f]
    have feq: "f e = (if ae_root_sig e = None then e\<lparr>ae_root_sig := Some (rc_root_sig cp)\<rparr> else e)" if "e \<in> set ?es" for e
      using numbered_in [OF num that] signed_iff [OF seg num that] by (auto simp: f_def seq_between_def)
    have fresh_key: "dict_get (ls_witness s) (?a, ?b) = None"
    proof (rule ccontr)
      assume "dict_get (ls_witness s) (?a, ?b) \<noteq> None"
      then obtain c where "c \<in> set cps" "rc_seq_start c = ?a" using inv by (fastforce simp: ledger_inv_def)
      with segmented_bounds [OF seg] show False by fastforce
    qed
    have put: "witness_put cp (ls_witness s) = (Inr (), dict_set (?a, ?b) cp (ls_witness s))"
      using fresh_key mr by (simp add: witness_put_def Let_def)
    obtain n where "annotate_root ?a ?b (rc_root_sig cp) ?es = (Inr n, map f ?es)"
      using annotate_root_checked [OF chk, of ?a ?b "rc_root_sig cp"] unfolding f_def by blast
    with run ne cp put root_start_next [OF seg num ne] root_end_last [OF num ne]
    have r: "r = Inr cp" and s': "s' = s\<lparr>ls_repo := map f ?es, ls_witness := dict_set (?a, ?b) cp (ls_witness s)\<rparr>"
      by (auto simp: sign_root_def Let_def)
    have seg': "segmented 1 (cps @ [cp]) (map f ?es)"
      using mr feq by (intro segmented_sign [OF seg]) auto
    have old: "root_ok sha sg s' c" if "c \<in> set cps" for c
    proof -
      have "(rc_seq_start c, rc_seq_end c) \<noteq> (?a, ?b)" using segmented_bounds [OF seg that] by auto
      moreover have "root_ok sha sg s c" using inv that by (simp add: ledger_inv_def)
      ultimately show ?thesis by (auto simp: root_ok_def Let_def s' frame witness_get_def last_map)
    qed
    have new: "root_ok sha sg s' cp"
      using mr sound [of "rc_root_hash cp" "rc_root_sig cp"]
      by (simp add: root_ok_def Let_def s' frame witness_get_def last_map)
    have wit: "\<forall>k c. dict_get (ls_witness s') k = Some c \<longrightarrow> c \<in> set (cps @ [cp]) \<and> k = (rc_seq_start c, rc_seq_end c)"
      using inv mr by (auto simp: s' ledger_inv_def split: if_splits)
    have "ls_repo s' = map f ?es" by (simp add: s')
    then have "linked sha GENESIS_PREV_HASH (ls_repo s')" "numbered 1 (ls_repo s')" "segmented 1 (cps @ [cp]) (ls_repo s')"
      "\<forall>e \<in> set (ls_repo s'). check_event e = Inr e"
      using inv seg' frame(5) chk by (auto simp: ledger_inv_def frame(1,2))
    moreover have "distinct (map rc_root_sig (cps @ [cp]))" using inv fresh [OF r] by (simp add: ledger_inv_def)
    moreover have "\<forall>c \<in> set (cps @ [cp]). root_ok sha sg s' c" using old new by simp
    ultimately have "ledger_inv sha sg (cps @ [cp]) s'" using wit unfolding ledger_inv_def by blast
    with r show ?thesis by blast
  qed
qed

section \<open>Honest ledgers verify\<close>

lemma verify_ranges_ok:
  "(\<And>r. r \<in> set rs \<Longrightarrow> verify_range sha sg w es r = Inr None) \<Longrightarrow>
   verify_ranges sha sg w es rs = Inr (chain_ok (int (length es)) (Some (ae_hash (last es))))"
  by (induction rs) auto

lemma ledger_inv_verifies:
  assumes inv: "ledger_inv sha sg cps s" and ne: "ls_repo s \<noteq> []"
  shows "verify_chain sha sg None None s =
     Inr (chain_ok (int (length (ls_repo s))) (Some (ae_hash (last (ls_repo s)))))"
proof -
  let ?es = "ls_repo s"
  from inv have num: "numbered 1 ?es" and seg: "segmented 1 cps ?es" and lnk: "linked sha GENESIS_PREV_HASH ?es"
    and dist: "distinct (map rc_root_sig cps)" by (simp_all add: ledger_inv_def)
  have "expected_prev None None e = GENESIS_PREV_HASH" if "e \<in> set (take 1 ?es)" for e
    using num ne that by (cases ?es) (auto simp: expected_prev_def)
  then have chain: "validate_chain sha ?es None True = Inr (chain_ok (int (length ?es)) (Some (ae_hash (last ?es))))"
    using chain_loop_accepts [OF lnk num, of None None True 0] ne by (simp add: validate_chain_def)
  have ranges: "checkpoint_ranges ?es = map (\<lambda>cp. (rc_seq_start cp, rc_seq_end cp, rc_root_sig cp)) cps"
    using checkpoint_loop_segmented [OF seg num dist, of None None None] by (simp add: checkpoint_ranges_def)
  have "verify_range sha sg (ls_witness s) ?es (rc_seq_start cp, rc_seq_end cp, rc_root_sig cp) = Inr None"
    if "cp \<in> set cps" for cp
    using inv that by (auto simp: ledger_inv_def root_ok_def verify_range_def get_range_def Let_def)
  then have "verify_ranges sha sg (ls_witness s) ?es (checkpoint_ranges ?es)
      = Inr (chain_ok (int (length ?es)) (Some (ae_hash (last ?es))))"
    unfolding ranges by (intro verify_ranges_ok) auto
  with chain ne show ?thesis by (simp add: verify_chain_def Let_def)
qed

lemma signature_in_ledger:
  "segmented n cps es \<Longrightarrow> cp \<in> set cps \<Longrightarrow> \<exists>e \<in> set es. ae_root_sig e = Some (rc_root_sig cp)"
proof (induction cps arbitrary: n es)
  case (Cons c cps)
  let ?k = "nat (rc_seq_end c + 1 - n)"
  from Cons.prems(1) have c: "n \<le> rc_seq_end c" "?k \<le> length es"
    and sig: "\<forall>e \<in> set (take ?k es). ae_root_sig e = Some (rc_root_sig c)"
    and rest: "segmented (rc_seq_end c + 1) cps (drop ?k es)" by (simp_all add: Let_def)
  show ?case
  proof (cases "cp = c")
    case True
    have "0 < length (take ?k es)" using c by simp
    then have "hd (take ?k es) \<in> set (take ?k es)" by (intro hd_in_set) auto
    with sig True show ?thesis by (meson in_set_takeD)
  next
    case False
    with Cons.IH [OF rest] Cons.prems(2) show ?thesis by (auto dest: in_set_dropD)
  qed
qed simp

text \<open>
  The steps of an honest ledger: any append, and roots over the unsigned rest. A signature over a new
  root is one that the ledger does not hold yet.
\<close>

inductive honest_step :: "hash_fun \<Rightarrow> root_signer \<Rightarrow> ledger_state \<Rightarrow> ledger_state \<Rightarrow> bool" for sha sg where
  honest_append: "honest_step sha sg s (snd (svc_append sha ty mid payload created now s))"
| honest_sign: "sign_root sha sg None None now s = (r, s') \<Longrightarrow>
    (\<And>cp e. r = Inr cp \<Longrightarrow> e \<in> set (ls_repo s) \<Longrightarrow> ae_root_sig e \<noteq> Some (rc_root_sig cp)) \<Longrightarrow>
    honest_step sha sg s s'"

lemma honest_step_inv:
  assumes "honest_step sha sg s s'" "ledger_inv sha sg cps s"
    and sound: "\<And>h sig. sg_sign sg h = Inr sig \<Longrightarrow> sg_verify sg h sig"
  shows "\<exists>cps'. ledger_inv sha sg cps' s'"
  using assms(1)
proof cases
  case (honest_append ty mid payload created now)
  with ledger_append_inv [OF assms(2)] show ?thesis by blast
next
  case (honest_sign now r)
  have seg: "segmented 1 cps (ls_repo s)" using assms(2) by (simp add: ledger_inv_def)
  have "rc_root_sig cp \<notin> set (map rc_root_sig cps)" if "r = Inr cp" for cp
    using signature_in_ledger [OF seg] honest_sign(2) [OF that] by fastforce
  from sign_root_inv [OF assms(2) honest_sign(1) sound this] assms(2) show ?thesis by blast
qed

text \<open>
  C8: an honest ledger always verifies. After any run of appends and of roots over the unsigned rest,
  starting from the empty ledger, the verification of the whole ledger recomputes every hash, finds
  every link, every signature and every witnessed checkpoint, and reports success for all events.
\<close>

theorem honest_ledger_verifies:
  assumes "(honest_step sha sg)\<^sup>*\<^sup>* empty_ledger s" "ls_repo s \<noteq> []"
    and sound: "\<And>h sig. sg_sign sg h = Inr sig \<Longrightarrow> sg_verify sg h sig"
  shows "verify_chain sha sg None None s =
     Inr (chain_ok (int (length (ls_repo s))) (Some (ae_hash (last (ls_repo s)))))"
proof -
  from assms(1) have "\<exists>cps. ledger_inv sha sg cps s"
  proof (induction rule: rtranclp_induct)
    case base
    show ?case using empty_ledger_inv by blast
  next
    case (step s t)
    then show ?case using honest_step_inv [OF step.hyps(2) _ sound] by blast
  qed
  with ledger_inv_verifies [OF _ assms(2)] show ?thesis by blast
qed

section \<open>The ledger is append-only\<close>

text \<open>Any operation of the service, roots over any range included.\<close>

inductive ledger_step :: "hash_fun \<Rightarrow> root_signer \<Rightarrow> ledger_state \<Rightarrow> ledger_state \<Rightarrow> bool" for sha sg where
  step_append: "ledger_step sha sg s (snd (svc_append sha ty mid payload created now s))"
| step_sign: "ledger_step sha sg s (snd (sign_root sha sg start stop now s))"

text \<open>A later state of an event: the same but for a signature where there was none.\<close>

definition later :: "audit_event \<Rightarrow> audit_event \<Rightarrow> bool" where
  "later e e' \<longleftrightarrow> e' = e \<or> ae_root_sig e = None \<and> e' = e\<lparr>ae_root_sig := ae_root_sig e'\<rparr>"

definition extends :: "audit_event list \<Rightarrow> audit_event list \<Rightarrow> bool" where
  "extends es es' \<longleftrightarrow> (\<exists>pre post. es' = pre @ post \<and> list_all2 later es pre)"

lemma later_trans: "later a b \<Longrightarrow> later b c \<Longrightarrow> later a c"
  by (auto simp: later_def)

lemma extends_append: "extends es (es @ post)"
  unfolding extends_def by (intro exI [of _ es] exI [of _ post]) (simp add: later_def list_all2_refl)

lemma extends_refl: "extends es es"
  using extends_append [of es "[]"] by simp

lemma extends_trans: "extends a b \<Longrightarrow> extends b c \<Longrightarrow> extends a c"
proof -
  assume "extends a b" "extends b c"
  then obtain p q p' q' where b: "b = p @ q" "list_all2 later a p" and c: "c = p' @ q'" "list_all2 later (p @ q) p'"
    by (auto simp: extends_def)
  then obtain u v where "p' = u @ v" "list_all2 later p u" by (auto simp: list_all2_append1)
  with b c have "c = u @ (v @ q')" "list_all2 later a u"
    by (auto intro: list_all2_trans [OF later_trans])
  then show "extends a c" by (auto simp: extends_def)
qed

lemma annotate_root_extends: "extends es (snd (annotate_root a b sig es))"
proof -
  have "list_all2 later xs ys" if "map_res (annotate_event a b sig) xs = Inr ys" for xs ys
    using that
  proof (induction xs arbitrary: ys)
    case (Cons x xs)
    then obtain y zs where y: "annotate_event a b sig x = Inr y" and ys: "ys = y # zs" "list_all2 later xs zs"
      by (auto simp: bind_res_Inr_iff)
    from y have "later x y" by (auto simp: annotate_event_def check_event_def later_def split: if_splits)
    with ys show ?case by simp
  qed simp
  then show ?thesis
    using extends_refl by (auto simp: annotate_root_def extends_def split: sum.splits)
qed

lemma ledger_step_extends:
  assumes "ledger_step sha sg s s'"
  shows "extends (ls_repo s) (ls_repo s')"
  using assms
proof cases
  case (step_append ty mid payload created now)
  have "extends es (snd (ledger_append sha mid ty payload created now es))" for es
  proof (cases "ledger_append sha mid ty payload created now es")
    case (Pair r es')
    show ?thesis
    proof (cases r)
      case (Inl e)
      with Pair have "es' = es" by (auto simp: ledger_append_def Let_def split: sum.splits)
      with Pair extends_refl show ?thesis by simp
    next
      case (Inr e)
      with ledger_append_Inr [of sha mid ty payload created now es e es'] Pair have "es' = es @ [e]" by simp
      with Pair extends_append show ?thesis by simp
    qed
  qed
  with step_append show ?thesis by (simp add: svc_append_def split: prod.splits) (metis snd_conv)
next
  case (step_sign start stop now)
  then show ?thesis
    using annotate_root_extends extends_refl
    by (auto simp: sign_root_def Let_def split: sum.splits prod.splits if_splits) (metis snd_conv)+
qed

text \<open>
  The ledger is append-only: no run of appends and roots, over whatever ranges, removes, reorders
  or rewrites an event. What was recorded stays as a prefix, and the only field that can change is
  the root signature of an event that had none.
\<close>

theorem history_is_append_only:
  assumes "(ledger_step sha sg)\<^sup>*\<^sup>* s s'"
  shows "extends (ls_repo s) (ls_repo s')"
  using assms
proof (induction rule: rtranclp_induct)
  case base
  show ?case by (rule extends_refl)
next
  case (step t u)
  from step.IH ledger_step_extends [OF step.hyps(2)] show ?case by (rule extends_trans)
qed

section \<open>Concrete ledgers\<close>

definition sample_sha :: hash_fun where
  "sample_sha t = take 64 (rev t @ replicate 64 (CHR ''0''))"

definition sample_signer :: root_signer where
  "sample_signer = \<lparr>sg_sign = (\<lambda>h. Inr (''5167'' @ h)), sg_verify = (\<lambda>h sig. sig = ''5167'' @ h)\<rparr>"

definition sample_event :: audit_event where
  "sample_event =
     (let e = \<lparr>ae_mandate_id = ''m1'', ae_type = ''purchase.verified'', ae_payload = [(''purchase_id'', PStr ''p1'')],
               ae_prev_hash = GENESIS_PREV_HASH, ae_hash = [], ae_created_at = 0, ae_seq = Some 1, ae_root_sig = None\<rparr>
      in e\<lparr>ae_hash := (case event_hash sample_sha e of Inr h \<Rightarrow> h | Inl _ \<Rightarrow> [])\<rparr>)"

lemma sample_event_hash:
  "event_hash sample_sha sample_event = Inr (ae_hash sample_event)" "length (ae_hash sample_event) = 64"
proof -
  have "\<exists>t. audit_canonical_json (PDict (event_envelope at mid ty (PDict [(''purchase_id'', PStr x)]) prev)) = Inr t" for at mid ty x prev
    by (simp add: envelope_text)
  then obtain t where t: "audit_canonical_json (PDict (event_envelope (isoformat_z 0) ''m1'' ''purchase.verified''
      (PDict [(''purchase_id'', PStr ''p1'')]) GENESIS_PREV_HASH)) = Inr t" by blast
  then have "event_hash sample_sha sample_event = Inr (sample_sha t)" "ae_hash sample_event = sample_sha t"
    by (simp_all add: event_hash_def compute_event_hash_def sample_event_def GENESIS_PREV_HASH_def normalize_utc_def Let_def)
  then show "event_hash sample_sha sample_event = Inr (ae_hash sample_event)" "length (ae_hash sample_event) = 64"
    by (simp_all add: sample_sha_def)
qed

definition sample_ledger :: ledger_state where
  "sample_ledger = \<lparr>ls_repo = [sample_event], ls_witness = []\<rparr>"

lemma sample_append:
  "svc_append sample_sha ''purchase.verified'' ''m1'' [(''purchase_id'', PStr ''p1'')] None 0 empty_ledger
   = (Inr sample_event, sample_ledger)"
proof -
  have "compute_event_hash sample_sha ''m1'' ''purchase.verified'' (PDict [(''purchase_id'', PStr ''p1'')]) GENESIS_PREV_HASH
      (PTime (Aware 0)) = Inr (ae_hash sample_event)"
    using sample_event_hash(1) by (simp add: event_hash_def sample_event_def Let_def)
  moreover have "\<lparr>ae_mandate_id = ''m1'', ae_type = ''purchase.verified'', ae_payload = [(''purchase_id'', PStr ''p1'')],
      ae_prev_hash = GENESIS_PREV_HASH, ae_hash = ae_hash sample_event, ae_created_at = 0, ae_seq = Some 1, ae_root_sig = None\<rparr>
      = sample_event"
    by (simp add: sample_event_def Let_def)
  moreover have "check_event sample_event = Inr sample_event"
    using sample_event_hash(2) by (auto simp: check_event_def) (auto simp: sample_event_def GENESIS_PREV_HASH_def Let_def)
  ultimately show ?thesis
    by (simp add: svc_append_def empty_ledger_def ledger_append_def sample_ledger_def Let_def)
qed

lemma sample_signed_extends:
  "ls_repo (snd (sign_root sample_sha sample_signer None None 0 sample_ledger)) \<noteq> []"
  using ledger_step_extends [OF step_sign [of sample_sha sample_signer sample_ledger None None 0]]
  by (auto simp: extends_def sample_ledger_def list_all2_Cons1)

theorem honest_ledger_verifies_witness:
  "\<exists>s. (honest_step sample_sha sample_signer)\<^sup>*\<^sup>* empty_ledger s \<and> ls_repo s \<noteq> []
     \<and> verify_chain sample_sha sample_signer None None s =
         Inr (chain_ok (int (length (ls_repo s))) (Some (ae_hash (last (ls_repo s)))))"
proof -
  let ?s = "snd (sign_root sample_sha sample_signer None None 0 sample_ledger)"
  have 1: "honest_step sample_sha sample_signer empty_ledger sample_ledger"
    using honest_append [of sample_sha sample_signer empty_ledger "''purchase.verified''" "''m1''" "[(''purchase_id'', PStr ''p1'')]" None 0]
    by (simp add: sample_append)
  have 2: "honest_step sample_sha sample_signer sample_ledger ?s"
  proof (rule honest_sign [of _ _ 0 _ "fst (sign_root sample_sha sample_signer None None 0 sample_ledger)"])
    show "ae_root_sig e \<noteq> Some (rc_root_sig cp)" if "e \<in> set (ls_repo sample_ledger)" for cp e
      using that by (simp add: sample_ledger_def sample_event_def Let_def)
  qed simp
  have run: "(honest_step sample_sha sample_signer)\<^sup>*\<^sup>* empty_ledger ?s" using 1 2 by (meson converse_rtranclp_into_rtranclp r_into_rtranclp)
  have "verify_chain sample_sha sample_signer None None ?s =
      Inr (chain_ok (int (length (ls_repo ?s))) (Some (ae_hash (last (ls_repo ?s)))))"
    by (rule honest_ledger_verifies [OF run sample_signed_extends]) (simp add: sample_signer_def)
  with run sample_signed_extends show ?thesis by blast
qed

theorem history_is_append_only_witness:
  "extends (ls_repo empty_ledger) [sample_event] \<and> extends (ls_repo sample_ledger)
     (ls_repo (snd (sign_root sample_sha sample_signer (Some 1) (Some 1) 0 sample_ledger)))"
proof -
  have "(ledger_step sample_sha sample_signer)\<^sup>*\<^sup>* empty_ledger sample_ledger"
    using step_append [of sample_sha sample_signer empty_ledger "''purchase.verified''" "''m1''" "[(''purchase_id'', PStr ''p1'')]" None 0]
    by (simp add: sample_append r_into_rtranclp)
  moreover have "(ledger_step sample_sha sample_signer)\<^sup>*\<^sup>* sample_ledger
      (snd (sign_root sample_sha sample_signer (Some 1) (Some 1) 0 sample_ledger))"
    by (intro r_into_rtranclp step_sign)
  ultimately show ?thesis
    using history_is_append_only [of sample_sha sample_signer empty_ledger sample_ledger]
      history_is_append_only [of sample_sha sample_signer sample_ledger]
    by (simp add: sample_ledger_def)
qed

theorem chain_head_fixes_history_witness:
  "list_all2 same_content [sample_event] [sample_event\<lparr>ae_root_sig := Some ''5167''\<rparr>]"
proof (rule chain_head_fixes_history)
  let ?c = "chain_ok 1 (Some (ae_hash sample_event))"
  have lnk: "linked sample_sha GENESIS_PREV_HASH [sample_event]"
    using sample_event_hash(1) by (simp add: sample_event_def Let_def)
  have lnk': "linked sample_sha GENESIS_PREV_HASH [sample_event\<lparr>ae_root_sig := Some ''5167''\<rparr>]"
    using lnk by (auto simp: event_hash_def)
  have num: "numbered 1 [sample_event]" "numbered 1 [sample_event\<lparr>ae_root_sig := Some ''5167''\<rparr>]"
    by (simp_all add: sample_event_def Let_def)
  show "validate_chain sample_sha [sample_event] (Some GENESIS_PREV_HASH) True = Inr ?c"
    using chain_loop_accepts [OF lnk num(1), where prev = None and start = "Some GENESIS_PREV_HASH" and i = 0] by (simp add: validate_chain_def expected_prev_def)
  show "validate_chain sample_sha [sample_event\<lparr>ae_root_sig := Some ''5167''\<rparr>] (Some GENESIS_PREV_HASH) True = Inr ?c"
    using chain_loop_accepts [OF lnk' num(2), where prev = None and start = "Some GENESIS_PREV_HASH" and i = 0] by (simp add: validate_chain_def expected_prev_def)
  show "collision_free sample_sha [sample_event] [sample_event\<lparr>ae_root_sig := Some ''5167''\<rparr>]"
    by (simp add: collision_free_def event_text_def)
qed simp_all

end
