(* ===== verification/Outbox_Relay.thy ===== *)
theory Outbox_Relay
  imports Py_Values
begin

text \<open>
  The relay of the outbox (\<^verbatim>\<open>src/src/api/events\<close>): the envelope (\<^verbatim>\<open>ports.py\<close>), the in-memory store and
  sink (\<^verbatim>\<open>sinks_memory.py\<close>) and the dispatcher (\<^verbatim>\<open>relay.py\<close>). A sink is any handler of events, as the
  protocol in \<^verbatim>\<open>ports.py\<close> has it; what the relay needs of it is stated as a locale. Sinks are shared
  between routes, so that a route holds names and the sinks are a table. The clock is an argument: its reading when an event is taken up.
\<close>

section \<open>Events and the store\<close>

record relay_event =
  re_event_id :: string
  re_type :: string
  re_aggregate_id :: string
  re_payload :: pydict
  re_created_at :: instant
  re_seq :: "int option"
  re_relayed_at :: "instant option"

definition check_relay_event :: "relay_event \<Rightarrow> relay_event res" where
  "check_relay_event e =
     (if re_event_id e = [] \<or> re_type e = [] \<or> re_aggregate_id e = [] then Inl ValueError else Inr e)"

record relay_store =
  rs_events :: "relay_event list"
  rs_in_flight :: "string list"

definition relay_append :: "relay_event \<Rightarrow> (relay_store, relay_event) sres" where
  "relay_append ev st =
     (case check_relay_event (ev\<lparr>re_seq := Some (int (length (rs_events st)) + 1)\<rparr>) of
        Inl e \<Rightarrow> (Inl e, st)
      | Inr stored \<Rightarrow> (Inr stored, st\<lparr>rs_events := rs_events st @ [stored]\<rparr>))"

text \<open>A slice \<^verbatim>\<open>xs[:n]\<close>; a negative bound counts from the end.\<close>

definition slice_to :: "int \<Rightarrow> 'a list \<Rightarrow> 'a list" where
  "slice_to n xs = take (if n < 0 then nat (int (length xs) + n) else nat n) xs"

definition in_flight_add :: "string \<Rightarrow> string list \<Rightarrow> string list" where
  "in_flight_add i xs = (if i \<in> set xs then xs else xs @ [i])"

definition fetch_unrelayed :: "int \<Rightarrow> relay_store \<Rightarrow> relay_event list \<times> relay_store" where
  "fetch_unrelayed limit st =
     (let candidates = filter (\<lambda>e. re_relayed_at e = None \<and> re_event_id e \<notin> set (rs_in_flight st)) (rs_events st);
          batch = slice_to limit candidates
      in (batch, st\<lparr>rs_in_flight := fold (\<lambda>e. in_flight_add (re_event_id e)) batch (rs_in_flight st)\<rparr>))"

definition release_in_flight :: "string \<Rightarrow> relay_store \<Rightarrow> relay_store" where
  "release_in_flight eid st = st\<lparr>rs_in_flight := removeAll eid (rs_in_flight st)\<rparr>"

fun mark_first :: "string \<Rightarrow> instant \<Rightarrow> relay_event list \<Rightarrow> relay_event list" where
  "mark_first eid now [] = []"
| "mark_first eid now (e # es) =
     (if re_event_id e = eid then e\<lparr>re_relayed_at := Some now\<rparr> # es else e # mark_first eid now es)"

definition mark_relayed :: "string \<Rightarrow> instant \<Rightarrow> relay_store \<Rightarrow> relay_store" where
  "mark_relayed eid now st =
     (release_in_flight eid st)\<lparr>rs_events := mark_first eid now (rs_events st)\<rparr>"

section \<open>The in-memory sink\<close>

record memory_sink =
  sk_received :: "relay_event list"
  sk_delivered :: "string list"
  sk_failures :: "(string, int) dict"

definition fail_times_for_event :: "string \<Rightarrow> int \<Rightarrow> memory_sink \<Rightarrow> memory_sink" where
  "fail_times_for_event eid n k = k\<lparr>sk_failures := dict_set eid n (sk_failures k)\<rparr>"

definition sink_handle :: "relay_event \<Rightarrow> (memory_sink, unit) sres" where
  "sink_handle ev k =
     (let n = dict_get_or (sk_failures k) (re_event_id ev) 0
      in if n > 0
         then (Inl RuntimeError, k\<lparr>sk_failures := dict_set (re_event_id ev) (n - 1) (sk_failures k)\<rparr>)
         else (Inr (), k\<lparr>sk_received := sk_received k @ [ev],
                        sk_delivered := in_flight_add (re_event_id ev) (sk_delivered k)\<rparr>))"

section \<open>The relay\<close>

type_synonym 'k sink_table = "string \<Rightarrow> 'k"

record relay_routes =
  rr_routes :: "(string, string list) dict"
  rr_default :: "string list"

definition register_sink :: "string \<Rightarrow> string \<Rightarrow> relay_routes \<Rightarrow> relay_routes" where
  "register_sink ty sink r =
     r\<lparr>rr_routes := dict_set ty (dict_get_or (rr_routes r) ty [] @ [sink]) (rr_routes r)\<rparr>"

definition sinks_for :: "relay_routes \<Rightarrow> string \<Rightarrow> string list" where
  "sinks_for r ty = dict_get_or (rr_routes r) ty (rr_default r)"

text \<open>The loop over the sinks of an event stops at the first exception.\<close>

fun deliver ::
  "(relay_event \<Rightarrow> ('k, unit) sres) \<Rightarrow> string list \<Rightarrow> relay_event \<Rightarrow> 'k sink_table \<Rightarrow> bool \<times> 'k sink_table" where
  "deliver handle [] ev sk = (True, sk)"
| "deliver handle (i # is) ev sk =
     (case handle ev (sk i) of
        (Inl _, k) \<Rightarrow> (False, sk(i := k))
      | (Inr _, k) \<Rightarrow> deliver handle is ev (sk(i := k)))"

definition relay_one ::
  "(relay_event \<Rightarrow> ('k, unit) sres) \<Rightarrow> relay_routes \<Rightarrow> (relay_event \<Rightarrow> instant) \<Rightarrow> relay_event \<Rightarrow> relay_store \<times> 'k sink_table
   \<Rightarrow> bool \<times> relay_store \<times> 'k sink_table" where
  "relay_one handle r clock ev = (\<lambda>(st, sk).
     (let sinks = sinks_for r (re_type ev)
      in if sinks = [] then (True, mark_relayed (re_event_id ev) (clock ev) st, sk)
         else
           (case deliver handle sinks ev sk of
              (True, sk') \<Rightarrow> (True, mark_relayed (re_event_id ev) (clock ev) st, sk')
            | (False, sk') \<Rightarrow> (False, release_in_flight (re_event_id ev) st, sk'))))"

fun relay_batch ::
  "(relay_event \<Rightarrow> ('k, unit) sres) \<Rightarrow> relay_routes \<Rightarrow> (relay_event \<Rightarrow> instant) \<Rightarrow> relay_event list \<Rightarrow> relay_store \<times> 'k sink_table
   \<Rightarrow> int \<times> relay_store \<times> 'k sink_table" where
  "relay_batch handle r clock [] s = (0, s)"
| "relay_batch handle r clock (ev # evs) s =
     (case relay_one handle r clock ev s of
        (ok, s1) \<Rightarrow> (case relay_batch handle r clock evs s1 of (n, s2) \<Rightarrow> ((if ok then 1 else 0) + n, s2)))"

definition drain ::
  "(relay_event \<Rightarrow> ('k, unit) sres) \<Rightarrow> relay_routes \<Rightarrow> (relay_event \<Rightarrow> instant) \<Rightarrow> int \<Rightarrow> relay_store \<times> 'k sink_table
   \<Rightarrow> int \<times> relay_store \<times> 'k sink_table" where
  "drain handle r clock limit = (\<lambda>(st, sk).
     (case fetch_unrelayed limit st of (batch, st1) \<Rightarrow> relay_batch handle r clock batch (st1, sk)))"

text \<open>
  Several relays over one store. Only the calls of the store are locked, so that the workers interleave
  between any two of them: worker \<open>k\<close> holds the events it has fetched (\<open>rw_queue\<close>) and, for the event it
  is busy with, the sinks still to be called (\<open>rw_rest\<close>). Publishers append events with fresh ids.
\<close>

record 'k relay_world =
  rw_store :: relay_store
  rw_sinks :: "'k sink_table"
  rw_queue :: "nat \<Rightarrow> relay_event list"
  rw_rest :: "nat \<Rightarrow> string list option"

inductive relay_step ::
  "(relay_event \<Rightarrow> ('k, unit) sres) \<Rightarrow> relay_routes \<Rightarrow> 'k relay_world \<Rightarrow> 'k relay_world \<Rightarrow> bool"
  for handle :: "relay_event \<Rightarrow> ('k, unit) sres" and r :: relay_routes where
  publish: "re_event_id ev \<notin> re_event_id ` set (rs_events (rw_store w)) \<Longrightarrow> re_relayed_at ev = None \<Longrightarrow>
     relay_append ev (rw_store w) = (Inr stored, st) \<Longrightarrow> relay_step handle r w (w\<lparr>rw_store := st\<rparr>)"
| fetch: "rw_queue w k = [] \<Longrightarrow> fetch_unrelayed limit (rw_store w) = (batch, st) \<Longrightarrow>
     relay_step handle r w (w\<lparr>rw_store := st, rw_queue := (rw_queue w)(k := batch), rw_rest := (rw_rest w)(k := None)\<rparr>)"
| take_up: "rw_queue w k = ev # evs \<Longrightarrow> rw_rest w k = None \<Longrightarrow>
     relay_step handle r w (w\<lparr>rw_rest := (rw_rest w)(k := Some (sinks_for r (re_type ev)))\<rparr>)"
| hand_over: "rw_queue w k = ev # evs \<Longrightarrow> rw_rest w k = Some (i # is) \<Longrightarrow>
     handle ev (rw_sinks w i) = (Inr u, sk) \<Longrightarrow>
     relay_step handle r w (w\<lparr>rw_sinks := (rw_sinks w)(i := sk), rw_rest := (rw_rest w)(k := Some is)\<rparr>)"
| give_up: "rw_queue w k = ev # evs \<Longrightarrow> rw_rest w k = Some (i # is) \<Longrightarrow>
     handle ev (rw_sinks w i) = (Inl e, sk) \<Longrightarrow>
     relay_step handle r w (w\<lparr>rw_sinks := (rw_sinks w)(i := sk), rw_store := release_in_flight (re_event_id ev) (rw_store w),
       rw_queue := (rw_queue w)(k := evs), rw_rest := (rw_rest w)(k := None)\<rparr>)"
| settle: "rw_queue w k = ev # evs \<Longrightarrow> rw_rest w k = Some [] \<Longrightarrow>
     relay_step handle r w (w\<lparr>rw_store := mark_relayed (re_event_id ev) now (rw_store w),
       rw_queue := (rw_queue w)(k := evs), rw_rest := (rw_rest w)(k := None)\<rparr>)"

section \<open>Facts about the store\<close>

definition event_ids :: "relay_store \<Rightarrow> string list" where
  "event_ids st = map re_event_id (rs_events st)"

definition relayed :: "relay_store \<Rightarrow> string \<Rightarrow> bool" where
  "relayed st eid \<longleftrightarrow> (\<exists>e \<in> set (rs_events st). re_event_id e = eid \<and> re_relayed_at e \<noteq> None)"

lemma mark_first_ids [simp]: "map re_event_id (mark_first eid now es) = map re_event_id es"
  by (induction es) auto

lemma mark_first_other:
  "distinct (map re_event_id es) \<Longrightarrow>
   (\<exists>e \<in> set (mark_first eid now es). re_event_id e = i \<and> re_relayed_at e \<noteq> None) \<longleftrightarrow>
   (if i = eid then eid \<in> set (map re_event_id es) else \<exists>e \<in> set es. re_event_id e = i \<and> re_relayed_at e \<noteq> None)"
  by (induction es) auto

lemma mark_relayed_simps [simp]:
  "event_ids (mark_relayed eid now st) = event_ids st"
  "rs_in_flight (mark_relayed eid now st) = removeAll eid (rs_in_flight st)"
  "event_ids (release_in_flight eid st) = event_ids st"
  "rs_in_flight (release_in_flight eid st) = removeAll eid (rs_in_flight st)"
  "relayed (release_in_flight eid st) = relayed st"
  by (simp_all add: mark_relayed_def release_in_flight_def event_ids_def relayed_def fun_eq_iff)

lemma relayed_mark:
  "distinct (event_ids st) \<Longrightarrow>
   relayed (mark_relayed eid now st) i \<longleftrightarrow> (if i = eid then eid \<in> set (event_ids st) else relayed st i)"
  using mark_first_other [of "rs_events st" eid now i]
  by (simp add: relayed_def mark_relayed_def event_ids_def)

lemma set_in_flight_add [simp]: "set (in_flight_add i xs) = insert i (set xs)"
  by (auto simp: in_flight_add_def)

lemma set_fold_in_flight:
  "set (fold (\<lambda>e. in_flight_add (re_event_id e)) es xs) = set xs \<union> re_event_id ` set es"
  by (induction es arbitrary: xs) auto

section \<open>The contract of a sink\<close>

text \<open>
  A sink records what it has accepted and may refuse an event, but only finitely often: every refusal
  uses up one of its failures.
\<close>

locale transient_sink =
  fixes handle :: "relay_event \<Rightarrow> ('k, unit) sres"
    and got :: "'k \<Rightarrow> string \<Rightarrow> bool"
    and failures :: "'k \<Rightarrow> nat"
  assumes handle_ok: "handle ev k = (Inr u, k') \<Longrightarrow> got k' (re_event_id ev) \<and> failures k' \<le> failures k"
    and handle_fails: "handle ev k = (Inl e, k') \<Longrightarrow> failures k' < failures k"
    and handle_keeps: "handle ev k = (r, k') \<Longrightarrow> got k i \<Longrightarrow> got k' i"
begin

definition total :: "string set \<Rightarrow> 'k sink_table \<Rightarrow> nat" where
  "total S sk = (\<Sum>i \<in> S. failures (sk i))"

lemma total_upd:
  assumes "finite S" "i \<in> S"
  shows "total S (sk(i := k)) + failures (sk i) = total S sk + failures k"
proof -
  have "(\<Sum>j \<in> S - {i}. failures ((sk(i := k)) j)) = (\<Sum>j \<in> S - {i}. failures (sk j))"
    by (intro sum.cong) auto
  with sum.remove [OF assms, of "\<lambda>j. failures ((sk(i := k)) j)"] sum.remove [OF assms, of "\<lambda>j. failures (sk j)"]
  show ?thesis by (simp add: total_def)
qed

lemma deliver_facts:
  assumes "deliver handle is ev sk = (b, sk')" "finite S" "set is \<subseteq> S"
  shows "total S sk' \<le> total S sk \<and> (\<not> b \<longrightarrow> total S sk' < total S sk)
     \<and> (\<forall>i j. got (sk i) j \<longrightarrow> got (sk' i) j) \<and> (b \<longrightarrow> (\<forall>i \<in> set is. got (sk' i) (re_event_id ev)))"
  using assms
proof (induction "is" arbitrary: sk)
  case Nil
  then show ?case by simp
next
  case (Cons i "is")
  obtain r k where h: "handle ev (sk i) = (r, k)" by (cases "handle ev (sk i)")
  have upd: "total S (sk(i := k)) + failures (sk i) = total S sk + failures k"
    using Cons.prems by (intro total_upd) auto
  have mono: "got (sk j) m \<Longrightarrow> got ((sk(i := k)) j) m" for j m using handle_keeps [OF h] by auto
  show ?case
  proof (cases r)
    case (Inl e)
    with Cons.prems h have "b = False" "sk' = sk(i := k)" by auto
    moreover have "total S (sk(i := k)) < total S sk" using handle_fails [of ev "sk i" e k] h Inl upd by simp
    ultimately show ?thesis using mono by (simp del: fun_upd_apply)
  next
    case (Inr u)
    with Cons.prems h have rest: "deliver handle is ev (sk(i := k)) = (b, sk')" by simp
    have ok: "got k (re_event_id ev)" "failures k \<le> failures (sk i)" using handle_ok h Inr by blast+
    have IH: "total S sk' \<le> total S (sk(i := k))" "\<not> b \<Longrightarrow> total S sk' < total S (sk(i := k))"
      "\<And>a j. got ((sk(i := k)) a) j \<Longrightarrow> got (sk' a) j" "\<And>j. b \<Longrightarrow> j \<in> set is \<Longrightarrow> got (sk' j) (re_event_id ev)"
      using Cons.IH [OF rest Cons.prems(2)] Cons.prems(3) by (simp_all del: fun_upd_apply)
    have "got (sk' i) (re_event_id ev)" using IH(3) [of i] ok(1) by simp
    moreover have "total S sk' \<le> total S sk" "\<not> b \<Longrightarrow> total S sk' < total S sk" using IH(1,2) upd ok(2) by simp_all
    moreover have "got (sk a) j \<Longrightarrow> got (sk' a) j" for a j using IH(3) mono by blast
    ultimately show ?thesis using IH(4) by auto
  qed
qed

lemma relay_one_facts:
  assumes "relay_one handle r clock ev (st, sk) = (ok, st', sk')" "distinct (event_ids st)"
    and "finite S" "set (sinks_for r (re_type ev)) \<subseteq> S"
  shows "event_ids st' = event_ids st \<and> set (rs_in_flight st') = set (rs_in_flight st) - {re_event_id ev}
     \<and> total S sk' \<le> total S sk \<and> (\<not> ok \<longrightarrow> total S sk' < total S sk)
     \<and> (\<forall>i j. got (sk i) j \<longrightarrow> got (sk' i) j)
     \<and> (\<forall>i. relayed st' i \<longleftrightarrow> relayed st i \<or> ok \<and> i = re_event_id ev \<and> i \<in> set (event_ids st))
     \<and> (ok \<longrightarrow> (\<forall>s \<in> set (sinks_for r (re_type ev)). got (sk' s) (re_event_id ev)))"
proof -
  have rel: "relayed st i \<Longrightarrow> i \<in> set (event_ids st)" for i by (auto simp: relayed_def event_ids_def)
  obtain b sk1 where d: "deliver handle (sinks_for r (re_type ev)) ev sk = (b, sk1)" by fastforce
  from deliver_facts [OF d assms(3,4)] assms(1,2) rel d show ?thesis
    by (cases b) (auto simp: relay_one_def Let_def relayed_mark split: if_splits)
qed

lemma relay_batch_facts:
  assumes "relay_batch handle r clock evs (st, sk) = (n, st', sk')" "distinct (event_ids st)"
    and "finite S" "\<And>ty. set (sinks_for r ty) \<subseteq> S"
  shows "event_ids st' = event_ids st \<and> set (rs_in_flight st') = set (rs_in_flight st) - re_event_id ` set evs
     \<and> total S sk' \<le> total S sk
     \<and> ((\<forall>ev \<in> set evs. re_event_id ev \<in> set (event_ids st) \<longrightarrow> relayed st' (re_event_id ev)) \<or> total S sk' < total S sk)
     \<and> (\<forall>i j. got (sk i) j \<longrightarrow> got (sk' i) j) \<and> (\<forall>i. relayed st i \<longrightarrow> relayed st' i)
     \<and> (\<forall>i. relayed st' i \<longrightarrow> \<not> relayed st i \<longrightarrow>
          (\<exists>ev \<in> set evs. re_event_id ev = i \<and> (\<forall>s \<in> set (sinks_for r (re_type ev)). got (sk' s) i)))"
  using assms(1,2)
proof (induction evs arbitrary: st sk n)
  case Nil
  then show ?case by simp
next
  case (Cons ev evs)
  obtain ok st1 sk1 where one: "relay_one handle r clock ev (st, sk) = (ok, st1, sk1)" by (metis prod_cases3)
  with Cons.prems(1) obtain m where rest: "relay_batch handle r clock evs (st1, sk1) = (m, st', sk')"
    by (auto split: prod.splits)
  note f1 = relay_one_facts [OF one Cons.prems(2) assms(3) assms(4)]
  have dist: "distinct (event_ids st1)" using f1 Cons.prems(2) by simp
  note f2 = Cons.IH [OF rest dist]
  have "(\<forall>e \<in> set (ev # evs). re_event_id e \<in> set (event_ids st) \<longrightarrow> relayed st' (re_event_id e)) \<or> total S sk' < total S sk"
    using f1 f2 by (cases ok) fastforce+
  moreover have "\<exists>e \<in> set (ev # evs). re_event_id e = i \<and> (\<forall>s \<in> set (sinks_for r (re_type e)). got (sk' s) i)"
    if "relayed st' i" "\<not> relayed st i" for i
    using f1 f2 that by (cases "relayed st1 i") fastforce+
  moreover have "total S sk' \<le> total S sk" using f1 f2 by linarith
  ultimately show ?case using f1 f2 by auto
qed

end

context transient_sink
begin

text \<open>A drain whose limit covers all events.\<close>

lemma drain_facts:
  assumes run: "drain handle r clock limit (st, sk) = (n, st', sk')" and dist: "distinct (event_ids st)"
    and S: "finite S" "\<And>ty. set (sinks_for r ty) \<subseteq> S"
    and free: "rs_in_flight st = []" and limit: "int (length (rs_events st)) \<le> limit"
  shows "event_ids st' = event_ids st \<and> rs_in_flight st' = [] \<and> total S sk' \<le> total S sk
     \<and> ((\<forall>i \<in> set (event_ids st). relayed st' i) \<or> total S sk' < total S sk)
     \<and> length (rs_events st') = length (rs_events st) \<and> (\<forall>i. relayed st i \<longrightarrow> relayed st' i)"
proof -
  let ?batch = "filter (\<lambda>e. re_relayed_at e = None) (rs_events st)"
  let ?st1 = "st\<lparr>rs_in_flight := fold (\<lambda>e. in_flight_add (re_event_id e)) ?batch []\<rparr>"
  have "length ?batch \<le> nat limit" using limit length_filter_le [of _ "rs_events st"] by (smt (verit) nat_le_iff of_nat_le_iff zle_int)
  then have slice: "slice_to limit ?batch = ?batch" using limit by (simp add: slice_to_def)
  from run have b: "relay_batch handle r clock ?batch (?st1, sk) = (n, st', sk')"
    by (simp add: drain_def fetch_unrelayed_def free Let_def slice)
  have ids: "event_ids ?st1 = event_ids st" "relayed ?st1 = relayed st"
    by (simp_all add: event_ids_def relayed_def fun_eq_iff)
  note f = relay_batch_facts [OF b _ S, unfolded ids, OF dist]
  have "set (rs_in_flight st') = {}"
    using f by (simp add: set_fold_in_flight)
  moreover have "relayed st' i" if "i \<in> set (event_ids st)"
    "\<forall>ev \<in> set ?batch. re_event_id ev \<in> set (event_ids st) \<longrightarrow> relayed st' (re_event_id ev)" for i
  proof -
    from that(1) obtain e where e: "e \<in> set (rs_events st)" "re_event_id e = i" by (auto simp: event_ids_def)
    show ?thesis
    proof (cases "re_relayed_at e")
      case None
      with e that show ?thesis by auto
    next
      case (Some t)
      with e have "relayed st i" by (auto simp: relayed_def)
      with f show ?thesis by blast
    qed
  qed
  moreover have "length (rs_events st') = length (rs_events st)" using f by (metis event_ids_def length_map)
  ultimately show ?thesis using f by fastforce
qed

lemma drains_keep_relayed:
  assumes "distinct (event_ids st)" "finite S" "\<And>ty. set (sinks_for r ty) \<subseteq> S"
    and "rs_in_flight st = []" "int (length (rs_events st)) \<le> limit" "relayed st i"
  shows "relayed (fst (fold (\<lambda>c s. snd (drain handle r c limit s)) cs (st, sk))) i"
  using assms(1,4-)
proof (induction cs arbitrary: st sk)
  case (Cons c cs)
  obtain m st' sk' where run: "drain handle r c limit (st, sk) = (m, st', sk')" by (metis prod_cases3)
  with drain_facts [OF run Cons.prems(1) assms(2,3) Cons.prems(2,3)] Cons show ?case by simp
qed simp

text \<open>Every drain either relays everything or uses up a failure.\<close>

lemma drains_relay_all:
  assumes "distinct (event_ids st)" "finite S" "\<And>ty. set (sinks_for r ty) \<subseteq> S"
    and "rs_in_flight st = []" "int (length (rs_events st)) \<le> limit" "total S sk < length cs"
    and "i \<in> set (event_ids st)"
  shows "relayed (fst (fold (\<lambda>c s. snd (drain handle r c limit s)) cs (st, sk))) i"
  using assms(1,4-)
proof (induction cs arbitrary: st sk)
  case (Cons c cs)
  obtain m st' sk' where run: "drain handle r c limit (st, sk) = (m, st', sk')" by (metis prod_cases3)
  note f = drain_facts [OF run Cons.prems(1) assms(2,3) Cons.prems(2,3)]
  then have d: "distinct (event_ids st')" using Cons.prems(1) by simp
  show ?case
  proof (cases "relayed st' i")
    case True
    with drains_keep_relayed [OF d assms(2,3), of limit i cs sk'] f Cons.prems run show ?thesis by simp
  next
    case False
    with f Cons.prems have "total S sk' < length cs" by auto
    with Cons.IH [OF d, of sk'] f Cons.prems run show ?thesis by simp
  qed
qed simp

end

section \<open>Interleaved workers\<close>

definition held :: "'k relay_world \<Rightarrow> nat \<Rightarrow> string set" where
  "held w k = re_event_id ` set (rw_queue w k)"

lemma slice_to_subset: "set (slice_to n xs) \<subseteq> set xs"
  by (simp add: slice_to_def set_take_subset)

lemma distinct_slice_filter: "distinct (map f xs) \<Longrightarrow> distinct (map f (slice_to n (filter P xs)))"
  by (simp add: slice_to_def take_map [symmetric] distinct_map_filter)

lemma mark_first_cases:
  "e \<in> set (mark_first eid now es) \<Longrightarrow> e \<in> set es \<or> (\<exists>e' \<in> set es. re_event_id e' = eid \<and> e = e'\<lparr>re_relayed_at := Some now\<rparr>)"
  by (induction es) (auto split: if_splits)

lemma mark_first_other_in: "e \<in> set es \<Longrightarrow> re_event_id e \<noteq> eid \<Longrightarrow> e \<in> set (mark_first eid now es)"
  by (induction es) auto

lemma distinct_ids_eq: "distinct (map f xs) \<Longrightarrow> x \<in> set xs \<Longrightarrow> y \<in> set xs \<Longrightarrow> f x = f y \<Longrightarrow> x = y"
  by (auto simp: distinct_map inj_on_def)

context transient_sink
begin

text \<open>
  What every interleaving keeps: the events a worker holds are distinct, unrelayed, in flight and held
  by no other worker; the sinks a worker is through with have the event; a relayed event has reached
  all its sinks.
\<close>

definition relay_inv :: "relay_routes \<Rightarrow> 'k relay_world \<Rightarrow> bool" where
  "relay_inv r w \<longleftrightarrow> distinct (map re_event_id (rs_events (rw_store w)))
     \<and> (\<forall>k. distinct (map re_event_id (rw_queue w k))) \<and> (\<forall>k. held w k \<subseteq> set (rs_in_flight (rw_store w)))
     \<and> (\<forall>k l. k \<noteq> l \<longrightarrow> held w k \<inter> held w l = {})
     \<and> (\<forall>k. \<forall>e \<in> set (rw_queue w k). e \<in> set (rs_events (rw_store w)) \<and> re_relayed_at e = None)
     \<and> (\<forall>k ev evs is. rw_queue w k = ev # evs \<longrightarrow> rw_rest w k = Some is \<longrightarrow>
          (\<forall>i \<in> set (sinks_for r (re_type ev)). i \<in> set is \<or> got (rw_sinks w i) (re_event_id ev)))
     \<and> (\<forall>e \<in> set (rs_events (rw_store w)). re_relayed_at e \<noteq> None \<longrightarrow>
          (\<forall>i \<in> set (sinks_for r (re_type e)). got (rw_sinks w i) (re_event_id e)))"

lemma relay_invI:
  assumes "distinct (map re_event_id (rs_events (rw_store w)))" "\<And>k. distinct (map re_event_id (rw_queue w k))"
    "\<And>k. held w k \<subseteq> set (rs_in_flight (rw_store w))" "\<And>k l. k \<noteq> l \<Longrightarrow> held w k \<inter> held w l = {}"
    "\<And>k e. e \<in> set (rw_queue w k) \<Longrightarrow> e \<in> set (rs_events (rw_store w)) \<and> re_relayed_at e = None"
    "\<And>k ev evs is i. rw_queue w k = ev # evs \<Longrightarrow> rw_rest w k = Some is \<Longrightarrow> i \<in> set (sinks_for r (re_type ev)) \<Longrightarrow>
       i \<in> set is \<or> got (rw_sinks w i) (re_event_id ev)"
    "\<And>e i. e \<in> set (rs_events (rw_store w)) \<Longrightarrow> re_relayed_at e \<noteq> None \<Longrightarrow> i \<in> set (sinks_for r (re_type e)) \<Longrightarrow>
       got (rw_sinks w i) (re_event_id e)"
  shows "relay_inv r w"
  using assms unfolding relay_inv_def by blast

lemma relay_invD:
  assumes "relay_inv r w"
  shows "distinct (map re_event_id (rs_events (rw_store w)))" "distinct (map re_event_id (rw_queue w k))"
    "held w k \<subseteq> set (rs_in_flight (rw_store w))" "k \<noteq> l \<Longrightarrow> held w k \<inter> held w l = {}"
    "e \<in> set (rw_queue w k) \<Longrightarrow> e \<in> set (rs_events (rw_store w)) \<and> re_relayed_at e = None"
    "rw_queue w k = ev # evs \<Longrightarrow> rw_rest w k = Some is \<Longrightarrow> i \<in> set (sinks_for r (re_type ev)) \<Longrightarrow>
       i \<in> set is \<or> got (rw_sinks w i) (re_event_id ev)"
    "e \<in> set (rs_events (rw_store w)) \<Longrightarrow> re_relayed_at e \<noteq> None \<Longrightarrow> i \<in> set (sinks_for r (re_type e)) \<Longrightarrow>
       got (rw_sinks w i) (re_event_id e)"
  using assms unfolding relay_inv_def by blast+

text \<open>A worker that lets go of its first event, which others do not hold.\<close>

lemma relay_inv_pop:
  assumes inv: "relay_inv r w" and q: "rw_queue w k = ev # evs"
    and ids: "map re_event_id (rs_events st) = map re_event_id (rs_events (rw_store w))"
    and fl: "set (rs_in_flight st) = set (rs_in_flight (rw_store w)) - {re_event_id ev}"
    and keep: "\<And>e. e \<in> set (rs_events (rw_store w)) \<Longrightarrow> re_event_id e \<noteq> re_event_id ev \<Longrightarrow> e \<in> set (rs_events st)"
    and got: "\<And>a j. got (rw_sinks w a) j \<Longrightarrow> got (sk a) j"
    and rel: "\<And>e i. e \<in> set (rs_events st) \<Longrightarrow> re_relayed_at e \<noteq> None \<Longrightarrow> i \<in> set (sinks_for r (re_type e)) \<Longrightarrow> got (sk i) (re_event_id e)"
  shows "relay_inv r (w\<lparr>rw_store := st, rw_sinks := sk, rw_queue := (rw_queue w)(k := evs), rw_rest := (rw_rest w)(k := None)\<rparr>)"
    (is "relay_inv r ?w")
proof -
  note D = relay_invD [OF inv]
  have sub: "set (rw_queue ?w l) \<subseteq> set (rw_queue w l)" for l using q by auto
  have other: "re_event_id ev \<notin> held ?w l" for l
    using D(2) [of k] D(4) [of k l] q by (cases "l = k") (auto simp: held_def)
  have held: "held ?w l \<subseteq> held w l" for l using sub [of l] by (auto simp: held_def)
  show ?thesis
  proof (rule relay_invI)
    show "distinct (map re_event_id (rw_queue ?w l))" for l using D(2) [of l] q by auto
    show "held ?w l \<subseteq> set (rs_in_flight (rw_store ?w))" for l
      using D(3) [of l] other [of l] held [of l] fl by auto
    show "held ?w l \<inter> held ?w m = {}" if "l \<noteq> m" for l m using D(4) [OF that] held [of l] held [of m] by blast
    show "e \<in> set (rs_events (rw_store ?w)) \<and> re_relayed_at e = None" if "e \<in> set (rw_queue ?w l)" for e l
    proof -
      have "re_event_id e \<noteq> re_event_id ev" using other [of l] that by (metis held_def imageI)
      with D(5) [of e l] sub [of l] keep that show ?thesis by auto
    qed
    show "i \<in> set is \<or> got (rw_sinks ?w i) (re_event_id ev')"
      if "rw_queue ?w l = ev' # evs'" "rw_rest ?w l = Some is" "i \<in> set (sinks_for r (re_type ev'))" for l ev' evs' "is" i
      using D(6) [of l ev' evs' "is" i] that got by (auto split: if_splits)
  qed (use D(1) ids rel in auto)
qed

lemma relay_step_inv:
  assumes "relay_step handle r w w'" "relay_inv r w"
  shows "relay_inv r w'"
  using assms(1)
proof cases
  case (publish ev stored st)
  have "st = (rw_store w)\<lparr>rs_events := rs_events (rw_store w) @ [stored]\<rparr>" "re_event_id stored = re_event_id ev"
    "re_relayed_at stored = None"
    using publish by (auto simp: relay_append_def check_relay_event_def split: if_splits)
  with publish assms(2) show ?thesis by (auto simp: relay_inv_def held_def)
next
  case (fetch k limit batch st)
  note D = relay_invD [OF assms(2)]
  define cand where "cand = filter (\<lambda>e. re_relayed_at e = None \<and> re_event_id e \<notin> set (rs_in_flight (rw_store w))) (rs_events (rw_store w))"
  have batch: "batch = slice_to limit cand" and st: "rs_events st = rs_events (rw_store w)"
    "set (rs_in_flight st) = set (rs_in_flight (rw_store w)) \<union> re_event_id ` set batch"
    using fetch(3) by (auto simp: fetch_unrelayed_def Let_def cand_def set_fold_in_flight)
  have "set batch \<subseteq> set cand" unfolding batch by (rule slice_to_subset)
  then have b: "e \<in> set (rs_events (rw_store w)) \<and> re_relayed_at e = None \<and> re_event_id e \<notin> set (rs_in_flight (rw_store w))"
    if "e \<in> set batch" for e using that by (auto simp: cand_def)
  have held: "held w' l = (if l = k then re_event_id ` set batch else held w l)" for l by (simp add: held_def fetch(1))
  have store: "rw_store w' = st" by (simp add: fetch(1))
  have fresh: "re_event_id ` set batch \<inter> held w l = {}" for l using b D(3) [of l] by blast
  show ?thesis
  proof (rule relay_invI)
    have "distinct (map re_event_id batch)" unfolding batch cand_def by (intro distinct_slice_filter D(1))
    then show "distinct (map re_event_id (rw_queue w' l))" for l using D(2) [of l] by (simp add: fetch(1))
    show "held w' l \<subseteq> set (rs_in_flight (rw_store w'))" for l using D(3) [of l] by (auto simp: held st store)
    show "held w' l \<inter> held w' m = {}" if "l \<noteq> m" for l m
      using D(4) [OF that] fresh [of l] fresh [of m] that by (auto simp: held)
    show "e \<in> set (rs_events (rw_store w')) \<and> re_relayed_at e = None" if "e \<in> set (rw_queue w' l)" for e l
      using D(5) [of e l] b [of e] that by (auto simp: st fetch(1) split: if_splits)
    show "i \<in> set is \<or> got (rw_sinks w' i) (re_event_id ev')"
      if "rw_queue w' l = ev' # evs'" "rw_rest w' l = Some is" "i \<in> set (sinks_for r (re_type ev'))" for l ev' evs' "is" i
      using D(6) [of l ev' evs' "is" i] that by (auto simp: fetch(1) split: if_splits)
    show "got (rw_sinks w' i) (re_event_id e)"
      if "e \<in> set (rs_events (rw_store w'))" "re_relayed_at e \<noteq> None" "i \<in> set (sinks_for r (re_type e))" for e i
      using D(7) [of e i] that by (simp add: fetch(1) st)
  qed (use D(1) in \<open>simp add: fetch(1) st\<close>)
next
  case (take_up k ev evs)
  then show ?thesis using assms(2) by (auto simp: relay_inv_def held_def)
next
  case (hand_over k ev evs i "is" u sk)
  note D = relay_invD [OF assms(2)]
  have got: "got sk (re_event_id ev)" using handle_ok hand_over(4) by blast
  have mono: "got (rw_sinks w a) j \<Longrightarrow> got (rw_sinks w' a) j" for a j
    using handle_keeps [OF hand_over(4)] by (auto simp: hand_over(1))
  have "b \<in> set is' \<or> got (rw_sinks w' b) (re_event_id ev')"
    if "rw_queue w' l = ev' # evs'" "rw_rest w' l = Some is'" "b \<in> set (sinks_for r (re_type ev'))" for l ev' evs' is' b
  proof (cases "l = k")
    case True
    with that hand_over have "ev' = ev" "is' = is" by auto
    with D(6) [OF hand_over(2,3), of b] that(3) mono got show ?thesis by (auto simp: hand_over(1))
  next
    case False
    with that have "rw_queue w l = ev' # evs'" "rw_rest w l = Some is'" by (simp_all add: hand_over(1))
    with D(6) that(3) mono show ?thesis by blast
  qed
  moreover have "got (rw_sinks w' a) (re_event_id e)"
    if "e \<in> set (rs_events (rw_store w'))" "re_relayed_at e \<noteq> None" "a \<in> set (sinks_for r (re_type e))" for e a
    using D(7) [of e a] that mono by (simp add: hand_over(1))
  ultimately show ?thesis
    using D(1-5) by (intro relay_invI) (auto simp: hand_over(1) held_def)
next
  case (give_up k ev evs i "is" e sk)
  have "\<And>j. got (rw_sinks w i) j \<Longrightarrow> got sk j" using handle_keeps give_up(4) by blast
  then have "relay_inv r (w\<lparr>rw_store := release_in_flight (re_event_id ev) (rw_store w), rw_sinks := (rw_sinks w)(i := sk),
      rw_queue := (rw_queue w)(k := evs), rw_rest := (rw_rest w)(k := None)\<rparr>)"
    using relay_invD(7) [OF assms(2)]
    by (intro relay_inv_pop [OF assms(2) give_up(2)]) (auto simp: release_in_flight_def)
  then show ?thesis by (cases w) (simp add: give_up(1))
next
  case (settle k ev evs now)
  note D = relay_invD [OF assms(2)]
  have ev: "ev \<in> set (rs_events (rw_store w))" using D(5) [of ev k] settle by simp
  have "got (rw_sinks w i) (re_event_id e)"
    if "e \<in> set (mark_first (re_event_id ev) now (rs_events (rw_store w)))" "re_relayed_at e \<noteq> None"
      "i \<in> set (sinks_for r (re_type e))" for e i
    using mark_first_cases [OF that(1)]
  proof
    assume "\<exists>e' \<in> set (rs_events (rw_store w)). re_event_id e' = re_event_id ev \<and> e = e'\<lparr>re_relayed_at := Some now\<rparr>"
    then have "e = ev\<lparr>re_relayed_at := Some now\<rparr>" using distinct_ids_eq [OF D(1) _ ev] by blast
    with D(6) [OF settle(2,3), of i] that(3) show ?thesis by simp
  qed (use D(7) that in blast)
  then have "relay_inv r (w\<lparr>rw_store := mark_relayed (re_event_id ev) now (rw_store w), rw_sinks := rw_sinks w,
      rw_queue := (rw_queue w)(k := evs), rw_rest := (rw_rest w)(k := None)\<rparr>)"
    by (intro relay_inv_pop [OF assms(2) settle(2)]) (auto simp: mark_relayed_def release_in_flight_def mark_first_other_in)
  then show ?thesis by (cases w) (simp add: settle(1))
qed

end

section \<open>The in-memory sink meets the contract\<close>

definition pending_failures :: "memory_sink \<Rightarrow> nat" where
  "pending_failures k = nat (dict_sum (max 0) (sk_failures k))"

lemma dict_sum_first:
  "dict_sum f (dict_set k v d) = dict_sum f d + f v - (case dict_get d k of None \<Rightarrow> 0 | Some w \<Rightarrow> f w)"
  by (induction d) auto

lemma dict_sum_max_ge: "(case dict_get d k of None \<Rightarrow> 0 | Some w \<Rightarrow> max 0 w) \<le> dict_sum (max 0) d" for d :: "('k, int) dict"
proof (induction d)
  case (Cons p d)
  have "0 \<le> dict_sum (max 0) d" by (induction d) auto
  with Cons show ?case by (cases p) (auto split: option.splits)
qed simp

interpretation mem_sink: transient_sink sink_handle "\<lambda>k i. i \<in> set (sk_delivered k)" pending_failures
proof
  fix ev k u k'
  assume "sink_handle ev k = (Inr u, k')"
  then show "re_event_id ev \<in> set (sk_delivered k') \<and> pending_failures k' \<le> pending_failures k"
    by (auto simp: sink_handle_def Let_def pending_failures_def split: if_splits)
next
  fix ev k e k'
  assume "sink_handle ev k = (Inl e, k')"
  then have pos: "0 < dict_get_or (sk_failures k) (re_event_id ev) 0"
    and k': "k' = k\<lparr>sk_failures := dict_set (re_event_id ev) (dict_get_or (sk_failures k) (re_event_id ev) 0 - 1) (sk_failures k)\<rparr>"
    by (auto simp: sink_handle_def Let_def split: if_splits)
  from pos obtain w where w: "dict_get (sk_failures k) (re_event_id ev) = Some w" "0 < w"
    by (auto simp: dict_get_or_def split: option.splits)
  then have "dict_sum (max 0) (sk_failures k') = dict_sum (max 0) (sk_failures k) - 1"
    by (simp add: k' dict_sum_first dict_get_or_def)
  with dict_sum_max_ge [of "sk_failures k" "re_event_id ev"] w show "pending_failures k' < pending_failures k"
    by (simp add: pending_failures_def)
next
  fix ev k r k' i
  assume "sink_handle ev k = (r, k')" "i \<in> set (sk_delivered k)"
  then show "i \<in> set (sk_delivered k')" by (auto simp: sink_handle_def Let_def split: if_splits)
qed

section \<open>Guarantees of the relay\<close>

definition fresh_world :: "memory_sink relay_world \<Rightarrow> bool" where
  "fresh_world w \<longleftrightarrow> distinct (event_ids (rw_store w)) \<and> (\<forall>e \<in> set (rs_events (rw_store w)). re_relayed_at e = None)
     \<and> rs_in_flight (rw_store w) = [] \<and> (\<forall>k. rw_queue w k = [])"

lemma fresh_world_inv: "fresh_world w \<Longrightarrow> mem_sink.relay_inv r w"
  by (auto simp: fresh_world_def mem_sink.relay_inv_def held_def event_ids_def)

lemma relay_steps_inv:
  "(relay_step sink_handle r)\<^sup>*\<^sup>* w w' \<Longrightarrow> mem_sink.relay_inv r w \<Longrightarrow> mem_sink.relay_inv r w'"
  by (induction rule: rtranclp_induct) (auto intro: mem_sink.relay_step_inv)

text \<open>
  C9: However relays and publishers interleave over one store, no event is in the hands of two relays at
  once, and no relay holds an event that is already relayed.
\<close>

theorem workers_never_share_an_event:
  assumes "fresh_world w" "(relay_step sink_handle r)\<^sup>*\<^sup>* w w'" "e \<in> set (rw_queue w' k)"
  shows "re_relayed_at e = None \<and> e \<in> set (rs_events (rw_store w')) \<and>
    (\<forall>l. re_event_id e \<in> held w' l \<longrightarrow> l = k)"
proof -
  note inv = relay_steps_inv [OF assms(2) fresh_world_inv [OF assms(1)]]
  have "re_event_id e \<in> held w' k" using assms(3) by (auto simp: held_def)
  with mem_sink.relay_invD(4,5) [OF inv] assms(3) show ?thesis by blast
qed

text \<open>
  At-least-once delivery: in every state of every interleaving, an event that is marked relayed has been
  accepted by each sink its type is routed to, whichever deliveries failed on the way.
\<close>

theorem relayed_means_delivered:
  assumes "fresh_world w" "(relay_step sink_handle r)\<^sup>*\<^sup>* w w'"
    and "e \<in> set (rs_events (rw_store w'))" "re_relayed_at e \<noteq> None" "i \<in> set (sinks_for r (re_type e))"
  shows "re_event_id e \<in> set (sk_delivered (rw_sinks w' i))"
  using mem_sink.relay_invD(7) [OF relay_steps_inv [OF assms(2) fresh_world_inv [OF assms(1)]] assms(3-5)] .


section \<open>Witnesses\<close>

definition wit_event :: relay_event where
  "wit_event = \<lparr>re_event_id = ''e1'', re_type = ''purchase.approved'', re_aggregate_id = ''m1'', re_payload = [],
     re_created_at = 0, re_seq = Some 1, re_relayed_at = None\<rparr>"

definition wit_routes :: relay_routes where
  "wit_routes = \<lparr>rr_routes = [], rr_default = [''bot'']\<rparr>"

definition wit_world :: "memory_sink relay_world" where
  "wit_world = \<lparr>rw_store = \<lparr>rs_events = [wit_event], rs_in_flight = []\<rparr>,
     rw_sinks = (\<lambda>_. \<lparr>sk_received = [], sk_delivered = [], sk_failures = []\<rparr>), rw_queue = (\<lambda>_. []), rw_rest = (\<lambda>_. None)\<rparr>"

text \<open>The steps of one worker: fetch, take up, hand over, settle.\<close>

definition wit_fetched :: "memory_sink relay_world" where
  "wit_fetched = wit_world\<lparr>rw_store := snd (fetch_unrelayed 100 (rw_store wit_world)),
     rw_queue := (rw_queue wit_world)(0 := fst (fetch_unrelayed 100 (rw_store wit_world))),
     rw_rest := (rw_rest wit_world)(0 := None)\<rparr>"

definition wit_taken :: "memory_sink relay_world" where
  "wit_taken = wit_fetched\<lparr>rw_rest := (rw_rest wit_fetched)(0 := Some (sinks_for wit_routes (re_type wit_event)))\<rparr>"

definition wit_handed :: "memory_sink relay_world" where
  "wit_handed = wit_taken\<lparr>rw_sinks := (rw_sinks wit_taken)(''bot'' := snd (sink_handle wit_event (rw_sinks wit_taken ''bot''))),
     rw_rest := (rw_rest wit_taken)(0 := Some [])\<rparr>"

definition wit_settled :: "memory_sink relay_world" where
  "wit_settled = wit_handed\<lparr>rw_store := mark_relayed (re_event_id wit_event) 5 (rw_store wit_handed),
     rw_queue := (rw_queue wit_handed)(0 := []), rw_rest := (rw_rest wit_handed)(0 := None)\<rparr>"

lemma wit_fresh: "fresh_world wit_world"
  by (simp add: fresh_world_def event_ids_def wit_world_def wit_event_def)

lemma wit_fetched_simps [simp]:
  "rw_queue wit_fetched = (\<lambda>_. [])(0 := [wit_event])" "rw_rest wit_fetched = (\<lambda>_. None)"
  "rw_store wit_fetched = \<lparr>rs_events = [wit_event], rs_in_flight = [''e1'']\<rparr>"
  "rw_sinks wit_fetched = (\<lambda>_. \<lparr>sk_received = [], sk_delivered = [], sk_failures = []\<rparr>)"
  by (auto simp: wit_fetched_def wit_world_def fetch_unrelayed_def slice_to_def in_flight_add_def wit_event_def Let_def)

lemma wit_steps:
  "relay_step sink_handle wit_routes wit_world wit_fetched" "relay_step sink_handle wit_routes wit_fetched wit_taken"
  "relay_step sink_handle wit_routes wit_taken wit_handed" "relay_step sink_handle wit_routes wit_handed wit_settled"
     apply (unfold wit_fetched_def, rule relay_step.fetch) [1]
      apply (simp_all add: wit_world_def) [2]
    apply (unfold wit_taken_def, rule relay_step.take_up; simp) [1]
   apply (unfold wit_handed_def, rule relay_step.hand_over [where u = "()"]; simp add: wit_taken_def wit_routes_def sinks_for_def dict_get_or_def sink_handle_def Let_def) [1]
  apply (unfold wit_settled_def, rule relay_step.settle; simp add: wit_handed_def wit_taken_def) [1]
  done

lemma wit_reaches: "(relay_step sink_handle wit_routes)\<^sup>*\<^sup>* wit_world wit_fetched"
    "(relay_step sink_handle wit_routes)\<^sup>*\<^sup>* wit_world wit_settled"
  using wit_steps by (meson converse_rtranclp_into_rtranclp rtranclp.rtrancl_refl)+

theorem workers_never_share_an_event_witness: "''e1'' \<notin> held wit_fetched 1"
  using workers_never_share_an_event [OF wit_fresh wit_reaches(1), of wit_event 0]
  by (auto simp: wit_event_def)

theorem relayed_means_delivered_witness: "''e1'' \<in> set (sk_delivered (rw_sinks wit_settled ''bot''))"
  using relayed_means_delivered [OF wit_fresh wit_reaches(2), of "wit_event\<lparr>re_relayed_at := Some 5\<rparr>" "''bot''"]
  by (simp add: wit_settled_def wit_handed_def wit_taken_def mark_relayed_def release_in_flight_def wit_event_def
      wit_routes_def sinks_for_def dict_get_or_def)


end
