(* ===== verification/Agent_Rules.thy ===== *)
theory Agent_Rules
  imports Json_Logic Canonical_Json
begin

text \<open>
  What the agent lane computes with: money as text of two decimals (\<^verbatim>\<open>src/src/agent/crypto/money.py\<close>),
  its canonical JSON (\<^verbatim>\<open>crypto/canonical.py\<close>) and the small rule evaluator of the signed conditions
  (\<^verbatim>\<open>jsonlogic.py\<close>). A not-a-number is taken to raise where it is read; the code raises where it first
  compares it. \<^verbatim>\<open>Decimal(str(d))\<close> of a decimal \<open>d\<close> is \<open>d\<close>.
\<close>

section \<open>Money\<close>

text \<open>Division rounded to the nearest integer, ties away from zero (\<^verbatim>\<open>ROUND_HALF_UP\<close>).\<close>

definition round_half_up :: "int \<Rightarrow> int \<Rightarrow> int" where
  "round_half_up c d = sgn c * ((2 * \<bar>c\<bar> + d) div (2 * d))"

definition quantize_half_up :: "dec \<Rightarrow> cents res" where
  "quantize_half_up x =
     (let c = (if - 2 \<le> expo x then coeff x * 10 ^ nat (expo x + 2)
               else round_half_up (coeff x) (10 ^ nat (- 2 - expo x)))
      in if \<bar>c\<bar> < cents_limit then Inr c else Inl InvalidOperation)"

definition to_decimal :: "pyval \<Rightarrow> decimal_literal res" where
  "to_decimal v = (case v of PDec d \<Rightarrow> Inr (FiniteDecimal d) | _ \<Rightarrow> parse_decimal (py_str v))"

definition money_dec :: "pyval \<Rightarrow> cents res" where
  "money_dec v =
     bind_res (to_decimal v) (\<lambda>l.
     case l of FiniteDecimal d \<Rightarrow> quantize_half_up d | SpecialDecimal \<Rightarrow> Inl InvalidOperation)"

definition fmt_cents :: "cents \<Rightarrow> string" where
  "fmt_cents c = (if c < 0 then ''-'' else '''') @ cents_str \<bar>c\<bar>"

definition money_fmt :: "pyval \<Rightarrow> string res" where
  "money_fmt v = bind_res (money_dec v) (\<lambda>c. Inr (fmt_cents c))"

lemma quantize_half_up_cents [simp]: "\<bar>c\<bar> < cents_limit \<Longrightarrow> quantize_half_up (cents_dec c) = Inr c"
  by (simp add: quantize_half_up_def)

lemma quantize_half_up_bound: "quantize_half_up d = Inr c \<Longrightarrow> \<bar>c\<bar> < cents_limit"
  by (auto simp: quantize_half_up_def Let_def split: if_splits)

lemma money_dec_bound: "money_dec v = Inr c \<Longrightarrow> \<bar>c\<bar> < cents_limit"
  using quantize_half_up_bound
  by (cases "to_decimal v") (auto simp: money_dec_def split: decimal_literal.splits)

lemma money_dec_PDec [simp]: "money_dec (PDec d) = quantize_half_up d"
  by (simp add: money_dec_def to_decimal_def)

text \<open>Reading a signed numeral.\<close>

lemma cents_str_ends: "cents_str c \<noteq> []" "is_digit (last (cents_str c))" "is_digit (hd (cents_str c))"
proof -
  have "is_digit (last (pad_str 2 n))" for n
    using all_digits_pad_str [of 2 n] length_pad_str [of 2 n] by (metis last_in_set length_0_conv list_all_iff zero_neq_numeral)
  moreover have "is_digit (hd (nat_str n))" for n
    using all_digits_nat_str [of n] by (metis list.set_sel(1) list_all_iff nat_str_nonempty)
  moreover have "pad_str 2 n \<noteq> []" for n using length_pad_str [of 2 n] by force
  ultimately show "cents_str c \<noteq> []" "is_digit (last (cents_str c))" "is_digit (hd (cents_str c))"
    by (simp_all add: cents_str_def)
qed

lemma minus_not_space: "\<not> is_space (CHR ''-'')"
  by (simp add: is_space_def)

lemma parse_minus:
  assumes "s \<noteq> []" "is_digit (hd s)" "is_digit (last s)" "parse_decimal s = Inr (FiniteDecimal d)"
  shows "parse_decimal (CHR ''-'' # s) = Inr (FiniteDecimal (Dec (- coeff d) (expo d)))"
proof -
  have strip: "py_strip s = s" "py_strip (CHR ''-'' # s) = CHR ''-'' # s"
    using assms(1-3) by (auto intro!: py_strip_id simp: digit_not_space minus_not_space)
  obtain c cs where s: "s = c # cs" "is_digit c" using assms(1,2) by (cases s) auto
  let ?body = "filter (\<lambda>c. c \<noteq> CHR ''_'') s"
  have "take_sign ?body = (1, ?body)" using s by (auto simp: take_sign_def)
  moreover have "take_sign (filter (\<lambda>c. c \<noteq> CHR ''_'') (CHR ''-'' # s)) = (- 1, ?body)" by (simp add: take_sign_def)
  ultimately show ?thesis
    using assms(4) unfolding parse_decimal_def strip
    by (auto simp: Let_def split: if_splits option.splits)
qed

text \<open>Money survives its text.\<close>

lemma money_dec_fmt [simp]: "\<bar>c\<bar> < cents_limit \<Longrightarrow> money_dec (PStr (fmt_cents c)) = Inr c"
proof (cases "0 \<le> c")
  case False
  assume "\<bar>c\<bar> < cents_limit"
  with False show ?thesis
    using parse_minus [OF cents_str_ends(1,3,2), of "\<bar>c\<bar>" "cents_dec \<bar>c\<bar>"] parse_cents_str [of "\<bar>c\<bar>"]
    by (simp add: money_dec_def to_decimal_def fmt_cents_def)
qed (simp add: money_dec_def to_decimal_def fmt_cents_def parse_cents_str)

section \<open>Canonical JSON\<close>

text \<open>\<^verbatim>\<open>_check\<close> of the agent's canonical form: nothing but JSON data, and no floats.\<close>

fun json_plain :: "pyval \<Rightarrow> bool"
  and json_plain_list :: "pyval list \<Rightarrow> bool"
  and json_plain_dict :: "pydict \<Rightarrow> bool" where
  "json_plain (PFloat d r) = False"
| "json_plain (PDec d) = False"
| "json_plain (PTime t) = False"
| "json_plain (PList xs) = json_plain_list xs"
| "json_plain (PDict m) = json_plain_dict m"
| "json_plain v = True"
| "json_plain_list [] = True"
| "json_plain_list (x # xs) = (json_plain x \<and> json_plain_list xs)"
| "json_plain_dict [] = True"
| "json_plain_dict ((k, v) # m) = (json_plain v \<and> json_plain_dict m)"

definition agent_canonical_json :: "pyval \<Rightarrow> string res" where
  "agent_canonical_json v =
     (if json_plain v then json_dumps (\<lambda>_. Inl TypeError) v else Inl NonCanonical)"

section \<open>The rule evaluator\<close>

text \<open>\<^verbatim>\<open>_num\<close>: a decimal, which may be infinite or not a number.\<close>

datatype num_val = Fin dec | Inf bool | NaN

definition special_num :: "string \<Rightarrow> num_val" where
  "special_num raw =
     (let (sg, body) = take_sign (filter (\<lambda>c. c \<noteq> CHR ''_'') (py_strip raw))
      in if map to_lower (take 3 body) = ''inf'' then Inf (sg < 0) else NaN)"

definition rule_num :: "pyval \<Rightarrow> num_val res" where
  "rule_num v =
     (case to_decimal v of
        Inl _ \<Rightarrow> Inl RuleError
      | Inr (FiniteDecimal d) \<Rightarrow> Inr (Fin d)
      | Inr SpecialDecimal \<Rightarrow> Inr (special_num (py_str v)))"

fun num_cmp :: "num_val \<Rightarrow> num_val \<Rightarrow> ordering res" where
  "num_cmp NaN y = Inl InvalidOperation"
| "num_cmp x NaN = Inl InvalidOperation"
| "num_cmp (Fin d) (Fin e) = Inr (dec_cmp d e)"
| "num_cmp (Fin d) (Inf neg) = Inr (if neg then OGreater else OLess)"
| "num_cmp (Inf neg) (Fin e) = Inr (if neg then OLess else OGreater)"
| "num_cmp (Inf m) (Inf n) = Inr (if m = n then OEqual else if m then OLess else OGreater)"

definition rule_cmp :: "string \<Rightarrow> pyval \<Rightarrow> pyval \<Rightarrow> bool res" where
  "rule_cmp op x y =
     bind_res (rule_num x) (\<lambda>l. bind_res (rule_num y) (\<lambda>r. bind_res (num_cmp l r) (\<lambda>c.
     Inr (if op = ''<'' then c = OLess else if op = ''<='' then c \<noteq> OGreater
          else if op = ''>'' then c = OGreater else c \<noteq> OLess))))"

fun rule_walk :: "pyval \<Rightarrow> string list \<Rightarrow> pyval option" where
  "rule_walk cur [] = Some cur"
| "rule_walk cur (p # ps) =
     (case cur of PDict m \<Rightarrow> (case dict_get m p of None \<Rightarrow> None | Some v \<Rightarrow> rule_walk v ps) | _ \<Rightarrow> None)"

definition rule_var :: "pyval \<Rightarrow> pydict \<Rightarrow> pyval \<Rightarrow> pyval" where
  "rule_var path cx dflt =
     (if path = PStr '''' then PDict cx
      else (case rule_walk (PDict cx) (split_dot (py_str path)) of Some v \<Rightarrow> v | None \<Rightarrow> dflt))"

text \<open>
  \<^verbatim>\<open>evaluate\<close>. The operators with two operands unpack a generator over \<^verbatim>\<open>args[:2]\<close>: with fewer operands
  the unpacking raises \<^verbatim>\<open>ValueError\<close> after the operands are evaluated.
\<close>

function rule_evaluate :: "pydict \<Rightarrow> pyval \<Rightarrow> pyval res"
  and rule_map :: "pydict \<Rightarrow> pyval list \<Rightarrow> pyval list res"
  and rule_and :: "pydict \<Rightarrow> pyval \<Rightarrow> pyval list \<Rightarrow> pyval res"
  and rule_or :: "pydict \<Rightarrow> pyval \<Rightarrow> pyval list \<Rightarrow> pyval res"
  and rule_if :: "pydict \<Rightarrow> pyval list \<Rightarrow> pyval res"
  and rule_pair :: "pydict \<Rightarrow> pyval list \<Rightarrow> (pyval \<times> pyval) res"
  and rule_op :: "pydict \<Rightarrow> string \<Rightarrow> pyval list \<Rightarrow> pyval res" where
  "rule_evaluate cx e =
     (case e of
        PDict m \<Rightarrow> (case m of [(op, raw)] \<Rightarrow> rule_op cx op (as_args raw) | _ \<Rightarrow> Inl RuleError)
      | v \<Rightarrow> Inr v)"
| "rule_map cx [] = Inr []"
| "rule_map cx (x # xs) =
     bind_res (rule_evaluate cx x) (\<lambda>y. bind_res (rule_map cx xs) (\<lambda>ys. Inr (y # ys)))"
| "rule_and cx result [] = Inr result"
| "rule_and cx result (x # xs) =
     bind_res (rule_evaluate cx x) (\<lambda>y. if truthy y then rule_and cx y xs else Inr y)"
| "rule_or cx result [] = Inr result"
| "rule_or cx result (x # xs) =
     bind_res (rule_evaluate cx x) (\<lambda>y. if truthy y then Inr y else rule_or cx y xs)"
| "rule_if cx [] = Inr PNone"
| "rule_if cx [x] = rule_evaluate cx x"
| "rule_if cx (c # v # rest) =
     bind_res (rule_evaluate cx c) (\<lambda>b. if truthy b then rule_evaluate cx v else rule_if cx rest)"
| "rule_pair cx [] = Inl ValueError"
| "rule_pair cx [x] = bind_res (rule_evaluate cx x) (\<lambda>_. Inl ValueError)"
| "rule_pair cx (x # y # rest) =
     bind_res (rule_evaluate cx x) (\<lambda>a. bind_res (rule_evaluate cx y) (\<lambda>b. Inr (a, b)))"
| "rule_op cx op args =
     (if op = ''var''
      then bind_res (rule_map cx args) (\<lambda>vs.
             case vs of
               [] \<Rightarrow> Inl IndexError
             | p # rest \<Rightarrow> Inr (rule_var p cx (case rest of [] \<Rightarrow> PNone | d # _ \<Rightarrow> d)))
      else if op = ''missing'' then Inr (PList (filter (\<lambda>a. rule_var a cx PNone = PNone) args))
      else if op \<in> set [''<'', ''<='', ''>'', ''>='']
      then bind_res (rule_map cx args) (\<lambda>vs.
             case vs of
               [x, y] \<Rightarrow> bind_res (rule_cmp op x y) (\<lambda>b. Inr (PBool b))
             | [x, y, z] \<Rightarrow> bind_res (rule_cmp op x y) (\<lambda>b.
                             if b then bind_res (rule_cmp op y z) (\<lambda>c. Inr (PBool c)) else Inr (PBool False))
             | _ \<Rightarrow> Inl RuleError)
      else if op = ''=='' then bind_res (rule_pair cx args) (\<lambda>(a, b). Inr (PBool (py_str a = py_str b)))
      else if op = ''==='' then bind_res (rule_pair cx args) (\<lambda>(a, b). Inr (PBool (py_eq a b)))
      else if op = ''!='' then bind_res (rule_pair cx args) (\<lambda>(a, b). Inr (PBool (py_str a \<noteq> py_str b)))
      else if op = ''!=='' then bind_res (rule_pair cx args) (\<lambda>(a, b). Inr (PBool (\<not> py_eq a b)))
      else if op = ''and'' then rule_and cx (PBool True) args
      else if op = ''or'' then rule_or cx (PBool False) args
      else if op = ''!''
      then (case args of
              [] \<Rightarrow> Inl IndexError
            | x # _ \<Rightarrow> bind_res (rule_evaluate cx x) (\<lambda>y. Inr (PBool (\<not> truthy y))))
      else if op = ''in''
      then bind_res (rule_pair cx args) (\<lambda>(a, b).
             bind_res (py_in a (if truthy b then b else PList [])) (\<lambda>c. Inr (PBool c)))
      else if op = ''if'' then rule_if cx args
      else Inl RuleError)"
  by pat_completeness auto
termination
proof (relation "measure (\<lambda>x. case x of
      Inl (Inl (_, e)) \<Rightarrow> 2 * size e
    | Inl (Inr (Inl (_, xs))) \<Rightarrow> 2 * size_list size xs
    | Inl (Inr (Inr (_, _, xs))) \<Rightarrow> 2 * size_list size xs
    | Inr (Inl (Inl (_, _, xs))) \<Rightarrow> 2 * size_list size xs
    | Inr (Inl (Inr (_, xs))) \<Rightarrow> 2 * size_list size xs
    | Inr (Inr (Inl (_, xs))) \<Rightarrow> 2 * size_list size xs
    | Inr (Inr (Inr (_, _, xs))) \<Rightarrow> 2 * size_list size xs + 1)")
qed (auto simp: less_Suc_eq_le intro: as_args_size_double)

declare rule_evaluate.simps [simp del] rule_op.simps [simp del]

text \<open>\<^verbatim>\<open>describe\<close>: the rule in words.\<close>

definition rule_words :: "(string \<times> string) list" where
  "rule_words = [(''<'', ''below''), (''<='', ''at most''), (''>'', ''above''), (''>='', ''at least''),
     (''=='', ''is''), (''!='', ''is not''), (''in'', ''one of'')]"

function rule_describe :: "pyval \<Rightarrow> string res"
  and rule_describes :: "pyval list \<Rightarrow> string list res" where
  "rule_describe e =
     (case e of
        PDict [] \<Rightarrow> Inl StopIteration
      | PDict ((op, raw) # m) \<Rightarrow>
          (let args = as_args raw
           in if op = ''var'' then (case args of [] \<Rightarrow> Inl IndexError | a # _ \<Rightarrow> Inr (py_str a))
              else
                bind_res (rule_describes args) (\<lambda>ds.
                Inr (case (dict_get rule_words op, ds) of
                       (Some w, [x, y]) \<Rightarrow> x @ '' '' @ w @ '' '' @ y
                     | _ \<Rightarrow> if op = ''and'' \<or> op = ''or'' then join_str ('' '' @ op @ '' '') ds
                            else op @ ''('' @ join_str '', '' ds @ '')'')))
      | v \<Rightarrow> Inr (py_str v))"
| "rule_describes [] = Inr []"
| "rule_describes (x # xs) =
     bind_res (rule_describe x) (\<lambda>d. bind_res (rule_describes xs) (\<lambda>ds. Inr (d # ds)))"
  by pat_completeness auto
termination
proof (relation "measure (\<lambda>x. case x of Inl e \<Rightarrow> size e | Inr xs \<Rightarrow> size_list size xs)")
qed (auto simp: less_Suc_eq_le intro: order_trans [OF as_args_size])

declare rule_describe.simps [simp del]

end
