(* ===== verification/Agent_Audit.thy ===== *)
theory Agent_Audit
  imports Agent_Rules Json_Reading
begin

text \<open>
  The partitioned evidence chain of the agent lane (\<^verbatim>\<open>src/src/agent/audit.py\<close>) with the scrubbing of
  payloads (\<^verbatim>\<open>scrub.py\<close>). Tables are lists of rows; a payload column holds the JSON value that the code
  stores as canonical text and loads again. SHA-256, the signature of a checkpoint and the patterns that
  scrub a text are parameters; the fresh identifier and the clock reading of an event are arguments. The
  copy of a checkpoint outside the database is not modelled.
\<close>

section \<open>Tables\<close>

record chain_head =
  ch_head_hash :: string
  ch_length :: int

record audit_row =
  ar_chain_key :: string
  ar_chain_seq :: int
  ar_event_id :: string
  ar_type :: string
  ar_actor :: "string option"
  ar_agent_id :: "string option"
  ar_run_id :: "string option"
  ar_mandate_jti :: "string option"
  ar_payload :: pyval
  ar_prev_hash :: string
  ar_hash :: string
  ar_created_at :: string

record outbox_row =
  ob_event_id :: string
  ob_type :: string
  ob_aggregate_id :: string
  ob_payload :: pyval
  ob_created_at :: string

record checkpoint_row =
  cp_root_hash :: string
  cp_chain_heads :: "(string \<times> string) list"
  cp_signature :: string
  cp_chains_covered :: int
  cp_events_covered :: int
  cp_created_at :: string

record audit_db =
  ad_chains :: "(string, chain_head) dict"
  ad_events :: "audit_row list"
  ad_outbox :: "outbox_row list"
  ad_checkpoints :: "checkpoint_row list"

definition empty_audit :: audit_db where
  "empty_audit = \<lparr>ad_chains = [], ad_events = [], ad_outbox = [], ad_checkpoints = []\<rparr>"

section \<open>Appending\<close>

definition GENESIS :: string where
  "GENESIS = replicate 64 (CHR ''0'')"

definition SYSTEM_CHAIN :: string where
  "SYSTEM_CHAIN = ''system''"

definition chain_key_for :: "string option \<Rightarrow> string option \<Rightarrow> string" where
  "chain_key_for mandate_jti agent_id =
     (case or_str mandate_jti None of
        Some m \<Rightarrow> m
      | None \<Rightarrow> (case or_str agent_id None of Some a \<Rightarrow> ''agent:'' @ a | None \<Rightarrow> SYSTEM_CHAIN))"

fun scrub_payload :: "(string \<Rightarrow> string) \<Rightarrow> pyval \<Rightarrow> pyval"
  and scrub_items :: "(string \<Rightarrow> string) \<Rightarrow> pyval list \<Rightarrow> pyval list"
  and scrub_entries :: "(string \<Rightarrow> string) \<Rightarrow> pydict \<Rightarrow> pydict" where
  "scrub_payload f (PStr s) = PStr (f s)"
| "scrub_payload f (PDict m) = PDict (scrub_entries f m)"
| "scrub_payload f (PList xs) = PList (scrub_items f xs)"
| "scrub_payload f v = v"
| "scrub_items f [] = []"
| "scrub_items f (x # xs) = scrub_payload f x # scrub_items f xs"
| "scrub_entries f [] = []"
| "scrub_entries f ((k, v) # m) = (k, scrub_payload f v) # scrub_entries f m"

text \<open>The content of an event that its hash covers.\<close>

definition row_content :: "audit_row \<Rightarrow> pyval" where
  "row_content r = PDict
     [(''event_id'', PStr (ar_event_id r)), (''type'', PStr (ar_type r)), (''actor'', opt_str (ar_actor r)),
      (''agent_id'', opt_str (ar_agent_id r)), (''run_id'', opt_str (ar_run_id r)),
      (''mandate_jti'', opt_str (ar_mandate_jti r)), (''payload'', ar_payload r),
      (''created_at'', PStr (ar_created_at r)), (''chain_key'', PStr (ar_chain_key r))]"

definition row_digest :: "(string \<Rightarrow> string) \<Rightarrow> string \<Rightarrow> audit_row \<Rightarrow> string res" where
  "row_digest sha prev r = bind_res (agent_canonical_json (row_content r)) (\<lambda>t. Inr (sha (prev @ t)))"

text \<open>The arguments of \<^verbatim>\<open>append\<close>.\<close>

record audit_entry =
  en_type :: string
  en_payload :: pyval
  en_actor :: "string option"
  en_agent_id :: "string option"
  en_run_id :: "string option"
  en_mandate_jti :: "string option"
  en_relay :: bool
  en_scrub :: bool
  en_chain_key :: "string option"

definition head_of :: "audit_db \<Rightarrow> string \<Rightarrow> chain_head" where
  "head_of db key = dict_get_or (ad_chains db) key \<lparr>ch_head_hash = GENESIS, ch_length = 0\<rparr>"

definition entry_row :: "(string \<Rightarrow> string) \<Rightarrow> string \<Rightarrow> string \<Rightarrow> audit_entry \<Rightarrow> audit_db \<Rightarrow> audit_row" where
  "entry_row scrub eid at a db =
     (let key = (case or_str (en_chain_key a) None of Some k \<Rightarrow> k | None \<Rightarrow> chain_key_for (en_mandate_jti a) (en_agent_id a));
          h = head_of db key
      in \<lparr>ar_chain_key = key, ar_chain_seq = ch_length h + 1, ar_event_id = eid, ar_type = en_type a,
          ar_actor = en_actor a, ar_agent_id = en_agent_id a, ar_run_id = en_run_id a,
          ar_mandate_jti = en_mandate_jti a,
          ar_payload = (if en_scrub a then scrub_payload scrub (en_payload a) else en_payload a),
          ar_prev_hash = ch_head_hash h, ar_hash = [], ar_created_at = at\<rparr>)"

text \<open>
  The transaction of \<^verbatim>\<open>append\<close>: an exception rolls it back. The unique columns of the schema are the
  event identifier (of events and of the outbox) and the position in the chain.
\<close>

definition audit_append ::
  "(string \<Rightarrow> string) \<Rightarrow> (string \<Rightarrow> string) \<Rightarrow> string \<Rightarrow> string \<Rightarrow> audit_entry \<Rightarrow> (audit_db, audit_row) sres" where
  "audit_append sha scrub eid at a db =
     (let r0 = entry_row scrub eid at a db
      in case row_digest sha (ar_prev_hash r0) r0 of
           Inl e \<Rightarrow> (Inl e, db)
         | Inr digest \<Rightarrow>
             if list_ex (\<lambda>r. ar_event_id r = eid
                   \<or> ar_chain_key r = ar_chain_key r0 \<and> ar_chain_seq r = ar_chain_seq r0) (ad_events db)
                \<or> en_relay a \<and> list_ex (\<lambda>o1. ob_event_id o1 = eid) (ad_outbox db)
             then (Inl DatabaseError, db)
             else
               (let r = r0\<lparr>ar_hash := digest\<rparr>
                in (Inr r,
                    db\<lparr>ad_events := ad_events db @ [r],
                       ad_chains := dict_set (ar_chain_key r) \<lparr>ch_head_hash = digest, ch_length = ar_chain_seq r\<rparr> (ad_chains db),
                       ad_outbox := ad_outbox db @
                         (if en_relay a
                          then [\<lparr>ob_event_id = eid, ob_type = en_type a,
                                 ob_aggregate_id = (case or_str (en_mandate_jti a) (or_str (en_run_id a) (or_str (en_agent_id a) None)) of
                                                      Some s \<Rightarrow> s | None \<Rightarrow> ''-''),
                                 ob_payload = ar_payload r, ob_created_at = at\<rparr>]
                          else [])\<rparr>)))"

section \<open>Verification\<close>

record chain_check =
  cc_valid :: bool
  cc_chain_key :: string
  cc_checked :: int
  cc_error :: "string option"

fun replay :: "(string \<Rightarrow> string) \<Rightarrow> string \<Rightarrow> int \<Rightarrow> string \<Rightarrow> audit_row list \<Rightarrow> (chain_check + int \<times> string) res" where
  "replay sha key n prev [] = Inr (Inr (n, prev))"
| "replay sha key n prev (r # rs) =
     (if ar_prev_hash r \<noteq> prev
      then Inr (Inl \<lparr>cc_valid = False, cc_chain_key = key, cc_checked = n,
                     cc_error = Some ''prev_hash does not match the previous event''\<rparr>)
      else
        bind_res (row_digest sha prev r) (\<lambda>expected.
        if expected \<noteq> ar_hash r
        then Inr (Inl \<lparr>cc_valid = False, cc_chain_key = key, cc_checked = n,
                       cc_error = Some ''row content does not match its hash''\<rparr>)
        else replay sha key (n + 1) (ar_hash r) rs))"

definition chain_events :: "audit_db \<Rightarrow> string \<Rightarrow> audit_row list" where
  "chain_events db key = sort_key ar_chain_seq (filter (\<lambda>r. ar_chain_key r = key) (ad_events db))"

definition agent_verify_chain :: "(string \<Rightarrow> string) \<Rightarrow> audit_db \<Rightarrow> string \<Rightarrow> chain_check res" where
  "agent_verify_chain sha db key =
     bind_res (replay sha key 0 GENESIS (chain_events db key)) (\<lambda>out.
     case out of
       Inl bad \<Rightarrow> Inr bad
     | Inr (n, head) \<Rightarrow>
         (case dict_get (ad_chains db) key of
            Some h \<Rightarrow>
              if ch_head_hash h \<noteq> head
              then Inr \<lparr>cc_valid = False, cc_chain_key = key, cc_checked = n,
                        cc_error = Some ''chain head does not match the replayed events''\<rparr>
              else Inr \<lparr>cc_valid = True, cc_chain_key = key, cc_checked = n, cc_error = None\<rparr>
          | None \<Rightarrow> Inr \<lparr>cc_valid = True, cc_chain_key = key, cc_checked = n, cc_error = None\<rparr>))"

definition sorted_heads :: "audit_db \<Rightarrow> (string \<times> string) list" where
  "sorted_heads db = map (\<lambda>(k, h). (k, ch_head_hash h)) (sort_key fst (ad_chains db))"

definition heads_json :: "(string \<times> string) list \<Rightarrow> pyval" where
  "heads_json hs = PList (map (\<lambda>(k, h). PDict [(''chain_key'', PStr k), (''head'', PStr h)]) hs)"

definition compute_root :: "(string \<Rightarrow> string) \<Rightarrow> audit_db \<Rightarrow> string res" where
  "compute_root sha db =
     bind_res (agent_canonical_json (heads_json (sorted_heads db))) (\<lambda>t. Inr (sha t))"

record all_check =
  ac_valid :: bool
  ac_chains :: int
  ac_checked :: int
  ac_root :: string
  ac_broken :: "chain_check list"

definition verify_all :: "(string \<Rightarrow> string) \<Rightarrow> audit_db \<Rightarrow> all_check res" where
  "verify_all sha db =
     bind_res (map_res (agent_verify_chain sha db) (map fst (sorted_heads db))) (\<lambda>results.
     bind_res (compute_root sha db) (\<lambda>root.
     let broken = filter (\<lambda>c. \<not> cc_valid c) results
     in Inr \<lparr>ac_valid = (broken = []), ac_chains = int (length results),
             ac_checked = sum_list (map cc_checked results), ac_root = root, ac_broken = broken\<rparr>))"

text \<open>\<^verbatim>\<open>checkpoint\<close>: the signature covers the root, the two counts and the time.\<close>

definition checkpoint ::
  "(string \<Rightarrow> string) \<Rightarrow> (string \<Rightarrow> string) \<Rightarrow> string \<Rightarrow> (audit_db, checkpoint_row) sres" where
  "checkpoint sha sign at db =
     (let events = sum_list (map (ch_length \<circ> snd) (ad_chains db)); n = int (length (ad_chains db))
      in case bind_res (compute_root sha db) (\<lambda>root.
              bind_res (agent_canonical_json (PDict [(''root'', PStr root), (''chains'', PInt n), (''events'', PInt events), (''at'', PStr at)]))
                (\<lambda>t. Inr \<lparr>cp_root_hash = root, cp_chain_heads = sorted_heads db, cp_signature = sign t,
                          cp_chains_covered = n, cp_events_covered = events, cp_created_at = at\<rparr>)) of
           Inl e \<Rightarrow> (Inl e, db)
         | Inr cp \<Rightarrow> (Inr cp, db\<lparr>ad_checkpoints := ad_checkpoints db @ [cp]\<rparr>))"

text \<open>\<^verbatim>\<open>verify_checkpoint\<close>: \<open>None\<close> when nothing has been signed yet.\<close>

definition verify_checkpoint :: "(string \<Rightarrow> string) \<Rightarrow> audit_db \<Rightarrow> (bool option \<times> string) res" where
  "verify_checkpoint sha db =
     (if ad_checkpoints db = [] then Inr (None, ''no checkpoint has been signed yet'')
      else
        (let row = last (ad_checkpoints db)
         in bind_res (verify_all sha db) (\<lambda>rep.
            bind_res (compute_root sha db) (\<lambda>current.
            if \<not> ac_valid rep
            then Inr (Some False, ''chain '' @ cc_chain_key (hd (ac_broken rep)) @ '' no longer replays: ''
                                  @ (case cc_error (hd (ac_broken rep)) of Some e \<Rightarrow> e | None \<Rightarrow> ''''))
            else if cp_root_hash row \<noteq> current
            then Inr (Some False, ''chains changed since this checkpoint (new events, or a rewritten head)'')
            else Inr (Some True, '''')))))"

section \<open>Chains that replay\<close>

fun rlinked :: "(string \<Rightarrow> string) \<Rightarrow> string \<Rightarrow> audit_row list \<Rightarrow> bool" where
  "rlinked sha prev [] = True"
| "rlinked sha prev (r # rs) =
     (ar_prev_hash r = prev \<and> row_digest sha prev r = Inr (ar_hash r) \<and> rlinked sha (ar_hash r) rs)"

definition last_hash :: "string \<Rightarrow> audit_row list \<Rightarrow> string" where
  "last_hash prev rs = (if rs = [] then prev else ar_hash (last rs))"

lemma last_hash_simps [simp]:
  "last_hash p [] = p" "last_hash p (rs @ [r]) = ar_hash r" "last_hash p (r # rs) = last_hash (ar_hash r) rs"
  by (simp_all add: last_hash_def)

lemma rlinked_append: "rlinked sha p (rs @ qs) \<longleftrightarrow> rlinked sha p rs \<and> rlinked sha (last_hash p rs) qs"
  by (induction rs arbitrary: p) auto

lemma replay_iff:
  "replay sha key n prev rs = Inr (Inr (m, h)) \<longleftrightarrow>
   rlinked sha prev rs \<and> m = n + int (length rs) \<and> h = last_hash prev rs"
  by (induction rs arbitrary: n prev) (auto simp: bind_res_Inr_iff)

lemma verify_chain_valid_iff:
  "(\<exists>c. agent_verify_chain sha db key = Inr c \<and> cc_valid c \<and> cc_checked c = n) \<longleftrightarrow>
   rlinked sha GENESIS (chain_events db key) \<and> n = int (length (chain_events db key)) \<and>
   (\<forall>h. dict_get (ad_chains db) key = Some h \<longrightarrow> ch_head_hash h = last_hash GENESIS (chain_events db key))"
proof -
  have bad: "replay sha key n prev rs = Inr (Inl c) \<Longrightarrow> \<not> cc_valid c" for n prev rs c
    by (induction rs arbitrary: n prev) (auto simp: bind_res_Inr_iff split: if_splits)
  show ?thesis
  proof (cases "replay sha key 0 GENESIS (chain_events db key)")
    case (Inl e)
    then have "\<not> rlinked sha GENESIS (chain_events db key)" by (metis Inl_not_Inr replay_iff)
    with Inl show ?thesis by (simp add: agent_verify_chain_def)
  next
    case (Inr out)
    show ?thesis
    proof (cases out)
      case (Inl c)
      then have "\<not> rlinked sha GENESIS (chain_events db key)" using Inr by (metis Inl_not_Inr Inr_inject replay_iff)
      with Inr Inl bad show ?thesis by (auto simp: agent_verify_chain_def)
    next
      case (Inr p)
      then show ?thesis
        using \<open>replay sha key 0 GENESIS (chain_events db key) = Inr out\<close> replay_iff [of sha key 0 GENESIS "chain_events db key" "fst p" "snd p"]
        by (cases p) (auto simp: agent_verify_chain_def split: option.splits)
    qed
  qed
qed

lemma map_res_all:
  "map_res f xs = Inr ys \<Longrightarrow> list_all2 (\<lambda>x y. f x = Inr y) xs ys"
  by (induction xs arbitrary: ys) (auto simp: bind_res_Inr_iff)

lemma map_res_ok: "(\<And>x. x \<in> set xs \<Longrightarrow> f x = Inr (g x)) \<Longrightarrow> map_res f xs = Inr (map g xs)"
  by (induction xs) auto

lemma set_sorted_heads: "fst ` set (sorted_heads db) = fst ` set (ad_chains db)"
  by (force simp: sorted_heads_def image_iff)

lemma verify_all_valid:
  assumes "verify_all sha db = Inr r" "ac_valid r" "key \<in> fst ` set (ad_chains db)"
  shows "rlinked sha GENESIS (chain_events db key) \<and>
    (\<forall>h. dict_get (ad_chains db) key = Some h \<longrightarrow> ch_head_hash h = last_hash GENESIS (chain_events db key))"
proof -
  from assms(1,2) obtain results where res: "map_res (agent_verify_chain sha db) (map fst (sorted_heads db)) = Inr results"
    and ok: "\<forall>c \<in> set results. cc_valid c"
    by (auto simp: verify_all_def bind_res_Inr_iff Let_def filter_empty_conv)
  have "key \<in> set (map fst (sorted_heads db))" using assms(3) set_sorted_heads by simp
  then obtain i where "i < length (map fst (sorted_heads db))" "map fst (sorted_heads db) ! i = key"
    unfolding in_set_conv_nth by blast
  with map_res_all [OF res] have c: "agent_verify_chain sha db key = Inr (results ! i)" "results ! i \<in> set results"
    by (auto simp: list_all2_conv_all_nth simp del: length_map)
  then have "\<exists>c'. agent_verify_chain sha db key = Inr c' \<and> cc_valid c' \<and> cc_checked c' = cc_checked (results ! i)" using ok c by auto
  then show ?thesis unfolding verify_chain_valid_iff by blast
qed

section \<open>An honest trail replays\<close>

lemma json_plain_dumps:
  "json_plain v \<Longrightarrow> \<exists>t. json_dumps d v = Inr t" "json_plain_list vs \<Longrightarrow> \<exists>ts. json_items d vs = Inr ts"
  "json_plain_dict m \<Longrightarrow> \<exists>es. json_entries d m = Inr es"
  by (induction v and vs and m rule: json_plain_json_plain_list_json_plain_dict.induct) auto

lemma heads_plain: "json_plain (heads_json hs)"
proof -
  have "json_plain_list (map (\<lambda>(k, h). PDict [(''chain_key'', PStr k), (''head'', PStr h)]) hs)"
    by (induction hs) auto
  then show ?thesis by (simp add: heads_json_def)
qed

lemma compute_root_total: "\<exists>root. compute_root sha db = Inr root"
proof -
  obtain t where "json_dumps (\<lambda>_. Inl TypeError) (heads_json (sorted_heads db)) = Inr t"
    using json_plain_dumps(1) [OF heads_plain] by blast
  then show ?thesis by (simp add: compute_root_def agent_canonical_json_def heads_plain)
qed

text \<open>The invariant: positions count up, the rows are linked, the head row describes the last event.\<close>

definition key_events :: "audit_db \<Rightarrow> string \<Rightarrow> audit_row list" where
  "key_events db key = filter (\<lambda>r. ar_chain_key r = key) (ad_events db)"

definition audit_inv :: "(string \<Rightarrow> string) \<Rightarrow> audit_db \<Rightarrow> bool" where
  "audit_inv sha db \<longleftrightarrow> distinct (map fst (ad_chains db))
     \<and> (\<forall>r \<in> set (ad_events db). ar_chain_key r \<in> fst ` set (ad_chains db))
     \<and> (\<forall>key. rlinked sha GENESIS (key_events db key)
          \<and> map ar_chain_seq (key_events db key) = map (\<lambda>i. int i + 1) [0..<length (key_events db key)]
          \<and> head_of db key = \<lparr>ch_head_hash = last_hash GENESIS (key_events db key), ch_length = int (length (key_events db key))\<rparr>)"

lemma sort_key_sorted: "sorted (map f xs) \<Longrightarrow> sort_key f xs = xs"
  by (induction xs) (simp_all add: insort_is_Cons)

lemma sorted_counting: "sorted (map (\<lambda>i. int i + 1) [0..<n])"
  by (simp add: sorted_map sorted_wrt_upt sorted_wrt_mono_rel [of _ "(<)"])

lemma audit_inv_chain_events: "audit_inv sha db \<Longrightarrow> chain_events db key = key_events db key"
  unfolding chain_events_def key_events_def [symmetric]
  by (rule sort_key_sorted) (simp add: audit_inv_def sorted_counting del: map_map)

lemma audit_append_row:
  assumes "audit_append sha scrub eid at a db = (Inr r, db')"
  shows "row_digest sha (ar_prev_hash r) r = Inr (ar_hash r)"
    "ad_events db' = ad_events db @ [r]"
    "ad_chains db' = dict_set (ar_chain_key r) \<lparr>ch_head_hash = ar_hash r, ch_length = ar_chain_seq r\<rparr> (ad_chains db)"
    "ar_prev_hash r = ch_head_hash (head_of db (ar_chain_key r))"
    "ar_chain_seq r = ch_length (head_of db (ar_chain_key r)) + 1"
  using assms
  by (auto simp: audit_append_def entry_row_def Let_def row_digest_def row_content_def split: sum.splits if_splits)

lemma audit_append_inv:
  assumes inv: "audit_inv sha db"
  shows "audit_inv sha (snd (audit_append sha scrub eid at a db))"
proof (cases "audit_append sha scrub eid at a db")
  case (Pair out db')
  show ?thesis
  proof (cases out)
    case (Inl e)
    with Pair have "db' = db" by (auto simp: audit_append_def Let_def split: sum.splits if_splits)
    with inv Pair show ?thesis by simp
  next
    case (Inr r)
    note f = audit_append_row [OF Pair [unfolded Inr]]
    have ke: "key_events db' key = key_events db key @ (if ar_chain_key r = key then [r] else [])" for key
      by (simp add: key_events_def f(2))
    have head: "head_of db' key = (if key = ar_chain_key r then \<lparr>ch_head_hash = ar_hash r, ch_length = ar_chain_seq r\<rparr> else head_of db key)" for key
      by (simp add: head_of_def f(3))
    have keys: "fst ` set (ad_chains db') = insert (ar_chain_key r) (fst ` set (ad_chains db))"
      unfolding f(3) by (simp add: dom_update)
    have "distinct (map fst (ad_chains db'))" unfolding f(3) using inv by (intro distinct_dict_set) (simp add: audit_inv_def)
    moreover have "\<forall>q \<in> set (ad_events db'). ar_chain_key q \<in> fst ` set (ad_chains db')"
      using inv by (auto simp: audit_inv_def f(2) keys)
    moreover have "rlinked sha GENESIS (key_events db' key)
          \<and> map ar_chain_seq (key_events db' key) = map (\<lambda>i. int i + 1) [0..<length (key_events db' key)]
          \<and> head_of db' key = \<lparr>ch_head_hash = last_hash GENESIS (key_events db' key), ch_length = int (length (key_events db' key))\<rparr>" for key
      using inv f(1,4,5) by (cases "key = ar_chain_key r") (auto simp: audit_inv_def ke head rlinked_append)
    ultimately show ?thesis by (simp add: Pair audit_inv_def)
  qed
qed

inductive audit_step ::
  "(string \<Rightarrow> string) \<Rightarrow> (string \<Rightarrow> string) \<Rightarrow> (string \<Rightarrow> string) \<Rightarrow> audit_db \<Rightarrow> audit_db \<Rightarrow> bool"
  for sha scrub sign where
  step_append: "audit_step sha scrub sign db (snd (audit_append sha scrub eid at a db))"
| step_checkpoint: "audit_step sha scrub sign db (snd (checkpoint sha sign at db))"

lemma checkpoint_simps [simp]:
  "ad_chains (snd (checkpoint sha sign at db)) = ad_chains db" "ad_events (snd (checkpoint sha sign at db)) = ad_events db"
  by (simp_all add: checkpoint_def Let_def split: sum.splits)

lemma audit_run_inv:
  "(audit_step sha scrub sign)\<^sup>*\<^sup>* db db' \<Longrightarrow> audit_inv sha db \<Longrightarrow> audit_inv sha db'"
proof (induction rule: rtranclp_induct)
  case (step db1 db2)
  from step(2) show ?case
  proof cases
    case (step_checkpoint at)
    with step show ?thesis by (simp add: audit_inv_def key_events_def head_of_def)
  qed (use step audit_append_inv in simp)
qed

lemma audit_inv_empty: "audit_inv sha empty_audit"
  by (simp add: audit_inv_def empty_audit_def key_events_def head_of_def dict_get_or_def)

lemma sum_key_counts:
  assumes "distinct ks" "\<forall>r \<in> set rs. f r \<in> set ks"
  shows "sum_list (map (\<lambda>k. int (length (filter (\<lambda>r. f r = k) rs))) ks) = int (length rs)"
  using assms(2)
proof (induction rs)
  case Nil
  then show ?case by (induction ks) auto
next
  case (Cons r rs)
  have "sum_list (map (\<lambda>k. int (length (filter (\<lambda>q. f q = k) (r # rs)))) ks) =
      sum_list (map (\<lambda>k. int (length (filter (\<lambda>q. f q = k) rs)) + (if k = f r then 1 else 0)) ks)"
    by (intro arg_cong [where f = sum_list] map_cong) auto
  also have "\<dots> = int (length rs) + sum_list (map (\<lambda>k. if k = f r then 1 else 0) ks)"
    using Cons by (simp add: sum_list_addf)
  also have "sum_list (map (\<lambda>k. if k = f r then 1 else (0::int)) ks) = 1"
    using assms(1) Cons.prems by (simp add: sum_list_distinct_conv_sum_set)
  finally show ?case by simp
qed

text \<open>
  A trail that only the code has written always replays: after any sequence of appends, to whatever
  chains and with whatever payloads, and of checkpoints, \<^verbatim>\<open>verify_all\<close> finds no broken chain and has
  checked every event.
\<close>

theorem honest_trail_replays:
  assumes "(audit_step sha scrub sign)\<^sup>*\<^sup>* empty_audit db"
  shows "\<exists>r. verify_all sha db = Inr r \<and> ac_valid r \<and> ac_broken r = [] \<and> ac_checked r = int (length (ad_events db))"
proof -
  note inv = audit_run_inv [OF assms audit_inv_empty]
  define check where "check key = \<lparr>cc_valid = True, cc_chain_key = key, cc_checked = int (length (key_events db key)), cc_error = None\<rparr>" for key
  have chk: "agent_verify_chain sha db key = Inr (check key)" for key
  proof -
    have "replay sha key 0 GENESIS (chain_events db key) = Inr (Inr (int (length (key_events db key)), ch_head_hash (head_of db key)))"
      using inv by (simp add: replay_iff audit_inv_chain_events [OF inv]) (simp add: audit_inv_def)
    then show ?thesis
      by (simp add: agent_verify_chain_def check_def head_of_def dict_get_or_def split: option.splits)
  qed
  let ?ks = "map fst (sorted_heads db)"
  obtain root where root: "compute_root sha db = Inr root" using compute_root_total by blast
  have sums: "map cc_checked (map check ?ks) = map (\<lambda>k. int (length (key_events db k))) ?ks"
    by (simp add: check_def)
  have "verify_all sha db = Inr \<lparr>ac_valid = True, ac_chains = int (length ?ks),
      ac_checked = sum_list (map (\<lambda>k. int (length (key_events db k))) ?ks), ac_root = root, ac_broken = []\<rparr>"
    using map_res_ok [of ?ks "agent_verify_chain sha db" check] chk
    by (simp add: verify_all_def root Let_def sums filter_empty_conv del: map_map) (simp add: check_def)
  moreover have "sum_list (map (\<lambda>k. int (length (key_events db k))) ?ks) = int (length (ad_events db))"
    unfolding key_events_def
  proof (rule sum_key_counts)
    have "distinct (map fst (ad_chains db))" using inv by (simp add: audit_inv_def)
    then have "distinct (map fst (sort_key fst (ad_chains db)))"
      by (metis mset_map mset_sort mset_eq_imp_distinct_iff)
    then show "distinct ?ks" by (simp add: sorted_heads_def comp_def case_prod_beta)
    show "\<forall>r \<in> set (ad_events db). ar_chain_key r \<in> set ?ks"
      using inv set_sorted_heads [of db] by (simp add: audit_inv_def)
  qed
  ultimately show ?thesis by simp
qed

section \<open>The signed root fixes every chain\<close>

definition row_text :: "audit_row \<Rightarrow> string res" where
  "row_text r = agent_canonical_json (row_content r)"

definition root_text :: "audit_db \<Rightarrow> string res" where
  "root_text db = agent_canonical_json (heads_json (sorted_heads db))"

text \<open>The texts that the hashes of a database are computed from.\<close>

definition audit_texts :: "audit_db \<Rightarrow> string set" where
  "audit_texts db = {ar_prev_hash r @ t | r t. r \<in> set (ad_events db) \<and> row_text r = Inr t} \<union> {t. root_text db = Inr t}"

lemma rlinked_same_head:
  assumes "rlinked sha GENESIS rs" "rlinked sha GENESIS qs" "last_hash GENESIS rs = last_hash GENESIS qs"
    and "\<forall>t. length (sha t) = 64" "inj_on sha T" "\<forall>t \<in> T. sha t \<noteq> GENESIS"
    and "\<forall>r \<in> set rs \<union> set qs. \<forall>t. row_text r = Inr t \<longrightarrow> ar_prev_hash r @ t \<in> T"
  shows "map row_text rs = map row_text qs"
  using assms(1-3,7)
proof (induction rs arbitrary: qs rule: rev_induct)
  have hash: "\<exists>t. row_text r = Inr t \<and> ar_hash r = sha (ar_prev_hash r @ t) \<and> ar_prev_hash r = last_hash GENESIS rs"
    if "rlinked sha GENESIS (rs @ [r])" for r rs
    using that by (auto simp: rlinked_append row_digest_def row_text_def bind_res_Inr_iff)
  {
    case Nil
    show ?case
    proof (cases qs rule: rev_exhaust)
      case (snoc qs' q)
      with hash [of qs' q] Nil obtain t where "row_text q = Inr t" "ar_hash q = sha (ar_prev_hash q @ t)" by auto
      with Nil snoc assms(6) show ?thesis by auto
    qed simp
  next
    case (snoc r rs)
    obtain t where t: "row_text r = Inr t" "ar_hash r = sha (ar_prev_hash r @ t)" "ar_prev_hash r = last_hash GENESIS rs"
      using hash [OF snoc.prems(1)] by blast
    then have "ar_prev_hash r @ t \<in> T" using snoc.prems(4) by auto
    then have "sha (ar_prev_hash r @ t) \<noteq> GENESIS" using assms(6) by blast
    then obtain qs' q where qs: "qs = qs' @ [q]" using snoc.prems(3) t by (cases qs rule: rev_exhaust) auto
    obtain u where u: "row_text q = Inr u" "ar_hash q = sha (ar_prev_hash q @ u)" "ar_prev_hash q = last_hash GENESIS qs'"
      using hash [of qs' q] snoc.prems(2) qs by blast
    have "ar_prev_hash r @ t = ar_prev_hash q @ u"
      using assms(5) snoc.prems(3,4) t u qs by (auto simp: inj_on_def)
    moreover have "length (last_hash GENESIS ps) = 64" if "rlinked sha GENESIS ps" for ps
      using that hash [of "butlast ps" "last ps"] assms(4) by (cases ps rule: rev_exhaust) (auto simp: GENESIS_def)
    then have "length (ar_prev_hash r) = length (ar_prev_hash q)"
      using snoc.prems(1,2) t(3) u(3) by (simp add: qs rlinked_append)
    ultimately have "ar_prev_hash r = ar_prev_hash q" "t = u" by auto
    moreover have "map row_text rs = map row_text qs'"
      using snoc.prems(1,2,4) t(3) u(3) \<open>ar_prev_hash r = ar_prev_hash q\<close>
      by (intro snoc.IH) (simp_all add: qs rlinked_append)
    ultimately show ?case using t(1) u(1) qs by simp
  }
qed

lemma heads_text:
  "json_dumps d (heads_json hs) = Inr (''['' @ join_str '','' (map (\<lambda>(k, h).
     CHR ''{'' # json_string ''chain_key'' @ '':'' @ json_string k @ '','' @ json_string ''head'' @ '':'' @ json_string h @ ''}'') hs) @ '']'')"
proof -
  have "json_items d (map (\<lambda>(k, h). PDict [(''chain_key'', PStr k), (''head'', PStr h)]) hs) =
     Inr (map (\<lambda>(k, h). CHR ''{'' # json_string ''chain_key'' @ '':'' @ json_string k @ '','' @ json_string ''head'' @ '':'' @ json_string h @ ''}'') hs)"
    by (induction hs) (auto simp: join_str_def)
  then show ?thesis by (simp add: heads_json_def)
qed

lemma head_entry_read:
  assumes "(CHR ''{'' # c @ '':'' @ json_string k @ '','' @ b @ '':'' @ json_string h @ ''}'') @ r =
     (CHR ''{'' # c @ '':'' @ json_string k' @ '','' @ b @ '':'' @ json_string h' @ ''}'') @ r'"
  shows "k = k' \<and> h = h' \<and> r = r'"
proof -
  from assms have "json_string k @ ('','' @ b @ '':'' @ json_string h @ ''}'' @ r) = json_string k' @ ('','' @ b @ '':'' @ json_string h' @ ''}'' @ r')"
    by simp
  then have "k = k'" "'','' @ b @ '':'' @ json_string h @ ''}'' @ r = '','' @ b @ '':'' @ json_string h' @ ''}'' @ r'"
    by (auto dest: json_string_read)
  then have "k = k'" "json_string h @ (''}'' @ r) = json_string h' @ (''}'' @ r')" by simp_all
  then show ?thesis by (auto dest: json_string_read)
qed

lemma heads_json_inject:
  assumes "agent_canonical_json (heads_json hs) = agent_canonical_json (heads_json hs')"
  shows "hs = hs'"
proof -
  define E where "E = (\<lambda>(k, h). CHR ''{'' # json_string ''chain_key'' @ '':'' @ json_string k @ '','' @ json_string ''head'' @ '':'' @ json_string h @ ''}'')"
  have one: "p = q \<and> r = r'" if "E p @ r = E q @ r'" for p q r r'
    using that [unfolded E_def case_prod_beta, THEN head_entry_read] by (auto simp: prod_eq_iff)
  have tail: "concat (map (\<lambda>x. '','' @ x) (map E xs)) @ '']'' = concat (map (\<lambda>x. '','' @ x) (map E ys)) @ '']'' \<Longrightarrow> xs = ys" for xs ys
  proof (induction xs arbitrary: ys)
    case Nil
    then show ?case by (cases ys) auto
  next
    case (Cons x xs)
    then obtain y ys' where ys: "ys = y # ys'" by (cases ys) auto
    with Cons.prems have "E x @ (concat (map (\<lambda>x. '','' @ x) (map E xs)) @ '']'') = E y @ (concat (map (\<lambda>x. '','' @ x) (map E ys')) @ '']'')"
      by simp
    from one [OF this] Cons.IH ys show ?case by simp
  qed
  have "join_str '','' (map E hs) @ '']'' = join_str '','' (map E hs') @ '']''"
    using assms by (simp add: agent_canonical_json_def heads_plain heads_text E_def)
  moreover have start: "E p @ r \<noteq> '']''" for p r by (cases p) (simp add: E_def)
  ultimately show ?thesis
  proof (cases hs; cases hs')
    fix x xs y ys
    assume hs: "hs = x # xs" "hs' = y # ys"
    assume "join_str '','' (map E hs) @ '']'' = join_str '','' (map E hs') @ '']''"
    then have "E x @ (concat (map (\<lambda>x. '','' @ x) (map E xs)) @ '']'') = E y @ (concat (map (\<lambda>x. '','' @ x) (map E ys)) @ '']'')"
      by (simp only: hs join_str_def list.map list.case append_assoc)
    from one [OF this] tail [of xs ys] hs show ?thesis by simp
  next
    fix x xs
    assume "hs = x # xs" "hs' = []" "join_str '','' (map E hs) @ '']'' = join_str '','' (map E hs') @ '']''"
    with start show ?thesis by (simp add: join_str_def)
  next
    fix y ys
    assume eq: "hs = []" "hs' = y # ys" "join_str '','' (map E hs) @ '']'' = join_str '','' (map E hs') @ '']''"
    then have "E y @ (concat (map (\<lambda>x. '','' @ x) (map E ys)) @ '']'') = '']''" by (simp add: join_str_def)
    with start show ?thesis by blast
  qed simp
qed

lemma root_text_hash: "compute_root sha db = Inr root \<Longrightarrow> \<exists>t. root_text db = Inr t \<and> root = sha t"
  by (auto simp: compute_root_def root_text_def bind_res_Inr_iff)


section \<open>Witnesses\<close>

definition wit_sha :: "string \<Rightarrow> string" where
  "wit_sha t = replicate 64 (if take 1 t = ''['' then CHR ''b'' else CHR ''a'')"

definition wit_entry :: audit_entry where
  "wit_entry = \<lparr>en_type = ''mandate.created'', en_payload = PDict [(''jti'', PStr ''m1'')], en_actor = None, en_agent_id = None,
     en_run_id = None, en_mandate_jti = Some ''m1'', en_relay = True, en_scrub = True, en_chain_key = None\<rparr>"

definition wit_row :: audit_row where
  "wit_row = \<lparr>ar_chain_key = ''m1'', ar_chain_seq = 1, ar_event_id = ''evt_1'', ar_type = ''mandate.created'',
     ar_actor = None, ar_agent_id = None, ar_run_id = None, ar_mandate_jti = Some ''m1'',
     ar_payload = PDict [(''jti'', PStr ''m1'')], ar_prev_hash = GENESIS, ar_hash = replicate 64 (CHR ''a''), ar_created_at = ''t0''\<rparr>"

definition wit_audit :: audit_db where
  "wit_audit = snd (audit_append wit_sha (\<lambda>s. s) ''evt_1'' ''t0'' wit_entry empty_audit)"

definition wit_signed :: audit_db where
  "wit_signed = snd (checkpoint wit_sha (\<lambda>s. s) ''t1'' wit_audit)"

lemma wit_text: "\<exists>t. row_text wit_row = Inr t"
  by (simp add: row_text_def agent_canonical_json_def row_content_def wit_row_def opt_str_def)

lemma wit_digest: "agent_canonical_json (row_content (wit_row\<lparr>ar_hash := h\<rparr>)) = row_text wit_row"
  by (simp add: row_text_def row_content_def wit_row_def)

lemma wit_sha_row: "wit_sha (GENESIS @ t) = replicate 64 (CHR ''a'')"
  by (simp add: wit_sha_def GENESIS_def numeral_eq_Suc)

lemma wit_row_digest: "row_digest wit_sha GENESIS (wit_row\<lparr>ar_hash := h\<rparr>) = Inr (replicate 64 (CHR ''a''))"
  using wit_text by (auto simp: row_digest_def wit_digest wit_sha_row)

lemma wit_entry_row: "entry_row (\<lambda>s. s) ''evt_1'' ''t0'' wit_entry empty_audit = wit_row\<lparr>ar_hash := []\<rparr>"
  by (simp add: entry_row_def wit_entry_def wit_row_def head_of_def empty_audit_def dict_get_or_def chain_key_for_def or_str_def)

lemma wit_audit_tables:
  "ad_events wit_audit = [wit_row]" "ad_checkpoints wit_audit = []"
  "ad_chains wit_audit = [(''m1'', \<lparr>ch_head_hash = replicate 64 (CHR ''a''), ch_length = 1\<rparr>)]"
proof -
  have prev: "ar_prev_hash (wit_row\<lparr>ar_hash := []\<rparr>) = GENESIS" by (simp add: wit_row_def)
  show "ad_events wit_audit = [wit_row]" "ad_checkpoints wit_audit = []"
    "ad_chains wit_audit = [(''m1'', \<lparr>ch_head_hash = replicate 64 (CHR ''a''), ch_length = 1\<rparr>)]"
    unfolding wit_audit_def audit_append_def wit_entry_row Let_def prev wit_row_digest
    by (simp_all add: empty_audit_def wit_row_def)
qed

theorem honest_trail_replays_witness:
  "\<exists>r. verify_all wit_sha wit_audit = Inr r \<and> ac_valid r \<and> ac_checked r = 1"
proof -
  have "(audit_step wit_sha (\<lambda>s. s) (\<lambda>s. s))\<^sup>*\<^sup>* empty_audit wit_audit"
    unfolding wit_audit_def by (rule r_into_rtranclp) (rule step_append)
  from honest_trail_replays [OF this] show ?thesis by (auto simp: wit_audit_tables)
qed

lemma wit_root: "compute_root wit_sha wit_audit = Inr (replicate 64 (CHR ''b''))"
  by (simp add: compute_root_def agent_canonical_json_def heads_plain heads_text wit_sha_def)

lemma wit_signed_tables:
  "ad_events wit_signed = [wit_row]" "ad_chains wit_signed = ad_chains wit_audit"
  "cp_root_hash (last (ad_checkpoints wit_signed)) = replicate 64 (CHR ''b'')" "ad_checkpoints wit_signed \<noteq> []"
  by (simp_all add: wit_signed_def wit_audit_tables checkpoint_def Let_def wit_root agent_canonical_json_def)

lemma wit_chain: "chain_events db ''m1'' = [wit_row]" if "ad_events db = [wit_row]"
  by (simp add: chain_events_def that wit_row_def)

lemma wit_verify_all:
  assumes "ad_events db = [wit_row]" "ad_chains db = ad_chains wit_audit"
  shows "\<exists>r. verify_all wit_sha db = Inr r \<and> ac_valid r"
proof -
  have "row_digest wit_sha GENESIS wit_row = Inr (replicate 64 (CHR ''a''))"
    using wit_row_digest [of "ar_hash wit_row"] by simp
  then have "rlinked wit_sha GENESIS [wit_row]" by (simp add: wit_row_def)
  then have "\<exists>c. agent_verify_chain wit_sha db ''m1'' = Inr c \<and> cc_valid c \<and> cc_checked c = 1"
    unfolding verify_chain_valid_iff wit_chain [OF assms(1)] by (simp add: assms wit_audit_tables wit_row_def)
  then obtain c where "agent_verify_chain wit_sha db ''m1'' = Inr c" "cc_valid c" by blast
  moreover obtain root where "compute_root wit_sha db = Inr root" using compute_root_total by blast
  ultimately show ?thesis by (simp add: verify_all_def sorted_heads_def assms wit_audit_tables Let_def)
qed


end
