(* ===== verification/Agent_Db.thy ===== *)
theory Agent_Db
  imports Agent_Audit
begin

text \<open>
  The database of the agent lane and the operations on single tables: mandates (\<^verbatim>\<open>src/src/agent/mandate.py\<close>),
  payment instruments and captures (\<^verbatim>\<open>mocks/rail.py\<close>), counters (\<^verbatim>\<open>limits.py\<close>) and identifiers and time
  (\<^verbatim>\<open>ids.py\<close>). A table with a primary key is a dictionary. Statements commit one by one, as on a connection
  with autocommit; an exception undoes nothing. Columns that no modelled code reads, such as the time of the
  last update, are left out, and a JSON column holds the value.
\<close>

section \<open>Tables\<close>

record mandate_rec =
  mr_user_id :: string
  mr_agent_id :: string
  mr_status :: string
  mr_claims :: pydict
  mr_token :: "string option"
  mr_reserved :: string
  mr_spent :: string
  mr_txn_count :: int
  mr_parent :: "string option"

record intent_rec =
  ir_jti :: string
  ir_mandate :: string
  ir_agent :: pyval
  ir_nonce :: string
  ir_intent :: pydict
  ir_signature :: string
  ir_status :: string

record agent_purchase =
  ap_mandate :: string
  ap_intent :: string
  ap_status :: string
  ap_reason :: "string option"
  ap_amount :: string
  ap_reservation :: "string option"
  ap_receipt :: "pyval option"

record agent_escalation =
  ag_purchase :: string
  ag_mandate :: string
  ag_run :: "string option"
  ag_approver_id :: "string option"
  ag_status :: string
  ag_diff :: pydict
  ag_timeout_at :: string
  ag_decision :: "string option"
  ag_approver :: "string option"
  ag_channel :: "string option"
  ag_receipt_sig :: "string option"

record instrument =
  it_mandate :: string
  it_status :: string

record offer_row =
  ow_merchant_id :: string
  ow_category :: string
  ow_title :: string
  ow_amount :: string
  ow_currency :: string
  ow_origin :: "string option"
  ow_destination :: "string option"
  ow_depart_date :: "string option"
  ow_description :: "string option"
  ow_active :: bool

record agent_db =
  db_audit :: audit_db
  db_mandates :: "(string, mandate_rec) dict"
  db_intents :: "intent_rec list"
  db_purchases :: "(string, agent_purchase) dict"
  db_escalations :: "(string, agent_escalation) dict"
  db_instruments :: "(string, instrument) dict"
  db_captures :: "(string, pydict) dict"
  db_agents :: "(string, string option) dict"
  db_counters :: "(string \<times> string, int) dict"
  db_offers :: "(string, offer_row) dict"
  db_draws :: nat

section \<open>The environment\<close>

text \<open>
  What the code takes from outside: the hash and the scrubbing of the audit trail, the \<open>n\<close>-th random
  identifier and nonce, the clock at the \<open>n\<close>-th reading, the token functions of \<^verbatim>\<open>crypto/jws.py\<close> over Ed25519,
  the text of an exception, and the configuration. Every draw advances the counter of the database, so
  that two readings may differ.
\<close>

record agent_env =
  ev_sha :: "string \<Rightarrow> string"
  ev_scrub :: "string \<Rightarrow> string"
  ev_uuid :: "nat \<Rightarrow> string"
  ev_nonce :: "nat \<Rightarrow> string"
  ev_clock :: "nat \<Rightarrow> instant"
  ev_sign_token :: "pydict \<Rightarrow> string res"
  ev_verify_token :: "string option \<Rightarrow> pydict res"
  ev_sign_detached :: "pydict \<Rightarrow> string \<Rightarrow> string res"
  ev_sign_receipt :: "pydict \<Rightarrow> string res"
  ev_verify_detached :: "string \<Rightarrow> pydict \<Rightarrow> pydict \<Rightarrow> unit res"
  ev_exn_text :: "exn \<Rightarrow> string"
  ev_escalation_timeout_s :: int
  ev_max_escalations_per_hour :: int

definition ISSUER :: string where
  "ISSUER = ''https://api.trytrust.lat''"

definition INTENT_TTL_S :: int where
  "INTENT_TTL_S = 120"

definition draw :: "(agent_db, nat) sres" where
  "draw db = (Inr (db_draws db), db\<lparr>db_draws := Suc (db_draws db)\<rparr>)"

definition new_id :: "agent_env \<Rightarrow> string \<Rightarrow> (agent_db, string) sres" where
  "new_id ev pre = bind_s draw (\<lambda>n. return_s (pre @ ''_'' @ ev_uuid ev n))"

definition new_nonce :: "agent_env \<Rightarrow> (agent_db, string) sres" where
  "new_nonce ev = bind_s draw (\<lambda>n. return_s (ev_nonce ev n))"

definition clock :: "agent_env \<Rightarrow> (agent_db, instant) sres" where
  "clock ev = bind_s draw (\<lambda>n. return_s (ev_clock ev n))"

text \<open>Whole seconds, as text and since 1970.\<close>

definition iso_seconds :: "instant \<Rightarrow> string" where
  "iso_seconds t = isoformat (t - t mod us_per_second)"

definition unix_ts :: "instant \<Rightarrow> int" where
  "unix_ts t = t div us_per_second - 719162 * 86400"

definition now_iso :: "agent_env \<Rightarrow> (agent_db, string) sres" where
  "now_iso ev = bind_s (clock ev) (\<lambda>t. return_s (iso_seconds t))"

definition now_ts :: "agent_env \<Rightarrow> (agent_db, int) sres" where
  "now_ts ev = bind_s (clock ev) (\<lambda>t. return_s (unix_ts t))"

section \<open>Reading JSON data\<close>

definition item :: "pydict \<Rightarrow> string \<Rightarrow> pyval res" where
  "item m k = (case dict_get m k of Some v \<Rightarrow> Inr v | None \<Rightarrow> Inl KeyError)"

definition item_of :: "pyval \<Rightarrow> string \<Rightarrow> pyval res" where
  "item_of v k = (case v of PDict m \<Rightarrow> item m k | _ \<Rightarrow> Inl TypeError)"

definition get_of :: "pyval \<Rightarrow> string \<Rightarrow> pyval \<Rightarrow> pyval res" where
  "get_of v k d = (case v of PDict m \<Rightarrow> Inr (dict_get_or m k d) | _ \<Rightarrow> Inl AttributeError)"

text \<open>A value that is bound to a text column.\<close>

definition as_text :: "pyval \<Rightarrow> string res" where
  "as_text v = (case v of PStr s \<Rightarrow> Inr s | _ \<Rightarrow> Inl DatabaseError)"

section \<open>The audit trail\<close>

definition entry :: "string \<Rightarrow> pydict \<Rightarrow> string option \<Rightarrow> string option \<Rightarrow> string option \<Rightarrow> string option \<Rightarrow> audit_entry" where
  "entry ty payload actor agent run mandate =
     \<lparr>en_type = ty, en_payload = PDict payload, en_actor = actor, en_agent_id = agent, en_run_id = run,
      en_mandate_jti = mandate, en_relay = True, en_scrub = True, en_chain_key = None\<rparr>"

definition log_event :: "agent_env \<Rightarrow> audit_entry \<Rightarrow> (agent_db, unit) sres" where
  "log_event ev a =
     bind_s (now_iso ev) (\<lambda>at.
     bind_s (new_id ev ''evt'') (\<lambda>eid db.
     case audit_append (ev_sha ev) (ev_scrub ev) eid at a (db_audit db) of
       (Inl e, ad) \<Rightarrow> (Inl e, db\<lparr>db_audit := ad\<rparr>)
     | (Inr _, ad) \<Rightarrow> (Inr (), db\<lparr>db_audit := ad\<rparr>)))"

section \<open>Counters\<close>

definition bump :: "string \<Rightarrow> string \<Rightarrow> int \<Rightarrow> (agent_db, unit) sres" where
  "bump key window cap db =
     (let value = dict_get_or (db_counters db) (key, window) 0 + 1
      in if value > cap then (Inl (LimitExceeded ''QUOTA_EXHAUSTED''), db)
         else (Inr (), db\<lparr>db_counters := dict_set (key, window) value (db_counters db)\<rparr>))"

definition hour_window :: "agent_env \<Rightarrow> (agent_db, string) sres" where
  "hour_window ev = bind_s (clock ev) (\<lambda>t. return_s (take 13 (isoformat t)))"

definition guard_escalation :: "agent_env \<Rightarrow> string option \<Rightarrow> (agent_db, unit) sres" where
  "guard_escalation ev approver =
     bind_s (hour_window ev) (\<lambda>w.
     bump (''escalations:'' @ (case or_str approver None of Some a \<Rightarrow> a | None \<Rightarrow> ''unassigned'')) w
       (ev_max_escalations_per_hour ev))"

section \<open>The rail\<close>

definition vault_instrument :: "agent_env \<Rightarrow> string \<Rightarrow> (agent_db, string) sres" where
  "vault_instrument ev mandate_jti =
     bind_s (new_id ev ''ppt'') (\<lambda>token_ref db.
     if dict_get (db_instruments db) token_ref \<noteq> None then (Inl DatabaseError, db)
     else (Inr token_ref, db\<lparr>db_instruments := dict_set token_ref \<lparr>it_mandate = mandate_jti, it_status = ''active''\<rparr> (db_instruments db)\<rparr>))"

definition delete_token :: "string \<Rightarrow> agent_db \<Rightarrow> bool \<times> agent_db" where
  "delete_token token_ref db =
     (case dict_get (db_instruments db) token_ref of
        Some i \<Rightarrow>
          if it_status i = ''active''
          then (True, db\<lparr>db_instruments := dict_set token_ref (i\<lparr>it_status := ''deleted''\<rparr>) (db_instruments db)\<rparr>)
          else (False, db)
      | None \<Rightarrow> (False, db))"

text \<open>\<^verbatim>\<open>capture\<close>: a request that has a stored result is answered with it.\<close>

definition rail_capture ::
  "agent_env \<Rightarrow> string \<Rightarrow> pyval \<Rightarrow> pyval \<Rightarrow> string \<Rightarrow> (agent_db, pydict) sres" where
  "rail_capture ev token_ref amount currency request_id =
     bind_s (get_s (\<lambda>db. (dict_get (db_captures db) request_id, dict_get (db_instruments db) token_ref))) (\<lambda>(prior, inst).
     case prior of
       Some response \<Rightarrow> return_s (dict_set ''idempotent_replay'' (PBool True) response)
     | None \<Rightarrow>
         (case inst of
            None \<Rightarrow> raise_s (RailError ''RAIL_ERROR'')
          | Some i \<Rightarrow>
              if it_status i \<noteq> ''active'' then raise_s (RailError ''RAIL_TOKEN_DELETED'')
              else
                bind_s (lift_res (money_fmt amount)) (\<lambda>a.
                if a = ''0.00'' then raise_s (RailError ''RAIL_ERROR'')
                else
                  bind_s (new_id ev ''cap'') (\<lambda>cid.
                  bind_s (now_iso ev) (\<lambda>at.
                  let result = [(''capture_id'', PStr cid), (''status'', PStr ''COMPLETED''), (''amount'', PStr a),
                                (''currency'', currency), (''token_ref'', PStr token_ref), (''captured_at'', PStr at)]
                  in bind_s (modify_s (\<lambda>db. db\<lparr>db_captures := dict_set request_id result (db_captures db)\<rparr>))
                       (\<lambda>_. return_s result))))))"

section \<open>Mandates\<close>

definition mandate_get :: "string \<Rightarrow> (agent_db, mandate_rec) sres" where
  "mandate_get jti db =
     (case dict_get (db_mandates db) jti of Some r \<Rightarrow> (Inr r, db) | None \<Rightarrow> (Inl KeyError, db))"

text \<open>The limits of new claims; the period and count default to three a month.\<close>

definition claim_limits :: "pydict \<Rightarrow> pyval res" where
  "claim_limits limits =
     bind_res (item limits ''max_per_txn'') (\<lambda>m. bind_res (money_fmt m) (\<lambda>max_per_txn.
     bind_res (item limits ''total_budget'') (\<lambda>b. bind_res (money_fmt b) (\<lambda>total_budget.
     Inr (PDict [(''max_per_txn'', PStr max_per_txn), (''total_budget'', PStr total_budget),
                 (''max_txn'', dict_get_or limits ''max_txn'' (PDict [(''count'', PInt 3), (''period'', PStr ''month'')]))])))))"

definition issue ::
  "agent_env \<Rightarrow> string \<Rightarrow> string \<Rightarrow> pyval \<Rightarrow> string \<Rightarrow> pyval \<Rightarrow> pyval \<Rightarrow> pydict \<Rightarrow> pydict \<Rightarrow> string \<Rightarrow> string option \<Rightarrow> string
   \<Rightarrow> (agent_db, string \<times> string \<times> pydict) sres" where
  "issue ev user_id agent_id agent_jwk pm_ref scope conditions limits validity currency parent signed_with =
     bind_s (new_id ev ''mdt'') (\<lambda>jti.
     bind_s (now_ts ev) (\<lambda>issued.
     bind_s (lift_res (py_int (dict_get_or validity ''exp'' (PInt (issued + 30 * 24 * 3600))))) (\<lambda>exp_ts.
     bind_s (lift_res (claim_limits limits)) (\<lambda>lims.
     let claims = [(''iss'', PStr ISSUER), (''iat'', PInt issued), (''nbf'', PInt issued), (''exp'', PInt exp_ts),
                   (''jti'', PStr jti), (''type'', PStr ''purchase_mandate_v1''), (''sub'', PStr user_id),
                   (''agent'', PStr agent_id), (''cnf'', PDict [(''jwk'', agent_jwk)]),
                   (''payment_method_ref'', PStr pm_ref), (''currency'', PStr currency), (''scope'', scope),
                   (''conditions'', conditions), (''limits'', lims), (''validity'', PDict validity),
                   (''signed_with'', PStr signed_with)]
                  @ (case or_str parent None of Some p \<Rightarrow> [(''parent_jti'', PStr p)] | None \<Rightarrow> [])
     in bind_s (lift_res (ev_sign_token ev claims)) (\<lambda>token.
        bind_s (\<lambda>db. if dict_get (db_mandates db) jti \<noteq> None then (Inl DatabaseError, db)
                else (Inr (), db\<lparr>db_mandates := dict_set jti
                  \<lparr>mr_user_id = user_id, mr_agent_id = agent_id, mr_status = ''active'', mr_claims = claims,
                   mr_token = Some token, mr_reserved = ''0.00'', mr_spent = ''0.00'', mr_txn_count = 0,
                   mr_parent = parent\<rparr> (db_mandates db)\<rparr>)) (\<lambda>_.
        bind_s (modify_s (\<lambda>db. if dict_get (db_instruments db) pm_ref \<noteq> None then db
                else db\<lparr>db_instruments := dict_set pm_ref \<lparr>it_mandate = jti, it_status = ''active''\<rparr> (db_instruments db)\<rparr>)) (\<lambda>_.
        bind_s (log_event ev (entry ''mandate.created''
                  [(''jti'', PStr jti), (''sub'', PStr user_id), (''agent'', PStr agent_id), (''limits'', lims),
                   (''scope'', scope), (''conditions'', conditions), (''signed_with'', PStr signed_with),
                   (''parent_jti'', opt_str parent)]
                  (Some user_id) (Some agent_id) None (Some jti))) (\<lambda>_.
        return_s (jti, token, claims)))))))))"

definition revoke :: "agent_env \<Rightarrow> string \<Rightarrow> string \<Rightarrow> string \<Rightarrow> (agent_db, bool) sres" where
  "revoke ev jti actor reason =
     bind_s (modify_s (\<lambda>db. case dict_get (db_mandates db) jti of
               Some r \<Rightarrow> db\<lparr>db_mandates := dict_set jti (r\<lparr>mr_status := ''revoked''\<rparr>) (db_mandates db)\<rparr>
             | None \<Rightarrow> db)) (\<lambda>_.
     bind_s (get_s (\<lambda>db. case dict_get (db_mandates db) jti of
               Some r \<Rightarrow> dict_get_or (mr_claims r) ''payment_method_ref'' PNone | None \<Rightarrow> PNone)) (\<lambda>ref.
     bind_s (if truthy ref then bind_s (lift_res (as_text ref)) (\<lambda>t db. case delete_token t db of (b, db') \<Rightarrow> (Inr b, db'))
             else return_s False) (\<lambda>deleted.
     bind_s (log_event ev (entry ''mandate.revoked''
               [(''jti'', PStr jti), (''by'', PStr actor), (''reason'', PStr reason),
                (''rail'', PDict ((if truthy ref then [(''token_ref'', ref)] else []) @ [(''deleted'', PBool deleted)]))]
               (Some actor) None None (Some jti))) (\<lambda>_.
     return_s deleted))))"

end
