(* ===== verification/Agent_Kernel.thy ===== *)
theory Agent_Kernel
  imports Agent_Db
begin

text \<open>
  The enforcement path of the agent lane (\<^verbatim>\<open>src/src/agent/kernel.py\<close>): the gate, the verification with its
  reservation up the chain of parent mandates, and the purchase saga. Merchants are ports: records of what
  the kernel calls. The port of the in-process merchant is in the theory of the merchant; ports that ask
  for a capture token are not modelled. The text of an exception comes from the environment.
\<close>

section \<open>The gate\<close>

record gate_decision =
  gd_decision :: string
  gd_reason :: "string option"
  gd_detail :: string
  gd_diff :: pydict

abbreviation APPROVED :: string where "APPROVED \<equiv> ''APPROVED''"
abbreviation ESCALATED :: string where "ESCALATED \<equiv> ''ESCALATED''"
abbreviation REJECTED :: string where "REJECTED \<equiv> ''REJECTED''"

definition refusal :: "string \<Rightarrow> string \<Rightarrow> string \<Rightarrow> pydict \<Rightarrow> gate_decision option" where
  "refusal dcn code detail diff =
     Some \<lparr>gd_decision = dcn, gd_reason = Some code, gd_detail = detail, gd_diff = diff\<rparr>"

definition decision_dict :: "gate_decision \<Rightarrow> pydict" where
  "decision_dict d = [(''decision'', PStr (gd_decision d)), (''reason_code'', opt_str (gd_reason d)),
     (''detail'', PStr (gd_detail d)), (''diff'', PDict (gd_diff d))]"

text \<open>What the gate reads of the mandate's row.\<close>

record spend_row =
  sp_spent :: string
  sp_reserved :: string
  sp_txn_count :: int

definition scope_list_check :: "pyval \<Rightarrow> string \<Rightarrow> pydict \<Rightarrow> string \<Rightarrow> string \<Rightarrow> gate_decision option res" where
  "scope_list_check scope key offer field code =
     bind_res (get_of scope key PNone) (\<lambda>allowed.
     if \<not> truthy allowed then Inr None
     else
       bind_res (item offer field) (\<lambda>v.
       bind_res (py_in v allowed) (\<lambda>b.
       Inr (if b then None else refusal REJECTED code (py_str v @ '' is not in '' @ py_str allowed) []))))"

definition currency_check :: "pydict \<Rightarrow> pydict \<Rightarrow> gate_decision option res" where
  "currency_check claims intent =
     bind_res (item intent ''currency'') (\<lambda>c.
     Inr (if py_eq c (dict_get_or claims ''currency'' (PStr ''USD'')) then None
          else refusal REJECTED ''CONDITION_FAILED''
                 (''currency '' @ py_str c @ '' != '' @ py_str (dict_get_or claims ''currency'' PNone)) []))"

definition count_check :: "pyval \<Rightarrow> spend_row \<Rightarrow> gate_decision option res" where
  "count_check limits sp =
     bind_res (get_of limits ''max_txn'' PNone) (\<lambda>mt.
     bind_res (get_of (if truthy mt then mt else PDict []) ''count'' PNone) (\<lambda>c.
     if c = PNone then Inr None
     else
       bind_res (py_int c) (\<lambda>n.
       Inr (if sp_txn_count sp \<ge> n
            then refusal REJECTED ''LIMIT_EXHAUSTED'' (int_str (sp_txn_count sp) @ '' of '' @ py_str c @ '' purchases used'') []
            else None))))"

definition budget_check :: "pyval \<Rightarrow> spend_row \<Rightarrow> cents \<Rightarrow> gate_decision option res" where
  "budget_check limits sp amount =
     bind_res (money_dec (PStr (sp_spent sp))) (\<lambda>s.
     bind_res (money_dec (PStr (sp_reserved sp))) (\<lambda>r.
     bind_res (bind_res (item_of limits ''total_budget'') money_dec) (\<lambda>b.
     let remaining = dec_sub (cents_dec b) (dec_add (cents_dec s) (cents_dec r))
     in if dec_less remaining (cents_dec amount)
        then bind_res (money_fmt (PDec remaining)) (\<lambda>rem.
             Inr (refusal REJECTED ''BUDGET_EXCEEDED'' (fmt_cents amount @ '' exceeds remaining budget '' @ rem)
                    [(''amount'', PStr (fmt_cents amount)), (''remaining_budget'', PStr rem)]))
        else Inr None)))"

definition per_txn_check :: "pyval \<Rightarrow> pydict \<Rightarrow> cents \<Rightarrow> gate_decision option res" where
  "per_txn_check limits offer amount =
     bind_res (item_of limits ''max_per_txn'') (\<lambda>mv.
     bind_res (money_dec mv) (\<lambda>m.
     if m < amount
     then bind_res (money_fmt (PDec (dec_sub (cents_dec amount) (cents_dec m)))) (\<lambda>over.
          bind_res (item offer ''title'') (\<lambda>title.
          Inr (refusal ESCALATED ''AMOUNT_EXCEEDS_PER_TXN''
                 (fmt_cents amount @ '' is over the '' @ py_str mv @ '' per-purchase limit'')
                 [(''amount'', PStr (fmt_cents amount)), (''limit'', mv), (''over_by'', PStr over), (''offer'', title)])))
     else Inr None))"

definition condition_check :: "agent_env \<Rightarrow> pydict \<Rightarrow> pydict \<Rightarrow> int \<Rightarrow> gate_decision option res" where
  "condition_check ev claims offer now =
     bind_res (item offer ''price'') (\<lambda>p.
     bind_res (money_fmt p) (\<lambda>price.
     let rule = dict_get_or claims ''conditions'' PNone;
         cx = [(''offer'', PDict (dict_set ''price'' (PStr price) offer)), (''now'', PInt now)]
     in case rule_evaluate cx (if truthy rule then rule else PBool True) of
          Inl e \<Rightarrow>
            if e = RuleError
            then Inr (refusal REJECTED ''CONDITION_FAILED'' (''unevaluable condition: '' @ ev_exn_text ev e) [])
            else Inl e
        | Inr v \<Rightarrow>
            if truthy v then Inr None
            else
              bind_res (item claims ''conditions'') (\<lambda>c.
              bind_res (rule_describe c) (\<lambda>text.
              bind_res (item offer ''title'') (\<lambda>title.
              Inr (refusal ESCALATED ''CONDITION_FAILED'' ((''fails the buyer'' @ [char_of (39::nat)] @ ''s condition: '') @ text)
                     [(''condition'', PStr text), (''offer_price'', PStr price), (''offer'', title)]))))))"

text \<open>The checks in order; the first that decides wins.\<close>

definition or_else :: "gate_decision option res \<Rightarrow> gate_decision option res \<Rightarrow> gate_decision option res" where
  "or_else a b = bind_res a (\<lambda>d. case d of Some x \<Rightarrow> Inr (Some x) | None \<Rightarrow> b)"

definition agent_gate ::
  "agent_env \<Rightarrow> pydict \<Rightarrow> pydict \<Rightarrow> pydict \<Rightarrow> spend_row \<Rightarrow> int \<Rightarrow> gate_decision res" where
  "agent_gate ev claims intent offer sp now =
     bind_res (bind_res (item intent ''amount'') money_dec) (\<lambda>amount.
     bind_res (item claims ''limits'') (\<lambda>limits.
     let scope = dict_get_or claims ''scope'' (PDict [])
     in bind_res
          (or_else (scope_list_check scope ''categories'' offer ''category'' ''CATEGORY_FORBIDDEN'')
          (or_else (scope_list_check scope ''merchants'' offer ''merchant_id'' ''MERCHANT_NOT_ALLOWED'')
          (or_else (currency_check claims intent)
          (or_else (count_check limits sp)
          (or_else (budget_check limits sp amount)
          (or_else (per_txn_check limits offer amount)
                   (condition_check ev claims offer now)))))))
          (\<lambda>d. Inr (case d of
                 Some x \<Rightarrow> x
               | None \<Rightarrow> \<lparr>gd_decision = APPROVED, gd_reason = None, gd_detail = '''', gd_diff = []\<rparr>))))"

section \<open>The chain of mandates\<close>

type_synonym mandates = "(string, mandate_rec) dict"

text \<open>\<^verbatim>\<open>chain\<close>: a mandate and its ancestors; a cycle or an unknown parent ends it.\<close>

function chain_from :: "mandates \<Rightarrow> string list \<Rightarrow> string option \<Rightarrow> string list" where
  "chain_from ms seen cur =
     (case cur of
        None \<Rightarrow> seen
      | Some c \<Rightarrow>
          if c = [] \<or> c \<in> set seen then seen
          else chain_from ms (seen @ [c]) (case dict_get ms c of None \<Rightarrow> None | Some r \<Rightarrow> mr_parent r))"
  by pat_completeness auto
termination
proof (relation "measure (\<lambda>(ms, seen, cur). 2 * card (fst ` set ms - set seen) + (if cur = None then 0 else 1))")
  fix ms :: mandates and seen :: "string list" and cur c
  assume c: "cur = Some c" "\<not> (c = [] \<or> c \<in> set seen)"
  have fin: "finite (fst ` set ms - set seen)" by simp
  have sub: "fst ` set ms - set (seen @ [c]) \<subseteq> fst ` set ms - set seen" by auto
  show "((ms, seen @ [c], case dict_get ms c of None \<Rightarrow> None | Some r \<Rightarrow> mr_parent r), (ms, seen, cur))
      \<in> measure (\<lambda>(ms, seen, cur). 2 * card (fst ` set ms - set seen) + (if cur = None then 0 else 1))"
  proof (cases "dict_get ms c")
    case None
    with c card_mono [OF fin sub] show ?thesis by simp
  next
    case (Some r)
    then have "c \<in> fst ` set ms" by (force dest: map_of_SomeD)
    with c have "fst ` set ms - set (seen @ [c]) \<subset> fst ` set ms - set seen" by auto
    from psubset_card_mono [OF fin this] c show ?thesis by simp
  qed
qed simp

declare chain_from.simps [simp del]

definition mandate_chain :: "mandates \<Rightarrow> string \<Rightarrow> string list" where
  "mandate_chain ms jti = chain_from ms [] (Some jti)"

section \<open>Reserving, releasing, settling\<close>

definition row_budget :: "mandate_rec \<Rightarrow> cents res" where
  "row_budget r = bind_res (item (mr_claims r) ''limits'') (\<lambda>l. bind_res (item_of l ''total_budget'') money_dec)"

text \<open>\<^verbatim>\<open>max(Decimal("0"), d)\<close>\<close>

definition max_zero :: "dec \<Rightarrow> dec" where
  "max_zero d = (if dec_less (Dec 0 0) d then d else Dec 0 0)"

text \<open>\<^verbatim>\<open>_unreserve\<close>: give the amount back on every mandate of the list.\<close>

fun unreserve :: "string list \<Rightarrow> pyval \<Rightarrow> (mandates, unit) sres" where
  "unreserve [] amount ms = (Inr (), ms)"
| "unreserve (j # js) amount ms =
     (case dict_get ms j of
        None \<Rightarrow> unreserve js amount ms
      | Some r \<Rightarrow>
          (case bind_res (money_dec (PStr (mr_reserved r))) (\<lambda>x. bind_res (money_dec amount) (\<lambda>a.
                let d = dec_sub (cents_dec x) (cents_dec a)
                in money_fmt (PDec (max_zero d)))) of
             Inl e \<Rightarrow> (Inl e, ms)
           | Inr freed \<Rightarrow> unreserve js amount (dict_set j (r\<lparr>mr_reserved := freed\<rparr>) ms)))"

text \<open>The guarded update: it takes effect if the row still has the values that were read.\<close>

definition reserve_cas :: "string \<Rightarrow> mandate_rec \<Rightarrow> string \<Rightarrow> mandates \<Rightarrow> mandates option" where
  "reserve_cas j r new ms =
     (case dict_get ms j of
        Some r' \<Rightarrow>
          if mr_status r' = ''active'' \<and> mr_reserved r' = mr_reserved r \<and> mr_spent r' = mr_spent r
             \<and> mr_txn_count r' = mr_txn_count r
          then Some (dict_set j (r'\<lparr>mr_reserved := new\<rparr>) ms) else None
      | None \<Rightarrow> None)"

text \<open>What a row says about one more reservation: the new amount, or that it does not fit.\<close>

definition reserve_row_amount :: "pyval \<Rightarrow> mandate_rec \<Rightarrow> string option res" where
  "reserve_row_amount amount r =
     bind_res (money_dec (PStr (mr_spent r))) (\<lambda>s.
     bind_res (money_dec (PStr (mr_reserved r))) (\<lambda>x.
     bind_res (money_dec amount) (\<lambda>a.
     bind_res (row_budget r) (\<lambda>b.
     if dec_less (cents_dec b) (dec_add (dec_add (cents_dec s) (cents_dec x)) (cents_dec a)) then Inr None
     else bind_res (money_fmt (PDec (dec_add (cents_dec x) (cents_dec a)))) (\<lambda>t. Inr (Some t))))))"

fun reserve_loop :: "pyval \<Rightarrow> string list \<Rightarrow> string list \<Rightarrow> (mandates, bool) sres" where
  "reserve_loop amount got [] ms = (Inr True, ms)"
| "reserve_loop amount got (j # js) ms =
     (case dict_get ms j of
        None \<Rightarrow> bind_s (unreserve got amount) (\<lambda>_. return_s False) ms
      | Some r \<Rightarrow>
          if mr_status r \<noteq> ''active'' then bind_s (unreserve got amount) (\<lambda>_. return_s False) ms
          else
            (case reserve_row_amount amount r of
               Inl e \<Rightarrow> (Inl e, ms)
             | Inr None \<Rightarrow> bind_s (unreserve got amount) (\<lambda>_. return_s False) ms
             | Inr (Some new) \<Rightarrow>
                 (case reserve_cas j r new ms of
                    None \<Rightarrow> bind_s (unreserve got amount) (\<lambda>_. return_s False) ms
                  | Some ms' \<Rightarrow> reserve_loop amount (got @ [j]) js ms')))"

definition reserve_chain :: "string \<Rightarrow> pyval \<Rightarrow> (mandates, bool) sres" where
  "reserve_chain jti amount ms = reserve_loop amount [] (mandate_chain ms jti) ms"

definition release_chain :: "string \<Rightarrow> pyval \<Rightarrow> (mandates, unit) sres" where
  "release_chain jti amount ms = unreserve (mandate_chain ms jti) amount ms"

definition settled_row :: "pyval \<Rightarrow> mandate_rec \<Rightarrow> mandate_rec res" where
  "settled_row amount r =
     bind_res (money_dec (PStr (mr_reserved r))) (\<lambda>x.
     bind_res (money_dec amount) (\<lambda>a.
     bind_res (money_dec (PStr (mr_spent r))) (\<lambda>s.
     bind_res (row_budget r) (\<lambda>b.
     let d = dec_sub (cents_dec x) (cents_dec a); spent = dec_add (cents_dec s) (cents_dec a)
     in bind_res (money_fmt (PDec (max_zero d))) (\<lambda>freed.
        bind_res (money_fmt (PDec spent)) (\<lambda>total.
        Inr (r\<lparr>mr_reserved := freed, mr_spent := total, mr_txn_count := mr_txn_count r + 1,
               mr_status := (if dec_le (cents_dec b) spent then ''exhausted'' else mr_status r)\<rparr>)))))))"

fun settle_loop :: "pyval \<Rightarrow> string list \<Rightarrow> (mandates, unit) sres" where
  "settle_loop amount [] ms = (Inr (), ms)"
| "settle_loop amount (j # js) ms =
     (case dict_get ms j of
        None \<Rightarrow> settle_loop amount js ms
      | Some r \<Rightarrow>
          (case settled_row amount r of
             Inl e \<Rightarrow> (Inl e, ms)
           | Inr r' \<Rightarrow> settle_loop amount js (dict_set j r' ms)))"

definition settle_chain :: "string \<Rightarrow> pyval \<Rightarrow> (mandates, unit) sres" where
  "settle_chain jti amount ms = settle_loop amount (mandate_chain ms jti) ms"

text \<open>An operation on the mandates, run on the database.\<close>

definition on_mandates :: "(mandates, 'a) sres \<Rightarrow> (agent_db, 'a) sres" where
  "on_mandates m db = (case m (db_mandates db) of (r, ms) \<Rightarrow> (r, db\<lparr>db_mandates := ms\<rparr>))"

end
