(* ===== verification/Agent_Ledger.thy ===== *)
theory Agent_Ledger
  imports Agent_Kernel
begin

text \<open>
  What the kernel's ledger keeps: the three operations on the chain of a mandate (reserve, release, settle)
  in exact cents, and the invariant that on every mandate the spent and the reserved amounts stay within its
  budget, children and ancestors alike, however reservations, settlements and releases interleave.
\<close>

section \<open>Rows in cents\<close>

definition reserved_c :: "mandate_rec \<Rightarrow> cents" where
  "reserved_c r = (case money_dec (PStr (mr_reserved r)) of Inr c \<Rightarrow> c | Inl _ \<Rightarrow> 0)"

definition spent_c :: "mandate_rec \<Rightarrow> cents" where
  "spent_c r = (case money_dec (PStr (mr_spent r)) of Inr c \<Rightarrow> c | Inl _ \<Rightarrow> 0)"

definition budget_c :: "mandate_rec \<Rightarrow> cents" where
  "budget_c r = (case row_budget r of Inr c \<Rightarrow> c | Inl _ \<Rightarrow> 0)"

text \<open>
  A sound row: canonical texts, nothing negative, and within the budget. A budget below zero admits nothing.
\<close>

definition row_sound :: "mandate_rec \<Rightarrow> bool" where
  "row_sound r \<longleftrightarrow> mr_spent r = fmt_cents (spent_c r) \<and> mr_reserved r = fmt_cents (reserved_c r)
     \<and> row_budget r = Inr (budget_c r) \<and> 0 \<le> spent_c r \<and> 0 \<le> reserved_c r
     \<and> spent_c r + reserved_c r \<le> max 0 (budget_c r)"

lemma money_text [simp]: "\<bar>c\<bar> < cents_limit \<Longrightarrow> reserved_c (r\<lparr>mr_reserved := fmt_cents c\<rparr>) = c"
  by (simp add: reserved_c_def)

lemma budget_c_bound: "row_budget r = Inr b \<Longrightarrow> \<bar>b\<bar> < cents_limit"
  by (auto simp: row_budget_def bind_res_Inr_iff dest: money_dec_bound)

lemma row_sound_bounds:
  assumes "row_sound r"
  shows "valid_cents (spent_c r)" "valid_cents (reserved_c r)" "budget_c r < cents_limit"
    "money_dec (PStr (mr_spent r)) = Inr (spent_c r)" "money_dec (PStr (mr_reserved r)) = Inr (reserved_c r)"
    "spent_c r + reserved_c r < cents_limit"
proof -
  have b: "\<bar>budget_c r\<bar> < cents_limit" using assms budget_c_bound by (auto simp: row_sound_def)
  with assms show v: "valid_cents (spent_c r)" "valid_cents (reserved_c r)" "budget_c r < cents_limit"
    "spent_c r + reserved_c r < cents_limit"
    by (auto simp: row_sound_def valid_cents_def)
  have "mr_spent r = fmt_cents (spent_c r)" "mr_reserved r = fmt_cents (reserved_c r)"
    using assms by (simp_all add: row_sound_def)
  with v show "money_dec (PStr (mr_spent r)) = Inr (spent_c r)" "money_dec (PStr (mr_reserved r)) = Inr (reserved_c r)"
    using money_dec_fmt [of "spent_c r"] money_dec_fmt [of "reserved_c r"] by (simp_all add: valid_cents_def)
qed

lemma dec_sub_cents: "\<bar>a - b\<bar> < cents_limit \<Longrightarrow> dec_sub (cents_dec a) (cents_dec b) = cents_dec (a - b)"
  by (simp add: dec_sub_def dec_scale_def dec_fix_small)

lemma dec_add_cents_small: "\<bar>a + b\<bar> < cents_limit \<Longrightarrow> dec_add (cents_dec a) (cents_dec b) = cents_dec (a + b)"
  by (simp add: dec_add_cents dec_fix_small)

lemma money_fmt_cents: "\<bar>c\<bar> < cents_limit \<Longrightarrow> money_fmt (PDec (cents_dec c)) = Inr (fmt_cents c)"
  by (simp add: money_fmt_def)

lemma money_fmt_max: "0 \<le> c \<Longrightarrow> c < cents_limit \<Longrightarrow>
  money_fmt (PDec (max_zero (cents_dec c))) = Inr (fmt_cents c)"
  by (auto simp: max_zero_def dec_less_def dec_scale_def money_fmt_def quantize_half_up_def)

section \<open>Moving the reserved amount\<close>

definition move_reserved :: "cents \<Rightarrow> mandate_rec \<Rightarrow> mandate_rec" where
  "move_reserved a r = r\<lparr>mr_reserved := fmt_cents (reserved_c r + a)\<rparr>"

definition shift :: "string set \<Rightarrow> cents \<Rightarrow> mandates \<Rightarrow> mandates \<Rightarrow> bool" where
  "shift J a ms ms' \<longleftrightarrow>
     (\<forall>j. dict_get ms' j = map_option (\<lambda>r. if j \<in> J then move_reserved a r else r) (dict_get ms j))"

lemma shift_absent:
  assumes "dict_get ms j = None" "shift J a ms ms'"
  shows "shift (insert j J) a ms ms'"
  unfolding shift_def
proof
  fix i
  show "dict_get ms' i = map_option (\<lambda>r. if i \<in> insert j J then move_reserved a r else r) (dict_get ms i)"
    using assms by (cases "i = j") (simp_all add: shift_def)
qed

lemma unreserve_shift:
  assumes "money_dec amount = Inr a" "0 \<le> a" "distinct js"
    and "\<And>j r. j \<in> set js \<Longrightarrow> dict_get ms j = Some r \<Longrightarrow>
       mr_reserved r = fmt_cents (reserved_c r) \<and> a \<le> reserved_c r \<and> reserved_c r < cents_limit"
  shows "\<exists>ms'. unreserve js amount ms = (Inr (), ms') \<and> shift (set js) (- a) ms ms'"
  using assms(3,4)
proof (induction js arbitrary: ms)
  case Nil
  then show ?case by (auto simp: shift_def option.map_ident)
next
  case (Cons j js)
  show ?case
  proof (cases "dict_get ms j")
    case None
    with Cons.IH [of ms] Cons.prems obtain ms' where "unreserve js amount ms = (Inr (), ms')" "shift (set js) (- a) ms ms'"
      by auto
    with None shift_absent [OF None] show ?thesis by auto
  next
    case (Some r)
    have r: "mr_reserved r = fmt_cents (reserved_c r)" "a \<le> reserved_c r" "reserved_c r < cents_limit"
      using Cons.prems(2) [of j r] Some by auto
    have small: "\<bar>reserved_c r - a\<bar> < cents_limit" "0 \<le> reserved_c r - a" "reserved_c r - a < cents_limit" using r assms(2) by auto
    have dec: "money_dec (PStr (mr_reserved r)) = Inr (reserved_c r)"
      using r assms(2) by (metis abs_of_nonneg money_dec_fmt order_trans)
    let ?ms = "dict_set j (move_reserved (- a) r) ms"
    have step: "unreserve (j # js) amount ms = unreserve js amount ?ms"
      using money_fmt_max [OF small(2,3)] by (simp add: Some dec assms(1) dec_sub_cents [OF small(1)] Let_def move_reserved_def)
    have "\<exists>ms'. unreserve js amount ?ms = (Inr (), ms') \<and> shift (set js) (- a) ?ms ms'"
    proof (rule Cons.IH)
      fix i q
      assume i: "i \<in> set js" "dict_get ?ms i = Some q"
      then have "i \<noteq> j" using Cons.prems(1) by auto
      with i Cons.prems(2) [of i q] show "mr_reserved q = fmt_cents (reserved_c q) \<and> a \<le> reserved_c q \<and> reserved_c q < cents_limit"
        by simp
    qed (use Cons.prems(1) in simp)
    then show ?thesis using Some Cons.prems(1) unfolding step by (auto simp: shift_def)
  qed
qed

lemma shift_back:
  assumes "shift J a ms ms1" "shift J (- a) ms1 ms2"
    and "\<And>j r. j \<in> J \<Longrightarrow> dict_get ms j = Some r \<Longrightarrow> mr_reserved r = fmt_cents (reserved_c r) \<and> \<bar>reserved_c r + a\<bar> < cents_limit"
  shows "dict_get ms2 j = dict_get ms j"
proof (cases "dict_get ms j")
  case (Some r)
  with assms(3) [of j r] assms(1,2) show ?thesis by (auto simp: shift_def move_reserved_def)
qed (use assms(1,2) in \<open>simp add: shift_def\<close>)

lemma shift_trans:
  assumes "shift J a ms ms1" "dict_get ms1 j = Some r" "j \<notin> J"
  shows "shift (insert j J) a ms (dict_set j (move_reserved a r) ms1)"
proof -
  have "dict_get ms j = Some r" using assms by (auto simp: shift_def)
  with assms show ?thesis by (auto simp: shift_def)
qed

section \<open>A reservation takes all of the chain or nothing\<close>

lemma reserve_row_amount_exact:
  assumes "row_sound r" "money_dec amount = Inr a" "0 \<le> a"
  shows "reserve_row_amount amount r =
    Inr (if budget_c r < spent_c r + reserved_c r + a then None else Some (fmt_cents (reserved_c r + a)))"
proof -
  note b = row_sound_bounds [OF assms(1)]
  have va: "valid_cents a" using money_dec_bound [OF assms(2)] assms(3) by (simp add: valid_cents_def)
  have bud: "row_budget r = Inr (budget_c r)" using assms(1) by (simp add: row_sound_def)
  note cmp = dec_sum3_exceeds [OF b(3,1,2) va]
  have "\<bar>reserved_c r + a\<bar> < cents_limit" if "\<not> budget_c r < spent_c r + reserved_c r + a"
    using that b va by (simp add: valid_cents_def)
  then show ?thesis
    by (simp add: reserve_row_amount_def b assms(2) bud cmp dec_add_cents_small money_fmt_cents)
qed

definition fits :: "cents \<Rightarrow> mandate_rec \<Rightarrow> bool" where
  "fits a r \<longleftrightarrow> mr_status r = ''active'' \<and> spent_c r + reserved_c r + a \<le> budget_c r"

lemma reserve_loop_result:
  assumes a: "money_dec amount = Inr a" "0 \<le> a"
    and sound: "\<And>j r. dict_get ms0 j = Some r \<Longrightarrow> row_sound r"
    and "shift (set got) a ms0 ms" "distinct (got @ js)"
    and "\<And>j r. j \<in> set got \<Longrightarrow> dict_get ms0 j = Some r \<Longrightarrow> fits a r"
  shows "(\<exists>ms'. reserve_loop amount got js ms = (Inr True, ms') \<and> shift (set (got @ js)) a ms0 ms'
       \<and> (\<forall>j \<in> set js. \<exists>r. dict_get ms0 j = Some r \<and> fits a r))
    \<or> (\<exists>ms'. reserve_loop amount got js ms = (Inr False, ms') \<and> (\<forall>j. dict_get ms' j = dict_get ms0 j))"
  using assms(4-)
proof (induction js arbitrary: got ms)
  case Nil
  then show ?case by simp
next
  case (Cons j js)
  have in_range: "\<bar>reserved_c r + a\<bar> < cents_limit" if "dict_get ms0 i = Some r" "fits a r" for i r
    using that row_sound_bounds [OF sound [OF that(1)]] a(2) by (auto simp: fits_def valid_cents_def)
  have "\<exists>ms'. unreserve got amount ms = (Inr (), ms') \<and> shift (set got) (- a) ms ms'"
  proof (rule unreserve_shift [OF a])
    fix i r
    assume i: "i \<in> set got" "dict_get ms i = Some r"
    then obtain r0 where r0: "dict_get ms0 i = Some r0" "r = move_reserved a r0" using Cons.prems(1) by (auto simp: shift_def)
    with in_range [OF r0(1) Cons.prems(3) [OF i(1) r0(1)]] row_sound_bounds [OF sound [OF r0(1)]] a(2)
    show "mr_reserved r = fmt_cents (reserved_c r) \<and> a \<le> reserved_c r \<and> reserved_c r < cents_limit"
      by (auto simp: move_reserved_def valid_cents_def)
  qed (use Cons.prems in simp)
  then obtain msu where u: "unreserve got amount ms = (Inr (), msu)" "shift (set got) (- a) ms msu" by blast
  have "dict_get msu i = dict_get ms0 i" for i
    using Cons.prems(1) u(2)
  proof (rule shift_back)
    fix k r assume "k \<in> set got" "dict_get ms0 k = Some r"
    then show "mr_reserved r = fmt_cents (reserved_c r) \<and> \<bar>reserved_c r + a\<bar> < cents_limit"
      using in_range [of k r] Cons.prems(3) [of k r] sound by (auto simp: row_sound_def)
  qed
  then have undo: "bind_s (unreserve got amount) (\<lambda>_. return_s False) ms = (Inr False, msu)"
    "\<forall>i. dict_get msu i = dict_get ms0 i"
    using u(1) by (simp_all add: bind_s_def return_s_def)
  show ?case
  proof (cases "dict_get ms j")
    case None
    with undo show ?thesis by simp
  next
    case (Some r)
    have r0: "dict_get ms0 j = Some r" using Some Cons.prems(1,2) by (auto simp: shift_def)
    show ?thesis
    proof (cases "fits a r")
      case False
      with Some undo reserve_row_amount_exact [OF sound [OF r0] a] show ?thesis by (auto simp: fits_def)
    next
      case True
      then have amt: "reserve_row_amount amount r = Inr (Some (fmt_cents (reserved_c r + a)))"
        using reserve_row_amount_exact [OF sound [OF r0] a] by (simp add: fits_def)
      let ?ms = "dict_set j (move_reserved a r) ms"
      have step: "reserve_loop amount got (j # js) ms = reserve_loop amount (got @ [j]) js ?ms"
        using True by (simp add: Some amt reserve_cas_def fits_def move_reserved_def)
      have "shift (set (got @ [j])) a ms0 ?ms"
        using shift_trans [OF Cons.prems(1) Some] Cons.prems(2) by simp
      then show ?thesis
        using Cons.IH [of "got @ [j]" ?ms] Cons.prems True r0 unfolding step by fastforce
    qed
  qed
qed

section \<open>Settling the chain\<close>

definition settle_amounts :: "cents \<Rightarrow> mandate_rec \<Rightarrow> mandate_rec" where
  "settle_amounts a r = r\<lparr>mr_reserved := fmt_cents (reserved_c r - a), mr_spent := fmt_cents (spent_c r + a),
     mr_txn_count := mr_txn_count r + 1,
     mr_status := (if budget_c r \<le> spent_c r + a then ''exhausted'' else mr_status r)\<rparr>"

lemma settled_row_exact:
  assumes "row_sound r" "money_dec amount = Inr a" "0 \<le> a" "a \<le> reserved_c r"
  shows "settled_row amount r = Inr (settle_amounts a r)"
proof -
  note b = row_sound_bounds [OF assms(1)]
  have bud: "row_budget r = Inr (budget_c r)" using assms(1) by (simp add: row_sound_def)
  have small: "\<bar>reserved_c r - a\<bar> < cents_limit" "0 \<le> reserved_c r - a" "reserved_c r - a < cents_limit"
    "\<bar>spent_c r + a\<bar> < cents_limit"
    using b assms(3,4) by (auto simp: valid_cents_def)
  show ?thesis
    by (simp add: settled_row_def b assms(2) bud dec_sub_cents [OF small(1)] dec_add_cents_small [OF small(4)]
        money_fmt_max [OF small(2,3)] money_fmt_cents [OF small(4)] Let_def settle_amounts_def)
qed

lemma settle_amounts_sound:
  assumes "row_sound r" "0 \<le> a" "a \<le> reserved_c r"
  shows "row_sound (settle_amounts a r)" "reserved_c (settle_amounts a r) = reserved_c r - a"
proof -
  note b = row_sound_bounds [OF assms(1)]
  have small: "\<bar>reserved_c r - a\<bar> < cents_limit" "\<bar>spent_c r + a\<bar> < cents_limit" using b assms(2,3) by (auto simp: valid_cents_def)
  show res: "reserved_c (settle_amounts a r) = reserved_c r - a" using small by (simp add: settle_amounts_def reserved_c_def)
  have "spent_c (settle_amounts a r) = spent_c r + a" using small by (simp add: settle_amounts_def spent_c_def)
  moreover have "row_budget (settle_amounts a r) = row_budget r" by (simp add: row_budget_def settle_amounts_def)
  ultimately show "row_sound (settle_amounts a r)"
    using assms res by (simp add: row_sound_def budget_c_def) (simp add: settle_amounts_def)
qed

lemma settle_loop_result:
  assumes a: "money_dec amount = Inr a" "0 \<le> a" and "distinct js"
    and "\<And>j r. j \<in> set js \<Longrightarrow> dict_get ms j = Some r \<Longrightarrow> row_sound r \<and> a \<le> reserved_c r"
  shows "\<exists>ms'. settle_loop amount js ms = (Inr (), ms') \<and>
    (\<forall>j. dict_get ms' j = map_option (\<lambda>r. if j \<in> set js then settle_amounts a r else r) (dict_get ms j))"
  using assms(3,4)
proof (induction js arbitrary: ms)
  case Nil
  then show ?case by (simp add: option.map_ident)
next
  case (Cons j js)
  show ?case
  proof (cases "dict_get ms j")
    case None
    with Cons.IH [of ms] Cons.prems obtain ms' where ms': "settle_loop amount js ms = (Inr (), ms')"
      "\<forall>j. dict_get ms' j = map_option (\<lambda>r. if j \<in> set js then settle_amounts a r else r) (dict_get ms j)" by auto
    have "dict_get ms' i = map_option (\<lambda>r. if i \<in> set (j # js) then settle_amounts a r else r) (dict_get ms i)" for i
      using ms' None by (cases "i = j") simp_all
    with ms' None show ?thesis by simp
  next
    case (Some r)
    let ?ms = "dict_set j (settle_amounts a r) ms"
    have step: "settle_loop amount (j # js) ms = settle_loop amount js ?ms"
      using settled_row_exact [of r amount a] a Cons.prems(2) [of j r] Some by simp
    have "\<exists>ms'. settle_loop amount js ?ms = (Inr (), ms') \<and>
      (\<forall>i. dict_get ms' i = map_option (\<lambda>r. if i \<in> set js then settle_amounts a r else r) (dict_get ?ms i))"
    proof (rule Cons.IH)
      fix i q
      assume i: "i \<in> set js" "dict_get ?ms i = Some q"
      then have "i \<noteq> j" using Cons.prems(1) by auto
      with i Cons.prems(2) [of i q] show "row_sound q \<and> a \<le> reserved_c q" by simp
    qed (use Cons.prems(1) in simp)
    then show ?thesis using Some Cons.prems(1) unfolding step by auto
  qed
qed

section \<open>The chain does not move\<close>

text \<open>The parent and the signed claims of a mandate never change.\<close>

definition same_tree :: "mandates \<Rightarrow> mandates \<Rightarrow> bool" where
  "same_tree ms ms' \<longleftrightarrow>
     (\<forall>j. map_option (\<lambda>r. (mr_parent r, mr_claims r)) (dict_get ms' j) = map_option (\<lambda>r. (mr_parent r, mr_claims r)) (dict_get ms j))"

lemma same_tree_chain_from: "same_tree ms ms' \<Longrightarrow> chain_from ms' seen cur = chain_from ms seen cur"
proof (induction ms seen cur rule: chain_from.induct)
  case (1 ms seen cur)
  show ?case
  proof (cases cur)
    case None
    then show ?thesis by (simp add: chain_from.simps)
  next
    case (Some c)
    have "(case dict_get ms' c of None \<Rightarrow> None | Some r \<Rightarrow> mr_parent r) = (case dict_get ms c of None \<Rightarrow> None | Some r \<Rightarrow> mr_parent r)"
      using 1(2) unfolding same_tree_def by (auto split: option.splits dest: spec [of _ c])
    with 1(1) [OF Some] 1(2) Some show ?thesis
      by (subst (1 2) chain_from.simps) simp
  qed
qed

lemma same_tree_chain: "same_tree ms ms' \<Longrightarrow> mandate_chain ms' = mandate_chain ms"
  by (simp add: mandate_chain_def fun_eq_iff same_tree_chain_from)

lemma chain_from_distinct: "distinct seen \<Longrightarrow> distinct (chain_from ms seen cur)"
proof (induction ms seen cur rule: chain_from.induct)
  case (1 ms seen cur)
  then show ?case by (subst chain_from.simps) (auto split: option.splits)
qed

lemma mandate_chain_distinct [simp]: "distinct (mandate_chain ms jti)"
  by (simp add: mandate_chain_def chain_from_distinct)

lemma shift_same_tree: "shift J a ms ms' \<Longrightarrow> same_tree ms ms'"
  by (auto simp: shift_def same_tree_def move_reserved_def option.map_comp comp_def intro!: option.map_cong)

section \<open>The budget invariant\<close>

text \<open>
  The reservations that are open, with the mandate they were made for. A row owes the sum of those whose
  chain goes through it.
\<close>

type_synonym open_reservations = "(string \<times> cents) list"

definition owed :: "mandates \<Rightarrow> open_reservations \<Rightarrow> string \<Rightarrow> cents" where
  "owed ms out j = sum_list (map (\<lambda>(i, a). if j \<in> set (mandate_chain ms i) then a else 0) out)"

definition ledger_sound :: "mandates \<Rightarrow> open_reservations \<Rightarrow> bool" where
  "ledger_sound ms out \<longleftrightarrow> (\<forall>(i, a) \<in> set out. 0 \<le> a)
     \<and> (\<forall>j r. dict_get ms j = Some r \<longrightarrow> row_sound r \<and> reserved_c r = owed ms out j)"

lemma owed_simps [simp]:
  "owed ms [] j = 0" "owed ms ((i, a) # out) j = (if j \<in> set (mandate_chain ms i) then a else 0) + owed ms out j"
  by (simp_all add: owed_def)

lemma owed_nonneg: "\<forall>(i, a) \<in> set out. 0 \<le> a \<Longrightarrow> 0 \<le> owed ms out j"
  by (induction out) auto

lemma owed_remove:
  "(i, a) \<in> set out \<Longrightarrow> owed ms (remove1 (i, a) out) j = owed ms out j - (if j \<in> set (mandate_chain ms i) then a else 0)"
  by (induction out) auto

lemma owed_ge:
  assumes "(i, a) \<in> set out" "\<forall>(i, a) \<in> set out. 0 \<le> a" "j \<in> set (mandate_chain ms i)"
  shows "a \<le> owed ms out j"
proof -
  have "0 \<le> owed ms (remove1 (i, a) out) j" using assms(2) by (intro owed_nonneg) (auto dest: set_remove1_subset [THEN subsetD])
  with owed_remove [OF assms(1), of ms j] assms(3) show ?thesis by simp
qed

lemma owed_same_tree: "same_tree ms ms' \<Longrightarrow> owed ms' out = owed ms out"
  by (simp add: owed_def fun_eq_iff same_tree_chain)

lemma move_reserved_sound:
  assumes "row_sound r" "0 \<le> reserved_c r + a" "spent_c r + reserved_c r + a \<le> max 0 (budget_c r)"
  shows "row_sound (move_reserved a r)" "reserved_c (move_reserved a r) = reserved_c r + a"
proof -
  note b = row_sound_bounds [OF assms(1)]
  have "\<bar>budget_c r\<bar> < cents_limit" using budget_c_bound assms(1) by (auto simp: row_sound_def)
  then have "\<bar>reserved_c r + a\<bar> < cents_limit" using b assms by (auto simp: valid_cents_def)
  then show res: "reserved_c (move_reserved a r) = reserved_c r + a" by (simp add: move_reserved_def)
  have "row_budget (move_reserved a r) = row_budget r" "spent_c (move_reserved a r) = spent_c r"
    by (simp_all add: row_budget_def move_reserved_def spent_c_def)
  with assms res show "row_sound (move_reserved a r)"
    by (simp add: row_sound_def budget_c_def) (simp add: move_reserved_def)
qed

lemma ledger_sound_cong:
  assumes "ledger_sound ms out" "\<And>j. dict_get ms' j = dict_get ms j"
  shows "ledger_sound ms' out"
proof -
  have "same_tree ms ms'" using assms(2) by (simp add: same_tree_def)
  from owed_same_tree [OF this] assms show ?thesis by (simp add: ledger_sound_def)
qed

lemma ledger_soundD:
  assumes "ledger_sound ms out" "dict_get ms j = Some r"
  shows "row_sound r" "reserved_c r = owed ms out j"
  using assms by (auto simp: ledger_sound_def)

lemma reserve_chain_sound:
  assumes inv: "ledger_sound ms out" and a: "money_dec amount = Inr a" "0 \<le> a"
  shows "(\<exists>ms'. reserve_chain jti amount ms = (Inr True, ms') \<and> ledger_sound ms' ((jti, a) # out) \<and> same_tree ms ms'
       \<and> (\<forall>j \<in> set (mandate_chain ms jti). \<exists>r. dict_get ms j = Some r \<and> fits a r))
    \<or> (\<exists>ms'. reserve_chain jti amount ms = (Inr False, ms') \<and> (\<forall>j. dict_get ms' j = dict_get ms j))"
proof -
  let ?js = "mandate_chain ms jti"
  have sound: "row_sound r" if "dict_get ms j = Some r" for j r using ledger_soundD(1) [OF inv that] .
  have start: "shift (set []) a ms ms" by (simp add: shift_def option.map_ident)
  have "(\<exists>ms'. reserve_loop amount [] ?js ms = (Inr True, ms') \<and> shift (set ([] @ ?js)) a ms ms'
       \<and> (\<forall>j \<in> set ?js. \<exists>r. dict_get ms j = Some r \<and> fits a r))
    \<or> (\<exists>ms'. reserve_loop amount [] ?js ms = (Inr False, ms') \<and> (\<forall>j. dict_get ms' j = dict_get ms j))"
    by (rule reserve_loop_result [OF a sound start]) simp_all
  then show ?thesis
  proof (elim disjE)
    assume "\<exists>ms'. reserve_loop amount [] ?js ms = (Inr True, ms') \<and> shift (set ([] @ ?js)) a ms ms'
       \<and> (\<forall>j \<in> set ?js. \<exists>r. dict_get ms j = Some r \<and> fits a r)"
    then obtain ms' where run: "reserve_loop amount [] ?js ms = (Inr True, ms')" and sh: "shift (set ?js) a ms ms'"
      and fit: "\<forall>j \<in> set ?js. \<exists>r. dict_get ms j = Some r \<and> fits a r" by auto
    note tree = shift_same_tree [OF sh]
    have "row_sound r \<and> reserved_c r = owed ms' ((jti, a) # out) j" if r: "dict_get ms' j = Some r" for j r
    proof -
      from r sh obtain r0 where r0: "dict_get ms j = Some r0" "r = (if j \<in> set ?js then move_reserved a r0 else r0)"
        by (auto simp: shift_def)
      note s0 = ledger_soundD [OF inv r0(1)]
      have "j \<in> set ?js \<Longrightarrow> fits a r0" using fit r0(1) by force
      then have "j \<in> set ?js \<Longrightarrow> row_sound r \<and> reserved_c r = reserved_c r0 + a"
        using r0(2) move_reserved_sound [OF s0(1), of a] a(2) s0(1) by (auto simp: fits_def row_sound_def)
      then show ?thesis using s0 r0(2) by (auto simp: owed_same_tree [OF tree] same_tree_chain [OF tree])
    qed
    then have "ledger_sound ms' ((jti, a) # out)" using inv a(2) by (auto simp: ledger_sound_def)
    with run tree fit show ?thesis by (auto simp: reserve_chain_def)
  qed (auto simp: reserve_chain_def)
qed

lemma release_chain_sound:
  assumes inv: "ledger_sound ms out" and a: "money_dec amount = Inr a" and mem: "(jti, a) \<in> set out"
  shows "\<exists>ms'. release_chain jti amount ms = (Inr (), ms') \<and> ledger_sound ms' (remove1 (jti, a) out) \<and> same_tree ms ms'"
proof -
  let ?js = "mandate_chain ms jti"
  have pos: "\<forall>(i, a) \<in> set out. 0 \<le> a" "0 \<le> a" using inv mem by (auto simp: ledger_sound_def)
  have le: "a \<le> reserved_c r" if "j \<in> set ?js" "dict_get ms j = Some r" for j r
    using owed_ge [OF mem pos(1) that(1)] ledger_soundD(2) [OF inv that(2)] by simp
  have "\<exists>ms'. unreserve ?js amount ms = (Inr (), ms') \<and> shift (set ?js) (- a) ms ms'"
    using le row_sound_bounds [OF ledger_soundD(1) [OF inv]] ledger_soundD(1) [OF inv]
    by (intro unreserve_shift [OF a pos(2)]) (auto simp: row_sound_def valid_cents_def)
  then obtain ms' where run: "unreserve ?js amount ms = (Inr (), ms')" and sh: "shift (set ?js) (- a) ms ms'" by blast
  note tree = shift_same_tree [OF sh]
  have "row_sound r \<and> reserved_c r = owed ms' (remove1 (jti, a) out) j" if r: "dict_get ms' j = Some r" for j r
  proof -
    from r sh obtain r0 where r0: "dict_get ms j = Some r0" "r = (if j \<in> set ?js then move_reserved (- a) r0 else r0)"
      by (auto simp: shift_def)
    note s0 = ledger_soundD [OF inv r0(1)]
    have "j \<in> set ?js \<Longrightarrow> row_sound r \<and> reserved_c r = reserved_c r0 - a"
      using r0(2) move_reserved_sound [OF s0(1), of "- a"] le [OF _ r0(1)] s0(1) pos(2) by (auto simp: row_sound_def)
    then show ?thesis using s0 r0(2) by (auto simp: owed_same_tree [OF tree] owed_remove [OF mem])
  qed
  then have "ledger_sound ms' (remove1 (jti, a) out)"
    using pos(1) by (auto simp: ledger_sound_def dest: set_remove1_subset [THEN subsetD])
  with run tree show ?thesis by (auto simp: release_chain_def)
qed

lemma settle_chain_sound:
  assumes inv: "ledger_sound ms out" and a: "money_dec amount = Inr a" and mem: "(jti, a) \<in> set out"
  shows "\<exists>ms'. settle_chain jti amount ms = (Inr (), ms') \<and> ledger_sound ms' (remove1 (jti, a) out) \<and> same_tree ms ms'"
proof -
  let ?js = "mandate_chain ms jti"
  have pos: "\<forall>(i, a) \<in> set out. 0 \<le> a" "0 \<le> a" using inv mem by (auto simp: ledger_sound_def)
  have le: "a \<le> reserved_c r" if "j \<in> set ?js" "dict_get ms j = Some r" for j r
    using owed_ge [OF mem pos(1) that(1)] ledger_soundD(2) [OF inv that(2)] by simp
  have "\<exists>ms'. settle_loop amount ?js ms = (Inr (), ms') \<and>
    (\<forall>j. dict_get ms' j = map_option (\<lambda>r. if j \<in> set ?js then settle_amounts a r else r) (dict_get ms j))"
    using le ledger_soundD(1) [OF inv] by (intro settle_loop_result [OF a pos(2)]) auto
  then obtain ms' where run: "settle_loop amount ?js ms = (Inr (), ms')"
    and get: "\<And>j. dict_get ms' j = map_option (\<lambda>r. if j \<in> set ?js then settle_amounts a r else r) (dict_get ms j)" by blast
  have tree: "same_tree ms ms'"
    unfolding same_tree_def get by (auto simp: settle_amounts_def option.map_comp comp_def intro!: option.map_cong)
  have "row_sound r \<and> reserved_c r = owed ms' (remove1 (jti, a) out) j" if r: "dict_get ms' j = Some r" for j r
  proof -
    from r obtain r0 where r0: "dict_get ms j = Some r0" "r = (if j \<in> set ?js then settle_amounts a r0 else r0)"
      by (auto simp: get)
    note s0 = ledger_soundD [OF inv r0(1)]
    have "j \<in> set ?js \<Longrightarrow> row_sound r \<and> reserved_c r = reserved_c r0 - a"
      using r0(2) settle_amounts_sound [OF s0(1) pos(2)] le [OF _ r0(1)] by simp
    then show ?thesis using s0 r0(2) by (auto simp: owed_same_tree [OF tree] owed_remove [OF mem])
  qed
  then have "ledger_sound ms' (remove1 (jti, a) out)"
    using pos(1) by (auto simp: ledger_sound_def dest: set_remove1_subset [THEN subsetD])
  with run tree show ?thesis by (auto simp: settle_chain_def)
qed

end
