(* ===== verification/Agent_Saga.thy ===== *)
theory Agent_Saga
  imports Agent_Ledger
begin

text \<open>
  The verification of an intent and the purchase saga of \<^verbatim>\<open>src/src/agent/kernel.py\<close>, the opening of an
  escalation (\<^verbatim>\<open>escalation.py\<close>), the merchant port (\<^verbatim>\<open>ports/base.py\<close>) and the in-process merchant with its
  checkout (\<^verbatim>\<open>ports/local.py\<close>, \<^verbatim>\<open>mocks/merchant.py\<close>).
\<close>

section \<open>Merchant ports\<close>

text \<open>The last argument of \<open>mp_settle\<close> is \<^verbatim>\<open>verify_fn\<close>, which reads the live state of the mandate.\<close>

record merchant_port =
  mp_merchant_id :: string
  mp_get :: "pyval \<Rightarrow> (agent_db, pydict option) sres"
  mp_settle :: "pydict \<Rightarrow> pydict \<Rightarrow> string option \<Rightarrow> pydict \<Rightarrow> string \<Rightarrow> (agent_db \<Rightarrow> pydict) \<Rightarrow> (agent_db, pydict) sres"

type_synonym ports = "(string, merchant_port) dict"

definition merchant_for :: "ports \<Rightarrow> pyval \<Rightarrow> merchant_port res" where
  "merchant_for ps key =
     (case key of
        PNone \<Rightarrow> (case ps of [] \<Rightarrow> Inl StopIteration | (k, p) # _ \<Rightarrow> Inr p)
      | PStr s \<Rightarrow> (case dict_get ps s of Some p \<Rightarrow> Inr p | None \<Rightarrow> Inl KeyError)
      | _ \<Rightarrow> Inl KeyError)"

section \<open>Verification\<close>

record verify_result =
  vr_decision :: string
  vr_reason :: "string option"
  vr_detail :: string
  vr_diff :: pydict
  vr_reservation :: "string option"

definition text_item :: "pydict \<Rightarrow> string \<Rightarrow> string res" where
  "text_item m k = bind_res (item m k) as_text"

definition int_item :: "pydict \<Rightarrow> string \<Rightarrow> int res" where
  "int_item m k = bind_res (item m k) py_int"

definition refuse :: "agent_env \<Rightarrow> string option \<Rightarrow> string \<Rightarrow> string \<Rightarrow> (agent_db, verify_result) sres" where
  "refuse ev mandate_jti code detail =
     bind_s (log_event ev (entry ''purchase.refused'' [(''reason_code'', PStr code), (''detail'', PStr detail)]
               None None None mandate_jti)) (\<lambda>_.
     return_s \<lparr>vr_decision = REJECTED, vr_reason = Some code, vr_detail = detail, vr_diff = [], vr_reservation = None\<rparr>)"

text \<open>The reservation and its records, after the gate approved.\<close>

definition insert_intent :: "intent_rec \<Rightarrow> (agent_db, unit) sres" where
  "insert_intent i db =
     (if list_ex (\<lambda>k. ir_jti k = ir_jti i \<or> ir_nonce k = ir_nonce i) (db_intents db) then (Inl DatabaseError, db)
      else (Inr (), db\<lparr>db_intents := db_intents db @ [i]\<rparr>))"

definition verify_reserve ::
  "agent_env \<Rightarrow> pydict \<Rightarrow> string \<Rightarrow> pydict \<Rightarrow> string \<Rightarrow> (agent_db, verify_result) sres" where
  "verify_reserve ev claims jti intent sig =
     bind_s (lift_res (item intent ''amount'')) (\<lambda>amount.
     bind_s (on_mandates (reserve_chain jti amount)) (\<lambda>ok.
     if \<not> ok
     then refuse ev (Some jti) ''BUDGET_EXCEEDED''
            ''mandate state changed during the check, or an ancestor mandate cannot cover it''
     else
       bind_s (new_id ev ''rsv'') (\<lambda>rsv.
       bind_s (lift_res (text_item intent ''jti'')) (\<lambda>ijti.
       bind_s (lift_res (text_item intent ''nonce'')) (\<lambda>nonce.
       bind_s (lift_res (text_item claims ''agent'')) (\<lambda>agent.
       bind_s (insert_intent \<lparr>ir_jti = ijti, ir_mandate = jti, ir_agent = PStr agent, ir_nonce = nonce,
                 ir_intent = intent, ir_signature = sig, ir_status = ''reserved''\<rparr>) (\<lambda>_.
       bind_s (lift_res (item intent ''offer_id'')) (\<lambda>offer_id.
       bind_s (log_event ev (entry ''purchase.verified''
                 [(''intent_jti'', PStr ijti), (''reservation_id'', PStr rsv), (''amount'', amount), (''offer_id'', offer_id)]
                 None (Some agent) None (Some jti))) (\<lambda>_.
       return_s \<lparr>vr_decision = APPROVED, vr_reason = None, vr_detail = '''', vr_diff = [],
                 vr_reservation = Some rsv\<rparr>)))))))))"

text \<open>Check 3: the offer as the merchant has it now, the price, and the gate.\<close>

definition verify_inside ::
  "agent_env \<Rightarrow> ports \<Rightarrow> pydict \<Rightarrow> string \<Rightarrow> mandate_rec \<Rightarrow> pydict \<Rightarrow> string \<Rightarrow> int \<Rightarrow> bool \<Rightarrow> (agent_db, verify_result) sres" where
  "verify_inside ev ps claims jti row intent sig now reserve =
     either_s
       (bind_s (lift_res (item intent ''merchant_id'')) (\<lambda>mid.
        bind_s (lift_res (merchant_for ps mid)) (\<lambda>port.
        bind_s (lift_res (item intent ''offer_id'')) (mp_get port))))
       (\<lambda>e. if e = KeyError
            then bind_s (lift_res (item intent ''merchant_id'')) (\<lambda>mid.
                 refuse ev (Some jti) ''MERCHANT_NOT_ALLOWED'' (''no merchant registered as '' @ py_repr mid))
            else raise_s e)
       (\<lambda>found.
        case found of
          None \<Rightarrow> refuse ev (Some jti) ''RAIL_ERROR'' ''offer withdrawn''
        | Some offer \<Rightarrow>
            bind_s (lift_res (item intent ''amount'')) (\<lambda>amount.
            bind_s (lift_res (money_fmt amount)) (\<lambda>want.
            bind_s (lift_res (item offer ''price'')) (\<lambda>price.
            bind_s (lift_res (money_fmt price)) (\<lambda>have_price.
            if want \<noteq> have_price
            then refuse ev (Some jti) ''AMOUNT_MISMATCH'' (''intent '' @ py_str amount @ '' != catalog '' @ py_str price)
            else
              bind_s (lift_res (agent_gate ev claims intent offer
                 \<lparr>sp_spent = mr_spent row, sp_reserved = mr_reserved row, sp_txn_count = mr_txn_count row\<rparr> now)) (\<lambda>d.
              if gd_decision d \<noteq> APPROVED \<or> \<not> reserve
              then
                bind_s (lift_res (item intent ''jti'')) (\<lambda>ijti.
                bind_s (lift_res (text_item claims ''agent'')) (\<lambda>agent.
                bind_s (log_event ev (entry ''purchase.gated'' ((''intent_jti'', ijti) # decision_dict d)
                          None (Some agent) None (Some jti))) (\<lambda>_.
                return_s \<lparr>vr_decision = gd_decision d, vr_reason = gd_reason d, vr_detail = gd_detail d,
                          vr_diff = gd_diff d, vr_reservation = None\<rparr>)))
              else verify_reserve ev claims jti intent sig))))))"

text \<open>Check 2: the mandate and its ancestors are alive.\<close>

definition dead_ancestor :: "mandates \<Rightarrow> string \<Rightarrow> (string \<times> string) option" where
  "dead_ancestor ms jti =
     (case filter (\<lambda>j. case dict_get ms j of Some r \<Rightarrow> mr_status r \<noteq> ''active'' | None \<Rightarrow> False) (tl (mandate_chain ms jti)) of
        [] \<Rightarrow> None
      | j # _ \<Rightarrow> Some (j, case dict_get ms j of Some r \<Rightarrow> mr_status r | None \<Rightarrow> ''''))"

definition set_status :: "string \<Rightarrow> string \<Rightarrow> agent_db \<Rightarrow> agent_db" where
  "set_status jti st db =
     (case dict_get (db_mandates db) jti of
        Some r \<Rightarrow> db\<lparr>db_mandates := dict_set jti (r\<lparr>mr_status := st\<rparr>) (db_mandates db)\<rparr>
      | None \<Rightarrow> db)"

definition verify_alive ::
  "agent_env \<Rightarrow> ports \<Rightarrow> pydict \<Rightarrow> string \<Rightarrow> pydict \<Rightarrow> string \<Rightarrow> int \<Rightarrow> bool \<Rightarrow> (agent_db, verify_result) sres" where
  "verify_alive ev ps claims jti intent sig now reserve =
     bind_s (get_s db_mandates) (\<lambda>ms.
     case dict_get ms jti of
       None \<Rightarrow> refuse ev (Some jti) ''MANDATE_REVOKED'' ''unknown mandate''
     | Some row \<Rightarrow>
         if mr_status row = ''revoked'' then refuse ev (Some jti) ''MANDATE_REVOKED'' ''revoked by the holder''
         else
           (case dead_ancestor ms jti of
              Some (j, st) \<Rightarrow> refuse ev (Some jti) ''MANDATE_REVOKED'' (''parent mandate '' @ j @ '' is '' @ st)
            | None \<Rightarrow>
                if mr_status row = ''suspended'' then refuse ev (Some jti) ''MANDATE_SUSPENDED'' ''suspended''
                else if mr_status row = ''exhausted'' then refuse ev (Some jti) ''MANDATE_EXHAUSTED'' ''no budget left''
                else
                  bind_s (lift_res (int_item claims ''nbf'')) (\<lambda>nbf.
                  if now < nbf then refuse ev (Some jti) ''MANDATE_NOT_YET_VALID'' ''not valid yet''
                  else
                    bind_s (lift_res (int_item claims ''exp'')) (\<lambda>exp_ts.
                    if now > exp_ts
                    then bind_s (modify_s (set_status jti ''expired'')) (\<lambda>_.
                         refuse ev (Some jti) ''MANDATE_EXPIRED'' ''past its validity window'')
                    else verify_inside ev ps claims jti row intent sig now reserve))))"

text \<open>Check 1: signatures, the binding of the intent, its freshness, and replay.\<close>

definition agent_verify ::
  "agent_env \<Rightarrow> ports \<Rightarrow> string option \<Rightarrow> pydict \<Rightarrow> string \<Rightarrow> bool \<Rightarrow> (agent_db, verify_result) sres" where
  "agent_verify ev ps token intent sig reserve =
     either_s (lift_res (ev_verify_token ev token))
       (\<lambda>e. if e = BadSignature then refuse ev None ''INVALID_SIGNATURE'' (ev_exn_text ev e) else raise_s e)
       (\<lambda>claims.
     either_s (lift_res (ev_verify_detached ev sig intent claims))
       (\<lambda>e. if e = BadSignature
            then bind_s (lift_res (text_item claims ''jti'')) (\<lambda>jti.
                 refuse ev (Some jti) ''INVALID_PROOF_OF_POSSESSION'' (ev_exn_text ev e))
            else raise_s e)
       (\<lambda>_.
     bind_s (lift_res (text_item claims ''jti'')) (\<lambda>jti.
     if dict_get_or intent ''mandate_jti'' PNone \<noteq> PStr jti
     then refuse ev (Some jti) ''INVALID_PROOF_OF_POSSESSION'' ''intent does not name this mandate''
     else
       bind_s (now_ts ev) (\<lambda>now.
       bind_s (lift_res (int_item intent ''exp'')) (\<lambda>exp_ts.
       bind_s (lift_res (int_item intent ''iat'')) (\<lambda>iat.
       if exp_ts - iat > INTENT_TTL_S
       then refuse ev (Some jti) ''INVALID_SIGNATURE'' (''intent lifetime over '' @ int_str INTENT_TTL_S @ ''s'')
       else if now > exp_ts then refuse ev (Some jti) ''INVALID_SIGNATURE'' ''intent expired''
       else
         bind_s (lift_res (text_item intent ''jti'')) (\<lambda>ijti.
         bind_s (lift_res (text_item intent ''nonce'')) (\<lambda>nonce.
         bind_s (get_s (\<lambda>db. list_ex (\<lambda>k. ir_jti k = ijti \<or> ir_nonce k = nonce) (db_intents db))) (\<lambda>seen.
         if seen then refuse ev (Some jti) ''DUPLICATE_JTI'' ''intent id or nonce reused''
         else verify_alive ev ps claims jti intent sig now reserve)))))))))"

section \<open>The saga\<close>

record saga_result =
  sr_status :: string
  sr_purchase :: "string option"
  sr_reason :: "string option"
  sr_detail :: string
  sr_escalation :: "string option"
  sr_receipt :: "pyval option"

definition rejected_result :: "string option \<Rightarrow> string \<Rightarrow> string \<Rightarrow> saga_result" where
  "rejected_result pid code detail =
     \<lparr>sr_status = ''rejected'', sr_purchase = pid, sr_reason = Some code, sr_detail = detail,
      sr_escalation = None, sr_receipt = None\<rparr>"

definition update_purchase_row :: "string \<Rightarrow> (agent_purchase \<Rightarrow> agent_purchase) \<Rightarrow> (agent_db, unit) sres" where
  "update_purchase_row pid f =
     modify_s (\<lambda>db. case dict_get (db_purchases db) pid of
       Some p \<Rightarrow> db\<lparr>db_purchases := dict_set pid (f p) (db_purchases db)\<rparr> | None \<Rightarrow> db)"

definition insert_purchase :: "string \<Rightarrow> agent_purchase \<Rightarrow> (agent_db, unit) sres" where
  "insert_purchase pid p db =
     (if dict_get (db_purchases db) pid \<noteq> None then (Inl DatabaseError, db)
      else (Inr (), db\<lparr>db_purchases := dict_set pid p (db_purchases db)\<rparr>))"

definition build_intent :: "agent_env \<Rightarrow> string \<Rightarrow> string \<Rightarrow> pydict \<Rightarrow> (agent_db, pydict) sres" where
  "build_intent ev mandate_jti agent_id offer =
     bind_s (now_ts ev) (\<lambda>issued.
     bind_s (lift_res (item offer ''merchant_id'')) (\<lambda>mid.
     bind_s (lift_res (item offer ''offer_id'')) (\<lambda>oid.
     bind_s (lift_res (bind_res (item offer ''price'') money_fmt)) (\<lambda>amount.
     bind_s (lift_res (item offer ''currency'')) (\<lambda>cur.
     bind_s (new_nonce ev) (\<lambda>nonce.
     bind_s (new_id ev ''int'') (\<lambda>jti.
     return_s [(''typ'', PStr ''purchase_intent_v1''), (''mandate_jti'', PStr mandate_jti), (''agent'', PStr agent_id),
               (''merchant_id'', mid), (''offer_id'', oid), (''amount'', PStr amount), (''currency'', cur),
               (''nonce'', PStr nonce), (''jti'', PStr jti), (''iat'', PInt issued),
               (''exp'', PInt (issued + INTENT_TTL_S))])))))))"

definition compensate ::
  "agent_env \<Rightarrow> string \<Rightarrow> pydict \<Rightarrow> string \<Rightarrow> pydict \<Rightarrow> string \<Rightarrow> string \<Rightarrow> string option \<Rightarrow> (agent_db, saga_result) sres" where
  "compensate ev pid claims jti intent code detail run =
     bind_s (lift_res (item intent ''amount'')) (\<lambda>amount.
     bind_s (on_mandates (release_chain jti amount)) (\<lambda>_.
     bind_s (update_purchase_row pid (\<lambda>p. p\<lparr>ap_status := ''compensated'', ap_reason := Some code\<rparr>)) (\<lambda>_.
     bind_s (lift_res (text_item claims ''agent'')) (\<lambda>agent.
     bind_s (log_event ev (entry ''purchase.compensated''
               [(''purchase_id'', PStr pid), (''reason_code'', PStr code), (''detail'', PStr detail)]
               None (Some agent) run (Some jti))) (\<lambda>_.
     return_s (rejected_result (Some pid) code detail))))))"

text \<open>\<^verbatim>\<open>live_state\<close> of \<^verbatim>\<open>_charge\<close>\<close>

definition live_state :: "string \<Rightarrow> string option \<Rightarrow> agent_db \<Rightarrow> pydict" where
  "live_state jti rsv db =
     (case dict_get (db_mandates db) jti of
        Some r \<Rightarrow>
          if mr_status r = ''active'' then [(''decision'', PStr APPROVED), (''reservation_id'', opt_str rsv)]
          else [(''decision'', PStr REJECTED), (''reason_code'', PStr ''MANDATE_REVOKED'')]
      | None \<Rightarrow> [(''decision'', PStr REJECTED), (''reason_code'', PStr ''MANDATE_REVOKED'')])"

definition capture_purchase ::
  "agent_env \<Rightarrow> string \<Rightarrow> pydict \<Rightarrow> string \<Rightarrow> pydict \<Rightarrow> pydict \<Rightarrow> string option \<Rightarrow> (agent_db, saga_result) sres" where
  "capture_purchase ev pid claims jti intent result run =
     bind_s (lift_res (item intent ''amount'')) (\<lambda>amount.
     bind_s (on_mandates (settle_chain jti amount)) (\<lambda>_.
     bind_s (lift_res (item result ''receipt'')) (\<lambda>receipt.
     bind_s (update_purchase_row pid (\<lambda>p. p\<lparr>ap_status := ''captured'', ap_receipt := Some receipt\<rparr>)) (\<lambda>_.
     bind_s (lift_res (text_item intent ''jti'')) (\<lambda>ijti.
     bind_s (modify_s (\<lambda>db. db\<lparr>db_intents := map (\<lambda>k. if ir_jti k = ijti then k\<lparr>ir_status := ''captured''\<rparr> else k) (db_intents db)\<rparr>)) (\<lambda>_.
     bind_s (lift_res (text_item claims ''agent'')) (\<lambda>agent.
     bind_s (log_event ev (entry ''purchase.captured'' [(''purchase_id'', PStr pid), (''receipt'', receipt)]
               None (Some agent) run (Some jti))) (\<lambda>_.
     return_s \<lparr>sr_status = ''captured'', sr_purchase = Some pid, sr_reason = None, sr_detail = '''',
               sr_escalation = None, sr_receipt = Some receipt\<rparr>))))))))"

definition text_or :: "pyval \<Rightarrow> string \<Rightarrow> string" where
  "text_or v d = (if truthy v then py_str v else d)"

text \<open>
  \<^verbatim>\<open>_charge\<close>: the port is found and the offer read again before the \<^verbatim>\<open>try\<close> block; the handlers cover the
  settlement of the port only.
\<close>

definition charge ::
  "agent_env \<Rightarrow> ports \<Rightarrow> string \<Rightarrow> string option \<Rightarrow> pydict \<Rightarrow> pydict \<Rightarrow> string \<Rightarrow> string option \<Rightarrow> string option
   \<Rightarrow> (agent_db, saga_result) sres" where
  "charge ev ps pid token claims intent sig rsv run =
     bind_s (lift_res (text_item claims ''jti'')) (\<lambda>jti.
     bind_s (update_purchase_row pid (\<lambda>p. p\<lparr>ap_status := ''charging'', ap_reservation := rsv\<rparr>)) (\<lambda>_.
     bind_s (lift_res (item intent ''merchant_id'')) (\<lambda>mid.
     bind_s (lift_res (merchant_for ps mid)) (\<lambda>port.
     bind_s (lift_res (item intent ''offer_id'')) (\<lambda>oid.
     bind_s (mp_get port oid) (\<lambda>found.
     let offer = (case found of Some m \<Rightarrow> if m \<noteq> [] then m else [(''offer_id'', oid), (''title'', oid)]
                  | None \<Rightarrow> [(''offer_id'', oid), (''title'', oid)])
     in either_s (mp_settle port offer claims token intent sig (live_state jti rsv))
          (\<lambda>e. case e of
                 RailError code \<Rightarrow> compensate ev pid claims jti intent code (ev_exn_text ev e) run
               | _ \<Rightarrow> compensate ev pid claims jti intent ''RAIL_ERROR'' (take 200 (ev_exn_text ev e)) run)
          (\<lambda>result.
             if \<not> truthy (dict_get_or result ''accepted'' PNone)
             then compensate ev pid claims jti intent (text_or (dict_get_or result ''reason_code'' PNone) ''RAIL_ERROR'')
                    (py_str (dict_get_or result ''detail'' (PStr ''''))) run
             else capture_purchase ev pid claims jti intent result run)))))))"

section \<open>Opening an escalation\<close>

definition insert_escalation :: "string \<Rightarrow> agent_escalation \<Rightarrow> (agent_db, unit) sres" where
  "insert_escalation esc x db =
     (if dict_get (db_escalations db) esc \<noteq> None then (Inl DatabaseError, db)
      else (Inr (), db\<lparr>db_escalations := dict_set esc x (db_escalations db)\<rparr>))"

definition open_escalation ::
  "agent_env \<Rightarrow> string \<Rightarrow> string \<Rightarrow> string option \<Rightarrow> pydict \<Rightarrow> string \<Rightarrow> (agent_db, string) sres" where
  "open_escalation ev pid mandate_jti run diff reason =
     bind_s (get_s (\<lambda>db. map_option mr_agent_id (dict_get (db_mandates db) mandate_jti))) (\<lambda>agent.
     bind_s (get_s (\<lambda>db. case or_str agent None of
               Some a \<Rightarrow> (case dict_get (db_agents db) a of Some ap \<Rightarrow> ap | None \<Rightarrow> None) | None \<Rightarrow> None)) (\<lambda>approver.
     bind_s (guard_escalation ev approver) (\<lambda>_.
     bind_s (new_id ev ''esc'') (\<lambda>esc.
     bind_s (clock ev) (\<lambda>t.
     let timeout_at = iso_seconds (t + seconds (ev_escalation_timeout_s ev))
     in bind_s (insert_escalation esc
          \<lparr>ag_purchase = pid, ag_mandate = mandate_jti, ag_run = run, ag_approver_id = approver, ag_status = ''pending'',
           ag_diff = dict_set ''reason_code'' (PStr reason) diff, ag_timeout_at = timeout_at, ag_decision = None,
           ag_approver = None, ag_channel = None, ag_receipt_sig = None\<rparr>) (\<lambda>_.
        bind_s (log_event ev (entry ''purchase.escalated''
                  [(''purchase_id'', PStr pid), (''escalation_id'', PStr esc), (''reason_code'', PStr reason),
                   (''diff'', PDict diff), (''approver_id'', opt_str approver), (''timeout_at'', PStr timeout_at)]
                  None agent run (Some mandate_jti))) (\<lambda>_.
        return_s esc)))))))"

definition submit_purchase ::
  "agent_env \<Rightarrow> ports \<Rightarrow> pyval \<Rightarrow> string \<Rightarrow> pyval \<Rightarrow> string option \<Rightarrow> (agent_db, saga_result) sres" where
  "submit_purchase ev ps offer_id mandate_jti merchant_id run =
     bind_s (mandate_get mandate_jti) (\<lambda>row.
     either_s (lift_res (merchant_for ps merchant_id))
       (\<lambda>e. if e = KeyError \<or> e = StopIteration
            then return_s (rejected_result None ''MERCHANT_NOT_ALLOWED'' (''no merchant registered as '' @ py_repr merchant_id))
            else raise_s e)
       (\<lambda>port.
     bind_s (mp_get port offer_id) (\<lambda>found.
     case found of
       None \<Rightarrow> return_s (rejected_result None ''RAIL_ERROR'' (''no such offer '' @ py_str offer_id @ '' at '' @ mp_merchant_id port))
     | Some offer \<Rightarrow>
         bind_s (lift_res (text_item (mr_claims row) ''agent'')) (\<lambda>agent.
         bind_s (build_intent ev mandate_jti agent offer) (\<lambda>intent.
         bind_s (lift_res (ev_sign_detached ev intent agent)) (\<lambda>sig.
         bind_s (new_id ev ''pur'') (\<lambda>pid.
         bind_s (lift_res (text_item intent ''jti'')) (\<lambda>ijti.
         bind_s (lift_res (text_item intent ''amount'')) (\<lambda>amount.
         bind_s (insert_purchase pid
            \<lparr>ap_mandate = mandate_jti, ap_intent = ijti, ap_status = ''pending'', ap_reason = None, ap_amount = amount,
             ap_reservation = None, ap_receipt = None\<rparr>) (\<lambda>_.
         bind_s (log_event ev (entry ''purchase.requested''
                   [(''purchase_id'', PStr pid), (''intent_jti'', PStr ijti), (''offer_id'', offer_id), (''amount'', PStr amount),
                    (''merchant_id'', PStr (mp_merchant_id port))] None (Some agent) run (Some mandate_jti))) (\<lambda>_.
         bind_s (agent_verify ev ps (mr_token row) intent sig True) (\<lambda>d.
         if vr_decision d = ESCALATED
         then
           bind_s (update_purchase_row pid (\<lambda>p. p\<lparr>ap_status := ''awaiting_escalation'', ap_reason := vr_reason d\<rparr>)) (\<lambda>_.
           bind_s (open_escalation ev pid mandate_jti run (vr_diff d) (case vr_reason d of Some c \<Rightarrow> c | None \<Rightarrow> '''')) (\<lambda>esc.
           return_s \<lparr>sr_status = ''escalated'', sr_purchase = Some pid, sr_reason = vr_reason d, sr_detail = vr_detail d,
                     sr_escalation = Some esc, sr_receipt = None\<rparr>))
         else if vr_decision d \<noteq> APPROVED
         then
           bind_s (update_purchase_row pid (\<lambda>p. p\<lparr>ap_status := ''rejected'', ap_reason := vr_reason d\<rparr>)) (\<lambda>_.
           bind_s (log_event ev (entry ''purchase.rejected''
                     [(''purchase_id'', PStr pid), (''reason_code'', opt_str (vr_reason d)), (''detail'', PStr (vr_detail d))]
                     None (Some agent) run (Some mandate_jti))) (\<lambda>_.
           return_s \<lparr>sr_status = ''rejected'', sr_purchase = Some pid, sr_reason = vr_reason d, sr_detail = vr_detail d,
                     sr_escalation = None, sr_receipt = None\<rparr>))
         else charge ev ps pid (mr_token row) (mr_claims row) intent sig (vr_reservation d) run))))))))))))"

end
