(* ===== verification/Agent_Merchant.thy ===== *)
theory Agent_Merchant
  imports Agent_Saga
begin

text \<open>
  The in-process merchant: its catalogue and checkout (\<^verbatim>\<open>src/src/agent/mocks/merchant.py\<close>) and its port
  (\<^verbatim>\<open>ports/local.py\<close>), with the common shape of an offer (\<^verbatim>\<open>ports/base.py\<close>).
\<close>

definition MERCHANT_ID :: string where
  "MERCHANT_ID = ''vuelaya''"

definition row_to_offer :: "string \<Rightarrow> offer_row \<Rightarrow> pydict" where
  "row_to_offer oid r =
     [(''offer_id'', PStr oid), (''merchant_id'', PStr (ow_merchant_id r)), (''category'', PStr (ow_category r)),
      (''title'', PStr (ow_title r)), (''price'', PStr (ow_amount r)), (''currency'', PStr (ow_currency r)),
      (''origin'', opt_str (ow_origin r)), (''destination'', opt_str (ow_destination r)),
      (''depart_date'', opt_str (ow_depart_date r)), (''description'', opt_str (ow_description r))]"

definition get_offer :: "pyval \<Rightarrow> (agent_db, pydict option) sres" where
  "get_offer oid =
     bind_s (lift_res (as_text oid)) (\<lambda>o1.
     get_s (\<lambda>db. case dict_get (db_offers db) o1 of
                   Some r \<Rightarrow> if ow_active r then Some (row_to_offer o1 r) else None
                 | None \<Rightarrow> None))"

text \<open>\<^verbatim>\<open>offer_images\<close>: the picture addresses, without duplicates.\<close>

definition add_url :: "pyval \<Rightarrow> pyval list \<Rightarrow> pyval list" where
  "add_url u urls = (case u of PStr s \<Rightarrow> if s \<noteq> [] \<and> PStr s \<notin> set urls then urls @ [PStr s] else urls | _ \<Rightarrow> urls)"

definition offer_images :: "pydict \<Rightarrow> pyval list res" where
  "offer_images raw =
     (let c = dict_get_or raw ''images'' PNone;
          cs = (if is_PStr c then PList [c] else c)
      in bind_res (if truthy cs then py_iter cs else Inr []) (\<lambda>us.
         Inr (add_url (dict_get_or raw ''image_url'' PNone) (add_url (dict_get_or raw ''image'' PNone) (fold add_url us [])))))"

definition normalise_offer :: "string \<Rightarrow> pydict \<Rightarrow> pydict res" where
  "normalise_offer merchant_id raw =
     bind_res (item raw ''offer_id'') (\<lambda>oid.
     bind_res (bind_res (item raw ''price'') money_fmt) (\<lambda>price.
     bind_res (offer_images raw) (\<lambda>images.
     let desc = dict_get_or raw ''description'' PNone
     in Inr [(''offer_id'', PStr (py_str oid)), (''merchant_id'', PStr merchant_id),
             (''category'', dict_get_or raw ''category'' (PStr ''other'')), (''title'', dict_get_or raw ''title'' (PStr '''')),
             (''price'', PStr price), (''currency'', dict_get_or raw ''currency'' (PStr ''USD'')),
             (''origin'', dict_get_or raw ''origin'' PNone), (''destination'', dict_get_or raw ''destination'' PNone),
             (''depart_date'', dict_get_or raw ''depart_date'' PNone),
             (''description'', if truthy desc then desc else PStr ''''), (''images'', PList images),
             (''native'', dict_get_or raw ''native'' (PDict []))])))"

definition set_price :: "agent_env \<Rightarrow> string \<Rightarrow> pyval \<Rightarrow> (agent_db, string) sres" where
  "set_price ev oid amount =
     bind_s (lift_res (money_fmt amount)) (\<lambda>a.
     bind_s (modify_s (\<lambda>db. case dict_get (db_offers db) oid of
               Some r \<Rightarrow> db\<lparr>db_offers := dict_set oid (r\<lparr>ow_amount := a\<rparr>) (db_offers db)\<rparr> | None \<Rightarrow> db)) (\<lambda>_.
     bind_s (log_event ev (entry ''offer.price_changed'' [(''offer_id'', PStr oid), (''price'', PStr a)]
               (Some ''merchant'') None None None)) (\<lambda>_.
     return_s a)))"

definition declined :: "pyval \<Rightarrow> string \<Rightarrow> pydict" where
  "declined code detail = [(''accepted'', PBool False), (''reason_code'', code), (''detail'', PStr detail)]"

text \<open>\<^verbatim>\<open>checkout_charge\<close>: the merchant's own checks, then the live state, then the capture.\<close>

definition checkout_capture ::
  "agent_env \<Rightarrow> pydict \<Rightarrow> pydict \<Rightarrow> pydict \<Rightarrow> pydict \<Rightarrow> (agent_db, pydict) sres" where
  "checkout_capture ev claims intent offer live =
     bind_s (lift_res (text_item claims ''payment_method_ref'')) (\<lambda>ref.
     bind_s (lift_res (item intent ''amount'')) (\<lambda>amount.
     bind_s (lift_res (item intent ''currency'')) (\<lambda>cur.
     bind_s (lift_res (text_item intent ''jti'')) (\<lambda>ijti.
     bind_s (rail_capture ev ref amount cur ijti) (\<lambda>chg.
     bind_s (lift_res (text_item claims ''jti'')) (\<lambda>jti.
     bind_s (lift_res (item offer ''offer_id'')) (\<lambda>oid.
     bind_s (log_event ev (entry ''merchant.verified''
               [(''merchant_id'', PStr MERCHANT_ID), (''mandate_jti'', PStr jti), (''intent_jti'', PStr ijti), (''offer_id'', oid),
                (''checked'', PList (map PStr [''mandate_signature'', ''intent_signature'', ''price_match'', ''kernel_verify'']))]
               (Some MERCHANT_ID) None None (Some jti))) (\<lambda>_.
     bind_s (new_id ev ''rcp'') (\<lambda>rcp.
     bind_s (lift_res (item offer ''title'')) (\<lambda>title.
     bind_s (lift_res (item chg ''amount'')) (\<lambda>camount.
     bind_s (lift_res (item chg ''currency'')) (\<lambda>ccur.
     bind_s (lift_res (item chg ''capture_id'')) (\<lambda>cid.
     bind_s (now_iso ev) (\<lambda>at.
     return_s [(''accepted'', PBool True),
               (''receipt'', PDict [(''receipt_id'', PStr rcp), (''merchant_id'', PStr MERCHANT_ID), (''offer_id'', oid), (''title'', title),
                 (''amount'', camount), (''currency'', ccur), (''mandate_jti'', PStr jti), (''capture_id'', cid), (''at'', PStr at)]),
               (''reservation_id'', dict_get_or live ''reservation_id'' PNone)]))))))))))))))"

definition checkout_charge ::
  "agent_env \<Rightarrow> string option \<Rightarrow> pydict \<Rightarrow> string \<Rightarrow> (agent_db \<Rightarrow> pydict) \<Rightarrow> (agent_db, pydict) sres" where
  "checkout_charge ev token intent sig verify_fn =
     either_s (lift_res (ev_verify_token ev token))
       (\<lambda>e. if e = BadSignature then return_s (declined (PStr ''INVALID_SIGNATURE'') (ev_exn_text ev e)) else raise_s e)
       (\<lambda>claims.
     either_s (lift_res (ev_verify_detached ev sig intent claims))
       (\<lambda>e. if e = BadSignature then return_s (declined (PStr ''INVALID_PROOF_OF_POSSESSION'') (ev_exn_text ev e)) else raise_s e)
       (\<lambda>_.
     bind_s (lift_res (item intent ''offer_id'')) (\<lambda>oid.
     bind_s (get_offer oid) (\<lambda>found.
     case found of
       None \<Rightarrow> return_s (declined (PStr ''RAIL_ERROR'') ''offer withdrawn'')
     | Some offer \<Rightarrow>
         bind_s (lift_res (item intent ''amount'')) (\<lambda>amount.
         bind_s (lift_res (money_fmt amount)) (\<lambda>want.
         bind_s (lift_res (item offer ''price'')) (\<lambda>price.
         bind_s (lift_res (money_fmt price)) (\<lambda>have_price.
         if want \<noteq> have_price
         then return_s (declined (PStr ''AMOUNT_MISMATCH'') (''intent '' @ py_str amount @ '' != catalog '' @ py_str price))
         else
           bind_s (get_s verify_fn) (\<lambda>live.
           if dict_get live ''decision'' \<noteq> Some (PStr APPROVED)
           then return_s (declined (dict_get_or live ''reason_code'' PNone) ''verify did not approve'' @ [(''verify'', PDict live)])
           else checkout_capture ev claims intent offer live)))))))))"

text \<open>The port. \<^verbatim>\<open>settle\<close> turns an error of the rail into a declined checkout.\<close>

definition local_get :: "string \<Rightarrow> pyval \<Rightarrow> (agent_db, pydict option) sres" where
  "local_get merchant_id oid =
     bind_s (get_offer oid) (\<lambda>found.
     case found of
       None \<Rightarrow> return_s None
     | Some o1 \<Rightarrow> bind_s (lift_res (normalise_offer merchant_id (dict_set ''native'' (PDict []) o1))) (\<lambda>n. return_s (Some n)))"

definition local_settle ::
  "agent_env \<Rightarrow> pydict \<Rightarrow> pydict \<Rightarrow> string option \<Rightarrow> pydict \<Rightarrow> string \<Rightarrow> (agent_db \<Rightarrow> pydict) \<Rightarrow> (agent_db, pydict) sres" where
  "local_settle ev offer claims token intent sig verify_fn =
     try_s (checkout_charge ev token intent sig verify_fn)
       (\<lambda>e. case e of RailError code \<Rightarrow> return_s (declined (PStr code) (ev_exn_text ev e)) | _ \<Rightarrow> raise_s e)"

definition local_merchant :: "agent_env \<Rightarrow> merchant_port" where
  "local_merchant ev =
     \<lparr>mp_merchant_id = MERCHANT_ID, mp_get = local_get MERCHANT_ID, mp_settle = local_settle ev\<rparr>"

end
