(* ===== verification/Triples.thy ===== *)
theory Triples
  imports Prelude
begin

text \<open>
  A small calculus of pre- and postconditions for operations on a state that may raise, with a postcondition
  for the exception.
\<close>

section \<open>Rules\<close>

text \<open>\<open>hoare P m Q E\<close>: from a state with \<open>P\<close>, \<open>m\<close> returns \<open>x\<close> in a state with \<open>Q x\<close> or raises in a state with \<open>E\<close>.\<close>

definition hoare :: "('s \<Rightarrow> bool) \<Rightarrow> ('s, 'a) sres \<Rightarrow> ('a \<Rightarrow> 's \<Rightarrow> bool) \<Rightarrow> ('s \<Rightarrow> bool) \<Rightarrow> bool" where
  "hoare P m Q E \<longleftrightarrow> (\<forall>s. P s \<longrightarrow> (case m s of (Inr x, s') \<Rightarrow> Q x s' | (Inl e, s') \<Rightarrow> E s'))"

lemma hoareI:
  "(\<And>s x s'. P s \<Longrightarrow> m s = (Inr x, s') \<Longrightarrow> Q x s') \<Longrightarrow> (\<And>s e s'. P s \<Longrightarrow> m s = (Inl e, s') \<Longrightarrow> E s') \<Longrightarrow> hoare P m Q E"
  by (auto simp: hoare_def split: prod.splits sum.splits)

lemma hoareD:
  assumes "hoare P m Q E" "P s"
  shows "m s = (Inr x, s') \<Longrightarrow> Q x s'" "m s = (Inl e, s') \<Longrightarrow> E s'"
proof -
  have "case m s of (Inr x, s') \<Rightarrow> Q x s' | (Inl e, s') \<Rightarrow> E s'" using assms by (simp add: hoare_def)
  then show "m s = (Inr x, s') \<Longrightarrow> Q x s'" "m s = (Inl e, s') \<Longrightarrow> E s'" by simp_all
qed

named_theorems triple_rules \<open>rules that take an operation apart\<close>

lemma hoare_bind [triple_rules]:
  "hoare P m R E \<Longrightarrow> (\<And>x. hoare (R x) (f x) Q E) \<Longrightarrow> hoare P (bind_s m f) Q E"
  by (fastforce simp: hoare_def bind_s_def split: prod.splits sum.splits)

lemma hoare_either [triple_rules]:
  "hoare P m R H \<Longrightarrow> (\<And>e. hoare H (h e) Q E) \<Longrightarrow> (\<And>x. hoare (R x) (k x) Q E) \<Longrightarrow> hoare P (either_s m h k) Q E"
  by (fastforce simp: hoare_def either_s_def split: prod.splits sum.splits)

lemma hoare_weaken:
  "hoare P' m Q' E' \<Longrightarrow> (\<And>s. P s \<Longrightarrow> P' s) \<Longrightarrow> (\<And>x s. Q' x s \<Longrightarrow> Q x s) \<Longrightarrow> (\<And>s. E' s \<Longrightarrow> E s) \<Longrightarrow> hoare P m Q E"
  by (fastforce simp: hoare_def split: prod.splits sum.splits)

lemma hoare_return: "(\<And>s. P s \<Longrightarrow> Q x s) \<Longrightarrow> hoare P (return_s x) Q E"
  by (simp add: hoare_def return_s_def)

lemma hoare_raise: "(\<And>s. P s \<Longrightarrow> E s) \<Longrightarrow> hoare P (raise_s e) Q E"
  by (simp add: hoare_def raise_s_def)

lemma hoare_lift [triple_rules]: "(\<And>s. P s \<Longrightarrow> E s) \<Longrightarrow> hoare P (lift_res r) (\<lambda>x s. P s \<and> r = Inr x) E"
  by (simp add: hoare_def lift_res_def split: sum.splits)

lemma hoare_lift_bind:
  "(\<And>x. r = Inr x \<Longrightarrow> hoare P (f x) Q E) \<Longrightarrow> (\<And>s. P s \<Longrightarrow> E s) \<Longrightarrow> hoare P (bind_s (lift_res r) f) Q E"
  by (cases r) (auto simp: hoare_def bind_s_def lift_res_def)

lemma hoare_get [triple_rules]: "hoare P (get_s f) (\<lambda>x s. P s \<and> x = f s) E"
  by (simp add: hoare_def get_s_def)

lemma hoare_if [triple_rules]:
  "(b \<Longrightarrow> hoare P m Q E) \<Longrightarrow> (\<not> b \<Longrightarrow> hoare P n Q E) \<Longrightarrow> hoare P (if b then m else n) Q E"
  by simp

lemma hoare_pre: "(b \<Longrightarrow> hoare P m Q E) \<Longrightarrow> hoare (\<lambda>s. P s \<and> b) m Q E"
  by (auto simp: hoare_def)

text \<open>What an operation that leaves a part of the state alone keeps of it.\<close>

lemma keeps_hoare:
  assumes "\<And>v. keeps (\<lambda>s. view s = v) m"
  shows "hoare (\<lambda>s. L (view s)) m (\<lambda>_ s. L (view s)) (\<lambda>s. L (view s))"
proof -
  have "view (snd (m s)) = view s" for s using assms [of "view s"] by (simp add: keeps_def)
  then have "m s = (r, s') \<Longrightarrow> view s' = view s" for s r s' by (metis snd_conv)
  then show ?thesis by (fastforce intro: hoareI)
qed

lemma bind_s_returns: "bind_s m f s = (Inr y, s2) \<longleftrightarrow> (\<exists>x s1. m s = (Inr x, s1) \<and> f x s1 = (Inr y, s2))"
  by (auto simp: bind_s_def split: prod.splits sum.splits)

lemma sres_returns:
  "lift_res r s = (Inr x, s') \<longleftrightarrow> r = Inr x \<and> s' = s" "get_s f s = (Inr y, s') \<longleftrightarrow> y = f s \<and> s' = s"
  "return_s y s = (Inr x, s') \<longleftrightarrow> x = y \<and> s' = s" "raise_s e s = (Inr x, s') \<longleftrightarrow> False"
  by (auto simp: sres_defs)

lemma guard_returns:
  "(if b then raise_s e else m) s = (Inr y, s') \<longleftrightarrow> \<not> b \<and> m s = (Inr y, s')"
  "(case x of None \<Rightarrow> raise_s e | Some a \<Rightarrow> f a) s = (Inr y, s') \<longleftrightarrow> (\<exists>a. x = Some a \<and> f a s = (Inr y, s'))"
  "(case r of Inl e \<Rightarrow> raise_s (h e) | Inr b \<Rightarrow> g b) s = (Inr y, s') \<longleftrightarrow> (\<exists>b. r = Inr b \<and> g b s = (Inr y, s'))"
  by (auto simp: raise_s_def split: option.splits sum.splits)

lemmas returns = bind_s_returns sres_returns guard_returns

lemma hoare_transaction: "hoare P m Q E \<Longrightarrow> hoare P (in_transaction m) Q P"
  by (fastforce simp: hoare_def in_transaction_def split: prod.splits sum.splits)

lemma hoare_drop: "hoare P m Q E \<Longrightarrow> hoare (\<lambda>s. P s \<and> R s) m Q E"
  by (auto simp: hoare_def)

lemma hoare_snd: "hoare P m Q E \<Longrightarrow> P s \<Longrightarrow> m s = (r, s') \<Longrightarrow> (\<And>x. Q x s' \<Longrightarrow> R) \<Longrightarrow> (E s' \<Longrightarrow> R) \<Longrightarrow> R"
  by (cases r) (auto dest: hoareD)

lemma keeps_lift_bind: "(\<And>x. r = Inr x \<Longrightarrow> keeps P (f x)) \<Longrightarrow> keeps P (bind_s (lift_res r) f)"
  by (cases r) (auto simp: keeps_def bind_s_def lift_res_def)

end
