(* ===== verification/Agent_Saga_Props.thy ===== *)
theory Agent_Saga_Props
  imports Agent_Merchant Triples
begin

text \<open>
  What the saga keeps of the ledger. The merchant ports enter through a locale, interpreted on the in-process merchant.
\<close>

section \<open>What leaves mandates and offers alone\<close>

definition books :: "agent_db \<Rightarrow> mandates \<times> (string, offer_row) dict" where
  "books db = (db_mandates db, db_offers db)"

abbreviation off_books :: "(agent_db, 'a) sres \<Rightarrow> bool" where
  "off_books m \<equiv> (\<forall>v. keeps (\<lambda>db. books db = v) m)"

text \<open>The tables that only the operations named after them write; identifiers, the clock, the trail and purchases are outside.\<close>

definition core :: "agent_db \<Rightarrow> (mandates \<times> (string, offer_row) dict) \<times> (string, pydict) dict \<times> (string, instrument) dict
    \<times> (string, agent_escalation) dict" where
  "core db = (books db, db_captures db, db_instruments db, db_escalations db)"

abbreviation off_core :: "(agent_db, 'a) sres \<Rightarrow> bool" where
  "off_core m \<equiv> (\<forall>v. keeps (\<lambda>db. core db = v) m)"

lemma keeps_view:
  assumes "\<And>v. keeps (\<lambda>db. view db = v) m" and "\<And>db db'. view db = view db' \<Longrightarrow> P db \<Longrightarrow> P db'"
  shows "keeps P m"
  unfolding keeps_def
proof (intro allI impI)
  fix db
  assume "P db"
  moreover have "view db = view (snd (m db))" using assms(1) [of "view db"] by (simp add: keeps_def)
  ultimately show "P (snd (m db))" by (metis assms(2))
qed

lemma off_core_keeps: "off_core m \<Longrightarrow> (\<And>db db'. core db = core db' \<Longrightarrow> P db \<Longrightarrow> P db') \<Longrightarrow> keeps P m"
  by (rule keeps_view [where view = core], erule spec)

lemma off_core_books: "off_core m \<Longrightarrow> off_books m"
  by (intro allI, erule off_core_keeps) (simp add: core_def)

lemma off_books_modify: "(\<And>db. books (f db) = books db) \<Longrightarrow> off_books (modify_s f)"
  by (simp add: keeps_def modify_s_def)

lemma off_core_modify: "(\<And>db. core (f db) = core db) \<Longrightarrow> off_core (modify_s f)"
  by (simp add: keeps_def modify_s_def)

lemma off_core_draw [simp]: "off_core draw"
  by (simp add: keeps_def draw_def core_def books_def)

lemma off_core_bind: "off_core m \<Longrightarrow> (\<And>x. off_core (f x)) \<Longrightarrow> off_core (bind_s m f)"
  by (auto intro: keeps_bind)

lemma off_core_if: "off_core m \<Longrightarrow> off_core n \<Longrightarrow> off_core (if b then m else n)"
  by simp

lemma off_core_base [simp]:
  "off_core (return_s x)" "off_core (raise_s e)" "off_core (lift_res r)" "off_core (get_s f)"
  by auto

lemmas off_core_rules = off_core_bind off_core_if off_core_base off_core_draw

lemma off_books_bind: "off_books m \<Longrightarrow> (\<And>x. off_books (f x)) \<Longrightarrow> off_books (bind_s m f)"
  by (auto intro: keeps_bind)

lemma off_books_either: "off_books m \<Longrightarrow> (\<And>e. off_books (h e)) \<Longrightarrow> (\<And>x. off_books (k x)) \<Longrightarrow> off_books (either_s m h k)"
  by (auto intro: keeps_either)

lemma off_books_try: "off_books m \<Longrightarrow> (\<And>e. off_books (h e)) \<Longrightarrow> off_books (try_s m h)"
  by (auto intro: keeps_try)

lemma off_books_if: "off_books m \<Longrightarrow> off_books n \<Longrightarrow> off_books (if b then m else n)"
  by simp

lemma off_books_base [simp]:
  "off_books (return_s x)" "off_books (raise_s e)" "off_books (lift_res r)" "off_books (get_s f)"
  by auto

lemmas off_books_rules = off_books_bind off_books_either off_books_try off_books_if off_books_base

lemma off_core_new_id [simp]: "off_core (new_id ev pre)"
  and off_core_nonce [simp]: "off_core (new_nonce ev)"
  and off_core_clock [simp]: "off_core (clock ev)"
  unfolding new_id_def new_nonce_def clock_def by (intro off_core_rules)+

lemma off_core_now [simp]: "off_core (now_iso ev)" "off_core (now_ts ev)" "off_core (hour_window ev)"
  unfolding now_iso_def now_ts_def hour_window_def by (intro off_core_rules off_core_clock)+

lemma off_core_log [simp]: "off_core (log_event ev a)"
  unfolding log_event_def
proof (intro off_core_rules off_core_now(1) off_core_new_id)
  show "off_core (\<lambda>db. case audit_append (ev_sha ev) (ev_scrub ev) eid at a (db_audit db) of
       (Inl e, ad) \<Rightarrow> (Inl e, db\<lparr>db_audit := ad\<rparr>) | (Inr _, ad) \<Rightarrow> (Inr (), db\<lparr>db_audit := ad\<rparr>))" for at eid
    by (auto simp: keeps_def core_def books_def split: prod.splits sum.splits)
qed

lemma off_core_bump [simp]: "off_core (bump key w cap)"
  by (simp add: keeps_def bump_def Let_def core_def books_def)

lemma off_core_guard [simp]: "off_core (guard_escalation ev ap)"
  unfolding guard_escalation_def by (intro off_core_rules off_core_now off_core_bump)

lemma off_core_purchase [simp]: "off_core (update_purchase_row pid f)"
  unfolding update_purchase_row_def by (rule off_core_modify) (simp add: core_def books_def split: option.splits)

lemma off_core_insert [simp]: "off_core (insert_intent i)" "off_core (insert_purchase pid p)"
  by (simp_all add: keeps_def insert_intent_def insert_purchase_def core_def books_def)

lemma off_core_refuse [simp]: "off_core (refuse ev m c d)"
  unfolding refuse_def by (intro off_core_rules off_core_log)

lemma off_core_intent [simp]: "off_core (build_intent ev j a o1)"
  unfolding build_intent_def by (intro off_core_rules off_core_now off_core_nonce off_core_new_id)

lemma off_core_mandate_get [simp]: "off_core (mandate_get j)"
  by (simp add: keeps_def mandate_get_def split: option.splits)

lemma off_core_get_offer [simp]: "off_core (get_offer oid)"
  unfolding get_offer_def by (intro off_core_rules)

lemma off_core_local_get [simp]: "off_core (local_get m oid)"
  unfolding local_get_def by (auto intro!: keeps_bind off_core_get_offer [rule_format] split: option.splits)

lemmas off_books_new_id [simp] = off_core_books [OF off_core_new_id]
lemmas off_books_nonce [simp] = off_core_books [OF off_core_nonce]
lemmas off_books_clock [simp] = off_core_books [OF off_core_clock]
lemmas off_books_now [simp] = off_core_now [THEN off_core_books]
lemmas off_books_log [simp] = off_core_books [OF off_core_log]
lemmas off_books_guard [simp] = off_core_books [OF off_core_guard]
lemmas off_books_purchase [simp] = off_core_books [OF off_core_purchase]
lemmas off_books_insert [simp] = off_core_books [OF off_core_insert(1)]
lemmas off_books_refuse [simp] = off_core_books [OF off_core_refuse]
lemmas off_books_intent [simp] = off_core_books [OF off_core_intent]
lemmas off_books_get_offer [simp] = off_core_books [OF off_core_get_offer]
lemmas off_books_local_get [simp] = off_core_books [OF off_core_local_get]

lemma off_books_rows [simp]: "off_books (insert_purchase pid p)" "off_books (insert_escalation esc x)"
  by (simp_all add: off_core_books) (simp add: keeps_def insert_escalation_def books_def)

lemma off_books_capture [simp]: "off_books (rail_capture ev ref amount cur rid)"
proof -
  have "off_books (modify_s (\<lambda>db. db\<lparr>db_captures := dict_set rid x (db_captures db)\<rparr>))" for x
    by (rule off_books_modify) (simp add: books_def)
  then show ?thesis
    unfolding rail_capture_def
    by (auto simp: Let_def split: option.splits prod.splits intro!: keeps_bind keeps_if)
qed

lemma off_books_escalation [simp]: "off_books (open_escalation ev pid j run diff reason)"
  unfolding open_escalation_def Let_def
  by (intro off_books_rules off_books_guard off_books_new_id off_books_clock off_books_rows off_books_log)

lemma off_books_checkout [simp]: "off_books (checkout_capture ev claims intent offer live)"
  unfolding checkout_capture_def
  by (intro off_books_rules off_books_capture off_books_log off_books_new_id off_books_now)

lemma off_books_checkout_charge [simp]: "off_books (checkout_charge ev token intent sig vf)"
  unfolding checkout_charge_def
  by (auto intro!: keeps_bind keeps_either keeps_if split: option.splits)

lemma off_books_local [simp]: "off_books (local_settle ev o1 c t i s v)"
  unfolding local_settle_def
  by (auto intro!: keeps_bind keeps_try split: option.splits exn.splits)

section \<open>The invariant of the books\<close>

definition named_rows :: "mandates \<Rightarrow> bool" where
  "named_rows ms \<longleftrightarrow> (\<forall>j r. dict_get ms j = Some r \<longrightarrow> dict_get (mr_claims r) ''jti'' = Some (PStr j))"

lemma named_rows_same_tree:
  assumes "named_rows ms" "same_tree ms ms'"
  shows "named_rows ms'"
  unfolding named_rows_def
proof (intro allI impI)
  fix j r'
  assume "dict_get ms' j = Some r'"
  moreover have "map_option (\<lambda>r. (mr_parent r, mr_claims r)) (dict_get ms' j) = map_option (\<lambda>r. (mr_parent r, mr_claims r)) (dict_get ms j)"
    using assms(2) unfolding same_tree_def by (rule spec)
  ultimately obtain r where "dict_get ms j = Some r" "mr_claims r' = mr_claims r" by (cases "dict_get ms j") auto
  with assms(1) show "dict_get (mr_claims r') ''jti'' = Some (PStr j)" by (simp add: named_rows_def)
qed

text \<open>Every mandate in the chain of an open reservation exists.\<close>

definition rooted :: "mandates \<Rightarrow> open_reservations \<Rightarrow> bool" where
  "rooted ms out \<longleftrightarrow> (\<forall>(i, a) \<in> set out. \<forall>j \<in> set (mandate_chain ms i). dict_get ms j \<noteq> None)"

lemma same_tree_None: "same_tree ms ms' \<Longrightarrow> (dict_get ms' j = None) = (dict_get ms j = None)"
  by (metis (no_types, lifting) map_option_is_None same_tree_def)

lemma rooted_same_tree: "rooted ms out \<Longrightarrow> same_tree ms ms' \<Longrightarrow> set out' \<subseteq> set out \<Longrightarrow> rooted ms' out'"
  by (fastforce simp: rooted_def same_tree_chain same_tree_None)

lemma named_rows_cong: "named_rows ms \<Longrightarrow> (\<And>j. dict_get ms' j = dict_get ms j) \<Longrightarrow> named_rows ms'"
  by (simp add: named_rows_def)

text \<open>
  What the kernel relies on in a merchant: it has no access to mandates or to the catalogue of others, and in
  a sane catalogue no price is negative.
\<close>

locale merchant_ports =
  fixes ps :: ports and good :: "(string, offer_row) dict \<Rightarrow> bool"
  assumes port_get: "p \<in> snd ` set ps \<Longrightarrow> off_books (mp_get p oid)"
    and port_settle: "p \<in> snd ` set ps \<Longrightarrow> off_books (mp_settle p off claims token intent sig vf)"
    and port_price: "p \<in> snd ` set ps \<Longrightarrow> good (db_offers db) \<Longrightarrow> mp_get p oid db = (Inr (Some off), db') \<Longrightarrow>
      dict_get off ''price'' = Some v \<Longrightarrow> money_dec v = Inr a \<Longrightarrow> 0 \<le> a"
begin

definition booked :: "open_reservations \<Rightarrow> mandates \<times> (string, offer_row) dict \<Rightarrow> bool" where
  "booked out v \<longleftrightarrow> ledger_sound (fst v) out \<and> rooted (fst v) out \<and> named_rows (fst v) \<and> good (snd v)"

abbreviation at_books :: "open_reservations \<Rightarrow> agent_db \<Rightarrow> bool" where
  "at_books out db \<equiv> booked out (books db)"

lemma port_of: "merchant_for ps key = Inr p \<Longrightarrow> p \<in> snd ` set ps"
  by (force simp: merchant_for_def split: pyval.splits list.splits option.splits dest: map_of_SomeD)

lemma off_books_at: "off_books m \<Longrightarrow> hoare (at_books out) m (\<lambda>_. at_books out) (at_books out)"
  by (rule keeps_hoare [where view = books and L = "booked out"]) (erule spec)

lemma off_books_at2:
  "off_books m \<Longrightarrow> (\<And>db. at_books out db \<Longrightarrow> E db) \<Longrightarrow> hoare (at_books out) m (\<lambda>_. at_books out) E"
  by (rule hoare_weaken [OF off_books_at]) auto

lemma reserve_triple:
  assumes "money_dec amount = Inr a" "0 \<le> a"
  shows "hoare (at_books out) (on_mandates (reserve_chain jti amount))
    (\<lambda>ok. at_books (if ok then (jti, a) # out else out)) (at_books out)"
proof (rule hoareI)
  fix db ok db'
  assume inv: "at_books out db" and run: "on_mandates (reserve_chain jti amount) db = (Inr ok, db')"
  from inv have led: "ledger_sound (db_mandates db) out" "rooted (db_mandates db) out" "named_rows (db_mandates db)" "good (db_offers db)"
    by (simp_all add: booked_def books_def)
  obtain r ms' where ms': "reserve_chain jti amount (db_mandates db) = (r, ms')" by fastforce
  with run have db': "r = Inr ok" "db_mandates db' = ms'" "db_offers db' = db_offers db" by (auto simp: on_mandates_def)
  from reserve_chain_sound [OF led(1) assms, of jti] show "at_books (if ok then (jti, a) # out else out) db'"
  proof
    assume "\<exists>ms''. reserve_chain jti amount (db_mandates db) = (Inr True, ms'') \<and> ledger_sound ms'' ((jti, a) # out)
       \<and> same_tree (db_mandates db) ms'' \<and> (\<forall>j \<in> set (mandate_chain (db_mandates db) jti). \<exists>r. dict_get (db_mandates db) j = Some r \<and> fits a r)"
    then have t: "ok" "ledger_sound ms' ((jti, a) # out)" "same_tree (db_mandates db) ms'" "rooted (db_mandates db) ((jti, a) # out)"
      using ms' db' led(2) by (auto simp: rooted_def)
    with rooted_same_tree [OF t(4,3)] named_rows_same_tree [OF led(3) t(3)] db' led(4) show ?thesis by (simp add: booked_def books_def)
  next
    assume "\<exists>ms''. reserve_chain jti amount (db_mandates db) = (Inr False, ms'') \<and> (\<forall>j. dict_get ms'' j = dict_get (db_mandates db) j)"
    then have f: "ok = False" "\<And>j. dict_get ms' j = dict_get (db_mandates db) j" using ms' db' by auto
    have "same_tree (db_mandates db) ms'" by (simp add: same_tree_def f(2))
    from rooted_same_tree [OF led(2) this] ledger_sound_cong [OF led(1) f(2)] named_rows_cong [OF led(3) f(2)] f(1) led(4) db'
    show ?thesis by (simp add: booked_def books_def)
  qed
next
  fix db e db'
  assume inv: "at_books out db" and run: "on_mandates (reserve_chain jti amount) db = (Inl e, db')"
  from inv have "ledger_sound (db_mandates db) out" by (simp add: booked_def books_def)
  from reserve_chain_sound [OF this assms, of jti] run have False by (auto simp: on_mandates_def)
  then show "at_books out db'" ..
qed

lemma close_triple:
  assumes "money_dec amount = Inr a"
    and "\<And>ms. ledger_sound ms ((jti, a) # out) \<Longrightarrow>
       \<exists>ms'. close ms = (Inr (), ms') \<and> ledger_sound ms' (remove1 (jti, a) ((jti, a) # out)) \<and> same_tree ms ms'"
  shows "hoare (at_books ((jti, a) # out)) (on_mandates close) (\<lambda>_. at_books out) E"
proof (rule hoareI)
  fix db x db'
  assume inv: "at_books ((jti, a) # out) db" and run: "on_mandates close db = (Inr x, db')"
  from inv have led: "ledger_sound (db_mandates db) ((jti, a) # out)" "rooted (db_mandates db) ((jti, a) # out)"
    "named_rows (db_mandates db)" by (simp_all add: booked_def books_def)
  from assms(2) [OF led(1)] run obtain ms' where ms': "db' = db\<lparr>db_mandates := ms'\<rparr>" "ledger_sound ms' out" "same_tree (db_mandates db) ms'"
    by (auto simp: on_mandates_def)
  moreover have "rooted ms' out" by (rule rooted_same_tree [OF led(2) ms'(3)]) auto
  ultimately show "at_books out db'" using inv named_rows_same_tree [OF led(3)] by (auto simp: booked_def books_def)
next
  fix db e db'
  assume inv: "at_books ((jti, a) # out) db" and run: "on_mandates close db = (Inl e, db')"
  from inv have "ledger_sound (db_mandates db) ((jti, a) # out)" by (simp add: booked_def books_def)
  from assms(2) [OF this] run have False by (auto simp: on_mandates_def)
  then show "E db'" ..
qed

lemma release_triple:
  "money_dec amount = Inr a \<Longrightarrow> hoare (at_books ((jti, a) # out)) (on_mandates (release_chain jti amount)) (\<lambda>_. at_books out) E"
  by (rule close_triple, assumption, rule release_chain_sound) simp_all

lemma settle_triple:
  "money_dec amount = Inr a \<Longrightarrow> hoare (at_books ((jti, a) # out)) (on_mandates (settle_chain jti amount)) (\<lambda>_. at_books out) E"
  by (rule close_triple, assumption, rule settle_chain_sound) simp_all

text \<open>After an exception the reservation of the running saga may still be open.\<close>

definition maybe_open :: "string \<Rightarrow> cents \<Rightarrow> open_reservations \<Rightarrow> agent_db \<Rightarrow> bool" where
  "maybe_open jti a out db \<longleftrightarrow> at_books out db \<or> at_books ((jti, a) # out) db"

lemma compensate_triple:
  assumes "dict_get intent ''amount'' = Some amount" "money_dec amount = Inr a"
  shows "hoare (at_books ((jti, a) # out)) (compensate ev pid claims jti intent code detail run)
    (\<lambda>_. at_books out) (maybe_open jti a out)"
proof -
  have amt: "item intent ''amount'' = Inr amount" using assms(1) by (simp add: item_def)
  show ?thesis
    unfolding compensate_def amt
    apply (rule hoare_lift_bind, drule sum.inject(2) [THEN iffD1], hypsubst)
     apply (rule hoare_bind [OF release_triple [OF assms(2)]], rule off_books_at2)
      apply (intro off_books_rules off_books_purchase off_books_log)
     apply (simp_all add: maybe_open_def)
    done
qed

end

context merchant_ports
begin

lemma maybe_openI: "at_books out db \<Longrightarrow> maybe_open jti a out db" "at_books ((jti, a) # out) db \<Longrightarrow> maybe_open jti a out db"
  by (simp_all add: maybe_open_def)

lemma capture_triple:
  assumes "dict_get intent ''amount'' = Some amount" "money_dec amount = Inr a"
  shows "hoare (at_books ((jti, a) # out)) (capture_purchase ev pid claims jti intent result run)
    (\<lambda>_. at_books out) (maybe_open jti a out)"
proof -
  have amt: "item intent ''amount'' = Inr amount" using assms(1) by (simp add: item_def)
  have "off_books (modify_s (\<lambda>db. db\<lparr>db_intents := f (db_intents db)\<rparr>))" for f
    by (rule off_books_modify) (simp add: books_def)
  then have rest: "hoare (at_books out) (bind_s (lift_res (item result ''receipt'')) (\<lambda>receipt.
     bind_s (update_purchase_row pid (\<lambda>p. p\<lparr>ap_status := ''captured'', ap_receipt := Some receipt\<rparr>)) (\<lambda>_.
     bind_s (lift_res (text_item intent ''jti'')) (\<lambda>ijti.
     bind_s (modify_s (\<lambda>db. db\<lparr>db_intents := map (\<lambda>k. if ir_jti k = ijti then k\<lparr>ir_status := ''captured''\<rparr> else k) (db_intents db)\<rparr>)) (\<lambda>_.
     bind_s (lift_res (text_item claims ''agent'')) (\<lambda>agent.
     bind_s (log_event ev (entry ''purchase.captured'' [(''purchase_id'', PStr pid), (''receipt'', receipt)]
               None (Some agent) run (Some jti))) (\<lambda>_.
     return_s \<lparr>sr_status = ''captured'', sr_purchase = Some pid, sr_reason = None, sr_detail = '''',
               sr_escalation = None, sr_receipt = Some receipt\<rparr>))))))) (\<lambda>_. at_books out) (maybe_open jti a out)"
    by (intro off_books_at2 off_books_rules off_books_purchase off_books_log maybe_openI(1))
  show ?thesis
    unfolding capture_purchase_def amt
    by (rule hoare_lift_bind) (auto intro!: hoare_bind [OF settle_triple [OF assms(2)]] rest maybe_openI(2))
qed

lemma charge_triple:
  assumes "dict_get intent ''amount'' = Some amount" "money_dec amount = Inr a" "text_item claims ''jti'' = Inr jti"
  shows "hoare (at_books ((jti, a) # out)) (charge ev ps pid token claims intent sig rsv run)
    (\<lambda>_. at_books out) (maybe_open jti a out)"
proof -
  note comp = compensate_triple [OF assms(1,2)]
  have E: "at_books ((jti, a) # out) db \<Longrightarrow> maybe_open jti a out db" for db by (rule maybe_openI)
  have core: "hoare (at_books ((jti, a) # out)) (bind_s (mp_get port oid) (\<lambda>found.
       either_s (mp_settle port (case found of None \<Rightarrow> [(''offer_id'', oid), (''title'', oid)]
              | Some m \<Rightarrow> if m \<noteq> [] then m else [(''offer_id'', oid), (''title'', oid)]) claims token intent sig (live_state jti rsv))
          (\<lambda>e. case e of RailError code \<Rightarrow> compensate ev pid claims jti intent code (ev_exn_text ev e) run
               | _ \<Rightarrow> compensate ev pid claims jti intent ''RAIL_ERROR'' (take 200 (ev_exn_text ev e)) run)
          (\<lambda>result.
             if \<not> truthy (dict_get_or result ''accepted'' PNone)
             then compensate ev pid claims jti intent (text_or (dict_get_or result ''reason_code'' PNone) ''RAIL_ERROR'')
                    (py_str (dict_get_or result ''detail'' (PStr ''''))) run
             else capture_purchase ev pid claims jti intent result run))) (\<lambda>_. at_books out) (maybe_open jti a out)" if port: "port \<in> snd ` set ps" for port oid
  proof -
    have get: "hoare (at_books ((jti, a) # out)) (mp_get port oid) (\<lambda>_. at_books ((jti, a) # out)) (maybe_open jti a out)"
      by (rule off_books_at2 [OF port_get [OF port]]) (rule E)
    show ?thesis
      by (rule hoare_bind [OF get], rule hoare_either [OF off_books_at [OF port_settle [OF port]]])
        (auto intro!: comp hoare_if capture_triple [OF assms(1,2)] split: exn.splits)
  qed
  have purch: "hoare (at_books ((jti, a) # out)) (update_purchase_row pid f) (\<lambda>_. at_books ((jti, a) # out)) (maybe_open jti a out)" for f
    by (rule off_books_at2 [OF off_books_purchase]) (rule E)
  show ?thesis
    unfolding charge_def assms(3) Let_def
    by (rule hoare_lift_bind, drule sum.inject(2) [THEN iffD1], hypsubst, rule hoare_bind [OF purch],
        rule hoare_lift_bind, rule hoare_lift_bind, rule hoare_lift_bind, rule core, erule port_of) (erule E)+
qed

end

context merchant_ports
begin

text \<open>The verdict on a verification: the reservation is open exactly when it approved.\<close>

definition verdict :: "string \<Rightarrow> cents \<Rightarrow> open_reservations \<Rightarrow> verify_result \<Rightarrow> agent_db \<Rightarrow> bool" where
  "verdict jti a out d = at_books (if vr_decision d = APPROVED then (jti, a) # out else out)"

lemma refuse_triple: "hoare (at_books out) (refuse ev m code detail) (verdict jti a out) (maybe_open jti a out)"
proof -
  have log: "hoare (at_books out) (log_event ev e) (\<lambda>_. at_books out) (maybe_open jti a out)" for e
    by (rule off_books_at2 [OF off_books_log]) (rule maybe_openI)
  show ?thesis
    unfolding refuse_def by (rule hoare_bind [OF log], rule hoare_return) (simp add: verdict_def)
qed

lemma verify_reserve_triple:
  assumes "dict_get intent ''amount'' = Some amount" "money_dec amount = Inr a" "0 \<le> a"
  shows "hoare (at_books out) (verify_reserve ev claims jti intent sig) (verdict jti a out) (maybe_open jti a out)"
proof -
  have E: "at_books out db \<Longrightarrow> maybe_open jti a out db" "at_books ((jti, a) # out) db \<Longrightarrow> maybe_open jti a out db" for db
    by (rule maybe_openI; assumption)+
  have res: "hoare (at_books out) (on_mandates (reserve_chain jti amount))
      (\<lambda>ok. at_books (if ok then (jti, a) # out else out)) (maybe_open jti a out)"
    by (rule hoare_weaken [OF reserve_triple [OF assms(2,3)]]) (auto intro: E)
  have tail: "hoare (at_books ((jti, a) # out)) m (verdict jti a out) (maybe_open jti a out)"
    if "hoare (at_books ((jti, a) # out)) m (\<lambda>d db. at_books ((jti, a) # out) db \<and> vr_decision d = APPROVED) (maybe_open jti a out)" for m
    by (rule hoare_weaken [OF that]) (auto simp: verdict_def)
  have step: "hoare (at_books ((jti, a) # out)) (bind_s m f) Q (maybe_open jti a out)"
    if "off_books m" "\<And>x. hoare (at_books ((jti, a) # out)) (f x) Q (maybe_open jti a out)" for m f Q
    by (rule hoare_bind [OF off_books_at2 [OF that(1)]]) (auto intro: E that(2))
  have amt: "item intent ''amount'' = Inr amount" using assms(1) by (simp add: item_def)
  show ?thesis
    unfolding verify_reserve_def amt
    apply (rule hoare_lift_bind, drule sum.inject(2) [THEN iffD1], hypsubst)
     apply (rule hoare_bind [OF res], rule hoare_if)
      apply (simp add: refuse_triple)
     apply (simp, rule tail)
     apply (intro step off_books_new_id off_books_insert off_books_log off_books_base)
     apply (rule hoare_return, simp)
    apply (erule E)
    done
qed

end

lemma row_status [simp]:
  "row_sound (r\<lparr>mr_status := st\<rparr>) = row_sound r" "reserved_c (r\<lparr>mr_status := st\<rparr>) = reserved_c r"
  by (simp_all add: row_sound_def reserved_c_def spent_c_def budget_c_def row_budget_def)

lemma set_status_tree: "same_tree (db_mandates db) (db_mandates (set_status j st db))"
  by (auto simp: set_status_def same_tree_def split: option.splits)

lemma set_status_books:
  assumes "ledger_sound (db_mandates db) out" "named_rows (db_mandates db)"
  shows "ledger_sound (db_mandates (set_status j st db)) out" "named_rows (db_mandates (set_status j st db))"
    "db_offers (set_status j st db) = db_offers db"
proof -
  note tree = set_status_tree [of db j st]
  show "db_offers (set_status j st db) = db_offers db" by (simp add: set_status_def split: option.splits)
  show "named_rows (db_mandates (set_status j st db))" by (rule named_rows_same_tree [OF assms(2) tree])
  show "ledger_sound (db_mandates (set_status j st db)) out"
    unfolding ledger_sound_def owed_same_tree [OF tree]
  proof (intro conjI allI impI)
    show "\<forall>(i, a) \<in> set out. 0 \<le> a" using assms(1) by (simp add: ledger_sound_def)
    fix i r
    assume "dict_get (db_mandates (set_status j st db)) i = Some r"
    then obtain r0 where "dict_get (db_mandates db) i = Some r0" "row_sound r = row_sound r0" "reserved_c r = reserved_c r0"
      by (auto simp: set_status_def split: option.splits if_splits)
    with ledger_soundD [OF assms(1)] show "row_sound r" "reserved_c r = owed (db_mandates db) out i" by simp_all
  qed
qed

lemma fmt_cents_inject: "\<bar>a\<bar> < cents_limit \<Longrightarrow> \<bar>c\<bar> < cents_limit \<Longrightarrow> fmt_cents a = fmt_cents c \<Longrightarrow> a = c"
  by (metis money_dec_fmt sum.inject(2))

lemma matching_price_nonneg:
  assumes "\<forall>v. dict_get off ''price'' = Some v \<longrightarrow> (\<forall>c. money_dec v = Inr c \<longrightarrow> 0 \<le> c)"
    and "item off ''price'' = Inr p" "money_fmt p = Inr t" "money_fmt amount = Inr t" "money_dec amount = Inr a"
  shows "0 \<le> a"
proof -
  from assms(2) have p: "dict_get off ''price'' = Some p" by (auto simp: item_def split: option.splits)
  from assms(3) obtain c where c: "money_dec p = Inr c" "t = fmt_cents c" by (auto simp: money_fmt_def bind_res_Inr_iff)
  with assms(4,5) have "fmt_cents a = fmt_cents c" by (simp add: money_fmt_def)
  with money_dec_bound [OF assms(5)] money_dec_bound [OF c(1)] have "a = c" by (intro fmt_cents_inject)
  with assms(1) p c(1) show ?thesis by simp
qed

context merchant_ports
begin

lemma get_triple:
  assumes "p \<in> snd ` set ps"
  shows "hoare (at_books out) (mp_get p oid) (\<lambda>found db. at_books out db \<and>
    (\<forall>offer v c. found = Some offer \<longrightarrow> dict_get offer ''price'' = Some v \<longrightarrow> money_dec v = Inr c \<longrightarrow> 0 \<le> c)) (at_books out)"
proof (rule hoareI)
  fix db found db'
  assume "at_books out db" "mp_get p oid db = (Inr found, db')"
  moreover from this have "at_books out db'" using hoareD(1) [OF off_books_at [OF port_get [OF assms]]] by blast
  ultimately show "at_books out db' \<and>
    (\<forall>offer v c. found = Some offer \<longrightarrow> dict_get offer ''price'' = Some v \<longrightarrow> money_dec v = Inr c \<longrightarrow> 0 \<le> c)"
    using port_price [OF assms] by (auto simp: booked_def books_def)
next
  fix db e db'
  assume "at_books out db" "mp_get p oid db = (Inl e, db')"
  then show "at_books out db'" using hoareD(2) [OF off_books_at [OF port_get [OF assms]]] by blast
qed

lemma verify_inside_triple:
  assumes "dict_get intent ''amount'' = Some amount" "money_dec amount = Inr a"
  shows "hoare (at_books out) (verify_inside ev ps claims jti row intent sig now True) (verdict jti a out) (maybe_open jti a out)"
proof -
  have E: "at_books out db \<Longrightarrow> maybe_open jti a out db" for db by (rule maybe_openI)
  have step: "hoare (at_books out) (bind_s m f) Q (maybe_open jti a out)"
    if "off_books m" "\<And>x. hoare (at_books out) (f x) Q (maybe_open jti a out)" for m f Q
    by (rule hoare_bind [OF off_books_at2 [OF that(1)]]) (auto intro: E that(2))
  have lookup: "hoare (at_books out) (bind_s (lift_res (item intent ''merchant_id'')) (\<lambda>mid.
        bind_s (lift_res (merchant_for ps mid)) (\<lambda>port.
        bind_s (lift_res (item intent ''offer_id'')) (mp_get port))))
     (\<lambda>found db. at_books out db \<and> (\<forall>offer v c. found = Some offer \<longrightarrow> dict_get offer ''price'' = Some v \<longrightarrow> money_dec v = Inr c \<longrightarrow> 0 \<le> c))
     (at_books out)"
    by (intro hoare_lift_bind get_triple) (auto dest: port_of)
  have amt: "item intent ''amount'' = Inr amount" "money_fmt amount = Inr (fmt_cents a)"
    using assms by (simp_all add: item_def money_fmt_def)
  show ?thesis
    unfolding verify_inside_def amt
    apply (rule hoare_either [OF lookup])
     apply (intro hoare_if step refuse_triple off_books_base hoare_raise E)
     apply assumption
    apply (rule hoare_pre)
    subgoal for found
      apply (cases found)
       apply (simp add: refuse_triple)
      apply (simp only: option.case)
      apply (intro hoare_lift_bind hoare_if refuse_triple step off_books_log E)
                 apply (simp_all add: amt)
       apply (rule hoare_return, simp add: verdict_def)
      apply (rule verify_reserve_triple [OF assms])
      apply (rule matching_price_nonneg [OF _ _ _ _ assms(2)])
         apply (assumption | simp)+
      done
    done
qed

end

context merchant_ports
begin

lemma same_text: "\<not> PStr s \<noteq> PStr t \<Longrightarrow> t = s"
  by simp

lemma set_status_triple: "hoare (at_books out) (modify_s (set_status j st)) (\<lambda>_. at_books out) E"
proof (rule hoareI)
  fix db x db'
  assume "at_books out db" "modify_s (set_status j st) db = (Inr x, db')"
  then show "at_books out db'"
    using set_status_books [of db out j st] rooted_same_tree [OF _ set_status_tree, of db out out j st]
    by (auto simp: modify_s_def booked_def books_def)
qed (simp add: modify_s_def)

lemma verify_alive_triple:
  assumes "dict_get intent ''amount'' = Some amount" "money_dec amount = Inr a"
  shows "hoare (at_books out) (verify_alive ev ps claims jti intent sig now True) (verdict jti a out) (maybe_open jti a out)"
  unfolding verify_alive_def
  apply (rule hoare_bind [OF hoare_get], rule hoare_drop)
  subgoal for ms
    apply (cases "dict_get ms jti")
     apply (simp add: refuse_triple)
    apply (simp only: option.case)
    apply (rule hoare_if [OF refuse_triple])
    apply (cases "dead_ancestor ms jti")
     apply (simp only: option.case)
     apply (intro hoare_if hoare_lift_bind refuse_triple verify_inside_triple [OF assms] hoare_bind [OF set_status_triple] maybe_openI(1))
       apply assumption+
    apply (simp add: refuse_triple split: prod.splits)
    done
  done

lemma agent_verify_triple:
  assumes "dict_get intent ''amount'' = Some amount" "money_dec amount = Inr a" "dict_get intent ''mandate_jti'' = Some (PStr jti)"
  shows "hoare (at_books out) (agent_verify ev ps token intent sig True) (verdict jti a out) (maybe_open jti a out)"
proof -
  have E: "at_books out db \<Longrightarrow> maybe_open jti a out db" for db by (rule maybe_openI)
  have step: "hoare (at_books out) (bind_s m f) Q (maybe_open jti a out)"
    if "off_books m" "\<And>x. hoare (at_books out) (f x) Q (maybe_open jti a out)" for m f Q
    by (rule hoare_bind [OF off_books_at2 [OF that(1)]]) (auto intro: E that(2))
  have lift: "hoare (at_books out) (lift_res r) (\<lambda>_. at_books out) (at_books out)" for r :: "'x res"
    by (rule off_books_at) simp
  have named: "dict_get_or intent ''mandate_jti'' PNone = PStr jti" using assms(3) by (simp add: dict_get_or_def)
  show ?thesis
    unfolding agent_verify_def named
    apply (rule hoare_either [OF lift])
     apply (intro hoare_if refuse_triple hoare_raise E, assumption)
    apply (rule hoare_either [OF lift])
     apply (intro hoare_if hoare_lift_bind refuse_triple hoare_raise E, assumption+)
    apply (rule hoare_lift_bind)
     apply (rule hoare_if [OF refuse_triple], drule same_text, hypsubst)
     apply (intro step off_books_now off_books_base hoare_if refuse_triple verify_alive_triple [OF assms(1,2)])
    apply (erule E)
    done
qed

lemma mandate_get_triple:
  "hoare (at_books out) (mandate_get jti) (\<lambda>row db. at_books out db \<and> text_item (mr_claims row) ''jti'' = Inr jti) (at_books out)"
  by (rule hoareI)
    (auto simp: mandate_get_def booked_def books_def named_rows_def text_item_def item_def as_text_def split: option.splits if_splits)

text \<open>The intent of the saga names the mandate and carries the catalogue price, written out.\<close>

definition intent_of :: "string \<Rightarrow> pydict \<Rightarrow> bool" where
  "intent_of jti intent \<longleftrightarrow> dict_get intent ''mandate_jti'' = Some (PStr jti)
     \<and> (\<exists>a. dict_get intent ''amount'' = Some (PStr (fmt_cents a)) \<and> \<bar>a\<bar> < cents_limit)"

lemma build_intent_triple:
  "hoare (at_books out) (build_intent ev jti agent offer) (\<lambda>intent db. at_books out db \<and> intent_of jti intent) (at_books out)"
proof (rule hoareI)
  fix db intent db'
  assume at: "at_books out db" and run: "build_intent ev jti agent offer db = (Inr intent, db')"
  have "at_books out db'" by (rule hoareD(1) [OF off_books_at [OF off_books_intent] at run])
  moreover have "intent_of jti intent"
    using run unfolding build_intent_def
    by (auto simp: bind_s_def lift_res_def return_s_def intent_of_def money_fmt_def bind_res_Inr_iff
        dest!: money_dec_bound split: prod.splits sum.splits)
  ultimately show "at_books out db' \<and> intent_of jti intent" ..
next
  fix db e db'
  assume "at_books out db" "build_intent ev jti agent offer db = (Inl e, db')"
  then show "at_books out db'" by (rule hoareD(2) [OF off_books_at [OF off_books_intent]])
qed

abbreviation some_open :: "string \<Rightarrow> open_reservations \<Rightarrow> agent_db \<Rightarrow> bool" where
  "some_open jti out db \<equiv> \<exists>a. maybe_open jti a out db"

lemma some_openI: "at_books out db \<Longrightarrow> some_open jti out db"
  by (auto intro: maybe_openI)

lemma some_step:
  "off_books m \<Longrightarrow> (\<And>x. hoare (at_books out) (f x) Q (some_open jti out)) \<Longrightarrow> hoare (at_books out) (bind_s m f) Q (some_open jti out)"
  by (rule hoare_bind [OF off_books_at2]) (auto intro: some_openI)

lemma some_last: "off_books m \<Longrightarrow> hoare (at_books out) m (\<lambda>_. at_books out) (some_open jti out)"
  by (rule off_books_at2) (auto intro: some_openI)

lemma submit_triple:
  "hoare (at_books out) (submit_purchase ev ps offer_id mandate_jti merchant_id run) (\<lambda>_. at_books out) (some_open mandate_jti out)"
proof -
  have E: "at_books out db \<Longrightarrow> some_open mandate_jti out db" for db by (rule some_openI)
  have lift: "hoare (at_books out) (lift_res r) (\<lambda>x db. at_books out db \<and> r = Inr x) (at_books out)" for r :: "'x res"
    by (rule hoare_lift) simp
  have get: "hoare (at_books out) (mandate_get mandate_jti) (\<lambda>row db. at_books out db \<and> text_item (mr_claims row) ''jti'' = Inr mandate_jti)
      (some_open mandate_jti out)"
    by (rule hoare_weaken [OF mandate_get_triple]) (auto intro: E)
  have build: "hoare (at_books out) (build_intent ev mandate_jti agent offer) (\<lambda>intent db. at_books out db \<and> intent_of mandate_jti intent)
      (some_open mandate_jti out)" for agent offer
    by (rule hoare_weaken [OF build_intent_triple]) (auto intro: E)
  have after: "hoare (at_books out) (bind_s (agent_verify ev ps token intent sig True) (\<lambda>d.
         if vr_decision d = ESCALATED then rej d
         else if vr_decision d \<noteq> APPROVED then rej2 d
         else charge ev ps pid token claims intent sig (vr_reservation d) run)) (\<lambda>_. at_books out) (some_open mandate_jti out)"
    if "intent_of mandate_jti intent" "text_item claims ''jti'' = Inr mandate_jti" "\<And>d. off_books (rej d)" "\<And>d. off_books (rej2 d)"
    for token intent sig rej rej2 pid claims
  proof -
    from that(1) obtain a where a: "dict_get intent ''amount'' = Some (PStr (fmt_cents a))" "money_dec (PStr (fmt_cents a)) = Inr a"
      and m: "dict_get intent ''mandate_jti'' = Some (PStr mandate_jti)" by (auto simp: intent_of_def)
    have v: "hoare (at_books out) (agent_verify ev ps token intent sig True) (verdict mandate_jti a out) (some_open mandate_jti out)"
      by (rule hoare_weaken [OF agent_verify_triple [OF a m]]) auto
    have c: "hoare (at_books ((mandate_jti, a) # out)) (charge ev ps pid token claims intent sig rsv run) (\<lambda>_. at_books out) (some_open mandate_jti out)" for rsv
      by (rule hoare_weaken [OF charge_triple [OF a that(2)]]) auto
    have neq: "ESCALATED \<noteq> APPROVED" by simp
    show ?thesis
      by (rule hoare_bind [OF v]) (auto simp: verdict_def neq intro!: some_last c that(3,4))
  qed
  show ?thesis
    unfolding submit_purchase_def
    apply (rule hoare_bind [OF get], rule hoare_pre)
    apply (rule hoare_either [OF lift])
     apply (intro some_last off_books_rules)
    apply (rule hoare_pre)
    apply (rule some_step [OF port_get], erule port_of)
    subgoal for row port found
      apply (cases found)
       apply (simp add: some_last)
      apply (simp only: option.case)
      apply (rule some_step, simp)
      apply (rule hoare_bind [OF build], rule hoare_pre)
      apply (rule some_step [OF off_books_base(3)], rule some_step [OF off_books_new_id], rule some_step [OF off_books_base(3)],
          rule some_step [OF off_books_base(3)], rule some_step [OF off_books_rows(1)], rule some_step [OF off_books_log])
      apply (rule after, assumption, assumption)
       apply (intro off_books_rules off_books_purchase off_books_escalation off_books_log)+
      done
    done
qed

end

end
