(* ===== verification/Agent_Escalation.thy ===== *)
theory Agent_Escalation
  imports Agent_Merchant
begin

text \<open>
  The answers to an escalation, \<^verbatim>\<open>src/src/agent/escalation.py\<close>: the human decides, silence denies, and an
  approval sends the purchase through the gate again.
\<close>

section \<open>Looking an escalation up\<close>

definition escalation_get :: "string \<Rightarrow> (agent_db, agent_escalation) sres" where
  "escalation_get esc db =
     (case dict_get (db_escalations db) esc of Some r \<Rightarrow> (Inr r, db) | None \<Rightarrow> (Inl KeyError, db))"

definition esc_is_expired :: "agent_env \<Rightarrow> string \<Rightarrow> (agent_db, bool) sres" where
  "esc_is_expired ev esc =
     bind_s (escalation_get esc) (\<lambda>row.
     if ag_status row \<noteq> ''pending'' then return_s False
     else bind_s (now_iso ev) (\<lambda>now. return_s (ag_timeout_at row < now)))"

definition update_escalation :: "string \<Rightarrow> (agent_escalation \<Rightarrow> agent_escalation) \<Rightarrow> (agent_db, unit) sres" where
  "update_escalation esc f =
     modify_s (\<lambda>db. case dict_get (db_escalations db) esc of
       Some r \<Rightarrow> db\<lparr>db_escalations := dict_set esc (f r) (db_escalations db)\<rparr> | None \<Rightarrow> db)"

text \<open>The answer of \<^verbatim>\<open>resolve\<close> and \<^verbatim>\<open>expire\<close>; \<open>rs_outcome\<close> is what became of the purchase.\<close>

record resolution =
  rs_status :: string
  rs_decision :: "string option"
  rs_replay :: bool
  rs_outcome :: "saga_result option"

text \<open>\<^verbatim>\<open>expire\<close>\<close>

definition expire :: "agent_env \<Rightarrow> string \<Rightarrow> (agent_db, resolution) sres" where
  "expire ev esc =
     bind_s (escalation_get esc) (\<lambda>row.
     if ag_status row \<noteq> ''pending''
     then return_s \<lparr>rs_status = ag_status row, rs_decision = None, rs_replay = False, rs_outcome = None\<rparr>
     else
       bind_s (update_escalation esc (\<lambda>r. r\<lparr>ag_status := ''expired'', ag_decision := Some ''TIMEOUT''\<rparr>)) (\<lambda>_.
       bind_s (update_purchase_row (ag_purchase row)
                 (\<lambda>p. p\<lparr>ap_status := ''rejected'', ap_reason := Some ''ESCALATION_TIMEOUT_DENIED''\<rparr>)) (\<lambda>_.
       bind_s (log_event ev (entry ''escalation.expired''
                 [(''escalation_id'', PStr esc), (''purchase_id'', PStr (ag_purchase row)),
                  (''reason_code'', PStr ''ESCALATION_TIMEOUT_DENIED'')]
                 None None (ag_run row) (Some (ag_mandate row)))) (\<lambda>_.
       return_s \<lparr>rs_status = ''expired'', rs_decision = None, rs_replay = False,
                 rs_outcome = Some (rejected_result None ''ESCALATION_TIMEOUT_DENIED'' '''')\<rparr>))))"

section \<open>The retry\<close>

text \<open>\<^verbatim>\<open>LIKE\<close> of SQL: a percent sign stands for any text, an underscore for any character.\<close>

fun sql_like :: "string \<Rightarrow> string \<Rightarrow> bool" where
  "sql_like [] s = (s = [])"
| "sql_like (p # ps) s =
     (if p = CHR ''%'' then sql_like ps s \<or> (case s of [] \<Rightarrow> False | _ # t \<Rightarrow> sql_like (p # ps) t)
      else (case s of [] \<Rightarrow> False | c # t \<Rightarrow> (p = CHR ''_'' \<or> p = c) \<and> sql_like ps t))"

text \<open>The payload of the last \<^verbatim>\<open>purchase.requested\<close> event whose text mentions the purchase.\<close>

definition requested_payload :: "string \<Rightarrow> agent_db \<Rightarrow> pyval option" where
  "requested_payload pid db =
     (case filter (\<lambda>r. ar_type r = ''purchase.requested''
                \<and> (case agent_canonical_json (ar_payload r) of Inr t \<Rightarrow> sql_like (''%'' @ pid @ ''%'') t | Inl _ \<Rightarrow> False))
             (rev (ad_events (db_audit db))) of
        [] \<Rightarrow> None
      | r # _ \<Rightarrow> Some (ar_payload r))"

text \<open>\<^verbatim>\<open>_retry_through_gate\<close>, first part: the offer and the merchant of the purchase.\<close>

definition retry_target :: "agent_escalation \<Rightarrow> (agent_db, pyval \<times> pyval) sres" where
  "retry_target row db =
     (case dict_get (db_purchases db) (ag_purchase row) of
        None \<Rightarrow> (Inl TypeError, db)
      | Some purchase \<Rightarrow>
          let stored = (case filter (\<lambda>k. ir_jti k = ap_intent purchase) (db_intents db) of k # _ \<Rightarrow> ir_intent k | [] \<Rightarrow> []);
              offer_id = dict_get_or stored ''offer_id'' PNone;
              merchant_id = dict_get_or stored ''merchant_id'' PNone
          in if offer_id \<noteq> PNone then (Inr (offer_id, merchant_id), db)
             else
               (case requested_payload (ag_purchase row) db of
                  None \<Rightarrow> (Inr (PNone, merchant_id), db)
                | Some payload \<Rightarrow>
                    lift_res (bind_res (get_of payload ''offer_id'' PNone) (\<lambda>o1.
                              bind_res (if truthy merchant_id then Inr merchant_id else get_of payload ''merchant_id'' PNone) (\<lambda>m1.
                              Inr (o1, m1)))) db))"

text \<open>The mini-mandate of a sticky approval: one purchase, of the amount that was approved.\<close>

definition derive_mandate :: "agent_env \<Rightarrow> agent_escalation \<Rightarrow> string \<Rightarrow> (agent_db, string) sres" where
  "derive_mandate ev row approver =
     bind_s (mandate_get (ag_mandate row)) (\<lambda>parent.
     bind_s (get_s (\<lambda>db. dict_get (db_purchases db) (ag_purchase row))) (\<lambda>found.
     case found of
       None \<Rightarrow> raise_s TypeError
     | Some purchase \<Rightarrow>
         let claims = mr_claims parent
         in bind_s (lift_res (bind_res (item claims ''cnf'') (\<lambda>c. item_of c ''jwk''))) (\<lambda>jwk.
            bind_s (lift_res (text_item claims ''payment_method_ref'')) (\<lambda>ref.
            bind_s (lift_res (item claims ''scope'')) (\<lambda>scope.
            bind_s (lift_res (bind_res (item claims ''validity'') (\<lambda>v. case v of PDict m \<Rightarrow> Inr m | _ \<Rightarrow> Inl AttributeError))) (\<lambda>validity.
            bind_s (lift_res (text_item claims ''currency'')) (\<lambda>currency.
            bind_s (issue ev (mr_user_id parent) (mr_agent_id parent) jwk ref scope (PBool True)
                      [(''max_per_txn'', PStr (ap_amount purchase)), (''total_budget'', PStr (ap_amount purchase)),
                       (''max_txn'', PDict [(''count'', PInt 1), (''period'', PStr ''once'')])]
                      validity currency (Some (ag_mandate row)) (''approval:'' @ approver)) (\<lambda>(jti, _, _).
            return_s jti))))))))"

definition retry_through_gate ::
  "agent_env \<Rightarrow> ports \<Rightarrow> agent_escalation \<Rightarrow> string \<Rightarrow> bool \<Rightarrow> (agent_db, saga_result) sres" where
  "retry_through_gate ev ps row approver sticky =
     bind_s (retry_target row) (\<lambda>(offer_id, merchant_id).
     if offer_id = PNone then return_s (rejected_result None ''RAIL_ERROR'' ''cannot rebuild the intent to retry'')
     else
       bind_s (if sticky then derive_mandate ev row approver else return_s (ag_mandate row)) (\<lambda>mandate_jti.
       submit_purchase ev ps offer_id mandate_jti merchant_id (ag_run row)))"

section \<open>Resolving\<close>

definition resolve ::
  "agent_env \<Rightarrow> ports \<Rightarrow> string \<Rightarrow> string \<Rightarrow> string \<Rightarrow> string \<Rightarrow> bool \<Rightarrow> (agent_db, resolution) sres" where
  "resolve ev ps esc decision approver channel sticky =
     (if decision \<notin> {''APPROVE'', ''REJECT''} then raise_s ValueError
      else
        bind_s (escalation_get esc) (\<lambda>row.
        if ag_status row \<noteq> ''pending''
        then return_s \<lparr>rs_status = ag_status row, rs_decision = ag_decision row, rs_replay = True, rs_outcome = None\<rparr>
        else
          bind_s (now_iso ev) (\<lambda>now.
          if ag_timeout_at row < now then expire ev esc
          else
            bind_s (now_iso ev) (\<lambda>at.
            bind_s (lift_res (ev_sign_receipt ev
                [(''escalation_id'', PStr esc), (''purchase_id'', PStr (ag_purchase row)), (''decision'', PStr decision),
                 (''approver'', PStr approver), (''channel'', PStr channel), (''at'', PStr at)])) (\<lambda>receipt_sig.
            bind_s (update_escalation esc (\<lambda>r. r\<lparr>ag_status := ''resolved'', ag_decision := Some decision,
                      ag_approver := Some approver, ag_channel := Some channel, ag_receipt_sig := Some receipt_sig\<rparr>)) (\<lambda>_.
            bind_s (log_event ev (entry ''escalation.resolved''
                      [(''escalation_id'', PStr esc), (''purchase_id'', PStr (ag_purchase row)), (''decision'', PStr decision),
                       (''approver'', PStr approver), (''channel'', PStr channel), (''receipt_sig'', PStr receipt_sig)]
                      (Some approver) None (ag_run row) (Some (ag_mandate row)))) (\<lambda>_.
            if decision = ''REJECT''
            then
              bind_s (update_purchase_row (ag_purchase row)
                        (\<lambda>p. p\<lparr>ap_status := ''rejected'', ap_reason := Some ''HUMAN_REJECTED''\<rparr>)) (\<lambda>_.
              return_s \<lparr>rs_status = ''resolved'', rs_decision = Some ''REJECT'', rs_replay = False,
                        rs_outcome = Some (rejected_result None ''HUMAN_REJECTED'' '''')\<rparr>)
            else
              bind_s (retry_through_gate ev ps row approver sticky) (\<lambda>outcome.
              return_s \<lparr>rs_status = ''resolved'', rs_decision = Some ''APPROVE'', rs_replay = False,
                        rs_outcome = Some outcome\<rparr>))))))))"

text \<open>\<^verbatim>\<open>sweep\<close>: every pending escalation past its deadline expires.\<close>

primrec expire_each :: "agent_env \<Rightarrow> string list \<Rightarrow> (agent_db, resolution list) sres" where
  "expire_each ev [] = return_s []"
| "expire_each ev (i # is) = bind_s (expire ev i) (\<lambda>r. bind_s (expire_each ev is) (\<lambda>rs. return_s (r # rs)))"

definition sweep :: "agent_env \<Rightarrow> (agent_db, resolution list) sres" where
  "sweep ev =
     bind_s (now_iso ev) (\<lambda>now.
     bind_s (get_s (\<lambda>db. map fst (filter (\<lambda>(k, r). ag_status r = ''pending'' \<and> ag_timeout_at r < now) (db_escalations db)))) (\<lambda>ids.
     expire_each ev ids))"

end
