(* ===== verification/Agent_Lane.thy ===== *)
theory Agent_Lane
  imports Agent_Saga_Props Agent_Escalation
begin

text \<open>
  The agent lane as a whole: issuing and revoking mandates, price changes, purchases and the answers to
  escalations as one step relation over the database, with the in-process merchant, and what holds in every
  database it reaches.
\<close>

section \<open>Issuing\<close>

lemma chain_from_mono: "set seen \<subseteq> set (chain_from ms seen cur)"
proof (induction ms seen cur rule: chain_from.induct)
  case (1 ms seen cur)
  show ?case
  proof (cases cur)
    case (Some c)
    with 1 show ?thesis by (subst chain_from.simps) auto
  qed (subst chain_from.simps, simp)
qed

lemma chain_from_other: "j \<notin> set (chain_from ms seen cur) \<Longrightarrow> chain_from (dict_set j r ms) seen cur = chain_from ms seen cur"
proof (induction ms seen cur rule: chain_from.induct)
  case (1 ms seen cur)
  note mono = chain_from_mono [of _ ms]
  show ?case
  proof (cases "cur = None \<or> the cur = [] \<or> the cur \<in> set seen")
    case True
    then have "chain_from ms' seen cur = seen" for ms' by (subst chain_from.simps) (auto split: option.splits)
    then show ?thesis by simp
  next
    case False
    then obtain c where c: "cur = Some c" "\<not> (c = [] \<or> c \<in> set seen)" by auto
    let ?next = "case dict_get ms c of None \<Rightarrow> None | Some r \<Rightarrow> mr_parent r"
    have unf: "chain_from ms seen cur = chain_from ms (seen @ [c]) ?next"
      using c by (subst chain_from.simps) simp
    with "1.prems" have notin: "j \<notin> set (chain_from ms (seen @ [c]) ?next)" by simp
    with mono [of "seen @ [c]" ?next] have "j \<noteq> c" by auto
    then have "chain_from (dict_set j r ms) seen cur = chain_from (dict_set j r ms) (seen @ [c]) ?next"
      using c by (subst chain_from.simps) simp
    with "1.IH" [OF c notin] unf show ?thesis by simp
  qed
qed

lemma mandate_chain_other: "j \<notin> set (mandate_chain ms i) \<Longrightarrow> mandate_chain (dict_set j r ms) i = mandate_chain ms i"
  by (simp add: mandate_chain_def chain_from_other)

lemma new_mandate_sound:
  assumes inv: "ledger_sound ms out" "rooted ms out" and new: "dict_get ms j = None"
    and r: "row_sound r" "reserved_c r = 0"
  shows "ledger_sound (dict_set j r ms) out" "rooted (dict_set j r ms) out"
proof -
  have out: "(i, a) \<in> set out \<Longrightarrow> j \<notin> set (mandate_chain ms i)" for i a
    using inv(2) new by (fastforce simp: rooted_def)
  then have chain: "(i, a) \<in> set out \<Longrightarrow> mandate_chain (dict_set j r ms) i = mandate_chain ms i" for i a
    by (blast intro: mandate_chain_other)
  have owed: "owed (dict_set j r ms) out k = owed ms out k" for k
    unfolding owed_def by (intro arg_cong [where f = sum_list] map_cong refl) (auto simp: chain)
  have "owed ms out j = 0"
    unfolding owed_def using out by (induction out) (auto, blast+)
  with owed inv(1) r show "ledger_sound (dict_set j r ms) out"
    by (auto simp: ledger_sound_def)
  show "rooted (dict_set j r ms) out" using inv(2) by (fastforce simp: rooted_def chain)
qed

section \<open>The other operations keep the books\<close>

lemma off_books_rail_delete [simp]: "off_books (\<lambda>db. case delete_token t db of (b, db') \<Rightarrow> (Inr b, db'))"
  by (auto simp: keeps_def delete_token_def books_def split: option.splits)

lemma off_books_update_escalation [simp]: "off_books (update_escalation esc f)"
  unfolding update_escalation_def by (rule off_books_modify) (simp add: books_def split: option.splits)

lemma off_books_escalation_get [simp]: "off_books (escalation_get esc)"
  by (simp add: keeps_def escalation_get_def split: option.splits)

lemma off_books_expire [simp]: "off_books (expire ev esc)"
  unfolding expire_def
  by (intro off_books_rules off_books_escalation_get off_books_update_escalation off_books_purchase off_books_log)

lemma off_books_expire_each [simp]: "off_books (expire_each ev ids)"
  by (induction ids) (auto intro!: keeps_bind)

lemma off_books_sweep [simp]: "off_books (sweep ev)"
  unfolding sweep_def by (intro off_books_rules off_books_now off_books_expire_each)

lemma off_books_retry_target [simp]: "off_books (retry_target row)"
  by (auto simp: keeps_def retry_target_def Let_def lift_res_def split: option.splits list.splits sum.splits)

lemma claim_limits_budget:
  assumes "claim_limits limits = Inr lims"
  obtains c where "bind_res (item_of lims ''total_budget'') money_dec = Inr c"
  using assms
  by (auto simp: claim_limits_def bind_res_Inr_iff money_fmt_def item_of_def item_def dest!: money_dec_bound)

lemma fresh_row_sound:
  assumes "mr_reserved r = ''0.00''"
  shows "mr_spent r = ''0.00'' \<Longrightarrow> row_budget r = Inr c \<Longrightarrow> row_sound r" "reserved_c r = 0"
proof -
  have zero: "fmt_cents 0 = ''0.00''" by code_simp
  with money_dec_fmt [of 0] have z: "money_dec (PStr ''0.00'') = Inr 0" by simp
  show "reserved_c r = 0" by (simp add: reserved_c_def assms z)
  then show "mr_spent r = ''0.00'' \<Longrightarrow> row_budget r = Inr c \<Longrightarrow> row_sound r"
    by (simp add: row_sound_def spent_c_def budget_c_def assms z zero)
qed

context merchant_ports
begin

lemma insert_mandate_triple:
  assumes "row_sound r" "reserved_c r = 0" "dict_get (mr_claims r) ''jti'' = Some (PStr jti)"
  shows "hoare (at_books out) (\<lambda>db. if dict_get (db_mandates db) jti \<noteq> None then (Inl DatabaseError, db)
            else (Inr (), db\<lparr>db_mandates := dict_set jti r (db_mandates db)\<rparr>)) (\<lambda>_. at_books out) (at_books out)"
proof (rule hoareI)
  fix db x db'
  assume "at_books out db" "(if dict_get (db_mandates db) jti \<noteq> None then (Inl DatabaseError, db)
            else (Inr (), db\<lparr>db_mandates := dict_set jti r (db_mandates db)\<rparr>)) = (Inr x, db')"
  then show "at_books out db'"
    using new_mandate_sound [OF _ _ _ assms(1,2)] assms(3)
    by (auto simp: booked_def books_def named_rows_def split: if_splits)
qed (auto split: if_splits)

lemma at_step:
  "off_books m \<Longrightarrow> (\<And>x. hoare (at_books out) (f x) Q (at_books out)) \<Longrightarrow> hoare (at_books out) (bind_s m f) Q (at_books out)"
  by (rule hoare_bind [OF off_books_at])

lemma issue_triple:
  "hoare (at_books out) (issue ev user_id agent_id jwk pm_ref scope conditions limits validity currency parent signed_with)
     (\<lambda>_. at_books out) (at_books out)"
proof -
  have pm: "off_books (modify_s (\<lambda>db. if dict_get (db_instruments db) pm_ref \<noteq> None then db
                else db\<lparr>db_instruments := f db\<rparr>))" for f
    by (rule off_books_modify) (simp add: books_def)
  show ?thesis
    unfolding issue_def Let_def
    apply (rule at_step [OF off_books_new_id], rule at_step [OF off_books_now(2)], rule at_step [OF off_books_base(3)])
    apply (rule hoare_lift_bind)
     apply (erule claim_limits_budget)
     apply (rule at_step [OF off_books_base(3)])
     apply (rule hoare_bind [OF insert_mandate_triple])
        apply (rule fresh_row_sound(1), simp, simp, simp add: row_budget_def item_def)
       apply (rule fresh_row_sound(2), simp)
      apply simp
     apply (rule at_step [OF pm], rule at_step [OF off_books_log], rule hoare_return, assumption+)
    done
qed

lemma revoke_triple: "hoare (at_books out) (revoke ev jti actor reason) (\<lambda>_. at_books out) (at_books out)"
proof -
  have "modify_s (\<lambda>db. case dict_get (db_mandates db) jti of
               Some r \<Rightarrow> db\<lparr>db_mandates := dict_set jti (r\<lparr>mr_status := ''revoked''\<rparr>) (db_mandates db)\<rparr>
             | None \<Rightarrow> db) = modify_s (set_status jti ''revoked'')"
    by (rule arg_cong [where f = modify_s]) (simp add: set_status_def fun_eq_iff split: option.splits)
  then show ?thesis
    unfolding revoke_def
    by (simp only:)
      (rule hoare_bind [OF set_status_triple], rule off_books_at, intro off_books_rules off_books_rail_delete off_books_log)
qed

lemma derive_triple: "hoare (at_books out) (derive_mandate ev row approver) (\<lambda>_. at_books out) (at_books out)"
proof -
  have get: "off_books (mandate_get j)" for j by (rule off_core_books) simp
  show ?thesis
    unfolding derive_mandate_def Let_def
    apply (rule at_step [OF get], rule at_step [OF off_books_base(4)])
    subgoal for parent found
      apply (cases found)
       apply (simp add: off_books_at)
      apply (simp only: option.case)
      apply ((rule at_step [OF off_books_base(3)])+, rule hoare_bind [OF issue_triple])
      apply (auto intro: hoare_return split: prod.splits)
      done
    done
qed

text \<open>Resolving an escalation: at most the purchase it retries is left open, and only by an exception.\<close>

abbreviation any_open :: "open_reservations \<Rightarrow> agent_db \<Rightarrow> bool" where
  "any_open out db \<equiv> \<exists>jti a. maybe_open jti a out db"

lemma any_openI: "at_books out db \<Longrightarrow> any_open out db"
  by (auto intro: maybe_openI)

lemma any_step:
  "off_books m \<Longrightarrow> (\<And>x. hoare (at_books out) (f x) Q (any_open out)) \<Longrightarrow> hoare (at_books out) (bind_s m f) Q (any_open out)"
  by (rule hoare_bind [OF off_books_at2]) (auto intro: any_openI)

lemma any_last: "off_books m \<Longrightarrow> hoare (at_books out) m (\<lambda>_. at_books out) (any_open out)"
  by (rule off_books_at2) (auto intro: any_openI)

lemma retry_triple: "hoare (at_books out) (retry_through_gate ev ps row approver sticky) (\<lambda>_. at_books out) (any_open out)"
proof -
  have sub: "hoare (at_books out) (submit_purchase ev ps o1 j m run) (\<lambda>_. at_books out) (any_open out)" for o1 j m run
    by (rule hoare_weaken [OF submit_triple]) auto
  have pick: "hoare (at_books out) (if sticky then derive_mandate ev row approver else return_s (ag_mandate row)) (\<lambda>_. at_books out) (any_open out)"
    by (rule hoare_if, rule hoare_weaken [OF derive_triple]) (auto intro: any_openI hoare_return)
  show ?thesis
    unfolding retry_through_gate_def split_beta
    by (rule any_step [OF off_books_retry_target], rule hoare_if, simp add: any_last, rule hoare_bind [OF pick], rule sub)
qed

lemma resolve_triple:
  "hoare (at_books out) (resolve ev ps esc decision approver channel sticky) (\<lambda>_. at_books out) (any_open out)"
proof -
  have last: "hoare (at_books out) (bind_s (retry_through_gate ev ps row approver sticky) (\<lambda>outcome. return_s (f outcome)))
      (\<lambda>_. at_books out) (any_open out)" for row f
    by (rule hoare_bind [OF retry_triple]) (auto intro: hoare_return)
  show ?thesis
    unfolding resolve_def
    apply (rule hoare_if, simp add: any_last)
    apply (rule any_step [OF off_books_escalation_get], rule hoare_if, simp add: any_last)
    apply (rule any_step [OF off_books_now(1)], rule hoare_if, simp add: any_last)
    apply (rule any_step [OF off_books_now(1)], rule any_step [OF off_books_base(3)],
        rule any_step [OF off_books_update_escalation], rule any_step [OF off_books_log], rule hoare_if)
     apply (intro any_last off_books_rules off_books_purchase)
    apply (rule last)
    done
qed

end

section \<open>The in-process merchant\<close>

text \<open>A catalogue in which every price is at least zero.\<close>

definition priced :: "(string, offer_row) dict \<Rightarrow> bool" where
  "priced offers \<longleftrightarrow> (\<forall>oid r c. dict_get offers oid = Some r \<longrightarrow> money_dec (PStr (ow_amount r)) = Inr c \<longrightarrow> 0 \<le> c)"

lemma local_get_price:
  assumes "priced (db_offers db)" "local_get m oid db = (Inr (Some off), db')" "dict_get off ''price'' = Some v" "money_dec v = Inr a"
  shows "0 \<le> a"
proof -
  from assms(2,3) obtain o1 r c where r: "dict_get (db_offers db) o1 = Some r" and c: "money_dec (PStr (ow_amount r)) = Inr c"
    and v: "v = PStr (fmt_cents c)"
    by (auto simp: local_get_def get_offer_def bind_s_def lift_res_def get_s_def return_s_def normalise_offer_def bind_res_Inr_iff
        row_to_offer_def item_def Let_def money_fmt_def split: sum.splits option.splits if_splits)
  from money_dec_bound [OF c] v assms(4) have "a = c" by simp
  with assms(1) r c show ?thesis by (auto simp: priced_def)
qed

interpretation lm: merchant_ports "[(MERCHANT_ID, local_merchant ev)]" priced for ev
proof
  fix p oid off claims token intent sig vf db db' v a
  assume p: "p \<in> snd ` set [(MERCHANT_ID, local_merchant ev)]"
  then show "off_books (mp_get p oid)" "off_books (mp_settle p off claims token intent sig vf)"
    by (simp_all add: local_merchant_def)
  show "priced (db_offers db) \<Longrightarrow> mp_get p oid db = (Inr (Some off), db') \<Longrightarrow> dict_get off ''price'' = Some v \<Longrightarrow>
      money_dec v = Inr a \<Longrightarrow> 0 \<le> a"
    using p by (auto simp: local_merchant_def intro: local_get_price)
qed

lemma set_price_triple:
  assumes "\<And>c. money_dec amount = Inr c \<Longrightarrow> 0 \<le> c"
  shows "hoare (lm.at_books out) (set_price ev oid amount) (\<lambda>_. lm.at_books out) (lm.at_books out)"
proof -
  have upd: "hoare (lm.at_books out) (modify_s (\<lambda>db. case dict_get (db_offers db) oid of
       Some r \<Rightarrow> db\<lparr>db_offers := dict_set oid (r\<lparr>ow_amount := a\<rparr>) (db_offers db)\<rparr> | None \<Rightarrow> db)) (\<lambda>_. lm.at_books out) (lm.at_books out)"
    if "money_fmt amount = Inr a" for a
  proof -
    from that obtain c where c: "money_dec amount = Inr c" "a = fmt_cents c" by (auto simp: money_fmt_def bind_res_Inr_iff)
    with assms [OF c(1)] money_dec_bound [OF c(1)] show ?thesis
      by (intro hoareI) (auto simp: modify_s_def lm.booked_def books_def priced_def split: option.splits if_splits)
  qed
  show ?thesis
    unfolding set_price_def
    by (rule hoare_lift_bind, rule hoare_bind [OF upd], assumption, rule lm.off_books_at, intro off_books_rules off_books_log)
qed

section \<open>The step relation\<close>

text \<open>
  A step is one call of the lane's operations, whether it returns or raises; the merchant does not set
  negative prices.
\<close>

definition lane_ports :: "agent_env \<Rightarrow> ports" where
  "lane_ports ev = [(MERCHANT_ID, local_merchant ev)]"

inductive agent_step :: "agent_env \<Rightarrow> agent_db \<Rightarrow> agent_db \<Rightarrow> bool" for ev where
  issued: "issue ev user_id agent_id jwk pm_ref scope conditions limits validity currency parent signed_with db = (r, db') \<Longrightarrow> agent_step ev db db'"
| revoked: "revoke ev jti actor reason db = (r', db') \<Longrightarrow> agent_step ev db db'"
| repriced: "(\<And>c. money_dec amount = Inr c \<Longrightarrow> 0 \<le> c) \<Longrightarrow> set_price ev oid amount db = (r'', db') \<Longrightarrow> agent_step ev db db'"
| purchased: "submit_purchase ev (lane_ports ev) offer_id mandate_jti merchant_id run db = (q, db') \<Longrightarrow> agent_step ev db db'"
| resolved: "resolve ev (lane_ports ev) esc decision approver channel sticky db = (q', db') \<Longrightarrow> agent_step ev db db'"
| swept: "sweep ev db = (q'', db') \<Longrightarrow> agent_step ev db db'"

inductive agent_reach :: "agent_env \<Rightarrow> agent_db \<Rightarrow> bool" for ev where
  agent_start: "db_mandates db = [] \<Longrightarrow> priced (db_offers db) \<Longrightarrow> agent_reach ev db"
| agent_more: "agent_reach ev db \<Longrightarrow> agent_step ev db db' \<Longrightarrow> agent_reach ev db'"

lemma any_open_books: "lm.any_open out db \<Longrightarrow> \<exists>out. lm.at_books out db"
  by (auto simp: lm.maybe_open_def)

lemma agent_step_books: "agent_step ev db db' \<Longrightarrow> lm.at_books out db \<Longrightarrow> \<exists>out. lm.at_books out db'"
proof (induction rule: agent_step.induct)
  case (issued user_id agent_id jwk pm_ref scope conditions limits validity currency parent signed_with db r db')
  show ?case by (rule hoare_snd [OF lm.issue_triple issued(2,1)]) auto
next
  case (revoked jti actor reason db r db')
  show ?case by (rule hoare_snd [OF lm.revoke_triple revoked(2,1)]) auto
next
  case (repriced amount oid db r db')
  show ?case by (rule hoare_snd [OF set_price_triple repriced(3,2)]) (auto dest: repriced(1))
next
  case (purchased offer_id mandate_jti merchant_id run db q db')
  show ?case
    by (rule hoare_snd [OF lm.submit_triple purchased(2) purchased(1) [unfolded lane_ports_def]]) (auto simp: lm.maybe_open_def)
next
  case (resolved esc decision approver channel sticky db q db')
  show ?case
    by (rule hoare_snd [OF lm.resolve_triple resolved(2) resolved(1) [unfolded lane_ports_def]]) (auto simp: lm.maybe_open_def)
next
  case (swept db q db')
  show ?case by (rule hoare_snd [OF lm.off_books_at [OF off_books_sweep] swept(2,1)]) auto
qed

lemma agent_reach_books: "agent_reach ev db \<Longrightarrow> \<exists>out. lm.at_books out db"
proof (induction rule: agent_reach.induct)
  case (agent_start db)
  then have "lm.at_books [] db" by (simp add: lm.booked_def books_def ledger_sound_def rooted_def named_rows_def)
  then show ?case ..
qed (auto dest: agent_step_books)

section \<open>Properties\<close>

text \<open>
  C11: In every database that the agent lane reaches (mandates issued and revoked, purchases submitted,
  escalations answered or left to expire, prices changed, and whether or not the calls raised), the spent and
  the reserved total of each mandate are amounts of at least zero that together stay within its budget. A
  mandate derived from another by a sticky approval is such a mandate, and so are its ancestors.
\<close>

theorem agent_budget_is_never_exceeded:
  assumes "agent_reach ev db" "dict_get (db_mandates db) jti = Some r"
  shows "\<exists>spent reserved budget. money_dec (PStr (mr_spent r)) = Inr spent \<and> money_dec (PStr (mr_reserved r)) = Inr reserved
    \<and> row_budget r = Inr budget \<and> 0 \<le> spent \<and> 0 \<le> reserved \<and> spent + reserved \<le> max 0 budget"
proof -
  from agent_reach_books [OF assms(1)] obtain out where "ledger_sound (db_mandates db) out"
    by (auto simp: lm.booked_def books_def)
  from ledger_soundD(1) [OF this assms(2)] have "row_sound r" .
  with row_sound_bounds(4,5) [OF this] show ?thesis by (auto simp: row_sound_def)
qed

lemma quiet_books:
  assumes "agent_reach ev db" "list_all (\<lambda>(j, r). mr_reserved r = ''0.00'') (db_mandates db)"
  shows "lm.at_books [] db"
proof -
  from agent_reach_books [OF assms(1)] obtain out where b: "lm.at_books out db" ..
  have "reserved_c r = 0" if "dict_get (db_mandates db) j = Some r" for j r
    using that assms(2) by (intro fresh_row_sound(2)) (auto simp: list_all_iff dest!: map_of_SomeD)
  with b show ?thesis by (auto simp: lm.booked_def books_def ledger_sound_def rooted_def)
qed

lemma books_quiet:
  assumes "lm.at_books [] db" "dict_get (db_mandates db) jti = Some r"
  shows "mr_reserved r = ''0.00''"
proof -
  have "row_sound r" "reserved_c r = 0"
    using assms by (auto simp: lm.booked_def books_def dest: ledger_soundD)
  moreover have "fmt_cents 0 = ''0.00''" by code_simp
  ultimately show ?thesis by (simp add: row_sound_def)
qed

text \<open>
  C12: A purchase that returns, whatever its outcome (captured, rejected, compensated after the rail failed, or
  escalated), leaves no money reserved, and so does an answer to an escalation, whether the human approved
  (the purchase goes through the gate again, possibly under a mandate derived for it), rejected, or came too
  late: from a reachable database in which nothing is reserved, nothing is reserved afterwards either, on
  the mandate or on any ancestor.
\<close>

theorem purchase_leaves_nothing_reserved:
  assumes "agent_reach ev db" "list_all (\<lambda>(j, r). mr_reserved r = ''0.00'') (db_mandates db)"
    and "submit_purchase ev (lane_ports ev) offer_id mandate_jti merchant_id run db = (Inr res, db')
       \<or> resolve ev (lane_ports ev) esc decision approver channel sticky db = (Inr res', db')"
    and "dict_get (db_mandates db') jti = Some r"
  shows "mr_reserved r = ''0.00''"
  using assms(3)
proof
  assume "submit_purchase ev (lane_ports ev) offer_id mandate_jti merchant_id run db = (Inr res, db')"
  from hoareD(1) [OF lm.submit_triple quiet_books [OF assms(1,2)] this [unfolded lane_ports_def]] assms(4)
  show ?thesis by (rule books_quiet)
next
  assume "resolve ev (lane_ports ev) esc decision approver channel sticky db = (Inr res', db')"
  from hoareD(1) [OF lm.resolve_triple quiet_books [OF assms(1,2)] this [unfolded lane_ports_def]] assms(4)
  show ?thesis by (rule books_quiet)
qed

section \<open>A concrete run\<close>

definition run_env :: agent_env where
  "run_env = \<lparr>ev_sha = (\<lambda>_. ''h''), ev_scrub = (\<lambda>s. s), ev_uuid = (\<lambda>n. replicate n (CHR ''x'')),
     ev_nonce = (\<lambda>n. replicate n (CHR ''n'')), ev_clock = (\<lambda>_. 0), ev_sign_token = (\<lambda>_. Inr ''token''),
     ev_verify_token = (\<lambda>_. Inl BadSignature), ev_sign_detached = (\<lambda>_ _. Inr ''signature''), ev_sign_receipt = (\<lambda>_. Inr ''receipt''),
     ev_verify_detached = (\<lambda>_ _ _. Inr ()), ev_exn_text = (\<lambda>_. ''''), ev_escalation_timeout_s = 90, ev_max_escalations_per_hour = 10\<rparr>"

definition run_start :: agent_db where
  "run_start = \<lparr>db_audit = empty_audit, db_mandates = [], db_intents = [], db_purchases = [],
     db_escalations = [(''esc_1'', \<lparr>ag_purchase = ''pur_1'', ag_mandate = ''mdt_1'', ag_run = None, ag_approver_id = None,
        ag_status = ''pending'', ag_diff = [], ag_timeout_at = ''2026-01-01T00:00:00+00:00'', ag_decision = None,
        ag_approver = None, ag_channel = None, ag_receipt_sig = None\<rparr>)],
     db_instruments = [], db_captures = [], db_agents = [], db_counters = [], db_offers = [], db_draws = 0\<rparr>"

definition run_issue :: "(exn + string \<times> string \<times> pydict) \<times> agent_db" where
  "run_issue = issue run_env ''ana'' ''agent_1'' (PDict []) ''pm_1'' (PDict []) (PBool True)
     [(''max_per_txn'', PStr ''0.00''), (''total_budget'', PStr ''0.00'')] [] ''USD'' None ''passkey'' run_start"

lemma run_zero: "money_dec (PStr ''0.00'') = Inr 0" "fmt_cents 0 = ''0.00''"
proof -
  show z: "fmt_cents 0 = ''0.00''" by code_simp
  show "money_dec (PStr ''0.00'') = Inr 0" using money_dec_fmt [of 0] by (simp add: z)
qed

lemma run_reach: "agent_reach run_env (snd run_issue)"
proof (rule agent_more [OF agent_start])
  show "db_mandates run_start = []" "priced (db_offers run_start)" by (simp_all add: run_start_def priced_def)
  show "agent_step run_env run_start (snd run_issue)"
    unfolding run_issue_def by (rule issued [OF prod.collapse [symmetric]])
qed

lemma log_keeps: "log_event ev a db = (r, db') \<Longrightarrow> core db' = core db"
  by (rule keepsD [where I = "\<lambda>x. core x = core db", OF off_core_log [THEN spec] refl])

lemma run_mandates:
  obtains claims where "dict_get claims ''limits'' = Some (PDict [(''max_per_txn'', PStr ''0.00''), (''total_budget'', PStr ''0.00''),
      (''max_txn'', PDict [(''count'', PInt 3), (''period'', PStr ''month'')])])"
    "db_mandates (snd run_issue) = [(''mdt_'', \<lparr>mr_user_id = ''ana'', mr_agent_id = ''agent_1'', mr_status = ''active'',
      mr_claims = claims, mr_token = Some ''token'', mr_reserved = ''0.00'', mr_spent = ''0.00'', mr_txn_count = 0, mr_parent = None\<rparr>)]"
    "db_escalations (snd run_issue) = db_escalations run_start"
proof -
  let ?r = "\<lambda>claims. \<lparr>mr_user_id = ''ana'', mr_agent_id = ''agent_1'', mr_status = ''active'',
      mr_claims = claims, mr_token = Some ''token'', mr_reserved = ''0.00'', mr_spent = ''0.00'', mr_txn_count = 0, mr_parent = None\<rparr>"
  have lims: "claim_limits [(''max_per_txn'', PStr ''0.00''), (''total_budget'', PStr ''0.00'')]
     = Inr (PDict [(''max_per_txn'', PStr ''0.00''), (''total_budget'', PStr ''0.00''),
         (''max_txn'', PDict [(''count'', PInt 3), (''period'', PStr ''month'')])])"
    by (simp add: claim_limits_def item_def money_fmt_def run_zero dict_get_or_def)
  have "\<exists>claims. dict_get claims ''limits'' = Some (PDict [(''max_per_txn'', PStr ''0.00''), (''total_budget'', PStr ''0.00''),
      (''max_txn'', PDict [(''count'', PInt 3), (''period'', PStr ''month'')])])
    \<and> core (snd run_issue) = core (run_start\<lparr>db_mandates := [(''mdt_'', ?r claims)], db_instruments := [(''pm_1'', \<lparr>it_mandate = ''mdt_'', it_status = ''active''\<rparr>)]\<rparr>)"
    unfolding run_issue_def issue_def
    by (auto simp: bind_s_def new_id_def draw_def return_s_def now_ts_def clock_def lift_res_def modify_s_def Let_def lims
        run_env_def run_start_def dict_get_or_def core_def books_def or_str_def
        dest: log_keeps split: prod.splits sum.splits)
  then show ?thesis using that by (auto simp: core_def books_def)
qed

lemma run_row:
  obtains r where "dict_get (db_mandates (snd run_issue)) ''mdt_'' = Some r" "mr_spent r = ''0.00''" "mr_reserved r = ''0.00''"
    "mr_status r = ''active''" "row_budget r = Inr 0"
  by (rule run_mandates) (auto simp: row_budget_def item_def item_of_def run_zero)

theorem agent_budget_is_never_exceeded_witness:
  "\<exists>r. agent_reach run_env (snd run_issue) \<and> dict_get (db_mandates (snd run_issue)) ''mdt_'' = Some r
     \<and> (\<exists>spent reserved budget. money_dec (PStr (mr_spent r)) = Inr spent \<and> money_dec (PStr (mr_reserved r)) = Inr reserved
          \<and> row_budget r = Inr budget \<and> 0 \<le> spent \<and> 0 \<le> reserved \<and> spent + reserved \<le> max 0 budget)"
proof -
  obtain r where r: "dict_get (db_mandates (snd run_issue)) ''mdt_'' = Some r" by (rule run_row)
  from agent_budget_is_never_exceeded [OF run_reach r] r run_reach show ?thesis by blast
qed

theorem purchase_leaves_nothing_reserved_witness:
  "\<exists>r. submit_purchase run_env (lane_ports run_env) (PStr ''f1'') ''mdt_'' (PStr ''nobody'') None (snd run_issue)
       = (Inr (rejected_result None ''MERCHANT_NOT_ALLOWED'' (''no merchant registered as '' @ py_repr (PStr ''nobody''))), snd run_issue)
     \<and> dict_get (db_mandates (snd run_issue)) ''mdt_'' = Some r \<and> mr_reserved r = ''0.00''"
proof -
  obtain r where r: "dict_get (db_mandates (snd run_issue)) ''mdt_'' = Some r" by (rule run_row)
  have run: "submit_purchase run_env (lane_ports run_env) (PStr ''f1'') ''mdt_'' (PStr ''nobody'') None (snd run_issue)
       = (Inr (rejected_result None ''MERCHANT_NOT_ALLOWED'' (''no merchant registered as '' @ py_repr (PStr ''nobody''))), snd run_issue)"
    using r by (simp add: submit_purchase_def bind_s_def either_s_def mandate_get_def lift_res_def merchant_for_def lane_ports_def
        MERCHANT_ID_def return_s_def)
  have quiet: "list_all (\<lambda>(j, r). mr_reserved r = ''0.00'') (db_mandates (snd run_issue))"
    by (rule run_mandates) simp
  from purchase_leaves_nothing_reserved [OF run_reach quiet disjI1 [OF run] r] run r show ?thesis by blast
qed

end
