(* ===== verification/Agent_Answers.thy ===== *)
theory Agent_Answers
  imports Agent_Lane
begin

text \<open>
  What the human's answer is worth: an escalation is answered once, an answer that comes too late denies, and
  a revoked mandate is not charged, whoever approves.
\<close>

section \<open>An answered escalation stays as it is\<close>

abbreviation spares :: "string \<Rightarrow> agent_escalation \<Rightarrow> (agent_db, 'a) sres \<Rightarrow> bool" where
  "spares esc r m \<equiv> keeps (\<lambda>db. dict_get (db_escalations db) esc = Some r) m"

lemma off_core_spares: "off_core m \<Longrightarrow> spares esc r m"
  by (erule off_core_keeps) (simp add: core_def)

lemmas spares_leaf [simp] = off_core_new_id [THEN off_core_spares] off_core_nonce [THEN off_core_spares]
  off_core_clock [THEN off_core_spares] off_core_now [THEN off_core_spares] off_core_log [THEN off_core_spares]
  off_core_guard [THEN off_core_spares] off_core_purchase [THEN off_core_spares] off_core_insert [THEN off_core_spares]
  off_core_refuse [THEN off_core_spares] off_core_intent [THEN off_core_spares] off_core_mandate_get [THEN off_core_spares]
  off_core_get_offer [THEN off_core_spares] off_core_local_get [THEN off_core_spares]

lemma spares_modify: "(\<And>db. db_escalations (f db) = db_escalations db) \<Longrightarrow> spares esc r (modify_s f)"
  by (simp add: keeps_def modify_s_def)

lemma spares_mandates [simp]: "spares esc r (on_mandates f)"
  by (auto simp: keeps_def on_mandates_def split: prod.splits)

lemma spares_insert [simp]: "spares esc r (insert_escalation e x)"
  by (auto simp: keeps_def insert_escalation_def)

lemma spares_escalation_get [simp]: "spares esc r (escalation_get e)"
  by (simp add: keeps_def escalation_get_def split: option.splits)

lemma spares_open [simp]: "spares esc r (open_escalation ev pid j run diff reason)"
  unfolding open_escalation_def Let_def by (auto intro!: keeps_bind)

lemma spares_capture [simp]: "spares esc r (rail_capture ev ref amount cur rid)"
  unfolding rail_capture_def
  by (auto simp: Let_def split: option.splits prod.splits intro!: keeps_bind keeps_if spares_modify)

lemma spares_checkout [simp]: "spares esc r (checkout_capture ev claims intent offer live)"
  unfolding checkout_capture_def by (auto intro!: keeps_bind)

lemma spares_checkout_charge [simp]: "spares esc r (checkout_charge ev token intent sig vf)"
  unfolding checkout_charge_def by (auto intro!: keeps_bind keeps_either keeps_if split: option.splits)

lemma spares_local [simp]: "spares esc r (local_settle ev o1 c t i s v)"
  unfolding local_settle_def by (auto intro!: keeps_bind keeps_try split: option.splits exn.splits)

lemma lane_port: "merchant_for (lane_ports ev) k = Inr p \<Longrightarrow> p = local_merchant ev"
  by (auto simp: merchant_for_def lane_ports_def split: pyval.splits if_splits)

lemma spares_compensate [simp]: "spares esc r (compensate ev pid claims jti intent code detail run)"
  and spares_capture_purchase [simp]: "spares esc r (capture_purchase ev pid claims jti intent result run)"
  unfolding compensate_def capture_purchase_def by (auto intro!: keeps_bind spares_modify)

lemma keeps_lane_port:
  "keeps P (f (local_merchant ev)) \<Longrightarrow> keeps P (bind_s (lift_res (merchant_for (lane_ports ev) k)) f)"
  by (rule keeps_lift_bind) (auto dest: lane_port)

lemma local_merchant_ops [simp]:
  "mp_get (local_merchant ev) = local_get MERCHANT_ID" "mp_settle (local_merchant ev) = local_settle ev"
  by (simp_all add: local_merchant_def)

lemma spares_charge [simp]: "spares esc r (charge ev (lane_ports ev) pid token claims intent sig rsv run)"
  unfolding charge_def Let_def
  by (rule keeps_bind [OF keeps_lift], rule keeps_bind, simp, rule keeps_bind [OF keeps_lift], rule keeps_lane_port)
    (auto intro!: keeps_bind keeps_either split: exn.splits)

lemma spares_verify_reserve [simp]: "spares esc r (verify_reserve ev claims jti intent sig)"
  unfolding verify_reserve_def by (auto intro!: keeps_bind)

lemma spares_inside [simp]: "spares esc r (verify_inside ev (lane_ports ev) claims jti row intent sig now reserve)"
proof -
  have "spares esc r (bind_s (lift_res (item intent ''merchant_id'')) (\<lambda>mid.
        bind_s (lift_res (merchant_for (lane_ports ev) mid)) (\<lambda>port.
        bind_s (lift_res (item intent ''offer_id'')) (mp_get port))))"
    by (rule keeps_bind [OF keeps_lift], rule keeps_lane_port) (auto intro!: keeps_bind)
  then show ?thesis
    unfolding verify_inside_def by (rule keeps_either) (auto intro!: keeps_bind keeps_if split: option.splits)
qed

lemma spares_status [simp]: "spares esc r (modify_s (set_status j st))"
  by (rule spares_modify) (simp add: set_status_def split: option.splits)

lemma spares_verify [simp]: "spares esc r (agent_verify ev (lane_ports ev) token intent sig reserve)"
proof -
  have "spares esc r (verify_alive ev (lane_ports ev) claims jti intent sig now reserve)" for claims jti now
    unfolding verify_alive_def by (auto intro!: keeps_bind keeps_if split: option.splits)
  then show ?thesis
    unfolding agent_verify_def by (auto intro!: keeps_bind keeps_either keeps_if)
qed

lemma spares_submit [simp]: "spares esc r (submit_purchase ev (lane_ports ev) oid j mid run)"
proof -
  have "spares esc r (either_s (lift_res (merchant_for (lane_ports ev) mid)) h k)"
    if "\<And>e. spares esc r (h e)" "spares esc r (k (local_merchant ev))" for h and k :: "merchant_port \<Rightarrow> (agent_db, saga_result) sres"
    using that by (auto simp: keeps_def either_s_def lift_res_def dest: lane_port split: sum.splits)
  note port = this
  show ?thesis
    unfolding submit_purchase_def
    by (rule keeps_bind, simp, rule port) (auto intro!: keeps_bind keeps_if split: option.splits)
qed

lemma spares_issue [simp]: "spares esc r (issue ev u a jwk pm scope conditions limits validity currency parent sw)"
proof -
  have "spares esc r (\<lambda>db. if dict_get (db_mandates db) j \<noteq> None then (Inl DatabaseError, db)
     else (Inr (), db\<lparr>db_mandates := dict_set j row (db_mandates db)\<rparr>))" for j row
    by (simp add: keeps_def)
  then show ?thesis
    unfolding issue_def Let_def by (auto intro!: keeps_bind spares_modify)
qed

lemma spares_revoke [simp]: "spares esc r (revoke ev jti actor reason)"
proof -
  have "spares esc r (\<lambda>db. case delete_token t db of (b, db') \<Rightarrow> (Inr b, db'))" for t
    by (auto simp: keeps_def delete_token_def split: option.splits)
  then show ?thesis
    unfolding revoke_def by (auto intro!: keeps_bind keeps_if spares_modify split: option.splits)
qed

lemma spares_set_price [simp]: "spares esc r (set_price ev oid amount)"
  unfolding set_price_def by (auto intro!: keeps_bind spares_modify split: option.splits)

lemma spares_retry [simp]: "spares esc r (retry_through_gate ev (lane_ports ev) row approver sticky)"
proof -
  have "spares esc r (retry_target row)" by (auto simp: keeps_def retry_target_def Let_def lift_res_def split: option.splits list.splits sum.splits)
  moreover have "spares esc r (derive_mandate ev row approver)"
    unfolding derive_mandate_def Let_def by (auto intro!: keeps_bind split: option.splits prod.splits)
  ultimately show ?thesis
    unfolding retry_through_gate_def by (auto intro!: keeps_bind keeps_if split: prod.splits)
qed

lemma expire_answered:
  "dict_get (db_escalations db) esc = Some r \<Longrightarrow> ag_status r \<noteq> ''pending'' \<Longrightarrow>
   expire ev esc db = (Inr \<lparr>rs_status = ag_status r, rs_decision = None, rs_replay = False, rs_outcome = None\<rparr>, db)"
  by (simp add: expire_def bind_s_def escalation_get_def return_s_def)

lemma resolve_answered:
  "dict_get (db_escalations db) esc = Some r \<Longrightarrow> ag_status r \<noteq> ''pending'' \<Longrightarrow> decision \<in> {''APPROVE'', ''REJECT''} \<Longrightarrow>
   resolve ev ps esc decision approver channel sticky db
     = (Inr \<lparr>rs_status = ag_status r, rs_decision = ag_decision r, rs_replay = True, rs_outcome = None\<rparr>, db)"
  by (auto simp: resolve_def bind_s_def escalation_get_def return_s_def)

lemma spares_update_other: "e \<noteq> esc \<Longrightarrow> spares esc r (update_escalation e f)"
  unfolding update_escalation_def by (auto simp: keeps_def modify_s_def split: option.splits)

lemma spares_expire:
  assumes "ag_status r \<noteq> ''pending''"
  shows "spares esc r (expire ev e)"
proof (cases "e = esc")
  case True
  with expire_answered [OF _ assms] show ?thesis by (simp add: keeps_def)
next
  case False
  then show ?thesis
    unfolding expire_def by (auto intro!: keeps_bind keeps_if spares_update_other)
qed

lemma spares_sweep: "ag_status r \<noteq> ''pending'' \<Longrightarrow> spares esc r (sweep ev)"
proof -
  assume r: "ag_status r \<noteq> ''pending''"
  have "spares esc r (expire_each ev ids)" for ids
    by (induction ids) (auto intro!: keeps_bind spares_expire [OF r])
  then show ?thesis unfolding sweep_def by (auto intro!: keeps_bind)
qed

lemma spares_resolve:
  assumes "ag_status r \<noteq> ''pending''"
  shows "spares esc r (resolve ev (lane_ports ev) e decision approver channel sticky)"
proof (cases "e = esc")
  case True
  with resolve_answered [OF _ assms] show ?thesis
    by (cases "decision \<in> {''APPROVE'', ''REJECT''}") (auto simp: keeps_def resolve_def raise_s_def)
next
  case False
  then show ?thesis
    unfolding resolve_def by (auto intro!: keeps_bind keeps_if spares_update_other spares_expire [OF assms])
qed

lemma step_keeps_answer:
  "agent_step ev db db' \<Longrightarrow> dict_get (db_escalations db) esc = Some r \<Longrightarrow> ag_status r \<noteq> ''pending'' \<Longrightarrow>
   dict_get (db_escalations db') esc = Some r"
  by (induction rule: agent_step.induct)
    (auto dest: keepsD [OF spares_issue] keepsD [OF spares_revoke] keepsD [OF spares_set_price] keepsD [OF spares_submit]
      keepsD [OF spares_resolve] keepsD [OF spares_sweep])

text \<open>A call of \<^verbatim>\<open>resolve\<close> that returns has answered the escalation.\<close>

definition answered :: "string \<Rightarrow> agent_db \<Rightarrow> bool" where
  "answered esc db \<longleftrightarrow> (\<exists>r. dict_get (db_escalations db) esc = Some r \<and> ag_status r \<noteq> ''pending'')"

lemma answered_hoare:
  assumes "\<And>r. spares esc r m"
  shows "hoare (answered esc) m (\<lambda>_. answered esc) (\<lambda>_. True)"
proof (rule hoareI)
  fix db x db'
  assume "answered esc db" "m db = (Inr x, db')"
  then show "answered esc db'" unfolding answered_def by (auto dest: keepsD [OF assms])
qed simp

lemma answers:
  assumes "\<And>r. ag_status (f r) \<noteq> ''pending''"
  shows "hoare (\<lambda>db. dict_get (db_escalations db) esc \<noteq> None) (update_escalation esc f) (\<lambda>_. answered esc) (\<lambda>_. True)"
  by (rule hoareI) (auto simp: update_escalation_def modify_s_def answered_def assms)

abbreviation known :: "string \<Rightarrow> agent_db \<Rightarrow> bool" where
  "known esc db \<equiv> dict_get (db_escalations db) esc \<noteq> None"

lemma known_step:
  assumes "off_core m" "\<And>x. hoare (known esc) (f x) Q (\<lambda>_. True)"
  shows "hoare (known esc) (bind_s m f) Q (\<lambda>_. True)"
proof (rule hoare_bind [OF _ assms(2)])
  have "keeps (known esc) m" using assms(1) by (rule off_core_keeps) (simp add: core_def)
  then show "hoare (known esc) m (\<lambda>_. known esc) (\<lambda>_. True)" by (intro hoareI) (auto dest: keepsD)
qed

lemma escalation_get_known:
  "hoare (\<lambda>_. True) (escalation_get esc) (\<lambda>row db. dict_get (db_escalations db) esc = Some row) (\<lambda>_. True)"
  by (rule hoareI) (auto simp: escalation_get_def split: option.splits)

lemma expire_answers: "hoare (\<lambda>_. True) (expire ev esc) (\<lambda>_. answered esc) (\<lambda>_. True)"
proof -
  have "hoare (known esc) (bind_s (update_escalation esc (\<lambda>r. r\<lparr>ag_status := ''expired'', ag_decision := Some ''TIMEOUT''\<rparr>)) (\<lambda>_. m))
      (\<lambda>_. answered esc) (\<lambda>_. True)" if "\<And>r. spares esc r m" for m :: "(agent_db, resolution) sres"
    by (rule hoare_bind [OF answers]) (auto intro!: answered_hoare that)
  note upd = this
  show ?thesis
    unfolding expire_def
    apply (rule hoare_bind [OF escalation_get_known])
    subgoal for row
      apply (rule hoare_if)
       apply (rule hoare_return, simp add: answered_def)
      apply (rule hoare_weaken [OF upd])
         apply (auto intro!: keeps_bind)
      done
    done
qed

lemma resolve_answers:
  "hoare (\<lambda>_. True) (resolve ev (lane_ports ev) esc decision approver channel sticky) (\<lambda>_. answered esc) (\<lambda>_. True)"
proof -
  have exp: "hoare (known esc) (expire ev esc) (\<lambda>_. answered esc) (\<lambda>_. True)"
    by (rule hoare_weaken [OF expire_answers]) auto
  have pend: "hoare (known esc) (bind_s (now_iso ev) (\<lambda>now. if ag_timeout_at row < now then expire ev esc
      else bind_s (now_iso ev) (\<lambda>at. bind_s (lift_res (rcp at)) (\<lambda>rs.
        bind_s (update_escalation esc (upd rs)) (\<lambda>_. bind_s (log_event ev (en rs)) (k at rs))))))
      (\<lambda>_. answered esc) (\<lambda>_. True)"
    if "\<And>rs r. ag_status (upd rs r) \<noteq> ''pending''" "\<And>at rs x r. spares esc r (k at rs x)" for row rcp upd en k
    by (intro known_step off_core_now hoare_if exp off_core_base hoare_bind [OF answers [OF that(1)]] answered_hoare keeps_bind
        spares_leaf that(2))
  show ?thesis
    unfolding resolve_def
    apply (rule hoare_if, rule hoare_raise, simp)
    apply (rule hoare_bind [OF escalation_get_known])
    subgoal for row
      apply (rule hoare_if)
       apply (rule hoare_return, simp add: answered_def)
      apply (rule hoare_weaken [OF pend])
          apply (auto intro!: keeps_bind keeps_if)
      done
    done
qed

section \<open>A revoked mandate\<close>

definition frozen :: "mandates \<times> (string, offer_row) dict \<Rightarrow> (string, pydict) dict \<Rightarrow> agent_db \<Rightarrow> bool" where
  "frozen v c db \<longleftrightarrow> books db = v \<and> db_captures db = c"

lemma off_core_frozen: "off_core m \<Longrightarrow> hoare (frozen v c) m (\<lambda>_. frozen v c) (frozen v c)"
proof -
  assume "off_core m"
  then have "keeps (frozen v c) m" by (rule off_core_keeps) (simp add: core_def frozen_def)
  then show ?thesis by (intro hoareI) (auto dest: keepsD)
qed

lemma frozen_step:
  "off_core m \<Longrightarrow> (\<And>x. hoare (frozen v c) (f x) Q (frozen v c)) \<Longrightarrow> hoare (frozen v c) (bind_s m f) Q (frozen v c)"
  by (rule hoare_bind [OF off_core_frozen])

definition cut_off :: "mandates \<Rightarrow> string \<Rightarrow> bool" where
  "cut_off ms jti \<longleftrightarrow> (\<exists>j \<in> set (mandate_chain ms jti). \<exists>r. dict_get ms j = Some r \<and> mr_status r = ''revoked'')"

lemma chain_hd: "jti \<noteq> [] \<Longrightarrow> \<exists>js. mandate_chain ms jti = jti # js"
proof -
  assume "jti \<noteq> []"
  then have c: "mandate_chain ms jti = chain_from ms [jti] (case dict_get ms jti of None \<Rightarrow> None | Some r \<Rightarrow> mr_parent r)"
    by (simp add: mandate_chain_def chain_from.simps [of ms "[]"])
  have "\<exists>js. chain_from ms seen cur = seen @ js" for seen cur
  proof (induction ms seen cur rule: chain_from.induct)
    case (1 ms seen cur)
    show ?case
    proof (cases cur)
      case (Some x)
      with 1 show ?thesis by (subst chain_from.simps) auto
    qed (subst chain_from.simps, simp)
  qed
  then show ?thesis by (metis c append_Cons append_Nil)
qed

lemma cut_off_refused:
  assumes "cut_off ms jti" "dict_get ms jti = Some row" "mr_status row \<noteq> ''revoked''"
  obtains j st where "dead_ancestor ms jti = Some (j, st)"
proof -
  from assms(1) obtain j r where j: "j \<in> set (mandate_chain ms jti)" "dict_get ms j = Some r" "mr_status r = ''revoked''"
    by (auto simp: cut_off_def)
  have "jti \<noteq> []" using j(1) by (auto simp: mandate_chain_def chain_from.simps [of ms "[]" "Some []"])
  from chain_hd [OF this] obtain js where js: "mandate_chain ms jti = jti # js" by blast
  with j assms(2,3) have "j \<in> set js" by auto
  with j js have "filter (\<lambda>j. case dict_get ms j of Some r \<Rightarrow> mr_status r \<noteq> ''active'' | None \<Rightarrow> False) (tl (mandate_chain ms jti)) \<noteq> []"
    by (auto simp: filter_empty_conv intro!: bexI [of _ j])
  then obtain k ks where "filter (\<lambda>j. case dict_get ms j of Some r \<Rightarrow> mr_status r \<noteq> ''active'' | None \<Rightarrow> False) (tl (mandate_chain ms jti)) = k # ks"
    by (auto simp: neq_Nil_conv)
  then show ?thesis by (intro that) (simp add: dead_ancestor_def)
qed

lemma refuse_frozen: "hoare (frozen v c) (refuse ev m code detail) (\<lambda>d db. frozen v c db \<and> vr_decision d = REJECTED) (frozen v c)"
  unfolding refuse_def by (rule frozen_step [OF off_core_log], rule hoare_return) simp

lemma verify_alive_cut_off:
  assumes "cut_off (fst v) jti"
  shows "hoare (frozen v c) (verify_alive ev ps claims jti intent sig now reserve) (\<lambda>d db. frozen v c db \<and> vr_decision d = REJECTED) (frozen v c)"
proof -
  have get: "hoare (frozen v c) (get_s db_mandates) (\<lambda>ms db. frozen v c db \<and> ms = fst v) (frozen v c)"
    by (rule hoareI) (auto simp: get_s_def frozen_def books_def)
  show ?thesis
    unfolding verify_alive_def
    by (rule hoare_bind [OF get], rule hoare_pre)
      (auto intro!: refuse_frozen split: option.splits elim: cut_off_refused [OF assms])
qed

lemma agent_verify_cut_off:
  assumes "cut_off (fst v) jti" "dict_get intent ''mandate_jti'' = Some (PStr jti)"
  shows "hoare (frozen v c) (agent_verify ev ps token intent sig reserve) (\<lambda>d db. frozen v c db \<and> vr_decision d = REJECTED) (frozen v c)"
proof -
  have named: "dict_get_or intent ''mandate_jti'' PNone = PStr jti" using assms(2) by (simp add: dict_get_or_def)
  have lift: "hoare (frozen v c) (lift_res r) (\<lambda>_. frozen v c) (frozen v c)" for r :: "'x res"
    by (rule off_core_frozen) simp
  show ?thesis
    unfolding agent_verify_def named
    apply (rule hoare_either [OF lift])
     apply (intro hoare_if refuse_frozen hoare_raise, assumption)
    apply (rule hoare_either [OF lift])
     apply (intro hoare_if hoare_lift_bind refuse_frozen hoare_raise, assumption+)
    apply (rule hoare_lift_bind)
     apply (rule hoare_if [OF refuse_frozen], drule lm.same_text, hypsubst)
     apply (intro frozen_step off_core_now off_core_base hoare_if refuse_frozen verify_alive_cut_off [OF assms(1)])
    apply assumption
    done
qed

lemma build_intent_names:
  "build_intent ev jti agent offer db = (Inr intent, db') \<Longrightarrow> dict_get intent ''mandate_jti'' = Some (PStr jti)"
  by (auto simp: build_intent_def bind_s_def lift_res_def return_s_def split: prod.splits sum.splits)

lemma submit_cut_off:
  assumes "cut_off (fst v) jti"
  shows "hoare (frozen v c) (submit_purchase ev (lane_ports ev) oid jti mid run)
    (\<lambda>res db. frozen v c db \<and> sr_status res \<noteq> ''captured'') (frozen v c)"
proof -
  have build: "hoare (frozen v c) (build_intent ev jti agent offer)
      (\<lambda>intent db. frozen v c db \<and> dict_get intent ''mandate_jti'' = Some (PStr jti)) (frozen v c)" for agent offer
    by (rule hoareI) (auto dest: build_intent_names hoareD [OF off_core_frozen [OF off_core_intent]])
  have lift: "hoare (frozen v c) (lift_res r) (\<lambda>x db. frozen v c db \<and> r = Inr x) (frozen v c)" for r :: "'x res"
    by (rule hoare_lift) simp
  have port: "off_core (mp_get p oid)" if "merchant_for (lane_ports ev) mid = Inr p" for p
    using lane_port [OF that] by simp
  show ?thesis
    unfolding submit_purchase_def
    apply (rule frozen_step [OF off_core_mandate_get])
    apply (rule hoare_either [OF lift])
     apply (intro hoare_if hoare_return hoare_raise, simp add: rejected_result_def, assumption)
    apply (rule hoare_pre, rule frozen_step [OF port], assumption)
    subgoal for row port found
      apply (cases found)
       apply (simp, rule hoare_return, simp add: rejected_result_def)
      apply (simp only: option.case)
      apply (rule frozen_step [OF off_core_base(3)])
      apply (rule hoare_bind [OF build], rule hoare_pre)
      apply (rule frozen_step [OF off_core_base(3)], rule frozen_step [OF off_core_new_id], rule frozen_step [OF off_core_base(3)],
          rule frozen_step [OF off_core_base(3)], rule frozen_step [OF off_core_insert(2)], rule frozen_step [OF off_core_log])
      apply (rule hoare_bind [OF agent_verify_cut_off [OF assms]], assumption, rule hoare_pre)
      apply (rule hoare_if, simp, rule hoare_if)
       apply (rule frozen_step [OF off_core_purchase], rule frozen_step [OF off_core_log], rule hoare_return, simp)
      apply simp
      done
    done
qed

section \<open>Properties\<close>

text \<open>
  C15: An escalation is answered once. After a call of \<^verbatim>\<open>resolve\<close> that returned, and whatever the lane does
  next, every further answer changes nothing in the database (there is no second charge) and is reported as
  a replay of the first.
\<close>

theorem escalation_is_answered_once:
  assumes "resolve ev (lane_ports ev) esc decision approver channel sticky db = (Inr res, db1)"
    and "(agent_step ev)\<^sup>*\<^sup>* db1 db2" and "decision' = ''APPROVE'' \<or> decision' = ''REJECT''"
  shows "\<exists>r. dict_get (db_escalations db1) esc = Some r \<and>
    resolve ev (lane_ports ev) esc decision' approver' channel' sticky' db2
      = (Inr \<lparr>rs_status = ag_status r, rs_decision = ag_decision r, rs_replay = True, rs_outcome = None\<rparr>, db2)"
proof -
  from hoareD(1) [OF resolve_answers _ assms(1)] obtain r
    where r: "dict_get (db_escalations db1) esc = Some r" "ag_status r \<noteq> ''pending''" by (auto simp: answered_def)
  from assms(2) r(1) have "dict_get (db_escalations db2) esc = Some r"
    by (induction rule: rtranclp_induct) (auto intro: step_keeps_answer [OF _ _ r(2)])
  from resolve_answered [OF this r(2), of decision'] assms(3) r(1) show ?thesis by auto
qed

lemma log_keeps_purchases: "log_event ev a db = (r, db') \<Longrightarrow> core db' = core db \<and> db_purchases db' = db_purchases db"
  by (frule log_keeps) (auto simp: log_event_def bind_s_def now_iso_def clock_def new_id_def draw_def return_s_def split: prod.splits sum.splits)

text \<open>
  Silence is not consent. An answer that arrives after the deadline, an approval included, expires the
  escalation and rejects the purchase; no mandate, no offer and no capture changes, so nothing is charged.
\<close>

theorem late_approval_is_denied:
  assumes "dict_get (db_escalations db) esc = Some row" "ag_status row = ''pending''"
    and "ag_timeout_at row < iso_seconds (ev_clock ev (db_draws db))"
    and "dict_get (db_purchases db) (ag_purchase row) = Some p"
    and "decision = ''APPROVE'' \<or> decision = ''REJECT''"
    and "resolve ev ps esc decision approver channel sticky db = (r, db')"
  shows "db_mandates db' = db_mandates db \<and> db_offers db' = db_offers db \<and> db_captures db' = db_captures db
    \<and> map_option ag_status (dict_get (db_escalations db') esc) = Some ''expired''
    \<and> dict_get (db_purchases db') (ag_purchase row) = Some (p\<lparr>ap_status := ''rejected'', ap_reason := Some ''ESCALATION_TIMEOUT_DENIED''\<rparr>)"
proof -
  have "resolve ev ps esc decision approver channel sticky db = expire ev esc (db\<lparr>db_draws := Suc (db_draws db)\<rparr>)"
    using assms(1-3,5) by (auto simp: resolve_def bind_s_def escalation_get_def now_iso_def clock_def draw_def return_s_def)
  with assms(6) have "expire ev esc (db\<lparr>db_draws := Suc (db_draws db)\<rparr>) = (r, db')" by simp
  with assms(1,2,4) show ?thesis
    by (auto simp: expire_def bind_s_def escalation_get_def update_escalation_def update_purchase_row_def modify_s_def return_s_def
        core_def books_def dest!: log_keeps_purchases split: prod.splits sum.splits)
qed

text \<open>
  C16: A revoked mandate is never charged, nor is a mandate with a revoked ancestor: whatever purchase is
  submitted under it, no mandate, no offer and no capture of the rail changes, and the purchase does not end
  as captured. An approval by a human is no exception, since it only submits the purchase again.
\<close>

theorem revoked_mandate_is_never_charged:
  assumes "j \<in> set (mandate_chain (db_mandates db) jti)" "dict_get (db_mandates db) j = Some row" "mr_status row = ''revoked''"
    and "submit_purchase ev (lane_ports ev) offer_id jti merchant_id run db = (r, db')"
  shows "db_mandates db' = db_mandates db \<and> db_offers db' = db_offers db \<and> db_captures db' = db_captures db
    \<and> (case r of Inr res \<Rightarrow> sr_status res \<noteq> ''captured'' | Inl _ \<Rightarrow> True)"
proof -
  have "cut_off (fst (books db)) jti" using assms(1-3) by (auto simp: cut_off_def books_def)
  from submit_cut_off [OF this, of "db_captures db" ev offer_id merchant_id run] assms(4)
  show ?thesis by (auto simp: hoare_def frozen_def books_def split: sum.splits dest!: spec [of _ db])
qed

section \<open>Concrete runs\<close>

lemma log_event_first:
  assumes "db_audit db = empty_audit" "json_plain (scrub_payload (ev_scrub ev) (PDict m))"
  obtains db' where "log_event ev (entry ty m actor agent run mandate) db = (Inr (), db')"
proof -
  have "\<exists>t. agent_canonical_json (row_content r) = Inr t" if "json_plain (ar_payload r)" for r
    using that json_plain_dumps(1) [of "row_content r"]
    by (simp add: agent_canonical_json_def row_content_def opt_str_def split: option.splits)
  then have digest: "\<exists>h. row_digest sha prev r = Inr h" if "json_plain (ar_payload r)" for r sha prev
    using that by (fastforce simp: row_digest_def)
  have "\<exists>x ad. audit_append sha (ev_scrub ev) eid at (entry ty m actor agent run mandate) empty_audit = (Inr x, ad)" for sha eid at
  proof -
    let ?r0 = "entry_row (ev_scrub ev) eid at (entry ty m actor agent run mandate) empty_audit"
    from digest [of ?r0 sha "ar_prev_hash ?r0"] assms(2) obtain h where "row_digest sha (ar_prev_hash ?r0) ?r0 = Inr h"
      by (auto simp: entry_row_def entry_def Let_def)
    then show ?thesis by (simp add: audit_append_def Let_def empty_audit_def)
  qed
  then obtain x ad where "audit_append (ev_sha ev) (ev_scrub ev) (''evt_'' @ ev_uuid ev (Suc (db_draws db))) (iso_seconds (ev_clock ev (db_draws db)))
      (entry ty m actor agent run mandate) empty_audit = (Inr x, ad)" by blast
  then show ?thesis
    using assms(1) by (intro that) (simp add: log_event_def bind_s_def now_iso_def clock_def new_id_def draw_def return_s_def)
qed

lemma log_event_firstD:
  assumes "log_event ev (entry ty m actor agent run mandate) db = (r, db')" "db_audit db = empty_audit"
    and "json_plain (scrub_payload (ev_scrub ev) (PDict m))"
  shows "r = Inr ()"
  by (rule log_event_first [OF assms(2,3), of ty actor agent run mandate]) (use assms(1) in simp)

lemma date_zero: "date_of_days 0 = (1, 1, 1)"
proof -
  have "year_from 1 0 = (1, 0)" by (subst year_from.simps) (simp add: days_in_year_def)
  moreover have "month_from 1 1 0 = (1, 0)" by (subst month_from.simps) (simp add: days_in_month_def)
  ultimately show ?thesis by (simp add: date_of_days_def)
qed

lemma pad_small: "pad_str 2 0 = ''00''" "pad_str 2 (Suc 0) = ''01''" "pad_str 4 (Suc 0) = ''0001''"
  by code_simp+

lemma iso_early: "iso_seconds 0 = ''0001-01-01T00:00:00+00:00''" "iso_seconds 1000000 = ''0001-01-01T00:00:01+00:00''"
  by (simp_all add: iso_seconds_def isoformat_def iso_naive_def date_str_def time_str_def date_zero pad_small)

theorem escalation_is_answered_once_witness:
  "\<exists>res db1 r. resolve run_env (lane_ports run_env) ''esc_1'' ''REJECT'' ''ana'' ''chat'' False run_start = (Inr res, db1)
     \<and> dict_get (db_escalations db1) ''esc_1'' = Some r
     \<and> resolve run_env (lane_ports run_env) ''esc_1'' ''APPROVE'' ''eve'' ''chat'' True db1
         = (Inr \<lparr>rs_status = ag_status r, rs_decision = ag_decision r, rs_replay = True, rs_outcome = None\<rparr>, db1)"
proof -
  have late: "\<not> ''2026-01-01T00:00:00+00:00'' < ''0001-01-01T00:00:00+00:00''" by code_simp
  have "\<exists>res db1. resolve run_env (lane_ports run_env) ''esc_1'' ''REJECT'' ''ana'' ''chat'' False run_start = (Inr res, db1)"
    by (auto simp: resolve_def bind_s_def escalation_get_def now_iso_def clock_def draw_def return_s_def
        run_start_def run_env_def iso_early late lift_res_def update_escalation_def update_purchase_row_def modify_s_def
        split: prod.splits sum.splits dest: log_event_firstD)
  then obtain res db1 where run: "resolve run_env (lane_ports run_env) ''esc_1'' ''REJECT'' ''ana'' ''chat'' False run_start = (Inr res, db1)" by blast
  from escalation_is_answered_once [OF run rtranclp.rtrancl_refl, of "''APPROVE''" "''eve''" "''chat''" True] run show ?thesis by auto
qed

theorem late_approval_is_denied_witness:
  "\<exists>db'. snd (resolve (run_env\<lparr>ev_clock := (\<lambda>_. 1000000)\<rparr>) [] ''esc_1'' ''APPROVE'' ''ana'' ''chat'' False
      (run_start\<lparr>db_escalations := [(''esc_1'', \<lparr>ag_purchase = ''pur_1'', ag_mandate = ''mdt_1'', ag_run = None, ag_approver_id = None,
         ag_status = ''pending'', ag_diff = [], ag_timeout_at = ''0001-01-01T00:00:00+00:00'', ag_decision = None,
         ag_approver = None, ag_channel = None, ag_receipt_sig = None\<rparr>)],
       db_purchases := [(''pur_1'', \<lparr>ap_mandate = ''mdt_1'', ap_intent = ''int_1'', ap_status = ''awaiting_escalation'', ap_reason = None,
         ap_amount = ''5.00'', ap_reservation = None, ap_receipt = None\<rparr>)]\<rparr>)) = db'
     \<and> db_captures db' = [] \<and> map_option ag_status (dict_get (db_escalations db') ''esc_1'') = Some ''expired''"
proof -
  let ?ev = "run_env\<lparr>ev_clock := (\<lambda>_. 1000000)\<rparr>"
  let ?row = "\<lparr>ag_purchase = ''pur_1'', ag_mandate = ''mdt_1'', ag_run = None, ag_approver_id = None,
         ag_status = ''pending'', ag_diff = [], ag_timeout_at = ''0001-01-01T00:00:00+00:00'', ag_decision = None,
         ag_approver = None, ag_channel = None, ag_receipt_sig = None\<rparr>"
  let ?p = "\<lparr>ap_mandate = ''mdt_1'', ap_intent = ''int_1'', ap_status = ''awaiting_escalation'', ap_reason = None,
         ap_amount = ''5.00'', ap_reservation = None, ap_receipt = None\<rparr>"
  let ?db = "run_start\<lparr>db_escalations := [(''esc_1'', ?row)], db_purchases := [(''pur_1'', ?p)]\<rparr>"
  have late: "''0001-01-01T00:00:00+00:00'' < ''0001-01-01T00:00:01+00:00''" by code_simp
  from late_approval_is_denied [of ?db "''esc_1''" ?row ?ev ?p "''APPROVE''" "[]" "''ana''" "''chat''" False
      "fst (resolve ?ev [] ''esc_1'' ''APPROVE'' ''ana'' ''chat'' False ?db)" "snd (resolve ?ev [] ''esc_1'' ''APPROVE'' ''ana'' ''chat'' False ?db)"]
  show ?thesis by (simp add: iso_early late) (simp add: run_start_def)
qed

definition run_child :: mandate_rec where
  "run_child = \<lparr>mr_user_id = ''ana'', mr_agent_id = ''agent_1'', mr_status = ''active'', mr_claims = [], mr_token = None,
     mr_reserved = ''0.00'', mr_spent = ''0.00'', mr_txn_count = 0, mr_parent = Some ''m1''\<rparr>"

definition run_revoked :: agent_db where
  "run_revoked = run_start\<lparr>db_mandates := [(''m1'', run_child\<lparr>mr_status := ''revoked'', mr_parent := None\<rparr>), (''m2'', run_child)]\<rparr>"

theorem revoked_mandate_is_never_charged_witness:
  "mandate_chain (db_mandates run_revoked) ''m2'' = [''m2'', ''m1'']
   \<and> db_captures (snd (submit_purchase run_env (lane_ports run_env) (PStr ''f1'') ''m2'' PNone None run_revoked)) = []"
proof -
  have chain: "mandate_chain (db_mandates run_revoked) ''m2'' = [''m2'', ''m1'']"
    by (simp add: run_revoked_def run_child_def mandate_chain_def chain_from.simps)
  from revoked_mandate_is_never_charged [of "''m1''" run_revoked "''m2''" "run_child\<lparr>mr_status := ''revoked'', mr_parent := None\<rparr>"
      run_env "PStr ''f1''" PNone None "fst (submit_purchase run_env (lane_ports run_env) (PStr ''f1'') ''m2'' PNone None run_revoked)"
      "snd (submit_purchase run_env (lane_ports run_env) (PStr ''f1'') ''m2'' PNone None run_revoked)"] chain
  show ?thesis by (simp add: run_revoked_def run_start_def)
qed

end
