(* ===== verification/Agent_Gate_Props.thy ===== *)
theory Agent_Gate_Props
  imports Agent_Ledger
begin

text \<open>
  What an approval of the agent's gate means, and the ledger under sagas that interleave: between the
  reservation of one saga and its settlement any number of others may reserve, settle and release.
\<close>

section \<open>The gate\<close>

lemma or_else_None: "or_else a b = Inr None \<longleftrightarrow> a = Inr None \<and> b = Inr None"
  by (cases a) (auto simp: or_else_def split: option.splits)

text \<open>No check answers with an approval of its own.\<close>

definition declines :: "gate_decision option res \<Rightarrow> bool" where
  "declines m \<longleftrightarrow> (\<forall>d. m = Inr (Some d) \<longrightarrow> gd_decision d \<noteq> APPROVED)"

lemma declines_or_else: "declines a \<Longrightarrow> declines b \<Longrightarrow> declines (or_else a b)"
  by (cases a) (auto simp: declines_def or_else_def split: option.splits)

lemma declines_bind: "(\<And>x. m = Inr x \<Longrightarrow> declines (f x)) \<Longrightarrow> declines (bind_res m f)"
  by (cases m) (auto simp: declines_def)

lemma declines_base [simp]:
  "declines (Inl e)" "declines (Inr None)" "v \<noteq> APPROVED \<Longrightarrow> declines (Inr (refusal v c t diff))"
  by (simp_all add: declines_def refusal_def)

lemma checks_decline:
  "declines (scope_list_check scope key offer field code)" "declines (currency_check claims intent)"
  "declines (count_check limits sp)" "declines (budget_check limits sp amount)" "declines (per_txn_check limits offer amount)"
  "declines (condition_check ev claims offer now)"
  unfolding scope_list_check_def currency_check_def count_check_def budget_check_def per_txn_check_def condition_check_def Let_def
  by (auto intro!: declines_bind split: sum.splits)

lemma gate_approves_iff:
  assumes "agent_gate ev claims intent offer sp now = Inr d" "gd_decision d = APPROVED"
  obtains amount limits where "bind_res (item intent ''amount'') money_dec = Inr amount" "item claims ''limits'' = Inr limits"
    "scope_list_check (dict_get_or claims ''scope'' (PDict [])) ''categories'' offer ''category'' ''CATEGORY_FORBIDDEN'' = Inr None"
    "scope_list_check (dict_get_or claims ''scope'' (PDict [])) ''merchants'' offer ''merchant_id'' ''MERCHANT_NOT_ALLOWED'' = Inr None"
    "currency_check claims intent = Inr None" "count_check limits sp = Inr None" "budget_check limits sp amount = Inr None"
    "per_txn_check limits offer amount = Inr None" "condition_check ev claims offer now = Inr None"
proof -
  from assms(1) obtain amount limits r where a: "bind_res (item intent ''amount'') money_dec = Inr amount" "item claims ''limits'' = Inr limits"
    and r: "or_else (scope_list_check (dict_get_or claims ''scope'' (PDict [])) ''categories'' offer ''category'' ''CATEGORY_FORBIDDEN'')
          (or_else (scope_list_check (dict_get_or claims ''scope'' (PDict [])) ''merchants'' offer ''merchant_id'' ''MERCHANT_NOT_ALLOWED'')
          (or_else (currency_check claims intent) (or_else (count_check limits sp) (or_else (budget_check limits sp amount)
          (or_else (per_txn_check limits offer amount) (condition_check ev claims offer now)))))) = Inr r"
    and d: "d = (case r of Some x \<Rightarrow> x | None \<Rightarrow> \<lparr>gd_decision = APPROVED, gd_reason = None, gd_detail = '''', gd_diff = []\<rparr>)"
    unfolding agent_gate_def Let_def by (auto simp: bind_res_Inr_iff)
  have "declines (Inr r)" unfolding r [symmetric] by (intro declines_or_else checks_decline)
  with d assms(2) have "r = None" by (cases r) (auto simp: declines_def)
  with r a that show ?thesis by (auto simp: or_else_None)
qed

lemma budget_check_passes:
  assumes "budget_check limits sp amount = Inr None" "money_dec (PStr (sp_spent sp)) = Inr s" "money_dec (PStr (sp_reserved sp)) = Inr r"
    and "0 \<le> s" "0 \<le> r" "s + r < cents_limit" "\<bar>amount\<bar> < cents_limit"
  shows "\<exists>b. bind_res (item_of limits ''total_budget'') money_dec = Inr b \<and> (\<bar>b - (s + r)\<bar> < cents_limit \<longrightarrow> s + r + amount \<le> b)"
  using assms
  by (auto simp: budget_check_def Let_def bind_res_Inr_iff dec_add_cents_small dec_sub_cents refusal_def dec_less_def dec_scale_def split: if_splits)

lemma condition_passes:
  assumes "condition_check ev claims offer now = Inr None"
  shows "\<exists>price v. bind_res (item offer ''price'') money_fmt = Inr price \<and> truthy v
         \<and> rule_evaluate [(''offer'', PDict (dict_set ''price'' (PStr price) offer)), (''now'', PInt now)]
             (if truthy (dict_get_or claims ''conditions'' PNone) then dict_get_or claims ''conditions'' PNone else PBool True) = Inr v"
proof -
  define rule where "rule = (if truthy (dict_get_or claims ''conditions'' PNone) then dict_get_or claims ''conditions'' PNone else PBool True)"
  from assms obtain p price where p: "item offer ''price'' = Inr p" "money_fmt p = Inr price"
    unfolding condition_check_def by (auto simp: bind_res_Inr_iff Let_def)
  with assms show ?thesis
    unfolding condition_check_def rule_def [symmetric]
    by (cases "rule_evaluate [(''offer'', PDict (dict_set ''price'' (PStr price) offer)), (''now'', PInt now)] rule")
      (auto simp: Let_def rule_def [symmetric] bind_res_Inr_iff refusal_def split: if_splits)
qed


definition gate_claims :: pydict where
  "gate_claims = [(''currency'', PStr ''USD''), (''scope'', PDict [(''categories'', PList [PStr ''flights''])]),
     (''limits'', PDict [(''max_per_txn'', PStr ''0.05''), (''total_budget'', PStr ''0.09'')])]"

definition gate_offer :: pydict where
  "gate_offer = [(''offer_id'', PStr ''f1''), (''category'', PStr ''flights''), (''price'', PStr ''0.04'')]"

definition gate_intent :: pydict where
  "gate_intent = [(''amount'', PStr ''0.04''), (''currency'', PStr ''USD'')]"

lemma gate_run:
  "agent_gate ev gate_claims gate_intent gate_offer \<lparr>sp_spent = ''0.02'', sp_reserved = ''0.03'', sp_txn_count = 1\<rparr> 0
     = Inr \<lparr>gd_decision = APPROVED, gd_reason = None, gd_detail = '''', gd_diff = []\<rparr>"
  by code_simp

lemma gate_amounts:
  "money_dec (PStr ''0.02'') = Inr 2" "money_dec (PStr ''0.03'') = Inr 3" "money_dec (PStr ''0.04'') = Inr 4"
  "money_dec (PStr ''0.05'') = Inr 5" "money_dec (PStr ''0.09'') = Inr 9"
  by code_simp+


section \<open>Sagas that interleave\<close>

text \<open>
  The ledger operations of any number of sagas in any order. A saga reserves an amount of at least zero (the
  price of an offer) and later releases or settles what it reserved; the second component lists the
  reservations that are open.
\<close>

inductive ledger_step :: "mandates \<times> open_reservations \<Rightarrow> mandates \<times> open_reservations \<Rightarrow> bool" where
  reserved: "money_dec amount = Inr a \<Longrightarrow> 0 \<le> a \<Longrightarrow> reserve_chain jti amount ms = (Inr True, ms') \<Longrightarrow>
    ledger_step (ms, out) (ms', (jti, a) # out)"
| not_reserved: "money_dec amount = Inr a \<Longrightarrow> 0 \<le> a \<Longrightarrow> reserve_chain jti amount ms = (Inr False, ms') \<Longrightarrow>
    ledger_step (ms, out) (ms', out)"
| released: "money_dec amount = Inr a \<Longrightarrow> (jti, a) \<in> set out \<Longrightarrow> release_chain jti amount ms = (r, ms') \<Longrightarrow>
    ledger_step (ms, out) (ms', remove1 (jti, a) out)"
| settled: "money_dec amount = Inr a \<Longrightarrow> (jti, a) \<in> set out \<Longrightarrow> settle_chain jti amount ms = (r, ms') \<Longrightarrow>
    ledger_step (ms, out) (ms', remove1 (jti, a) out)"

lemma ledger_step_sound: "ledger_step s s' \<Longrightarrow> ledger_sound (fst s) (snd s) \<Longrightarrow> ledger_sound (fst s') (snd s')"
proof (induction rule: ledger_step.induct)
  case (reserved amount a jti ms ms' out)
  with reserve_chain_sound [of ms out amount a jti] show ?case by auto
next
  case (not_reserved amount a jti ms ms' out)
  then have "\<forall>j. dict_get ms' j = dict_get ms j" using reserve_chain_sound [of ms out amount a jti] by auto
  with not_reserved show ?case by (auto intro: ledger_sound_cong)
next
  case (released amount a jti out ms r ms')
  with release_chain_sound [of ms out amount a jti] show ?case by auto
next
  case (settled amount a jti out ms r ms')
  with settle_chain_sound [of ms out amount a jti] show ?case by auto
qed


definition sole_mandate :: mandates where
  "sole_mandate = [(''m1'', \<lparr>mr_user_id = ''ana'', mr_agent_id = ''agent_1'', mr_status = ''active'', mr_claims = gate_claims,
     mr_token = None, mr_reserved = ''0.00'', mr_spent = ''0.02'', mr_txn_count = 0, mr_parent = None\<rparr>)]"


text \<open>
  Neither the gate nor the ledger asks for a positive amount. A negative price, which nothing in the kernel rejects, is
  approved, reserved and settled, and lowers the spent total below zero: the mandate can then spend more than
  its budget. The invariants above therefore speak of prices of at least zero.
\<close>

lemma negative_price_lowers_spent:
  "agent_gate ev gate_claims (dict_set ''amount'' (PStr ''-0.04'') gate_intent) (dict_set ''price'' (PStr ''-0.04'') gate_offer)
     \<lparr>sp_spent = ''0.02'', sp_reserved = ''0.00'', sp_txn_count = 0\<rparr> 0
     = Inr \<lparr>gd_decision = APPROVED, gd_reason = None, gd_detail = '''', gd_diff = []\<rparr>"
  "case reserve_chain ''m1'' (PStr ''-0.04'') sole_mandate of (ok, ms) \<Rightarrow>
     ok = Inr True \<and> map (mr_spent \<circ> snd) (snd (settle_chain ''m1'' (PStr ''-0.04'') ms)) = [''-0.02'']"
  by code_simp+

end
