(* ===== verification/Trust_Ap2.thy ===== *)
theory Trust_Ap2
  imports Agent_Db Domain_Models
begin

text \<open>
  The claims of a mandate as \<^verbatim>\<open>src/src/trustlib/models.py\<close> declares them and their projection onto the Agent Payments
  Protocol, \<^verbatim>\<open>src/src/trustlib/ap2.py\<close>. The hash of the merchant's Checkout JWT is a parameter.
\<close>

section \<open>Claims\<close>

datatype period = Day | Week | Month

record tl_max_txn =
  mt_count :: int
  mt_period :: period

record tl_limits =
  tl_max_per_txn :: "dec option"
  tl_total_budget :: "dec option"
  tl_max_txn :: "tl_max_txn option"

record tl_scope =
  sc_categories :: "string list"
  sc_merchants :: "string list"

record tl_validity =
  va_not_before :: instant
  va_expires_at :: instant

record tl_claims =
  cl_iss :: string
  cl_iat :: int
  cl_nbf :: int
  cl_exp :: int
  cl_jti :: string
  cl_sub :: string
  cl_agent :: string
  cl_cnf :: pyval
  cl_payment_method_ref :: "string option"
  cl_currency :: string
  cl_scope :: tl_scope
  cl_conditions :: "pyval option"
  cl_limits :: tl_limits
  cl_validity :: tl_validity
  cl_parent_jti :: "string option"
  cl_vct :: "string option"
  cl_constraints :: "pydict list option"

section \<open>Minor units\<close>

text \<open>\<^verbatim>\<open>to_integral_value\<close>: half to even, without a limit on the digits.\<close>

definition dec_to_integral :: "dec \<Rightarrow> int" where
  "dec_to_integral d = (if 0 \<le> expo d then coeff d * 10 ^ nat (expo d) else round_half_even (coeff d) (10 ^ nat (- expo d)))"

definition to_minor_units :: "dec \<Rightarrow> int" where
  "to_minor_units amount = dec_to_integral (dec_mul amount (Dec 100 0))"

definition from_minor_units :: "int \<Rightarrow> string res" where
  "from_minor_units minor =
     (let q = dec_div (Dec \<bar>minor\<bar> 0) (Dec 100 0)
      in bind_res (dec_quantize_cent (Dec (sgn minor * coeff q) (expo q))) (\<lambda>c. Inr (fmt_cents c)))"

section \<open>Constraints\<close>

definition VCT_PAYMENT_OPEN :: string where
  "VCT_PAYMENT_OPEN = ''mandate.payment.open.1''"

fun ap2_frequency :: "period \<Rightarrow> string" where
  "ap2_frequency Day = ''DAILY''"
| "ap2_frequency Week = ''WEEKLY''"
| "ap2_frequency Month = ''MONTHLY''"

definition constraints_for :: "tl_claims \<Rightarrow> pydict list" where
  "constraints_for claims =
     (let limits = cl_limits claims; cur = PStr (cl_currency claims)
      in (case tl_max_per_txn limits of
            Some m \<Rightarrow> [[(''type'', PStr ''payment.amount_range''), (''currency'', cur), (''min'', PInt 0), (''max'', PInt (to_minor_units m))]]
          | None \<Rightarrow> [])
       @ (case tl_total_budget limits of
            Some b \<Rightarrow> [[(''type'', PStr ''payment.budget''), (''currency'', cur), (''max'', PInt (to_minor_units b))]]
          | None \<Rightarrow> [])
       @ (if sc_merchants (cl_scope claims) \<noteq> []
          then [[(''type'', PStr ''payment.allowed_payees''),
                 (''allowed'', PList (map (\<lambda>m. PDict [(''id'', PStr m)]) (sc_merchants (cl_scope claims))))]]
          else [])
       @ (case tl_max_txn limits of
            Some t \<Rightarrow> [[(''type'', PStr ''payment.agent_recurrence''), (''frequency'', PStr (ap2_frequency (mt_period t))),
                        (''max_occurrences'', PInt (mt_count t))]]
          | None \<Rightarrow> [])
       @ [[(''type'', PStr ''payment.execution_date''), (''not_before'', PStr (isoformat (va_not_before (cl_validity claims)))),
           (''not_after'', PStr (isoformat (va_expires_at (cl_validity claims))))]])"

definition apply_ap2_projection :: "tl_claims \<Rightarrow> tl_claims" where
  "apply_ap2_projection claims = claims\<lparr>cl_vct := Some VCT_PAYMENT_OPEN, cl_constraints := Some (constraints_for claims)\<rparr>"

section \<open>Checkout\<close>

definition build_checkout_payload ::
  "string \<Rightarrow> string \<Rightarrow> string \<Rightarrow> string \<Rightarrow> pyval list \<Rightarrow> dec \<Rightarrow> string \<Rightarrow> string \<Rightarrow> string \<Rightarrow> pydict" where
  "build_checkout_payload order_id merchant_id merchant_name merchant_website line_items total_price currency shipping_policy return_policy =
     [(''order_id'', PStr order_id),
      (''merchant'', PDict [(''id'', PStr merchant_id), (''name'', PStr merchant_name), (''website'', PStr merchant_website)]),
      (''line_items'', PList line_items), (''total_price'', PInt (to_minor_units total_price)), (''currency'', PStr currency),
      (''shipping_policy'', PStr shipping_policy), (''return_policy'', PStr return_policy)]"

definition closed_checkout_mandate :: "(string \<Rightarrow> string) \<Rightarrow> string \<Rightarrow> pydict" where
  "closed_checkout_mandate checkout_hash jwt =
     [(''vct'', PStr ''mandate.checkout.1''), (''checkout_hash'', PStr (checkout_hash jwt)), (''_sd_alg'', PStr ''sha-256'')]"

definition closed_payment_mandate ::
  "(string \<Rightarrow> string) \<Rightarrow> string \<Rightarrow> string \<Rightarrow> string \<Rightarrow> dec \<Rightarrow> string \<Rightarrow> string \<Rightarrow> string option \<Rightarrow> pydict" where
  "closed_payment_mandate checkout_hash transaction_id payee_id payee_name amount currency instrument bound_checkout_jwt =
     [(''vct'', PStr ''mandate.payment.1''), (''transaction_id'', PStr transaction_id),
      (''payee'', PDict [(''id'', PStr payee_id), (''name'', PStr payee_name)]),
      (''payment_amount'', PDict [(''amount'', PInt (to_minor_units amount)), (''currency'', PStr currency)]),
      (''payment_instrument'', PDict [(''id'', PStr instrument), (''type'', PStr ''vaulted_token'')])]
     @ (case bound_checkout_jwt of
          None \<Rightarrow> []
        | Some jwt \<Rightarrow> [(''constraints'', PList [PDict [(''type'', PStr ''payment.reference''),
                                                     (''conditional_transaction_id'', PStr (checkout_hash jwt))]])])"

definition verify_checkout_binding :: "(string \<Rightarrow> string) \<Rightarrow> string \<Rightarrow> string \<Rightarrow> bool" where
  "verify_checkout_binding checkout_hash jwt claimed_hash \<longleftrightarrow> checkout_hash jwt = claimed_hash"

end
