(* ===== verification/Identity_Lane.thy ===== *)
theory Identity_Lane
  imports Trust_Ap2
begin

text \<open>
  The identity lane of the API: the state machine of a mandate (\<^verbatim>\<open>src/src/api/services/state_machine.py\<close>), its tables
  (\<^verbatim>\<open>repository.py\<close>), the passkey ceremony (\<^verbatim>\<open>services/passkey.py\<close>), the registry (\<^verbatim>\<open>services/mandate_registry.py\<close>) and
  the endpoints that create, activate and revoke a mandate (\<^verbatim>\<open>routers/mandates.py\<close>). A request is one transaction,
  rolled back by an exception. WebAuthn, the digest of the claims (RFC 8785 and SHA-256), SD-JWT signing and the rail
  are parameters; the time and fresh identifiers are arguments of a request.
\<close>

section \<open>The state machine\<close>

fun allowed_sources :: "mandate_status \<Rightarrow> mandate_status list" where
  "allowed_sources ACTIVE = [DRAFT, SUSPENDED]"
| "allowed_sources SUSPENDED = [ACTIVE]"
| "allowed_sources REVOKED = [ACTIVE, SUSPENDED]"
| "allowed_sources EXPIRED = [ACTIVE, SUSPENDED]"
| "allowed_sources EXHAUSTED = [ACTIVE]"
| "allowed_sources DRAFT = []"

fun terminal_reason :: "mandate_status \<Rightarrow> reason_code option" where
  "terminal_reason REVOKED = Some MANDATE_REVOKED"
| "terminal_reason EXPIRED = Some MANDATE_EXPIRED"
| "terminal_reason EXHAUSTED = Some MANDATE_EXHAUSTED"
| "terminal_reason SUSPENDED = Some MANDATE_SUSPENDED"
| "terminal_reason _ = None"

fun transition_event :: "mandate_status \<Rightarrow> string option" where
  "transition_event ACTIVE = Some ''mandate.activated''"
| "transition_event SUSPENDED = Some ''mandate.suspended''"
| "transition_event REVOKED = Some ''mandate.revoked''"
| "transition_event EXPIRED = Some ''mandate.expired''"
| "transition_event EXHAUSTED = Some ''mandate.exhausted''"
| "transition_event DRAFT = None"

record transition_result =
  tr_ok :: bool
  tr_frm :: "mandate_status option"
  tr_to :: mandate_status
  tr_reason :: "reason_code option"
  tr_event :: "string option"

definition is_allowed :: "mandate_status \<Rightarrow> mandate_status \<Rightarrow> bool" where
  "is_allowed frm to \<longleftrightarrow> frm \<in> set (allowed_sources to)"

definition sources_for :: "mandate_status \<Rightarrow> string list" where
  "sources_for to = sort (map status_str (allowed_sources to))"

definition refusal_reason :: "mandate_status \<Rightarrow> mandate_status \<Rightarrow> reason_code" where
  "refusal_reason current to = (case terminal_reason current of Some c \<Rightarrow> c | None \<Rightarrow> MANDATE_SUSPENDED)"

definition is_terminal :: "mandate_status \<Rightarrow> bool" where
  "is_terminal s \<longleftrightarrow> s \<in> {REVOKED, EXPIRED, EXHAUSTED}"

section \<open>Tables\<close>

record id_mandate =
  im_user_id :: string
  im_agent_id :: string
  im_status :: string
  im_claims :: "tl_claims res"
  im_sd_jwt :: "string option"
  im_reserved :: string
  im_spent :: string
  im_txn_count :: int
  im_parent :: "string option"
  im_version :: int

record id_instrument =
  ii_mandate :: string
  ii_rail :: string
  ii_status :: string

datatype purpose = Register | Activate | Revoke

record id_challenge =
  ic_user_id :: string
  ic_mandate_id :: "string option"
  ic_expires_at :: instant
  ic_consumed_at :: "instant option"

record id_credential =
  cr_user_id :: string
  cr_public_key :: string
  cr_sign_count :: int

record id_event =
  ie_type :: string
  ie_aggregate :: string
  ie_payload :: pydict

record id_db =
  id_mandates :: "(string, id_mandate) dict"
  id_instruments :: "(string, id_instrument) dict"
  id_challenges :: "(string \<times> purpose, id_challenge) dict"
  id_credentials :: "(string, id_credential) dict"
  id_outbox :: "id_event list"

section \<open>The repository\<close>

definition repo_create_mandate :: "tl_claims \<Rightarrow> (id_db, unit) sres" where
  "repo_create_mandate claims db =
     (if dict_get (id_mandates db) (cl_jti claims) \<noteq> None then (Inl DatabaseError, db)
      else (Inr (), db\<lparr>id_mandates := dict_set (cl_jti claims)
        \<lparr>im_user_id = cl_sub claims, im_agent_id = cl_agent claims, im_status = status_str DRAFT, im_claims = Inr claims,
         im_sd_jwt = None, im_reserved = ''0.00'', im_spent = ''0.00'', im_txn_count = 0, im_parent = cl_parent_jti claims,
         im_version = 1\<rparr> (id_mandates db)\<rparr>))"

definition update_mandate :: "string \<Rightarrow> (id_mandate \<Rightarrow> id_mandate) \<Rightarrow> id_db \<Rightarrow> id_db" where
  "update_mandate jti f db =
     (case dict_get (id_mandates db) jti of
        Some m \<Rightarrow> db\<lparr>id_mandates := dict_set jti (f m) (id_mandates db)\<rparr> | None \<Rightarrow> db)"

definition attach_sd_jwt :: "string \<Rightarrow> string \<Rightarrow> tl_claims \<Rightarrow> (id_db, unit) sres" where
  "attach_sd_jwt jti sd_jwt claims = modify_s (update_mandate jti (\<lambda>m. m\<lparr>im_sd_jwt := Some sd_jwt, im_claims := Inr claims\<rparr>))"

definition current_status :: "string \<Rightarrow> id_db \<Rightarrow> mandate_status option res" where
  "current_status jti db =
     (case dict_get (id_mandates db) jti of
        None \<Rightarrow> Inr None
      | Some m \<Rightarrow> if im_status m = '''' then Inr None else bind_res (mandate_status_of (PStr (im_status m))) (\<lambda>s. Inr (Some s)))"

definition refused_transition :: "string \<Rightarrow> mandate_status \<Rightarrow> (id_db, transition_result) sres" where
  "refused_transition jti to db =
     lift_res (bind_res (current_status jti db) (\<lambda>current.
       Inr \<lparr>tr_ok = False, tr_frm = current, tr_to = to,
            tr_reason = map_option (\<lambda>c. refusal_reason c to) current, tr_event = None\<rparr>)) db"

text \<open>\<^verbatim>\<open>transition\<close>: one guarded update, whose guard carries the admitted source states.\<close>

definition transition :: "string \<Rightarrow> mandate_status \<Rightarrow> (id_db, transition_result) sres" where
  "transition jti to db =
     (let allowed = sources_for to
      in if allowed = [] then refused_transition jti to db
         else
           case dict_get (id_mandates db) jti of
             Some m \<Rightarrow>
               if im_status m \<in> set allowed
               then (Inr \<lparr>tr_ok = True, tr_frm = None, tr_to = to, tr_reason = None, tr_event = transition_event to\<rparr>,
                     update_mandate jti (\<lambda>m. m\<lparr>im_status := status_str to, im_version := im_version m + 1\<rparr>) db)
               else refused_transition jti to db
           | None \<Rightarrow> refused_transition jti to db)"

definition link_instrument :: "string \<Rightarrow> string \<Rightarrow> (id_db, unit) sres" where
  "link_instrument token_ref jti =
     modify_s (\<lambda>db. if dict_get (id_instruments db) token_ref \<noteq> None then db
       else db\<lparr>id_instruments := dict_set token_ref \<lparr>ii_mandate = jti, ii_rail = ''yuno_sim'', ii_status = ''active''\<rparr> (id_instruments db)\<rparr>)"

definition instruments_for :: "string \<Rightarrow> id_db \<Rightarrow> string list" where
  "instruments_for jti db = map fst (filter (\<lambda>(k, i). ii_mandate i = jti \<and> ii_status i = ''active'') (id_instruments db))"

definition mark_instrument_deleted :: "string \<Rightarrow> id_db \<Rightarrow> id_db" where
  "mark_instrument_deleted token_ref db =
     (case dict_get (id_instruments db) token_ref of
        Some i \<Rightarrow> db\<lparr>id_instruments := dict_set token_ref (i\<lparr>ii_status := ''deleted''\<rparr>) (id_instruments db)\<rparr> | None \<Rightarrow> db)"

text \<open>A challenge in hand, \<^verbatim>\<open>passkey.Challenge\<close>.\<close>

record challenge =
  ch_value :: string
  ch_user_id :: string
  ch_purpose :: purpose
  ch_expires_at :: instant
  ch_mandate_id :: "string option"

definition store_challenge :: "challenge \<Rightarrow> (id_db, unit) sres" where
  "store_challenge c db =
     (if dict_get (id_challenges db) (ch_value c, ch_purpose c) \<noteq> None then (Inl DatabaseError, db)
      else (Inr (), db\<lparr>id_challenges := dict_set (ch_value c, ch_purpose c)
        \<lparr>ic_user_id = ch_user_id c, ic_mandate_id = ch_mandate_id c, ic_expires_at = ch_expires_at c, ic_consumed_at = None\<rparr>
        (id_challenges db)\<rparr>))"

definition consume_challenge :: "instant \<Rightarrow> string \<Rightarrow> purpose \<Rightarrow> (id_db, challenge option) sres" where
  "consume_challenge now v p db =
     (case dict_get (id_challenges db) (v, p) of
        Some c \<Rightarrow>
          if ic_consumed_at c = None
          then (Inr (Some \<lparr>ch_value = v, ch_user_id = ic_user_id c, ch_purpose = p, ch_expires_at = ic_expires_at c,
                           ch_mandate_id = ic_mandate_id c\<rparr>),
                db\<lparr>id_challenges := dict_set (v, p) (c\<lparr>ic_consumed_at := Some now\<rparr>) (id_challenges db)\<rparr>)
          else (Inr None, db)
      | None \<Rightarrow> (Inr None, db))"

definition store_credential :: "string \<Rightarrow> id_credential \<Rightarrow> (id_db, unit) sres" where
  "store_credential cid c db =
     (if dict_get (id_credentials db) cid \<noteq> None then (Inl DatabaseError, db)
      else (Inr (), db\<lparr>id_credentials := dict_set cid c (id_credentials db)\<rparr>))"

definition credentials_for :: "string \<Rightarrow> id_db \<Rightarrow> (string \<times> id_credential) list" where
  "credentials_for user_id db = filter (\<lambda>(k, c). cr_user_id c = user_id) (id_credentials db)"

definition advance_sign_count :: "string \<Rightarrow> int \<Rightarrow> (id_db, unit) sres" where
  "advance_sign_count cid n =
     modify_s (\<lambda>db. case dict_get (id_credentials db) cid of
       Some c \<Rightarrow> db\<lparr>id_credentials := dict_set cid (c\<lparr>cr_sign_count := n\<rparr>) (id_credentials db)\<rparr> | None \<Rightarrow> db)"

section \<open>Events\<close>

definition KNOWN_EVENT_TYPES :: "string list" where
  "KNOWN_EVENT_TYPES =
     [''mandate.created'', ''mandate.activated'', ''mandate.revoked'', ''mandate.suspended'', ''mandate.exhausted'', ''mandate.expired'',
      ''payment_instrument.linked'', ''escalation.resolved'', ''escalation.expired'', ''offer.seen'', ''purchase.requested'',
      ''purchase.verified'', ''purchase.escalated'', ''purchase.captured'', ''purchase.rejected'', ''payment.captured'',
      ''payment.refused'', ''dispute.opened'', ''dispute.resolved'', ''root.checkpoint'']"

definition emit_event :: "string \<Rightarrow> string \<Rightarrow> pydict \<Rightarrow> (id_db, unit) sres" where
  "emit_event ty aggregate payload db =
     (if ty \<notin> set KNOWN_EVENT_TYPES then (Inl ValueError, db)
      else (Inr (), db\<lparr>id_outbox := id_outbox db @ [\<lparr>ie_type = ty, ie_aggregate = aggregate, ie_payload = payload\<rparr>]\<rparr>))"

section \<open>The passkey ceremony\<close>

text \<open>
  \<open>ne_digest\<close> is the base64url form of \<^verbatim>\<open>canonical_hash\<close> of the claims. \<open>ne_verify_registration\<close> and \<open>ne_verify_authentication\<close> are
  WebAuthn (\<open>None\<close> for an exception), \<open>ne_client_challenge\<close> reads the challenge out of the encoded client data,
  \<open>ne_setup_token\<close> and \<open>ne_delete_token\<close> are the rail.
\<close>

record id_env =
  ne_digest :: "tl_claims \<Rightarrow> string"
  ne_verify_registration :: "pyval \<Rightarrow> string \<Rightarrow> (string \<times> string \<times> int) option"
  ne_verify_authentication :: "pydict \<Rightarrow> string \<Rightarrow> string \<Rightarrow> int \<Rightarrow> int option"
  ne_client_challenge :: "pyval \<Rightarrow> string res"
  ne_sd_issue :: "tl_claims \<Rightarrow> string"
  ne_dump_limits :: "tl_limits \<Rightarrow> pyval"
  ne_setup_token :: "string \<Rightarrow> pydict option"
  ne_delete_token :: "string \<Rightarrow> bool"
  ne_issuer :: string
  ne_challenge_ttl :: int

definition issue_challenge :: "id_env \<Rightarrow> instant \<Rightarrow> string \<Rightarrow> string \<Rightarrow> purpose \<Rightarrow> string option \<Rightarrow> challenge" where
  "issue_challenge ne now digest user_id p mandate_id =
     \<lparr>ch_value = digest, ch_user_id = user_id, ch_purpose = p, ch_expires_at = now + seconds (ne_challenge_ttl ne), ch_mandate_id = mandate_id\<rparr>"

definition mandate_options :: "id_env \<Rightarrow> instant \<Rightarrow> tl_claims \<Rightarrow> purpose \<Rightarrow> challenge" where
  "mandate_options ne now claims p = issue_challenge ne now (ne_digest ne claims) (cl_sub claims) p (Some (cl_jti claims))"

definition assert_usable :: "instant \<Rightarrow> challenge \<Rightarrow> unit res" where
  "assert_usable now c = (if now > ch_expires_at c then Inl PasskeyError else Inr ())"

definition verify_registration :: "id_env \<Rightarrow> instant \<Rightarrow> pyval \<Rightarrow> challenge \<Rightarrow> (string \<times> id_credential) res" where
  "verify_registration ne now response c =
     bind_res (assert_usable now c) (\<lambda>_.
     case ne_verify_registration ne response (ch_value c) of
       None \<Rightarrow> Inl PasskeyError
     | Some (cid, key, n) \<Rightarrow> Inr (cid, \<lparr>cr_user_id = ch_user_id c, cr_public_key = key, cr_sign_count = n\<rparr>))"

definition verify_assertion :: "id_env \<Rightarrow> instant \<Rightarrow> pydict \<Rightarrow> challenge \<Rightarrow> id_credential \<Rightarrow> tl_claims option \<Rightarrow> int res" where
  "verify_assertion ne now response c cred claims =
     bind_res (assert_usable now c) (\<lambda>_.
     if (case claims of Some k \<Rightarrow> ch_value c \<noteq> ne_digest ne k | None \<Rightarrow> False) then Inl PasskeyError
     else
       case ne_verify_authentication ne response (ch_value c) (cr_public_key cred) (cr_sign_count cred) of
         None \<Rightarrow> Inl PasskeyError
       | Some n \<Rightarrow> if cr_sign_count cred > 0 \<and> n \<le> cr_sign_count cred then Inl PasskeyError else Inr n)"

section \<open>The registry\<close>

record create_request =
  rq_user_id :: string
  rq_agent_id :: string
  rq_currency :: string
  rq_scope :: tl_scope
  rq_limits :: tl_limits
  rq_validity :: tl_validity
  rq_conditions :: "pyval option"
  rq_agent_jwk :: "pyval option"
  rq_payment_method_ref :: "string option"

text \<open>\<open>jwk\<close> is the key that is generated when the request brings none.\<close>

definition build_claims :: "id_env \<Rightarrow> string \<Rightarrow> pyval \<Rightarrow> create_request \<Rightarrow> string option \<Rightarrow> tl_claims" where
  "build_claims ne jti jwk rq parent =
     apply_ap2_projection
       \<lparr>cl_iss = ne_issuer ne, cl_iat = unix_ts (va_not_before (rq_validity rq)), cl_nbf = unix_ts (va_not_before (rq_validity rq)),
        cl_exp = unix_ts (va_expires_at (rq_validity rq)), cl_jti = jti, cl_sub = rq_user_id rq, cl_agent = rq_agent_id rq,
        cl_cnf = (case rq_agent_jwk rq of Some k \<Rightarrow> k | None \<Rightarrow> jwk), cl_payment_method_ref = rq_payment_method_ref rq,
        cl_currency = rq_currency rq, cl_scope = rq_scope rq, cl_conditions = rq_conditions rq, cl_limits = rq_limits rq,
        cl_validity = rq_validity rq, cl_parent_jti = parent, cl_vct = None, cl_constraints = None\<rparr>"

definition derive :: "string \<Rightarrow> int \<Rightarrow> tl_claims \<Rightarrow> tl_limits \<Rightarrow> int \<Rightarrow> tl_claims" where
  "derive jti now parent limits ttl =
     apply_ap2_projection (parent\<lparr>cl_jti := jti, cl_parent_jti := Some (cl_jti parent), cl_limits := limits, cl_iat := now,
       cl_nbf := now, cl_exp := min (now + ttl) (cl_exp parent)\<rparr>)"

section \<open>Endpoints\<close>

definition begin_registration :: "id_env \<Rightarrow> instant \<Rightarrow> string \<Rightarrow> string \<Rightarrow> (id_db, string) sres" where
  "begin_registration ne now random user_id =
     in_transaction (bind_s (store_challenge (issue_challenge ne now random user_id Register None)) (\<lambda>_. return_s random))"

definition complete_registration :: "id_env \<Rightarrow> instant \<Rightarrow> string \<Rightarrow> pyval \<Rightarrow> (id_db, string) sres" where
  "complete_registration ne now presented response =
     in_transaction
       (bind_s (consume_challenge now presented Register) (\<lambda>found.
        case found of
          None \<Rightarrow> raise_s (HttpError 401)
        | Some c \<Rightarrow>
            (case verify_registration ne now response c of
               Inl e \<Rightarrow> raise_s (if e = PasskeyError then HttpError 401 else e)
             | Inr (cid, cred) \<Rightarrow> bind_s (store_credential cid cred) (\<lambda>_. return_s cid))))"

definition create_mandate ::
  "id_env \<Rightarrow> instant \<Rightarrow> string \<Rightarrow> pyval \<Rightarrow> create_request \<Rightarrow> (id_db, string \<times> string \<times> pydict option) sres" where
  "create_mandate ne now jti jwk rq =
     in_transaction
       (let claims = build_claims ne jti jwk rq None
        in bind_s (repo_create_mandate claims) (\<lambda>_.
           bind_s (get_s (credentials_for (rq_user_id rq))) (\<lambda>creds.
           if creds = [] then raise_s (HttpError 412)
           else
             let c = mandate_options ne now claims Activate
             in bind_s (store_challenge c) (\<lambda>_.
                let enroll = ne_setup_token ne jti
                in bind_s (emit_event ''mandate.created'' jti [(''jti'', PStr jti), (''limits'', ne_dump_limits ne (cl_limits claims))]) (\<lambda>_.
                   return_s (jti, ch_value c, enroll))))))"

record assertion =
  as_id :: string
  as_response :: pydict

definition presented_challenge :: "id_env \<Rightarrow> assertion \<Rightarrow> string res" where
  "presented_challenge ne body =
     (let v = dict_get_or (as_response body) ''clientDataJSON_challenge'' PNone
      in if truthy v then as_text v else ne_client_challenge ne (dict_get_or (as_response body) ''clientDataJSON'' (PStr '''')))"

definition verify_gesture :: "id_env \<Rightarrow> instant \<Rightarrow> id_mandate \<Rightarrow> assertion \<Rightarrow> purpose \<Rightarrow> (id_db, tl_claims) sres" where
  "verify_gesture ne now record body p =
     bind_s (lift_res (im_claims record)) (\<lambda>claims.
     bind_s (lift_res (presented_challenge ne body)) (\<lambda>presented.
     bind_s (consume_challenge now presented p) (\<lambda>found.
     case found of
       None \<Rightarrow> raise_s (HttpError 401)
     | Some c \<Rightarrow>
         if ch_purpose c \<noteq> p then raise_s (HttpError 401)
         else
           bind_s (get_s (\<lambda>db. dict_get (id_credentials db) (as_id body))) (\<lambda>cred.
           case cred of
             None \<Rightarrow> raise_s (HttpError 401)
           | Some cr \<Rightarrow>
               if cr_user_id cr \<noteq> im_user_id record then raise_s (HttpError 401)
               else
                 (case verify_assertion ne now (as_response body) c cr (Some claims) of
                    Inl e \<Rightarrow> raise_s (if e = PasskeyError then HttpError 401 else e)
                  | Inr n \<Rightarrow> bind_s (advance_sign_count (as_id body) n) (\<lambda>_. return_s claims))))))"

definition get_record :: "string \<Rightarrow> (id_db, id_mandate) sres" where
  "get_record jti = (\<lambda>db. case dict_get (id_mandates db) jti of None \<Rightarrow> (Inl (HttpError 404), db) | Some m \<Rightarrow> (Inr m, db))"

definition assert_passkey :: "id_env \<Rightarrow> instant \<Rightarrow> string \<Rightarrow> assertion \<Rightarrow> (id_db, string) sres" where
  "assert_passkey ne now jti body =
     in_transaction
       (bind_s (get_record jti) (\<lambda>record.
        bind_s (verify_gesture ne now record body Activate) (\<lambda>claims.
        bind_s (transition jti ACTIVE) (\<lambda>result.
        if \<not> tr_ok result then raise_s (HttpError 409)
        else
          let sd_jwt = ne_sd_issue ne claims
          in bind_s (attach_sd_jwt jti sd_jwt claims) (\<lambda>_.
             bind_s (case or_str (cl_payment_method_ref claims) None of
                       None \<Rightarrow> return_s ()
                     | Some ref \<Rightarrow>
                         bind_s (link_instrument ref (cl_jti claims)) (\<lambda>_.
                         emit_event ''payment_instrument.linked'' (cl_jti claims)
                           [(''mandate_jti'', PStr (cl_jti claims)), (''token_ref'', PStr ref)])) (\<lambda>_.
             bind_s (emit_event ''mandate.activated'' (cl_jti claims)
                       [(''jti'', PStr (cl_jti claims)), (''limits'', ne_dump_limits ne (cl_limits claims))]) (\<lambda>_.
             return_s sd_jwt)))))))"

definition begin_revoke :: "id_env \<Rightarrow> instant \<Rightarrow> string \<Rightarrow> (id_db, string) sres" where
  "begin_revoke ne now jti =
     in_transaction
       (bind_s (get_record jti) (\<lambda>record.
        bind_s (lift_res (im_claims record)) (\<lambda>claims.
        bind_s (get_s (credentials_for (im_user_id record))) (\<lambda>creds.
        if creds = [] then raise_s (HttpError 412)
        else
          let c = mandate_options ne now claims Revoke
          in bind_s (store_challenge c) (\<lambda>_. return_s (ch_value c))))))"

text \<open>
  \<^verbatim>\<open>revoke_mandate\<close>: the state and the event are committed first; a rail that does not delete a token leaves the
  revocation as it is.
\<close>

definition revoke_committed :: "id_env \<Rightarrow> instant \<Rightarrow> string \<Rightarrow> assertion \<Rightarrow> (id_db, string list) sres" where
  "revoke_committed ne now jti body =
     in_transaction
       (bind_s (get_record jti) (\<lambda>record.
        bind_s (verify_gesture ne now record body Revoke) (\<lambda>_.
        bind_s (transition jti REVOKED) (\<lambda>result.
        if \<not> tr_ok result then raise_s (HttpError 409)
        else
          bind_s (emit_event ''mandate.revoked'' jti
                    [(''jti'', PStr jti), (''by'', PStr (im_user_id record)), (''at'', PStr (isoformat now))]) (\<lambda>_.
          get_s (instruments_for jti))))))"

definition delete_instruments :: "id_env \<Rightarrow> string list \<Rightarrow> id_db \<Rightarrow> id_db" where
  "delete_instruments ne refs db = fold (\<lambda>t d. if ne_delete_token ne t then mark_instrument_deleted t d else d) refs db"

definition revoke_mandate :: "id_env \<Rightarrow> instant \<Rightarrow> string \<Rightarrow> assertion \<Rightarrow> (id_db, id_mandate) sres" where
  "revoke_mandate ne now jti body =
     bind_s (revoke_committed ne now jti body) (\<lambda>refs.
     bind_s (modify_s (delete_instruments ne refs)) (\<lambda>_.
     get_record jti))"

end
