(* ===== verification/Identity_Props.thy ===== *)
theory Identity_Props
  imports Identity_Lane Triples
begin

text \<open>
  Properties of the identity lane: its requests implement the abstract life cycle of a mandate, terminal states
  are final, activation takes the gesture of the holder over these very claims, and what becomes of
  a revocation that was begun and not completed.
\<close>

section \<open>The abstract life cycle\<close>

text \<open>A mandate is born as a draft and moves along the admitted transitions; it never disappears.\<close>

definition life_step :: "mandate_status option \<Rightarrow> mandate_status option \<Rightarrow> bool" where
  "life_step a b \<longleftrightarrow> a = b \<or> a = None \<and> b = Some DRAFT \<or> (\<exists>s t. a = Some s \<and> b = Some t \<and> is_allowed s t)"

definition states :: "id_db \<Rightarrow> string \<Rightarrow> string option" where
  "states db j = map_option im_status (dict_get (id_mandates db) j)"

definition mandate_state :: "id_db \<Rightarrow> string \<Rightarrow> mandate_status option" where
  "mandate_state db j = (case dict_get (id_mandates db) j of None \<Rightarrow> None | Some m \<Rightarrow> as_mandate_status (PStr (im_status m)))"

lemma status_of_str [simp]: "mandate_status_of (PStr (status_str s)) = Inr s"
  by (cases s) (simp_all add: mandate_status_of_def)

lemma status_str_inject [simp]: "status_str s = status_str t \<longleftrightarrow> s = t"
  by (metis status_of_str sum.inject(2))

lemma sources_for_iff: "status_str s \<in> set (sources_for t) \<longleftrightarrow> is_allowed s t"
  by (auto simp: sources_for_def is_allowed_def)

lemma sources_for_range: "x \<in> set (sources_for t) \<Longrightarrow> \<exists>s. x = status_str s"
  by (auto simp: sources_for_def)

abbreviation off_states :: "(id_db, 'a) sres \<Rightarrow> bool" where
  "off_states m \<equiv> (\<forall>v. keeps (\<lambda>db. states db = v) m)"

lemma off_states_modify: "(\<And>db. states (f db) = states db) \<Longrightarrow> off_states (modify_s f)"
  by (simp add: keeps_def modify_s_def)

lemma states_update: "(\<And>m. im_status (f m) = im_status m) \<Longrightarrow> states (update_mandate jti f db) = states db"
  by (auto simp: states_def update_mandate_def fun_eq_iff split: option.splits)

lemma off_states_ops [simp]:
  "off_states (store_challenge c)" "off_states (consume_challenge now x p)" "off_states (store_credential cid cr)"
  "off_states (advance_sign_count cid n)" "off_states (link_instrument t j)" "off_states (emit_event ty ag pl)"
  "off_states (get_record j)"
  by (auto simp: keeps_def store_challenge_def consume_challenge_def store_credential_def advance_sign_count_def link_instrument_def
      emit_event_def get_record_def modify_s_def states_def fun_eq_iff split: option.splits)

lemma off_states_attach [simp]: "off_states (attach_sd_jwt jti t claims)"
  unfolding attach_sd_jwt_def by (rule off_states_modify) (rule states_update, simp)

lemma off_states_gesture [simp]: "off_states (verify_gesture ne now m body p)"
  unfolding verify_gesture_def
  by (auto intro!: keeps_bind keeps_if off_states_ops [rule_format] split: option.splits sum.splits)

lemma off_states_delete [simp]: "states (delete_instruments ne refs db) = states db"
proof -
  have "states (mark_instrument_deleted t db) = states db" for t db
    by (simp add: mark_instrument_deleted_def states_def fun_eq_iff split: option.splits)
  then show ?thesis by (induction refs arbitrary: db) (simp_all add: delete_instruments_def)
qed

section \<open>What a request does to the states\<close>

definition moved :: "(string \<Rightarrow> string option) \<Rightarrow> string \<Rightarrow> mandate_status \<Rightarrow> (string \<Rightarrow> string option) \<Rightarrow> bool" where
  "moved v jti to w \<longleftrightarrow> (\<exists>s \<in> set (sources_for to). v jti = Some s) \<and> w = v(jti := Some (status_str to))"

abbreviation at_states :: "(string \<Rightarrow> string option) \<Rightarrow> id_db \<Rightarrow> bool" where
  "at_states v db \<equiv> states db = v"

lemma off_states_at: "off_states m \<Longrightarrow> hoare (at_states v) m (\<lambda>_. at_states v) (at_states v)"
  by (rule keeps_hoare [where L = "\<lambda>x. x = v" and view = states]) (erule spec)

lemma states_step:
  "off_states m \<Longrightarrow> (\<And>x. hoare (at_states v) (f x) Q E) \<Longrightarrow> (\<And>db. at_states v db \<Longrightarrow> E db) \<Longrightarrow> hoare (at_states v) (bind_s m f) Q E"
  by (rule hoare_bind [where R = "\<lambda>_. at_states v"], rule hoare_weaken [OF off_states_at]) auto

lemma transition_triple:
  "hoare (at_states v) (transition jti to) (\<lambda>r db. if tr_ok r then moved v jti to (states db) else at_states v db) (at_states v)"
proof (rule hoareI)
  fix db r db'
  assume v: "at_states v db" and "transition jti to db = (Inr r, db')"
  then show "if tr_ok r then moved v jti to (states db') else at_states v db'"
    unfolding v [symmetric]
    by (auto simp: transition_def Let_def refused_transition_def lift_res_def bind_res_Inr_iff moved_def states_def update_mandate_def
        fun_eq_iff split: if_splits option.splits sum.splits)
next
  fix db e db'
  assume "at_states v db" "transition jti to db = (Inl e, db')"
  then show "at_states v db'"
    by (auto simp: transition_def Let_def refused_transition_def lift_res_def split: if_splits option.splits sum.splits)
qed

lemma request_moves:
  assumes "\<And>v. hoare (at_states v) m Q (at_states v)" "m db = (r, db')"
    and "\<And>x. r = Inr x \<Longrightarrow> Q x db' \<Longrightarrow> R" "states db' = states db \<Longrightarrow> R"
  shows R
proof (cases r)
  case (Inl e)
  with hoareD(2) [OF assms(1) refl, of db e db'] assms(2,4) show ?thesis by simp
next
  case (Inr x)
  with hoareD(1) [OF assms(1) refl, of db x db'] assms(2,3) show ?thesis by simp
qed

lemma move_triple:
  assumes "\<And>r. off_states (rest r)"
  shows "hoare (at_states v) (bind_s (transition jti to) (\<lambda>result. if \<not> tr_ok result then raise_s e else rest result))
    (\<lambda>_ db. moved v jti to (states db)) (\<lambda>_. True)"
proof (rule hoare_bind)
  show "hoare (at_states v) (transition jti to) (\<lambda>r db. if tr_ok r then moved v jti to (states db) else at_states v db) (\<lambda>_. True)"
    by (rule hoare_weaken [OF transition_triple]) auto
  fix r
  show "hoare (\<lambda>db. if tr_ok r then moved v jti to (states db) else at_states v db) (if \<not> tr_ok r then raise_s e else rest r)
      (\<lambda>_ db. moved v jti to (states db)) (\<lambda>_. True)"
  proof (cases "tr_ok r")
    case True
    have "hoare (\<lambda>db. moved v jti to (states db)) (rest r) (\<lambda>_ db. moved v jti to (states db)) (\<lambda>db. moved v jti to (states db))"
      by (rule keeps_hoare [where L = "moved v jti to" and view = states]) (rule assms [rule_format])
    with True show ?thesis by (auto intro: hoare_weaken)
  qed (simp add: hoare_raise)
qed

lemma assert_passkey_triple:
  "hoare (at_states v) (assert_passkey ne now jti body) (\<lambda>_ db. moved v jti ACTIVE (states db)) (at_states v)"
  unfolding assert_passkey_def Let_def
  by (intro hoare_transaction [where E = "\<lambda>_. True"] states_step off_states_ops off_states_gesture move_triple TrueI)
    (auto intro!: keeps_bind off_states_ops [rule_format] off_states_attach [rule_format] split: option.splits)

lemma revoke_committed_triple:
  "hoare (at_states v) (revoke_committed ne now jti body) (\<lambda>_ db. moved v jti REVOKED (states db)) (at_states v)"
  unfolding revoke_committed_def
  by (intro hoare_transaction [where E = "\<lambda>_. True"] states_step off_states_ops off_states_gesture move_triple TrueI)
    (auto intro!: keeps_bind off_states_ops [rule_format])

lemma create_mandate_triple:
  "hoare (at_states v) (create_mandate ne now jti jwk rq) (\<lambda>_ db. v jti = None \<and> states db = v(jti := Some (status_str DRAFT))) (at_states v)"
proof -
  let ?w = "v(jti := Some (status_str DRAFT))"
  have create: "hoare (at_states v) (repo_create_mandate (build_claims ne jti jwk rq None)) (\<lambda>_ db. states db = ?w \<and> v jti = None) (\<lambda>_. True)"
  proof (rule hoareI)
    fix db r db'
    assume v: "at_states v db" and "repo_create_mandate (build_claims ne jti jwk rq None) db = (Inr r, db')"
    then show "states db' = ?w \<and> v jti = None"
      unfolding v [symmetric]
      by (auto simp: repo_create_mandate_def build_claims_def apply_ap2_projection_def states_def fun_eq_iff split: if_splits)
  qed simp
  have rest: "hoare (\<lambda>db. states db = ?w \<and> v jti = None) m (\<lambda>_ db. v jti = None \<and> states db = ?w) (\<lambda>_. True)"
    if "off_states m" for m :: "(id_db, string \<times> string \<times> pydict option) sres"
    by (rule hoare_pre, rule hoare_weaken [OF off_states_at [OF that, of ?w]]) auto
  show ?thesis
    unfolding create_mandate_def Let_def
    by (rule hoare_transaction, rule hoare_bind [OF create], rule rest) (auto intro!: keeps_bind keeps_if off_states_ops [rule_format])
qed

section \<open>Steps of the lane\<close>

text \<open>One request of the lane, or a transition that another part of the service asks for in a transaction of its own.\<close>

inductive id_step :: "id_env \<Rightarrow> id_db \<Rightarrow> id_db \<Rightarrow> bool" for ne where
  begin_registration: "begin_registration ne now random user_id db = (r, db') \<Longrightarrow> id_step ne db db'"
| complete_registration: "complete_registration ne now presented response db = (r, db') \<Longrightarrow> id_step ne db db'"
| create_mandate: "create_mandate ne now jti jwk rq db = (r, db') \<Longrightarrow> id_step ne db db'"
| assert_passkey: "assert_passkey ne now jti body db = (r, db') \<Longrightarrow> id_step ne db db'"
| begin_revoke: "begin_revoke ne now jti db = (r, db') \<Longrightarrow> id_step ne db db'"
| revoke_mandate: "revoke_mandate ne now jti body db = (r, db') \<Longrightarrow> id_step ne db db'"
| transition: "in_transaction (transition jti to) db = (r, db') \<Longrightarrow> id_step ne db db'"

lemma keeps_snd: "keeps (\<lambda>s. f s = f db) m \<Longrightarrow> m db = (r, db') \<Longrightarrow> f db' = f db"
  using snd_conv [of r db'] by (auto simp: keeps_def)

lemma off_states_registration [simp]: "off_states (begin_registration ne now random user_id)"
  unfolding begin_registration_def by (intro allI keeps_transaction keeps_bind off_states_ops [rule_format]) simp

lemma off_states_registered [simp]: "off_states (complete_registration ne now presented response)"
proof (intro allI)
  fix v
  have "keeps (at_states v) (case r of Inl e \<Rightarrow> raise_s (h e) | Inr (cid, cred) \<Rightarrow> bind_s (store_credential cid cred) (\<lambda>_. return_s cid))"
    for r :: "(string \<times> id_credential) res" and h
    by (cases r) (auto intro!: off_states_ops [rule_format])
  then show "keeps (at_states v) (complete_registration ne now presented response)"
    unfolding complete_registration_def by (intro keeps_transaction keeps_bind off_states_ops [rule_format] keeps_option) simp_all
qed

lemma off_states_begin_revoke [simp]: "off_states (begin_revoke ne now jti)"
  unfolding begin_revoke_def Let_def
  by (intro allI keeps_transaction keeps_bind keeps_if off_states_ops [rule_format]) simp_all

lemma states_after_revoke:
  assumes "revoke_mandate ne now jti body db = (r, db')"
  obtains x db1 where "revoke_committed ne now jti body db = (x, db1)" "states db' = states db1"
proof -
  obtain x db1 where 1: "revoke_committed ne now jti body db = (x, db1)" by fastforce
  have "states db' = states db1"
    using assms 1 by (auto simp: revoke_mandate_def bind_s_def modify_s_def get_record_def split: sum.splits option.splits)
  with 1 show ?thesis by (rule that)
qed

text \<open>Every step leaves the states as they are, admits a draft, or moves one mandate along an admitted transition.\<close>

lemma id_step_states:
  assumes "id_step ne db db'"
  shows "states db' = states db \<or> (\<exists>jti. states db jti = None \<and> states db' = (states db)(jti := Some (status_str DRAFT))) \<or>
    (\<exists>jti to. moved (states db) jti to (states db'))"
  using assms
proof cases
  case (begin_registration now random user_id r)
  then show ?thesis using keeps_snd [OF off_states_registration [rule_format]] by blast
next
  case (complete_registration now presented response r)
  then show ?thesis using keeps_snd [OF off_states_registered [rule_format]] by blast
next
  case (create_mandate now jti jwk rq r)
  show ?thesis by (rule hoare_snd [OF create_mandate_triple refl create_mandate]) blast+
next
  case (assert_passkey now jti body r)
  show ?thesis by (rule hoare_snd [OF assert_passkey_triple refl assert_passkey]) blast+
next
  case (begin_revoke now jti r)
  then show ?thesis using keeps_snd [OF off_states_begin_revoke [rule_format]] by blast
next
  case (revoke_mandate now jti body r)
  then obtain x db1 where 1: "revoke_committed ne now jti body db = (x, db1)" "states db' = states db1"
    by (rule states_after_revoke)
  show ?thesis by (rule hoare_snd [OF revoke_committed_triple refl 1(1)]) (auto simp: 1)
next
  case (transition jti to r)
  show ?thesis
    by (rule hoare_snd [OF hoare_transaction [OF transition_triple] refl transition]) (auto split: if_splits)
qed

definition id_ok :: "id_db \<Rightarrow> bool" where
  "id_ok db \<longleftrightarrow> (\<forall>j x. states db j = Some x \<longrightarrow> (\<exists>s. x = status_str s))"

lemma mandate_state_states: "mandate_state db j = Option.bind (states db j) (\<lambda>x. as_mandate_status (PStr x))"
  by (simp add: mandate_state_def states_def split: option.splits)

lemma as_status_str: "as_mandate_status (PStr (status_str s)) = Some s"
  by (simp add: as_mandate_status_def del: status_str.simps)

lemma states_cases:
  assumes "id_ok db"
  obtains "states db j = None" "mandate_state db j = None"
  | s where "states db j = Some (status_str s)" "mandate_state db j = Some s"
proof (cases "states db j")
  case (Some x)
  with assms obtain s where "x = status_str s" by (auto simp: id_ok_def)
  with Some show ?thesis by (intro that(2)) (simp_all add: mandate_state_states as_status_str del: status_str.simps)
qed (rule that(1), simp_all add: mandate_state_states)

lemma id_step_ok:
  assumes "id_ok db" "id_step ne db db'"
  shows "id_ok db'"
  unfolding id_ok_def
proof (intro allI impI)
  fix j x
  assume "states db' j = Some x"
  with id_step_states [OF assms(2)] assms(1) show "\<exists>s. x = status_str s"
    unfolding id_ok_def moved_def by (metis fun_upd_apply option.inject)
qed

lemma id_step_life:
  assumes "id_ok db" "id_step ne db db'"
  shows "life_step (mandate_state db j) (mandate_state db' j)"
proof (cases "states db' j = states db j")
  case True
  then show ?thesis by (simp add: life_step_def mandate_state_states)
next
  case False
  from id_step_states [OF assms(2)] False
  consider "states db j = None" "states db' j = Some (status_str DRAFT)"
    | to where "moved (states db) j to (states db')"
    unfolding moved_def by (metis fun_upd_apply)
  then show ?thesis
  proof cases
    case 1
    then show ?thesis by (simp add: life_step_def mandate_state_states as_status_str del: status_str.simps)
  next
    case 2
    then obtain x where x: "x \<in> set (sources_for to)" "states db j = Some x" "states db' j = Some (status_str to)"
      by (auto simp: moved_def)
    then obtain s where s: "x = status_str s" by (auto dest: sources_for_range)
    with x have "is_allowed s to" by (simp add: sources_for_iff)
    moreover have "mandate_state db j = Some s" "mandate_state db' j = Some to"
      using x s by (simp_all add: mandate_state_states as_status_str del: status_str.simps)
    ultimately show ?thesis by (simp add: life_step_def)
  qed
qed

section \<open>The gesture\<close>

lemma consume_returns:
  "consume_challenge now v p db = (Inr (Some c), db') \<longleftrightarrow>
     (\<exists>row. dict_get (id_challenges db) (v, p) = Some row \<and> ic_consumed_at row = None \<and>
        c = \<lparr>ch_value = v, ch_user_id = ic_user_id row, ch_purpose = p, ch_expires_at = ic_expires_at row, ch_mandate_id = ic_mandate_id row\<rparr> \<and>
        db' = db\<lparr>id_challenges := dict_set (v, p) (row\<lparr>ic_consumed_at := Some now\<rparr>) (id_challenges db)\<rparr>)"
  by (auto simp: consume_challenge_def split: option.splits)

lemma assertion_returns:
  "verify_assertion ne now resp c cr (Some claims) = Inr n \<longleftrightarrow>
     now \<le> ch_expires_at c \<and> ch_value c = ne_digest ne claims \<and>
     ne_verify_authentication ne resp (ne_digest ne claims) (cr_public_key cr) (cr_sign_count cr) = Some n \<and>
     (0 < cr_sign_count cr \<longrightarrow> cr_sign_count cr < n)"
  by (auto simp: verify_assertion_def assert_usable_def split: option.splits)

definition holder_signed :: "id_env \<Rightarrow> instant \<Rightarrow> purpose \<Rightarrow> id_mandate \<Rightarrow> tl_claims \<Rightarrow> assertion \<Rightarrow> id_db \<Rightarrow> bool" where
  "holder_signed ne now p m claims body db \<longleftrightarrow>
     (\<exists>row cr n.
        dict_get (id_challenges db) (ne_digest ne claims, p) = Some row \<and> ic_consumed_at row = None \<and> now \<le> ic_expires_at row \<and>
        dict_get (id_credentials db) (as_id body) = Some cr \<and> cr_user_id cr = im_user_id m \<and>
        ne_verify_authentication ne (as_response body) (ne_digest ne claims) (cr_public_key cr) (cr_sign_count cr) = Some n \<and>
        (0 < cr_sign_count cr \<longrightarrow> cr_sign_count cr < n))"

definition challenge_spent :: "id_env \<Rightarrow> purpose \<Rightarrow> tl_claims \<Rightarrow> id_db \<Rightarrow> bool" where
  "challenge_spent ne p claims db \<longleftrightarrow>
     (case dict_get (id_challenges db) (ne_digest ne claims, p) of Some row \<Rightarrow> ic_consumed_at row \<noteq> None | None \<Rightarrow> False)"

lemma gesture_returns:
  assumes "verify_gesture ne now m body p db = (Inr claims, db')"
  shows "im_claims m = Inr claims" "holder_signed ne now p m claims body db" "challenge_spent ne p claims db'"
    "id_mandates db' = id_mandates db"
proof -
  from assms obtain v c db1 cr n where
    1: "im_claims m = Inr claims" "consume_challenge now v p db = (Inr (Some c), db1)" and
    2: "dict_get (id_credentials db1) (as_id body) = Some cr" "cr_user_id cr = im_user_id m"
      "verify_assertion ne now (as_response body) c cr (Some claims) = Inr n" "advance_sign_count (as_id body) n db1 = (Inr (), db')"
    unfolding verify_gesture_def
    by (auto simp: returns)
  note facts = 1(2) [unfolded consume_returns] 2(1,2) 2(3) [unfolded assertion_returns] 2(4) [unfolded advance_sign_count_def modify_s_def]
  show "im_claims m = Inr claims" by (fact 1)
  show "holder_signed ne now p m claims body db" using facts unfolding holder_signed_def by auto
  show "challenge_spent ne p claims db'" using facts by (auto simp: challenge_spent_def)
  show "id_mandates db' = id_mandates db" using facts by (auto split: option.splits)
qed

lemma get_record_returns: "get_record jti db = (Inr m, db') \<longleftrightarrow> dict_get (id_mandates db) jti = Some m \<and> db' = db"
  by (auto simp: get_record_def split: option.splits)

lemma emit_returns:
  "emit_event ty agg pl db = (Inr u, db') \<longleftrightarrow>
     ty \<in> set KNOWN_EVENT_TYPES \<and> db' = db\<lparr>id_outbox := id_outbox db @ [\<lparr>ie_type = ty, ie_aggregate = agg, ie_payload = pl\<rparr>]\<rparr>"
  by (auto simp: emit_event_def)

text \<open>The stages of an activation that returns.\<close>

lemma activation_stages:
  assumes "assert_passkey ne now jti body db = (Inr sd_jwt, db')"
  obtains m claims db1 result db2 db3 where
    "dict_get (id_mandates db) jti = Some m" "verify_gesture ne now m body Activate db = (Inr claims, db1)"
    "transition jti ACTIVE db1 = (Inr result, db2)" "tr_ok result" "attach_sd_jwt jti (ne_sd_issue ne claims) claims db2 = (Inr (), db3)"
    "sd_jwt = ne_sd_issue ne claims" "id_mandates db' = id_mandates db3" "id_challenges db' = id_challenges db3"
proof -
  have tail: "id_mandates d = id_mandates s \<and> id_challenges d = id_challenges s"
    if "(case ref of None \<Rightarrow> return_s () | Some t \<Rightarrow> bind_s (link_instrument t j) (\<lambda>_. emit_event ty j (pl t))) s = (Inr u, d)" for s d u ref ty j pl
    using that by (auto simp: returns emit_returns link_instrument_def modify_s_def split: option.splits if_splits)
  from assms obtain m claims db1 result db2 db3 d4 where
    1: "dict_get (id_mandates db) jti = Some m" "verify_gesture ne now m body Activate db = (Inr claims, db1)"
      "transition jti ACTIVE db1 = (Inr result, db2)" "tr_ok result" "attach_sd_jwt jti (ne_sd_issue ne claims) claims db2 = (Inr (), db3)"
      "sd_jwt = ne_sd_issue ne claims" and
    2: "(case or_str (cl_payment_method_ref claims) None of None \<Rightarrow> return_s () | Some ref \<Rightarrow> bind_s (link_instrument ref (cl_jti claims))
        (\<lambda>_. emit_event ''payment_instrument.linked'' (cl_jti claims)
           [(''mandate_jti'', PStr (cl_jti claims)), (''token_ref'', PStr ref)])) db3 = (Inr (), d4)" and
    3: "id_mandates db' = id_mandates d4" "id_challenges db' = id_challenges d4"
    unfolding assert_passkey_def Let_def by (auto simp: returns get_record_returns emit_returns)
  from tail [OF 2] 3 show ?thesis by (intro that [OF 1]) simp_all
qed

lemma transition_ok: "transition jti to db = (Inr result, db') \<Longrightarrow> tr_ok result \<Longrightarrow>
   \<exists>m. dict_get (id_mandates db) jti = Some m \<and> im_status m \<in> set (sources_for to) \<and> 
     db' = db\<lparr>id_mandates := dict_set jti (m\<lparr>im_status := status_str to, im_version := im_version m + 1\<rparr>) (id_mandates db)\<rparr>"
  by (auto simp: transition_def Let_def update_mandate_def refused_transition_def lift_res_def bind_res_Inr_iff 
     simp del: status_str.simps split: option.splits if_splits)

section \<open>A revocation that was begun\<close>

definition revoke_begun :: "id_env \<Rightarrow> string \<Rightarrow> tl_claims \<Rightarrow> id_db \<Rightarrow> bool" where
  "revoke_begun ne jti claims db \<longleftrightarrow>
     (case dict_get (id_mandates db) jti of Some m \<Rightarrow> im_claims m = Inr claims | None \<Rightarrow> False) \<and>
     dict_get (id_challenges db) (ne_digest ne claims, Revoke) \<noteq> None"

lemma begun_ops [simp]:
  "keeps (revoke_begun ne jti claims) (store_challenge c)" "keeps (revoke_begun ne jti claims) (consume_challenge now x p)"
  "keeps (revoke_begun ne jti claims) (store_credential cid cr)" "keeps (revoke_begun ne jti claims) (advance_sign_count cid n)"
  "keeps (revoke_begun ne jti claims) (link_instrument t j)" "keeps (revoke_begun ne jti claims) (emit_event ty ag pl)"
  "keeps (revoke_begun ne jti claims) (get_record j)" "keeps (revoke_begun ne jti claims) (repo_create_mandate cl)"
  by (auto simp: keeps_def revoke_begun_def store_challenge_def consume_challenge_def store_credential_def advance_sign_count_def
      link_instrument_def emit_event_def get_record_def modify_s_def repo_create_mandate_def dict_get_set split: option.splits if_splits)

lemma begun_update: "(\<And>m. im_claims (f m) = im_claims m) \<Longrightarrow> revoke_begun ne jti claims (update_mandate j f db) = revoke_begun ne jti claims db"
  by (auto simp: revoke_begun_def update_mandate_def dict_get_set split: option.splits)

lemma begun_transition [simp]: "keeps (revoke_begun ne jti claims) (transition j to)"
  by (auto simp: keeps_def transition_def Let_def refused_transition_def lift_res_def begun_update split: option.splits)

lemma begun_gesture [simp]: "keeps (revoke_begun ne jti claims) (verify_gesture ne now m body p)"
  unfolding verify_gesture_def
  by (auto intro!: keeps_bind keeps_if split: option.splits sum.splits)

lemma begun_delete: "revoke_begun ne jti claims (delete_instruments ne refs db) = revoke_begun ne jti claims db"
proof -
  have "revoke_begun ne jti claims (mark_instrument_deleted t db) = revoke_begun ne jti claims db" for t db
    by (simp add: mark_instrument_deleted_def revoke_begun_def split: option.splits)
  then show ?thesis by (induction refs arbitrary: db) (simp_all add: delete_instruments_def)
qed

lemma begun_activation:
  assumes "revoke_begun ne jti claims db" "assert_passkey ne now j body db = (r, db')"
  shows "revoke_begun ne jti claims db'"
proof (cases r)
  case (Inl e)
  with assms show ?thesis by (simp add: assert_passkey_def)
next
  case (Inr sd_jwt)
  with assms(2) obtain m k db1 result db2 db3 where
    s: "dict_get (id_mandates db) j = Some m" "verify_gesture ne now m body Activate db = (Inr k, db1)"
      "transition j ACTIVE db1 = (Inr result, db2)" "tr_ok result" "attach_sd_jwt j (ne_sd_issue ne k) k db2 = (Inr (), db3)" and
    same: "id_mandates db' = id_mandates db3" "id_challenges db' = id_challenges db3"
    by (metis activation_stages)
  have "revoke_begun ne jti claims db2"
    using keepsD [OF begun_transition keepsD [OF begun_gesture assms(1) s(2)] s(3)] .
  moreover have "jti = j \<Longrightarrow> k = claims"
    using assms(1) s(1) gesture_returns(1) [OF s(2)] by (simp add: revoke_begun_def)
  ultimately have "revoke_begun ne jti claims db3"
    using s(5) by (auto simp: attach_sd_jwt_def modify_s_def revoke_begun_def update_mandate_def dict_get_set split: option.splits if_splits)
  with same show ?thesis by (simp add: revoke_begun_def)
qed

lemma begun_step:
  assumes "id_step ne db db'" "revoke_begun ne jti claims db"
  shows "revoke_begun ne jti claims db'"
  using assms(1)
proof cases
  case (begin_registration now random user_id r)
  then show ?thesis
    unfolding begin_registration_def by (rule keeps_request [of "revoke_begun ne jti claims", OF assms(2)]) auto
next
  case (complete_registration now presented response r)
  then show ?thesis
    unfolding complete_registration_def
    by (rule keeps_request [of "revoke_begun ne jti claims", OF assms(2)]) (auto intro!: keeps_bind split: option.splits sum.splits)
next
  case (create_mandate now j jwk rq r)
  then show ?thesis
    unfolding create_mandate_def Let_def
    by (rule keeps_request [of "revoke_begun ne jti claims", OF assms(2)]) (intro keeps_bind keeps_if; simp)
next
  case (assert_passkey now j body r)
  with assms(2) show ?thesis by (rule begun_activation)
next
  case (begin_revoke now j r)
  then show ?thesis
    unfolding begin_revoke_def Let_def
    by (rule keeps_request [of "revoke_begun ne jti claims", OF assms(2)]) (intro keeps_bind keeps_if; simp)
next
  case (revoke_mandate now j body r)
  have "keeps (revoke_begun ne jti claims) (revoke_committed ne now j body)"
    unfolding revoke_committed_def by (intro keeps_transaction keeps_bind keeps_if; simp)
  then have "keeps (revoke_begun ne jti claims) (revoke_mandate ne now j body)"
    unfolding revoke_mandate_def by (intro keeps_bind keeps_modify) (simp_all add: begun_delete)
  from keepsD [OF this assms(2) revoke_mandate] show ?thesis .
next
  case (transition j to r)
  then show ?thesis by (rule keeps_request [of "revoke_begun ne jti claims", OF assms(2)]) simp
qed

section \<open>Properties\<close>

lemma id_steps_ok: "(id_step ne)\<^sup>*\<^sup>* db db' \<Longrightarrow> id_ok db \<Longrightarrow> id_ok db'"
  by (induction rule: rtranclp_induct) (auto intro: id_step_ok)

lemma life_step_terminal: "is_terminal s \<Longrightarrow> life_step (Some s) x \<Longrightarrow> x = Some s"
  unfolding life_step_def is_terminal_def is_allowed_def by (metis (full_types) allowed_sources.simps insertE list.set empty_iff
      mandate_status.distinct option.distinct(1) option.inject mandate_status.exhaust)

text \<open>
  C18: the requests of the identity lane implement the life cycle of a mandate: whatever the request, a mandate
  keeps its state, is born as a draft or moves along a transition the state machine admits, and the stored
  statuses remain statuses.
\<close>

theorem identity_requests_refine_life_cycle:
  assumes "id_ok db" "id_step ne db db'"
  shows "id_ok db' \<and> life_step (mandate_state db j) (mandate_state db' j)"
  using id_step_ok [OF assms] id_step_life [OF assms] by (rule conjI)

text \<open>a mandate that is revoked, expired or exhausted remains so in every database the lane can reach.\<close>

theorem terminal_mandate_is_final:
  assumes "id_ok db" "(id_step ne)\<^sup>*\<^sup>* db db'" "mandate_state db j = Some s" "is_terminal s"
  shows "mandate_state db' j = Some s"
  using assms(2)
proof (induction rule: rtranclp_induct)
  case (step y z)
  have "life_step (mandate_state y j) (mandate_state z j)"
    using id_steps_ok [OF step(1) assms(1)] step(2) by (rule id_step_life)
  with step.IH assms(4) show ?case by (simp add: life_step_terminal)
qed (rule assms(3))

text \<open>
  C19: a mandate is activated only by its holder, over the claims that are stored: there was an unspent, unexpired
  activation challenge that is the digest of these claims, the credential belongs to the user of the mandate and
  its assertion over that challenge verified with an advancing counter. The challenge is spent, the mandate is active,
  and the token issued is over the same claims.
\<close>

theorem activation_takes_the_holders_gesture:
  assumes "assert_passkey ne now jti body db = (Inr sd_jwt, db')"
  shows "\<exists>m claims. dict_get (id_mandates db) jti = Some m \<and> im_claims m = Inr claims \<and>
    holder_signed ne now Activate m claims body db \<and> challenge_spent ne Activate claims db' \<and>
    im_status m \<in> {status_str DRAFT, status_str SUSPENDED} \<and> sd_jwt = ne_sd_issue ne claims \<and>
    dict_get (id_mandates db') jti =
      Some (m\<lparr>im_status := status_str ACTIVE, im_version := im_version m + 1, im_sd_jwt := Some sd_jwt\<rparr>)"
proof -
  from assms obtain m claims db1 result db2 db3 where
    s: "dict_get (id_mandates db) jti = Some m" "verify_gesture ne now m body Activate db = (Inr claims, db1)"
      "transition jti ACTIVE db1 = (Inr result, db2)" "tr_ok result" "attach_sd_jwt jti (ne_sd_issue ne claims) claims db2 = (Inr (), db3)"
      "sd_jwt = ne_sd_issue ne claims" and
    same: "id_mandates db' = id_mandates db3" "id_challenges db' = id_challenges db3"
    by (rule activation_stages)
  note g = gesture_returns [OF s(2)]
  from transition_ok [OF s(3,4)] g(4) s(1) have
    2: "im_status m \<in> set (sources_for ACTIVE)"
      "db2 = db1\<lparr>id_mandates := dict_set jti (m\<lparr>im_status := status_str ACTIVE, im_version := im_version m + 1\<rparr>) (id_mandates db1)\<rparr>"
    by auto
  have "challenge_spent ne Activate claims db'"
    using g(3) s(5) 2(2) same(2) by (auto simp: challenge_spent_def attach_sd_jwt_def modify_s_def update_mandate_def)
  moreover have "dict_get (id_mandates db') jti =
      Some (m\<lparr>im_status := status_str ACTIVE, im_version := im_version m + 1, im_sd_jwt := Some sd_jwt\<rparr>)"
    using s(5,6) 2(2) same(1) g(1)
    by (auto simp: attach_sd_jwt_def modify_s_def update_mandate_def simp del: status_str.simps)
  moreover have "im_status m \<in> {status_str DRAFT, status_str SUSPENDED}" using 2(1) by (auto simp: sources_for_def)
  ultimately show ?thesis using s(1,6) g(1,2) by blast
qed

text \<open>
  C20: a revocation can be begun once in the life of a mandate: the challenge is the digest of the claims and its row is
  never removed, so after one begun revocation every later attempt raises, expired challenge or not, whatever requests
  came between.
\<close>

theorem revocation_begins_once:
  assumes "begin_revoke ne now jti db = (Inr ch, db1)" "(id_step ne)\<^sup>*\<^sup>* db1 db2"
  shows "\<exists>e. begin_revoke ne later jti db2 = (Inl e, db2) \<and> (e = DatabaseError \<or> e = HttpError 412)"
proof -
  from assms(1) obtain m claims where
    1: "dict_get (id_mandates db) jti = Some m" "im_claims m = Inr claims"
      "store_challenge (mandate_options ne now claims Revoke) db = (Inr (), db1)"
    unfolding begin_revoke_def Let_def by (auto simp: returns get_record_returns)
  then have "revoke_begun ne jti claims db1"
    by (auto simp: revoke_begun_def store_challenge_def mandate_options_def issue_challenge_def split: if_splits)
  with assms(2) have "revoke_begun ne jti claims db2" by (induction rule: rtranclp_induct) (auto intro: begun_step)
  then show ?thesis
    by (auto simp: revoke_begun_def begin_revoke_def Let_def in_transaction_def bind_s_def get_record_def sres_defs store_challenge_def
        mandate_options_def issue_challenge_def split: option.splits)
qed

section \<open>A run of the lane\<close>

definition id_world :: id_env where
  "id_world = \<lparr>ne_digest = (\<lambda>c. cl_jti c @ ''-digest''), ne_verify_registration = (\<lambda>_ _. None),
     ne_verify_authentication = (\<lambda>resp ch key n. if dict_get resp ''signature'' = Some (PStr (ch @ key)) then Some (n + 1) else None),
     ne_client_challenge = (\<lambda>v. as_text v), ne_sd_issue = (\<lambda>c. cl_jti c @ ''-sd''), ne_dump_limits = (\<lambda>_. PNone),
     ne_setup_token = (\<lambda>_. None), ne_delete_token = (\<lambda>_. True), ne_issuer = ''iss'', ne_challenge_ttl = 300\<rparr>"

definition id_claims :: tl_claims where
  "id_claims = \<lparr>cl_iss = ''iss'', cl_iat = 0, cl_nbf = 0, cl_exp = 9, cl_jti = ''m'', cl_sub = ''u'', cl_agent = ''a'', cl_cnf = PNone,
     cl_payment_method_ref = Some ''tok'', cl_currency = ''USD'', cl_scope = \<lparr>sc_categories = [], sc_merchants = []\<rparr>, cl_conditions = None,
     cl_limits = \<lparr>tl_max_per_txn = None, tl_total_budget = None, tl_max_txn = None\<rparr>,
     cl_validity = \<lparr>va_not_before = 0, va_expires_at = 9000000\<rparr>, cl_parent_jti = None, cl_vct = None, cl_constraints = None\<rparr>"

definition id_row :: "mandate_status \<Rightarrow> id_mandate" where
  "id_row s = \<lparr>im_user_id = ''u'', im_agent_id = ''a'', im_status = status_str s, im_claims = Inr id_claims, im_sd_jwt = None,
     im_reserved = ''0.00'', im_spent = ''0.00'', im_txn_count = 0, im_parent = None, im_version = 1\<rparr>"

definition id_start :: "mandate_status \<Rightarrow> id_db" where
  "id_start s = \<lparr>id_mandates = [(''m'', id_row s)], id_instruments = [],
     id_challenges = [((''m-digest'', Activate),
       \<lparr>ic_user_id = ''u'', ic_mandate_id = Some ''m'', ic_expires_at = 300, ic_consumed_at = None\<rparr>)],
     id_credentials = [(''c'', \<lparr>cr_user_id = ''u'', cr_public_key = ''k'', cr_sign_count = 0\<rparr>)], id_outbox = []\<rparr>"

definition id_gesture :: assertion where
  "id_gesture = \<lparr>as_id = ''c'', as_response = [(''clientDataJSON_challenge'', PStr ''m-digest''), (''signature'', PStr ''m-digestk'')]\<rparr>"

lemmas id_run_defs = id_world_def id_claims_def id_row_def id_start_def id_gesture_def

lemma id_start_ok: "id_ok (id_start s)"
  by (auto simp: id_ok_def states_def id_run_defs simp del: status_str.simps split: if_splits)

lemma id_start_state: "mandate_state (id_start s) ''m'' = Some s"
  by (simp add: mandate_state_states states_def id_run_defs as_status_str del: status_str.simps)

lemma id_run_activation: "\<exists>db'. assert_passkey id_world 10 ''m'' id_gesture (id_start DRAFT) = (Inr ''m-sd'', db')"
  by (simp add: assert_passkey_def in_transaction_def bind_s_def get_record_def verify_gesture_def sres_defs presented_challenge_def
      consume_challenge_def verify_assertion_def assert_usable_def advance_sign_count_def transition_def sources_for_def attach_sd_jwt_def
      link_instrument_def emit_event_def KNOWN_EVENT_TYPES_def update_mandate_def or_str_def Let_def truthy.simps dict_get_or_def id_run_defs as_text_def)

theorem identity_requests_refine_life_cycle_witness:
  "\<exists>db'. fst (assert_passkey id_world 10 ''m'' id_gesture (id_start DRAFT)) = Inr ''m-sd'' \<and>
     snd (assert_passkey id_world 10 ''m'' id_gesture (id_start DRAFT)) = db' \<and> id_ok db' \<and>
     life_step (mandate_state (id_start DRAFT) ''m'') (mandate_state db' ''m'')"
proof -
  obtain db' where run: "assert_passkey id_world 10 ''m'' id_gesture (id_start DRAFT) = (Inr ''m-sd'', db')"
    using id_run_activation by blast
  from identity_requests_refine_life_cycle [OF id_start_ok id_step.assert_passkey [OF run], of "''m''"] run
  show ?thesis by simp
qed

theorem terminal_mandate_is_final_witness:
  "\<exists>db'. in_transaction (transition ''m'' ACTIVE) (id_start REVOKED) = (Inr \<lparr>tr_ok = False, tr_frm = Some REVOKED, tr_to = ACTIVE,
      tr_reason = Some MANDATE_REVOKED, tr_event = None\<rparr>, db') \<and> mandate_state db' ''m'' = Some REVOKED"
proof -
  have run: "in_transaction (transition ''m'' ACTIVE) (id_start REVOKED) = (Inr \<lparr>tr_ok = False, tr_frm = Some REVOKED, tr_to = ACTIVE,
      tr_reason = Some MANDATE_REVOKED, tr_event = None\<rparr>, id_start REVOKED)"
    by (simp add: transition_def sources_for_def refused_transition_def lift_res_def current_status_def mandate_status_of_def
        refusal_reason_def id_run_defs)
  from terminal_mandate_is_final [OF id_start_ok r_into_rtranclp [of "id_step id_world", OF id_step.transition [OF run]] id_start_state]
  show ?thesis using run by (simp add: is_terminal_def)
qed

theorem activation_takes_the_holders_gesture_witness:
  "\<exists>db'. snd (assert_passkey id_world 10 ''m'' id_gesture (id_start DRAFT)) = db' \<and> challenge_spent id_world Activate id_claims db'"
proof -
  obtain db' where run: "assert_passkey id_world 10 ''m'' id_gesture (id_start DRAFT) = (Inr ''m-sd'', db')"
    using id_run_activation by blast
  from activation_takes_the_holders_gesture [OF run] run show ?thesis
    by (auto simp: id_start_def id_row_def)
qed

theorem revocation_begins_once_witness:
  "\<exists>db1 e. begin_revoke id_world 10 ''m'' (id_start ACTIVE) = (Inr ''m-digest'', db1) \<and>
     begin_revoke id_world 999000000 ''m'' db1 = (Inl e, db1) \<and> (e = DatabaseError \<or> e = HttpError 412)"
proof -
  have "\<exists>db1. begin_revoke id_world 10 ''m'' (id_start ACTIVE) = (Inr ''m-digest'', db1)"
    by (simp add: begin_revoke_def in_transaction_def bind_s_def get_record_def sres_defs credentials_for_def mandate_options_def
        issue_challenge_def store_challenge_def id_run_defs)
  then obtain db1 where "begin_revoke id_world 10 ''m'' (id_start ACTIVE) = (Inr ''m-digest'', db1)" ..
  with revocation_begins_once [OF this rtranclp.rtrancl_refl, of 999000000] show ?thesis by blast
qed

end
