(* ===== verification/Trust_Jose.thy ===== *)
theory Trust_Jose
  imports Agent_Db
begin

text \<open>
  The JOSE layer of the trust library (\<^verbatim>\<open>src/src/trustlib/jose.py\<close>) and SD-JWT on top of it (\<^verbatim>\<open>sdjwt.py\<close>): base64url,
  compact and detached signatures, issuing a token with selective disclosures, key binding by its holder and
  verification. Signatures (\<^verbatim>\<open>jwcrypto\<close>), RFC 8785 and SHA-256 are parameters, as is reading JSON text.
\<close>

section \<open>Base64url\<close>

definition b64_char :: "nat \<Rightarrow> char" where
  "b64_char n =
     char_of (if n < 26 then n + 65 else if n < 52 then n + 71 else if n < 62 then n - 4 else if n = 62 then 45 else (95 :: nat))"

text \<open>The reader also takes the two characters of the common alphabet.\<close>

definition b64_value :: "char \<Rightarrow> nat option" where
  "b64_value c =
     (let n = of_char c :: nat
      in if 65 \<le> n \<and> n \<le> 90 then Some (n - 65)
         else if 97 \<le> n \<and> n \<le> 122 then Some (n - 71)
         else if 48 \<le> n \<and> n \<le> 57 then Some (n + 4)
         else if n = 45 \<or> n = 43 then Some 62
         else if n = 95 \<or> n = 47 then Some 63
         else None)"

abbreviation code_of :: "char \<Rightarrow> nat" where
  "code_of c \<equiv> of_char c"

fun b64u_encode :: "string \<Rightarrow> string" where
  "b64u_encode [] = []"
| "b64u_encode [a] = [b64_char (code_of a div 4), b64_char (code_of a mod 4 * 16)]"
| "b64u_encode [a, b] =
     [b64_char (code_of a div 4), b64_char (code_of a mod 4 * 16 + code_of b div 16), b64_char (code_of b mod 16 * 4)]"
| "b64u_encode (a # b # c # r) =
     b64_char (code_of a div 4) # b64_char (code_of a mod 4 * 16 + code_of b div 16)
     # b64_char (code_of b mod 16 * 4 + code_of c div 64) # b64_char (code_of c mod 64) # b64u_encode r"

text \<open>
  \<^verbatim>\<open>binascii.a2b_base64\<close> without strict mode: the position in the group of four, the padding characters seen, the
  bits left over. A character outside the alphabet is skipped, a padding character ends the text where it completes
  a group.
\<close>

fun a2b :: "nat \<Rightarrow> nat \<Rightarrow> nat \<Rightarrow> string \<Rightarrow> string res" where
  "a2b q pads left [] = (if q = 0 then Inr [] else Inl ValueError)"
| "a2b q pads left (c # cs) =
     (if c = CHR ''='' then
        (if 2 \<le> q then if 4 \<le> q + (pads + 1) then Inr [] else a2b q (pads + 1) left cs else a2b q pads left cs)
      else
        case b64_value c of
          None \<Rightarrow> a2b q pads left cs
        | Some v \<Rightarrow>
            if q = 0 then a2b 1 0 v cs
            else if q = 1 then bind_res (a2b 2 0 (v mod 16) cs) (\<lambda>r. Inr (char_of (left * 4 + v div 16) # r))
            else if q = 2 then bind_res (a2b 3 0 (v mod 4) cs) (\<lambda>r. Inr (char_of (left * 16 + v div 4) # r))
            else bind_res (a2b 0 0 0 cs) (\<lambda>r. Inr (char_of (left * 64 + v) # r)))"

definition b64_padding :: "string \<Rightarrow> string" where
  "b64_padding data = replicate (nat (- int (length data) mod 4)) CHR ''=''"

definition b64u_decode :: "string \<Rightarrow> string res" where
  "b64u_decode data = a2b 0 0 0 (data @ b64_padding data)"

lemma b64_value_char: "n < 64 \<Longrightarrow> b64_value (b64_char n) = Some n"
  by (auto simp: b64_value_def b64_char_def Let_def)

lemma b64_char_not_pad: "b64_char n \<noteq> CHR ''=''"
proof
  assume "b64_char n = CHR ''=''"
  then have "code_of (b64_char n) = 61" by simp
  then show False by (auto simp: b64_char_def split: if_splits)
qed

lemma code_of_less: "code_of c < 256"
  by (metis of_char_mod_256 mod_less_divisor zero_less_numeral)

lemma a2b_char:
  assumes "n < 64"
  shows "a2b 0 pads left (b64_char n # cs) = a2b 1 0 n cs"
    "a2b 1 pads left (b64_char n # cs) = bind_res (a2b 2 0 (n mod 16) cs) (\<lambda>r. Inr (char_of (left * 4 + n div 16) # r))"
    "a2b 2 pads left (b64_char n # cs) = bind_res (a2b 3 0 (n mod 4) cs) (\<lambda>r. Inr (char_of (left * 16 + n div 4) # r))"
    "a2b 3 pads left (b64_char n # cs) = bind_res (a2b 0 0 0 cs) (\<lambda>r. Inr (char_of (left * 64 + n) # r))"
  using assms by (simp_all add: b64_value_char b64_char_not_pad)

lemma a2b_pad: "a2b 2 0 left ''=='' = Inr []" "a2b 3 0 left ''='' = Inr []"
  by simp_all

lemma sextets:
  fixes a b c :: nat
  assumes "a < 256" "b < 256" "c < 256"
  shows "a div 4 < 64" "a mod 4 * 16 < 64" "a mod 4 * 16 + b div 16 < 64" "b mod 16 * 4 < 64" "b mod 16 * 4 + c div 64 < 64" "c mod 64 < 64"
    "a div 4 * 4 + (a mod 4 * 16 + b div 16) div 16 = a" "(a mod 4 * 16 + b div 16) mod 16 * 16 + (b mod 16 * 4 + c div 64) div 4 = b"
    "(b mod 16 * 4 + c div 64) mod 4 * 64 + c mod 64 = c" "(a mod 4 * 16 + b div 16) mod 16 * 16 + b mod 16 * 4 div 4 = b"
proof -
  have q: "b div 16 < 16" "c div 64 < 4" using assms by (simp_all add: less_mult_imp_div_less)
  then show "a div 4 < 64" "a mod 4 * 16 < 64" "a mod 4 * 16 + b div 16 < 64" "b mod 16 * 4 < 64" "b mod 16 * 4 + c div 64 < 64" "c mod 64 < 64"
    using assms mod_less_divisor [of 4 a] mod_less_divisor [of 16 b] by (simp_all add: less_mult_imp_div_less)
  have r: "(a mod 4 * 16 + b div 16) div 16 = a mod 4" "(a mod 4 * 16 + b div 16) mod 16 = b div 16"
    "(b mod 16 * 4 + c div 64) div 4 = b mod 16" "(b mod 16 * 4 + c div 64) mod 4 = c div 64"
    using q by simp_all
  then show "a div 4 * 4 + (a mod 4 * 16 + b div 16) div 16 = a" "(a mod 4 * 16 + b div 16) mod 16 * 16 + (b mod 16 * 4 + c div 64) div 4 = b"
    "(b mod 16 * 4 + c div 64) mod 4 * 64 + c mod 64 = c" "(a mod 4 * 16 + b div 16) mod 16 * 16 + b mod 16 * 4 div 4 = b"
    by simp_all
qed

lemma b64_padding_cong: "length s mod 4 = length t mod 4 \<Longrightarrow> b64_padding s = b64_padding t"
proof -
  assume "length s mod 4 = length t mod 4"
  then have "int (length s mod 4) = int (length t mod 4)" by simp
  then have "int (length s) mod 4 = int (length t) mod 4" by (simp add: zmod_int)
  then have "- int (length s) mod 4 = - int (length t) mod 4" by (rule mod_minus_cong)
  then show ?thesis by (simp add: b64_padding_def)
qed

lemma a2b_encode: "a2b 0 0 0 (b64u_encode s @ b64_padding (b64u_encode s)) = Inr s"
proof (induction s rule: b64u_encode.induct)
  case (2 a)
  have p: "b64_padding (b64u_encode [a]) = ''==''" by (simp add: b64_padding_def numeral_2_eq_2)
  note x = sextets [of "code_of a" "code_of a" "code_of a", OF code_of_less code_of_less code_of_less]
  show ?case unfolding p
    using x(1,2) by (simp only: b64u_encode.simps append.simps a2b_char a2b_pad) (simp add: a2b_pad)
next
  case (3 a b)
  have p: "b64_padding (b64u_encode [a, b]) = ''=''" by (simp add: b64_padding_def)
  note x = sextets [of "code_of a" "code_of b" "code_of b", OF code_of_less code_of_less code_of_less]
  show ?case unfolding p
    using x(1,3,4) by (simp only: b64u_encode.simps append.simps a2b_char a2b_pad bind_res_simps x char_of_char)
next
  case (4 a b c r)
  have p: "b64_padding (b64u_encode (a # b # c # r)) = b64_padding (b64u_encode r)" by (rule b64_padding_cong) simp
  note x = sextets [of "code_of a" "code_of b" "code_of c", OF code_of_less code_of_less code_of_less]
  show ?case unfolding p
    using x(1,3,5,6) by (simp only: b64u_encode.simps append.simps a2b_char 4 bind_res_simps x char_of_char)
qed (simp add: b64_padding_def)

text \<open>what is encoded with base64url, without its padding, is read back, for every sequence of bytes.\<close>

theorem b64u_decode_encode: "b64u_decode (b64u_encode data) = Inr data"
  unfolding b64u_decode_def by (rule a2b_encode)

section \<open>Signatures\<close>

text \<open>
  A key is the mapping of its JWK. \<open>jo_sign\<close> serializes a payload with a protected header under a key, \<open>jo_deserialize\<close> checks a token
  against a key and gives its payload, \<open>jo_jwk\<close> makes a key of a mapping, \<open>jo_public\<close> exports its public half (all \<^verbatim>\<open>jwcrypto\<close>); \<open>jo_canonical\<close> is RFC 8785, \<open>jo_loads\<close> is
  \<^verbatim>\<open>json.loads\<close> and \<open>jo_sha\<close> the digest of SHA-256.
\<close>

record jose_env =
  jo_sign :: "string \<Rightarrow> pydict \<Rightarrow> pydict \<Rightarrow> string res"
  jo_deserialize :: "string \<Rightarrow> pydict \<Rightarrow> string res"
  jo_jwk :: "pyval \<Rightarrow> pydict res"
  jo_canonical :: "pyval \<Rightarrow> string res"
  jo_loads :: "string \<Rightarrow> pyval res"
  jo_public :: "pydict \<Rightarrow> pydict"
  jo_sha :: "string \<Rightarrow> string"

definition alg_for :: "pydict \<Rightarrow> string res" where
  "alg_for key =
     (case dict_get key ''kty'' of
        Some (PStr t) \<Rightarrow> if t = ''OKP'' then Inr ''EdDSA'' else if t = ''EC'' then Inr ''ES256'' else Inl ValueError
      | _ \<Rightarrow> Inl ValueError)"

definition sign_compact :: "jose_env \<Rightarrow> pydict \<Rightarrow> pydict \<Rightarrow> string option \<Rightarrow> string option \<Rightarrow> string res" where
  "sign_compact je payload key kid typ =
     bind_res (alg_for key) (\<lambda>alg.
     let header = [(''alg'', PStr alg)]
                  @ (case or_str kid None of Some k \<Rightarrow> [(''kid'', PStr k)] | None \<Rightarrow> [])
                  @ (case or_str typ None of Some t \<Rightarrow> [(''typ'', PStr t)] | None \<Rightarrow> [])
     in bind_res (jo_canonical je (PDict payload)) (\<lambda>text. jo_sign je text key header))"

definition verify_compact :: "jose_env \<Rightarrow> string \<Rightarrow> pydict \<Rightarrow> pyval res" where
  "verify_compact je token key = bind_res (jo_deserialize je token key) (jo_loads je)"

definition peek_header :: "jose_env \<Rightarrow> string \<Rightarrow> pyval res" where
  "peek_header je token = bind_res (b64u_decode (takeWhile (\<lambda>c. c \<noteq> CHR ''.'') token)) (jo_loads je)"

text \<open>\<^verbatim>\<open>text.split(c)\<close>.\<close>

fun split_on :: "char \<Rightarrow> string \<Rightarrow> string list" where
  "split_on c [] = [[]]"
| "split_on c (x # xs) =
     (if x = c then [] # split_on c xs else case split_on c xs of [] \<Rightarrow> [[x]] | p # ps \<Rightarrow> (x # p) # ps)"

definition sign_detached :: "jose_env \<Rightarrow> pydict \<Rightarrow> pydict \<Rightarrow> string option \<Rightarrow> string res" where
  "sign_detached je payload key kid =
     bind_res (sign_compact je payload key kid None) (\<lambda>token.
     case split_on (CHR ''.'') token of [header, _, signature] \<Rightarrow> Inr (header @ ''..'' @ signature) | _ \<Rightarrow> Inl ValueError)"

definition verify_detached :: "jose_env \<Rightarrow> string \<Rightarrow> pydict \<Rightarrow> pydict \<Rightarrow> pyval res" where
  "verify_detached je token payload key =
     (case split_on (CHR ''.'') token of
        [header, _, signature] \<Rightarrow>
          bind_res (jo_canonical je (PDict payload)) (\<lambda>text.
          verify_compact je (header @ ''.'' @ b64u_encode text @ ''.'' @ signature) key)
      | _ \<Rightarrow> Inl ValueError)"

section \<open>SD-JWT\<close>

definition sd_digest :: "jose_env \<Rightarrow> string \<Rightarrow> string" where
  "sd_digest je disclosure = b64u_encode (jo_sha je disclosure)"

definition make_disclosure :: "jose_env \<Rightarrow> string \<Rightarrow> string \<Rightarrow> pyval \<Rightarrow> (string \<times> string) res" where
  "make_disclosure je random name value =
     bind_res (jo_canonical je (PList [PStr (b64u_encode random), PStr name, value])) (\<lambda>text.
     let disclosure = b64u_encode text in Inr (disclosure, sd_digest je disclosure))"

text \<open>\<open>randoms\<close> holds the sixteen random bytes of each disclosure.\<close>

fun make_disclosures :: "jose_env \<Rightarrow> string list \<Rightarrow> pydict \<Rightarrow> (string \<times> string) list res" where
  "make_disclosures je randoms [] = Inr []"
| "make_disclosures je [] ((name, value) # sel) = Inl StopIteration"
| "make_disclosures je (random # randoms) ((name, value) # sel) =
     bind_res (make_disclosure je random name value) (\<lambda>d.
     bind_res (make_disclosures je randoms sel) (\<lambda>ds. Inr (d # ds)))"

definition issue_sd :: "jose_env \<Rightarrow> string list \<Rightarrow> pydict \<Rightarrow> pydict \<Rightarrow> string \<Rightarrow> pydict \<Rightarrow> string res" where
  "issue_sd je randoms claims key kid selective =
     bind_res (make_disclosures je randoms selective) (\<lambda>ds.
     let payload = (if selective = [] then claims
                    else dict_set ''_sd_alg'' (PStr ''sha-256'') (dict_set ''_sd'' (PList (map (PStr \<circ> snd) ds)) claims))
     in bind_res (sign_compact je payload key (Some kid) (Some ''sd+jwt'')) (\<lambda>token.
        Inr (join_str ''~'' (token # map fst ds) @ ''~'')))"

definition attach_key_binding :: "jose_env \<Rightarrow> int \<Rightarrow> string \<Rightarrow> pydict \<Rightarrow> string \<Rightarrow> string \<Rightarrow> string res" where
  "attach_key_binding je now sd_jwt holder_key nonce aud =
     (let presented = (if sd_jwt \<noteq> [] \<and> last sd_jwt = CHR ''~'' then sd_jwt else sd_jwt @ ''~'')
      in bind_res (sign_compact je [(''nonce'', PStr nonce), (''aud'', PStr aud), (''iat'', PInt now),
                                    (''sd_hash'', PStr (b64u_encode (jo_sha je presented)))] holder_key None (Some ''kb+jwt'')) (\<lambda>kb.
         Inr (presented @ kb)))"

definition sd_split :: "string \<Rightarrow> string \<times> string list \<times> string option" where
  "sd_split sd_jwt =
     (let parts = split_on (CHR ''~'') sd_jwt;
          rest = tl parts;
          kb = (if rest \<noteq> [] \<and> last rest \<noteq> [] then Some (last rest) else None);
          rest = (if kb = None then rest else butlast rest);
          rest = (if rest \<noteq> [] \<and> last rest = [] then butlast rest else rest)
      in (hd parts, filter (\<lambda>d. d \<noteq> []) rest, kb))"

subsection \<open>Verification\<close>

text \<open>A payload that is not an object makes a later statement raise.\<close>

definition as_object :: "pyval \<Rightarrow> pydict res" where
  "as_object v = (case v of PDict m \<Rightarrow> Inr m | _ \<Rightarrow> Inl TypeError)"

text \<open>The key of a header: the one its \<^verbatim>\<open>kid\<close> names, or the first where it names none.\<close>

definition key_for :: "(string, pydict) dict \<Rightarrow> pyval \<Rightarrow> pydict res" where
  "key_for keys header =
     (case header of
        PDict h \<Rightarrow>
          (let kid = dict_get_or h ''kid'' PNone;
               key = (if truthy kid then case kid of PStr k \<Rightarrow> dict_get keys k | _ \<Rightarrow> None else map_option snd (find (\<lambda>_. True) keys))
           in if truthy kid \<and> unhashable kid then Inl TypeError
              else case key of None \<Rightarrow> Inl InvalidSignature | Some k \<Rightarrow> Inr k)
      | _ \<Rightarrow> Inl AttributeError)"

text \<open>\<^verbatim>\<open>except (InvalidJWSSignature, ValueError)\<close>.\<close>

definition signature_error :: "exn \<Rightarrow> 'a res \<Rightarrow> 'a res" where
  "signature_error e r = (case r of Inl x \<Rightarrow> if x = InvalidJWSSignature \<or> is_ValueError x then Inl e else Inl x | Inr v \<Rightarrow> Inr v)"

text \<open>The window of validity, with the leeway of zero that every caller uses.\<close>

definition check_exp :: "int \<Rightarrow> pydict \<Rightarrow> unit res" where
  "check_exp current claims =
     (case dict_get claims ''exp'' of
        None \<Rightarrow> Inr ()
      | Some v \<Rightarrow> (case as_number v of None \<Rightarrow> Inl TypeError | Some d \<Rightarrow> if dec_less d (Dec current 0) then Inl TokenExpired else Inr ()))"

definition check_nbf :: "int \<Rightarrow> pydict \<Rightarrow> unit res" where
  "check_nbf current claims =
     (case dict_get claims ''nbf'' of
        None \<Rightarrow> Inr ()
      | Some v \<Rightarrow> (case as_number v of None \<Rightarrow> Inl TypeError | Some d \<Rightarrow> if dec_less (Dec current 0) d then Inl NotYetValid else Inr ()))"

definition signed_digests :: "pydict \<Rightarrow> pyval list res" where
  "signed_digests claims =
     bind_res (py_iter (dict_get_or claims ''_sd'' (PList []))) (\<lambda>vs. if list_ex unhashable vs then Inl TypeError else Inr vs)"

text \<open>\<^verbatim>\<open>_, name, value = json.loads(...)\<close>; the names of claims are text.\<close>

definition read_disclosure :: "jose_env \<Rightarrow> string \<Rightarrow> (string \<times> pyval) res" where
  "read_disclosure je disclosure =
     bind_res (b64u_decode disclosure) (\<lambda>text.
     bind_res (jo_loads je text) (\<lambda>v.
     case v of
       PList [_, name, value] \<Rightarrow> (case name of PStr n \<Rightarrow> Inr (n, value) | _ \<Rightarrow> Inl TypeError)
     | PList _ \<Rightarrow> Inl ValueError
     | _ \<Rightarrow> Inl TypeError))"

fun merge_disclosures :: "jose_env \<Rightarrow> pyval list \<Rightarrow> string list \<Rightarrow> pydict \<Rightarrow> pydict res" where
  "merge_disclosures je signed [] claims = Inr claims"
| "merge_disclosures je signed (d # ds) claims =
     (if \<not> list_ex (py_eq (PStr (sd_digest je d))) signed then Inl InvalidSignature
      else bind_res (read_disclosure je d) (\<lambda>(name, value). merge_disclosures je signed ds (dict_set name value claims)))"

definition holder_jwk :: "pydict \<Rightarrow> pyval res" where
  "holder_jwk claims =
     (let cnf = dict_get_or claims ''cnf'' PNone;
          cnf = (if truthy cnf then cnf else PDict [])
      in case cnf of
           PDict m \<Rightarrow> (let k = dict_get_or m ''jwk'' PNone in if truthy k then Inr k else Inl InvalidKeyBinding)
         | _ \<Rightarrow> Inl AttributeError)"

definition presentation :: "string \<Rightarrow> string list \<Rightarrow> string" where
  "presentation issuer_jwt disclosures =
     (issuer_jwt @ (if disclosures \<noteq> [] then ''~'' @ join_str ''~'' disclosures else [])) @ ''~''"

definition kb_mismatch :: "pydict \<Rightarrow> string \<Rightarrow> string option \<Rightarrow> bool" where
  "kb_mismatch kb name wanted = (case wanted of None \<Rightarrow> False | Some w \<Rightarrow> dict_get kb name \<noteq> Some (PStr w))"

definition check_key_binding ::
  "jose_env \<Rightarrow> string option \<Rightarrow> string option \<Rightarrow> string \<Rightarrow> string list \<Rightarrow> string option \<Rightarrow> pydict \<Rightarrow> unit res" where
  "check_key_binding je nonce aud issuer_jwt disclosures kb_jwt claims =
     (case kb_jwt of
        None \<Rightarrow> Inl InvalidKeyBinding
      | Some token \<Rightarrow>
          bind_res (holder_jwk claims) (\<lambda>jwk.
          bind_res (signature_error InvalidKeyBinding (bind_res (jo_jwk je jwk) (verify_compact je token))) (\<lambda>payload.
          bind_res (case payload of PDict kb \<Rightarrow> Inr kb | _ \<Rightarrow> Inl AttributeError) (\<lambda>kb.
          if kb_mismatch kb ''nonce'' nonce \<or> kb_mismatch kb ''aud'' aud
             \<or> dict_get kb ''sd_hash'' \<noteq> Some (PStr (b64u_encode (jo_sha je (presentation issuer_jwt disclosures))))
          then Inl InvalidKeyBinding
          else Inr ()))))"

definition sd_verify ::
  "jose_env \<Rightarrow> int \<Rightarrow> string \<Rightarrow> (string, pydict) dict \<Rightarrow> string option \<Rightarrow> string option \<Rightarrow> bool \<Rightarrow> pydict res" where
  "sd_verify je now sd_jwt keys nonce aud require_key_binding =
     (let (issuer_jwt, disclosures, kb_jwt) = sd_split sd_jwt
      in bind_res (peek_header je issuer_jwt) (\<lambda>header.
         bind_res (key_for keys header) (\<lambda>key.
         bind_res (signature_error InvalidSignature (verify_compact je issuer_jwt key)) (\<lambda>payload.
         bind_res (as_object payload) (\<lambda>claims.
         bind_res (check_exp now claims) (\<lambda>_.
         bind_res (check_nbf now claims) (\<lambda>_.
         bind_res (if disclosures = [] then Inr claims
                   else bind_res (signed_digests claims) (\<lambda>signed. merge_disclosures je signed disclosures claims)) (\<lambda>claims.
         bind_res (if require_key_binding \<or> kb_jwt \<noteq> None
                   then check_key_binding je nonce aud issuer_jwt disclosures kb_jwt claims else Inr ()) (\<lambda>_.
         Inr (dict_pop ''_sd_alg'' (dict_pop ''_sd'' claims)))))))))))"

section \<open>Key store\<close>

record signing_key =
  sk_kid :: string
  sk_key :: pydict
  sk_alg :: string

record key_store =
  ks_issuer :: signing_key
  ks_merchant :: signing_key
  ks_retired :: "signing_key list"

definition public_jwk :: "jose_env \<Rightarrow> pydict \<Rightarrow> string \<Rightarrow> pydict" where
  "public_jwk je key kid = (if kid = [] then jo_public je key else dict_set ''kid'' (PStr kid) (jo_public je key))"

definition advertise :: "jose_env \<Rightarrow> signing_key \<Rightarrow> pydict" where
  "advertise je k = dict_set ''alg'' (PStr (sk_alg k)) (dict_set ''use'' (PStr ''sig'') (public_jwk je (sk_key k) (sk_kid k)))"

definition jwks :: "jose_env \<Rightarrow> key_store \<Rightarrow> pydict list" where
  "jwks je ks = [advertise je (ks_issuer ks), advertise je (ks_merchant ks)] @ map (advertise je) (ks_retired ks)"

definition verification_keys :: "key_store \<Rightarrow> (string, pydict) dict" where
  "verification_keys ks =
     dict_merge (dict_set (sk_kid (ks_merchant ks)) (sk_key (ks_merchant ks)) [(sk_kid (ks_issuer ks), sk_key (ks_issuer ks))])
       (map (\<lambda>k. (sk_kid k, sk_key k)) (ks_retired ks))"

text \<open>The key set as a client of the issuer reads it, \<^verbatim>\<open>{k["kid"]: jwk_from_dict(k)}\<close>.\<close>

fun fetched_keys :: "jose_env \<Rightarrow> pydict list \<Rightarrow> (string, pydict) dict \<Rightarrow> (string, pydict) dict res" where
  "fetched_keys je [] acc = Inr acc"
| "fetched_keys je (k # ks) acc =
     (case dict_get k ''kid'' of
        None \<Rightarrow> Inl KeyError
      | Some (PStr kid) \<Rightarrow> bind_res (jo_jwk je (PDict k)) (\<lambda>key. fetched_keys je ks (dict_set kid key acc))
      | Some _ \<Rightarrow> Inl TypeError)"

text \<open>Entries without a \<^verbatim>\<open>kid\<close> are left out by some clients.\<close>

definition with_kid :: "pydict list \<Rightarrow> pydict list" where
  "with_kid js = filter (\<lambda>k. truthy (dict_get_or k ''kid'' PNone)) js"

text \<open>\<^verbatim>\<open>MandateRegistry.verify\<close>, up to the validation of the claims as a model.\<close>

definition registry_verify :: "jose_env \<Rightarrow> key_store \<Rightarrow> int \<Rightarrow> string \<Rightarrow> string option \<Rightarrow> string option \<Rightarrow> bool \<Rightarrow> pydict res" where
  "registry_verify je ks now sd_jwt nonce aud req = sd_verify je now sd_jwt (verification_keys ks) nonce aud req"

end
