(* ===== verification/Yuno_Rail.thy ===== *)
theory Yuno_Rail
  imports Trust_Jose Trust_Ap2 Triples
begin

text \<open>
  The simulated payment rail (\<^verbatim>\<open>src/src/yuno_sim\<close>): the vault of payment tokens (\<^verbatim>\<open>vault.py\<close>), the check of the mandate and the
  checkout (\<^verbatim>\<open>ap2_verifier.py\<close>), settlement with its idempotency key (\<^verbatim>\<open>payments.py\<close>), disputes (\<^verbatim>\<open>disputes.py\<close>) and the
  endpoints (\<^verbatim>\<open>main.py\<close>). A request is one transaction. A capture reads and verifies, waits for the issuer, and
  settles; other requests may come between, so the two parts are separate operations. The answers of the issuer, the clock and
  fresh identifiers belong to the environment of a request.
\<close>

section \<open>Tables\<close>

record yu_setup =
  ys_mandate :: string
  ys_status :: string
  ys_approve_url :: string
  ys_expires_at :: instant

record yu_token =
  yt_setup :: "string option"
  yt_mandate :: string
  yt_status :: string

record yu_payment =
  yp_token :: string
  yp_mandate_jti :: string
  yp_amount :: dec
  yp_currency :: string
  yp_status :: string
  yp_reason :: "string option"
  yp_checkout_hash :: "string option"
  yp_intent_ref :: string

record receipt =
  rc_purchase_id :: string
  rc_capture_id :: string
  rc_amount :: string
  rc_currency :: string
  rc_captured_at :: string
  rc_mandate_jti :: string

record yu_idem =
  yi_payment_id :: string
  yi_response :: receipt

record yu_dispute =
  yd_payment_id :: string
  yd_reason :: string
  yd_status :: string
  yd_outcome :: "string option"
  yd_evidence :: "pydict option"

record yuno_db =
  yu_setups :: "(string, yu_setup) dict"
  yu_tokens :: "(string, yu_token) dict"
  yu_payments :: "(string, yu_payment) dict"
  yu_idems :: "(string, yu_idem) dict"
  yu_disputes :: "(string, yu_dispute) dict"

section \<open>Environment\<close>

text \<open>
  \<open>re_jwks\<close> is the answer of the issuer to a request for its keys, \<open>re_status\<close> the status in its answer about a mandate (\<open>None\<close> for any
  failure); \<open>re_time\<close> is the clock in seconds, \<open>re_mono\<close> the monotonic one.
\<close>

record rail_env =
  re_jose :: jose_env
  re_jwks :: "pydict list res"
  re_status :: "string \<Rightarrow> string option"
  re_now :: instant
  re_time :: int
  re_mono :: int
  re_cache_seconds :: int
  re_approval_base_url :: string

section \<open>The vault\<close>

definition SETUP_TOKEN_TTL_DAYS :: int where
  "SETUP_TOKEN_TTL_DAYS = 3"

definition create_setup_token :: "rail_env \<Rightarrow> string \<Rightarrow> string \<Rightarrow> (yuno_db, yu_setup) sres" where
  "create_setup_token re setup_token_id mandate_id db =
     (let row = \<lparr>ys_mandate = mandate_id, ys_status = ''pending'', ys_approve_url = re_approval_base_url re @ ''/'' @ setup_token_id,
                 ys_expires_at = re_now re + seconds (SETUP_TOKEN_TTL_DAYS * 86400)\<rparr>
      in if dict_get (yu_setups db) setup_token_id \<noteq> None then (Inl DatabaseError, db)
         else (Inr row, db\<lparr>yu_setups := dict_set setup_token_id row (yu_setups db)\<rparr>))"

definition approve_setup_token :: "string \<Rightarrow> (yuno_db, unit) sres" where
  "approve_setup_token sid db =
     (case dict_get (yu_setups db) sid of
        Some s \<Rightarrow>
          if ys_status s = ''pending'' then (Inr (), db\<lparr>yu_setups := dict_set sid (s\<lparr>ys_status := ''approved''\<rparr>) (yu_setups db)\<rparr>)
          else (Inl VaultError, db)
      | None \<Rightarrow> (Inl VaultError, db))"

definition exchange :: "rail_env \<Rightarrow> string \<Rightarrow> string \<Rightarrow> (yuno_db, yu_token) sres" where
  "exchange re token_id sid db =
     (case dict_get (yu_setups db) sid of
        None \<Rightarrow> (Inl VaultError, db)
      | Some s \<Rightarrow>
          if ys_status s = ''exchanged'' then (Inl VaultError, db)
          else if ys_status s \<noteq> ''approved'' then (Inl VaultError, db)
          else if ys_expires_at s < re_now re then (Inl VaultError, db)
          else if dict_get (yu_tokens db) token_id \<noteq> None then (Inl DatabaseError, db)
          else
            let token = \<lparr>yt_setup = Some sid, yt_mandate = ys_mandate s, yt_status = ''active''\<rparr>
            in (Inr token, db\<lparr>yu_tokens := dict_set token_id token (yu_tokens db),
                             yu_setups := dict_set sid (s\<lparr>ys_status := ''exchanged''\<rparr>) (yu_setups db)\<rparr>))"

definition get_active_token :: "string \<Rightarrow> yuno_db \<Rightarrow> yu_token option" where
  "get_active_token token_id db =
     (case dict_get (yu_tokens db) token_id of Some t \<Rightarrow> if yt_status t = ''active'' then Some t else None | None \<Rightarrow> None)"

definition vault_delete_token :: "string \<Rightarrow> (yuno_db, bool) sres" where
  "vault_delete_token token_id db =
     (case get_active_token token_id db of
        Some t \<Rightarrow> (Inr True, db\<lparr>yu_tokens := dict_set token_id (t\<lparr>yt_status := ''deleted''\<rparr>) (yu_tokens db)\<rparr>)
      | None \<Rightarrow> (Inr False, db))"

definition token_exists :: "string \<Rightarrow> yuno_db \<Rightarrow> bool" where
  "token_exists token_id db \<longleftrightarrow> dict_get (yu_tokens db) token_id \<noteq> None"

section \<open>Verification of the mandate\<close>

record ap2_verification_result =
  vr_ok :: bool
  vr_reason :: "reason_code option"
  vr_mandate_jti :: "pyval"
  vr_checkout_hash :: "string option"

definition vr_refused :: "reason_code \<Rightarrow> ap2_verification_result" where
  "vr_refused r = \<lparr>vr_ok = False, vr_reason = Some r, vr_mandate_jti = PNone, vr_checkout_hash = None\<rparr>"

text \<open>The client of the issuer keeps the keys for a while, and never a status.\<close>

record issuer_client =
  cl_jwks :: "(string, pydict) dict option"
  cl_fetched_at :: int

definition issuer_keys :: "rail_env \<Rightarrow> (issuer_client, (string, pydict) dict) sres" where
  "issuer_keys re c =
     (case cl_jwks c of
        Some ks \<Rightarrow>
          if re_mono re - cl_fetched_at c > re_cache_seconds re
          then (case bind_res (re_jwks re) (\<lambda>js. fetched_keys (re_jose re) js []) of
                  Inl e \<Rightarrow> (Inl e, c) | Inr ks \<Rightarrow> (Inr ks, \<lparr>cl_jwks = Some ks, cl_fetched_at = re_mono re\<rparr>))
          else (Inr ks, c)
      | None \<Rightarrow>
          (case bind_res (re_jwks re) (\<lambda>js. fetched_keys (re_jose re) js []) of
             Inl e \<Rightarrow> (Inl e, c) | Inr ks \<Rightarrow> (Inr ks, \<lparr>cl_jwks = Some ks, cl_fetched_at = re_mono re\<rparr>)))"

definition issuer_mandate_status :: "rail_env \<Rightarrow> pyval \<Rightarrow> mandate_status option" where
  "issuer_mandate_status re jti = (case re_status re (py_str jti) of None \<Rightarrow> None | Some s \<Rightarrow> as_mandate_status (PStr s))"

fun reason_for :: "mandate_status \<Rightarrow> reason_code" where
  "reason_for REVOKED = MANDATE_REVOKED"
| "reason_for SUSPENDED = MANDATE_SUSPENDED"
| "reason_for EXPIRED = MANDATE_EXPIRED"
| "reason_for EXHAUSTED = MANDATE_EXHAUSTED"
| "reason_for _ = MANDATE_SUSPENDED"

definition checkout_hash :: "jose_env \<Rightarrow> string \<Rightarrow> string" where
  "checkout_hash je checkout_jwt = b64u_encode (jo_sha je checkout_jwt)"

definition checkout_payload :: "jose_env \<Rightarrow> (string, pydict) dict \<Rightarrow> string \<Rightarrow> pyval res" where
  "checkout_payload je keys checkout_jwt =
     bind_res (peek_header je checkout_jwt) (\<lambda>header.
     bind_res (case header of PDict h \<Rightarrow> Inr (dict_get_or h ''kid'' PNone) | _ \<Rightarrow> Inl AttributeError) (\<lambda>kid.
     case kid of
       PStr k \<Rightarrow> (case dict_get keys k of None \<Rightarrow> Inl KeyError | Some key \<Rightarrow> verify_compact je checkout_jwt key)
     | _ \<Rightarrow> Inl KeyError))"

definition check_checkout :: "jose_env \<Rightarrow> string option \<Rightarrow> (string, pydict) dict \<Rightarrow> dec \<Rightarrow> string \<Rightarrow> ap2_verification_result res" where
  "check_checkout je checkout_jwt keys amount currency =
     (case or_str checkout_jwt None of
        None \<Rightarrow> Inr \<lparr>vr_ok = True, vr_reason = None, vr_mandate_jti = PNone, vr_checkout_hash = None\<rparr>
      | Some jwt \<Rightarrow>
          (case checkout_payload je keys jwt of
             Inl _ \<Rightarrow> Inr (vr_refused INVALID_SIGNATURE)
           | Inr payload \<Rightarrow>
               bind_res (case payload of PDict m \<Rightarrow> Inr m | _ \<Rightarrow> Inl AttributeError) (\<lambda>checkout.
               if \<not> py_eq (dict_get_or checkout ''total_price'' PNone) (PInt (to_minor_units amount)) then Inr (vr_refused CONDITION_FAILED)
               else if dict_get checkout ''currency'' \<noteq> Some (PStr currency) then Inr (vr_refused CONDITION_FAILED)
               else Inr \<lparr>vr_ok = True, vr_reason = None, vr_mandate_jti = PNone, vr_checkout_hash = Some (checkout_hash je jwt)\<rparr>)))"

text \<open>The refusal for an exception of \<^verbatim>\<open>sdjwt.verify\<close>; other exceptions escape.\<close>

definition sd_refusal :: "exn \<Rightarrow> reason_code option" where
  "sd_refusal e =
     (if e = TokenExpired then Some MANDATE_EXPIRED
      else if e = NotYetValid then Some MANDATE_NOT_YET_VALID
      else if e = InvalidKeyBinding then Some INVALID_PROOF_OF_POSSESSION
      else if e = InvalidSignature then Some INVALID_SIGNATURE
      else None)"

definition ap2_verify :: "rail_env \<Rightarrow> string option \<Rightarrow> string option \<Rightarrow> dec \<Rightarrow> string \<Rightarrow> (issuer_client, ap2_verification_result) sres" where
  "ap2_verify re mandate_sd_jwt checkout_jwt amount currency =
     (case or_str mandate_sd_jwt None of
        None \<Rightarrow> return_s (vr_refused INVALID_SIGNATURE)
      | Some token \<Rightarrow>
          either_s (issuer_keys re) (\<lambda>_. return_s (vr_refused RAIL_ERROR)) (\<lambda>keys.
          case sd_verify (re_jose re) (re_time re) token keys None None False of
            Inl e \<Rightarrow> (case sd_refusal e of Some r \<Rightarrow> return_s (vr_refused r) | None \<Rightarrow> raise_s e)
          | Inr claims \<Rightarrow>
              let jti = dict_get_or claims ''jti'' PNone
              in bind_s (lift_res (check_checkout (re_jose re) checkout_jwt keys amount currency)) (\<lambda>binding.
                 if \<not> vr_ok binding then return_s binding
                 else
                   case issuer_mandate_status re jti of
                     None \<Rightarrow> return_s (vr_refused RAIL_ERROR)
                   | Some status \<Rightarrow>
                       if status \<noteq> ACTIVE then return_s (vr_refused (reason_for status))
                       else return_s \<lparr>vr_ok = True, vr_reason = None, vr_mandate_jti = jti, vr_checkout_hash = vr_checkout_hash binding\<rparr>)))"

section \<open>Settlement\<close>

record settlement =
  se_payment_id :: string
  se_amount :: dec
  se_currency :: string
  se_mandate_jti :: string
  se_captured_at :: dtime
  se_replayed :: bool

definition to_receipt :: "settlement \<Rightarrow> string \<Rightarrow> receipt" where
  "to_receipt s purchase_id =
     \<lparr>rc_purchase_id = purchase_id, rc_capture_id = se_payment_id s, rc_amount = dec_str (se_amount s), rc_currency = se_currency s,
      rc_captured_at = isoformat (dtime_instant (se_captured_at s)), rc_mandate_jti = se_mandate_jti s\<rparr>"

text \<open>Reading a stored receipt back.\<close>

definition replayed :: "receipt \<Rightarrow> settlement res" where
  "replayed stored =
     bind_res (decimal_of (rc_amount stored)) (\<lambda>amount.
     bind_res (fromisoformat (rc_captured_at stored)) (\<lambda>at.
     Inr \<lparr>se_payment_id = rc_capture_id stored, se_amount = amount, se_currency = rc_currency stored,
          se_mandate_jti = rc_mandate_jti stored, se_captured_at = at, se_replayed = True\<rparr>))"

record capture_request =
  cq_token_id :: string
  cq_amount :: dec
  cq_currency :: string
  cq_idempotency_key :: string
  cq_intent_ref :: string
  cq_purchase_id :: string
  cq_mandate_sd_jwt :: "string option"
  cq_checkout_jwt :: "string option"

definition insert_payment :: "string \<Rightarrow> yu_payment \<Rightarrow> (yuno_db, unit) sres" where
  "insert_payment pid row db =
     (if dict_get (yu_payments db) pid \<noteq> None then (Inl DatabaseError, db)
      else (Inr (), db\<lparr>yu_payments := dict_set pid row (yu_payments db)\<rparr>))"

definition record_refusal :: "string \<Rightarrow> capture_request \<Rightarrow> reason_code option \<Rightarrow> string \<Rightarrow> string option \<Rightarrow> (yuno_db, unit) sres" where
  "record_refusal pid rq reason mandate_jti hash =
     insert_payment pid
       \<lparr>yp_token = cq_token_id rq, yp_mandate_jti = mandate_jti, yp_amount = cq_amount rq, yp_currency = cq_currency rq,
        yp_status = ''refused'', yp_reason = map_option reason_str reason, yp_checkout_hash = hash, yp_intent_ref = cq_intent_ref rq\<rparr>"

text \<open>The state of the rail: its tables and the client of the issuer, which no rollback touches.\<close>

record rail_state =
  ra_db :: yuno_db
  ra_client :: issuer_client

definition on_db :: "(yuno_db, 'a) sres \<Rightarrow> (rail_state, 'a) sres" where
  "on_db m s = (case m (ra_db s) of (r, db) \<Rightarrow> (r, s\<lparr>ra_db := db\<rparr>))"

definition on_client :: "(issuer_client, 'a) sres \<Rightarrow> (rail_state, 'a) sres" where
  "on_client m s = (case m (ra_client s) of (r, c) \<Rightarrow> (r, s\<lparr>ra_client := c\<rparr>))"

text \<open>\<^verbatim>\<open>capture\<close> up to settlement: a stored answer, a refusal, or the verdict to settle with.\<close>

datatype checked = Replay settlement | Settle ap2_verification_result

definition capture_check :: "rail_env \<Rightarrow> string \<Rightarrow> capture_request \<Rightarrow> (rail_state, checked) sres" where
  "capture_check re refusal_id rq =
     bind_s (get_s (\<lambda>s. dict_get (yu_idems (ra_db s)) (cq_idempotency_key rq))) (\<lambda>replay.
     case replay of
       Some i \<Rightarrow> lift_res (bind_res (replayed (yi_response i)) (\<lambda>s. Inr (Replay s)))
     | None \<Rightarrow>
         bind_s (get_s (\<lambda>s. get_active_token (cq_token_id rq) (ra_db s))) (\<lambda>token.
         case token of
           None \<Rightarrow>
             bind_s (get_s (\<lambda>s. if token_exists (cq_token_id rq) (ra_db s) then RAIL_TOKEN_DELETED else RAIL_ERROR)) (\<lambda>reason.
             bind_s (on_db (record_refusal refusal_id rq (Some reason) ''unknown'' None)) (\<lambda>_.
             raise_s (PaymentRefused (reason_str reason))))
         | Some _ \<Rightarrow>
             bind_s (on_client (ap2_verify re (cq_mandate_sd_jwt rq) (cq_checkout_jwt rq) (cq_amount rq) (cq_currency rq))) (\<lambda>verdict.
             if \<not> vr_ok verdict
             then bind_s (on_db (record_refusal refusal_id rq (vr_reason verdict) ''unknown'' (vr_checkout_hash verdict))) (\<lambda>_.
                  raise_s (PaymentRefused (case vr_reason verdict of Some r \<Rightarrow> reason_str r | None \<Rightarrow> '''')))
             else return_s (Settle verdict))))"

text \<open>
  The rest of \<^verbatim>\<open>capture\<close>: both rows in one flush; if a row is already there, roll back and answer with what the winner stored.
\<close>

definition capture_settle :: "rail_env \<Rightarrow> string \<Rightarrow> capture_request \<Rightarrow> ap2_verification_result \<Rightarrow> (yuno_db, settlement) sres" where
  "capture_settle re payment_id rq verdict db =
     (case vr_mandate_jti verdict of
        PStr jti \<Rightarrow>
          (let row = \<lparr>yp_token = cq_token_id rq, yp_mandate_jti = jti, yp_amount = cq_amount rq, yp_currency = cq_currency rq,
                      yp_status = ''captured'', yp_reason = None, yp_checkout_hash = vr_checkout_hash verdict, yp_intent_ref = cq_intent_ref rq\<rparr>;
               s = \<lparr>se_payment_id = payment_id, se_amount = cq_amount rq, se_currency = cq_currency rq, se_mandate_jti = jti,
                    se_captured_at = Aware (re_now re), se_replayed = False\<rparr>
           in if dict_get (yu_payments db) payment_id = None \<and> dict_get (yu_idems db) (cq_idempotency_key rq) = None
              then (Inr s, db\<lparr>yu_payments := dict_set payment_id row (yu_payments db),
                              yu_idems := dict_set (cq_idempotency_key rq)
                                \<lparr>yi_payment_id = payment_id, yi_response = to_receipt s (cq_purchase_id rq)\<rparr> (yu_idems db)\<rparr>)
              else
                case dict_get (yu_idems db) (cq_idempotency_key rq) of
                  None \<Rightarrow> (Inl DatabaseError, db)
                | Some winner \<Rightarrow> (replayed (yi_response winner), db))
      | _ \<Rightarrow> (Inl DatabaseError, db))"

definition capture :: "rail_env \<Rightarrow> string \<Rightarrow> capture_request \<Rightarrow> (rail_state, settlement) sres" where
  "capture re pid rq =
     bind_s (capture_check re pid rq) (\<lambda>c.
     case c of Replay s \<Rightarrow> return_s s | Settle verdict \<Rightarrow> on_db (capture_settle re pid rq verdict))"

section \<open>Disputes\<close>

definition open_dispute :: "string \<Rightarrow> string \<Rightarrow> string \<Rightarrow> (yuno_db, yu_dispute) sres" where
  "open_dispute dispute_id payment_id reason db =
     (case dict_get (yu_payments db) payment_id of
        None \<Rightarrow> (Inl DisputeError, db)
      | Some p \<Rightarrow>
          if yp_status p \<noteq> ''captured'' then (Inl DisputeError, db)
          else if dict_get (yu_disputes db) dispute_id \<noteq> None then (Inl DatabaseError, db)
          else
            let row = \<lparr>yd_payment_id = payment_id, yd_reason = reason, yd_status = ''open'', yd_outcome = None, yd_evidence = None\<rparr>
            in (Inr row, db\<lparr>yu_disputes := dict_set dispute_id row (yu_disputes db)\<rparr>))"

definition evidence_findings :: "yu_payment option \<Rightarrow> pydict \<Rightarrow> string list" where
  "evidence_findings payment evidence =
     (let given = (\<lambda>k. truthy (dict_get_or evidence k PNone))
      in (if given ''mandate_sd_jwt'' then [] else [''no signed mandate presented''])
       @ (if given ''intent_jwt'' then [] else [''no signed purchase intent presented''])
       @ (case (case payment of None \<Rightarrow> None | Some p \<Rightarrow> or_str (yp_checkout_hash p) None) of
            Some h \<Rightarrow> if dict_get evidence ''checkout_hash'' \<noteq> Some (PStr h) then [''the cart in evidence is not the cart that was charged''] else []
          | None \<Rightarrow> if given ''checkout_hash'' then [] else [''the merchant never committed to a cart''])
       @ (if given ''escalated'' \<and> \<not> given ''approval_receipt_sig'' then [''escalated purchase with no approval receipt''] else []))"

definition adjudicate :: "string \<Rightarrow> pydict \<Rightarrow> (yuno_db, yu_dispute) sres" where
  "adjudicate dispute_id evidence db =
     (case dict_get (yu_disputes db) dispute_id of
        None \<Rightarrow> (Inl DisputeError, db)
      | Some d \<Rightarrow>
          if yd_status d \<noteq> ''open'' then (Inl DisputeError, db)
          else
            let findings = evidence_findings (dict_get (yu_payments db) (yd_payment_id d)) evidence;
                defensible = (findings = []);
                shown = (if defensible then [''mandate, intent and cart form an unbroken chain''] else findings);
                d' = d\<lparr>yd_status := ''resolved'', yd_outcome := Some (if defensible then ''SELLER_FAVOR'' else ''BUYER_FAVOR''),
                       yd_evidence := Some (dict_set ''findings'' (PList (map PStr shown)) evidence)\<rparr>
            in (Inr d', db\<lparr>yu_disputes := dict_set dispute_id d' (yu_disputes db)\<rparr>))"

definition list_for_payment :: "string \<Rightarrow> yuno_db \<Rightarrow> (string \<times> yu_dispute) list" where
  "list_for_payment payment_id db = filter (\<lambda>(k, d). yd_payment_id d = payment_id) (yu_disputes db)"

section \<open>Endpoints\<close>

text \<open>The transaction of a request: an exception rolls the tables back, not the client.\<close>

definition rail_transaction :: "(rail_state, 'a) sres \<Rightarrow> (rail_state, 'a) sres" where
  "rail_transaction m s = (case m s of (Inl e, s') \<Rightarrow> (Inl e, s'\<lparr>ra_db := ra_db s\<rparr>) | (Inr x, s') \<Rightarrow> (Inr x, s'))"

definition conflict :: "exn \<Rightarrow> ('s, 'a) sres \<Rightarrow> ('s, 'a) sres" where
  "conflict e m = try_s m (\<lambda>x. raise_s (if x = e then HttpError 409 else x))"

definition enroll :: "rail_env \<Rightarrow> string \<Rightarrow> string \<Rightarrow> (yuno_db, yu_setup) sres" where
  "enroll re setup_token_id mandate_id = in_transaction (create_setup_token re setup_token_id mandate_id)"

definition approve :: "string \<Rightarrow> (yuno_db, unit) sres" where
  "approve sid = in_transaction (conflict VaultError (approve_setup_token sid))"

definition confirm :: "rail_env \<Rightarrow> string \<Rightarrow> string \<Rightarrow> (yuno_db, yu_token) sres" where
  "confirm re token_id sid = in_transaction (conflict VaultError (exchange re token_id sid))"

text \<open>\<^verbatim>\<open>delete_token\<close> answers whether the token was deleted before.\<close>

definition yuno_delete_token :: "string \<Rightarrow> (yuno_db, bool) sres" where
  "yuno_delete_token token_id =
     in_transaction
       (bind_s (vault_delete_token token_id) (\<lambda>deleted.
        bind_s (get_s (token_exists token_id)) (\<lambda>known.
        if \<not> deleted \<and> \<not> known then raise_s (HttpError 404) else return_s (\<not> deleted))))"

record capture_body =
  cb_token_id :: string
  cb_amount :: string
  cb_currency :: string
  cb_intent_ref :: string
  cb_purchase_id :: "string option"
  cb_mandate_sd_jwt :: "string option"
  cb_checkout_jwt :: "string option"

definition purchase_ref :: "capture_body \<Rightarrow> string" where
  "purchase_ref b = (case or_str (cb_purchase_id b) None of Some p \<Rightarrow> p | None \<Rightarrow> cb_intent_ref b)"

definition request_of :: "capture_body \<Rightarrow> string \<Rightarrow> capture_request res" where
  "request_of b key =
     (case decimal_of (cb_amount b) of
        Inl e \<Rightarrow> Inl (if e = InvalidOperation then HttpError 422 else e)
      | Inr amount \<Rightarrow>
          Inr \<lparr>cq_token_id = cb_token_id b, cq_amount = amount, cq_currency = cb_currency b, cq_idempotency_key = key,
               cq_intent_ref = cb_intent_ref b, cq_purchase_id = purchase_ref b, cq_mandate_sd_jwt = cb_mandate_sd_jwt b,
               cq_checkout_jwt = cb_checkout_jwt b\<rparr>)"

definition create_payment :: "rail_env \<Rightarrow> string \<Rightarrow> string \<Rightarrow> capture_body \<Rightarrow> (rail_state, receipt) sres" where
  "create_payment re pid key b =
     rail_transaction
       (bind_s (lift_res (request_of b key)) (\<lambda>rq.
        bind_s (capture re pid rq) (\<lambda>s. return_s (to_receipt s (purchase_ref b)))))"

definition create_dispute :: "string \<Rightarrow> string \<Rightarrow> string \<Rightarrow> (yuno_db, yu_dispute) sres" where
  "create_dispute dispute_id payment_id reason = in_transaction (conflict DisputeError (open_dispute dispute_id payment_id reason))"

definition decide_dispute :: "string \<Rightarrow> pydict \<Rightarrow> (yuno_db, yu_dispute) sres" where
  "decide_dispute dispute_id evidence = in_transaction (conflict DisputeError (adjudicate dispute_id evidence))"

end
