(* ===== verification/Merchant_Service.thy ===== *)
theory Merchant_Service
  imports Yuno_Rail
begin

text \<open>
  The merchant service (\<^verbatim>\<open>src/src/merchant\<close>): the catalogue (\<^verbatim>\<open>catalog.py\<close>), signed checkouts (\<^verbatim>\<open>checkout_jwt.py\<close>), the charge in seven steps
  (\<^verbatim>\<open>charge.py\<close>) with its clients of the issuer's keys (\<^verbatim>\<open>kernel_client.py\<close>) and of the rail (\<^verbatim>\<open>rail_client.py\<close>), and the endpoints
  (\<^verbatim>\<open>main.py\<close>). The rail is the one of \<open>Yuno_Rail\<close>; its answer may be lost on the way. The answer of the kernel and the
  validation of the claims by the data model are parameters.
\<close>

section \<open>Tables\<close>

record mc_offer_row =
  of_merchant_id :: string
  of_category :: string
  of_title :: string
  of_amount :: string
  of_currency :: string
  of_origin :: "string option"
  of_destination :: "string option"
  of_depart_date :: "string option"
  of_description :: "string option"
  of_active :: bool

record merchant_order =
  mo_offer_id :: string
  mo_amount :: cents
  mo_currency :: string
  mo_checkout_jwt :: string
  mo_checkout_hash :: string
  mo_status :: string
  mo_purchase_id :: "string option"
  mo_receipt :: "receipt option"

record merchant_db =
  md_offers :: "(string, mc_offer_row) dict"
  md_orders :: "(string, merchant_order) dict"

record merchant_state =
  ms_db :: merchant_db
  ms_client :: issuer_client
  ms_rail :: rail_state

text \<open>What becomes of a request to the rail: it is answered, the answer is lost, or the rail is not reached.\<close>

datatype delivery = Delivered | Lost | Unreachable

text \<open>\<open>me_kernel\<close> is the kernel's answer to a verification: approved, or the reason against it; \<open>me_validate\<close> the data model of the claims.\<close>

record merchant_env =
  me_jose :: jose_env
  me_jwks :: "pydict list res"
  me_mono :: int
  me_time :: int
  me_key :: pydict
  me_kid :: string
  me_merchant_id :: string
  me_merchant_name :: string
  me_merchant_website :: string
  me_validate :: "pydict \<Rightarrow> tl_claims res"
  me_kernel :: "string \<Rightarrow> string \<Rightarrow> string \<Rightarrow> string \<Rightarrow> (decision_value \<times> reason_code option) res"
  me_rail :: rail_env
  me_delivery :: delivery

section \<open>Amounts\<close>

definition fixed_amount :: "string \<Rightarrow> string res" where
  "fixed_amount v =
     (case decimal_of v of
        Inl _ \<Rightarrow> Inl ValueError
      | Inr d \<Rightarrow> if coeff d \<le> 0 \<or> expo d \<noteq> - 2 then Inl ValueError else Inr (cents_str (coeff d)))"

text \<open>A column \<^verbatim>\<open>NUMERIC(12, 2)\<close>.\<close>

definition numeric_12_2 :: "dec \<Rightarrow> cents res" where
  "numeric_12_2 d = (case quantize_half_up d of Inl _ \<Rightarrow> Inl DatabaseError | Inr c \<Rightarrow> if 10 ^ 12 \<le> \<bar>c\<bar> then Inl DatabaseError else Inr c)"

section \<open>The catalogue\<close>

record mc_offer =
  mf_offer_id :: string
  mf_merchant_id :: string
  mf_category :: string
  mf_title :: string
  mf_amount :: string
  mf_currency :: string
  mf_origin :: "string option"
  mf_destination :: "string option"
  mf_date :: "string option"
  mf_description :: "string option"

definition to_offer :: "string \<Rightarrow> mc_offer_row \<Rightarrow> mc_offer" where
  "to_offer k r =
     \<lparr>mf_offer_id = k, mf_merchant_id = of_merchant_id r, mf_category = of_category r, mf_title = of_title r, mf_amount = of_amount r,
      mf_currency = of_currency r, mf_origin = of_origin r, mf_destination = of_destination r, mf_date = of_depart_date r,
      mf_description = of_description r\<rparr>"

definition catalog_get_offer :: "string \<Rightarrow> merchant_db \<Rightarrow> mc_offer option" where
  "catalog_get_offer offer_id db =
     (case dict_get (md_offers db) offer_id of None \<Rightarrow> None | Some r \<Rightarrow> if of_active r then Some (to_offer offer_id r) else None)"

definition update_price :: "string \<Rightarrow> string \<Rightarrow> (merchant_db, mc_offer option) sres" where
  "update_price offer_id amount db =
     (case dict_get (md_offers db) offer_id of
        Some r \<Rightarrow>
          if of_active r
          then (let r' = r\<lparr>of_amount := amount\<rparr> in (Inr (Some (to_offer offer_id r')), db\<lparr>md_offers := dict_set offer_id r' (md_offers db)\<rparr>))
          else (Inr None, db)
      | None \<Rightarrow> (Inr None, db))"

section \<open>Signed checkouts\<close>

definition validate_key :: "pydict \<Rightarrow> pydict res" where
  "validate_key key =
     (if dict_get key ''kty'' \<noteq> Some (PStr ''EC'') \<or> dict_get key ''crv'' \<noteq> Some (PStr ''P-256'') then Inl CheckoutJWTError else Inr key)"

definition checkout_document :: "merchant_env \<Rightarrow> string \<Rightarrow> mc_offer \<Rightarrow> dec \<Rightarrow> pydict" where
  "checkout_document me order_id f amount =
     build_checkout_payload order_id (me_merchant_id me) (me_merchant_name me) (me_merchant_website me)
       [PDict [(''id'', PStr (mf_offer_id f)), (''label'', PStr (mf_title f)), (''amount'', PInt (to_minor_units amount)), (''quantity'', PInt 1)]]
       amount (mf_currency f) ''No physical shipment; e-ticket issued on capture.'' ''Refundable up to 24h before departure.''"

record checkout_quote =
  ct_order_id :: string
  ct_offer :: mc_offer
  ct_checkout_jwt :: string
  ct_checkout_hash :: string

definition quote :: "merchant_env \<Rightarrow> string \<Rightarrow> mc_offer \<Rightarrow> (merchant_db, checkout_quote) sres" where
  "quote me order_id f =
     bind_s (lift_res (decimal_of (mf_amount f))) (\<lambda>amount.
     bind_s (lift_res (validate_key (me_key me))) (\<lambda>key.
     bind_s (lift_res (sign_compact (me_jose me) (checkout_document me order_id f amount) key (Some (me_kid me)) (Some ''JWT''))) (\<lambda>token.
     let digest = checkout_hash (me_jose me) token
     in bind_s (lift_res (numeric_12_2 amount)) (\<lambda>stored.
        bind_s (\<lambda>db. if dict_get (md_orders db) order_id \<noteq> None
                       \<or> (\<exists>o' \<in> set (map snd (md_orders db)). mo_checkout_jwt o' = token \<or> mo_checkout_hash o' = digest)
                     then (Inl DatabaseError, db)
                     else (Inr (), db\<lparr>md_orders := dict_set order_id
                       \<lparr>mo_offer_id = mf_offer_id f, mo_amount = stored, mo_currency = mf_currency f, mo_checkout_jwt = token, mo_checkout_hash = digest,
                        mo_status = ''quoted'', mo_purchase_id = None, mo_receipt = None\<rparr> (md_orders db)\<rparr>)) (\<lambda>_.
        return_s \<lparr>ct_order_id = order_id, ct_offer = f, ct_checkout_jwt = token, ct_checkout_hash = digest\<rparr>)))))"

record verified_checkout =
  vc_order_id :: string
  vc_order :: merchant_order
  vc_payload :: pydict
  vc_checkout_hash :: string

text \<open>The signed payload; any exception but the service's own becomes one of the service.\<close>

definition checkout_signed :: "merchant_env \<Rightarrow> string \<Rightarrow> pyval res" where
  "checkout_signed me jwt =
     (case bind_res (peek_header (me_jose me) jwt) (\<lambda>header.
           bind_res (case header of PDict h \<Rightarrow> Inr (dict_get h ''kid'') | _ \<Rightarrow> Inl AttributeError) (\<lambda>kid.
           if kid \<noteq> Some (PStr (me_kid me)) then Inl CheckoutJWTError
           else bind_res (validate_key (me_key me)) (\<lambda>key. verify_compact (me_jose me) jwt key))) of
        Inl _ \<Rightarrow> Inl CheckoutJWTError | Inr p \<Rightarrow> Inr p)"

definition verify_checkout :: "merchant_env \<Rightarrow> string \<Rightarrow> merchant_db \<Rightarrow> verified_checkout res" where
  "verify_checkout me jwt db =
     bind_res (checkout_signed me jwt) (\<lambda>signed.
     bind_res (case signed of PDict m \<Rightarrow> Inr m | _ \<Rightarrow> Inl AttributeError) (\<lambda>payload.
     case dict_get payload ''order_id'' of
       Some (PStr order_id) \<Rightarrow>
         (case dict_get (md_orders db) order_id of
            None \<Rightarrow> Inl CheckoutJWTError
          | Some ord \<Rightarrow>
              if mo_checkout_jwt ord \<noteq> jwt then Inl CheckoutJWTError
              else if mo_checkout_hash ord \<noteq> checkout_hash (me_jose me) jwt then Inl CheckoutJWTError
              else
                bind_res (case dict_get_or payload ''merchant'' (PDict []) of PDict m \<Rightarrow> Inr m | _ \<Rightarrow> Inl AttributeError) (\<lambda>merchant.
                if dict_get merchant ''id'' \<noteq> Some (PStr (me_merchant_id me)) then Inl CheckoutJWTError
                else if dict_get payload ''currency'' \<noteq> Some (PStr (mo_currency ord)) then Inl CheckoutJWTError
                else if \<not> py_eq (dict_get_or payload ''total_price'' PNone) (PInt (to_minor_units (cents_dec (mo_amount ord)))) then Inl CheckoutJWTError
                else Inr \<lparr>vc_order_id = order_id, vc_order = ord, vc_payload = payload, vc_checkout_hash = checkout_hash (me_jose me) jwt\<rparr>))
     | _ \<Rightarrow> Inl CheckoutJWTError))"

definition mark_captured :: "verified_checkout \<Rightarrow> string \<Rightarrow> receipt \<Rightarrow> (merchant_db, unit) sres" where
  "mark_captured co purchase_id r db =
     (case dict_get (md_orders db) (vc_order_id co) of
        None \<Rightarrow> (Inl DatabaseError, db)
      | Some ord \<Rightarrow>
          if mo_status ord = ''captured'' \<and> mo_purchase_id ord \<noteq> Some purchase_id then (Inl CheckoutJWTError, db)
          else if \<exists>(k, o') \<in> set (md_orders db). k \<noteq> vc_order_id co \<and> mo_purchase_id o' = Some purchase_id then (Inl DatabaseError, db)
          else (Inr (), db\<lparr>md_orders := dict_set (vc_order_id co)
            (ord\<lparr>mo_status := ''captured'', mo_purchase_id := Some purchase_id, mo_receipt := Some r\<rparr>) (md_orders db)\<rparr>))"

section \<open>Clients\<close>

text \<open>The issuer's keys, kept for 300 seconds; entries without a \<^verbatim>\<open>kid\<close> are left out.\<close>

definition client_keys :: "merchant_env \<Rightarrow> (issuer_client, (string, pydict) dict) sres" where
  "client_keys me c =
     (let fetch = (case bind_res (me_jwks me) (\<lambda>js. fetched_keys (me_jose me) (with_kid js) []) of
                     Inl e \<Rightarrow> (Inl KernelClientError, c)
                   | Inr ks \<Rightarrow> (Inr ks, \<lparr>cl_jwks = Some ks, cl_fetched_at = me_mono me\<rparr>))
      in case cl_jwks c of
           None \<Rightarrow> fetch
         | Some ks \<Rightarrow> if me_mono me - cl_fetched_at c > 300 then fetch else (Inr ks, c))"

text \<open>The rail over the network. \<open>RailError\<close> carries the reason of the answer, or the empty text.\<close>

definition rail_client_capture :: "merchant_env \<Rightarrow> string \<Rightarrow> string \<Rightarrow> capture_body \<Rightarrow> (rail_state, receipt) sres" where
  "rail_client_capture me pid key b rs =
     (case me_delivery me of
        Unreachable \<Rightarrow> (Inl (RailError []), rs)
      | Lost \<Rightarrow> (Inl (RailError []), snd (create_payment (me_rail me) pid key b rs))
      | Delivered \<Rightarrow>
          (case create_payment (me_rail me) pid key b rs of
             (Inr r, rs') \<Rightarrow> (Inr r, rs')
           | (Inl e, rs') \<Rightarrow> (Inl (RailError (case e of PaymentRefused reason \<Rightarrow> reason | _ \<Rightarrow> [])), rs')))"

definition rail_reason :: "string \<Rightarrow> reason_code" where
  "rail_reason r = (if r = [] then RAIL_ERROR else case reason_of (PStr r) of Inl _ \<Rightarrow> RAIL_ERROR | Inr c \<Rightarrow> c)"

section \<open>The charge\<close>

record intent =
  pi_mandate_jti :: string
  pi_agent :: string
  pi_merchant_id :: string
  pi_offer_id :: string
  pi_amount :: string
  pi_currency :: string
  pi_nonce :: string
  pi_jti :: string
  pi_iat :: int
  pi_exp :: int
  pi_checkout_hash :: "string option"

definition intent_dump :: "intent \<Rightarrow> pydict" where
  "intent_dump i =
     [(''typ'', PStr ''purchase_intent_v1''), (''mandate_jti'', PStr (pi_mandate_jti i)), (''agent'', PStr (pi_agent i)),
      (''merchant_id'', PStr (pi_merchant_id i)), (''offer_id'', PStr (pi_offer_id i)), (''amount'', PStr (pi_amount i)),
      (''currency'', PStr (pi_currency i)), (''nonce'', PStr (pi_nonce i)), (''jti'', PStr (pi_jti i)), (''iat'', PInt (pi_iat i)),
      (''exp'', PInt (pi_exp i)), (''checkout_hash'', opt_str (pi_checkout_hash i))]"

record charge_request =
  hq_purchase_id :: string
  hq_mandate_id :: string
  hq_mandate_sd_jwt :: string
  hq_intent :: intent
  hq_intent_jwt :: string
  hq_checkout_jwt :: string
  hq_payment_method_ref :: string
  hq_amount :: string
  hq_currency :: string
  hq_idempotency_key :: "string option"

definition charge_refused :: "reason_code \<Rightarrow> exn" where
  "charge_refused r = ChargeRefused (reason_str r)"

definition on_client_m :: "(issuer_client, 'a) sres \<Rightarrow> (merchant_state, 'a) sres" where
  "on_client_m m s = (case m (ms_client s) of (r, c) \<Rightarrow> (r, s\<lparr>ms_client := c\<rparr>))"

definition on_rail_m :: "(rail_state, 'a) sres \<Rightarrow> (merchant_state, 'a) sres" where
  "on_rail_m m s = (case m (ms_rail s) of (r, x) \<Rightarrow> (r, s\<lparr>ms_rail := x\<rparr>))"

definition on_db_m :: "(merchant_db, 'a) sres \<Rightarrow> (merchant_state, 'a) sres" where
  "on_db_m m s = (case m (ms_db s) of (r, x) \<Rightarrow> (r, s\<lparr>ms_db := x\<rparr>))"

definition verify_mandate :: "merchant_env \<Rightarrow> string \<Rightarrow> (merchant_state, tl_claims) sres" where
  "verify_mandate me token =
     try_s
       (bind_s (on_client_m (client_keys me)) (\<lambda>keys.
        lift_res (bind_res (sd_verify (me_jose me) (me_time me) token keys None None False) (me_validate me))))
       (\<lambda>e. raise_s (if e \<in> {KernelClientError, InvalidSignature, TokenExpired, NotYetValid, InvalidKeyBinding} \<or> is_ValueError e
                     then charge_refused INVALID_SIGNATURE else e))"

text \<open>The proof of possession: every failure is the same refusal.\<close>

definition intent_proof :: "merchant_env \<Rightarrow> charge_request \<Rightarrow> tl_claims \<Rightarrow> unit res" where
  "intent_proof me b claims =
     (let i = hq_intent b
      in bind_res (jo_jwk (me_jose me) (cl_cnf claims)) (\<lambda>key.
         bind_res (verify_detached (me_jose me) (hq_intent_jwt b) (intent_dump i) key) (\<lambda>signed.
         if \<not> py_eq signed (PDict (intent_dump i)) then Inl ValueError
         else if pi_exp i - pi_iat i > 120 \<or> pi_exp i < me_time me \<or> pi_iat i > me_time me + 5 then Inl ValueError
         else if pi_mandate_jti i \<noteq> cl_jti claims \<or> pi_agent i \<noteq> cl_agent claims then Inl ValueError
         else if pi_merchant_id i \<noteq> me_merchant_id me \<or> pi_currency i \<noteq> cl_currency claims then Inl ValueError
         else if or_str (cl_payment_method_ref claims) None = None \<or> Some (hq_payment_method_ref b) \<noteq> cl_payment_method_ref claims then Inl ValueError
         else Inr ())))"

definition verify_intent :: "merchant_env \<Rightarrow> charge_request \<Rightarrow> tl_claims \<Rightarrow> unit res" where
  "verify_intent me b claims = (case intent_proof me b claims of Inl _ \<Rightarrow> Inl (charge_refused INVALID_PROOF_OF_POSSESSION) | Inr u \<Rightarrow> Inr u)"

definition verify_price :: "charge_request \<Rightarrow> mc_offer \<Rightarrow> unit res" where
  "verify_price b f =
     (case bind_res (decimal_of (pi_amount (hq_intent b))) (\<lambda>x.
           bind_res (decimal_of (mf_amount f)) (\<lambda>y.
           if \<not> dec_eq x y then Inr False
           else bind_res (decimal_of (hq_amount b)) (\<lambda>z. Inr (dec_eq z y \<and> hq_currency b = mf_currency f)))) of
        Inl _ \<Rightarrow> Inl (charge_refused CONDITION_FAILED)
      | Inr same \<Rightarrow> if same then Inr () else Inl (charge_refused CONDITION_FAILED))"

definition idem_key :: "charge_request \<Rightarrow> string" where
  "idem_key b = (case or_str (hq_idempotency_key b) None of Some k \<Rightarrow> k | None \<Rightarrow> hq_purchase_id b)"

definition rail_body :: "charge_request \<Rightarrow> mc_offer \<Rightarrow> dec \<Rightarrow> capture_body res" where
  "rail_body b f amount =
     bind_res (dec_quantize_cent amount) (\<lambda>c.
     Inr \<lparr>cb_token_id = hq_payment_method_ref b, cb_amount = fmt_cents c, cb_currency = mf_currency f, cb_intent_ref = pi_jti (hq_intent b),
          cb_purchase_id = Some (hq_purchase_id b), cb_mandate_sd_jwt = Some (hq_mandate_sd_jwt b), cb_checkout_jwt = Some (hq_checkout_jwt b)\<rparr>)"

text \<open>The fourth step: the cart is the stored one, bound to the intent, for this offer at this price.\<close>

definition bound_checkout :: "merchant_env \<Rightarrow> charge_request \<Rightarrow> mc_offer \<Rightarrow> dec \<Rightarrow> merchant_db \<Rightarrow> verified_checkout res" where
  "bound_checkout me b f amount db =
     bind_res (case verify_checkout me (hq_checkout_jwt b) db of
                 Inl e \<Rightarrow> Inl (if e = CheckoutJWTError then charge_refused CONDITION_FAILED else e) | Inr co \<Rightarrow> Inr co) (\<lambda>co.
     if (case pi_checkout_hash (hq_intent b) of
           None \<Rightarrow> True
         | Some h \<Rightarrow> \<not> verify_checkout_binding (checkout_hash (me_jose me)) (hq_checkout_jwt b) h) then Inl (charge_refused CONDITION_FAILED)
     else if mo_offer_id (vc_order co) \<noteq> mf_offer_id f then Inl (charge_refused CONDITION_FAILED)
     else if \<not> dec_eq (cents_dec (mo_amount (vc_order co))) amount then Inl (charge_refused CONDITION_FAILED)
     else Inr co)"

text \<open>Steps five to seven: the kernel decides, the rail captures, the receipt is stored with the order.\<close>

definition settle_order :: "merchant_env \<Rightarrow> string \<Rightarrow> charge_request \<Rightarrow> mc_offer \<Rightarrow> dec \<Rightarrow> verified_checkout \<Rightarrow> (merchant_state, receipt) sres" where
  "settle_order me pid b f amount co =
     bind_s (lift_res (case me_kernel me (hq_mandate_id b) (hq_intent_jwt b) (idem_key b) (pi_agent (hq_intent b)) of
                         Inl e \<Rightarrow> Inl (if e = KernelClientError then charge_refused RAIL_ERROR else e)
                       | Inr (d, reason) \<Rightarrow>
                           if d \<noteq> APPROVED then Inl (charge_refused (case reason of Some r \<Rightarrow> r | None \<Rightarrow> RAIL_ERROR)) else Inr ())) (\<lambda>_.
     bind_s (lift_res (rail_body b f amount)) (\<lambda>body.
     bind_s (try_s (on_rail_m (rail_client_capture me pid (idem_key b) body))
               (\<lambda>e. raise_s (case e of RailError r \<Rightarrow> charge_refused (rail_reason r) | _ \<Rightarrow> e))) (\<lambda>r.
     bind_s (try_s (on_db_m (mark_captured co (hq_purchase_id b) r))
               (\<lambda>e. raise_s (if e = CheckoutJWTError then ChargeSettlementError else e))) (\<lambda>_.
     return_s (r\<lparr>rc_purchase_id := hq_purchase_id b\<rparr>)))))"

definition service_charge :: "merchant_env \<Rightarrow> string \<Rightarrow> charge_request \<Rightarrow> (merchant_state, receipt) sres" where
  "service_charge me pid b =
     bind_s (verify_mandate me (hq_mandate_sd_jwt b)) (\<lambda>claims.
     bind_s (lift_res (verify_intent me b claims)) (\<lambda>_.
     bind_s (get_s (\<lambda>s. catalog_get_offer (pi_offer_id (hq_intent b)) (ms_db s))) (\<lambda>found.
     case found of
       None \<Rightarrow> raise_s (charge_refused CONDITION_FAILED)
     | Some f \<Rightarrow>
         bind_s (lift_res (verify_price b f)) (\<lambda>_.
         bind_s (lift_res (decimal_of (mf_amount f))) (\<lambda>amount.
         bind_s (get_s (\<lambda>s. bound_checkout me b f amount (ms_db s))) (\<lambda>checked.
         bind_s (lift_res checked) (\<lambda>co.
         if mo_status (vc_order co) = ''captured''
         then if mo_purchase_id (vc_order co) \<noteq> Some (hq_purchase_id b) then raise_s (charge_refused CONDITION_FAILED)
              else (case mo_receipt (vc_order co) of None \<Rightarrow> raise_s ChargeSettlementError | Some r \<Rightarrow> return_s r)
         else if mo_status (vc_order co) \<noteq> ''quoted'' then raise_s (charge_refused CONDITION_FAILED)
         else settle_order me pid b f amount co)))))))"

section \<open>Endpoints\<close>

text \<open>The transaction of a request covers the tables of the merchant; the rail keeps its own.\<close>

definition merchant_transaction :: "(merchant_state, 'a) sres \<Rightarrow> (merchant_state, 'a) sres" where
  "merchant_transaction m s = (case m s of (Inl e, s') \<Rightarrow> (Inl e, s'\<lparr>ms_db := ms_db s\<rparr>) | (Inr x, s') \<Rightarrow> (Inr x, s'))"

definition set_offer_price :: "string \<Rightarrow> string \<Rightarrow> (merchant_db, mc_offer) sres" where
  "set_offer_price offer_id amount =
     in_transaction
       (bind_s (lift_res (case fixed_amount amount of Inl _ \<Rightarrow> Inl (HttpError 422) | Inr a \<Rightarrow> Inr a)) (\<lambda>a.
        bind_s (update_price offer_id a) (\<lambda>found.
        case found of None \<Rightarrow> raise_s (HttpError 404) | Some f \<Rightarrow> return_s f)))"

definition quote_checkout :: "merchant_env \<Rightarrow> string \<Rightarrow> string \<Rightarrow> (merchant_db, checkout_quote) sres" where
  "quote_checkout me order_id offer_id =
     in_transaction
       (bind_s (get_s (catalog_get_offer offer_id)) (\<lambda>found.
        case found of None \<Rightarrow> raise_s (HttpError 404) | Some f \<Rightarrow> quote me order_id f))"

text \<open>The answer to a charge: a receipt, a refusal with its reason (402), or a charge to be reconciled (500).\<close>

datatype charge_answer = Charged receipt | Refused402 string | Reconcile500

definition charge_endpoint :: "merchant_env \<Rightarrow> string \<Rightarrow> charge_request \<Rightarrow> (merchant_state, charge_answer) sres" where
  "charge_endpoint me pid b =
     merchant_transaction
       (bind_s (lift_res (case fixed_amount (hq_amount b) of Inl _ \<Rightarrow> Inl (HttpError 422) | Inr a \<Rightarrow> Inr a)) (\<lambda>a.
        try_s (bind_s (service_charge me pid (b\<lparr>hq_amount := a\<rparr>)) (\<lambda>r. return_s (Charged r)))
          (\<lambda>e. case e of
                 ChargeRefused reason \<Rightarrow> return_s (Refused402 reason)
               | ChargeSettlementError \<Rightarrow> return_s Reconcile500
               | _ \<Rightarrow> raise_s e)))"

end
