(* ===== verification/Jose_Props.thy ===== *)
theory Jose_Props
  imports Trust_Jose
begin

text \<open>
  Properties of SD-JWT: what a verified token guarantees, that an issued and bound token verifies, and which keys
  can issue one under the key set of the service (\<^verbatim>\<open>src/src/api/services/keys.py\<close>).
\<close>

section \<open>Splitting\<close>

lemma split_on_none: "c \<notin> set a \<Longrightarrow> split_on c a = [a]"
  by (induction a) auto

lemma split_on_app: "c \<notin> set a \<Longrightarrow> split_on c (a @ c # b) = a # split_on c b"
  by (induction a) auto

lemma split_on_join:
  "\<forall>x \<in> set (p # ps). c \<notin> set x \<Longrightarrow> split_on c (p @ concat (map (\<lambda>x. c # x) ps)) = p # ps"
proof (induction ps arbitrary: p)
  case (Cons q qs)
  then show ?case using split_on_app [of c p "q @ concat (map (\<lambda>x. c # x) qs)"] by simp
qed (simp add: split_on_none)

lemma b64_char_plain: "b64_char n \<noteq> CHR ''~''" "b64_char n \<noteq> CHR ''.''"
proof -
  have "code_of (b64_char n) \<noteq> 126" "code_of (b64_char n) \<noteq> 46"
    by (auto simp: b64_char_def split: if_splits)
  then show "b64_char n \<noteq> CHR ''~''" "b64_char n \<noteq> CHR ''.''" by auto
qed

lemma b64u_plain: "CHR ''~'' \<notin> set (b64u_encode s)" "CHR ''.'' \<notin> set (b64u_encode s)"
  by (induction s rule: b64u_encode.induct) (auto simp: b64_char_plain b64_char_plain [symmetric])

lemma b64u_empty [simp]: "b64u_encode s = [] \<longleftrightarrow> s = []"
  by (cases s rule: b64u_encode.cases) auto

text \<open>A token and its disclosures, and the key binding where there is one, are what \<^verbatim>\<open>_split\<close> finds.\<close>

lemma sd_split_parts:
  assumes "CHR ''~'' \<notin> set token" "\<forall>d \<in> set ds. CHR ''~'' \<notin> set d \<and> d \<noteq> []" "CHR ''~'' \<notin> set kb"
  shows "sd_split (join_str ''~'' (token # ds) @ ''~'' @ kb) = (token, ds, if kb = [] then None else Some kb)"
proof -
  have "join_str ''~'' (token # ds) @ ''~'' @ kb = token @ concat (map (\<lambda>x. CHR ''~'' # x) (ds @ [kb]))"
    unfolding join_str_def list.case by (induction ds) auto
  moreover have "split_on (CHR ''~'') (token @ concat (map (\<lambda>x. CHR ''~'' # x) (ds @ [kb]))) = token # ds @ [kb]"
    using assms by (intro split_on_join) auto
  ultimately have parts: "split_on (CHR ''~'') (join_str ''~'' (token # ds) @ ''~'' @ kb) = token # ds @ [kb]" by simp
  have "filter (\<lambda>d. d \<noteq> []) ds = ds" using assms(2) by (simp add: filter_id_conv)
  moreover have "ds \<noteq> [] \<Longrightarrow> last ds \<noteq> []" using assms(2) by simp
  ultimately show ?thesis unfolding sd_split_def parts by (auto simp: Let_def)
qed

section \<open>What a verified token guarantees\<close>

lemma merge_disclosures_claims:
  assumes "merge_disclosures je signed ds claims = Inr claims'"
  shows "\<forall>d \<in> set ds. PStr (sd_digest je d) \<in> set signed"
    "dict_get claims' k = Some v \<Longrightarrow> dict_get claims k = Some v \<or> (\<exists>d \<in> set ds. read_disclosure je d = Inr (k, v))"
  using assms
proof (induction ds arbitrary: claims)
  case (Cons d ds)
  case 1
  with Cons.IH(1) show ?case by (auto simp: bind_res_Inr_iff list_ex_iff split: if_splits)
next
  case (Cons d ds)
  case 2
  then obtain n w where r: "read_disclosure je d = Inr (n, w)" and m: "merge_disclosures je signed ds (dict_set n w claims) = Inr claims'"
    by (auto simp: bind_res_Inr_iff split: if_splits)
  from Cons.IH(2) [OF 2(1) m] r show ?case by (auto split: if_splits)
qed auto

text \<open>The holder's proof over exactly this presentation.\<close>

definition holder_bound :: "jose_env \<Rightarrow> string option \<Rightarrow> string option \<Rightarrow> string \<Rightarrow> string list \<Rightarrow> string \<Rightarrow> pydict \<Rightarrow> bool" where
  "holder_bound je nonce aud issuer_jwt disclosures token claims \<longleftrightarrow>
     (\<exists>jwk key kb. holder_jwk claims = Inr jwk \<and> jo_jwk je jwk = Inr key \<and> verify_compact je token key = Inr (PDict kb) \<and>
        dict_get kb ''sd_hash'' = Some (PStr (b64u_encode (jo_sha je (presentation issuer_jwt disclosures)))) \<and>
        \<not> kb_mismatch kb ''nonce'' nonce \<and> \<not> kb_mismatch kb ''aud'' aud)"

lemma signature_error_Inr: "signature_error e r = Inr v \<longleftrightarrow> r = Inr v"
  by (auto simp: signature_error_def split: sum.splits if_splits)

lemma check_key_binding_bound:
  assumes "check_key_binding je nonce aud issuer_jwt disclosures kb_jwt claims = Inr u"
  obtains token where "kb_jwt = Some token" "holder_bound je nonce aud issuer_jwt disclosures token claims"
  using assms unfolding check_key_binding_def holder_bound_def
  by (fastforce simp: bind_res_Inr_iff signature_error_Inr split: option.splits if_splits pyval.splits)

lemma as_object_Inr: "as_object v = Inr m \<longleftrightarrow> v = PDict m"
  by (simp add: as_object_def split: pyval.splits)

lemma key_for_member: "key_for keys header = Inr key \<Longrightarrow> key \<in> snd ` set keys"
  by (force simp: key_for_def Let_def find_Some_iff dest: map_of_SomeD split: pyval.splits if_splits option.splits)

definition valid_window :: "int \<Rightarrow> pydict \<Rightarrow> bool" where
  "valid_window now claims \<longleftrightarrow> check_exp now claims = Inr () \<and> check_nbf now claims = Inr ()"

text \<open>
  C21: a token that \<^verbatim>\<open>sdjwt.verify\<close> accepts is signed under a key of the key set and inside its window of
  validity; each disclosure has its digest in the signed payload, and every claim returned was signed or disclosed; where
  key binding is required or present, the holder named by the claims signed exactly this presentation, with the
  nonce and audience asked for.
\<close>

theorem verified_token_is_signed:
  assumes "sd_verify je now sd_jwt keys nonce aud req = Inr claims" "sd_split sd_jwt = (issuer_jwt, ds, kb)"
  shows "\<exists>key payload claims0.
    key \<in> snd ` set keys \<and> verify_compact je issuer_jwt key = Inr (PDict payload) \<and> valid_window now payload \<and>
    (ds = [] \<or> (\<exists>signed. signed_digests payload = Inr signed \<and> (PStr \<circ> sd_digest je) ` set ds \<subseteq> set signed)) \<and>
    (\<forall>k v. dict_get claims k \<noteq> Some v \<or> dict_get payload k = Some v \<or> Inr (k, v) \<in> read_disclosure je ` set ds) \<and>
    claims = dict_pop ''_sd_alg'' (dict_pop ''_sd'' claims0) \<and>
    (if req \<or> kb \<noteq> None then \<exists>token. kb = Some token \<and> holder_bound je nonce aud issuer_jwt ds token claims0 else True)"
proof -
  let ?merge = "\<lambda>payload. if ds = [] then Inr payload
    else bind_res (signed_digests payload) (\<lambda>signed. merge_disclosures je signed ds payload)"
  from assms obtain header key payload claims0 where
    1: "key_for keys header = Inr key" "verify_compact je issuer_jwt key = Inr (PDict payload)" "valid_window now payload"
      "?merge payload = Inr claims0" "claims = dict_pop ''_sd_alg'' (dict_pop ''_sd'' claims0)" and
    kb: "(if req \<or> kb \<noteq> None then check_key_binding je nonce aud issuer_jwt ds kb claims0 else Inr ()) = Inr ()"
    unfolding sd_verify_def
    by (auto simp: bind_res_Inr_iff signature_error_Inr as_object_Inr valid_window_def)
  have digests: "ds = [] \<or> (\<exists>signed. signed_digests payload = Inr signed \<and> (PStr \<circ> sd_digest je) ` set ds \<subseteq> set signed)"
    using 1(4) by (auto simp: bind_res_Inr_iff dest!: merge_disclosures_claims(1) split: if_splits)
  have "dict_get payload k = Some v \<or> Inr (k, v) \<in> read_disclosure je ` set ds" if "dict_get claims k = Some v" for k v
  proof -
    have "dict_get claims0 k = Some v" using that 1(5) by (auto split: if_splits)
    with 1(4) show ?thesis by (force simp: bind_res_Inr_iff dest: merge_disclosures_claims(2) split: if_splits)
  qed
  then have origin: "\<forall>k v. dict_get claims k \<noteq> Some v \<or> dict_get payload k = Some v \<or> Inr (k, v) \<in> read_disclosure je ` set ds" by blast
  have "if req \<or> kb \<noteq> None then \<exists>token. kb = Some token \<and> holder_bound je nonce aud issuer_jwt ds token claims0 else True"
    using kb by (auto elim: check_key_binding_bound split: if_splits)
  with 1(2,3,5) key_for_member [OF 1(1)] digests origin show ?thesis by blast
qed

section \<open>An issued token verifies\<close>

text \<open>
  What the libraries document: canonical JSON is not empty and is read back, up to the order of the members of an object; a
  compact token is its encoded header, a dot and the rest, verifies under the public half of its key, and has
  no tilde.
\<close>

definition json_read :: "jose_env \<Rightarrow> bool" where
  "json_read je \<longleftrightarrow> (\<forall>v text. jo_canonical je v = Inr text \<longrightarrow> text \<noteq> [] \<and>
     (case v of PDict m \<Rightarrow> \<exists>m'. jo_loads je text = Inr (PDict m') \<and> (\<forall>k. dict_get m' k = dict_get m k) | _ \<Rightarrow> jo_loads je text = Inr v))"

definition jws_signs :: "jose_env \<Rightarrow> pydict \<Rightarrow> pydict \<Rightarrow> bool" where
  "jws_signs je key pub \<longleftrightarrow> (\<forall>text header token. jo_sign je text key header = Inr token \<longrightarrow>
     jo_deserialize je token pub = Inr text \<and> CHR ''~'' \<notin> set token \<and> token \<noteq> [] \<and>
     (\<exists>h. takeWhile (\<lambda>c. c \<noteq> CHR ''.'') token = b64u_encode h \<and> jo_loads je h = Inr (PDict header)))"

lemma json_read_list: "json_read je \<Longrightarrow> jo_canonical je (PList xs) = Inr t \<Longrightarrow> t \<noteq> [] \<and> jo_loads je t = Inr (PList xs)"
  unfolding json_read_def by fastforce

lemma signed_verifies:
  assumes "json_read je" "jws_signs je key pub" "sign_compact je payload key kid typ = Inr token"
  obtains payload' hdr where "verify_compact je token pub = Inr (PDict payload')" "\<And>k. dict_get payload' k = dict_get payload k"
    "CHR ''~'' \<notin> set token" "token \<noteq> []" "peek_header je token = Inr (PDict hdr)"
    "dict_get hdr ''kid'' = map_option PStr (or_str kid None)" "dict_get hdr ''typ'' = map_option PStr (or_str typ None)"
proof -
  let ?hdr = "\<lambda>alg. [(''alg'', PStr alg)] @ (case or_str kid None of Some k \<Rightarrow> [(''kid'', PStr k)] | None \<Rightarrow> [])
    @ (case or_str typ None of Some t \<Rightarrow> [(''typ'', PStr t)] | None \<Rightarrow> [])"
  from assms(3) obtain alg msg where
    s: "jo_canonical je (PDict payload) = Inr msg" "jo_sign je msg key (?hdr alg) = Inr token"
    by (auto simp: sign_compact_def bind_res_Inr_iff Let_def)
  from assms(1) s(1) obtain payload' where
    p: "jo_loads je msg = Inr (PDict payload')" "\<And>k. dict_get payload' k = dict_get payload k"
    unfolding json_read_def by fastforce
  from assms(2) s(2) obtain h where
    h: "jo_deserialize je token pub = Inr msg" "CHR ''~'' \<notin> set token" "token \<noteq> []"
      "takeWhile (\<lambda>c. c \<noteq> CHR ''.'') token = b64u_encode h" "jo_loads je h = Inr (PDict (?hdr alg))"
    unfolding jws_signs_def by blast
  show ?thesis
  proof (rule that)
    show "verify_compact je token pub = Inr (PDict payload')" using h(1) p(1) by (simp add: verify_compact_def)
    show "peek_header je token = Inr (PDict (?hdr alg))"
      using h(4,5) by (simp add: peek_header_def b64u_decode_def a2b_encode)
    show "dict_get (?hdr alg) ''kid'' = map_option PStr (or_str kid None)" "dict_get (?hdr alg) ''typ'' = map_option PStr (or_str typ None)"
      by (auto split: option.splits)
  qed (use p(2) h(2,3) in auto)
qed

lemma disclosure_read:
  assumes "json_read je" "make_disclosure je random n v = Inr d"
  shows "read_disclosure je (fst d) = Inr (n, v)" "snd d = sd_digest je (fst d)" "CHR ''~'' \<notin> set (fst d)" "fst d \<noteq> []"
proof -
  from assms(2) obtain t where t: "jo_canonical je (PList [PStr (b64u_encode random), PStr n, v]) = Inr t" "d = (b64u_encode t, sd_digest je (b64u_encode t))"
    by (auto simp: make_disclosure_def bind_res_Inr_iff Let_def)
  note r = json_read_list [OF assms(1) t(1)]
  show "read_disclosure je (fst d) = Inr (n, v)"
    using r t(2) by (simp add: read_disclosure_def b64u_decode_def a2b_encode)
  show "snd d = sd_digest je (fst d)" "CHR ''~'' \<notin> set (fst d)" "fst d \<noteq> []"
    using r t(2) by (simp_all add: b64u_plain)
qed

lemma disclosures_read:
  assumes "json_read je" "make_disclosures je randoms selective = Inr ds"
  shows "map (read_disclosure je) (map fst ds) = map Inr selective \<and>
    (\<forall>d \<in> set ds. snd d = sd_digest je (fst d) \<and> CHR ''~'' \<notin> set (fst d) \<and> fst d \<noteq> [])"
  using assms(2)
proof (induction selective arbitrary: randoms ds)
  case (Cons nv sel)
  then obtain random randoms' d ds' where
    c: "make_disclosure je random (fst nv) (snd nv) = Inr d" "make_disclosures je randoms' sel = Inr ds'" "ds = d # ds'"
    by (cases randoms; cases nv) (auto simp: bind_res_Inr_iff)
  from disclosure_read [OF assms(1) c(1)] Cons.IH [OF c(2)] c(3) show ?case by simp
qed simp

lemma merge_disclosures_all:
  "map (read_disclosure je) ds = map Inr selective \<Longrightarrow> (\<forall>d \<in> set ds. PStr (sd_digest je d) \<in> set signed) \<Longrightarrow>
   merge_disclosures je signed ds claims = Inr (dict_merge claims selective)"
proof (induction ds arbitrary: selective claims)
  case (Cons d ds)
  then obtain n v sel where s: "selective = (n, v) # sel" "read_disclosure je d = Inr (n, v)" "map (read_disclosure je) ds = map Inr sel"
    by (cases selective) auto
  have "list_ex (py_eq (PStr (sd_digest je d))) signed" using Cons.prems(2) by (auto simp: list_ex_iff)
  with s Cons.IH [OF s(3)] Cons.prems(2) show ?case by (simp add: dict_merge_def)
qed (simp add: dict_merge_def)

lemma dict_merge_cong: "dict_get d k = dict_get d' k \<Longrightarrow> dict_get (dict_merge d e) k = dict_get (dict_merge d' e) k"
proof (induction e arbitrary: d d')
  case (Cons x e)
  then have "dict_get (case x of (k, v) \<Rightarrow> dict_set k v d) k = dict_get (case x of (k, v) \<Rightarrow> dict_set k v d') k" by (cases x) simp
  from Cons.IH [OF this] show ?case by (cases x) (simp add: dict_merge_def)
qed (simp add: dict_merge_def)

lemma presentation_join: "presentation token ds = join_str ''~'' (token # ds) @ ''~''"
  by (cases ds) (simp_all add: presentation_def join_str_def)

text \<open>What is issued: a token and its disclosures, whose verification gives back the claims.\<close>

lemma issue_parts:
  assumes "json_read je" "jws_signs je key pub" "issue_sd je randoms claims key kid selective = Inr sd_jwt"
    "kid \<noteq> []" "dict_get keys kid = Some pub" "valid_window now claims"
  obtains token ds merged where
    "sd_jwt = presentation token ds" "CHR ''~'' \<notin> set token" "\<forall>d \<in> set ds. CHR ''~'' \<notin> set d \<and> d \<noteq> []"
    "\<And>k. k \<noteq> ''_sd'' \<Longrightarrow> k \<noteq> ''_sd_alg'' \<Longrightarrow> dict_get merged k = dict_get (dict_merge claims selective) k"
    "\<And>sd kb nonce aud req. sd_split sd = (token, ds, kb) \<Longrightarrow> sd_verify je now sd keys nonce aud req =
       bind_res (if req \<or> kb \<noteq> None then check_key_binding je nonce aud token ds kb merged else Inr ()) (\<lambda>_.
       Inr (dict_pop ''_sd_alg'' (dict_pop ''_sd'' merged)))"
proof -
  from assms(3) obtain ds token where
    i: "make_disclosures je randoms selective = Inr ds" "sd_jwt = join_str ''~'' (token # map fst ds) @ ''~''"
      "sign_compact je (if selective = [] then claims
         else dict_set ''_sd_alg'' (PStr ''sha-256'') (dict_set ''_sd'' (PList (map (PStr \<circ> snd) ds)) claims)) key (Some kid) (Some ''sd+jwt'') = Inr token"
      (is "sign_compact je ?payload _ _ _ = _")
    by (auto simp: issue_sd_def bind_res_Inr_iff Let_def)
  obtain payload hdr where
    v: "verify_compact je token pub = Inr (PDict payload)" "\<And>k. dict_get payload k = dict_get ?payload k" "CHR ''~'' \<notin> set token"
      "peek_header je token = Inr (PDict hdr)" "dict_get hdr ''kid'' = map_option PStr (or_str (Some kid) None)"
    by (rule signed_verifies [OF assms(1,2) i(3)]) blast
  note d = disclosures_read [OF assms(1) i(1)]
  define merged where "merged = dict_merge payload selective"
  show ?thesis
  proof (rule that)
    show "sd_jwt = presentation token (map fst ds)" using i(2) by (simp add: presentation_join)
    show "CHR ''~'' \<notin> set token" by (fact v(3))
    show "\<forall>d \<in> set (map fst ds). CHR ''~'' \<notin> set d \<and> d \<noteq> []" using d by auto
    show "dict_get merged k = dict_get (dict_merge claims selective) k" if "k \<noteq> ''_sd''" "k \<noteq> ''_sd_alg''" for k
      unfolding merged_def using that v(2) [of k] by (intro dict_merge_cong) simp
    have window: "check_exp now payload = Inr ()" "check_nbf now payload = Inr ()"
      using assms(6) by (simp_all add: valid_window_def check_exp_def check_nbf_def v(2))
    have key: "key_for keys (PDict hdr) = Inr pub"
      using v(5) assms(4,5) by (simp add: key_for_def dict_get_or_def Let_def or_str_def)
    have none: "ds = [] \<longleftrightarrow> selective = []" using d by (metis list.map_disc_iff)
    have merge: "(if map fst ds = [] then Inr payload
        else bind_res (signed_digests payload) (\<lambda>signed. merge_disclosures je signed (map fst ds) payload)) = Inr merged"
    proof (cases "ds = []")
      case True
      with none show ?thesis by (simp add: merged_def dict_merge_def)
    next
      case False
      with none have "signed_digests payload = Inr (map (PStr \<circ> snd) ds)"
        by (simp add: signed_digests_def dict_get_or_def v(2) list_ex_iff)
      moreover have "merge_disclosures je (map (PStr \<circ> snd) ds) (map fst ds) payload = Inr merged"
        unfolding merged_def using d by (intro merge_disclosures_all) force+
      ultimately show ?thesis using False by simp
    qed
    show "sd_verify je now sd keys nonce aud req =
       bind_res (if req \<or> kb \<noteq> None then check_key_binding je nonce aud token (map fst ds) kb merged else Inr ()) (\<lambda>_.
       Inr (dict_pop ''_sd_alg'' (dict_pop ''_sd'' merged)))" if "sd_split sd = (token, map fst ds, kb)" for sd kb nonce aud req
      using that v(1) merge
      by (simp add: sd_verify_def v(4) key signature_error_def as_object_def window)
  qed
qed

lemma issued_token_verifies:
  assumes "json_read je" "jws_signs je key pub" "issue_sd je randoms claims key kid selective = Inr sd_jwt"
    "kid \<noteq> []" "dict_get keys kid = Some pub" "valid_window now claims"
  shows "\<exists>claims'. sd_verify je now sd_jwt keys nonce aud False = Inr claims' \<and>
    (\<forall>k. k = ''_sd'' \<or> k = ''_sd_alg'' \<or> dict_get claims' k = dict_get (dict_merge claims selective) k)"
proof -
  obtain token ds merged where
    p: "sd_jwt = presentation token ds" "CHR ''~'' \<notin> set token" "\<forall>d \<in> set ds. CHR ''~'' \<notin> set d \<and> d \<noteq> []"
      "\<And>k. k \<noteq> ''_sd'' \<Longrightarrow> k \<noteq> ''_sd_alg'' \<Longrightarrow> dict_get merged k = dict_get (dict_merge claims selective) k"
      "\<And>sd kb nonce aud req. sd_split sd = (token, ds, kb) \<Longrightarrow> sd_verify je now sd keys nonce aud req =
       bind_res (if req \<or> kb \<noteq> None then check_key_binding je nonce aud token ds kb merged else Inr ()) (\<lambda>_.
       Inr (dict_pop ''_sd_alg'' (dict_pop ''_sd'' merged)))"
    by (rule issue_parts [OF assms]) blast
  have "sd_split sd_jwt = (token, ds, None)"
    using sd_split_parts [OF p(2,3), of "[]"] p(1) by (simp add: presentation_join)
  from p(5) [OF this, of nonce aud False] p(4) show ?thesis by simp
qed


section \<open>Who can issue\<close>

lemma dict_get_merge_none: "\<forall>(k', v) \<in> set e. k' \<noteq> k \<Longrightarrow> dict_get (dict_merge d e) k = dict_get d k"
  unfolding dict_merge_def by (induction e arbitrary: d) auto

lemma merchant_key_is_listed:
  "\<forall>k \<in> set (ks_retired ks). sk_kid k \<noteq> sk_kid (ks_merchant ks) \<Longrightarrow>
   dict_get (verification_keys ks) (sk_kid (ks_merchant ks)) = Some (sk_key (ks_merchant ks))"
  unfolding verification_keys_def by (subst dict_get_merge_none) auto


section \<open>A concrete library\<close>

text \<open>
  Canonical texts from a table; a signature is the encoded name of the key. It behaves as documented, so the hypotheses of
  the theorems can hold.
\<close>

definition toy_key :: "string \<Rightarrow> pydict" where
  "toy_key n = [(''kty'', PStr ''OKP''), (''n'', PStr n)]"

definition toy_claims :: pydict where
  "toy_claims = [(''cnf'', PDict [(''jwk'', PDict (toy_key ''h''))]), (''exp'', PInt 9), (''jti'', PStr ''m'')]"

definition toy_digest :: string where
  "toy_digest = ''aA''"

definition toy_table :: "(pyval \<times> string) list" where
  "toy_table =
     [(PDict toy_claims, ''c''),
      (PDict (toy_claims @ [(''_sd'', PList [PStr toy_digest]), (''_sd_alg'', PStr ''sha-256'')]), ''s''),
      (PList [PStr (b64u_encode ''r''), PStr ''email'', PStr ''e''], ''d''),
      (PDict [(''nonce'', PStr ''n''), (''aud'', PStr ''a''), (''iat'', PInt 5), (''sd_hash'', PStr toy_digest)], ''b''),
      (PDict [(''alg'', PStr ''EdDSA''), (''kid'', PStr ''k''), (''typ'', PStr ''sd+jwt'')], ''i''),
      (PDict [(''alg'', PStr ''EdDSA''), (''typ'', PStr ''kb+jwt'')], ''j'')]"

definition toy_signature :: "pydict \<Rightarrow> string" where
  "toy_signature key = (case dict_get key ''n'' of Some (PStr n) \<Rightarrow> b64u_encode n | _ \<Rightarrow> [])"

definition toy_of :: "(pyval \<times> string) list \<Rightarrow> jose_env" where
  "toy_of table = \<lparr>
     jo_sign = (\<lambda>t key h. case map_of table (PDict h) of
        None \<Rightarrow> Inl TypeError | Some ht \<Rightarrow> Inr (b64u_encode ht @ ''.'' @ b64u_encode t @ ''.'' @ toy_signature key)),
     jo_deserialize = (\<lambda>token key. case split_on (CHR ''.'') token of
        [_, p, s] \<Rightarrow> if s = toy_signature key then b64u_decode p else Inl InvalidJWSSignature | _ \<Rightarrow> Inl ValueError),
     jo_jwk = as_object,
     jo_canonical = (\<lambda>v. case map_of table v of None \<Rightarrow> Inl TypeError | Some t \<Rightarrow> Inr t),
     jo_loads = (\<lambda>t. case map_of (map (\<lambda>(v, t). (t, v)) table) t of None \<Rightarrow> Inl ValueError | Some v \<Rightarrow> Inr v),
     jo_public = (\<lambda>k. k), jo_sha = (\<lambda>_. ''h'')\<rparr>"

definition toy :: jose_env where
  "toy = toy_of toy_table"

lemma toy_loads: "map_of toy_table v = Some t \<Longrightarrow> t \<noteq> [] \<and> jo_loads toy t = Inr v"
proof -
  assume "map_of toy_table v = Some t"
  then have "(v, t) \<in> set toy_table" by (rule map_of_SomeD)
  then show ?thesis unfolding toy_table_def toy_def toy_of_def by auto
qed

text \<open>A table of canonical texts that reads back gives libraries that do what they document.\<close>

definition table_reads :: "(pyval \<times> string) list \<Rightarrow> bool" where
  "table_reads table \<longleftrightarrow> (\<forall>v t. map_of table v = Some t \<longrightarrow> t \<noteq> [] \<and> jo_loads (toy_of table) t = Inr v)"

lemma toy_table_reads: "table_reads toy_table"
  using toy_loads unfolding table_reads_def toy_def by blast

lemma table_json:
  assumes "table_reads table"
  shows "json_read (toy_of table)"
  unfolding json_read_def
proof (intro allI impI)
  fix v t
  assume "jo_canonical (toy_of table) v = Inr t"
  then have "map_of table v = Some t" by (simp add: toy_of_def split: option.splits)
  then have "t \<noteq> []" "jo_loads (toy_of table) t = Inr v" using assms unfolding table_reads_def by blast+
  then show "t \<noteq> [] \<and> (case v of PDict m \<Rightarrow> \<exists>m'. jo_loads (toy_of table) t = Inr (PDict m') \<and> (\<forall>k. dict_get m' k = dict_get m k)
      | _ \<Rightarrow> jo_loads (toy_of table) t = Inr v)"
    by (simp split: pyval.splits)
qed

lemma toy_signature_plain: "CHR ''~'' \<notin> set (toy_signature key)" "CHR ''.'' \<notin> set (toy_signature key)"
  by (auto simp: toy_signature_def b64u_plain split: option.splits pyval.splits)

lemma table_signs:
  assumes "table_reads table"
  shows "jws_signs (toy_of table) key key"
  unfolding jws_signs_def
proof (intro allI impI)
  let ?toy = "toy_of table"
  fix t hdr token
  assume "jo_sign ?toy t key hdr = Inr token"
  then obtain ht where ht: "map_of table (PDict hdr) = Some ht" "token = b64u_encode ht @ ''.'' @ b64u_encode t @ ''.'' @ toy_signature key"
    by (auto simp: toy_of_def split: option.splits)
  have "split_on (CHR ''.'') token = [b64u_encode ht, b64u_encode t, toy_signature key]"
    using split_on_join [of "b64u_encode ht" "[b64u_encode t, toy_signature key]" "CHR ''.''"] ht(2)
    by (simp add: b64u_plain toy_signature_plain)
  then have "jo_deserialize ?toy token key = Inr t" by (simp add: toy_of_def b64u_decode_def a2b_encode)
  moreover have "takeWhile (\<lambda>c. c \<noteq> CHR ''.'') token = b64u_encode ht"
    using ht(2) b64u_plain(2) [of ht] by (auto simp: takeWhile_append2 intro!: takeWhile_append2 [THEN trans])
  moreover have "jo_loads ?toy ht = Inr (PDict hdr)" using assms ht(1) unfolding table_reads_def by blast
  ultimately show "jo_deserialize ?toy token key = Inr t \<and> CHR ''~'' \<notin> set token \<and> token \<noteq> [] \<and>
      (\<exists>h. takeWhile (\<lambda>c. c \<noteq> CHR ''.'') token = b64u_encode h \<and> jo_loads ?toy h = Inr (PDict hdr))"
    using ht(2) by (auto simp: b64u_plain toy_signature_plain)
qed

lemmas toy_json = table_json [OF toy_table_reads, folded toy_def]
lemmas toy_signs = table_signs [OF toy_table_reads, folded toy_def]

definition toy_issued :: "string res" where
  "toy_issued = issue_sd toy [''r''] toy_claims (toy_key ''i'') ''k'' [(''email'', PStr ''e'')]"

definition toy_presented :: "string res" where
  "toy_presented = bind_res toy_issued (\<lambda>sd. attach_key_binding toy 5 sd (toy_key ''h'') ''n'' ''a'')"

definition toy_keys :: key_store where
  "toy_keys = \<lparr>ks_issuer = \<lparr>sk_kid = ''i1'', sk_key = toy_key ''i'', sk_alg = ''EdDSA''\<rparr>,
     ks_merchant = \<lparr>sk_kid = ''k'', sk_key = toy_key ''m'', sk_alg = ''ES256''\<rparr>, ks_retired = []\<rparr>"

lemma toy_claims_facts: "valid_window 5 toy_claims" "holder_jwk (dict_merge toy_claims [(''email'', PStr ''e'')]) = Inr (PDict (toy_key ''h''))"
  by code_simp+

lemma toy_runs: "\<not> isl toy_issued" "\<not> isl toy_presented"
  by code_simp+

lemma toy_forgery: "\<not> isl (issue_sd toy [] toy_claims (toy_key ''m'') ''k'' [])"
  by code_simp


theorem verified_token_is_signed_witness:
  "\<exists>presented claims key payload. toy_presented = Inr presented \<and>
     sd_verify toy 5 presented [(''k'', toy_key ''i'')] (Some ''n'') (Some ''a'') True = Inr claims \<and>
     key = toy_key ''i'' \<and> verify_compact toy (fst (sd_split presented)) key = Inr (PDict payload) \<and> valid_window 5 payload"
proof -
  have run: "\<not> isl (bind_res toy_presented (\<lambda>p. sd_verify toy 5 p [(''k'', toy_key ''i'')] (Some ''n'') (Some ''a'') True))" by code_simp
  obtain claims where "bind_res toy_presented (\<lambda>p. sd_verify toy 5 p [(''k'', toy_key ''i'')] (Some ''n'') (Some ''a'') True) = Inr claims"
    using run unfolding isl_def by (meson sum.exhaust)
  then obtain p where p: "toy_presented = Inr p" "sd_verify toy 5 p [(''k'', toy_key ''i'')] (Some ''n'') (Some ''a'') True = Inr claims"
    unfolding bind_res_Inr_iff by blast
  obtain i d k where s: "sd_split p = (i, d, k)" by (cases "sd_split p")
  from verified_token_is_signed [OF p(2) s] p s show ?thesis by auto
qed


end
