(* ===== verification/Yuno_Props.thy ===== *)
theory Yuno_Props
  imports Yuno_Rail Jose_Props
begin

text \<open>
  Properties of the rail under interleaved requests: captured payments and idempotency keys correspond one to one, a
  settled key replays, a capture is backed by the mandate and the checkout, and what the code does not check.
\<close>

section \<open>Reading a receipt back\<close>

lemma replay_of_settlement:
  assumes "se_amount s = cents_dec c" "0 \<le> c" "se_captured_at s = Aware t" "in_range t"
  shows "replayed (to_receipt s p) = Inr (s\<lparr>se_replayed := True\<rparr>)"
  using assms parse_cents_str [of c] fromisoformat_isoformat [of t]
  by (simp add: replayed_def to_receipt_def decimal_of_def dec_str_cents dtime_instant_def)

section \<open>Interleaved requests\<close>

text \<open>The rail with the captures that have passed verification and not yet settled.\<close>

type_synonym rail_world = "rail_state \<times> (capture_request \<times> ap2_verification_result) list"

text \<open>An operation of the vault or of a dispute, with any environment and arguments.\<close>

inductive table_step :: "yuno_db \<Rightarrow> yuno_db \<Rightarrow> bool" where
  enroll: "enroll re sid m db = (r, db') \<Longrightarrow> table_step db db'"
| approve: "approve sid db = (r, db') \<Longrightarrow> table_step db db'"
| confirm: "confirm re tid sid db = (r, db') \<Longrightarrow> table_step db db'"
| delete: "yuno_delete_token tid db = (r, db') \<Longrightarrow> table_step db db'"
| dispute: "create_dispute did pid reason db = (r, db') \<Longrightarrow> table_step db db'"
| decide: "decide_dispute did evidence db = (r, db') \<Longrightarrow> table_step db db'"

inductive rail_step :: "rail_world \<Rightarrow> rail_world \<Rightarrow> bool" where
  verified: "capture_check re rid rq s = (Inr (Settle v), s') \<Longrightarrow> rail_step (s, cs) (s', cs @ [(rq, v)])"
| answered: "rail_transaction (capture_check re rid rq) s = (Inr (Replay x), s') \<Longrightarrow> rail_step (s, cs) (s', cs)"
| refused: "rail_transaction (capture_check re rid rq) s = (Inl e, s') \<Longrightarrow> rail_step (s, cs) (s', cs)"
| settled: "(rq, v) \<in> set cs \<Longrightarrow> in_transaction (capture_settle re pid rq v) (ra_db s) = (r, db') \<Longrightarrow>
    rail_step (s, cs) (s\<lparr>ra_db := db'\<rparr>, remove1 (rq, v) cs)"
| abandoned: "rail_step (s, cs) (s, remove1 c cs)"
| table: "table_step (ra_db s) db' \<Longrightarrow> rail_step (s, cs) (s\<lparr>ra_db := db'\<rparr>, cs)"

abbreviation books :: "yuno_db \<Rightarrow> (string, yu_payment) dict \<times> (string, yu_idem) dict" where
  "books db \<equiv> (yu_payments db, yu_idems db)"

lemma table_step_books: "table_step db db' \<Longrightarrow> books db' = books db"
  by (induction rule: table_step.induct)
    (auto simp: enroll_def approve_def confirm_def yuno_delete_token_def create_dispute_def decide_dispute_def in_transaction_def conflict_def
      create_setup_token_def approve_setup_token_def exchange_def vault_delete_token_def open_dispute_def adjudicate_def
      try_s_def bind_s_def sres_defs Let_def split: prod.splits sum.splits if_splits option.splits)

lemma capture_check_returns:
  assumes "capture_check re rid rq s = (Inr c, s')"
  shows "ra_db s' = ra_db s"
  using assms unfolding capture_check_def
  by (auto simp: returns on_client_def split: option.splits if_splits prod.splits)

lemma rail_step_books:
  assumes "rail_step w w'"
  obtains "books (ra_db (fst w')) = books (ra_db (fst w))"
  | re pid rq v x where "capture_settle re pid rq v (ra_db (fst w)) = (Inr x, ra_db (fst w'))" "(rq, v) \<in> set (snd w)"
  using assms
proof cases
  case (verified re rid rq s v s' cs)
  then show ?thesis using that(1) capture_check_returns by simp
next
  case (answered re rid rq s x s' cs)
  then have "capture_check re rid rq s = (Inr (Replay x), s')"
    by (auto simp: rail_transaction_def split: prod.splits sum.splits)
  with answered show ?thesis using that(1) capture_check_returns by simp
next
  case (refused re rid rq s e s' cs)
  then show ?thesis using that(1) by (auto simp: rail_transaction_def split: prod.splits sum.splits)
next
  case (settled rq v cs re pid s r db')
  then show ?thesis using that by (cases r) auto
next
  case (abandoned s cs c)
  then show ?thesis using that(1) by simp
next
  case (table s db' cs)
  then show ?thesis using that(1) table_step_books by simp
qed

section \<open>The books\<close>

text \<open>Every row of the payments is a capture, and each belongs to exactly one idempotency key.\<close>

definition books_ok :: "yuno_db \<Rightarrow> bool" where
  "books_ok db \<longleftrightarrow>
     (\<forall>pid p. dict_get (yu_payments db) pid = Some p \<longrightarrow> yp_status p = ''captured'') \<and>
     (\<forall>k i. dict_get (yu_idems db) k = Some i \<longrightarrow> rc_capture_id (yi_response i) = yi_payment_id i) \<and>
     bij_betw (\<lambda>k. yi_payment_id (the (dict_get (yu_idems db) k))) (dom (dict_get (yu_idems db))) (dom (dict_get (yu_payments db)))"

lemma books_ok_cong: "books db' = books db \<Longrightarrow> books_ok db' = books_ok db"
  by (simp add: books_ok_def)

text \<open>What a settlement that returns does: a new row under a new key, or nothing.\<close>

lemma settle_returns:
  assumes "capture_settle re pid rq v db = (Inr s, db')"
  obtains i where "db' = db" "dict_get (yu_idems db) (cq_idempotency_key rq) = Some i" "se_replayed s" "replayed (yi_response i) = Inr s"
  | p i where "dict_get (yu_payments db) pid = None" "dict_get (yu_idems db) (cq_idempotency_key rq) = None"
      "db' = db\<lparr>yu_payments := dict_set pid p (yu_payments db), yu_idems := dict_set (cq_idempotency_key rq) i (yu_idems db)\<rparr>"
      "yp_status p = ''captured''" "yp_amount p = cq_amount rq" "yp_token p = cq_token_id rq" "PStr (yp_mandate_jti p) = vr_mandate_jti v"
      "yi_payment_id i = pid" "yi_response i = to_receipt s (cq_purchase_id rq)" "se_payment_id s = pid" "\<not> se_replayed s"
      "se_amount s = cq_amount rq" "se_captured_at s = Aware (re_now re)" "PStr (se_mandate_jti s) = vr_mandate_jti v"
  using assms unfolding capture_settle_def Let_def
  by (auto simp: replayed_def bind_res_Inr_iff split: pyval.splits if_splits option.splits)

lemma books_ok_settle:
  assumes "books_ok db" "capture_settle re pid rq v db = (Inr s, db')"
  shows "books_ok db'"
  using assms(2)
proof (cases rule: settle_returns)
  case 1
  with assms(1) show ?thesis by simp
next
  case (2 p i)
  let ?k = "cq_idempotency_key rq"
  let ?f = "\<lambda>k. yi_payment_id (the (dict_get (yu_idems db) k))" and ?f' = "\<lambda>k. yi_payment_id (the (dict_get (yu_idems db') k))"
  have f: "?f' k = ?f k" if "k \<in> dom (dict_get (yu_idems db))" for k using that 2(2,3) by auto
  have "bij_betw ?f (dom (dict_get (yu_idems db))) (dom (dict_get (yu_payments db)))" using assms(1) by (simp add: books_ok_def)
  then have "bij_betw ?f' (dom (dict_get (yu_idems db))) (dom (dict_get (yu_payments db)))"
    using bij_betw_cong [of "dom (dict_get (yu_idems db))" ?f' ?f] f by blast
  moreover have "?f' ?k = pid" using 2(3,8) by simp
  moreover have "?k \<notin> dom (dict_get (yu_idems db))" "pid \<notin> dom (dict_get (yu_payments db))" using 2(1,2) by auto
  ultimately have "bij_betw ?f' (insert ?k (dom (dict_get (yu_idems db)))) (insert pid (dom (dict_get (yu_payments db))))"
    using notIn_Un_bij_betw [of ?k "dom (dict_get (yu_idems db))" ?f' "dom (dict_get (yu_payments db))"] by simp
  moreover have "dom (dict_get (yu_idems db')) = insert ?k (dom (dict_get (yu_idems db)))"
    "dom (dict_get (yu_payments db')) = insert pid (dom (dict_get (yu_payments db)))"
    using 2(3) by (auto split: if_splits)
  moreover have "yp_status q = ''captured''" if "dict_get (yu_payments db') j = Some q" for j q
    using that assms(1) 2(3,4) by (auto simp: books_ok_def split: if_splits)
  moreover have "rc_capture_id (yi_response j) = yi_payment_id j" if "dict_get (yu_idems db') k = Some j" for j k
    using that assms(1) 2(3,8,9,10) by (auto simp: books_ok_def to_receipt_def split: if_splits)
  ultimately show ?thesis unfolding books_ok_def by simp
qed

lemma books_ok_step: "rail_step w w' \<Longrightarrow> books_ok (ra_db (fst w)) \<Longrightarrow> books_ok (ra_db (fst w'))"
  by (erule rail_step_books) (blast intro: books_ok_cong [THEN iffD2] books_ok_settle)+

definition rail_start :: "rail_world" where
  "rail_start =
     (\<lparr>ra_db = \<lparr>yu_setups = [], yu_tokens = [], yu_payments = [], yu_idems = [], yu_disputes = []\<rparr>,
       ra_client = \<lparr>cl_jwks = None, cl_fetched_at = 0\<rparr>\<rparr>, [])"

abbreviation rail_reach :: "rail_world \<Rightarrow> bool" where
  "rail_reach w \<equiv> rail_step\<^sup>*\<^sup>* rail_start w"

lemma reach_books_ok: "rail_reach w \<Longrightarrow> books_ok (ra_db (fst w))"
proof (induction rule: rtranclp_induct)
  case base
  show ?case by (simp add: books_ok_def rail_start_def bij_betw_def)
qed (rule books_ok_step)

text \<open>A key that is settled stays settled with the same answer.\<close>

lemma idem_persists:
  assumes "rail_step\<^sup>*\<^sup>* w w'" "dict_get (yu_idems (ra_db (fst w))) k = Some i"
  shows "dict_get (yu_idems (ra_db (fst w'))) k = Some i"
  using assms(1)
proof (induction rule: rtranclp_induct)
  case (step y z)
  from step(2) show ?case
  proof (cases rule: rail_step_books)
    case 1
    with step.IH show ?thesis by simp
  next
    case (2 re pid rq v x)
    from 2(1) step.IH show ?thesis by (cases rule: settle_returns) auto
  qed
qed (rule assms(2))

section \<open>Properties\<close>

text \<open>
  C24: in every state that interleaved requests can reach, the captured payments and the idempotency keys correspond one to
  one, so that no two captures ever share a key; and no refusal is ever found among the payments, since the transaction
  that writes it is rolled back.
\<close>

theorem captures_match_idempotency_keys:
  assumes "rail_reach (s, cs)"
  shows "bij_betw (\<lambda>k. yi_payment_id (the (dict_get (yu_idems (ra_db s)) k))) (dom (dict_get (yu_idems (ra_db s))))
      (dom (dict_get (yu_payments (ra_db s)))) \<and>
    (\<forall>pid p. dict_get (yu_payments (ra_db s)) pid \<noteq> Some p \<or> yp_status p = ''captured'')"
  using reach_books_ok [OF assms] by (auto simp: books_ok_def)

text \<open>
  once a charge has settled, every later request with its idempotency key, whatever it asks for and whatever came
  between, gets the same settlement back and changes nothing; so does a request that had passed its own check before.
\<close>

theorem settled_charge_is_replayed:
  assumes "capture_settle re pid rq v db = (Inr s, db1)" "\<not> se_replayed s"
    and "cq_amount rq = cents_dec c" "0 \<le> c" "in_range (re_now re)"
    and "rail_step\<^sup>*\<^sup>* (st\<lparr>ra_db := db1\<rparr>, cs) (st', cs')"
    and "cq_idempotency_key rq' = cq_idempotency_key rq" "vr_mandate_jti v' = PStr jti"
  shows "capture re' pid' rq' st' = (Inr (s\<lparr>se_replayed := True\<rparr>), st') \<and>
    capture_settle re' pid' rq' v' (ra_db st') = (Inr (s\<lparr>se_replayed := True\<rparr>), ra_db st')"
  using assms(1)
proof (cases rule: settle_returns)
  case 1
  with assms(2) show ?thesis by simp
next
  case (2 p i)
  let ?k = "cq_idempotency_key rq"
  have "dict_get (yu_idems (ra_db (fst (st\<lparr>ra_db := db1\<rparr>, cs)))) ?k = Some i" using 2(3) by simp
  from idem_persists [OF assms(6) this] have i: "dict_get (yu_idems (ra_db st')) ?k = Some i" by simp
  have r: "replayed (yi_response i) = Inr (s\<lparr>se_replayed := True\<rparr>)"
    unfolding 2(9) by (rule replay_of_settlement) (use assms(3-5) 2 in simp_all)
  have "capture re' pid' rq' st' = (Inr (s\<lparr>se_replayed := True\<rparr>), st')"
    unfolding capture_def capture_check_def by (simp add: assms(7) i r bind_s_def sres_defs)
  moreover have "capture_settle re' pid' rq' v' (ra_db st') = (Inr (s\<lparr>se_replayed := True\<rparr>), ra_db st')"
    unfolding capture_settle_def by (simp add: assms(7,8) i r Let_def)
  ultimately show ?thesis ..
qed

text \<open>The check of a checkout that is present.\<close>

definition checkout_agrees :: "jose_env \<Rightarrow> (string, pydict) dict \<Rightarrow> string \<Rightarrow> dec \<Rightarrow> string \<Rightarrow> bool" where
  "checkout_agrees je keys jwt amount currency \<longleftrightarrow>
     (\<exists>m. checkout_payload je keys jwt = Inr (PDict m) \<and> py_eq (dict_get_or m ''total_price'' PNone) (PInt (to_minor_units amount)) \<and>
          dict_get m ''currency'' = Some (PStr currency))"

lemma check_checkout_ok:
  assumes "check_checkout je co keys amount currency = Inr b" "vr_ok b"
  shows "case or_str co None of None \<Rightarrow> vr_checkout_hash b = None
    | Some jwt \<Rightarrow> vr_checkout_hash b = Some (checkout_hash je jwt) \<and> checkout_agrees je keys jwt amount currency"
  using assms unfolding check_checkout_def
  by (auto simp: vr_refused_def checkout_agrees_def split: option.splits sum.splits pyval.splits if_splits)

lemma ap2_verify_ok:
  assumes "ap2_verify re mandate co amount currency c = (Inr v, c')" "vr_ok v"
  obtains token keys claims where
    "or_str mandate None = Some token" "issuer_keys re c = (Inr keys, c')"
    "sd_verify (re_jose re) (re_time re) token keys None None False = Inr claims" "vr_mandate_jti v = dict_get_or claims ''jti'' PNone"
    "issuer_mandate_status re (vr_mandate_jti v) = Some ACTIVE"
    "case or_str co None of None \<Rightarrow> vr_checkout_hash v = None
     | Some jwt \<Rightarrow> vr_checkout_hash v = Some (checkout_hash (re_jose re) jwt) \<and> checkout_agrees (re_jose re) keys jwt amount currency"
proof -
  from assms obtain token keys claims b where
    1: "or_str mandate None = Some token" "issuer_keys re c = (Inr keys, c')"
      "sd_verify (re_jose re) (re_time re) token keys None None False = Inr claims" "vr_mandate_jti v = dict_get_or claims ''jti'' PNone"
      "issuer_mandate_status re (vr_mandate_jti v) = Some ACTIVE" and
    b: "check_checkout (re_jose re) co keys amount currency = Inr b" "vr_ok b" "vr_checkout_hash v = vr_checkout_hash b"
    unfolding ap2_verify_def Let_def
    by (auto simp: either_s_def returns vr_refused_def split: option.splits sum.splits prod.splits if_splits)
  from check_checkout_ok [OF b(1,2)] b(3) show ?thesis by (intro that [OF 1]) (simp split: option.splits)
qed

lemma capture_check_settles:
  assumes "capture_check re rid rq s = (Inr (Settle v), s')"
  obtains t where "get_active_token (cq_token_id rq) (ra_db s) = Some t" "vr_ok v"
    "ap2_verify re (cq_mandate_sd_jwt rq) (cq_checkout_jwt rq) (cq_amount rq) (cq_currency rq) (ra_client s) = (Inr v, ra_client s')"
  using assms unfolding capture_check_def
  by (auto simp: returns bind_res_Inr_iff on_client_def split: option.splits if_splits prod.splits)


text \<open>The vault with the mandates of its tokens replaced.\<close>

definition retag :: "(string \<Rightarrow> string) \<Rightarrow> yuno_db \<Rightarrow> yuno_db" where
  "retag f db = db\<lparr>yu_tokens := map (\<lambda>(k, t). (k, t\<lparr>yt_mandate := f k\<rparr>)) (yu_tokens db)\<rparr>"

definition retag_state :: "(string \<Rightarrow> string) \<Rightarrow> rail_state \<Rightarrow> rail_state" where
  "retag_state f s = s\<lparr>ra_db := retag f (ra_db s)\<rparr>"

lemma retag_token: "dict_get (yu_tokens (retag f db)) k = map_option (\<lambda>t. t\<lparr>yt_mandate := f k\<rparr>) (dict_get (yu_tokens db) k)"
proof -
  have "dict_get (map (\<lambda>(k, t). (k, t\<lparr>yt_mandate := f k\<rparr>)) ts) k = map_option (\<lambda>t. t\<lparr>yt_mandate := f k\<rparr>) (dict_get ts k)" for ts
    by (induction ts) auto
  then show ?thesis by (simp add: retag_def)
qed

definition blind :: "(string \<Rightarrow> string) \<Rightarrow> (rail_state, 'a) sres \<Rightarrow> bool" where
  "blind f m \<longleftrightarrow> (\<forall>st. m (retag_state f st) = map_prod id (retag_state f) (m st))"

lemma blind_simple: "blind f (return_s x)" "blind f (raise_s e)" "blind f (lift_res r)"
  by (simp_all add: blind_def sres_defs)

lemma blind_bind: "blind f m \<Longrightarrow> (\<And>x. blind f (g x)) \<Longrightarrow> blind f (bind_s m g)"
  by (auto simp: blind_def bind_s_def map_prod_def split: prod.splits sum.splits)

lemma blind_get: "(\<And>st. g (retag_state f st) = g st) \<Longrightarrow> blind f (get_s g)"
  by (simp add: blind_def get_s_def)

lemma blind_get_bind: "(\<And>st. m (g (retag_state f st)) = m (g st)) \<Longrightarrow> (\<And>x. blind f (m x)) \<Longrightarrow> blind f (bind_s (get_s g) m)"
  by (simp add: blind_def bind_s_def get_s_def)

lemma blind_on_client: "blind f (on_client m)"
  by (simp add: blind_def on_client_def retag_state_def split: prod.splits)

lemma blind_on_db:
  "(\<And>db. m (retag f db) = map_prod id (retag f) (m db)) \<Longrightarrow> blind f (on_db m)"
  by (simp add: blind_def on_db_def retag_state_def map_prod_def split: prod.splits)

lemma retag_fields [simp]: "yu_payments (retag f db) = yu_payments db" "yu_idems (retag f db) = yu_idems db"
  by (simp_all add: retag_def)

lemma retag_upd [simp]:
  "(retag f db)\<lparr>yu_payments := p\<rparr> = retag f (db\<lparr>yu_payments := p\<rparr>)" "(retag f db)\<lparr>yu_idems := q\<rparr> = retag f (db\<lparr>yu_idems := q\<rparr>)"
  by (simp_all add: retag_def)

lemma blind_refusal: "blind f (on_db (record_refusal rid rq reason jti h))"
  by (rule blind_on_db) (simp add: record_refusal_def insert_payment_def)

lemma blind_settle: "blind f (on_db (capture_settle re pid rq v))"
  by (rule blind_on_db) (simp add: capture_settle_def Let_def split: pyval.splits option.splits)

lemma retag_active: "get_active_token k (retag f db) = map_option (\<lambda>t. t\<lparr>yt_mandate := f k\<rparr>) (get_active_token k db)"
  by (simp add: get_active_token_def retag_token split: option.splits)

lemma blind_check: "blind f (capture_check re rid rq)"
proof -
  have branch: "blind f (bind_s (get_s (\<lambda>s. get_active_token k (ra_db s))) (\<lambda>token. case token of None \<Rightarrow> a | Some _ \<Rightarrow> b))"
    if "blind f a" "blind f b" for a b :: "(rail_state, checked) sres" and k
    by (rule blind_get_bind) (use that in \<open>auto simp: retag_state_def retag_active split: option.splits\<close>)
  have reason: "blind f (get_s (\<lambda>s. if token_exists k (ra_db s) then RAIL_TOKEN_DELETED else RAIL_ERROR))" for k
    by (rule blind_get) (simp add: retag_state_def token_exists_def retag_token)
  have cases: "blind f (case x of Some i \<Rightarrow> lift_res (g i) | None \<Rightarrow> m)" if "blind f m"
    for x :: "yu_idem option" and m :: "(rail_state, checked) sres" and g
    using that by (cases x) (simp_all add: blind_simple)
  show ?thesis
    unfolding capture_check_def
    by (rule blind_get_bind, simp add: retag_state_def)
      (intro cases branch blind_bind reason blind_refusal blind_on_client blind_simple, simp add: blind_simple blind_bind blind_refusal)
qed

text \<open>
  The rail never compares the mandate of a payment token with the mandate that pays: replacing the mandates of all tokens
  in the vault by any others changes neither the answer to a capture nor what it stores, so a valid mandate can be charged
  to the instrument of anyone else.
\<close>

theorem capture_ignores_mandate_of_token:
  "capture re pid rq (retag_state f st) = map_prod id (retag_state f) (capture re pid rq st)"
proof -
  have "blind f (case c of Replay s \<Rightarrow> return_s s | Settle verdict \<Rightarrow> on_db (capture_settle re pid rq verdict))" for c
    by (cases c) (simp_all add: blind_simple blind_settle)
  then have "blind f (capture re pid rq)" unfolding capture_def by (rule blind_bind [OF blind_check])
  then show ?thesis by (simp add: blind_def)
qed

lemma delete_token_returns:
  assumes "yuno_delete_token tid db = (Inr b, db')"
  shows "get_active_token tid db' = None" "books db' = books db"
  using assms unfolding yuno_delete_token_def vault_delete_token_def
  by (auto simp: returns get_active_token_def split: option.splits if_splits)

text \<open>
  Deleting a payment token does not stop a capture that has passed its check: between the check and the settlement the token
  may be deleted, with its deletion confirmed, and the charge still settles.
\<close>

theorem deleted_token_is_still_charged:
  assumes "capture_check re rid rq st = (Inr (Settle v), st1)" "yuno_delete_token (cq_token_id rq) (ra_db st1) = (Inr b, db2)"
    and "vr_mandate_jti v = PStr jti" "dict_get (yu_payments db2) pid = None"
  shows "get_active_token (cq_token_id rq) db2 = None \<and>
    (\<exists>s db3 p. capture_settle re pid rq v db2 = (Inr s, db3) \<and> \<not> se_replayed s \<and>
       dict_get (yu_payments db3) pid = Some p \<and> yp_status p = ''captured'' \<and> yp_token p = cq_token_id rq)"
proof -
  have "dict_get (yu_idems (ra_db st)) (cq_idempotency_key rq) = None"
    using assms(1) unfolding capture_check_def by (auto simp: returns bind_res_Inr_iff split: option.splits)
  then have "dict_get (yu_idems db2) (cq_idempotency_key rq) = None"
    using capture_check_returns [OF assms(1)] delete_token_returns(2) [OF assms(2)] by simp
  with assms(3,4) delete_token_returns(1) [OF assms(2)] show ?thesis by (simp add: capture_settle_def Let_def)
qed

section \<open>A run of the rail\<close>

definition rail_toy :: rail_env where
  "rail_toy = \<lparr>re_jose = toy, re_jwks = Inr [(''kid'', PStr ''k'') # toy_key ''i''], re_status = (\<lambda>j. if j = ''m'' then Some ''active'' else None),
     re_now = 0, re_time = 5, re_mono = 7, re_cache_seconds = 300, re_approval_base_url = ''u''\<rparr>"

definition toy_mandate :: string where
  "toy_mandate = (case issue_sd toy [] toy_claims (toy_key ''i'') ''k'' [] of Inr t \<Rightarrow> t | Inl _ \<Rightarrow> [])"

definition run_rq :: capture_request where
  "run_rq = \<lparr>cq_token_id = ''t'', cq_amount = cents_dec 100, cq_currency = ''USD'', cq_idempotency_key = ''key'', cq_intent_ref = ''i'',
     cq_purchase_id = ''p'', cq_mandate_sd_jwt = Some toy_mandate, cq_checkout_jwt = None\<rparr>"

definition run_db :: yuno_db where
  "run_db = snd (confirm rail_toy ''t'' ''s'' (snd (approve ''s'' (snd (enroll rail_toy ''s'' ''m'' (ra_db (fst rail_start)))))))"

definition run_state :: rail_state where
  "run_state = (fst rail_start)\<lparr>ra_db := run_db\<rparr>"

lemma table_steps: "table_step db (snd (enroll re sid m db))" "table_step db (snd (approve sid db))" "table_step db (snd (confirm re tid sid db))"
  by (auto intro: table_step.intros [OF prod.collapse [symmetric]])

lemma rail_run_reach: "rail_reach (run_state, [])"
proof -
  let ?s = "\<lambda>db. (fst rail_start)\<lparr>ra_db := db\<rparr>"
  have step: "rail_reach (?s db, []) \<Longrightarrow> table_step db db' \<Longrightarrow> rail_reach (?s db', [])" for db db'
    using rail_step.table [of "?s db" db' "[]"] by (auto intro: rtranclp.rtrancl_into_rtrancl)
  have "rail_reach (?s (ra_db (fst rail_start)), [])" by (simp add: rail_start_def)
  from step [OF step [OF step [OF this table_steps(1)] table_steps(2)] table_steps(3)]
  show ?thesis unfolding run_state_def run_db_def .
qed

lemma run_check:
  "case capture_check rail_toy ''pay'' run_rq run_state of
     (Inr (Settle v), s) \<Rightarrow> vr_mandate_jti v = PStr ''m'' \<and> dict_get (yu_payments (ra_db s)) ''pay'' = None \<and>
       dict_get (yu_idems (ra_db s)) ''key'' = None \<and> \<not> isl (fst (yuno_delete_token ''t'' (ra_db s)))
   | _ \<Rightarrow> False"
  by code_simp

lemma run_checked:
  obtains v s where "capture_check rail_toy ''pay'' run_rq run_state = (Inr (Settle v), s)" "vr_mandate_jti v = PStr ''m''"
    "dict_get (yu_payments (ra_db s)) ''pay'' = None" "dict_get (yu_idems (ra_db s)) ''key'' = None"
    "\<not> isl (fst (yuno_delete_token ''t'' (ra_db s)))"
  using run_check by (auto split: prod.splits sum.splits checked.splits)

theorem captures_match_idempotency_keys_witness:
  "\<exists>s cs. rail_reach (s, cs) \<and> dict_get (yu_payments (ra_db s)) ''pay'' \<noteq> None \<and>
     bij_betw (\<lambda>k. yi_payment_id (the (dict_get (yu_idems (ra_db s)) k))) (dom (dict_get (yu_idems (ra_db s)))) (dom (dict_get (yu_payments (ra_db s))))"
proof -
  obtain v s where c: "capture_check rail_toy ''pay'' run_rq run_state = (Inr (Settle v), s)" "vr_mandate_jti v = PStr ''m''"
    "dict_get (yu_payments (ra_db s)) ''pay'' = None" "dict_get (yu_idems (ra_db s)) ''key'' = None" by (rule run_checked)
  obtain x db where settle: "capture_settle rail_toy ''pay'' run_rq v (ra_db s) = (Inr x, db)" "dict_get (yu_payments db) ''pay'' \<noteq> None"
    using c(2-4) by (simp add: capture_settle_def Let_def run_rq_def)
  have "rail_step (run_state, []) (s, [(run_rq, v)])" using rail_step.verified [OF c(1), of "[]"] by simp
  moreover have "rail_step (s, [(run_rq, v)]) (s\<lparr>ra_db := db\<rparr>, [])"
    using rail_step.settled [of run_rq v "[(run_rq, v)]" rail_toy "''pay''" s "Inr x" db] settle(1) by simp
  ultimately have "rail_reach (s\<lparr>ra_db := db\<rparr>, [])" using rail_run_reach by (meson rtranclp.rtrancl_into_rtrancl)
  with captures_match_idempotency_keys [OF this] settle(2) show ?thesis by (intro exI [of _ "s\<lparr>ra_db := db\<rparr>"] exI [of _ "[]"]) simp
qed

theorem deleted_token_is_still_charged_witness:
  "\<exists>v st1 b db2. capture_check rail_toy ''pay'' run_rq run_state = (Inr (Settle v), st1) \<and> yuno_delete_token ''t'' (ra_db st1) = (Inr b, db2) \<and>
     (\<exists>s db3 p. capture_settle rail_toy ''pay'' run_rq v db2 = (Inr s, db3) \<and> dict_get (yu_payments db3) ''pay'' = Some p)"
proof -
  obtain v s where c: "capture_check rail_toy ''pay'' run_rq run_state = (Inr (Settle v), s)" "vr_mandate_jti v = PStr ''m''"
    "dict_get (yu_payments (ra_db s)) ''pay'' = None" "\<not> isl (fst (yuno_delete_token ''t'' (ra_db s)))" by (rule run_checked)
  from c(4) obtain b db2 where d: "yuno_delete_token (cq_token_id run_rq) (ra_db s) = (Inr b, db2)"
    by (cases "yuno_delete_token ''t'' (ra_db s)"; cases "fst (yuno_delete_token ''t'' (ra_db s))") (auto simp: run_rq_def)
  have "dict_get (yu_payments db2) ''pay'' = None" using delete_token_returns(2) [OF d] c(3) by simp
  from deleted_token_is_still_charged [OF c(1) d c(2) this] c(1) d show ?thesis by (fastforce simp: run_rq_def)
qed

theorem settled_charge_is_replayed_witness:
  "\<exists>v st1 s db1. capture_check rail_toy ''pay'' run_rq run_state = (Inr (Settle v), st1) \<and>
     capture_settle rail_toy ''pay'' run_rq v (ra_db st1) = (Inr s, db1) \<and>
     capture rail_toy ''again'' run_rq (st1\<lparr>ra_db := db1\<rparr>) = (Inr (s\<lparr>se_replayed := True\<rparr>), st1\<lparr>ra_db := db1\<rparr>)"
proof -
  obtain v s where c: "capture_check rail_toy ''pay'' run_rq run_state = (Inr (Settle v), s)" "vr_mandate_jti v = PStr ''m''"
    "dict_get (yu_payments (ra_db s)) ''pay'' = None" "dict_get (yu_idems (ra_db s)) ''key'' = None" by (rule run_checked)
  obtain x db where settle: "capture_settle rail_toy ''pay'' run_rq v (ra_db s) = (Inr x, db)" "\<not> se_replayed x"
    using c(2-4) by (simp add: capture_settle_def Let_def run_rq_def)
  have "cq_amount run_rq = cents_dec 100" "in_range (re_now rail_toy)" by (simp_all add: run_rq_def rail_toy_def in_range_def)
  from settled_charge_is_replayed [where re' = rail_toy and pid' = "''again''" and st = s and cs = "[]",
      OF settle this(1) _ this(2) rtranclp.rtrancl_refl refl c(2)]
  show ?thesis using c(1) settle(1) by auto
qed


section \<open>Disputes\<close>

lemma resolved_persists:
  assumes "table_step\<^sup>*\<^sup>* db db'" "dict_get (yu_disputes db) did = Some d" "yd_status d \<noteq> ''open''"
  shows "dict_get (yu_disputes db') did = Some d"
  using assms(1)
proof (induction rule: rtranclp_induct)
  case (step y z)
  from step(2) step.IH assms(3) show ?case
    by (induction rule: table_step.induct)
      (auto simp: enroll_def approve_def confirm_def yuno_delete_token_def create_dispute_def decide_dispute_def in_transaction_def conflict_def
        create_setup_token_def approve_setup_token_def exchange_def vault_delete_token_def open_dispute_def adjudicate_def
        try_s_def bind_s_def sres_defs Let_def split: prod.splits sum.splits if_splits option.splits)
qed (rule assms(2))

text \<open>The evidence that the seller has to bring.\<close>

definition unbroken_chain :: "yu_payment option \<Rightarrow> pydict \<Rightarrow> bool" where
  "unbroken_chain payment evidence \<longleftrightarrow>
     (let given = (\<lambda>k. truthy (dict_get_or evidence k PNone))
      in given ''mandate_sd_jwt'' \<and> given ''intent_jwt'' \<and>
         (case (case payment of None \<Rightarrow> None | Some p \<Rightarrow> or_str (yp_checkout_hash p) None) of
            Some h \<Rightarrow> dict_get evidence ''checkout_hash'' = Some (PStr h) | None \<Rightarrow> given ''checkout_hash'') \<and>
         (given ''approval_receipt_sig'' \<or> \<not> given ''escalated''))"

lemma findings_none: "evidence_findings payment evidence = [] \<longleftrightarrow> unbroken_chain payment evidence"
  by (auto simp: evidence_findings_def unbroken_chain_def Let_def split: option.splits)

text \<open>
  A dispute goes to the seller exactly when the evidence holds the mandate, the intent, the cart that was charged and, for an
  escalated purchase, the approval; any missing link goes to the buyer. It is decided once: every later attempt raises,
  whatever happened between.
\<close>

theorem dispute_is_decided_once:
  assumes "adjudicate did evidence db = (Inr d, db')" "table_step\<^sup>*\<^sup>* db' db''"
  shows "yd_outcome d = Some (if unbroken_chain (dict_get (yu_payments db) (yd_payment_id d)) evidence then ''SELLER_FAVOR'' else ''BUYER_FAVOR'') \<and>
    adjudicate did other db'' = (Inl DisputeError, db'')"
proof -
  have d: "dict_get (yu_disputes db') did = Some d" "yd_status d = ''resolved''"
    and outcome: "yd_outcome d = Some (if unbroken_chain (dict_get (yu_payments db) (yd_payment_id d)) evidence then ''SELLER_FAVOR'' else ''BUYER_FAVOR'')"
    using assms(1) by (auto simp: adjudicate_def Let_def findings_none split: option.splits if_splits)
  from d resolved_persists [OF assms(2) d(1)] have "dict_get (yu_disputes db'') did = Some d" by simp
  with d(2) outcome show ?thesis by (simp add: adjudicate_def)
qed

theorem dispute_is_decided_once_witness:
  "\<exists>d db'. adjudicate ''d'' [(''mandate_sd_jwt'', PStr ''x'')]
      \<lparr>yu_setups = [], yu_tokens = [], yu_payments = [], yu_idems = [],
       yu_disputes = [(''d'', \<lparr>yd_payment_id = ''p'', yd_reason = ''r'', yd_status = ''open'', yd_outcome = None, yd_evidence = None\<rparr>)]\<rparr> = (Inr d, db') \<and>
     yd_outcome d = Some ''BUYER_FAVOR'' \<and> adjudicate ''d'' [] db' = (Inl DisputeError, db')"
proof -
  let ?db = "\<lparr>yu_setups = [], yu_tokens = [], yu_payments = [], yu_idems = [],
       yu_disputes = [(''d'', \<lparr>yd_payment_id = ''p'', yd_reason = ''r'', yd_status = ''open'', yd_outcome = None, yd_evidence = None\<rparr>)]\<rparr>"
  obtain d db' where a: "adjudicate ''d'' [(''mandate_sd_jwt'', PStr ''x'')] ?db = (Inr d, db')"
    by (simp add: adjudicate_def Let_def)
  have "\<not> unbroken_chain p [(''mandate_sd_jwt'', PStr ''x'')]" for p
    by (simp add: unbroken_chain_def Let_def dict_get_or_def)
  with dispute_is_decided_once [OF a rtranclp.rtrancl_refl, of "[]"] a show ?thesis by auto
qed

end
