(* ===== verification/Merchant_Props.thy ===== *)
theory Merchant_Props
  imports Merchant_Service Yuno_Props
begin

text \<open>
  Properties of the merchant's charge together with the rail: what a receipt rests on, and what becomes of a charge whose answer
  is lost or whose idempotency key was used before.
\<close>

section \<open>Stages of a charge\<close>

lemma try_raise_returns: "try_s m (\<lambda>e. raise_s (h e)) s = (Inr x, s') \<longleftrightarrow> m s = (Inr x, s')"
  by (auto simp: try_s_def raise_s_def split: prod.splits sum.splits)

lemma on_m_returns:
  "on_client_m a s = (Inr x, s') \<longleftrightarrow> (\<exists>c. a (ms_client s) = (Inr x, c) \<and> s' = s\<lparr>ms_client := c\<rparr>)"
  "on_rail_m d s = (Inr y, s') \<longleftrightarrow> (\<exists>c. d (ms_rail s) = (Inr y, c) \<and> s' = s\<lparr>ms_rail := c\<rparr>)"
  "on_db_m g s = (Inr z, s') \<longleftrightarrow> (\<exists>c. g (ms_db s) = (Inr z, c) \<and> s' = s\<lparr>ms_db := c\<rparr>)"
  by (auto simp: on_client_m_def on_rail_m_def on_db_m_def split: prod.splits)

lemma if_returns: "(if b then m else n) s = (Inr y, s') \<longleftrightarrow> b \<and> m s = (Inr y, s') \<or> \<not> b \<and> n s = (Inr y, s')"
  by simp

text \<open>What the first four steps establish.\<close>

definition charge_checked :: "merchant_env \<Rightarrow> charge_request \<Rightarrow> merchant_state \<Rightarrow> issuer_client \<Rightarrow> mc_offer \<Rightarrow> dec \<Rightarrow> verified_checkout \<Rightarrow> bool" where
  "charge_checked me b s c f amount co \<longleftrightarrow>
     (\<exists>keys claims0 claims. client_keys me (ms_client s) = (Inr keys, c) \<and>
        sd_verify (me_jose me) (me_time me) (hq_mandate_sd_jwt b) keys None None False = Inr claims0 \<and>
        me_validate me claims0 = Inr claims \<and> intent_proof me b claims = Inr ()) \<and>
     catalog_get_offer (pi_offer_id (hq_intent b)) (ms_db s) = Some f \<and> verify_price b f = Inr () \<and> decimal_of (mf_amount f) = Inr amount \<and>
     bound_checkout me b f amount (ms_db s) = Inr co"

lemma verify_intent_returns: "verify_intent me b claims = Inr u \<longleftrightarrow> intent_proof me b claims = Inr ()"
  by (auto simp: verify_intent_def split: sum.splits)

lemma service_charge_returns:
  "service_charge me pid b s = (Inr r, s') \<longleftrightarrow>
     (\<exists>c f amount co. charge_checked me b s c f amount co \<and>
        (mo_status (vc_order co) = ''captured'' \<and> mo_purchase_id (vc_order co) = Some (hq_purchase_id b) \<and>
           mo_receipt (vc_order co) = Some r \<and> s' = s\<lparr>ms_client := c\<rparr> \<or>
         mo_status (vc_order co) = ''quoted'' \<and> settle_order me pid b f amount co (s\<lparr>ms_client := c\<rparr>) = (Inr r, s')))"
  unfolding service_charge_def verify_mandate_def charge_checked_def
  by (auto simp: returns if_returns try_raise_returns on_m_returns bind_res_Inr_iff verify_intent_returns)

text \<open>The kernel's approval, which the rail is never asked without.\<close>

definition kernel_approves :: "merchant_env \<Rightarrow> charge_request \<Rightarrow> bool" where
  "kernel_approves me b \<longleftrightarrow>
     (\<exists>reason. me_kernel me (hq_mandate_id b) (hq_intent_jwt b) (idem_key b) (pi_agent (hq_intent b)) = Inr (APPROVED, reason))"

lemma settle_order_returns:
  "settle_order me pid b f amount co s = (Inr r, s') \<longleftrightarrow>
     (\<exists>body r0 rs db. kernel_approves me b \<and> rail_body b f amount = Inr body \<and>
        rail_client_capture me pid (idem_key b) body (ms_rail s) = (Inr r0, rs) \<and>
        mark_captured co (hq_purchase_id b) r0 (ms_db s) = (Inr (), db) \<and>
        r = r0\<lparr>rc_purchase_id := hq_purchase_id b\<rparr> \<and> s' = s\<lparr>ms_rail := rs, ms_db := db\<rparr>)"
  unfolding settle_order_def kernel_approves_def
  by (auto simp: returns try_raise_returns on_m_returns split: sum.splits if_splits prod.splits)

lemma rail_client_returns:
  "rail_client_capture me pid key body rs = (Inr r, rs') \<longleftrightarrow> me_delivery me = Delivered \<and> create_payment (me_rail me) pid key body rs = (Inr r, rs')"
  by (auto simp: rail_client_capture_def split: delivery.splits prod.splits sum.splits)

lemma capture_stores:
  assumes "capture re pid rq st = (Inr s, st')" "books_ok (ra_db st)"
  shows "\<exists>i. dict_get (yu_idems (ra_db st')) (cq_idempotency_key rq) = Some i \<and> yi_payment_id i = se_payment_id s \<and> books_ok (ra_db st')"
proof -
  from assms(1) obtain ch s1 where 1: "capture_check re pid rq st = (Inr ch, s1)"
    "(case ch of Replay s \<Rightarrow> return_s s | Settle verdict \<Rightarrow> on_db (capture_settle re pid rq verdict)) s1 = (Inr s, st')"
    unfolding capture_def by (auto simp: bind_s_returns)
  note same = capture_check_returns [OF 1(1)]
  show ?thesis
  proof (cases ch)
    case (Replay x)
    with 1 obtain i where "dict_get (yu_idems (ra_db st)) (cq_idempotency_key rq) = Some i" "replayed (yi_response i) = Inr s" "ra_db st' = ra_db st"
      unfolding capture_check_def using same
      by (auto simp: returns bind_res_Inr_iff on_client_def split: option.splits if_splits prod.splits)
    with assms(2) show ?thesis by (auto simp: books_ok_def replayed_def bind_res_Inr_iff)
  next
    case (Settle v)
    with 1(2) have "capture_settle re pid rq v (ra_db s1) = (Inr s, ra_db st')" by (auto simp: on_db_def split: prod.splits)
    moreover from this books_ok_settle [OF _ this] assms(2) same have "books_ok (ra_db st')" by simp
    ultimately show ?thesis using assms(2) same
      by (cases rule: settle_returns) (auto simp: books_ok_def replayed_def bind_res_Inr_iff)
  qed
qed

lemma create_payment_stores:
  assumes "create_payment re pid key body st = (Inr r, st')" "books_ok (ra_db st)"
  shows "\<exists>i p. dict_get (yu_idems (ra_db st')) key = Some i \<and> yi_payment_id i = rc_capture_id r \<and>
    dict_get (yu_payments (ra_db st')) (rc_capture_id r) = Some p \<and> yp_status p = ''captured''"
proof -
  from assms(1) obtain rq s where c: "request_of body key = Inr rq" "capture re pid rq st = (Inr s, st')" "r = to_receipt s (purchase_ref body)"
    unfolding create_payment_def rail_transaction_def by (auto simp: returns split: prod.splits sum.splits)
  from capture_stores [OF c(2) assms(2)] obtain i where
    i: "dict_get (yu_idems (ra_db st')) (cq_idempotency_key rq) = Some i" "yi_payment_id i = se_payment_id s" "books_ok (ra_db st')" by blast
  have key: "cq_idempotency_key rq = key" using c(1) by (auto simp: request_of_def split: sum.splits)
  have "yi_payment_id i \<in> dom (dict_get (yu_payments (ra_db st')))"
    using i(1,3) unfolding books_ok_def by (metis (mono_tags, lifting) bij_betwE domI option.sel)
  then obtain p where "dict_get (yu_payments (ra_db st')) (yi_payment_id i) = Some p" by blast
  with i key c(3) show ?thesis by (auto simp: books_ok_def to_receipt_def)
qed

section \<open>Properties\<close>

lemma endpoint_charged:
  "charge_endpoint me pid b s = (Inr (Charged r), s') \<longleftrightarrow>
     (\<exists>a. fixed_amount (hq_amount b) = Inr a \<and> service_charge me pid (b\<lparr>hq_amount := a\<rparr>) s = (Inr r, s'))"
  unfolding charge_endpoint_def merchant_transaction_def
  by (auto simp: bind_s_def lift_res_def try_s_def return_s_def raise_s_def split: prod.splits sum.splits exn.splits)

lemma request_fields [simp]:
  "idem_key (b\<lparr>hq_amount := a\<rparr>) = idem_key b" "kernel_approves me (b\<lparr>hq_amount := a\<rparr>) = kernel_approves me b"
  "rail_body (b\<lparr>hq_amount := a\<rparr>) = rail_body b"
  by (simp_all add: idem_key_def kernel_approves_def rail_body_def fun_eq_iff cong: option.case_cong)

lemma mark_captured_returns:
  assumes "mark_captured co p r db = (Inr u, db')"
  obtains ord where "dict_get (md_orders db') (vc_order_id co) = Some ord" "mo_status ord = ''captured''" "mo_purchase_id ord = Some p" "mo_receipt ord = Some r"
  using assms by (auto simp: mark_captured_def split: option.splits if_splits)


text \<open>Nothing before the rail depends on what becomes of its answer.\<close>

lemma delivery_irrelevant [simp]:
  "client_keys (me\<lparr>me_delivery := d\<rparr>) = client_keys me" "intent_proof (me\<lparr>me_delivery := d\<rparr>) = intent_proof me"
  "bound_checkout (me\<lparr>me_delivery := d\<rparr>) = bound_checkout me" "kernel_approves (me\<lparr>me_delivery := d\<rparr>) = kernel_approves me"
proof -
  have "checkout_signed (me\<lparr>me_delivery := d\<rparr>) = checkout_signed me" by (rule ext) (simp add: checkout_signed_def cong del: if_weak_cong option.case_cong_weak pyval.case_cong_weak sum.case_cong_weak)
  then have "verify_checkout (me\<lparr>me_delivery := d\<rparr>) = verify_checkout me" by (intro ext) (simp add: verify_checkout_def cong del: if_weak_cong option.case_cong_weak pyval.case_cong_weak sum.case_cong_weak)
  then show "bound_checkout (me\<lparr>me_delivery := d\<rparr>) = bound_checkout me" by (intro ext) (simp add: bound_checkout_def cong del: if_weak_cong option.case_cong_weak pyval.case_cong_weak sum.case_cong_weak)
qed (intro ext; simp add: client_keys_def intent_proof_def kernel_approves_def cong del: if_weak_cong option.case_cong_weak pyval.case_cong_weak sum.case_cong_weak)+

lemma charge_checked_delivery [simp]: "charge_checked (me\<lparr>me_delivery := d\<rparr>) = charge_checked me"
  by (intro ext) (simp add: charge_checked_def)

lemma service_charge_settles:
  assumes "charge_checked me b s c f amount co" "mo_status (vc_order co) = ''quoted''"
  shows "service_charge me pid b s = settle_order me pid b f amount co (s\<lparr>ms_client := c\<rparr>)"
  using assms unfolding charge_checked_def
  by (auto simp: service_charge_def verify_mandate_def verify_intent_def try_s_def bind_s_def on_client_m_def sres_defs)

text \<open>
  When the rail has captured and its answer is lost, the merchant answers with an ordinary refusal (402, RAIL_ERROR) and leaves the
  order as quoted, although the payment is in the books of the rail; the answer for a charge that has to be reconciled is not given.
\<close>

theorem lost_answer_is_a_refusal:
  assumes "charge_endpoint (me\<lparr>me_delivery := Delivered\<rparr>) pid b s = (Inr (Charged r), s1)" "ms_rail s1 \<noteq> ms_rail s"
  shows "\<exists>s2. charge_endpoint (me\<lparr>me_delivery := Lost\<rparr>) pid b s = (Inr (Refused402 ''RAIL_ERROR''), s2) \<and> ms_rail s2 = ms_rail s1 \<and> ms_db s2 = ms_db s"
proof -
  let ?me = "me\<lparr>me_delivery := Delivered\<rparr>"
  from assms(1) obtain a where a: "fixed_amount (hq_amount b) = Inr a" "service_charge ?me pid (b\<lparr>hq_amount := a\<rparr>) s = (Inr r, s1)"
    unfolding endpoint_charged by blast
  from a(2) assms(2) obtain c f amount co where
    chk: "charge_checked me (b\<lparr>hq_amount := a\<rparr>) s c f amount co" and q: "mo_status (vc_order co) = ''quoted''"
    and set: "settle_order ?me pid (b\<lparr>hq_amount := a\<rparr>) f amount co (s\<lparr>ms_client := c\<rparr>) = (Inr r, s1)"
    unfolding service_charge_returns by auto
  from set obtain body r0 rs where
    o: "kernel_approves me b" "rail_body b f amount = Inr body" "create_payment (me_rail me) pid (idem_key b) body (ms_rail s) = (Inr r0, rs)" "ms_rail s1 = rs"
    unfolding settle_order_returns rail_client_returns by auto
  have "settle_order (me\<lparr>me_delivery := Lost\<rparr>) pid (b\<lparr>hq_amount := a\<rparr>) f amount co (s\<lparr>ms_client := c\<rparr>) =
      (Inl (ChargeRefused ''RAIL_ERROR''), s\<lparr>ms_client := c, ms_rail := rs\<rparr>)"
    using o(1-3) by (auto simp: settle_order_def kernel_approves_def bind_s_def sres_defs try_s_def on_rail_m_def rail_client_capture_def
        charge_refused_def rail_reason_def)
  then have "service_charge (me\<lparr>me_delivery := Lost\<rparr>) pid (b\<lparr>hq_amount := a\<rparr>) s = (Inl (ChargeRefused ''RAIL_ERROR''), s\<lparr>ms_client := c, ms_rail := rs\<rparr>)"
    using service_charge_settles [of "me\<lparr>me_delivery := Lost\<rparr>", OF _ q] chk by simp
  then have "charge_endpoint (me\<lparr>me_delivery := Lost\<rparr>) pid b s = (Inr (Refused402 ''RAIL_ERROR''), s\<lparr>ms_client := c, ms_rail := rs\<rparr>)"
    using a(1) by (simp add: charge_endpoint_def merchant_transaction_def bind_s_def lift_res_def try_s_def return_s_def)
  with o(4) show ?thesis by simp
qed


section \<open>A run of the merchant\<close>

definition mer_offer :: mc_offer_row where
  "mer_offer = \<lparr>of_merchant_id = ''v'', of_category = ''c'', of_title = ''f'', of_amount = ''0.01'', of_currency = ''USD'', of_origin = None,
     of_destination = None, of_depart_date = None, of_description = None, of_active = True\<rparr>"

definition mer_intent :: intent where
  "mer_intent = \<lparr>pi_mandate_jti = ''m'', pi_agent = ''a'', pi_merchant_id = ''v'', pi_offer_id = ''o'', pi_amount = ''0.01'', pi_currency = ''USD'',
     pi_nonce = ''n'', pi_jti = ''i'', pi_iat = 0, pi_exp = 100, pi_checkout_hash = Some toy_digest\<rparr>"

definition mer_key :: pydict where
  "mer_key = [(''kty'', PStr ''EC''), (''crv'', PStr ''P-256''), (''n'', PStr ''m'')]"

definition mer_document :: pydict where
  "mer_document = [(''order_id'', PStr ''ord''), (''merchant'', PDict [(''id'', PStr ''v'')]), (''total_price'', PInt 1), (''currency'', PStr ''USD'')]"

definition mer_table :: "(pyval \<times> string) list" where
  "mer_table =
     [(PDict toy_claims, ''c''), (PDict mer_document, ''o''), (PDict (intent_dump mer_intent), ''x''),
      (PDict [(''alg'', PStr ''EdDSA''), (''kid'', PStr ''k''), (''typ'', PStr ''sd+jwt'')], ''i''),
      (PDict [(''alg'', PStr ''ES256''), (''kid'', PStr ''m1''), (''typ'', PStr ''JWT'')], ''j''),
      (PDict [(''alg'', PStr ''EdDSA'')], ''y'')]"

definition mer_jose :: jose_env where
  "mer_jose = toy_of mer_table"

definition text_of :: "string res \<Rightarrow> string" where
  "text_of r = (case r of Inr t \<Rightarrow> t | Inl _ \<Rightarrow> [])"

definition mer_mandate :: string where
  "mer_mandate = text_of (issue_sd mer_jose [] toy_claims (toy_key ''i'') ''k'' [])"

definition mer_checkout :: string where
  "mer_checkout = text_of (sign_compact mer_jose mer_document mer_key (Some ''m1'') (Some ''JWT''))"

definition mer_request :: charge_request where
  "mer_request = \<lparr>hq_purchase_id = ''p'', hq_mandate_id = ''m'', hq_mandate_sd_jwt = mer_mandate, hq_intent = mer_intent,
     hq_intent_jwt = text_of (sign_detached mer_jose (intent_dump mer_intent) (toy_key ''h'') None), hq_checkout_jwt = mer_checkout,
     hq_payment_method_ref = ''t'', hq_amount = ''0.01'', hq_currency = ''USD'', hq_idempotency_key = None\<rparr>"

definition mer_claims :: tl_claims where
  "mer_claims = \<lparr>cl_iss = ''s'', cl_iat = 0, cl_nbf = 0, cl_exp = 9, cl_jti = ''m'', cl_sub = ''u'', cl_agent = ''a'', cl_cnf = PDict (toy_key ''h''),
     cl_payment_method_ref = Some ''t'', cl_currency = ''USD'', cl_scope = \<lparr>sc_categories = [], sc_merchants = []\<rparr>, cl_conditions = None,
     cl_limits = \<lparr>tl_max_per_txn = None, tl_total_budget = None, tl_max_txn = None\<rparr>,
     cl_validity = \<lparr>va_not_before = 0, va_expires_at = 9\<rparr>, cl_parent_jti = None, cl_vct = None, cl_constraints = None\<rparr>"

definition mer_keys :: "pydict list" where
  "mer_keys = [(''kid'', PStr ''k'') # toy_key ''i'', (''kid'', PStr ''m1'') # mer_key]"

definition mer_rail :: rail_env where
  "mer_rail = rail_toy\<lparr>re_jose := mer_jose, re_jwks := Inr mer_keys\<rparr>"

definition mer_env :: merchant_env where
  "mer_env = \<lparr>me_jose = mer_jose, me_jwks = Inr mer_keys, me_mono = 7, me_time = 5, me_key = mer_key, me_kid = ''m1'', me_merchant_id = ''v'',
     me_merchant_name = ''V'', me_merchant_website = ''w'', me_validate = (\<lambda>_. Inr mer_claims), me_kernel = (\<lambda>_ _ _ _. Inr (APPROVED, None)),
     me_rail = mer_rail, me_delivery = Delivered\<rparr>"

definition mer_order :: merchant_order where
  "mer_order = \<lparr>mo_offer_id = ''o'', mo_amount = 1, mo_currency = ''USD'', mo_checkout_jwt = mer_checkout, mo_checkout_hash = toy_digest,
     mo_status = ''quoted'', mo_purchase_id = None, mo_receipt = None\<rparr>"

definition mer_state :: merchant_state where
  "mer_state = \<lparr>ms_db = \<lparr>md_offers = [(''o'', mer_offer)], md_orders = [(''ord'', mer_order)]\<rparr>, ms_client = \<lparr>cl_jwks = None, cl_fetched_at = 0\<rparr>, ms_rail = run_state\<rparr>"

definition mer_body :: capture_body where
  "mer_body = \<lparr>cb_token_id = ''t'', cb_amount = ''0.01'', cb_currency = ''USD'', cb_intent_ref = ''i'', cb_purchase_id = Some ''p'',
     cb_mandate_sd_jwt = Some mer_mandate, cb_checkout_jwt = Some mer_checkout\<rparr>"

lemma mer_mandate_ok:
  "case client_keys mer_env (ms_client mer_state) of
     (Inr keys, c) \<Rightarrow> \<not> isl (sd_verify (me_jose mer_env) (me_time mer_env) (hq_mandate_sd_jwt mer_request) keys None None False)
   | _ \<Rightarrow> False"
  by code_simp

lemma mer_proof: "intent_proof mer_env mer_request mer_claims = Inr ()"
  by code_simp

lemma mer_price:
  "catalog_get_offer (pi_offer_id (hq_intent mer_request)) (ms_db mer_state) = Some (to_offer ''o'' mer_offer)"
  "verify_price mer_request (to_offer ''o'' mer_offer) = Inr ()" "decimal_of (mf_amount (to_offer ''o'' mer_offer)) = Inr (cents_dec 1)"
  "fixed_amount (hq_amount mer_request) = Inr ''0.01''" "rail_body mer_request (to_offer ''o'' mer_offer) (cents_dec 1) = Inr mer_body"
  by code_simp+

lemma mer_bound:
  "case bound_checkout mer_env mer_request (to_offer ''o'' mer_offer) (cents_dec 1) (ms_db mer_state) of
     Inr co \<Rightarrow> vc_order_id co = ''ord'' \<and> vc_order co = mer_order | _ \<Rightarrow> False"
  by code_simp

lemma mer_check:
  "case request_of mer_body ''p'' of
     Inr rq \<Rightarrow> (case capture_check mer_rail ''pay'' rq run_state of
        (Inr (Settle v), st) \<Rightarrow> vr_mandate_jti v = PStr ''m'' \<and> dict_get (yu_payments (ra_db st)) ''pay'' = None \<and> dict_get (yu_idems (ra_db st)) ''p'' = None
      | _ \<Rightarrow> False)
   | _ \<Rightarrow> False"
  by code_simp

lemma mer_same_amount: "mer_request\<lparr>hq_amount := ''0.01''\<rparr> = mer_request"
  by (simp add: mer_request_def)

lemma mer_checked:
  obtains c co where "charge_checked mer_env mer_request mer_state c (to_offer ''o'' mer_offer) (cents_dec 1) co" "vc_order co = mer_order" "vc_order_id co = ''ord''"
proof -
  from mer_mandate_ok obtain keys c claims0 where
    m: "client_keys mer_env (ms_client mer_state) = (Inr keys, c)"
      "sd_verify (me_jose mer_env) (me_time mer_env) (hq_mandate_sd_jwt mer_request) keys None None False = Inr claims0"
    by (auto simp: isl_def split: prod.splits sum.splits) (metis sum.exhaust)
  moreover have "me_validate mer_env claims0 = Inr mer_claims" by (simp add: mer_env_def)
  moreover from mer_bound obtain co where
    "bound_checkout mer_env mer_request (to_offer ''o'' mer_offer) (cents_dec 1) (ms_db mer_state) = Inr co" "vc_order co = mer_order" "vc_order_id co = ''ord''"
    by (auto split: sum.splits)
  ultimately show ?thesis using mer_proof mer_price(1-3) by (intro that) (auto simp: charge_checked_def)
qed

lemma mer_idem: "idem_key mer_request = ''p''" "idem_key (mer_request\<lparr>hq_purchase_id := ''q'', hq_idempotency_key := Some ''p''\<rparr>) = ''p''"
  by (simp_all add: idem_key_def mer_request_def or_str_def)

lemma settle_case:
  assumes "case r of Inr rq \<Rightarrow> (case m rq of (Inr (Settle v), st) \<Rightarrow> P rq v st | _ \<Rightarrow> False) | _ \<Rightarrow> False"
    "\<And>rq v st. r = Inr rq \<Longrightarrow> m rq = (Inr (Settle v), st) \<Longrightarrow> P rq v st \<Longrightarrow> thesis"
  shows thesis
proof (cases r)
  case (Inr rq)
  obtain x st where m: "m rq = (x, st)" by (cases "m rq")
  with assms(1) Inr obtain ch where "x = Inr ch" by (cases x) auto
  with assms m Inr show ?thesis by (cases ch) auto
qed (use assms(1) in simp)

lemma mer_settled:
  obtains rq v st x db where "request_of mer_body ''p'' = Inr rq" "capture_check mer_rail ''pay'' rq run_state = (Inr (Settle v), st)"
    "capture_settle mer_rail ''pay'' rq v (ra_db st) = (Inr x, db)" "\<not> se_replayed x" "cq_amount rq = cents_dec 1" "cq_idempotency_key rq = ''p''"
    "dict_get (yu_payments db) ''pay'' \<noteq> None" "dict_get (yu_payments (ra_db st)) ''pay'' = None"
proof -
  obtain rq v st where
    c: "request_of mer_body ''p'' = Inr rq" "capture_check mer_rail ''pay'' rq run_state = (Inr (Settle v), st)" "vr_mandate_jti v = PStr ''m''"
      "dict_get (yu_payments (ra_db st)) ''pay'' = None" "dict_get (yu_idems (ra_db st)) ''p'' = None"
    by (rule settle_case [OF mer_check]) blast
  have amount: "decimal_of ''0.01'' = Inr (cents_dec 1)" using mer_price(3) by (simp add: to_offer_def mer_offer_def)
  have q: "cq_amount rq = cents_dec 1" "cq_idempotency_key rq = ''p''"
    using c(1) amount by (auto simp: request_of_def mer_body_def)
  with c show ?thesis by (intro that [OF c(1,2)]) (auto simp: capture_settle_def Let_def)
qed

lemma mer_charged:
  obtains r s1 where "charge_endpoint mer_env ''pay'' mer_request mer_state = (Inr (Charged r), s1)" "ms_rail s1 \<noteq> ms_rail mer_state"
proof -
  obtain c co where k: "charge_checked mer_env mer_request mer_state c (to_offer ''o'' mer_offer) (cents_dec 1) co" "vc_order co = mer_order" "vc_order_id co = ''ord''"
    by (rule mer_checked)
  obtain rq v st x db where p: "request_of mer_body ''p'' = Inr rq" "capture_check mer_rail ''pay'' rq run_state = (Inr (Settle v), st)"
    "capture_settle mer_rail ''pay'' rq v (ra_db st) = (Inr x, db)" "dict_get (yu_payments db) ''pay'' \<noteq> None" "dict_get (yu_payments (ra_db st)) ''pay'' = None"
    by (rule mer_settled)
  have rail: "create_payment mer_rail ''pay'' ''p'' mer_body run_state = (Inr (to_receipt x (purchase_ref mer_body)), st\<lparr>ra_db := db\<rparr>)"
    using p by (simp add: create_payment_def rail_transaction_def bind_s_def sres_defs capture_def on_db_def)
  have "\<exists>d. mark_captured co ''p'' (to_receipt x (purchase_ref mer_body)) (ms_db mer_state) = (Inr (), d)"
    using k(3) by (simp add: mark_captured_def mer_state_def mer_order_def)
  then obtain d where mark: "mark_captured co ''p'' (to_receipt x (purchase_ref mer_body)) (ms_db mer_state) = (Inr (), d)" ..
  have app: "kernel_approves mer_env mer_request" by (simp add: kernel_approves_def mer_env_def)
  have "settle_order mer_env ''pay'' mer_request (to_offer ''o'' mer_offer) (cents_dec 1) co (mer_state\<lparr>ms_client := c\<rparr>) =
      (Inr ((to_receipt x (purchase_ref mer_body))\<lparr>rc_purchase_id := ''p''\<rparr>), mer_state\<lparr>ms_client := c, ms_rail := st\<lparr>ra_db := db\<rparr>, ms_db := d\<rparr>)"
    unfolding settle_order_returns rail_client_returns mer_idem
    using app mer_price(5) rail mark by (auto simp: mer_env_def mer_state_def mer_request_def)
  moreover have "mo_status (vc_order co) = ''quoted''" by (simp add: k mer_order_def)
  ultimately have "service_charge mer_env ''pay'' mer_request mer_state =
      (Inr ((to_receipt x (purchase_ref mer_body))\<lparr>rc_purchase_id := ''p''\<rparr>), mer_state\<lparr>ms_client := c, ms_rail := st\<lparr>ra_db := db\<rparr>, ms_db := d\<rparr>)"
    using service_charge_settles [OF k(1)] by simp
  then have "charge_endpoint mer_env ''pay'' mer_request mer_state =
      (Inr (Charged ((to_receipt x (purchase_ref mer_body))\<lparr>rc_purchase_id := ''p''\<rparr>)), mer_state\<lparr>ms_client := c, ms_rail := st\<lparr>ra_db := db\<rparr>, ms_db := d\<rparr>)"
    unfolding endpoint_charged using mer_price(4) mer_same_amount by auto
  moreover have "ra_db st = ra_db run_state" using capture_check_returns [OF p(2)] .
  then have "ra_db (st\<lparr>ra_db := db\<rparr>) \<noteq> ra_db (ms_rail mer_state)" using p(4,5) by (auto simp: mer_state_def)
  then have "st\<lparr>ra_db := db\<rparr> \<noteq> ms_rail mer_state" by (rule contrapos_nn) (rule arg_cong)
  ultimately show ?thesis by (intro that) auto
qed

lemma run_books: "books_ok (ra_db run_state)"
  using reach_books_ok [OF rail_run_reach] by simp


theorem lost_answer_is_a_refusal_witness:
  "\<exists>s2. charge_endpoint (mer_env\<lparr>me_delivery := Lost\<rparr>) ''pay'' mer_request mer_state = (Inr (Refused402 ''RAIL_ERROR''), s2) \<and> ms_rail s2 \<noteq> ms_rail mer_state"
proof -
  obtain r s1 where r: "charge_endpoint mer_env ''pay'' mer_request mer_state = (Inr (Charged r), s1)" "ms_rail s1 \<noteq> ms_rail mer_state"
    by (rule mer_charged)
  have "mer_env\<lparr>me_delivery := Delivered\<rparr> = mer_env" by (simp add: mer_env_def)
  with lost_answer_is_a_refusal [of mer_env "''pay''" mer_request mer_state r s1] r show ?thesis by auto
qed


end
