(* ===== verification/Rappi_Bridge.thy ===== *)
theory Rappi_Bridge
  imports Trust_Jose Triples
begin

text \<open>
  The bridge to the Rappi shop (\<^verbatim>\<open>src/src/rappi_bridge\<close>) and the kernel's capture tokens
  (\<^verbatim>\<open>api/decision/capture_token.py\<close>): errors, guards, the table of orders, the client of the shop, token
  verification, and the guarded order of \<^verbatim>\<open>service.py\<close> with the endpoints of \<^verbatim>\<open>app.py\<close>. The shop is a third party:
  its answer to a request is a function of all requests sent so far. An order is a sequence of stages, each of which
  ends with one write to the table, so that orders can be interleaved.
\<close>

section \<open>Errors and configuration\<close>

fun br_reason :: "bridge_error \<Rightarrow> string" where
  "br_reason Disabled = ''BRIDGE_DISABLED''"
| "br_reason CapExceeded = ''BRIDGE_CAP_EXCEEDED''"
| "br_reason CartNotClean = ''BRIDGE_CART_NOT_CLEAN''"
| "br_reason PriceDrift = ''BRIDGE_PRICE_DRIFT''"
| "br_reason AddressMismatch = ''BRIDGE_ADDRESS_MISMATCH''"
| "br_reason ApprovalInvalid = ''BRIDGE_APPROVAL_INVALID''"
| "br_reason ApprovalExpired = ''BRIDGE_APPROVAL_EXPIRED''"
| "br_reason DryRunMismatch = ''BRIDGE_DRY_RUN_MISMATCH''"
| "br_reason SessionExpired = ''BRIDGE_SESSION_EXPIRED''"
| "br_reason MinAmountRejected = ''MERCHANT_MIN_AMOUNT''"
| "br_reason UncertainState = ''BRIDGE_UNCERTAIN''"
| "br_reason CardRequires3ds = ''BRIDGE_CARD_3DS_REQUIRED''"
| "br_reason CashPaymentRefused = ''BRIDGE_CASH_NOT_ALLOWED''"
| "br_reason PaymentUnresolved = ''BRIDGE_PAYMENT_UNRESOLVED''"
| "br_reason ExecutionConflict = ''BRIDGE_EXECUTION_CONFLICT''"
| "br_reason ShopError = ''BRIDGE_RAPPI_ERROR''"

definition http_status :: "bridge_error \<Rightarrow> int" where
  "http_status e =
     (if e \<in> {Disabled, DryRunMismatch} then 423
      else if e = MinAmountRejected then 402
      else if e \<in> {UncertainState, ShopError} then 502
      else 409)"

record bridge_config =
  bc_max_order_cop :: string
  bc_dry_run :: bool
  bc_enabled :: bool
  bc_payment_method_id :: "string option"
  bc_allow_cash :: bool
  bc_local_token :: "string option"
  bc_quote_ttl_s :: int

section \<open>Guards\<close>

definition parse_money :: "string \<Rightarrow> cents res" where
  "parse_money v = bind_res (decimal_of v) dec_quantize_cent"

definition config_cap :: "bridge_config \<Rightarrow> cents res" where
  "config_cap c = parse_money (bc_max_order_cop c)"

definition check_cap :: "cents \<Rightarrow> cents \<Rightarrow> unit res" where
  "check_cap tot cap = (if tot > cap then Inl (BridgeError CapExceeded) else Inr ())"

definition check_drift :: "cents \<Rightarrow> cents \<Rightarrow> unit res" where
  "check_drift agreed tot = (if agreed \<noteq> tot then Inl (BridgeError PriceDrift) else Inr ())"

definition check_address :: "string option \<Rightarrow> pyval \<Rightarrow> unit res" where
  "check_address delivery expected =
     (if expected = PNone then Inr ()
      else if \<not> py_eq (opt_str delivery) expected then Inl (BridgeError AddressMismatch) else Inr ())"

fun stores_clean :: "pyval list \<Rightarrow> unit res" where
  "stores_clean [] = Inr ()"
| "stores_clean (st # sts) =
     bind_res (py_get st ''products'' PNone) (\<lambda>p.
     if truthy p then Inl (BridgeError CartNotClean) else stores_clean sts)"

fun check_cart_clean :: "pyval list \<Rightarrow> unit res" where
  "check_cart_clean [] = Inr ()"
| "check_cart_clean (cart # carts) =
     bind_res (py_get cart ''stores'' (PList [])) (\<lambda>sts.
     bind_res (py_iter (py_or sts (PList []))) (\<lambda>sts.
     bind_res (stores_clean sts) (\<lambda>_. check_cart_clean carts)))"

section \<open>The table of orders\<close>

abbreviation RECEIVED :: string where "RECEIVED \<equiv> ''received''"
abbreviation SESSION_OK :: string where "SESSION_OK \<equiv> ''session_ok''"
abbreviation CART_OK :: string where "CART_OK \<equiv> ''cart_ok''"
abbreviation APPROVAL_VERIFIED :: string where "APPROVAL_VERIFIED \<equiv> ''approval_verified''"
abbreviation ARMED :: string where "ARMED \<equiv> ''armed''"
abbreviation DRY_RUN_CONFIRMED :: string where "DRY_RUN_CONFIRMED \<equiv> ''dry_run_confirmed''"
abbreviation CLICKED :: string where "CLICKED \<equiv> ''clicked''"
abbreviation CONFIRMED :: string where "CONFIRMED \<equiv> ''confirmed''"
abbreviation FAILED :: string where "FAILED \<equiv> ''failed''"
abbreviation UNCERTAIN :: string where "UNCERTAIN \<equiv> ''uncertain''"

definition TERMINAL_OK :: "string list" where
  "TERMINAL_OK = [DRY_RUN_CONFIRMED, CONFIRMED]"

record bridge_order =
  bo_purchase_id :: string
  bo_cart_hash :: string
  bo_amount :: string
  bo_state :: string
  bo_order_id :: "string option"
  bo_receipt :: "pydict option"

text \<open>\<open>br_sent\<close> is what has been sent to the shop; \<open>br_keys\<close> the cached keys of the kernel and when they were read.\<close>

type_synonym http_call = "string \<times> string \<times> pyval"

record bridge =
  br_orders :: "(string, bridge_order) dict"
  br_sent :: "http_call list"
  br_label :: string
  br_keys :: "(string, pydict) dict"
  br_keys_time :: dec

definition bridge_claim :: "string \<Rightarrow> string \<Rightarrow> string \<Rightarrow> string \<Rightarrow> (bridge, bridge_order option) sres" where
  "bridge_claim idem_key purchase_id cart_hash amount s =
     (case dict_get (br_orders s) idem_key of
        Some row \<Rightarrow> (Inr (Some row), s)
      | None \<Rightarrow>
          (Inr None, s\<lparr>br_orders := dict_set idem_key
             \<lparr>bo_purchase_id = purchase_id, bo_cart_hash = cart_hash, bo_amount = amount, bo_state = RECEIVED,
              bo_order_id = None, bo_receipt = None\<rparr> (br_orders s)\<rparr>))"

definition coalesce :: "'a option \<Rightarrow> 'a option \<Rightarrow> 'a option" where
  "coalesce a b = (case a of Some x \<Rightarrow> Some x | None \<Rightarrow> b)"

definition bridge_transition ::
  "string \<Rightarrow> string \<Rightarrow> string option \<Rightarrow> pydict option \<Rightarrow> string option \<Rightarrow> (bridge, unit) sres" where
  "bridge_transition idem_key state order_id receipt expect s =
     (case dict_get (br_orders s) idem_key of
        None \<Rightarrow> (Inl RuntimeError, s)
      | Some row \<Rightarrow>
          if expect \<noteq> None \<and> expect \<noteq> Some (bo_state row) then (Inl RuntimeError, s)
          else (Inr (), s\<lparr>br_orders := dict_set idem_key
            (row\<lparr>bo_state := state, bo_order_id := coalesce order_id (bo_order_id row),
                 bo_receipt := coalesce receipt (bo_receipt row)\<rparr>) (br_orders s)\<rparr>))"

section \<open>The client of the shop\<close>

text \<open>An answer has a status, its text and the value its JSON reads to.\<close>

datatype http_outcome = TransportError | Response int string "pyval res"

text \<open>
  \<open>be_session\<close> is the session file of the owner's login, \<open>be_stamp\<close> the clock in seconds, \<open>be_pem\<close> the issuer key on this
  machine and \<open>be_jwks\<close> the kernel's answer with its key set.
\<close>

record bridge_env =
  be_jose :: jose_env
  be_config :: bridge_config
  be_http :: "http_call list \<Rightarrow> http_outcome"
  be_session :: "unit res"
  be_sha_hex :: "string \<Rightarrow> string"
  be_now :: instant
  be_stamp :: dec
  be_uuid :: string
  be_pem :: "pydict option"
  be_jwks :: "pydict list res"

text \<open>\<^verbatim>\<open>text.lower()\<close> up to the Latin-1 letters.\<close>

definition lower_char :: "char \<Rightarrow> char" where
  "lower_char c =
     (let n = of_char c :: nat
      in if 65 \<le> n \<and> n \<le> 90 \<or> 192 \<le> n \<and> n \<le> 222 \<and> n \<noteq> 215 then char_of (n + 32) else c)"

definition minimum_words :: "string list" where
  "minimum_words = [''min_amount'', CHR ''m'' # CHR 0xED # ''nimo'', ''minimo'']"

definition read_response :: "string \<Rightarrow> http_outcome \<Rightarrow> pyval res" where
  "read_response path outcome =
     (case outcome of
        TransportError \<Rightarrow> Inl (BridgeError ShopError)
      | Response st t js \<Rightarrow>
          if st = 401 \<or> st = 403 then Inl (BridgeError SessionExpired)
          else if st \<ge> 400
          then (let lowered = map lower_char (take 500 t)
                in if list_ex (\<lambda>w. is_substring w lowered) minimum_words then Inl (BridgeError MinAmountRejected)
                   else if st = 404 \<and> (is_substring ''stores'' lowered \<or> is_substring ''search'' path)
                   then Inr (PDict [(''stores'', PList [])])
                   else Inl (BridgeError ShopError))
          else if t = [] then Inr (PDict [])
          else js)"

definition client_request :: "bridge_env \<Rightarrow> string \<Rightarrow> string \<Rightarrow> pyval \<Rightarrow> (bridge, pyval) sres" where
  "client_request be meth path body s =
     (case be_session be of
        Inl e \<Rightarrow> (Inl e, s)
      | Inr _ \<Rightarrow> (let sent = br_sent s @ [(meth, path, body)] in (read_response path (be_http be sent), s\<lparr>br_sent := sent\<rparr>)))"

definition cart_path :: "string \<Rightarrow> string \<Rightarrow> string" where
  "cart_path store_type tail = ''/api/ms/shopping-cart/v1/'' @ store_type @ tail"

definition place_order_path :: "string \<Rightarrow> string" where
  "place_order_path store_type = ''/api/ms/shopping-cart-proxy/'' @ store_type @ ''/checkout''"

definition whoami :: "bridge_env \<Rightarrow> (bridge, pyval) sres" where
  "whoami be = client_request be ''GET'' ''/ms/application-user/auth'' PNone"

fun find_active :: "pyval list \<Rightarrow> pyval option res" where
  "find_active [] = Inr None"
| "find_active (a # as) = bind_res (py_get a ''active'' PNone) (\<lambda>v. if truthy v then Inr (Some a) else find_active as)"

definition active_address :: "bridge_env \<Rightarrow> (bridge, pyval option) sres" where
  "active_address be =
     bind_s (client_request be ''GET'' ''/api/ms/users-address/addresses'' PNone) (\<lambda>data.
     lift_res (bind_res (py_get data ''addresses'' (PList [])) (\<lambda>v. bind_res (py_iter v) find_active)))"

definition get_carts :: "bridge_env \<Rightarrow> (bridge, pyval) sres" where
  "get_carts be =
     bind_s (client_request be ''POST'' ''/api/ms/shopping-cart/v1/all/get'' (PDict [])) (\<lambda>data.
     case data of PList xs \<Rightarrow> return_s data | _ \<Rightarrow> lift_res (py_get data ''carts'' (PList [])))"

text \<open>Both outcomes of the loop are the type that was asked for; only a cart that is no object makes it raise.\<close>

fun match_store_type :: "string \<Rightarrow> pyval list \<Rightarrow> string res" where
  "match_store_type preferred [] = Inr preferred"
| "match_store_type preferred (c # cs) =
     bind_res (py_get c ''store_type'' PNone) (\<lambda>v.
     if py_eq v (PStr preferred) then Inr preferred else match_store_type preferred cs)"

definition resolve_store_type :: "bridge_env \<Rightarrow> string \<Rightarrow> (bridge, string) sres" where
  "resolve_store_type be preferred =
     bind_s (get_carts be) (\<lambda>carts. lift_res (bind_res (py_iter carts) (match_store_type preferred)))"

definition recalculate :: "bridge_env \<Rightarrow> string \<Rightarrow> (bridge, pyval) sres" where
  "recalculate be store_type = client_request be ''POST'' (cart_path store_type ''/recalculate'') (PDict [])"

definition checkout_detail :: "bridge_env \<Rightarrow> string \<Rightarrow> (bridge, pyval) sres" where
  "checkout_detail be store_type = client_request be ''GET'' (cart_path store_type ''/checkout/detail'') PNone"

definition client_add_to_cart :: "bridge_env \<Rightarrow> string \<Rightarrow> pyval \<Rightarrow> (bridge, pyval) sres" where
  "client_add_to_cart be store_type payload =
     client_request be ''PUT'' (''/api/ms/shopping-cart/v2/'' @ store_type @ ''/store'') payload"

definition client_place_order :: "bridge_env \<Rightarrow> string \<Rightarrow> string \<Rightarrow> (bridge, pyval) sres" where
  "client_place_order be store_type return_key =
     client_request be ''POST'' (place_order_path store_type) (PDict [(''return_key'', PStr return_key)])"

definition get_payment_methods :: "bridge_env \<Rightarrow> string \<Rightarrow> (bridge, pyval) sres" where
  "get_payment_methods be store_type =
     client_request be ''GET'' ''/api/ms/payment-method/resolver/v6''
       (PDict [(''origin'', PStr ''CHECKOUT''), (''store_type'', PStr store_type), (''only-added-pm'', PStr ''true'')])"

definition set_payment_method :: "bridge_env \<Rightarrow> string \<Rightarrow> pyval \<Rightarrow> (bridge, pyval) sres" where
  "set_payment_method be store_type payload = client_request be ''PUT'' (cart_path store_type ''/payment-method'') payload"

subsection \<open>Payment methods\<close>

definition charge_data :: "pyval \<Rightarrow> pyval res" where
  "charge_data meth =
     bind_res (py_get meth ''metadata'' PNone) (\<lambda>metadata.
     bind_res (py_get (py_or metadata (PDict [])) ''charge_data'' PNone) (\<lambda>charge. Inr (py_or charge (PDict []))))"

definition method_is_cash :: "pyval \<Rightarrow> bool res" where
  "method_is_cash meth =
     bind_res (charge_data meth) (\<lambda>charge.
     bind_res (py_get meth ''id'' PNone) (\<lambda>mid.
     if py_eq mid (PStr ''cash'') then Inr True
     else bind_res (py_get charge ''payment_method'' PNone) (\<lambda>v. Inr (py_eq v (PStr ''cash'')))))"

definition method_needs_3ds :: "pyval \<Rightarrow> bool res" where
  "method_needs_3ds meth =
     bind_res (py_get meth ''tags'' PNone) (\<lambda>t1.
     bind_res (py_get meth ''payment_method_tags'' PNone) (\<lambda>more.
     bind_res (py_iter (py_or more (PList []))) (\<lambda>ts.
     bind_res (py_get meth ''metadata'' PNone) (\<lambda>metadata.
     bind_res (py_get (py_or metadata (PDict [])) ''charge_data'' (PDict [])) (\<lambda>charge.
     bind_res (py_get charge ''tags'' PNone) (\<lambda>t2.
     let tags = map lower_char (join_str '' '' (map py_str (filter truthy (t1 # ts @ [t2]))))
     in Inr (is_substring ''require_3ds'' tags \<or> is_substring ''3ds_by_fraud'' tags)))))))"

definition keep_entries :: "pydict \<Rightarrow> pydict" where
  "keep_entries m = filter (\<lambda>(k, v). v \<notin> {PNone, PStr [], PList []}) m"

definition charge_fields :: "string list" where
  "charge_fields =
     [''account_payment_id'', ''card_class'', ''card_type'', ''first_six_digits'', ''last_four_digits'', ''payment_method_token'',
      ''store_ids'', ''store_type'', ''threeds_reference_id'']"

definition more_charge_fields :: "string list" where
  "more_charge_fields =
     [''language'', ''tags'', ''online_payment'', ''payment_method'', ''payment_method_description'', ''payment_method_icon'',
      ''user_default_refund_payment_method'']"

definition build_payment_payload :: "pyval \<Rightarrow> pyval res" where
  "build_payment_payload meth =
     bind_res (charge_data meth) (\<lambda>c.
     bind_res (as_object c) (\<lambda>charge.
     bind_res (py_get meth ''id'' PNone) (\<lambda>mid.
     let field = (\<lambda>k. (k, dict_get_or charge k PNone));
         card = dict_get_or charge ''account_payment_id'' PNone
     in Inr (PDict (keep_entries
          ((if truthy card then [(''card'', PDict [(''card_reference'', card)])] else [])
           @ [(''payment_method_type'', mid),
              (''rappi_credit'', PDict [(''use_rappi_credit'', PBool False)]),
              (''rappi_pay'', PDict [(''use_rappi_pay'', PBool False), (''rappi_pay_method_active'', PBool False)]),
              (''charge_data'', PDict (keep_entries
                 (map field charge_fields
                  @ [(''selected_installments'', dict_get_or charge ''selected_installments'' (PStr ''1'')), (''user_id'', card)]
                  @ map field more_charge_fields
                  @ [(''origin_platform'', PStr ''web'')])))]))))))"

section \<open>Capture tokens\<close>

definition TOKEN_TYP :: string where
  "TOKEN_TYP = ''capture-token+jwt''"

definition mint_capture_token ::
  "jose_env \<Rightarrow> string \<Rightarrow> string option \<Rightarrow> string \<Rightarrow> string \<Rightarrow> pydict \<Rightarrow> string option \<Rightarrow> int \<Rightarrow> dec \<Rightarrow> bool \<Rightarrow> string res" where
  "mint_capture_token je purchase_id reservation_id amount cart_hash key kid ttl now dry_run =
     (let moment = dec_trunc now
      in sign_compact je
           [(''purchase_id'', PStr purchase_id), (''reservation_id'', opt_str reservation_id), (''amount'', PStr amount),
            (''cart_hash'', PStr cart_hash), (''dry_run'', PBool dry_run), (''iat'', PInt moment), (''exp'', PInt (moment + ttl))]
           key kid (Some TOKEN_TYP))"

definition keys_from_jwks :: "jose_env \<Rightarrow> pydict list \<Rightarrow> (string, pydict) dict res" where
  "keys_from_jwks je entries = fetched_keys je (with_kid entries) []"

definition keys_fallback :: "(bridge, (string, pydict) dict) sres" where
  "keys_fallback s = (if br_keys s \<noteq> [] then (Inr (br_keys s), s) else (Inl (BridgeError ApprovalInvalid), s))"

definition keep_keys :: "bridge_env \<Rightarrow> (string, pydict) dict \<Rightarrow> (bridge, (string, pydict) dict) sres" where
  "keep_keys be keys s = (Inr keys, s\<lparr>br_keys := keys, br_keys_time := be_stamp be\<rparr>)"

definition fetch_kernel_keys :: "bridge_env \<Rightarrow> (bridge, (string, pydict) dict) sres" where
  "fetch_kernel_keys be s =
     (if br_keys s \<noteq> [] \<and> dec_less (dec_sub (be_stamp be) (br_keys_time s)) (Dec 300 0) then (Inr (br_keys s), s)
      else case be_pem be of
             Some key \<Rightarrow> keep_keys be [(''v1'', key)] s
           | None \<Rightarrow>
               (case be_jwks be of
                  Inl _ \<Rightarrow> keys_fallback s
                | Inr entries \<Rightarrow>
                    (case keys_from_jwks (be_jose be) entries of
                       Inr keys \<Rightarrow> keep_keys be keys s
                     | Inl e \<Rightarrow> if is_ValueError e then keys_fallback s else (Inl e, s))))"

text \<open>\<^verbatim>\<open>isinstance(v, (int, float))\<close> and its value.\<close>

fun int_or_float :: "pyval \<Rightarrow> dec option" where
  "int_or_float (PBool b) = Some (Dec (if b then 1 else 0) 0)"
| "int_or_float (PInt i) = Some (Dec i 0)"
| "int_or_float (PFloat d r) = Some d"
| "int_or_float v = None"

definition token_header :: "jose_env \<Rightarrow> string \<Rightarrow> (pyval \<times> pyval) res" where
  "token_header je token =
     (case bind_res (peek_header je token) (\<lambda>h.
           bind_res (py_get h ''kid'' PNone) (\<lambda>kid. bind_res (py_get h ''typ'' PNone) (\<lambda>typ. Inr (kid, typ)))) of
        Inl _ \<Rightarrow> Inl (BridgeError ApprovalInvalid) | Inr x \<Rightarrow> Inr x)"

definition token_key :: "(string, pydict) dict \<Rightarrow> pyval \<Rightarrow> pydict res" where
  "token_key keys kid =
     (if truthy kid \<and> unhashable kid then Inl TypeError
      else case (if truthy kid then (case kid of PStr k \<Rightarrow> dict_get keys k | _ \<Rightarrow> None) else None) of
             None \<Rightarrow> Inl (BridgeError ApprovalInvalid) | Some key \<Rightarrow> Inr key)"

text \<open>The window of a token, with five seconds of clock skew.\<close>

definition token_window :: "dec \<Rightarrow> pydict \<Rightarrow> unit res" where
  "token_window moment claims =
     (case int_or_float (dict_get_or claims ''exp'' PNone) of
        None \<Rightarrow> Inl (BridgeError ApprovalExpired)
      | Some ex \<Rightarrow>
          if dec_less (dec_add ex (Dec 5 0)) moment then Inl (BridgeError ApprovalExpired)
          else (case int_or_float (dict_get_or claims ''iat'' PNone) of
                  None \<Rightarrow> Inl (BridgeError ApprovalInvalid)
                | Some iat \<Rightarrow> if dec_less (dec_add moment (Dec 5 0)) iat then Inl (BridgeError ApprovalInvalid) else Inr ()))"

definition token_bindings :: "string \<Rightarrow> string \<Rightarrow> string \<Rightarrow> bool \<Rightarrow> pydict \<Rightarrow> unit res" where
  "token_bindings purchase_id cart_hash amount dry_run claims =
     (if dict_get claims ''purchase_id'' \<noteq> Some (PStr purchase_id) then Inl (BridgeError ApprovalInvalid)
      else if dict_get claims ''cart_hash'' \<noteq> Some (PStr cart_hash) then Inl (BridgeError ApprovalInvalid)
      else bind_res (decimal_of (py_str (dict_get_or claims ''amount'' PNone))) (\<lambda>bound.
           bind_res (decimal_of amount) (\<lambda>expected.
           if \<not> dec_eq bound expected then Inl (BridgeError ApprovalInvalid)
           else if truthy (dict_get_or claims ''dry_run'' PNone) \<noteq> dry_run then Inl (BridgeError ApprovalInvalid)
           else Inr ())))"

definition verify_capture_token ::
  "jose_env \<Rightarrow> dec \<Rightarrow> string \<Rightarrow> (string, pydict) dict \<Rightarrow> string \<Rightarrow> string \<Rightarrow> string \<Rightarrow> bool \<Rightarrow> pydict res" where
  "verify_capture_token je moment token keys purchase_id cart_hash amount dry_run =
     bind_res (token_header je token) (\<lambda>(kid, typ).
     if \<not> py_eq typ (PStr TOKEN_TYP) then Inl (BridgeError ApprovalInvalid)
     else bind_res (token_key keys kid) (\<lambda>key.
          bind_res (case verify_compact je token key of Inl _ \<Rightarrow> Inl (BridgeError ApprovalInvalid) | Inr v \<Rightarrow> Inr v) (\<lambda>payload.
          bind_res (case payload of PDict m \<Rightarrow> Inr m | _ \<Rightarrow> Inl AttributeError) (\<lambda>claims.
          bind_res (token_window moment claims) (\<lambda>_.
          bind_res (token_bindings purchase_id cart_hash amount dry_run claims) (\<lambda>_.
          Inr claims))))))"

section \<open>The cart\<close>

function strip_zeros :: "int \<Rightarrow> int \<Rightarrow> dec" where
  "strip_zeros c e = (if c \<noteq> 0 \<and> c mod 10 = 0 then strip_zeros (c div 10) (e + 1) else Dec c e)"
  by pat_completeness auto
termination
  by (relation "measure (\<lambda>(c, e). nat \<bar>c\<bar>)") auto

declare strip_zeros.simps [simp del]

text \<open>\<^verbatim>\<open>normalize\<close>: rounded to the context, without trailing zeros.\<close>

definition dec_normalize :: "dec \<Rightarrow> dec" where
  "dec_normalize x = (let y = dec_fix x in strip_zeros (coeff y) (expo y))"

definition canonical_number :: "pyval \<Rightarrow> pyval res" where
  "canonical_number v =
     bind_res (decimal_of (py_str v)) (\<lambda>d. Inr (PStr (if coeff d = 0 then ''0'' else dec_format_f (dec_normalize d))))"

fun canonical_cart_value :: "pyval \<Rightarrow> pyval res"
  and canonical_cart_list :: "pyval list \<Rightarrow> pyval list res"
  and canonical_cart_dict :: "pydict \<Rightarrow> pydict res" where
  "canonical_cart_value PNone = Inr PNone"
| "canonical_cart_value (PStr s) = Inr (PStr s)"
| "canonical_cart_value (PBool b) = Inr (PBool b)"
| "canonical_cart_value (PInt i) = canonical_number (PInt i)"
| "canonical_cart_value (PFloat d r) = canonical_number (PFloat d r)"
| "canonical_cart_value (PDec d) = canonical_number (PDec d)"
| "canonical_cart_value (PTime t) = Inl (BridgeError ShopError)"
| "canonical_cart_value (PList xs) = bind_res (canonical_cart_list xs) (\<lambda>ys. Inr (PList ys))"
| "canonical_cart_value (PDict m) = bind_res (canonical_cart_dict m) (\<lambda>n. Inr (PDict n))"
| "canonical_cart_list [] = Inr []"
| "canonical_cart_list (x # xs) = bind_res (canonical_cart_value x) (\<lambda>y. bind_res (canonical_cart_list xs) (\<lambda>ys. Inr (y # ys)))"
| "canonical_cart_dict [] = Inr []"
| "canonical_cart_dict ((k, v) # m) = bind_res (canonical_cart_value v) (\<lambda>w. bind_res (canonical_cart_dict m) (\<lambda>n. Inr ((k, w) # n)))"

definition store_total :: "pyval \<Rightarrow> cents res" where
  "store_total store = bind_res (py_get store ''total'' (PStr ''0'')) (\<lambda>v. parse_money (py_str v))"

text \<open>The text that a cart hash binds.\<close>

definition cart_document :: "string \<Rightarrow> pyval \<Rightarrow> pyval res" where
  "cart_document store_type store =
     bind_res (py_get store ''id'' PNone) (\<lambda>sid.
     bind_res (py_get store ''products'' (PList [])) (\<lambda>ps.
     bind_res (canonical_cart_value ps) (\<lambda>products.
     bind_res (store_total store) (\<lambda>tot.
     Inr (PDict [(''store_type'', PStr store_type), (''store_id'', sid), (''products'', products), (''total'', PStr (dec_str (cents_dec tot)))])))))"

definition compute_cart_hash :: "(string \<Rightarrow> string) \<Rightarrow> string \<Rightarrow> pyval \<Rightarrow> string res" where
  "compute_cart_hash sha store_type store =
     bind_res (cart_document store_type store) (\<lambda>doc. bind_res (evidence_canonical_json doc) (\<lambda>t. Inr (sha t)))"

text \<open>\<^verbatim>\<open>(cart.get("stores") or [])\<close> and its first element.\<close>

definition cart_stores :: "pyval \<Rightarrow> pyval res" where
  "cart_stores cart = bind_res (py_get cart ''stores'' PNone) (\<lambda>v. Inr (py_or v (PList [])))"

definition first_of :: "pyval \<Rightarrow> pyval res" where
  "first_of v =
     (case v of
        PList (x # _) \<Rightarrow> Inr x
      | PList [] \<Rightarrow> Inl IndexError
      | PStr (c # _) \<Rightarrow> Inr (PStr [c])
      | PDict _ \<Rightarrow> Inl KeyError
      | _ \<Rightarrow> Inl TypeError)"

section \<open>Reading\<close>

definition when_enabled :: "bridge_env \<Rightarrow> (bridge, 'a) sres \<Rightarrow> (bridge, 'a) sres" where
  "when_enabled be m = (if bc_enabled (be_config be) then m else raise_s (BridgeError Disabled))"

definition order_status :: "string \<Rightarrow> bridge \<Rightarrow> bridge_order option" where
  "order_status idem_key s = dict_get (br_orders s) idem_key"

definition cart_line :: "string \<Rightarrow> string \<Rightarrow> string \<Rightarrow> int \<Rightarrow> int \<Rightarrow> pydict" where
  "cart_line store_id product_id name quantity price =
     (let composite = (if CHR ''_'' \<in> set product_id then product_id else store_id @ ''_'' @ product_id);
          raw = last (split_on (CHR ''_'') product_id);
          label = PStr (take 80 name)
      in [(''id'', PStr composite), (''product_id'', PInt (if raw \<noteq> [] \<and> list_all is_digit raw then int (digits_val raw) else 0)),
          (''name'', label), (''description'', label), (''comment'', PStr []), (''toppings'', PList []),
          (''units'', PInt (max 1 quantity)), (''price'', PInt price), (''real_price'', PInt price), (''markup_price'', PInt price),
          (''sale_type'', PStr ''U''), (''sale_type_origin'', PStr ''U''), (''unit_type'', PStr ''U''), (''category_id'', PInt 0),
          (''category_name'', PStr []), (''pum'', PStr ''0''), (''is_sponsored'', PBool False), (''ad_provider_metadata'', PStr []),
          (''in_stock'', PBool True)])"

definition add_to_cart :: "bridge_env \<Rightarrow> string \<Rightarrow> string \<Rightarrow> string \<Rightarrow> string \<Rightarrow> int \<Rightarrow> int \<Rightarrow> (bridge, pyval) sres" where
  "add_to_cart be store_type store_id product_id name quantity price =
     when_enabled be
       (bind_s (lift_res (int_of_str store_id)) (\<lambda>sid.
        client_add_to_cart be store_type
          (PList [PDict [(''id'', PInt sid), (''place_at'', PStr []), (''delivery_method'', PStr ''delivery''),
                         (''products'', PList [PDict (cart_line store_id product_id name quantity price)])]])))"

definition described_method :: "bridge_config \<Rightarrow> pyval \<Rightarrow> pyval res" where
  "described_method c meth =
     bind_res (case meth of PDict m \<Rightarrow> Inr m | _ \<Rightarrow> Inl AttributeError) (\<lambda>m.
     bind_res (method_is_cash meth) (\<lambda>cash.
     bind_res (method_needs_3ds meth) (\<lambda>three_ds.
     let selected = (case bc_payment_method_id c of
                       Some p \<Rightarrow> py_eq (dict_get_or m ''id'' PNone) (PStr p)
                     | None \<Rightarrow> truthy (dict_get_or m ''default'' PNone))
     in Inr (PDict (dict_set ''three_ds'' (PBool three_ds) (dict_set ''cash'' (PBool cash) (dict_set ''selected'' (PBool selected) m)))))))"

definition payment_methods :: "bridge_env \<Rightarrow> (bridge, pyval list) sres" where
  "payment_methods be =
     when_enabled be
       (bind_s (get_payment_methods be ''restaurant'') (\<lambda>methods.
        lift_res (bind_res (py_iter methods) (map_res (described_method (be_config be))))))"

definition address_id :: "pyval option \<Rightarrow> string option res" where
  "address_id address =
     (case address of
        Some a \<Rightarrow> if truthy a then bind_res (py_get a ''id'' PNone) (\<lambda>v. Inr (Some (py_str v))) else Inr None
      | None \<Rightarrow> Inr None)"

record bridge_quote =
  bq_quote_id :: string
  bq_store_type :: string
  bq_store_name :: pyval
  bq_currency :: string
  bq_total :: string
  bq_cart_hash :: string
  bq_items :: "pydict list"
  bq_delivery_address_id :: "string option"
  bq_return_key :: pyval
  bq_quoted_at :: string
  bq_expires_at :: string

text \<open>The price of one unit: a total divided by the number of units, which is at least one.\<close>

definition unit_amount :: "cents \<Rightarrow> int \<Rightarrow> cents res" where
  "unit_amount tot units =
     (let q = dec_div (cents_dec \<bar>tot\<bar>) (Dec (max units 1) 0)
      in dec_quantize_cent (Dec ((if tot < 0 then - 1 else 1) * coeff q) (expo q)))"

definition quoted_item :: "pyval \<Rightarrow> pydict res" where
  "quoted_item product =
     bind_res (py_get product ''product_id'' PNone) (\<lambda>p1.
     bind_res (py_get product ''id'' PNone) (\<lambda>p2.
     bind_res (py_get product ''name'' (PStr [])) (\<lambda>name.
     bind_res (py_get product ''units'' (PInt 1)) (\<lambda>u.
     bind_res (py_int u) (\<lambda>units.
     bind_res (store_total product) (\<lambda>tot.
     bind_res (unit_amount tot units) (\<lambda>each.
     Inr [(''sku'', PStr (py_str (py_or p1 p2))), (''title'', PStr (py_str name)), (''qty'', PInt units),
          (''unit_amount'', PStr (dec_str (cents_dec each)))])))))))"

definition bridge_quote_cart :: "bridge_env \<Rightarrow> string \<Rightarrow> bool \<Rightarrow> (bridge, bridge_quote) sres" where
  "bridge_quote_cart be store_type require_clean_cart =
     when_enabled be
       (bind_s (whoami be) (\<lambda>_.
        bind_s (get_carts be) (\<lambda>carts.
        bind_s (lift_res (if require_clean_cart then bind_res (py_iter carts) check_cart_clean else Inr ())) (\<lambda>_.
        bind_s (resolve_store_type be store_type) (\<lambda>resolved.
        bind_s (recalculate be resolved) (\<lambda>cart.
        bind_s (lift_res (cart_stores cart)) (\<lambda>stores.
        if \<not> truthy stores then raise_s (BridgeError ShopError)
        else
          bind_s (lift_res (first_of stores)) (\<lambda>store.
          bind_s (lift_res (bind_res (py_get store ''products'' (PList [])) (\<lambda>ps. bind_res (py_iter ps) (map_res quoted_item)))) (\<lambda>items.
          bind_s (lift_res (store_total store)) (\<lambda>tot.
          bind_s (checkout_detail be resolved) (\<lambda>detail.
          bind_s (lift_res (compute_cart_hash (be_sha_hex be) resolved store)) (\<lambda>cart_hash.
          bind_s (active_address be) (\<lambda>address.
          bind_s (lift_res (py_get store ''name'' PNone)) (\<lambda>name.
          bind_s (lift_res (address_id address)) (\<lambda>aid.
          bind_s (lift_res (py_get (py_or detail (PDict [])) ''return_key'' PNone)) (\<lambda>return_key.
          return_s
            \<lparr>bq_quote_id = ''rappi-quote-'' @ be_uuid be, bq_store_type = resolved, bq_store_name = name, bq_currency = ''COP'',
             bq_total = dec_str (cents_dec tot), bq_cart_hash = cart_hash, bq_items = items, bq_delivery_address_id = aid,
             bq_return_key = return_key, bq_quoted_at = isoformat (be_now be),
             bq_expires_at = isoformat (be_now be + seconds (bc_quote_ttl_s (be_config be)))\<rparr>))))))))))))))))"

section \<open>The guarded order\<close>

record order_request =
  oq_idem_key :: string
  oq_purchase_id :: string
  oq_amount :: string
  oq_cart_hash :: string
  oq_capture_token :: string
  oq_expected_address_id :: pyval
  oq_store_type :: string

text \<open>The claim: an order that ended well is answered again, one that was clicked is never clicked again.\<close>

definition order_claim :: "bridge_env \<Rightarrow> order_request \<Rightarrow> cents \<Rightarrow> (bridge, pydict option) sres" where
  "order_claim be rq agreed =
     bind_s (bridge_claim (oq_idem_key rq) (oq_purchase_id rq) (oq_cart_hash rq) (dec_str (cents_dec agreed))) (\<lambda>existing.
     case existing of
       None \<Rightarrow> return_s None
     | Some row \<Rightarrow>
         if bo_state row \<in> set TERMINAL_OK \<and> coalesce (bo_receipt row) (Some []) \<noteq> Some [] then return_s (bo_receipt row)
         else if bo_state row \<in> {CLICKED, UNCERTAIN} then raise_s (BridgeError UncertainState)
         else return_s None)"

definition bridge_checkpoint :: "order_request \<Rightarrow> string \<Rightarrow> (bridge, unit) sres" where
  "bridge_checkpoint rq state = bridge_transition (oq_idem_key rq) state None None None"

definition order_session :: "bridge_env \<Rightarrow> order_request \<Rightarrow> (bridge, unit) sres" where
  "order_session be rq = bind_s (whoami be) (\<lambda>_. bridge_checkpoint rq SESSION_OK)"

definition order_cart :: "bridge_env \<Rightarrow> order_request \<Rightarrow> (bridge, string \<times> pyval) sres" where
  "order_cart be rq =
     bind_s (resolve_store_type be (oq_store_type rq)) (\<lambda>resolved.
     bind_s (recalculate be resolved) (\<lambda>cart.
     bind_s (lift_res (cart_stores cart)) (\<lambda>stores.
     if \<not> truthy stores then raise_s (BridgeError PriceDrift)
     else
       bind_s (lift_res (first_of stores)) (\<lambda>store.
       bind_s (lift_res (store_total store)) (\<lambda>_.
       bind_s (lift_res (compute_cart_hash (be_sha_hex be) resolved store)) (\<lambda>current.
       if current \<noteq> oq_cart_hash rq then raise_s (BridgeError PriceDrift)
       else bind_s (bridge_checkpoint rq CART_OK) (\<lambda>_. return_s (resolved, store))))))))"

definition order_approval :: "bridge_env \<Rightarrow> order_request \<Rightarrow> cents \<Rightarrow> (bridge, pydict) sres" where
  "order_approval be rq agreed =
     bind_s (fetch_kernel_keys be) (\<lambda>keys.
     bind_s (lift_res (verify_capture_token (be_jose be) (be_stamp be) (oq_capture_token rq) keys (oq_purchase_id rq) (oq_cart_hash rq)
                         (dec_str (cents_dec agreed)) (bc_dry_run (be_config be)))) (\<lambda>claims.
     bind_s (bridge_checkpoint rq APPROVAL_VERIFIED) (\<lambda>_. return_s claims)))"

text \<open>The first element that satisfies a test which may raise.\<close>

fun find_res :: "('a \<Rightarrow> bool res) \<Rightarrow> 'a list \<Rightarrow> 'a option res" where
  "find_res p [] = Inr None"
| "find_res p (x # xs) = bind_res (p x) (\<lambda>b. if b then Inr (Some x) else find_res p xs)"

fun filter_res :: "('a \<Rightarrow> bool res) \<Rightarrow> 'a list \<Rightarrow> 'a list res" where
  "filter_res p [] = Inr []"
| "filter_res p (x # xs) = bind_res (p x) (\<lambda>b. bind_res (filter_res p xs) (\<lambda>ys. Inr (if b then x # ys else ys)))"

definition choose_method :: "bridge_config \<Rightarrow> pyval \<Rightarrow> pyval res" where
  "choose_method c methods =
     bind_res (py_iter methods) (\<lambda>ms.
     bind_res (filter_res (\<lambda>m. bind_res (py_get m ''available'' PNone) (\<lambda>v. Inr (v \<noteq> PBool False))) ms) (\<lambda>usable.
     bind_res (case or_str (bc_payment_method_id c) None of
                 Some p \<Rightarrow> find_res (\<lambda>m. bind_res (py_get m ''id'' PNone) (\<lambda>v. Inr (py_eq v (PStr p)))) usable
               | None \<Rightarrow>
                   bind_res (find_res (\<lambda>m. bind_res (py_get m ''default'' PNone) (\<lambda>v. Inr (truthy v))) usable) (\<lambda>found.
                   Inr (case found of Some m \<Rightarrow> Some m | None \<Rightarrow> (if usable = [] then None else Some (hd usable))))) (\<lambda>chosen.
     case chosen of
       None \<Rightarrow> Inl (BridgeError PaymentUnresolved)
     | Some m \<Rightarrow>
         bind_res (method_is_cash m) (\<lambda>cash.
         if cash \<and> \<not> bc_allow_cash c then Inl (BridgeError CashPaymentRefused) else Inr m))))"

definition method_label :: "pyval \<Rightarrow> string res" where
  "method_label m =
     bind_res (py_get m ''main_description'' PNone) (\<lambda>d. bind_res (py_get m ''id'' PNone) (\<lambda>i. Inr (py_str (py_or d i))))"

text \<open>The payment method is set first, since it can move the total; then the machine's own guards run.\<close>

definition order_arm :: "bridge_env \<Rightarrow> order_request \<Rightarrow> cents \<Rightarrow> string \<Rightarrow> pyval \<Rightarrow> (bridge, cents \<times> pyval) sres" where
  "order_arm be rq agreed resolved store =
     bind_s (get_payment_methods be resolved) (\<lambda>methods.
     bind_s (lift_res (choose_method (be_config be) methods)) (\<lambda>meth.
     bind_s (lift_res (method_label meth)) (\<lambda>label.
     bind_s (modify_s (\<lambda>s. s\<lparr>br_label := label\<rparr>)) (\<lambda>_.
     bind_s (lift_res (build_payment_payload meth)) (\<lambda>payload.
     bind_s (set_payment_method be resolved payload) (\<lambda>_.
     bind_s (recalculate be resolved) (\<lambda>_.
     bind_s (recalculate be resolved) (\<lambda>cart.
     bind_s (lift_res (bind_res (py_get cart ''stores'' PNone) (\<lambda>v. first_of (py_or v (PList [store]))))) (\<lambda>store.
     bind_s (lift_res (store_total store)) (\<lambda>tot.
     bind_s (lift_res (config_cap (be_config be))) (\<lambda>cap.
     bind_s (lift_res (check_cap tot cap)) (\<lambda>_.
     bind_s (checkout_detail be resolved) (\<lambda>detail.
     bind_s (lift_res (check_drift agreed tot)) (\<lambda>_.
     bind_s (active_address be) (\<lambda>address.
     bind_s (lift_res (bind_res (address_id address) (\<lambda>aid. check_address aid (oq_expected_address_id rq)))) (\<lambda>_.
     bind_s (bridge_checkpoint rq ARMED) (\<lambda>_.
     return_s (tot, detail))))))))))))))))))"

definition order_receipt :: "bridge_env \<Rightarrow> order_request \<Rightarrow> cents \<Rightarrow> string \<Rightarrow> string option \<Rightarrow> string \<Rightarrow> pydict" where
  "order_receipt be rq tot state order_id label =
     [(''state'', PStr state), (''dry_run'', PBool (bc_dry_run (be_config be))), (''order_id'', opt_str order_id),
      (''total_captured'', PStr (dec_str (cents_dec tot))), (''cart_hash'', PStr (oq_cart_hash rq)), (''purchase_id'', PStr (oq_purchase_id rq)),
      (''payment_method'', PStr label)]"

definition order_finish :: "bridge_env \<Rightarrow> order_request \<Rightarrow> cents \<Rightarrow> string \<Rightarrow> string option \<Rightarrow> (bridge, pydict) sres" where
  "order_finish be rq tot state order_id =
     bind_s (get_s br_label) (\<lambda>label.
     let r = order_receipt be rq tot state order_id label
     in bind_s (bridge_transition (oq_idem_key rq) state order_id (Some r) None) (\<lambda>_. return_s r))"

text \<open>One worker only walks from \<open>ARMED\<close> to \<open>CLICKED\<close>.\<close>

definition order_take :: "order_request \<Rightarrow> (bridge, unit) sres" where
  "order_take rq =
     try_s (bridge_transition (oq_idem_key rq) CLICKED None None (Some ARMED))
       (\<lambda>e. raise_s (if e = RuntimeError then BridgeError ExecutionConflict else e))"

definition return_key_of :: "pyval \<Rightarrow> string res" where
  "return_key_of detail = bind_res (py_get (py_or detail (PDict [])) ''return_key'' PNone) (\<lambda>v. Inr (py_str (py_or v (PStr []))))"

definition order_click :: "bridge_env \<Rightarrow> order_request \<Rightarrow> string \<Rightarrow> pyval \<Rightarrow> (bridge, pyval) sres" where
  "order_click be rq resolved detail =
     try_s (bind_s (lift_res (return_key_of detail)) (client_place_order be resolved))
       (\<lambda>e. if e = BridgeError MinAmountRejected
             then bind_s (bridge_transition (oq_idem_key rq) FAILED None None (Some CLICKED)) (\<lambda>_. raise_s e)
             else bind_s (bridge_transition (oq_idem_key rq) UNCERTAIN None None (Some CLICKED)) (\<lambda>_. raise_s (BridgeError UncertainState)))"

definition order_id_of :: "pyval \<Rightarrow> string option res" where
  "order_id_of result =
     (let obj = (case result of PList (x # _) \<Rightarrow> x | PDict m \<Rightarrow> result | _ \<Rightarrow> PDict []);
          obj = py_or obj (PDict [])
      in bind_res (py_get obj ''order_id'' PNone) (\<lambda>a.
         bind_res (py_get obj ''id'' PNone) (\<lambda>b.
         let oid = py_str (py_or (py_or a b) (PStr [])) in Inr (if oid = [] then None else Some oid))))"

text \<open>After the guards: a dry run ends here, a live order is taken, clicked and confirmed.\<close>

definition order_execute :: "bridge_env \<Rightarrow> order_request \<Rightarrow> string \<Rightarrow> pydict \<Rightarrow> cents \<Rightarrow> pyval \<Rightarrow> (bridge, pydict) sres" where
  "order_execute be rq resolved claims tot detail =
     (if bc_dry_run (be_config be) \<and> \<not> truthy (dict_get_or claims ''dry_run'' PNone) then raise_s (BridgeError Disabled)
      else if bc_dry_run (be_config be) then order_finish be rq tot DRY_RUN_CONFIRMED None
      else
        bind_s (order_take rq) (\<lambda>_.
        bind_s (order_click be rq resolved detail) (\<lambda>result.
        bind_s (lift_res (order_id_of result)) (\<lambda>oid. order_finish be rq tot CONFIRMED oid))))"

definition place_order :: "bridge_env \<Rightarrow> order_request \<Rightarrow> (bridge, pydict) sres" where
  "place_order be rq =
     when_enabled be
       (bind_s (lift_res (parse_money (oq_amount rq))) (\<lambda>agreed.
        bind_s (order_claim be rq agreed) (\<lambda>replay.
        case replay of
          Some r \<Rightarrow> return_s r
        | None \<Rightarrow>
            bind_s (order_session be rq) (\<lambda>_.
            bind_s (order_cart be rq) (\<lambda>(resolved, store).
            bind_s (order_approval be rq agreed) (\<lambda>claims.
            bind_s (order_arm be rq agreed resolved store) (\<lambda>(tot, detail).
            order_execute be rq resolved claims tot detail)))))))"

section \<open>Endpoints\<close>

text \<open>The shared secret of the machine, and the answer to a typed failure: its status and reason.\<close>

definition guard_token :: "bridge_config \<Rightarrow> string option \<Rightarrow> unit res" where
  "guard_token c authorization =
     (case or_str (bc_local_token c) None of
        Some t \<Rightarrow> if authorization \<noteq> Some (''Bearer '' @ t) then Inl (HttpError 401) else Inr ()
      | None \<Rightarrow> Inr ())"

definition bridge_answer :: "exn \<Rightarrow> int \<times> string" where
  "bridge_answer e = (case e of BridgeError b \<Rightarrow> (http_status b, br_reason b) | HttpError n \<Rightarrow> (n, []) | _ \<Rightarrow> (500, []))"

definition order_body :: "string \<Rightarrow> pydict \<Rightarrow> order_request" where
  "order_body idem_key body =
     (let field = (\<lambda>k d. py_str (dict_get_or body k (PStr d)))
      in \<lparr>oq_idem_key = idem_key, oq_purchase_id = field ''purchase_id'' [], oq_amount = field ''amount'' [],
          oq_cart_hash = field ''cart_hash'' [], oq_capture_token = field ''capture_token'' [],
          oq_expected_address_id = dict_get_or body ''expected_address_id'' PNone, oq_store_type = field ''store_type'' ''restaurant''\<rparr>)"

definition place_order_endpoint :: "bridge_env \<Rightarrow> string option \<Rightarrow> string option \<Rightarrow> pydict \<Rightarrow> (bridge, pydict) sres" where
  "place_order_endpoint be authorization idempotency_key body =
     bind_s (lift_res (guard_token (be_config be) authorization)) (\<lambda>_.
     case or_str idempotency_key None of
       None \<Rightarrow> raise_s (HttpError 400)
     | Some k \<Rightarrow> place_order be (order_body k body))"

definition cart_add_endpoint :: "bridge_env \<Rightarrow> string option \<Rightarrow> pydict \<Rightarrow> (bridge, pyval) sres" where
  "cart_add_endpoint be authorization body =
     bind_s (lift_res (guard_token (be_config be) authorization)) (\<lambda>_.
     bind_s (lift_res (py_int (dict_get_or body ''quantity'' (PInt 1)))) (\<lambda>quantity.
     bind_s (lift_res (py_int (dict_get_or body ''price'' (PInt 0)))) (\<lambda>price.
     let field = (\<lambda>k d. py_str (dict_get_or body k (PStr d)))
     in add_to_cart be (field ''store_type'' ''restaurant'') (field ''store_id'' []) (field ''product_id'' []) (field ''name'' []) quantity price)))"

definition quote_endpoint :: "bridge_env \<Rightarrow> string option \<Rightarrow> string \<Rightarrow> bool \<Rightarrow> (bridge, bridge_quote) sres" where
  "quote_endpoint be authorization store_type require_clean_cart =
     bind_s (lift_res (guard_token (be_config be) authorization)) (\<lambda>_. bridge_quote_cart be store_type require_clean_cart)"

definition order_status_endpoint :: "bridge_env \<Rightarrow> string option \<Rightarrow> string \<Rightarrow> (bridge, bridge_order) sres" where
  "order_status_endpoint be authorization idem_key =
     bind_s (lift_res (guard_token (be_config be) authorization)) (\<lambda>_.
     bind_s (get_s (order_status idem_key)) (\<lambda>row. case row of None \<Rightarrow> raise_s (HttpError 404) | Some r \<Rightarrow> return_s r))"

end
