(* ===== verification/Rappi_Port.thy ===== *)
theory Rappi_Port
  imports Rappi_Bridge
begin

text \<open>
  The agent's adapter to the bridge: \<^verbatim>\<open>RappiBridgeMcp\<close> of \<^verbatim>\<open>agent/ports/merchants_mcp.py\<close>, composed with the bridge's
  endpoints. The kernel hands it a minter of capture tokens; the state is the bridge with the agent's audit entries.
\<close>

record rappi_lane =
  rl_bridge :: bridge
  rl_audit :: "(string \<times> pydict) list"

text \<open>
  \<open>rp_token\<close> is the shared secret that the adapter sends, \<open>rp_lost\<close> holds when the answer to the order does not arrive,
  \<open>rp_at\<close> is the time of the receipt, and \<open>rp_text\<close> is the message of the exception that the adapter's request raises.
\<close>

record rappi_env =
  rp_bridge :: bridge_env
  rp_token :: string
  rp_lost :: bool
  rp_at :: string
  rp_text :: "exn \<Rightarrow> string"

record settle_result =
  sr_accepted :: bool
  sr_reason :: "string option"
  sr_receipt :: pydict

definition not_accepted :: "string option \<Rightarrow> settle_result" where
  "not_accepted reason = \<lparr>sr_accepted = False, sr_reason = reason, sr_receipt = []\<rparr>"

definition port_headers :: "rappi_env \<Rightarrow> string option" where
  "port_headers re = (if rp_token re = [] then None else Some (''Bearer '' @ rp_token re))"

text \<open>A request to the bridge: an error status becomes \<^verbatim>\<open>RuntimeError\<close>; for the order, whose error is read, it is kept.\<close>

definition on_bridge :: "(bridge, 'a) sres \<Rightarrow> (rappi_lane, 'a) sres" where
  "on_bridge m s = (case m (rl_bridge s) of (r, b) \<Rightarrow> (r, s\<lparr>rl_bridge := b\<rparr>))"

definition port_post :: "(bridge, 'a) sres \<Rightarrow> (rappi_lane, 'a) sres" where
  "port_post m = on_bridge (try_s m (\<lambda>_. raise_s RuntimeError))"

text \<open>The number of units that reaches the store's minimum.\<close>

definition order_quantity :: "int \<Rightarrow> int" where
  "order_quantity unit_price =
     (if 0 < unit_price \<and> unit_price < 38000 then max 1 ((38000 + unit_price - 1) div unit_price) else 1)"

definition order_failure :: "rappi_env \<Rightarrow> exn \<Rightarrow> settle_result" where
  "order_failure re e =
     (let text' = rp_text re e
      in if is_substring ''min_amount'' (map lower_char text') \<or> is_substring (CHR ''m'' # CHR 0xED # ''nimo'') (map lower_char text')
            \<or> is_substring ''402'' text'
         then not_accepted (Some ''MERCHANT_MIN_AMOUNT'') else not_accepted (Some ''RAIL_ERROR''))"

definition port_order :: "rappi_env \<Rightarrow> string \<Rightarrow> string \<Rightarrow> bridge_quote \<Rightarrow> string \<Rightarrow> (bridge, pydict) sres" where
  "port_order re jti store_type q token b =
     (case place_order_endpoint (rp_bridge re) (port_headers re) (Some (''rappi-'' @ jti))
             [(''purchase_id'', PStr jti), (''amount'', PStr (bq_total q)), (''cart_hash'', PStr (bq_cart_hash q)),
              (''capture_token'', PStr token), (''expected_address_id'', opt_str (bq_delivery_address_id q)), (''store_type'', PStr store_type)] b of
        (r, b') \<Rightarrow> (if rp_lost re then Inl RuntimeError else r, b'))"

definition accepted_order :: "rappi_env \<Rightarrow> pydict \<Rightarrow> string \<Rightarrow> string \<Rightarrow> pydict \<Rightarrow> pyval \<Rightarrow> string \<Rightarrow> (rappi_lane, settle_result) sres" where
  "accepted_order re receipt state tot offer amount mandate_jti =
     (let order_id = dict_get_or receipt ''order_id'' PNone
      in bind_s (lift_res (case dict_get offer ''offer_id'' of Some v \<Rightarrow> Inr v | None \<Rightarrow> Inl KeyError)) (\<lambda>offer_id.
         bind_s (modify_s (\<lambda>s. s\<lparr>rl_audit := rl_audit s @ [(''merchant.settled'',
             [(''merchant_id'', PStr ''rappi''), (''offer_id'', offer_id), (''order_id'', order_id), (''state'', PStr state),
              (''approved_offer_amount'', amount), (''total_captured'', dict_get_or receipt ''total_captured'' PNone)])]\<rparr>)) (\<lambda>_.
         return_s \<lparr>sr_accepted = True, sr_reason = None, sr_receipt =
           [(''receipt_id'', PStr (py_str (py_or order_id (PStr state)))), (''merchant_id'', PStr ''rappi''), (''offer_id'', offer_id),
            (''title'', dict_get_or offer ''title'' (PStr [])), (''amount'', PStr (py_str (dict_get_or receipt ''total_captured'' (PStr tot)))),
            (''currency'', PStr ''COP''), (''mandate_jti'', PStr mandate_jti), (''capture_id'', PStr (py_str (py_or order_id (PStr [])))),
            (''at'', PStr (rp_at re)), (''images'', dict_get_or offer ''images'' (PList []))]\<rparr>)))"

text \<open>
  \<^verbatim>\<open>settle\<close>: the cart is replaced by the product, quoted, and ordered under the intent's key with a token for the quoted total.
  \<open>live\<close> is the kernel's answer about the mandate, \<open>jti\<close> and \<open>amount\<close> are those of the intent, and \<open>mint\<close> its minter.
\<close>

definition rappi_settle ::
  "rappi_env \<Rightarrow> string \<times> string option \<Rightarrow> pydict \<Rightarrow> string \<Rightarrow> pyval \<Rightarrow> string \<Rightarrow> (string \<Rightarrow> string \<Rightarrow> string res) option \<Rightarrow> (rappi_lane, settle_result) sres" where
  "rappi_settle re live offer jti amount mandate_jti mint =
     (if fst live \<noteq> ''APPROVED'' then return_s (not_accepted (snd live))
      else case mint of
        None \<Rightarrow> return_s (not_accepted (Some ''CAPTURE_PENDING''))
      | Some capture \<Rightarrow>
          bind_s (lift_res (as_object (py_or (dict_get_or offer ''native'' PNone) (PDict [])))) (\<lambda>native.
          let store_id = dict_get_or native ''store_id'' PNone; product_id = dict_get_or native ''product_id'' PNone
          in if \<not> (truthy store_id \<and> truthy product_id) then return_s (not_accepted (Some ''RAIL_ERROR''))
             else
               let store_type = py_str (py_or (dict_get_or native ''store_type'' PNone) (PStr ''turbo''))
               in bind_s (lift_res (py_int (py_or (dict_get_or native ''product_price'' PNone) (PInt 0)))) (\<lambda>unit_price.
                  bind_s (port_post (cart_add_endpoint (rp_bridge re) (port_headers re)
                      [(''store_type'', PStr store_type), (''store_id'', store_id), (''product_id'', product_id),
                       (''name'', py_or (dict_get_or native ''product_name'' PNone) (dict_get_or offer ''title'' (PStr ''producto''))),
                       (''price'', PInt unit_price), (''quantity'', PInt (order_quantity unit_price))])) (\<lambda>_.
                  bind_s (port_post (quote_endpoint (rp_bridge re) (port_headers re) store_type False)) (\<lambda>q.
                  if bq_total q = [] \<or> bq_cart_hash q = [] then return_s (not_accepted (Some ''RAIL_ERROR''))
                  else
                    either_s
                      (bind_s (lift_res (capture (bq_total q) (bq_cart_hash q))) (\<lambda>token.
                       on_bridge (port_order re jti store_type q token)))
                      (\<lambda>e. return_s (order_failure re e))
                      (\<lambda>receipt.
                       let state = py_str (dict_get_or receipt ''state'' (PStr []))
                       in if state \<notin> {CONFIRMED, DRY_RUN_CONFIRMED} then return_s (not_accepted (Some ''RAIL_ERROR''))
                          else accepted_order re receipt state (bq_total q) offer amount mandate_jti))))))"

text \<open>The kernel's minter, as \<^verbatim>\<open>_charge\<close> builds it: it signs the total and the cart that the adapter names.\<close>

definition kernel_minter :: "jose_env \<Rightarrow> key_store \<Rightarrow> dec \<Rightarrow> bool \<Rightarrow> string \<Rightarrow> string option \<Rightarrow> string \<Rightarrow> string \<Rightarrow> string res" where
  "kernel_minter je ks now dry_run jti reservation_id amount cart_hash =
     mint_capture_token je jti reservation_id amount cart_hash (sk_key (ks_issuer ks)) (Some (sk_kid (ks_issuer ks))) 120 now dry_run"

end
