(* ===== verification/Rappi_Props.thy ===== *)
theory Rappi_Props
  imports Rappi_Port Jose_Props
begin

text \<open>
  Properties of the guarded order: what a paying click rests on, that orders served one after the other click once per
  key, what interleaved orders do, and what the kernel's tokens unlock.
\<close>

section \<open>Views that an operation leaves alone\<close>

definition same :: "('s \<Rightarrow> 'v) \<Rightarrow> ('s, 'a) sres \<Rightarrow> bool" where
  "same view m \<longleftrightarrow> (\<forall>s. view (snd (m s)) = view s)"

named_theorems same_rules \<open>operations that leave a view alone\<close>

lemma sameD: "same view m \<Longrightarrow> m s = (r, s') \<Longrightarrow> view s' = view s"
  by (metis same_def snd_conv)

lemma same_base [same_rules]: "same view (return_s x)" "same view (raise_s e)" "same view (lift_res r)" "same view (get_s f)"
  by (simp_all add: same_def sres_defs)

lemma same_bind [same_rules]: "same view m \<Longrightarrow> (\<And>x. same view (f x)) \<Longrightarrow> same view (bind_s m f)"
  unfolding same_def
proof
  fix s
  assume a: "\<forall>s. view (snd (m s)) = view s" "\<And>x. \<forall>s. view (snd (f x s)) = view s"
  obtain r s1 where m: "m s = (r, s1)" by (cases "m s")
  then have "view s1 = view s" using a(1) by (metis snd_conv)
  then show "view (snd (bind_s m f s)) = view s" using a(2) m by (cases r) (simp_all add: bind_s_def)
qed

lemma same_try [same_rules]: "same view m \<Longrightarrow> (\<And>e. same view (h e)) \<Longrightarrow> same view (try_s m h)"
  unfolding same_def
proof
  fix s
  assume a: "\<forall>s. view (snd (m s)) = view s" "\<And>e. \<forall>s. view (snd (h e s)) = view s"
  obtain r s1 where m: "m s = (r, s1)" by (cases "m s")
  then have "view s1 = view s" using a(1) by (metis snd_conv)
  then show "view (snd (try_s m h s)) = view s" using a(2) m by (cases r) (simp_all add: try_s_def)
qed

lemma same_if [same_rules]: "same view m \<Longrightarrow> same view n \<Longrightarrow> same view (if b then m else n)"
  by simp

lemma same_cases [same_rules]:
  "same view m \<Longrightarrow> (\<And>x. same view (f x)) \<Longrightarrow> same view (case v of None \<Rightarrow> m | Some x \<Rightarrow> f x)"
  "(\<And>a b. same view (g a b)) \<Longrightarrow> same view (case p of (a, b) \<Rightarrow> g a b)"
  by (simp_all split: option.split prod.split)

text \<open>An operation that changed the view has passed every part that leaves it alone.\<close>

lemma same_peel:
  assumes "bind_s m f s = (r, s')" "same view m" "view s' \<noteq> view s"
  obtains x s1 where "m s = (Inr x, s1)" "f x s1 = (r, s')" "view s' \<noteq> view s1"
proof (cases "m s")
  case (Pair r1 s1)
  have "view s1 = view s" using sameD [OF assms(2) Pair] .
  then show ?thesis using that assms Pair by (cases r1) (auto simp: bind_s_def)
qed

section \<open>Clicks\<close>

definition is_click :: "http_call \<Rightarrow> bool" where
  "is_click c \<longleftrightarrow> (case c of (meth, path, body) \<Rightarrow> meth = ''POST'' \<and> take 28 path = ''/api/ms/shopping-cart-proxy/'')"

definition clicks :: "bridge \<Rightarrow> nat" where
  "clicks s = length (filter is_click (br_sent s))"

text \<open>The orders under other keys.\<close>

definition others :: "string \<Rightarrow> bridge \<Rightarrow> string \<Rightarrow> bridge_order option" where
  "others k s = (\<lambda>k'. if k' = k then None else dict_get (br_orders s) k')"

lemma others_get: "others k s' = others k s \<Longrightarrow> k' \<noteq> k \<Longrightarrow> dict_get (br_orders s') k' = dict_get (br_orders s) k'"
  unfolding others_def by metis

lemma request_clicks: "\<not> is_click (m, p, b) \<Longrightarrow> same clicks (client_request be m p b)"
  by (auto simp: same_def client_request_def clicks_def Let_def split: sum.splits)

lemma request_others [same_rules]: "same (others k) (client_request be m p b)"
  by (auto simp: same_def client_request_def others_def Let_def split: sum.splits)

lemma is_click_simps [simp]:
  "\<not> is_click (''GET'', p, b)" "\<not> is_click (''PUT'', p, b)" "\<not> is_click (''POST'', cart_path st t, b)"
  "\<not> is_click (''POST'', ''/api/ms/shopping-cart/v1/all/get'', b)" "is_click (''POST'', place_order_path st, b)"
  by (simp_all add: is_click_def cart_path_def place_order_path_def)

lemma client_calm [same_rules]:
  "same clicks (whoami be)" "same clicks (active_address be)" "same clicks (get_carts be)" "same clicks (resolve_store_type be st)"
  "same clicks (recalculate be st)" "same clicks (checkout_detail be st)" "same clicks (get_payment_methods be st)"
  "same clicks (set_payment_method be st v)"
  unfolding whoami_def active_address_def get_carts_def resolve_store_type_def recalculate_def checkout_detail_def get_payment_methods_def
    set_payment_method_def
  by (auto intro!: same_rules request_clicks split: pyval.splits)

lemma client_local [same_rules]:
  "same (others k) (whoami be)" "same (others k) (active_address be)" "same (others k) (get_carts be)"
  "same (others k) (resolve_store_type be st)" "same (others k) (recalculate be st)" "same (others k) (checkout_detail be st)"
  "same (others k) (get_payment_methods be st)" "same (others k) (set_payment_method be st v)"
  "same (others k) (client_place_order be st rk)"
  unfolding whoami_def active_address_def get_carts_def resolve_store_type_def recalculate_def checkout_detail_def get_payment_methods_def
    set_payment_method_def client_place_order_def
  by (auto intro!: same_rules split: pyval.splits)

lemma table_calm [same_rules]:
  "same clicks (bridge_claim k p c a)" "same clicks (bridge_transition k st oid r ex)" "same clicks (modify_s (\<lambda>s. s\<lparr>br_label := l\<rparr>))"
  "same clicks (fetch_kernel_keys be)"
  by (auto simp: same_def bridge_claim_def bridge_transition_def clicks_def sres_defs fetch_kernel_keys_def keep_keys_def keys_fallback_def
      split: option.splits sum.splits)

lemma table_local [same_rules]:
  "same (others k) (bridge_claim k p c a)" "same (others k) (bridge_transition k st oid r ex)"
  "same (others k) (modify_s (\<lambda>s. s\<lparr>br_label := l\<rparr>))" "same (others k) (fetch_kernel_keys be)"
  by (auto simp: same_def bridge_claim_def bridge_transition_def others_def sres_defs fetch_kernel_keys_def keep_keys_def keys_fallback_def
      split: option.splits sum.splits)

lemmas stage_defs = order_claim_def order_session_def order_cart_def order_approval_def order_arm_def bridge_checkpoint_def order_take_def order_finish_def

lemma stage_calm [same_rules]:
  "same clicks (order_claim be rq a)" "same clicks (order_session be rq)" "same clicks (order_cart be rq)" "same clicks (order_approval be rq a)"
  "same clicks (order_arm be rq a st store)" "same clicks (order_take rq)" "same clicks (order_finish be rq t state oid)"
  unfolding stage_defs Let_def by (intro same_rules)+

lemma stage_local [same_rules]:
  "same (others (oq_idem_key rq)) (order_claim be rq a)" "same (others (oq_idem_key rq)) (order_session be rq)"
  "same (others (oq_idem_key rq)) (order_cart be rq)" "same (others (oq_idem_key rq)) (order_approval be rq a)"
  "same (others (oq_idem_key rq)) (order_arm be rq a st store)" "same (others (oq_idem_key rq)) (order_take rq)"
  "same (others (oq_idem_key rq)) (order_finish be rq t state oid)" "same (others (oq_idem_key rq)) (order_click be rq st d)"
  unfolding stage_defs order_click_def Let_def by (intro same_rules)+

lemma place_order_local: "same (others (oq_idem_key rq)) (place_order be rq)"
  unfolding place_order_def when_enabled_def order_execute_def by (intro same_rules)+

section \<open>Orders one after the other\<close>

text \<open>An order whose key is settled: clicked and not known to have failed, or ended well.\<close>

definition settled :: "string \<Rightarrow> bridge \<Rightarrow> bool" where
  "settled k s \<longleftrightarrow> (\<exists>row. dict_get (br_orders s) k = Some row \<and>
     (bo_state row \<in> {CLICKED, UNCERTAIN} \<or> bo_state row \<in> set TERMINAL_OK \<and> coalesce (bo_receipt row) (Some []) \<noteq> Some []))"

definition row_in :: "string \<Rightarrow> string set \<Rightarrow> bridge \<Rightarrow> bool" where
  "row_in k states s \<longleftrightarrow> (\<exists>row. dict_get (br_orders s) k = Some row \<and> bo_state row \<in> states)"

lemma settled_order_stops:
  assumes "settled (oq_idem_key rq) s" "place_order be rq s = (r, s')"
  shows "s' = s"
proof -
  from assms(1) obtain row where row: "dict_get (br_orders s) (oq_idem_key rq) = Some row" and
    st: "bo_state row \<in> {CLICKED, UNCERTAIN} \<or> bo_state row \<in> set TERMINAL_OK \<and> coalesce (bo_receipt row) (Some []) \<noteq> Some []"
    unfolding settled_def by blast
  have "\<exists>v. order_claim be rq a s = (v, s) \<and> (v = Inl (BridgeError UncertainState) \<or> (\<exists>x. v = Inr (Some x)))" for a
    using row st by (auto simp: order_claim_def bridge_claim_def bind_s_def sres_defs coalesce_def TERMINAL_OK_def split: option.splits)
  note claim = this
  have "snd (place_order be rq s) = s"
  proof (cases "parse_money (oq_amount rq)")
    case (Inl e)
    then show ?thesis by (simp add: place_order_def when_enabled_def bind_s_def sres_defs)
  next
    case (Inr b)
    from claim [of b] obtain v where "order_claim be rq b s = (v, s)" "v = Inl (BridgeError UncertainState) \<or> (\<exists>x. v = Inr (Some x))" by blast
    then show ?thesis by (auto simp: place_order_def when_enabled_def bind_s_def sres_defs Inr)
  qed
  then show ?thesis using assms(2) by simp
qed

lemma take_row: "order_take rq s = (Inr (), s') \<Longrightarrow> row_in (oq_idem_key rq) {CLICKED} s'"
  by (auto simp: order_take_def try_s_def bridge_transition_def row_in_def raise_s_def split: option.splits if_splits prod.splits sum.splits)

lemma moved_row:
  "row_in k {st} s \<Longrightarrow> bridge_transition k st' oid rc (Some st) s = (r, s') \<Longrightarrow> r = Inr () \<and> row_in k {st'} s' \<and> clicks s' = clicks s"
  by (auto simp: bridge_transition_def row_in_def clicks_def)

lemma click_row:
  assumes "row_in (oq_idem_key rq) {CLICKED} s" "order_click be rq st d s = (r, s')"
  shows "row_in (oq_idem_key rq) (if r = Inl (BridgeError MinAmountRejected) then {FAILED} else {CLICKED, UNCERTAIN}) s'"
    and "clicks s \<le> clicks s'" "clicks s' \<le> Suc (clicks s)"
proof -
  let ?m = "bind_s (lift_res (return_key_of d)) (client_place_order be st)"
  obtain v s1 where m: "?m s = (v, s1)" by (cases "?m s")
  have s1: "br_orders s1 = br_orders s" "clicks s \<le> clicks s1" "clicks s1 \<le> Suc (clicks s)"
    using m by (auto simp: bind_s_def lift_res_def client_place_order_def client_request_def clicks_def Let_def split: sum.splits)
  have row: "row_in (oq_idem_key rq) {CLICKED} s1" using assms(1) s1(1) by (simp add: row_in_def)
  show "row_in (oq_idem_key rq) (if r = Inl (BridgeError MinAmountRejected) then {FAILED} else {CLICKED, UNCERTAIN}) s'"
    "clicks s \<le> clicks s'" "clicks s' \<le> Suc (clicks s)"
    using assms(2) m row s1(2,3) unfolding order_click_def
    by (auto simp: try_s_def bind_s_def raise_s_def row_in_def dest: moved_row split: sum.splits prod.splits if_splits)
       (auto simp: bridge_transition_def clicks_def split: option.splits if_splits)
qed

lemma finish_settles:
  "order_finish be rq t CONFIRMED oid s = (r, s') \<Longrightarrow> row_in (oq_idem_key rq) A s \<Longrightarrow> settled (oq_idem_key rq) s'"
  by (auto simp: order_finish_def bridge_transition_def order_receipt_def settled_def row_in_def coalesce_def TERMINAL_OK_def bind_s_def sres_defs
      Let_def split: option.splits if_splits)

lemma in_click_settled: "row_in k {CLICKED, UNCERTAIN} s \<Longrightarrow> settled k s"
  by (auto simp: row_in_def settled_def)

lemma execute_clicks:
  assumes "order_execute be rq st claims t d s = (r, s')" "clicks s' \<noteq> clicks s"
  shows "clicks s' = Suc (clicks s)" "r = Inl (BridgeError MinAmountRejected) \<or> settled (oq_idem_key rq) s'" "\<not> bc_dry_run (be_config be)"
proof -
  show live: "\<not> bc_dry_run (be_config be)"
    using assms sameD [OF stage_calm(7)] by (auto simp: order_execute_def raise_s_def split: if_splits)
  from assms(1) live have
    run: "bind_s (order_take rq) (\<lambda>_. bind_s (order_click be rq st d) (\<lambda>result.
            bind_s (lift_res (order_id_of result)) (\<lambda>oid. order_finish be rq t CONFIRMED oid))) s = (r, s')"
    by (simp add: order_execute_def)
  obtain s1 where take: "order_take rq s = (Inr (), s1)" and
    rest: "bind_s (order_click be rq st d) (\<lambda>result. bind_s (lift_res (order_id_of result)) (\<lambda>oid. order_finish be rq t CONFIRMED oid)) s1 = (r, s')"
    by (rule same_peel [OF run stage_calm(6) assms(2)]) auto
  have c1: "clicks s1 = clicks s" using sameD [OF stage_calm(6) take] .
  obtain v s2 where click: "order_click be rq st d s1 = (v, s2)" by (cases "order_click be rq st d s1")
  note row = click_row [OF take_row [OF take] click]
  show "r = Inl (BridgeError MinAmountRejected) \<or> settled (oq_idem_key rq) s'"
  proof (cases v)
    case (Inl e)
    then have "r = Inl e" "s' = s2" using rest click by (simp_all add: bind_s_def)
    then show ?thesis using row(1) Inl in_click_settled by (auto split: if_splits)
  next
    case (Inr result)
    have "row_in (oq_idem_key rq) {CLICKED, UNCERTAIN} s2" using row(1) Inr by simp
    then show ?thesis
      using rest click Inr finish_settles in_click_settled
      by (cases "order_id_of result") (auto simp: bind_s_def lift_res_def)
  qed
  have "same clicks (bind_s (lift_res (order_id_of result)) (\<lambda>oid. order_finish be rq t CONFIRMED oid))" for result by (intro same_rules)
  note tail = sameD [OF this]
  have "clicks s' = clicks s2"
  proof (cases v)
    case (Inl e)
    then show ?thesis using rest click by (simp add: bind_s_def)
  next
    case (Inr result)
    from rest [unfolded bind_s_eq [where m = "order_click be rq st d", OF click [unfolded Inr]]] show ?thesis by (rule tail)
  qed
  then show "clicks s' = Suc (clicks s)" using row(2,3) c1 assms(2) by simp
qed

text \<open>A call that clicked has passed every stage before the click.\<close>

lemma place_order_passes:
  assumes "place_order be rq s = (r, s')" "clicks s' \<noteq> clicks s"
  obtains agreed s1 s2 resolved store s3 claims s4 tot detail s5 where
    "bc_enabled (be_config be)" "parse_money (oq_amount rq) = Inr agreed" "order_cart be rq s2 = (Inr (resolved, store), s3)"
    "order_approval be rq agreed s3 = (Inr claims, s4)" "order_arm be rq agreed resolved store s4 = (Inr (tot, detail), s5)"
    "order_execute be rq resolved claims tot detail s5 = (r, s')" "clicks s5 = clicks s" "clicks s' \<noteq> clicks s5"
proof -
  have on: "bc_enabled (be_config be)" using assms by (auto simp: place_order_def when_enabled_def raise_s_def split: if_splits)
  note run = assms(1) [unfolded place_order_def when_enabled_def if_P [OF on]]
  obtain agreed sa where a: "lift_res (parse_money (oq_amount rq)) s = (Inr agreed, sa)" and r1: "(bind_s (order_claim be rq agreed) (\<lambda>replay.
        case replay of Some r \<Rightarrow> return_s r | None \<Rightarrow>
            bind_s (order_session be rq) (\<lambda>_. bind_s (order_cart be rq) (\<lambda>(resolved, store).
            bind_s (order_approval be rq agreed) (\<lambda>claims. bind_s (order_arm be rq agreed resolved store) (\<lambda>(tot, detail).
            order_execute be rq resolved claims tot detail)))))) sa = (r, s')" and na: "clicks s' \<noteq> clicks sa"
    by (rule same_peel [OF run same_base(3) assms(2)])
  have sa: "sa = s" "parse_money (oq_amount rq) = Inr agreed" using a by (simp_all add: lift_res_def)
  obtain replay s1 where c: "order_claim be rq agreed sa = (Inr replay, s1)" and r2: "(case replay of Some r \<Rightarrow> return_s r | None \<Rightarrow>
            bind_s (order_session be rq) (\<lambda>_. bind_s (order_cart be rq) (\<lambda>(resolved, store).
            bind_s (order_approval be rq agreed) (\<lambda>claims. bind_s (order_arm be rq agreed resolved store) (\<lambda>(tot, detail).
            order_execute be rq resolved claims tot detail))))) s1 = (r, s')" and n1: "clicks s' \<noteq> clicks s1"
    by (rule same_peel [OF r1 stage_calm(1) na])
  have "replay = None" using r2 n1 by (cases replay) (simp_all add: return_s_def)
  note r3 = r2 [unfolded this option.case]
  obtain s2 where b: "order_session be rq s1 = (Inr (), s2)" and r4: "bind_s (order_cart be rq) (\<lambda>(resolved, store).
            bind_s (order_approval be rq agreed) (\<lambda>claims. bind_s (order_arm be rq agreed resolved store) (\<lambda>(tot, detail).
            order_execute be rq resolved claims tot detail))) s2 = (r, s')" and n2: "clicks s' \<noteq> clicks s2"
    by (rule same_peel [OF r3 stage_calm(2) n1]) simp
  obtain resolved store s3 where d: "order_cart be rq s2 = (Inr (resolved, store), s3)" and
    r5: "bind_s (order_approval be rq agreed) (\<lambda>claims. bind_s (order_arm be rq agreed resolved store) (\<lambda>(tot, detail).
            order_execute be rq resolved claims tot detail)) s3 = (r, s')" and n3: "clicks s' \<noteq> clicks s3"
    by (rule same_peel [OF r4 stage_calm(3) n2]) auto
  obtain claims s4 where e: "order_approval be rq agreed s3 = (Inr claims, s4)" and
    r6: "bind_s (order_arm be rq agreed resolved store) (\<lambda>(tot, detail). order_execute be rq resolved claims tot detail) s4 = (r, s')" and
    n4: "clicks s' \<noteq> clicks s4"
    by (rule same_peel [OF r5 stage_calm(4) n3])
  obtain tot detail s5 where f: "order_arm be rq agreed resolved store s4 = (Inr (tot, detail), s5)" and
    r7: "order_execute be rq resolved claims tot detail s5 = (r, s')" and n5: "clicks s' \<noteq> clicks s5"
    by (rule same_peel [OF r6 stage_calm(5) n4]) auto
  have "clicks s5 = clicks s"
    using sa(1) sameD [OF stage_calm(1) c] sameD [OF stage_calm(2) b] sameD [OF stage_calm(3) d] sameD [OF stage_calm(4) e] sameD [OF stage_calm(5) f]
    by simp
  then show ?thesis using that on sa(2) d e f r7 n5 by blast
qed

lemma place_order_clicks:
  assumes "place_order be rq s = (r, s')" "clicks s' \<noteq> clicks s"
  shows "clicks s' = Suc (clicks s)" "r = Inl (BridgeError MinAmountRejected) \<or> settled (oq_idem_key rq) s'"
proof -
  obtain resolved claims tot detail s5 where e: "order_execute be rq resolved claims tot detail s5 = (r, s')" and
    c: "clicks s5 = clicks s" "clicks s' \<noteq> clicks s5"
    by (rule place_order_passes [OF assms])
  show "clicks s' = Suc (clicks s)" "r = Inl (BridgeError MinAmountRejected) \<or> settled (oq_idem_key rq) s'"
    using execute_clicks(1,2) [OF e c(2)] c(1) by simp_all
qed

lemma settled_stays:
  assumes "settled k s" "place_order be rq s = (r, s')"
  shows "settled k s'"
proof (cases "oq_idem_key rq = k")
  case True
  then have "s' = s" using settled_order_stops [OF _ assms(2)] assms(1) by simp
  then show ?thesis using assms(1) by simp
next
  case False
  have "dict_get (br_orders s') k = dict_get (br_orders s) k"
    by (rule others_get [OF sameD [OF place_order_local assms(2)]]) (use False in simp)
  then show ?thesis using assms(1) by (simp add: settled_def)
qed

text \<open>The bridge serves orders one after the other: for each the number of its clicks and its answer.\<close>

fun order_history :: "(bridge_env \<times> order_request) list \<Rightarrow> bridge \<Rightarrow> (nat \<times> pydict res) list" where
  "order_history [] s = []"
| "order_history ((be, rq) # calls) s =
     (case place_order be rq s of (r, s') \<Rightarrow> (clicks s' - clicks s, r) # order_history calls s')"

lemma history_length [simp]: "length (order_history calls s) = length calls"
  by (induction calls s rule: order_history.induct) (auto split: prod.splits)

lemma settled_history:
  "settled k s \<Longrightarrow> j < length calls \<Longrightarrow> oq_idem_key (snd (calls ! j)) = k \<Longrightarrow> fst (order_history calls s ! j) = 0"
proof (induction calls s arbitrary: j rule: order_history.induct)
  case (2 be rq calls s)
  obtain r s' where p: "place_order be rq s = (r, s')" by (cases "place_order be rq s")
  show ?case
  proof (cases j)
    case 0
    then have "s' = s" using settled_order_stops [OF _ p] 2(2,4) by simp
    then show ?thesis using 0 p by simp
  next
    case (Suc i)
    have "fst (order_history calls s' ! i) = 0" using "2.IH" [OF p [symmetric] settled_stays [OF 2(2) p], of i] 2(3,4) Suc by simp
    then show ?thesis using Suc p by simp
  qed
qed simp

text \<open>
  C28: one key, one paying click. When the bridge serves orders one after the other, whatever the shop and the kernel answer, no order
  clicks twice; and once an order under a key has clicked and the shop has not refused it for its minimum amount,
  no later order under that key clicks, whether the click was confirmed or its outcome is unknown.
\<close>

theorem one_click_per_key:
  assumes "i < j" "j < length calls" "oq_idem_key (snd (calls ! i)) = oq_idem_key (snd (calls ! j))"
    "fst (order_history calls s ! i) \<noteq> 0" "snd (order_history calls s ! i) \<noteq> Inl (BridgeError MinAmountRejected)"
  shows "fst (order_history calls s ! i) = 1 \<and> fst (order_history calls s ! j) = 0"
  using assms
proof (induction calls s arbitrary: i j rule: order_history.induct)
  case (2 be rq calls s)
  obtain r s' where p: "place_order be rq s = (r, s')" by (cases "place_order be rq s")
  obtain j' where j: "j = Suc j'" using 2(2) by (cases j) auto
  show ?case
  proof (cases i)
    case 0
    have c: "clicks s' \<noteq> clicks s" "r \<noteq> Inl (BridgeError MinAmountRejected)" using 2(5,6) 0 p by auto
    have "settled (oq_idem_key rq) s'" using place_order_clicks(2) [OF p c(1)] c(2) by simp
    then have "fst (order_history calls s' ! j') = 0" using settled_history [of "oq_idem_key rq" s' j' calls] 2(3,4) 0 j by simp
    then show ?thesis using 0 j p place_order_clicks(1) [OF p c(1)] by simp
  next
    case (Suc i')
    then show ?thesis using "2.IH" [OF p [symmetric], of i' j'] 2(2-6) p j by simp
  qed
qed simp

section \<open>What a click rests on\<close>

lemma token_key_member: "token_key keys kid = Inr key \<Longrightarrow> \<exists>k. dict_get keys k = Some key"
  by (auto simp: token_key_def split: if_splits pyval.splits option.splits)

lemma object_returns: "(case v of PDict m \<Rightarrow> Inr m | _ \<Rightarrow> Inl AttributeError) = Inr c \<longleftrightarrow> v = PDict c"
  by (cases v) auto

lemma masked_returns: "(case r of Inl _ \<Rightarrow> Inl e | Inr v \<Rightarrow> Inr v) = Inr x \<longleftrightarrow> r = Inr x"
  by (cases r) auto

lemma if_raise_value: "(if b then Inl e else r) = Inr x \<longleftrightarrow> \<not> b \<and> r = Inr x"
  by simp

lemma capture_token_returns:
  assumes "verify_capture_token je moment token keys purchase_id cart_hash amount dry_run = Inr claims"
  obtains key k where "dict_get keys k = Some key" "verify_compact je token key = Inr (PDict claims)" "token_window moment claims = Inr ()"
    "token_bindings purchase_id cart_hash amount dry_run claims = Inr ()"
proof -
  from assms obtain kid key where "token_key keys kid = Inr key" "verify_compact je token key = Inr (PDict claims)"
    "token_window moment claims = Inr ()" "token_bindings purchase_id cart_hash amount dry_run claims = Inr ()"
    by (auto simp: verify_capture_token_def bind_res_Inr_iff object_returns masked_returns case_prod_unfold if_raise_value)
  then show ?thesis using that token_key_member by blast
qed

lemma bindings_hold:
  "token_bindings purchase_id cart_hash amount dry_run claims = Inr () \<longleftrightarrow>
     dict_get claims ''purchase_id'' = Some (PStr purchase_id) \<and> dict_get claims ''cart_hash'' = Some (PStr cart_hash) \<and>
     (\<exists>bound expected. decimal_of (py_str (dict_get_or claims ''amount'' PNone)) = Inr bound \<and> decimal_of amount = Inr expected \<and>
        dec_eq bound expected) \<and> truthy (dict_get_or claims ''dry_run'' PNone) = dry_run"
  by (auto simp: token_bindings_def bind_res_Inr_iff)

lemma transition_row: "bridge_transition k st oid rc ex s = (Inr u, s') \<Longrightarrow> row_in k {st} s'"
  by (auto simp: bridge_transition_def row_in_def split: option.splits if_splits)

lemma request_session: "client_request be m p b s = (Inr v, s') \<Longrightarrow> be_session be = Inr ()"
  by (auto simp: client_request_def split: sum.splits)

lemma if_raise_returns: "(if b then Inl e else Inr ()) = Inr u \<longleftrightarrow> \<not> b"
  by simp

lemma arm_returns:
  assumes "order_arm be rq agreed resolved store s = (Inr (tot, detail), s')"
  obtains cap methods meth aid where "tot = agreed" "config_cap (be_config be) = Inr cap" "tot \<le> cap"
    "choose_method (be_config be) methods = Inr meth" "check_address aid (oq_expected_address_id rq) = Inr ()"
    "row_in (oq_idem_key rq) {ARMED} s'" "be_session be = Inr ()"
proof -
  from assms obtain m p b v s1 methods meth cap aid s2 where
    "client_request be m p b s = (Inr v, s1)" "choose_method (be_config be) methods = Inr meth" "config_cap (be_config be) = Inr cap"
    "\<not> cap < tot" "agreed = tot" "check_address aid (oq_expected_address_id rq) = Inr ()"
    "bridge_transition (oq_idem_key rq) ARMED None None None s2 = (Inr (), s')"
    unfolding order_arm_def bridge_checkpoint_def get_payment_methods_def
    by (auto simp: returns bind_res_Inr_iff check_cap_def check_drift_def if_raise_returns)
  then show ?thesis using that transition_row request_session by force
qed

lemma chosen_method:
  "choose_method c methods = Inr meth \<Longrightarrow> \<exists>cash. method_is_cash meth = Inr cash \<and> (cash \<longrightarrow> bc_allow_cash c)"
  by (auto simp: choose_method_def bind_res_Inr_iff split: option.splits if_splits)


text \<open>
  C31: the promise of one click per key is lost when orders interleave. A second worker under the same key arms the order again with a
  checkpoint that looks at no state; from then on it takes and clicks the order although the first worker has already
  clicked, whatever became of that click.
\<close>

theorem rearmed_order_is_clicked_again:
  assumes "oq_idem_key rqA = oq_idem_key rqB" "order_take rqA s = (Inr (), s1)" "order_click beA rqA stA dA s1 = (rA, s2)" "clicks s2 = Suc (clicks s1)"
    "order_arm beB rqB agreed st store s2 = (Inr (tot, d), s3)" "\<not> bc_dry_run (be_config beB)" "return_key_of d = Inr rk"
  shows "clicks (snd (order_execute beB rqB st claims tot d s3)) = clicks s + 2"
proof -
  obtain arm: "row_in (oq_idem_key rqB) {ARMED} s3" and session: "be_session beB = Inr ()" by (rule arm_returns [OF assms(5)])
  obtain s4 where take: "order_take rqB s3 = (Inr (), s4)"
    using arm by (auto simp: order_take_def try_s_def bridge_transition_def row_in_def)
  obtain r s5 where exec: "order_execute beB rqB st claims tot d s3 = (r, s5)" by (cases "order_execute beB rqB st claims tot d s3")
  obtain v s6 where click: "order_click beB rqB st d s4 = (v, s6)" by (cases "order_click beB rqB st d s4")
  have "clicks s6 = Suc (clicks s4)"
  proof -
    obtain w s' where w: "client_place_order beB st rk s4 = (w, s')" by (cases "client_place_order beB st rk s4")
    have "clicks s' = Suc (clicks s4)" using w session by (auto simp: client_place_order_def client_request_def clicks_def Let_def)
    moreover have "same clicks (bind_s (bridge_transition k a b c e) (\<lambda>_. raise_s x) :: (bridge, pyval) sres)" for k a b c e x
      by (intro same_rules)
    note tail = sameD [OF this]
    have run: "bind_s (lift_res (return_key_of d)) (client_place_order beB st) s4 = (w, s')" using w assms(7) by (simp add: bind_s_def lift_res_def)
    moreover have "clicks s6 = clicks s'"
    proof (cases w)
      case (Inl e)
      show ?thesis
        using click unfolding order_click_def try_s_raise [where m = "bind_s x y" for x y, OF run [unfolded Inl]]
        by (cases "e = BridgeError MinAmountRejected") (simp_all, (erule tail)+)
    next
      case (Inr x)
      then show ?thesis using click run by (simp add: order_click_def try_s_ok)
    qed
    ultimately show ?thesis by simp
  qed
  moreover have "clicks s5 = clicks s6"
  proof (cases v)
    case (Inl e)
    then show ?thesis using exec take click assms(6) by (simp add: order_execute_def bind_s_eq bind_s_raise)
  next
    case (Inr x)
    have "bind_s (lift_res (order_id_of x)) (\<lambda>oid. order_finish beB rqB tot CONFIRMED oid) s6 = (r, s5)"
      using exec assms(6) by (simp add: order_execute_def bind_s_eq [where m = "order_take rqB", OF take] bind_s_eq [where m = "order_click beB rqB st d", OF click [unfolded Inr]])
    then show ?thesis by (rule sameD [OF same_bind [OF same_base(3) stage_calm(7)]])
  qed
  moreover have "clicks s4 = clicks s3" "clicks s3 = clicks s2" "clicks s1 = clicks s"
    using sameD [OF stage_calm(6) take] sameD [OF stage_calm(5) assms(5)] sameD [OF stage_calm(6) assms(2)] by simp_all
  ultimately show ?thesis using assms(4) exec by simp
qed

text \<open>
  An answer that the order does not exist counts as a confirmation. When the shop answers the click with 404 and a text that
  mentions stores, the client reads an empty list of stores, and the order ends confirmed with a receipt that names no order.
\<close>

theorem missing_order_is_confirmed:
  assumes "row_in (oq_idem_key rq) {ARMED} s" "\<not> bc_dry_run (be_config be)" "be_session be = Inr ()" "return_key_of d = Inr rk"
    "be_http be (br_sent s @ [(''POST'', place_order_path st, PDict [(''return_key'', PStr rk)])]) = Response 404 t js"
    "is_substring ''stores'' (map lower_char (take 500 t))" "\<not> list_ex (\<lambda>w. is_substring w (map lower_char (take 500 t))) minimum_words"
  shows "fst (order_execute be rq st claims tot d s) = Inr (order_receipt be rq tot CONFIRMED None (br_label s))"
proof -
  from assms(1) obtain row where row: "dict_get (br_orders s) (oq_idem_key rq) = Some row" "bo_state row = ARMED" unfolding row_in_def by blast
  define s1 where "s1 = s\<lparr>br_orders := dict_set (oq_idem_key rq) (row\<lparr>bo_state := CLICKED\<rparr>) (br_orders s)\<rparr>"
  have take: "order_take rq s = (Inr (), s1)" using row by (simp add: order_take_def try_s_def bridge_transition_def s1_def coalesce_def)
  define s2 where "s2 = s1\<lparr>br_sent := br_sent s @ [(''POST'', place_order_path st, PDict [(''return_key'', PStr rk)])]\<rparr>"
  have "client_place_order be st rk s1 = (Inr (PDict [(''stores'', PList [])]), s2)"
    using assms(3,5,6,7) by (simp add: client_place_order_def client_request_def read_response_def Let_def s1_def s2_def)
  then have click: "order_click be rq st d s1 = (Inr (PDict [(''stores'', PList [])]), s2)"
    using assms(4) by (simp add: order_click_def try_s_def bind_s_def lift_res_def)
  have "order_id_of (PDict [(''stores'', PList [])]) = Inr None"
    by (simp add: order_id_of_def py_or_def py_get_def dict_get_or_def)
  then show ?thesis
    using take click assms(2) by (simp add: order_execute_def order_finish_def bridge_transition_def bind_s_def sres_defs Let_def s2_def s1_def)
qed

section \<open>Tokens of the kernel\<close>

lemma token_times:
  assumes "0 \<le> n" "n \<le> m" "m \<le> n + ttl * us_per_second" "m < 10 ^ 26" "0 \<le> ttl" "ttl < 10 ^ 6"
  shows "\<not> dec_less (dec_add (Dec (dec_trunc (Dec n (- 6)) + ttl) 0) (Dec 5 0)) (Dec m (- 6))"
    "\<not> dec_less (dec_add (Dec m (- 6)) (Dec 5 0)) (Dec (dec_trunc (Dec n (- 6))) 0)"
proof -
  define d where "d = n div 1000000"
  have t: "dec_trunc (Dec n (- 6)) = d" using assms(1) by (cases "n = 0") (simp_all add: dec_trunc_def d_def)
  have n: "0 \<le> d" "d \<le> n" "n < 1000000 * d + 1000000" "1000000 * d \<le> n"
  proof -
    have "0 \<le> d" using assms(1) by (simp add: d_def pos_imp_zdiv_nonneg_iff)
    moreover have "1000000 * d + n mod 1000000 = n" unfolding d_def by (rule mult_div_mod_eq)
    moreover have "0 \<le> n mod 1000000" "n mod 1000000 < 1000000" by simp_all
    ultimately show "0 \<le> d" "d \<le> n" "n < 1000000 * d + 1000000" "1000000 * d \<le> n" by linarith+
  qed
  have "dec_add (Dec (d + ttl) 0) (Dec 5 0) = Dec (d + ttl + 5) 0"
    using n assms by (simp add: dec_add_def dec_scale_def Let_def dec_fix_small)
  then show "\<not> dec_less (dec_add (Dec (dec_trunc (Dec n (- 6)) + ttl) 0) (Dec 5 0)) (Dec m (- 6))"
    using n assms unfolding t by (simp add: dec_less_def dec_scale_def)
  have "dec_add (Dec m (- 6)) (Dec 5 0) = Dec (m + 5000000) (- 6)"
    using assms by (simp add: dec_add_def dec_scale_def Let_def dec_fix_small)
  then show "\<not> dec_less (dec_add (Dec m (- 6)) (Dec 5 0)) (Dec (dec_trunc (Dec n (- 6))) 0)"
    using n assms unfolding t by (simp add: dec_less_def dec_scale_def)
qed


section \<open>Settlement through the agent's adapter\<close>

lemma place_order_ends:
  "place_order be rq s = (Inr r, s') \<Longrightarrow> row_in (oq_idem_key rq) (set TERMINAL_OK) s'"
proof -
  assume "place_order be rq s = (Inr r, s')"
  moreover have "row_in (oq_idem_key rq) (set TERMINAL_OK) s2"
    if "order_finish be rq t st oid s1 = (Inr x, s2)" "st \<in> set TERMINAL_OK" for t st oid s1 x s2
    using that by (auto simp: order_finish_def returns Let_def bridge_transition_def row_in_def split: option.splits if_splits)
  moreover have "row_in (oq_idem_key rq) (set TERMINAL_OK) s1" if "order_claim be rq a s = (Inr (Some x), s1)" for a x s1
    using that by (auto simp: order_claim_def returns bridge_claim_def row_in_def split: option.splits if_splits)
  moreover have "{DRY_RUN_CONFIRMED, CONFIRMED} \<subseteq> set TERMINAL_OK" by (simp add: TERMINAL_OK_def)
  ultimately show ?thesis
    unfolding place_order_def when_enabled_def order_execute_def
    by (auto simp: returns split: option.splits if_splits)
qed

lemma either_returns:
  "either_s m h k s = (Inr y, s') \<longleftrightarrow>
     (\<exists>x s1. m s = (Inr x, s1) \<and> k x s1 = (Inr y, s')) \<or> (\<exists>e s1. m s = (Inl e, s1) \<and> h e s1 = (Inr y, s'))"
  by (auto simp: either_s_def split: prod.splits sum.splits)

lemma on_bridge_returns: "on_bridge m s = (Inr x, s') \<longleftrightarrow> (\<exists>b. m (rl_bridge s) = (Inr x, b) \<and> s' = s\<lparr>rl_bridge := b\<rparr>)"
  by (auto simp: on_bridge_def split: prod.splits)

lemma port_post_returns: "port_post m s = (Inr x, s') \<longleftrightarrow> (\<exists>b. m (rl_bridge s) = (Inr x, b) \<and> s' = s\<lparr>rl_bridge := b\<rparr>)"
  by (auto simp: port_post_def on_bridge_returns try_s_def raise_s_def split: prod.splits sum.splits)

lemma not_accepted_simps [simp]: "\<not> sr_accepted (not_accepted r)" "\<not> sr_accepted (order_failure re e)"
  by (simp_all add: not_accepted_def order_failure_def Let_def)

lemma accepted_order_returns: "accepted_order re r st t offer a jti s = (Inr res, s') \<Longrightarrow> rl_bridge s' = rl_bridge s"
  by (auto simp: accepted_order_def returns modify_s_def Let_def split: option.splits)

text \<open>An accepted settlement: the product was put into the cart, quoted and ordered.\<close>

lemma settle_accepts:
  assumes "rappi_settle re live offer jti amount mandate_jti mint s = (Inr res, s')" "sr_accepted res"
  obtains native unit_price v b1 q b2 token r where
    "as_object (py_or (dict_get_or offer ''native'' PNone) (PDict [])) = Inr native"
    "py_int (py_or (dict_get_or native ''product_price'' PNone) (PInt 0)) = Inr unit_price"
    "cart_add_endpoint (rp_bridge re) (port_headers re)
       [(''store_type'', PStr (py_str (py_or (dict_get_or native ''store_type'' PNone) (PStr ''turbo'')))),
        (''store_id'', dict_get_or native ''store_id'' PNone), (''product_id'', dict_get_or native ''product_id'' PNone),
        (''name'', py_or (dict_get_or native ''product_name'' PNone) (dict_get_or offer ''title'' (PStr ''producto''))),
        (''price'', PInt unit_price), (''quantity'', PInt (order_quantity unit_price))] (rl_bridge s) = (Inr v, b1)"
    "quote_endpoint (rp_bridge re) (port_headers re) (py_str (py_or (dict_get_or native ''store_type'' PNone) (PStr ''turbo''))) False b1 = (Inr q, b2)"
    "port_order re jti (py_str (py_or (dict_get_or native ''store_type'' PNone) (PStr ''turbo''))) q token b2 = (Inr r, rl_bridge s')"
proof -
  from assms obtain capture where "mint = Some capture"
    unfolding rappi_settle_def by (cases mint) (auto simp: returns split: if_splits)
  then have run: "rappi_settle re live offer jti amount mandate_jti (Some capture) s = (Inr res, s')" using assms(1) by simp
  show ?thesis
    using run assms(2) unfolding rappi_settle_def Let_def
    by (auto simp: returns either_returns on_bridge_returns port_post_returns split: if_splits dest!: accepted_order_returns intro: that)
qed

lemma port_order_ends:
  "port_order re jti st q token b = (Inr r, b') \<Longrightarrow> row_in (''rappi-'' @ jti) (set TERMINAL_OK) b'"
  by (auto simp: port_order_def place_order_endpoint_def or_str_def returns order_body_def Let_def split: prod.splits if_splits dest: place_order_ends)

text \<open>
  A click whose outcome is unknown is reported as unpaid. Where settling leaves the order clicked or uncertain, the adapter's
  answer is not accepted, so that the kernel releases the reservation, although the shop may have charged.
\<close>

theorem uncertain_click_is_unpaid:
  assumes "rappi_settle re live offer jti amount mandate_jti mint s = (Inr res, s')" "row_in (''rappi-'' @ jti) {CLICKED, UNCERTAIN} (rl_bridge s')"
  shows "\<not> sr_accepted res"
proof
  assume "sr_accepted res"
  from settle_accepts [OF assms(1) this] have "row_in (''rappi-'' @ jti) (set TERMINAL_OK) (rl_bridge s')" using port_order_ends by metis
  then show False using assms(2) by (auto simp: row_in_def TERMINAL_OK_def)
qed

lemma quantity_reaches: "0 < p \<Longrightarrow> p < 38000 \<Longrightarrow> 38000 \<le> order_quantity p * p"
proof -
  assume p: "0 < p" "p < (38000 :: int)"
  let ?q = "(38000 + p - 1) div p"
  have "38000 + p - 1 < ?q * p + p" using p by (smt (verit) mult_div_mod_eq pos_mod_bound mult.commute)
  then have "38000 \<le> ?q * p" by simp
  also have "\<dots> \<le> max 1 ?q * p" using p by (simp add: mult_right_mono)
  finally show ?thesis using p by (simp add: order_quantity_def)
qed

lemma sent_stays [intro]: "keeps (\<lambda>s. x \<in> set (br_sent s)) (client_request be m p b)"
  by (auto simp: keeps_def client_request_def Let_def split: sum.splits)

lemma keeps_sent_base [intro]:
  "keeps (\<lambda>s. x \<in> set (br_sent s)) (bridge_claim k pu c a)" "keeps (\<lambda>s. x \<in> set (br_sent s)) (bridge_transition k st oid r ex)"
  "keeps (\<lambda>s. x \<in> set (br_sent s)) (modify_s (\<lambda>s. s\<lparr>br_label := l\<rparr>))" "keeps (\<lambda>s. x \<in> set (br_sent s)) (fetch_kernel_keys be)"
  by (auto simp: keeps_def bridge_claim_def bridge_transition_def sres_defs fetch_kernel_keys_def keep_keys_def keys_fallback_def
      split: option.splits sum.splits)

lemma keeps_sent_client [intro]:
  "keeps (\<lambda>s. x \<in> set (br_sent s)) (whoami be)" "keeps (\<lambda>s. x \<in> set (br_sent s)) (active_address be)"
  "keeps (\<lambda>s. x \<in> set (br_sent s)) (get_carts be)" "keeps (\<lambda>s. x \<in> set (br_sent s)) (resolve_store_type be st)"
  "keeps (\<lambda>s. x \<in> set (br_sent s)) (recalculate be st)" "keeps (\<lambda>s. x \<in> set (br_sent s)) (checkout_detail be st)"
  "keeps (\<lambda>s. x \<in> set (br_sent s)) (get_payment_methods be st)" "keeps (\<lambda>s. x \<in> set (br_sent s)) (set_payment_method be st v)"
  "keeps (\<lambda>s. x \<in> set (br_sent s)) (client_place_order be st rk)"
  unfolding whoami_def active_address_def get_carts_def resolve_store_type_def recalculate_def checkout_detail_def get_payment_methods_def
    set_payment_method_def client_place_order_def
  by (auto intro!: keeps_bind split: pyval.splits)

lemma quote_keeps_sent: "keeps (\<lambda>s. x \<in> set (br_sent s)) (quote_endpoint be auth st clean)"
  unfolding quote_endpoint_def bridge_quote_cart_def when_enabled_def by (intro keeps_bind keeps_if keeps_lift keeps_raise keeps_return keeps_sent_client)

lemma order_keeps_sent: "keeps (\<lambda>s. x \<in> set (br_sent s)) (place_order be rq)"
  unfolding place_order_def when_enabled_def stage_defs order_execute_def order_click_def Let_def
  by (intro keeps_bind keeps_try keeps_if keeps_option keeps_lift keeps_raise keeps_return keeps_get keeps_sent_base keeps_sent_client |
      simp add: split_def)+

lemma endpoint_keeps_sent: "keeps (\<lambda>s. x \<in> set (br_sent s)) (place_order_endpoint be auth k body)"
  unfolding place_order_endpoint_def by (intro keeps_bind keeps_lift keeps_option keeps_raise order_keeps_sent)

lemma port_order_keeps_sent: "keeps (\<lambda>s. x \<in> set (br_sent s)) (port_order re jti st q token)"
proof (rule keepsI)
  fix b :: bridge
  assume "x \<in> set (br_sent b)"
  then have "x \<in> set (br_sent (snd (place_order_endpoint be auth k body b)))" for be auth k body
    using endpoint_keeps_sent unfolding keeps_def by blast
  then show "x \<in> set (br_sent (snd (port_order re jti st q token b)))" by (simp add: port_order_def case_prod_unfold)
qed

lemma put_sends: "client_add_to_cart be st payload s = (Inr v, s') \<Longrightarrow> \<exists>path. (''PUT'', path, payload) \<in> set (br_sent s')"
  by (auto simp: client_add_to_cart_def client_request_def Let_def split: sum.splits)

lemma cart_add_sends:
  assumes "cart_add_endpoint be auth body b = (Inr v, b1)" "dict_get body ''price'' = Some (PInt p)" "dict_get body ''quantity'' = Some (PInt q)"
  shows "\<exists>path sid store product name. (''PUT'', path, PList [PDict [(''id'', PInt sid), (''place_at'', PStr []),
    (''delivery_method'', PStr ''delivery''), (''products'', PList [PDict (cart_line store product name q p)])]]) \<in> set (br_sent b1)"
proof -
  from assms obtain st store product name where "add_to_cart be st store product name q p b = (Inr v, b1)"
    by (auto simp: cart_add_endpoint_def returns Let_def dict_get_or_def)
  then obtain sid where "client_add_to_cart be st (PList [PDict [(''id'', PInt sid), (''place_at'', PStr []),
      (''delivery_method'', PStr ''delivery''), (''products'', PList [PDict (cart_line store product name q p)])]]) b = (Inr v, b1)"
    by (auto simp: add_to_cart_def when_enabled_def returns split: if_splits)
  from put_sends [OF this] show ?thesis by blast
qed

text \<open>
  Small orders are inflated. The kernel approves the price of one product; when that price is below 38000, an accepted
  settlement has put so many units of it into the shop's cart that their price reaches 38000, and the token that unlocks the click is
  minted for the total of that cart.
\<close>

theorem small_orders_are_inflated:
  assumes "rappi_settle re live offer jti amount mandate_jti mint s = (Inr res, s')" "sr_accepted res" "dict_get offer ''native'' = Some (PDict native)"
    "dict_get native ''product_price'' = Some (PInt p)" "0 < p" "p < 38000"
  shows "\<exists>path sid store product name q.
    (''PUT'', path, PList [PDict [(''id'', PInt sid), (''place_at'', PStr []), (''delivery_method'', PStr ''delivery''),
       (''products'', PList [PDict (cart_line store product name q p)])]]) \<in> set (br_sent (rl_bridge s')) \<and> 1 \<le> q \<and> 38000 \<le> q * p"
proof -
  let ?call = "\<lambda>path sid store product name. (''PUT'', path, PList [PDict [(''id'', PInt sid), (''place_at'', PStr []),
    (''delivery_method'', PStr ''delivery''), (''products'', PList [PDict (cart_line store product name (order_quantity p) p)])]])"
  have native: "as_object (py_or (dict_get_or offer ''native'' PNone) (PDict [])) = Inr native"
    "py_int (py_or (dict_get_or native ''product_price'' PNone) (PInt 0)) = Inr p"
    using assms(3-5) by (auto simp: py_or_def as_object_def dict_get_or_def)
  obtain v b1 q b2 token r where
    run: "cart_add_endpoint (rp_bridge re) (port_headers re)
       [(''store_type'', PStr (py_str (py_or (dict_get_or native ''store_type'' PNone) (PStr ''turbo'')))),
        (''store_id'', dict_get_or native ''store_id'' PNone), (''product_id'', dict_get_or native ''product_id'' PNone),
        (''name'', py_or (dict_get_or native ''product_name'' PNone) (dict_get_or offer ''title'' (PStr ''producto''))),
        (''price'', PInt p), (''quantity'', PInt (order_quantity p))] (rl_bridge s) = (Inr v, b1)"
      "quote_endpoint (rp_bridge re) (port_headers re) (py_str (py_or (dict_get_or native ''store_type'' PNone) (PStr ''turbo''))) False b1 = (Inr q, b2)"
      "port_order re jti (py_str (py_or (dict_get_or native ''store_type'' PNone) (PStr ''turbo''))) q token b2 = (Inr r, rl_bridge s')"
    by (rule settle_accepts [OF assms(1,2)]) (use native in auto)
  obtain path sid store product name where "?call path sid store product name \<in> set (br_sent b1)" using cart_add_sends [OF run(1), of p "order_quantity p"] by auto
  then have "?call path sid store product name \<in> set (br_sent b2)" using keepsD [OF quote_keeps_sent _ run(2)] by blast
  note in_quote = this
  have "?call path sid store product name \<in> set (br_sent (rl_bridge s'))" by (rule keepsD [OF port_order_keeps_sent in_quote run(3)])
  moreover have "1 \<le> order_quantity p" by (simp add: order_quantity_def)
  ultimately show ?thesis using quantity_reaches [OF assms(5,6)] by blast
qed

end
