(* ===== verification/Rappi_Runs.thy ===== *)
theory Rappi_Runs
  imports Rappi_Props
begin

text \<open>
  Concrete runs of the bridge, on which the theorems of \<open>Rappi_Props\<close> hold: a shop with one store, a card and a total of one
  cent, a token of the kernel, and a bridge with an empty table.
\<close>

definition run_payload :: pydict where
  "run_payload = [(''purchase_id'', PStr ''p''), (''reservation_id'', PNone), (''amount'', PStr ''0.01''), (''cart_hash'', PStr ''h''),
     (''dry_run'', PBool False), (''iat'', PInt 0), (''exp'', PInt 120)]"

definition run_table :: "(pyval \<times> string) list" where
  "run_table = [(PDict run_payload, ''c''),
     (PDict [(''alg'', PStr ''EdDSA''), (''kid'', PStr ''k''), (''typ'', PStr TOKEN_TYP)], ''i'')]"

definition run_jose :: jose_env where
  "run_jose = toy_of run_table"

definition run_config :: bridge_config where
  "run_config = \<lparr>bc_max_order_cop = ''1.00'', bc_dry_run = False, bc_enabled = True, bc_payment_method_id = None, bc_allow_cash = False,
     bc_local_token = None, bc_quote_ttl_s = 0\<rparr>"

definition ok_json :: "pyval \<Rightarrow> http_outcome" where
  "ok_json v = Response 200 ''x'' (Inr v)"

text \<open>The shop answers by path; \<open>click\<close> is its answer to the paying click.\<close>

definition run_answer :: "http_outcome \<Rightarrow> http_call \<Rightarrow> http_outcome" where
  "run_answer click call =
     (case call of (meth, path, body) \<Rightarrow>
        if is_click call then click
        else if path = cart_path ''r'' ''/recalculate''
        then ok_json (PDict [(''stores'', PList [PDict [(''id'', PInt 7), (''total'', PStr ''0.01'')]])])
        else if path = ''/api/ms/payment-method/resolver/v6'' then ok_json (PList [PDict [(''id'', PStr ''card'')]])
        else if path = ''/api/ms/shopping-cart/v1/all/get'' then ok_json (PList [])
        else ok_json (PDict []))"

definition shop_env :: "http_outcome \<Rightarrow> bridge_env" where
  "shop_env click = \<lparr>be_jose = run_jose, be_config = run_config, be_http = (\<lambda>sent. run_answer click (last sent)), be_session = Inr (), be_sha_hex = (\<lambda>_. ''h''),
     be_now = 0, be_stamp = Dec 0 (- 6), be_uuid = [], be_pem = None, be_jwks = Inr [toy_key ''i'' @ [(''kid'', PStr ''k'')]]\<rparr>"

definition run_token :: "string res" where
  "run_token = mint_capture_token run_jose ''p'' None ''0.01'' ''h'' (toy_key ''i'') (Some ''k'') 120 (Dec 0 (- 6)) False"

definition run_order :: order_request where
  "run_order = \<lparr>oq_idem_key = ''rappi-p'', oq_purchase_id = ''p'', oq_amount = ''0.01'', oq_cart_hash = ''h'',
     oq_capture_token = ''aQ.Yw.aQ'', oq_expected_address_id = PNone, oq_store_type = ''r''\<rparr>"

definition run_bridge :: bridge where
  "run_bridge = \<lparr>br_orders = [], br_sent = [], br_label = [], br_keys = [], br_keys_time = Dec 0 0\<rparr>"

definition placed :: http_outcome where
  "placed = ok_json (PDict [(''order_id'', PStr ''o'')])"


section \<open>The stages of a run\<close>

definition put :: "string \<Rightarrow> bridge \<Rightarrow> bridge" where
  "put st s = (case dict_get (br_orders s) ''rappi-p'' of
     Some row \<Rightarrow> s\<lparr>br_orders := dict_set ''rappi-p'' (row\<lparr>bo_state := st\<rparr>) (br_orders s)\<rparr> | None \<Rightarrow> s)"

definition said :: "http_call \<Rightarrow> bridge \<Rightarrow> bridge" where
  "said call s = s\<lparr>br_sent := br_sent s @ [call]\<rparr>"

definition has :: "bridge \<Rightarrow> bool" where
  "has s \<longleftrightarrow> dict_get (br_orders s) ''rappi-p'' \<noteq> None"

definition run_keys :: "(string, pydict) dict" where
  "run_keys = [(''k'', toy_key ''i'' @ [(''kid'', PStr ''k'')])]"

definition keys_known :: "bridge \<Rightarrow> bool" where
  "keys_known s \<longleftrightarrow> br_keys s = [] \<or> br_keys s = run_keys \<and> br_keys_time s = Dec 0 (- 6)"

definition keyed :: "bridge \<Rightarrow> bridge" where
  "keyed s = s\<lparr>br_keys := run_keys, br_keys_time := Dec 0 (- 6)\<rparr>"

definition named :: "bridge \<Rightarrow> bridge" where
  "named s = s\<lparr>br_label := ''card''\<rparr>"

lemma state_facts [simp]:
  "has (put st s) = has s" "has (said c s) = has s" "has (keyed s) = has s" "has (named s) = has s"
  "keys_known (put st s) = keys_known s" "keys_known (said c s) = keys_known s" "keys_known (keyed s)" "keys_known (named s) = keys_known s"
  "clicks (put st s) = clicks s" "clicks (said c s) = (if is_click c then Suc (clicks s) else clicks s)" "clicks (keyed s) = clicks s"
  "clicks (named s) = clicks s" "has s \<Longrightarrow> row_in ''rappi-p'' {st} (put st s)"
  by (auto simp: has_def put_def said_def keyed_def named_def keys_known_def clicks_def row_in_def split: option.splits)

lemma run_fields [simp]:
  "be_jose (shop_env c) = run_jose" "be_config (shop_env c) = run_config" "be_session (shop_env c) = Inr ()" "be_sha_hex (shop_env c) = (\<lambda>_. ''h'')"
  "be_http (shop_env c) sent = run_answer c (last sent)" "be_stamp (shop_env c) = Dec 0 (- 6)" "be_pem (shop_env c) = None"
  "be_jwks (shop_env c) = Inr [toy_key ''i'' @ [(''kid'', PStr ''k'')]]"
  "oq_idem_key run_order = ''rappi-p''" "oq_purchase_id run_order = ''p''" "oq_amount run_order = ''0.01''" "oq_cart_hash run_order = ''h''"
  "oq_capture_token run_order = ''aQ.Yw.aQ''" "oq_expected_address_id run_order = PNone" "oq_store_type run_order = ''r''"
  "\<not> bc_dry_run run_config" "bc_enabled run_config"
  by (simp_all add: shop_env_def run_order_def run_config_def)

lemma run_request: "client_request (shop_env c) m p b s = (read_response p (run_answer c (m, p, b)), said (m, p, b) s)"
  by (simp add: client_request_def said_def)

lemma run_checkpoint [simp]: "has s \<Longrightarrow> bridge_checkpoint run_order st s = (Inr (), put st s)"
  by (auto simp: bridge_checkpoint_def bridge_transition_def has_def put_def coalesce_def)

lemma run_reads:
  "read_response p (run_answer c (''GET'', ''/ms/application-user/auth'', b)) = Inr (PDict [])"
  "read_response p (run_answer c (''POST'', ''/api/ms/shopping-cart/v1/all/get'', b)) = Inr (PList [])"
  "read_response p (run_answer c (''POST'', cart_path ''r'' ''/recalculate'', b)) = Inr (PDict [(''stores'', PList [PDict [(''id'', PInt 7), (''total'', PStr ''0.01'')]])])"
  "read_response p (run_answer c (''GET'', ''/api/ms/payment-method/resolver/v6'', b)) = Inr (PList [PDict [(''id'', PStr ''card'')]])"
  "read_response p (run_answer c (''PUT'', cart_path ''r'' ''/payment-method'', b)) = Inr (PDict [])"
  "read_response p (run_answer c (''GET'', cart_path ''r'' ''/checkout/detail'', b)) = Inr (PDict [])"
  "read_response p (run_answer c (''GET'', ''/api/ms/users-address/addresses'', b)) = Inr (PDict [])"
  by (simp_all add: run_answer_def ok_json_def read_response_def cart_path_def is_click_def)

lemma run_values:
  "parse_money ''0.01'' = Inr 1" "dec_str (cents_dec 1) = ''0.01''" "config_cap run_config = Inr 100"
  "compute_cart_hash (\<lambda>_. ''h'') ''r'' (PDict [(''id'', PInt 7), (''total'', PStr ''0.01'')]) = Inr ''h''"
  "store_total (PDict [(''id'', PInt 7), (''total'', PStr ''0.01'')]) = Inr 1"
  "keys_from_jwks run_jose [toy_key ''i'' @ [(''kid'', PStr ''k'')]] = Inr run_keys"
  "run_keys \<noteq> []" "dec_less (dec_sub (Dec 0 (- 6)) (Dec 0 (- 6))) (Dec 300 0)"
  "choose_method run_config (PList [PDict [(''id'', PStr ''card'')]]) = Inr (PDict [(''id'', PStr ''card'')])"
  "method_label (PDict [(''id'', PStr ''card'')]) = Inr ''card''" "\<not> isl (build_payment_payload (PDict [(''id'', PStr ''card'')]))"
  by code_simp+

lemma run_token_parts:
  "run_token = Inr ''aQ.Yw.aQ''" "token_header run_jose ''aQ.Yw.aQ'' = Inr (PStr ''k'', PStr TOKEN_TYP)"
  "token_key run_keys (PStr ''k'') = Inr (toy_key ''i'' @ [(''kid'', PStr ''k'')])"
  "verify_compact run_jose ''aQ.Yw.aQ'' (toy_key ''i'' @ [(''kid'', PStr ''k'')]) = Inr (PDict run_payload)"
  "token_bindings ''p'' ''h'' ''0.01'' False run_payload = Inr ()"
  by code_simp+

lemma run_window: "token_window (Dec 0 (- 6)) run_payload = Inr ()"
proof -
  have "dec_trunc (Dec 0 (- 6)) = 0" by (simp add: dec_trunc_def)
  then show ?thesis using token_times [of 0 0 120] by (simp add: token_window_def run_payload_def dict_get_or_def)
qed

lemma run_verifies:
  "verify_capture_token run_jose (Dec 0 (- 6)) ''aQ.Yw.aQ'' run_keys ''p'' ''h'' ''0.01'' False = Inr run_payload"
  by (simp add: verify_capture_token_def run_token_parts run_window)

lemma run_session: "has s \<Longrightarrow> order_session (shop_env c) run_order s =
    (Inr (), put SESSION_OK (said (''GET'', ''/ms/application-user/auth'', PNone) s))"
  by (simp add: order_session_def whoami_def run_request run_reads bind_s_def)

definition run_store :: pyval where
  "run_store = PDict [(''id'', PInt 7), (''total'', PStr ''0.01'')]"

lemma run_resolve: "resolve_store_type (shop_env c) ''r'' s = (Inr ''r'', said (''POST'', ''/api/ms/shopping-cart/v1/all/get'', PDict []) s)"
  by (simp add: resolve_store_type_def get_carts_def run_request run_reads bind_s_def sres_defs)

lemma run_recalculate: "recalculate (shop_env c) ''r'' s =
    (Inr (PDict [(''stores'', PList [run_store])]), said (''POST'', cart_path ''r'' ''/recalculate'', PDict []) s)"
  by (simp add: recalculate_def run_request run_reads run_store_def)

lemma run_cart: "has s \<Longrightarrow> order_cart (shop_env c) run_order s = (Inr (''r'', run_store),
    put CART_OK (said (''POST'', cart_path ''r'' ''/recalculate'', PDict []) (said (''POST'', ''/api/ms/shopping-cart/v1/all/get'', PDict []) s)))"
  by (simp add: order_cart_def run_resolve run_recalculate bind_s_def sres_defs cart_stores_def py_get_def dict_get_or_def py_or_def first_of_def
      run_values [folded run_store_def])

lemma run_fetch: "keys_known s \<Longrightarrow> \<exists>s'. fetch_kernel_keys (shop_env c) s = (Inr run_keys, s') \<and> s' = keyed s"
  by (auto simp: fetch_kernel_keys_def keys_known_def keep_keys_def keyed_def run_values)

lemma run_approval: "has s \<Longrightarrow> keys_known s \<Longrightarrow> order_approval (shop_env c) run_order 1 s = (Inr run_payload, put APPROVAL_VERIFIED (keyed s))"
  using run_fetch [of s c] by (auto simp: order_approval_def bind_s_def sres_defs run_values run_verifies)

lemma run_arm:
  assumes "has s"
  shows "\<exists>s'. order_arm (shop_env c) run_order 1 ''r'' run_store s = (Inr (1, PDict []), s') \<and> has s'"
proof -
  obtain payload where "build_payment_payload (PDict [(''id'', PStr ''card'')]) = Inr payload"
    using run_values(11) by (cases "build_payment_payload (PDict [(''id'', PStr ''card'')])") auto
  then show ?thesis
    using assms
    by (simp add: order_arm_def get_payment_methods_def set_payment_method_def checkout_detail_def active_address_def run_recalculate run_request
        run_reads bind_s_def sres_defs py_get_def dict_get_or_def py_or_def first_of_def check_cap_def check_drift_def check_address_def
        address_id_def run_values [folded run_store_def] named_def [symmetric])
qed

section \<open>Whole orders\<close>

definition fresh :: "bridge \<Rightarrow> bool" where
  "fresh s \<longleftrightarrow> dict_get (br_orders s) ''rappi-p'' = None \<and> keys_known s"

definition claimed :: "bridge \<Rightarrow> bridge" where
  "claimed s = snd (order_claim (shop_env placed) run_order 1 s)"

lemma fresh_facts [simp]: "fresh run_bridge" "fresh (said c s) = fresh s"
  by (simp_all add: fresh_def run_bridge_def keys_known_def said_def)

lemma run_claim:
  assumes "fresh s"
  shows "order_claim (shop_env c) run_order 1 s = (Inr None, claimed s)" "has (claimed s)" "keys_known (claimed s)" "clicks (claimed s) = clicks s"
    "order_claim (shop_env c) run_order 1 (claimed s) = (Inr None, claimed s)"
  using assms
  by (simp_all add: claimed_def order_claim_def bridge_claim_def fresh_def bind_s_def sres_defs has_def keys_known_def clicks_def TERMINAL_OK_def)

text \<open>The stages of one worker up to the verified approval.\<close>

definition approve_stages :: "bridge_env \<Rightarrow> order_request \<Rightarrow> cents \<Rightarrow> (bridge, (string \<times> pyval) \<times> pydict) sres" where
  "approve_stages be rq agreed =
     bind_s (order_session be rq) (\<lambda>_. bind_s (order_cart be rq) (\<lambda>c. bind_s (order_approval be rq agreed) (\<lambda>claims. return_s (c, claims))))"

lemma run_approve:
  assumes "has s" "keys_known s"
  shows "\<exists>s'. approve_stages (shop_env c) run_order 1 s = (Inr ((''r'', run_store), run_payload), s') \<and> has s' \<and> keys_known s' \<and> clicks s' = clicks s"
  using assms by (simp add: approve_stages_def bind_s_def run_session run_cart run_approval return_s_def)

lemma run_armed:
  assumes "has s"
  obtains s' where "order_arm (shop_env c) run_order 1 ''r'' run_store s = (Inr (1, PDict []), s')" "row_in ''rappi-p'' {ARMED} s'" "clicks s' = clicks s"
proof -
  obtain s' where s: "order_arm (shop_env c) run_order 1 ''r'' run_store s = (Inr (1, PDict []), s')" using run_arm [OF assms] by blast
  have "row_in ''rappi-p'' {ARMED} s'" by (rule arm_returns [OF s]) simp
  then show ?thesis using that s sameD [OF stage_calm(5) s] by blast
qed

lemma place_order_stages:
  assumes "order_claim be rq agreed s = (Inr None, s1)" "bc_enabled (be_config be)" "parse_money (oq_amount rq) = Inr agreed"
    "approve_stages be rq agreed s1 = (Inr ((resolved, store), claims), s2)" "order_arm be rq agreed resolved store s2 = (Inr (tot, detail), s3)"
  shows "place_order be rq s = order_execute be rq resolved claims tot detail s3"
proof -
  from assms(4) obtain sa sb where "order_session be rq s1 = (Inr (), sa)" "order_cart be rq sa = (Inr (resolved, store), sb)"
    "order_approval be rq agreed sb = (Inr claims, s2)" by (auto simp: approve_stages_def returns)
  then show ?thesis using assms(1-3,5) by (simp add: place_order_def when_enabled_def bind_s_def lift_res_def)
qed

lemma run_order_armed:
  assumes "fresh s0"
  obtains s where "place_order (shop_env c) run_order s0 = order_execute (shop_env c) run_order ''r'' run_payload 1 (PDict []) s"
    "row_in ''rappi-p'' {ARMED} s" "clicks s = clicks s0"
proof -
  obtain s2 where s2: "approve_stages (shop_env c) run_order 1 (claimed s0) = (Inr ((''r'', run_store), run_payload), s2)" "has s2" "clicks s2 = clicks s0"
    using run_approve [OF run_claim(2,3) [OF assms]] run_claim(4) [OF assms] by fastforce
  obtain s3 where s3: "order_arm (shop_env c) run_order 1 ''r'' run_store s2 = (Inr (1, PDict []), s3)" "row_in ''rappi-p'' {ARMED} s3" "clicks s3 = clicks s2"
    by (rule run_armed [OF s2(2)])
  show ?thesis
    by (rule that [OF place_order_stages [OF run_claim(1) [OF assms] _ _ s2(1) s3(1)] s3(2)]) (simp_all add: run_values s3(3) s2(3))
qed

lemma return_key_empty [simp]: "return_key_of (PDict []) = Inr []"
  by (simp add: return_key_of_def py_or_def py_get_def dict_get_or_def)

lemma take_armed: "row_in ''rappi-p'' {ARMED} s \<Longrightarrow> \<exists>s'. order_take run_order s = (Inr (), s') \<and> row_in ''rappi-p'' {CLICKED} s' \<and> clicks s' = clicks s"
  by (auto simp: order_take_def try_s_def bridge_transition_def row_in_def clicks_def)

lemma run_click: "order_click (shop_env placed) run_order ''r'' (PDict []) s =
    (Inr (PDict [(''order_id'', PStr ''o'')]), said (''POST'', place_order_path ''r'', PDict [(''return_key'', PStr [])]) s)"
  by (simp add: order_click_def try_s_def bind_s_def lift_res_def client_place_order_def run_request run_answer_def placed_def ok_json_def read_response_def)

lemma run_executes:
  assumes "row_in ''rappi-p'' {ARMED} s"
  obtains receipt s' where "order_execute (shop_env placed) run_order ''r'' claims 1 (PDict []) s = (Inr receipt, s')" "clicks s' = Suc (clicks s)"
    "dict_get receipt ''state'' = Some (PStr CONFIRMED)"
proof -
  obtain s1 where s1: "order_take run_order s = (Inr (), s1)" "row_in ''rappi-p'' {CLICKED} s1" "clicks s1 = clicks s" using take_armed [OF assms] by blast
  let ?s2 = "said (''POST'', place_order_path ''r'', PDict [(''return_key'', PStr [])]) s1"
  have oid: "order_id_of (PDict [(''order_id'', PStr ''o'')]) = Inr (Some ''o'')"
    by (simp add: order_id_of_def py_or_def py_get_def dict_get_or_def)
  have "\<exists>receipt s'. order_finish (shop_env placed) run_order 1 CONFIRMED (Some ''o'') ?s2 = (Inr receipt, s') \<and> clicks s' = clicks ?s2 \<and>
      dict_get receipt ''state'' = Some (PStr CONFIRMED)"
    using s1(2) by (auto simp: order_finish_def order_receipt_def bridge_transition_def row_in_def bind_s_def sres_defs Let_def said_def clicks_def)
  then show ?thesis using that s1 by (auto simp: order_execute_def bind_s_def run_click oid lift_res_def)
qed

lemma run_places:
  assumes "fresh s0"
  obtains receipt s' where "place_order (shop_env placed) run_order s0 = (Inr receipt, s')" "clicks s' = Suc (clicks s0)"
    "dict_get receipt ''state'' = Some (PStr CONFIRMED)"
proof -
  obtain s where s: "place_order (shop_env placed) run_order s0 = order_execute (shop_env placed) run_order ''r'' run_payload 1 (PDict []) s"
    "row_in ''rappi-p'' {ARMED} s" "clicks s = clicks s0" by (rule run_order_armed [OF assms])
  from run_executes [OF s(2)] show ?thesis using that s by metis
qed

lemma clicks_start [simp]: "clicks run_bridge = 0"
  by (simp add: clicks_def run_bridge_def)

section \<open>Witnesses\<close>

theorem one_click_per_key_witness:
  "fst (order_history [(shop_env placed, run_order), (shop_env placed, run_order)] run_bridge ! 0) = 1 \<and>
   fst (order_history [(shop_env placed, run_order), (shop_env placed, run_order)] run_bridge ! 1) = 0"
proof -
  obtain receipt s' where "place_order (shop_env placed) run_order run_bridge = (Inr receipt, s')" "clicks s' = 1" using run_places [OF fresh_facts(1)] by (metis clicks_start One_nat_def)
  then show ?thesis
    using one_click_per_key [of 0 1 "[(shop_env placed, run_order), (shop_env placed, run_order)]" run_bridge] by (simp split: prod.splits)
qed


text \<open>Two workers under one key, both past their approvals; then one walks to the end of its click before the other arms.\<close>

definition two_workers :: "(bridge, unit) sres" where
  "two_workers =
     bind_s (order_claim (shop_env placed) run_order 1) (\<lambda>_. bind_s (order_claim (shop_env placed) run_order 1) (\<lambda>_.
     bind_s (approve_stages (shop_env placed) run_order 1) (\<lambda>_. bind_s (approve_stages (shop_env placed) run_order 1) (\<lambda>_. return_s ()))))"

theorem rearmed_order_is_clicked_again_witness:
  "\<exists>ready s s1 s2 s3 rA. two_workers run_bridge = (Inr (), ready) \<and>
     order_arm (shop_env placed) run_order 1 ''r'' run_store ready = (Inr (1, PDict []), s) \<and> order_take run_order s = (Inr (), s1) \<and>
     order_click (shop_env placed) run_order ''r'' (PDict []) s1 = (Inr rA, s2) \<and>
     order_arm (shop_env placed) run_order 1 ''r'' run_store s2 = (Inr (1, PDict []), s3) \<and>
     clicks (snd (order_execute (shop_env placed) run_order ''r'' run_payload 1 (PDict []) s3)) = 2"
proof -
  obtain sa where sa: "approve_stages (shop_env placed) run_order 1 (claimed run_bridge) = (Inr ((''r'', run_store), run_payload), sa)"
    "has sa" "keys_known sa" "clicks sa = 0"
    using run_approve [OF run_claim(2,3) [OF fresh_facts(1)]] run_claim(4) [OF fresh_facts(1)] by (metis clicks_start)
  obtain ready where ready: "approve_stages (shop_env placed) run_order 1 sa = (Inr ((''r'', run_store), run_payload), ready)"
    "has ready" "clicks ready = 0" using run_approve [OF sa(2,3)] sa(4) by metis
  have two: "two_workers run_bridge = (Inr (), ready)"
    by (simp add: two_workers_def bind_s_def run_claim(1,5) [OF fresh_facts(1)] sa(1) ready(1) return_s_def)
  obtain s where s: "order_arm (shop_env placed) run_order 1 ''r'' run_store ready = (Inr (1, PDict []), s)" "row_in ''rappi-p'' {ARMED} s"
    "clicks s = 0" using run_armed [OF ready(2)] ready(3) by metis
  obtain s1 where s1: "order_take run_order s = (Inr (), s1)" "row_in ''rappi-p'' {CLICKED} s1" using take_armed [OF s(2)] by blast
  let ?s2 = "said (''POST'', place_order_path ''r'', PDict [(''return_key'', PStr [])]) s1"
  have "has ?s2" using s1(2) by (auto simp: has_def row_in_def said_def)
  then obtain s3 where s3: "order_arm (shop_env placed) run_order 1 ''r'' run_store ?s2 = (Inr (1, PDict []), s3)" by (rule run_armed)
  have "clicks (snd (order_execute (shop_env placed) run_order ''r'' run_payload 1 (PDict []) s3)) = clicks s + 2"
    by (rule rearmed_order_is_clicked_again [OF refl s1(1) run_click _ s3]) simp_all
  then show ?thesis using two s s1(1) run_click s3 by fastforce
qed

definition gone :: http_outcome where
  "gone = Response 404 ''stores'' (Inr PNone)"

theorem missing_order_is_confirmed_witness:
  "\<exists>s. row_in ''rappi-p'' {ARMED} s \<and> place_order (shop_env gone) run_order run_bridge = order_execute (shop_env gone) run_order ''r'' run_payload 1 (PDict []) s \<and>
     fst (place_order (shop_env gone) run_order run_bridge) = Inr (order_receipt (shop_env gone) run_order 1 CONFIRMED None (br_label s))"
proof -
  obtain s where s: "place_order (shop_env gone) run_order run_bridge = order_execute (shop_env gone) run_order ''r'' run_payload 1 (PDict []) s"
    "row_in ''rappi-p'' {ARMED} s" by (rule run_order_armed [OF fresh_facts(1)])
  have words: "is_substring ''stores'' (map lower_char (take 500 ''stores''))"
    "\<not> list_ex (\<lambda>w. is_substring w (map lower_char (take 500 ''stores''))) minimum_words" by code_simp+
  have "fst (order_execute (shop_env gone) run_order ''r'' run_payload 1 (PDict []) s) = Inr (order_receipt (shop_env gone) run_order 1 CONFIRMED None (br_label s))"
    by (rule missing_order_is_confirmed [where rk = "[]" and t = "''stores''" and js = "Inr PNone"])
       (use s(2) words in \<open>simp_all add: run_answer_def gone_def\<close>)
  then show ?thesis using s by auto
qed

lemma run_table_reads: "table_reads run_table"
  unfolding table_reads_def
proof (intro allI impI)
  fix v t
  assume "map_of run_table v = Some t"
  then have "(v, t) \<in> set run_table" by (rule map_of_SomeD)
  then show "t \<noteq> [] \<and> jo_loads (toy_of run_table) t = Inr v" unfolding run_table_def toy_of_def by auto
qed


section \<open>Settlement\<close>

definition run_port :: "http_outcome \<Rightarrow> rappi_env" where
  "run_port c = \<lparr>rp_bridge = shop_env c, rp_token = [], rp_lost = False, rp_at = [], rp_text = (\<lambda>_. ''x'')\<rparr>"

definition run_native :: pydict where
  "run_native = [(''store_id'', PStr ''7''), (''product_id'', PStr ''9''), (''store_type'', PStr ''r''), (''product_price'', PInt 19000)]"

definition run_offer :: pydict where
  "run_offer = [(''offer_id'', PStr ''f''), (''native'', PDict run_native)]"

definition run_lane :: rappi_lane where
  "run_lane = \<lparr>rl_bridge = run_bridge, rl_audit = []\<rparr>"

definition run_settle :: "http_outcome \<Rightarrow> (rappi_lane, settle_result) sres" where
  "run_settle c = rappi_settle (run_port c) (''APPROVED'', None) run_offer ''p'' (PStr ''1.00'') ''m'' (Some (\<lambda>_ _. Inr ''aQ.Yw.aQ''))"

lemma run_add:
  "\<exists>call. cart_add_endpoint (shop_env c) None [(''store_type'', PStr ''r''), (''store_id'', PStr ''7''), (''product_id'', PStr ''9''), (''name'', n),
     (''price'', PInt p), (''quantity'', PInt q)] s = (Inr (PDict []), said call s) \<and> \<not> is_click call"
proof -
  have "int_of_str ''7'' = Inr 7" by code_simp
  moreover have "read_response path (run_answer c (''PUT'', ''/api/ms/shopping-cart/v2/r/store'', b)) = Inr (PDict [])" for path b
    by (simp add: run_answer_def ok_json_def read_response_def cart_path_def)
  moreover have "guard_token run_config None = Inr ()" by (simp add: guard_token_def run_config_def or_str_def)
  ultimately show ?thesis
    by (intro exI [of _ "(''PUT'', ''/api/ms/shopping-cart/v2/r/store'', PList [PDict [(''id'', PInt 7), (''place_at'', PStr []),
            (''delivery_method'', PStr ''delivery''), (''products'', PList [PDict (cart_line ''7'' ''9'' (py_str n) q p)])]])"])
       (simp add: cart_add_endpoint_def add_to_cart_def when_enabled_def client_add_to_cart_def run_request bind_s_def lift_res_def dict_get_or_def
          Let_def is_click_def)
qed

lemma run_guard: "guard_token run_config None = Inr ()"
  by (simp add: guard_token_def run_config_def or_str_def)

lemma run_empty [simp]: "map_res f [] = Inr []" "py_iter (PList xs) = Inr xs"
  by simp_all

lemma run_store_reads:
  "py_get run_store ''products'' (PList []) = Inr (PList [])" "py_get run_store ''name'' PNone = Inr PNone"
  by (simp_all add: run_store_def py_get_def dict_get_or_def)

lemma run_quotes:
  assumes "fresh s"
  obtains q s' where "quote_endpoint (shop_env c) None ''r'' False s = (Inr q, s')" "bq_total q = ''0.01''" "bq_cart_hash q = ''h''"
    "bq_delivery_address_id q = None" "fresh s'" "clicks s' = clicks s"
proof -
  have quiet: "\<not> is_click (m, cart_path ''r'' ''/recalculate'', b)" "\<not> is_click (m, cart_path ''r'' ''/checkout/detail'', b)" for m b
    by (simp_all add: is_click_def cart_path_def)
  have "\<exists>q s'. quote_endpoint (shop_env c) None ''r'' False s = (Inr q, s') \<and> bq_total q = ''0.01'' \<and> bq_cart_hash q = ''h'' \<and>
      bq_delivery_address_id q = None \<and> fresh s' \<and> clicks s' = clicks s"
    using assms
    by (simp add: quote_endpoint_def run_guard bridge_quote_cart_def when_enabled_def whoami_def get_carts_def run_resolve run_recalculate checkout_detail_def
        active_address_def run_request run_reads bind_s_def sres_defs cart_stores_def py_get_def [of "PDict _"] dict_get_or_def py_or_def first_of_def
        address_id_def run_store_reads run_values(2,4,5) [folded run_store_def] quiet)
  then show ?thesis using that by blast
qed

lemma run_orders:
  assumes "bq_total q = ''0.01''" "bq_cart_hash q = ''h''" "bq_delivery_address_id q = None"
  shows "port_order (run_port c) ''p'' ''r'' q ''aQ.Yw.aQ'' s = place_order (shop_env c) run_order s"
proof -
  have body: "order_body ''rappi-p'' [(''purchase_id'', PStr ''p''), (''amount'', PStr ''0.01''), (''cart_hash'', PStr ''h''),
      (''capture_token'', PStr ''aQ.Yw.aQ''), (''expected_address_id'', PNone), (''store_type'', PStr ''r'')] = run_order"
    by (simp add: order_body_def run_order_def dict_get_or_def Let_def)
  show ?thesis
    by (simp add: port_order_def run_port_def port_headers_def place_order_endpoint_def assms opt_str_def bind_s_def lift_res_def run_guard or_str_def body
        split: prod.splits)
qed

text \<open>A settlement reaches the order with a bridge that has not clicked.\<close>

lemma run_settles:
  obtains s where "fresh s" "clicks s = 0"
    "run_settle c run_lane = either_s (on_bridge (place_order (shop_env c) run_order)) (\<lambda>e. return_s (order_failure (run_port c) e))
       (\<lambda>receipt. let state = py_str (dict_get_or receipt ''state'' (PStr []))
          in if state \<notin> {CONFIRMED, DRY_RUN_CONFIRMED} then return_s (not_accepted (Some ''RAIL_ERROR''))
             else accepted_order (run_port c) receipt state ''0.01'' run_offer (PStr ''1.00'') ''m'') \<lparr>rl_bridge = s, rl_audit = []\<rparr>"
proof -
  obtain call where add: "cart_add_endpoint (shop_env c) None [(''store_type'', PStr ''r''), (''store_id'', PStr ''7''), (''product_id'', PStr ''9''),
      (''name'', PStr ''producto''), (''price'', PInt 19000), (''quantity'', PInt 2)] run_bridge = (Inr (PDict []), said call run_bridge)"
    "\<not> is_click call" using run_add by blast
  obtain q s where quote: "quote_endpoint (shop_env c) None ''r'' False (said call run_bridge) = (Inr q, s)" "bq_total q = ''0.01''" "bq_cart_hash q = ''h''"
    "bq_delivery_address_id q = None" "fresh s" "clicks s = 0"
    using run_quotes [of "said call run_bridge" c] add(2) by auto
  have offer: "as_object (py_or (dict_get_or run_offer ''native'' PNone) (PDict [])) = Inr run_native"
    "dict_get_or run_offer ''offer_id'' PNone = PStr ''f''" "dict_get_or run_offer ''title'' (PStr ''producto'') = PStr ''producto''"
    by (simp_all add: run_offer_def run_native_def dict_get_or_def py_or_def as_object_def)
  have native: "truthy (dict_get_or run_native ''store_id'' PNone)" "truthy (dict_get_or run_native ''product_id'' PNone)"
    "py_str (py_or (dict_get_or run_native ''store_type'' PNone) (PStr ''turbo'')) = ''r''"
    "py_int (py_or (dict_get_or run_native ''product_price'' PNone) (PInt 0)) = Inr 19000"
    "dict_get_or run_native ''store_id'' PNone = PStr ''7''" "dict_get_or run_native ''product_id'' PNone = PStr ''9''"
    "py_or (dict_get_or run_native ''product_name'' PNone) v = v" "order_quantity 19000 = 2" for v
    by (simp_all add: run_native_def dict_get_or_def py_or_def order_quantity_def)
  have port: "rp_bridge (run_port c) = shop_env c" "port_headers (run_port c) = None" by (simp_all add: run_port_def port_headers_def)
  have posts: "port_post (cart_add_endpoint (rp_bridge (run_port c)) (port_headers (run_port c)) [(''store_type'', PStr ''r''), (''store_id'', PStr ''7''),
        (''product_id'', PStr ''9''), (''name'', PStr ''producto''), (''price'', PInt 19000), (''quantity'', PInt 2)]) run_lane =
      (Inr (PDict []), \<lparr>rl_bridge = said call run_bridge, rl_audit = []\<rparr>)"
    "port_post (quote_endpoint (rp_bridge (run_port c)) (port_headers (run_port c)) ''r'' False) \<lparr>rl_bridge = said call run_bridge, rl_audit = []\<rparr> =
      (Inr q, \<lparr>rl_bridge = s, rl_audit = []\<rparr>)"
    using add(1) quote(1) by (simp_all add: port_post_def on_bridge_def try_s_def run_lane_def port)
  have "run_settle c run_lane = either_s (on_bridge (place_order (shop_env c) run_order)) (\<lambda>e. return_s (order_failure (run_port c) e))
       (\<lambda>receipt. let state = py_str (dict_get_or receipt ''state'' (PStr []))
          in if state \<notin> {CONFIRMED, DRY_RUN_CONFIRMED} then return_s (not_accepted (Some ''RAIL_ERROR''))
             else accepted_order (run_port c) receipt state ''0.01'' run_offer (PStr ''1.00'') ''m'') \<lparr>rl_bridge = s, rl_audit = []\<rparr>"
    by (simp add: run_settle_def rappi_settle_def offer native Let_def bind_s_def lift_res_def posts quote(2,3) run_orders [OF quote(2-4)] either_s_def
        on_bridge_def split: prod.splits sum.splits)
  with quote(5,6) show ?thesis using that by blast
qed

lemma run_unsure:
  assumes "row_in ''rappi-p'' {ARMED} s"
  obtains s' where "order_execute (shop_env TransportError) run_order ''r'' run_payload 1 (PDict []) s = (Inl (BridgeError UncertainState), s')"
    "clicks s' = Suc (clicks s)" "row_in ''rappi-p'' {UNCERTAIN} s'"
proof -
  obtain s1 where s1: "order_take run_order s = (Inr (), s1)" "row_in ''rappi-p'' {CLICKED} s1" "clicks s1 = clicks s" using take_armed [OF assms] by blast
  let ?c = "(''POST'', place_order_path ''r'', PDict [(''return_key'', PStr [])])"
  have "read_response (place_order_path ''r'') (run_answer TransportError ?c) = Inl (BridgeError ShopError)"
    by (simp add: run_answer_def read_response_def is_click_def place_order_path_def)
  moreover have "row_in ''rappi-p'' {CLICKED} (said ?c s1)" using s1(2) by (simp add: row_in_def said_def)
  moreover have "is_click ?c" by (simp add: is_click_def place_order_path_def)
  ultimately have "\<exists>s'. order_click (shop_env TransportError) run_order ''r'' (PDict []) s1 = (Inl (BridgeError UncertainState), s') \<and>
      clicks s' = Suc (clicks s1) \<and> row_in ''rappi-p'' {UNCERTAIN} s'"
    by (auto simp: order_click_def try_s_def bind_s_def lift_res_def client_place_order_def run_request bridge_transition_def row_in_def raise_s_def
        said_def clicks_def)
  then show ?thesis using that s1 by (auto simp: order_execute_def bind_s_def)
qed

theorem uncertain_click_is_unpaid_witness:
  "\<exists>res s'. run_settle TransportError run_lane = (Inr res, s') \<and> clicks (rl_bridge s') = 1 \<and>
     row_in ''rappi-p'' {CLICKED, UNCERTAIN} (rl_bridge s') \<and> \<not> sr_accepted res"
proof -
  obtain s where s: "fresh s" "clicks s = 0"
    "run_settle TransportError run_lane = either_s (on_bridge (place_order (shop_env TransportError) run_order))
       (\<lambda>e. return_s (order_failure (run_port TransportError) e))
       (\<lambda>receipt. let state = py_str (dict_get_or receipt ''state'' (PStr []))
          in if state \<notin> {CONFIRMED, DRY_RUN_CONFIRMED} then return_s (not_accepted (Some ''RAIL_ERROR''))
             else accepted_order (run_port TransportError) receipt state ''0.01'' run_offer (PStr ''1.00'') ''m'') \<lparr>rl_bridge = s, rl_audit = []\<rparr>"
    by (rule run_settles)
  obtain s1 where s1: "place_order (shop_env TransportError) run_order s =
      order_execute (shop_env TransportError) run_order ''r'' run_payload 1 (PDict []) s1" "row_in ''rappi-p'' {ARMED} s1" "clicks s1 = 0"
    using run_order_armed [OF s(1)] s(2) by metis
  obtain s2 where s2: "place_order (shop_env TransportError) run_order s = (Inl (BridgeError UncertainState), s2)"
    "clicks s2 = 1" "row_in ''rappi-p'' {UNCERTAIN} s2"
    using run_unsure [OF s1(2)] s1(1,3) by (metis One_nat_def)
  let ?res = "order_failure (run_port TransportError) (BridgeError UncertainState)"
  let ?s = "\<lparr>rl_bridge = s2, rl_audit = []\<rparr>"
  have run: "run_settle TransportError run_lane = (Inr ?res, ?s)"
    using s(3) s2(1) by (simp add: either_s_def on_bridge_def return_s_def)
  have ends: "row_in ''rappi-p'' {CLICKED, UNCERTAIN} s2" using s2(3) by (auto simp: row_in_def)
  have "\<not> sr_accepted ?res"
    by (rule uncertain_click_is_unpaid [OF run [unfolded run_settle_def]]) (use ends in simp)
  then show ?thesis using run s2(2) ends by auto
qed

theorem small_orders_are_inflated_witness:
  "\<exists>res s' path sid store product name q. run_settle placed run_lane = (Inr res, s') \<and> sr_accepted res \<and>
     (''PUT'', path, PList [PDict [(''id'', PInt sid), (''place_at'', PStr []), (''delivery_method'', PStr ''delivery''),
       (''products'', PList [PDict (cart_line store product name q 19000)])]]) \<in> set (br_sent (rl_bridge s')) \<and> 38000 \<le> q * 19000"
proof -
  obtain s where s: "fresh s" "clicks s = 0"
    "run_settle placed run_lane = either_s (on_bridge (place_order (shop_env placed) run_order))
       (\<lambda>e. return_s (order_failure (run_port placed) e))
       (\<lambda>receipt. let state = py_str (dict_get_or receipt ''state'' (PStr []))
          in if state \<notin> {CONFIRMED, DRY_RUN_CONFIRMED} then return_s (not_accepted (Some ''RAIL_ERROR''))
             else accepted_order (run_port placed) receipt state ''0.01'' run_offer (PStr ''1.00'') ''m'') \<lparr>rl_bridge = s, rl_audit = []\<rparr>"
    by (rule run_settles)
  obtain receipt s2 where s2: "place_order (shop_env placed) run_order s = (Inr receipt, s2)" "dict_get receipt ''state'' = Some (PStr CONFIRMED)"
    using run_places [OF s(1)] by metis
  obtain res s' where run: "run_settle placed run_lane = (Inr res, s')" "sr_accepted res"
    using s(3) s2 by (simp add: either_s_def on_bridge_def return_s_def dict_get_or_def accepted_order_def Let_def bind_s_def modify_s_def lift_res_def run_offer_def)
  have "\<exists>path sid store product name q.
    (''PUT'', path, PList [PDict [(''id'', PInt sid), (''place_at'', PStr []), (''delivery_method'', PStr ''delivery''),
       (''products'', PList [PDict (cart_line store product name q 19000)])]]) \<in> set (br_sent (rl_bridge s')) \<and> 1 \<le> q \<and> 38000 \<le> q * 19000"
    by (rule small_orders_are_inflated [OF run(1) [unfolded run_settle_def] run(2), of run_native]) (simp_all add: run_offer_def run_native_def)
  then show ?thesis using run by blast
qed

end
