(* ===== verification/Pg_Stores.thy ===== *)
theory Pg_Stores
  imports Decision_Stores
begin

text \<open>
  The PostgreSQL adapters of the decision service: \<^verbatim>\<open>src/src/api/decision/repository_postgres.py\<close>. A database is
  the tables that the adapters read and write; a statement is a function on it, and an operation that opens its own
  transaction is rolled back when it raises. A text column that holds JSON is the value it reads to, and one that holds a time
  is the instant, which the writers cut to whole seconds. The optimistic updates of the reservation store are modelled as a
  read that leads to a plan and a guarded write, so that operations of several connections can be interleaved between them.
\<close>

section \<open>The tables\<close>

text \<open>An exact numeric column of counters and amounts counts hundredths.\<close>

record key_row =
  kr_scope :: string
  kr_response :: pyval
  kr_derived_from :: string
  kr_expires_at :: instant
  kr_created_at :: instant

record pg_outbox_row =
  or_type :: string
  or_aggregate_id :: string
  or_payload :: string
  or_created_at :: instant

record pg_mandate =
  pm_reserved :: string
  pm_spent :: string
  pm_txn :: int
  pm_status :: string

record pg_purchase =
  pp_mandate :: string
  pp_status :: string
  pp_reservation :: "string option"

record pgdb =
  pg_counters :: "(bucket_key, cents) dict"
  pg_keys :: "(string, key_row) dict"
  pg_outbox :: "(string, pg_outbox_row) dict"
  pg_mandates :: "(string, pg_mandate) dict"
  pg_purchases :: "(string, pg_purchase) dict"

definition pg_transaction :: "(pgdb, 'a) sres \<Rightarrow> (pgdb, 'a) sres" where
  "pg_transaction m db = (case m db of (Inl e, _) \<Rightarrow> (Inl e, db) | (Inr x, db') \<Rightarrow> (Inr x, db'))"

definition floor_second :: "instant \<Rightarrow> instant" where
  "floor_second t = t - t mod us_per_second"

section \<open>Velocity counters\<close>

definition counter_of :: "bucket_key \<Rightarrow> pgdb \<Rightarrow> cents" where
  "counter_of key db = dict_get_or (pg_counters db) key 0"

definition pg_add :: "bucket_key \<Rightarrow> cents \<Rightarrow> pgdb \<Rightarrow> pgdb" where
  "pg_add key v db = db\<lparr>pg_counters := dict_set key (counter_of key db + v) (pg_counters db)\<rparr>"

definition pg_sum :: "pgdb \<Rightarrow> string \<Rightarrow> string \<Rightarrow> string \<Rightarrow> instant \<Rightarrow> instant \<Rightarrow> cents" where
  "pg_sum db mid counter window start stop =
     sum_list (map snd (filter (\<lambda>(k, v). in_window mid counter window start stop k) (pg_counters db)))"

definition numeric_int :: "cents \<Rightarrow> int" where
  "numeric_int v = (if v < 0 then - ((- v) div 100) else v div 100)"

definition pg_increment_intent :: "string \<Rightarrow> pyval \<Rightarrow> instant \<Rightarrow> (pgdb, unit) sres" where
  "pg_increment_intent mid amount now db =
     (case amount_decimal amount of
        Inl e \<Rightarrow> (Inl e, db)
      | Inr a \<Rightarrow>
          (Inr (), pg_add (mid, ''amount_sum'', ''1m'', floor_minute now) a
                     (pg_add (mid, ''intents'', ''1m'', floor_minute now) 100 db)))"

definition pg_increment_escalation :: "string \<Rightarrow> instant \<Rightarrow> (pgdb, unit) sres" where
  "pg_increment_escalation mid now db = (Inr (), pg_add (mid, ''escalations'', ''1h'', floor_minute now) 100 db)"

definition pg_increment_open :: "string \<Rightarrow> (pgdb, unit) sres" where
  "pg_increment_open mid db = (Inr (), pg_add (open_key mid) 100 db)"

text \<open>The first decrement inserts a zero.\<close>

definition pg_decrement_open :: "string \<Rightarrow> (pgdb, unit) sres" where
  "pg_decrement_open mid db =
     (Inr (), db\<lparr>pg_counters := dict_set (open_key mid)
        (case dict_get (pg_counters db) (open_key mid) of None \<Rightarrow> 0 | Some v \<Rightarrow> max 0 (v - 100)) (pg_counters db)\<rparr>)"

definition pg_count_intents :: "pgdb \<Rightarrow> string \<Rightarrow> instant \<Rightarrow> micros \<Rightarrow> int res" where
  "pg_count_intents db mid now window =
     bind_res (dt_add now (- window)) (\<lambda>start.
     Inr (numeric_int (pg_sum db mid ''intents'' ''1m'' (floor_minute start) (floor_minute now))))"

definition pg_count_escalations :: "pgdb \<Rightarrow> string \<Rightarrow> instant \<Rightarrow> int res" where
  "pg_count_escalations db mid now =
     bind_res (dt_add now (- seconds 3600)) (\<lambda>start.
     Inr (numeric_int (pg_sum db mid ''escalations'' ''1h'' (floor_minute start) (floor_minute now))))"

definition pg_amount_sum :: "pgdb \<Rightarrow> string \<Rightarrow> instant \<Rightarrow> cents res" where
  "pg_amount_sum db mid now =
     bind_res (dt_add now (- seconds 60)) (\<lambda>start.
     amount_decimal (PDec (cents_dec (pg_sum db mid ''amount_sum'' ''1m'' (floor_minute start) (floor_minute now)))))"

definition pg_open_authorizations :: "pgdb \<Rightarrow> string \<Rightarrow> int" where
  "pg_open_authorizations db mid = max 0 (numeric_int (counter_of (open_key mid) db))"

text \<open>Every expiry is a row of its own; the latest one that is not over is the cooldown.\<close>

definition cooldown_expiries :: "pgdb \<Rightarrow> string \<Rightarrow> instant \<Rightarrow> instant list" where
  "cooldown_expiries db mid now =
     map (\<lambda>((m, c, w, b), v). b)
       (filter (\<lambda>((m, c, w, b), v). m = mid \<and> c = ''cooldown'' \<and> w = ''expiry'' \<and> now < b) (pg_counters db))"

definition pg_get_cooldown :: "pgdb \<Rightarrow> string \<Rightarrow> instant \<Rightarrow> instant option" where
  "pg_get_cooldown db mid now =
     (case cooldown_expiries db mid now of [] \<Rightarrow> None | t # ts \<Rightarrow> Some (fold max ts t))"

definition pg_record_cooldown :: "string \<Rightarrow> instant \<Rightarrow> (pgdb, unit) sres" where
  "pg_record_cooldown mid expiry db = (Inr (), pg_add (mid, ''cooldown'', ''expiry'', expiry) 100 db)"

definition pg_get_spend_view :: "pgdb \<Rightarrow> string \<Rightarrow> instant \<Rightarrow> pyval \<Rightarrow> pyval \<Rightarrow> pyval \<Rightarrow> pyval \<Rightarrow> spend_view res" where
  "pg_get_spend_view db mid now spent reserved txn status =
     bind_res (pg_count_intents db mid now (seconds 60)) (\<lambda>i.
     bind_res (pg_count_escalations db mid now) (\<lambda>e.
     SpendView spent reserved txn status (PInt i) (PInt e) (PInt (pg_open_authorizations db mid))
       (opt_time (pg_get_cooldown db mid now))))"

section \<open>Idempotency keys\<close>

text \<open>What \<^verbatim>\<open>json.dumps\<close> without a default can write.\<close>

definition plain_json :: "pyval \<Rightarrow> bool" where
  "plain_json v = (\<not> isl (json_dumps (\<lambda>_. Inl TypeError) v))"

definition pack_document :: "idempotency_record \<Rightarrow> pyval" where
  "pack_document r =
     PDict [(''_aval_idempotency'', PDict [(''request_fingerprint'', PStr (ir_request_fingerprint r)), (''claim_token'', opt_str (ir_claim_token r))]),
            (''response'', case ir_response r of Some m \<Rightarrow> PDict m | None \<Rightarrow> PNone)]"

definition pack_idempotency_response :: "idempotency_record \<Rightarrow> pyval res" where
  "pack_idempotency_response r = (if plain_json (pack_document r) then Inr (pack_document r) else Inl TypeError)"

text \<open>A response that is no object and a token that is no text, which the adapter never writes, are refused here.\<close>

definition unpack_idempotency_row :: "string \<Rightarrow> key_row \<Rightarrow> idempotency_record res" where
  "unpack_idempotency_row key row =
     (let metadata = (case kr_response row of PDict m \<Rightarrow> m | _ \<Rightarrow> []);
          marker = dict_get_or metadata ''_aval_idempotency'' (PDict []);
          response = (case dict_get metadata ''response'' of Some v \<Rightarrow> v | None \<Rightarrow> kr_response row)
      in bind_res (py_get marker ''request_fingerprint'' (PStr [])) (\<lambda>f.
         if py_str f = [] then Inl IdempotencyConflict
         else
           bind_res (py_get marker ''claim_token'' PNone) (\<lambda>t.
           bind_res (case t of PNone \<Rightarrow> Inr None | PStr u \<Rightarrow> Inr (Some u) | _ \<Rightarrow> Inl TypeError) (\<lambda>token.
           bind_res (case response of PNone \<Rightarrow> Inr None | PDict m \<Rightarrow> Inr (Some m) | _ \<Rightarrow> Inl TypeError) (\<lambda>resp.
           check_record \<lparr>ir_key = key, ir_scope = kr_scope row, ir_derived_from = kr_derived_from row,
                         ir_request_fingerprint = py_str f, ir_expires_at = kr_expires_at row, ir_response = resp,
                         ir_created_at = Some (kr_created_at row), ir_claim_token = token\<rparr>)))))"

definition key_row_of :: "instant \<Rightarrow> idempotency_record \<Rightarrow> pyval \<Rightarrow> key_row" where
  "key_row_of current r doc =
     \<lparr>kr_scope = ir_scope r, kr_response = doc, kr_derived_from = ir_derived_from r, kr_expires_at = ir_expires_at r,
      kr_created_at = floor_second (case ir_created_at r of Some c \<Rightarrow> c | None \<Rightarrow> current)\<rparr>"

text \<open>The insertion, or the row that is already there; the flag tells which.\<close>

definition pg_claim_row :: "instant \<Rightarrow> idempotency_record \<Rightarrow> (pgdb, bool \<times> idempotency_record) sres" where
  "pg_claim_row current r =
     pg_transaction
       (bind_s (lift_res (pack_idempotency_response r)) (\<lambda>doc.
        bind_s (get_s (\<lambda>db. dict_get (pg_keys db) (ir_key r))) (\<lambda>found.
        case found of
          Some row \<Rightarrow> bind_s (lift_res (unpack_idempotency_row (ir_key r) row)) (\<lambda>e. return_s (False, e))
        | None \<Rightarrow>
            bind_s (modify_s (\<lambda>db. db\<lparr>pg_keys := dict_set (ir_key r) (key_row_of current r doc) (pg_keys db)\<rparr>)) (\<lambda>_.
            bind_s (lift_res (unpack_idempotency_row (ir_key r) (key_row_of current r doc))) (\<lambda>e. return_s (True, e))))))"

definition pg_delete_expired :: "string \<Rightarrow> instant \<Rightarrow> pgdb \<Rightarrow> pgdb" where
  "pg_delete_expired key current db =
     (case dict_get (pg_keys db) key of
        Some row \<Rightarrow> if kr_expires_at row \<le> current then db\<lparr>pg_keys := dict_pop key (pg_keys db)\<rparr> else db
      | None \<Rightarrow> db)"

text \<open>The read row expires when its column says so, hence the deletion removes it and the second round inserts.\<close>

lemma unpack_expires: "unpack_idempotency_row key row = Inr r \<Longrightarrow> ir_expires_at r = kr_expires_at row"
  by (auto simp: unpack_idempotency_row_def check_record_def Let_def bind_res_Inr_iff split: if_splits)

lemma claim_row_found:
  "pg_claim_row current r db = (Inr (False, e), db') \<Longrightarrow>
   db' = db \<and> (\<exists>row. dict_get (pg_keys db) (ir_key r) = Some row \<and> unpack_idempotency_row (ir_key r) row = Inr e)"
  by (auto simp: pg_claim_row_def pg_transaction_def bind_s_def sres_defs split: sum.splits option.splits)

function pg_idem_reserve :: "crypto \<Rightarrow> string \<Rightarrow> instant \<Rightarrow> idempotency_record \<Rightarrow> (pgdb, idempotency_record) sres" where
  "pg_idem_reserve cr secret current r db =
     (case derive_idempotency_key cr (ir_derived_from r) secret of
        Inl e \<Rightarrow> (Inl e, db)
      | Inr expected \<Rightarrow>
          if ir_key r \<noteq> expected then (Inl IdempotencyConflict, db)
          else
            (case pg_claim_row current r db of
               (Inl e, db1) \<Rightarrow> (Inl e, db1)
             | (Inr (new, existing), db1) \<Rightarrow>
                 if new then (Inr existing, db1)
                 else if is_expired existing current then pg_idem_reserve cr secret current r (pg_delete_expired (ir_key r) current db1)
                 else if \<not> same_request existing r then (Inl IdempotencyConflict, db1)
                 else (Inr existing, db1)))"
  by pat_completeness auto
termination
  by (relation "measure (\<lambda>(cr, secret, current, r, db). if dict_get (pg_keys db) (ir_key r) = None then 0 else 1)")
     (auto simp: is_expired_def pg_delete_expired_def dest!: claim_row_found [OF sym] unpack_expires split: if_splits)

declare pg_idem_reserve.simps [simp del]

definition pg_reserve_for ::
  "crypto \<Rightarrow> string \<Rightarrow> string \<Rightarrow> string \<Rightarrow> string \<Rightarrow> pyval \<Rightarrow> pyval \<Rightarrow> micros \<Rightarrow> (pgdb, idempotency_record) sres" where
  "pg_reserve_for cr secret uuid jti scope request created_at ttl =
     bind_s (lift_res (make_record cr jti secret scope request created_at ttl None (Some uuid))) (\<lambda>r.
     bind_s (lift_res (ensure_utc created_at)) (\<lambda>t. pg_idem_reserve cr secret t r))"

definition pg_idem_get :: "string \<Rightarrow> instant \<Rightarrow> (pgdb, idempotency_record option) sres" where
  "pg_idem_get key current db =
     (case dict_get (pg_keys db) key of
        Some row \<Rightarrow>
          if current < kr_expires_at row then (bind_res (unpack_idempotency_row key row) (\<lambda>r. Inr (Some r)), db) else (Inr None, db)
      | None \<Rightarrow> (Inr None, db))"

text \<open>The update lands only on the text that was read.\<close>

definition pg_swap_response :: "string \<Rightarrow> pyval \<Rightarrow> pyval \<Rightarrow> instant \<Rightarrow> (pgdb, key_row option) sres" where
  "pg_swap_response key new old current db =
     (case dict_get (pg_keys db) key of
        Some row \<Rightarrow>
          if kr_response row = old \<and> current < kr_expires_at row
          then (Inr (Some (row\<lparr>kr_response := new\<rparr>)), db\<lparr>pg_keys := dict_set key (row\<lparr>kr_response := new\<rparr>) (pg_keys db)\<rparr>)
          else (Inr None, db)
      | None \<Rightarrow> (Inr None, db))"

definition pg_idem_save :: "string \<Rightarrow> pydict \<Rightarrow> instant \<Rightarrow> (pgdb, idempotency_record) sres" where
  "pg_idem_save key response current =
     pg_transaction
       (bind_s (get_s (\<lambda>db. dict_get (pg_keys db) key)) (\<lambda>found.
        case found of
          None \<Rightarrow> raise_s KeyError
        | Some row \<Rightarrow>
            bind_s (lift_res (unpack_idempotency_row key row)) (\<lambda>r.
            if is_expired r current then raise_s KeyError
            else if ir_response r \<noteq> None then return_s r
            else
              bind_s (lift_res (pack_idempotency_response (r\<lparr>ir_response := Some response\<rparr>))) (\<lambda>new.
              bind_s (lift_res (pack_idempotency_response r)) (\<lambda>old.
              bind_s (pg_swap_response key new old current) (\<lambda>saved.
              case saved of
                Some row' \<Rightarrow> lift_res (unpack_idempotency_row key row')
              | None \<Rightarrow> bind_s (get_s (\<lambda>db. dict_get (pg_keys db) key)) (\<lambda>again.
                          case again of None \<Rightarrow> raise_s RuntimeError | Some row' \<Rightarrow> lift_res (unpack_idempotency_row key row'))))))))"

definition pg_purge_expired :: "instant \<Rightarrow> (pgdb, int) sres" where
  "pg_purge_expired current db =
     (Inr (int (length (filter (\<lambda>(k, row). kr_expires_at row \<le> current) (pg_keys db)))),
      db\<lparr>pg_keys := filter (\<lambda>(k, row). \<not> kr_expires_at row \<le> current) (pg_keys db)\<rparr>)"

section \<open>The outbox\<close>

definition pg_outbox_append :: "outbox_event \<Rightarrow> (pgdb, unit) sres" where
  "pg_outbox_append ev =
     pg_transaction
       (bind_s (lift_res (payload_json (PDict (oe_payload ev)))) (\<lambda>payload.
        modify_s (\<lambda>db. case dict_get (pg_outbox db) (oe_event_id ev) of
          Some _ \<Rightarrow> db
        | None \<Rightarrow> db\<lparr>pg_outbox := dict_set (oe_event_id ev)
            \<lparr>or_type = oe_type ev, or_aggregate_id = oe_aggregate_id ev, or_payload = payload,
             or_created_at = floor_second (oe_created_at ev)\<rparr> (pg_outbox db)\<rparr>)))"

section \<open>Reservations\<close>

definition fmt_money :: "dec \<Rightarrow> string res" where
  "fmt_money d = bind_res (amount_decimal (PDec d)) (\<lambda>c. Inr (cents_str c))"

text \<open>What an operation has read of a mandate, and what it means to write.\<close>

record pg_plan =
  pl_mandate :: string
  pl_reserved :: string
  pl_spent :: "string option"
  pl_txn :: int
  pl_active :: bool
  pl_new_reserved :: string
  pl_new_txn :: int

definition pg_read_reserve :: "string \<Rightarrow> cents \<Rightarrow> cents \<Rightarrow> pyval \<Rightarrow> pgdb \<Rightarrow> pg_plan option res" where
  "pg_read_reserve mid a budget max_txn db =
     (case dict_get (pg_mandates db) mid of
        None \<Rightarrow> Inr None
      | Some m \<Rightarrow>
          if pm_status m \<noteq> ''active'' then Inr None
          else
            bind_res (amount_decimal (PStr (pm_reserved m))) (\<lambda>r.
            bind_res (amount_decimal (PStr (pm_spent m))) (\<lambda>sp.
            if dec_less (cents_dec budget) (dec_add (dec_add (cents_dec r) (cents_dec sp)) (cents_dec a)) then Inr None
            else
              bind_res (if max_txn = PNone then Inr OLess else py_cmp (PInt (pm_txn m + 1)) max_txn) (\<lambda>c.
              if c = OGreater then Inr None
              else
                bind_res (fmt_money (dec_add (cents_dec r) (cents_dec a))) (\<lambda>new.
                Inr (Some \<lparr>pl_mandate = mid, pl_reserved = pm_reserved m, pl_spent = Some (pm_spent m), pl_txn = pm_txn m,
                           pl_active = True, pl_new_reserved = new, pl_new_txn = pm_txn m + 1\<rparr>))))))"

definition pg_read_release :: "string \<Rightarrow> cents \<Rightarrow> pgdb \<Rightarrow> pg_plan option res" where
  "pg_read_release mid a db =
     (case dict_get (pg_mandates db) mid of
        None \<Rightarrow> Inr None
      | Some m \<Rightarrow>
          bind_res (amount_decimal (PStr (pm_reserved m))) (\<lambda>r.
          if r < a then Inr None
          else
            bind_res (fmt_money (dec_sub (cents_dec r) (cents_dec a))) (\<lambda>new.
            Inr (Some \<lparr>pl_mandate = mid, pl_reserved = pm_reserved m, pl_spent = None, pl_txn = pm_txn m,
                       pl_active = False, pl_new_reserved = new, pl_new_txn = max 0 (pm_txn m - 1)\<rparr>))))"

text \<open>The guarded write.\<close>

definition plan_matches :: "pg_plan \<Rightarrow> pg_mandate \<Rightarrow> bool" where
  "plan_matches p m \<longleftrightarrow> (pl_active p \<longrightarrow> pm_status m = ''active'') \<and> pm_reserved m = pl_reserved p
     \<and> (case pl_spent p of Some sp \<Rightarrow> pm_spent m = sp | None \<Rightarrow> True) \<and> pm_txn m = pl_txn p"

definition pg_swap :: "pg_plan \<Rightarrow> (pgdb, bool) sres" where
  "pg_swap p db =
     (case dict_get (pg_mandates db) (pl_mandate p) of
        Some m \<Rightarrow>
          if plan_matches p m
          then (Inr True, db\<lparr>pg_mandates := dict_set (pl_mandate p)
                  (m\<lparr>pm_reserved := pl_new_reserved p, pm_txn := pl_new_txn p\<rparr>) (pg_mandates db)\<rparr>)
          else (Inr False, db)
      | None \<Rightarrow> (Inr False, db))"

definition pending_purchase :: "pgdb \<Rightarrow> string \<Rightarrow> pg_purchase option" where
  "pending_purchase db pid =
     (case dict_get (pg_purchases db) pid of
        Some p \<Rightarrow> if pp_status p = ''pending_capture'' then Some p else None
      | None \<Rightarrow> None)"

definition pg_reserve_budget ::
  "string \<Rightarrow> string \<Rightarrow> pyval \<Rightarrow> pyval \<Rightarrow> pyval \<Rightarrow> string option \<Rightarrow> string option \<Rightarrow> (pgdb, string option) sres" where
  "pg_reserve_budget uuid mid amount total_budget max_txn rid rkey =
     bind_s (lift_res (amount_decimal amount)) (\<lambda>a.
     bind_s (lift_res (amount_decimal total_budget)) (\<lambda>budget.
     let ident = (case or_str rid None of Some i \<Rightarrow> i | None \<Rightarrow> uuid)
     in pg_transaction
       (bind_s (get_s (\<lambda>db. case rkey of Some k \<Rightarrow> pending_purchase db k | None \<Rightarrow> None)) (\<lambda>existing.
        case existing of
          Some p \<Rightarrow> return_s (or_str (pp_reservation p) None)
        | None \<Rightarrow>
            bind_s (\<lambda>db. (pg_read_reserve mid a budget max_txn db, db)) (\<lambda>plan.
            case plan of
              None \<Rightarrow> return_s None
            | Some p \<Rightarrow> bind_s (pg_swap p) (\<lambda>won. return_s (if won then Some ident else None)))))))"

definition reserved_purchase :: "pgdb \<Rightarrow> string \<Rightarrow> string \<Rightarrow> bool" where
  "reserved_purchase db rid mid =
     list_ex (\<lambda>(k, p). pp_reservation p = Some rid \<and> pp_mandate p = mid \<and> pp_status p = ''pending_capture'') (pg_purchases db)"

definition pg_release_budget :: "string \<Rightarrow> pyval \<Rightarrow> string option \<Rightarrow> (pgdb, bool) sres" where
  "pg_release_budget mid amount rid =
     bind_s (lift_res (amount_decimal amount)) (\<lambda>a.
     pg_transaction
       (bind_s (get_s (\<lambda>db. case rid of Some r \<Rightarrow> reserved_purchase db r mid | None \<Rightarrow> True)) (\<lambda>held.
        if \<not> held then return_s False
        else
          bind_s (\<lambda>db. (pg_read_release mid a db, db)) (\<lambda>plan.
          case plan of None \<Rightarrow> return_s False | Some p \<Rightarrow> pg_swap p))))"

end
