(* ===== verification/Pg_Props.thy ===== *)
theory Pg_Props
  imports Pg_Stores
begin

text \<open>
  What the PostgreSQL adapters keep of the contracts that the in-memory ones meet. The idempotency store is a second
  provider of \<open>idempotency_store\<close> and the reservations, interleaved between read and write, of \<open>budget_ledger\<close>; where
  an adapter promises less than its counterpart in memory, a theorem says so.
\<close>

section \<open>Idempotency\<close>

definition wf_key_row :: "string \<Rightarrow> key_row \<Rightarrow> bool" where
  "wf_key_row key row \<longleftrightarrow>
     (case unpack_idempotency_row key row of Inl _ \<Rightarrow> False | Inr r \<Rightarrow> kr_response row = pack_document r)"

definition pg_stored :: "instant \<Rightarrow> idempotency_record \<Rightarrow> idempotency_record" where
  "pg_stored t r = r\<lparr>ir_created_at := Some (floor_second (case ir_created_at r of Some c \<Rightarrow> c | None \<Rightarrow> t))\<rparr>"

definition pg_live :: "pgdb \<Rightarrow> string \<Rightarrow> instant \<Rightarrow> idempotency_record option" where
  "pg_live db k t =
     (case dict_get (pg_keys db) k of
        None \<Rightarrow> None
      | Some row \<Rightarrow>
          if wf_key_row k row
          then (case unpack_idempotency_row k row of Inl _ \<Rightarrow> None | Inr r \<Rightarrow> if is_expired r t then None else Some r)
          else None)"

definition pg_admissible :: "crypto \<Rightarrow> string \<Rightarrow> pgdb \<Rightarrow> idempotency_record \<Rightarrow> bool" where
  "pg_admissible cr secret db r \<longleftrightarrow>
     derive_idempotency_key cr (ir_derived_from r) secret = Inr (ir_key r) \<and> plain_json (pack_document r)
     \<and> ir_request_fingerprint r \<noteq> [] \<and> ir_created_at r \<noteq> None \<and> check_record r = Inr r
     \<and> (case dict_get (pg_keys db) (ir_key r) of None \<Rightarrow> True | Some row \<Rightarrow> wf_key_row (ir_key r) row)"

lemma floor_second_le: "floor_second t \<le> t"
  by (simp add: floor_second_def)

lemma unpack_packed:
  assumes "check_record r = Inr r" "ir_created_at r \<noteq> None" "ir_request_fingerprint r \<noteq> []"
  shows "unpack_idempotency_row (ir_key r) (key_row_of t r (pack_document r)) = Inr (pg_stored t r)"
proof -
  obtain c where c: "ir_created_at r = Some c" using assms(2) by blast
  have "check_record (pg_stored t r) = Inr (pg_stored t r)"
    using assms(1) c floor_second_le [of c] by (auto simp: check_record_def pg_stored_def split: if_splits)
  then show ?thesis
    using assms(3) c
    by (cases r; cases "ir_claim_token r"; cases "ir_response r")
       (simp_all add: unpack_idempotency_row_def key_row_of_def pack_document_def opt_str_def py_get_def dict_get_or_def pg_stored_def Let_def)
qed

lemma pack_stored [simp]: "pack_document (pg_stored t r) = pack_document r"
  by (simp add: pack_document_def pg_stored_def)

lemma pg_stored_fields [simp]:
  "ir_key (pg_stored t r) = ir_key r" "same_request (pg_stored t r) r" "ir_response (pg_stored t r) = ir_response r"
  "is_expired (pg_stored t r) u = is_expired r u"
  by (simp_all add: pg_stored_def same_request_def is_expired_def)

lemma wf_packed:
  "check_record r = Inr r \<Longrightarrow> ir_created_at r \<noteq> None \<Longrightarrow> ir_request_fingerprint r \<noteq> [] \<Longrightarrow>
   wf_key_row (ir_key r) (key_row_of t r (pack_document r))"
  by (simp add: wf_key_row_def unpack_packed) (simp add: key_row_of_def)

lemma unpack_key: "unpack_idempotency_row k row = Inr r \<Longrightarrow> ir_key r = k \<and> check_record r = Inr r \<and> ir_request_fingerprint r \<noteq> []"
  by (auto simp: unpack_idempotency_row_def check_record_def Let_def bind_res_Inr_iff split: if_splits)

text \<open>A new record is stored, cut to whole seconds.\<close>

lemma pg_reserve_free:
  assumes adm: "pg_admissible cr secret db r" and free: "dict_get (pg_keys db) (ir_key r) = None"
  shows "pg_idem_reserve cr secret t r db =
    (Inr (pg_stored t r), db\<lparr>pg_keys := dict_set (ir_key r) (key_row_of t r (pack_document r)) (pg_keys db)\<rparr>)"
proof -
  have "pg_claim_row t r db =
      (Inr (True, pg_stored t r), db\<lparr>pg_keys := dict_set (ir_key r) (key_row_of t r (pack_document r)) (pg_keys db)\<rparr>)"
    using assms unpack_packed [of r t]
    by (simp add: pg_admissible_def pg_claim_row_def pg_transaction_def pack_idempotency_response_def bind_s_def sres_defs)
  then show ?thesis using adm by (subst pg_idem_reserve.simps) (simp add: pg_admissible_def)
qed

text \<open>A row that is there is read; one that has expired is deleted, and the second round inserts.\<close>

lemma pg_reserve_taken:
  assumes pack: "plain_json (pack_document r)" and key: "derive_idempotency_key cr (ir_derived_from r) secret = Inr (ir_key r)"
    and row: "dict_get (pg_keys db) (ir_key r) = Some row" "unpack_idempotency_row (ir_key r) row = Inr e"
  shows "pg_idem_reserve cr secret t r db =
    (if is_expired e t then pg_idem_reserve cr secret t r (db\<lparr>pg_keys := dict_pop (ir_key r) (pg_keys db)\<rparr>)
     else if \<not> same_request e r then (Inl IdempotencyConflict, db) else (Inr e, db))"
proof -
  have "pg_claim_row t r db = (Inr (False, e), db)"
    using pack row by (simp add: pg_claim_row_def pg_transaction_def pack_idempotency_response_def bind_s_def sres_defs)
  moreover have "is_expired e t \<Longrightarrow> pg_delete_expired (ir_key r) t db = db\<lparr>pg_keys := dict_pop (ir_key r) (pg_keys db)\<rparr>"
    using row unpack_expires [OF row(2)] by (simp add: pg_delete_expired_def is_expired_def)
  ultimately show ?thesis using key by (subst pg_idem_reserve.simps) simp
qed

lemma pg_reserve_new:
  assumes adm: "pg_admissible cr secret db r" and dead: "pg_live db (ir_key r) t = None"
  shows "\<exists>row. pg_idem_reserve cr secret t r db = (Inr (pg_stored t r), row)
     \<and> (\<forall>k. dict_get (pg_keys row) k = (if k = ir_key r then Some (key_row_of t r (pack_document r)) else dict_get (pg_keys db) k))"
proof (cases "dict_get (pg_keys db) (ir_key r)")
  case None
  with pg_reserve_free [OF adm] show ?thesis by simp
next
  case (Some row)
  with adm have "wf_key_row (ir_key r) row" by (simp add: pg_admissible_def)
  then obtain e where e: "unpack_idempotency_row (ir_key r) row = Inr e" by (auto simp: wf_key_row_def split: sum.splits)
  with Some dead \<open>wf_key_row (ir_key r) row\<close> have "is_expired e t" by (auto simp: pg_live_def split: if_splits)
  let ?db = "db\<lparr>pg_keys := dict_pop (ir_key r) (pg_keys db)\<rparr>"
  have "pg_admissible cr secret ?db r" using adm by (simp add: pg_admissible_def)
  from pg_reserve_free [OF this, of t] pg_reserve_taken [OF _ _ Some e, of cr secret t] adm \<open>is_expired e t\<close> show ?thesis
    by (auto simp: pg_admissible_def)
qed

lemma pg_live_cong: "dict_get (pg_keys db') k = dict_get (pg_keys db) k \<Longrightarrow> pg_live db' k t = pg_live db k t"
  by (simp add: pg_live_def)

lemma plain_pack: "plain_json (PDict resp) \<Longrightarrow> plain_json (pack_document (r\<lparr>ir_response := Some resp\<rparr>))"
  by (auto simp: plain_json_def pack_document_def opt_str_def bind_res_def split: sum.splits option.splits simp del: json_dumps.simps(9))
     (auto simp: bind_res_def split: sum.splits)

lemma plain_pack_empty: "ir_response r = None \<Longrightarrow> plain_json (pack_document r)"
  by (simp add: plain_json_def pack_document_def opt_str_def split: option.splits)

lemma unpack_update:
  assumes "unpack_idempotency_row k row = Inr r"
  shows "unpack_idempotency_row k (row\<lparr>kr_response := pack_document (r\<lparr>ir_response := x\<rparr>)\<rparr>) = Inr (r\<lparr>ir_response := x\<rparr>)"
proof -
  obtain c where c: "ir_created_at r = Some c" "c = kr_created_at row" "ir_scope r = kr_scope row" "ir_derived_from r = kr_derived_from row"
    "ir_expires_at r = kr_expires_at row"
    using assms by (auto simp: unpack_idempotency_row_def check_record_def Let_def bind_res_Inr_iff split: if_splits)
  have "check_record (r\<lparr>ir_response := x\<rparr>) = Inr (r\<lparr>ir_response := x\<rparr>)"
    using unpack_key [OF assms] c(1) by (auto simp: check_record_def split: if_splits)
  then show ?thesis
    using unpack_key [OF assms] c
    by (cases r; cases "ir_claim_token r"; cases x)
       (simp_all add: unpack_idempotency_row_def pack_document_def opt_str_def py_get_def dict_get_or_def Let_def)
qed

lemma pg_save_first:
  assumes plain: "plain_json (PDict resp)" and live: "pg_live db k t = Some r" and none: "ir_response r = None"
  shows "\<exists>row. dict_get (pg_keys db) k = Some row \<and> unpack_idempotency_row k row = Inr r \<and>
    pg_idem_save k resp t db = (Inr (r\<lparr>ir_response := Some resp\<rparr>),
      db\<lparr>pg_keys := dict_set k (row\<lparr>kr_response := pack_document (r\<lparr>ir_response := Some resp\<rparr>)\<rparr>) (pg_keys db)\<rparr>)"
proof -
  from live obtain row where row: "dict_get (pg_keys db) k = Some row" "unpack_idempotency_row k row = Inr r"
    "kr_response row = pack_document r" "\<not> is_expired r t"
    by (auto simp: pg_live_def wf_key_row_def split: option.splits sum.splits if_splits)
  then have "t < kr_expires_at row" using unpack_expires [OF row(2)] by (simp add: is_expired_def)
  with row unpack_update [OF row(2), of "Some resp"] plain_pack [OF plain, of r] plain_pack_empty [OF none] none show ?thesis
    by (simp add: pg_idem_save_def pg_transaction_def bind_s_def sres_defs pg_swap_response_def pack_idempotency_response_def)
qed

interpretation pg_idem: idempotency_store
  "pg_idem_reserve cr secret" pg_idem_save pg_live "pg_admissible cr secret" pg_stored "\<lambda>resp. plain_json (PDict resp)" for cr secret
proof unfold_locales
  fix db r t
  assume adm: "pg_admissible cr secret db r" and dead: "pg_live db (ir_key r) t = None"
  then obtain db' where db': "pg_idem_reserve cr secret t r db = (Inr (pg_stored t r), db')"
    and rows: "dict_get (pg_keys db') k = (if k = ir_key r then Some (key_row_of t r (pack_document r)) else dict_get (pg_keys db) k)" for k
    using pg_reserve_new by metis
  have wf: "wf_key_row (ir_key r) (key_row_of t r (pack_document r))"
    and unpack: "unpack_idempotency_row (ir_key r) (key_row_of t r (pack_document r)) = Inr (pg_stored t r)"
    using adm by (simp_all add: pg_admissible_def wf_packed unpack_packed)
  have "pg_live db' k u = (if k = ir_key r then if is_expired r u then None else Some (pg_stored t r) else pg_live db k u)" for k u
    using rows [of k] wf unpack by (simp add: pg_live_def)
  moreover have "pg_admissible cr secret db' q = pg_admissible cr secret db q" for q
    using rows [of "ir_key q"] wf adm by (cases "ir_key q = ir_key r") (auto simp: pg_admissible_def split: option.splits)
  ultimately show "\<exists>s'. pg_idem_reserve cr secret t r db = (Inr (pg_stored t r), s') \<and>
     (\<forall>k u. pg_live s' k u = (if k = ir_key r then if is_expired r u then None else Some (pg_stored t r) else pg_live db k u)) \<and>
     (\<forall>q. pg_admissible cr secret s' q = pg_admissible cr secret db q)" using db' by blast
next
  fix db r t e
  assume "pg_admissible cr secret db r" "pg_live db (ir_key r) t = Some e" "same_request e r"
  then show "pg_idem_reserve cr secret t r db = (Inr e, db)"
    using pg_reserve_taken [of r cr secret db _ e t] by (auto simp: pg_live_def pg_admissible_def split: option.splits sum.splits if_splits)
next
  fix db r t e
  assume live: "pg_live db (ir_key r) t = Some e" and other: "\<not> same_request e r"
  then obtain row where row: "dict_get (pg_keys db) (ir_key r) = Some row" "unpack_idempotency_row (ir_key r) row = Inr e" "\<not> is_expired e t"
    by (auto simp: pg_live_def split: option.splits sum.splits if_splits)
  show "\<exists>x. pg_idem_reserve cr secret t r db = (Inl x, db) \<and> (pg_admissible cr secret db r \<longrightarrow> x = IdempotencyConflict)"
  proof (cases "plain_json (pack_document r)")
    case True
    have "derive_idempotency_key cr (ir_derived_from r) secret = Inr (ir_key r) \<or> pg_idem_reserve cr secret t r db = (Inl IdempotencyConflict, db)
        \<or> (\<exists>x. derive_idempotency_key cr (ir_derived_from r) secret = Inl x \<and> pg_idem_reserve cr secret t r db = (Inl x, db))"
      by (subst (1 2) pg_idem_reserve.simps) (auto split: sum.splits)
    with pg_reserve_taken [OF True _ row(1,2), of cr secret t] row(3) other show ?thesis by (auto simp: pg_admissible_def)
  next
    case False
    then have "pg_claim_row t r db = (Inl TypeError, db)"
      by (simp add: pg_claim_row_def pg_transaction_def pack_idempotency_response_def bind_s_def sres_defs)
    then have "\<exists>x. pg_idem_reserve cr secret t r db = (Inl x, db)"
      by (subst pg_idem_reserve.simps) (auto split: sum.splits)
    with False show ?thesis by (auto simp: pg_admissible_def)
  qed
next
  fix resp db k t r
  assume "plain_json (PDict resp)" "pg_live db k t = Some r" "ir_response r = None"
  from pg_save_first [OF this] obtain row where row: "dict_get (pg_keys db) k = Some row" "unpack_idempotency_row k row = Inr r"
    and save: "pg_idem_save k resp t db = (Inr (r\<lparr>ir_response := Some resp\<rparr>),
      db\<lparr>pg_keys := dict_set k (row\<lparr>kr_response := pack_document (r\<lparr>ir_response := Some resp\<rparr>)\<rparr>) (pg_keys db)\<rparr>)" by blast
  let ?row = "row\<lparr>kr_response := pack_document (r\<lparr>ir_response := Some resp\<rparr>)\<rparr>"
  let ?db = "db\<lparr>pg_keys := dict_set k ?row (pg_keys db)\<rparr>"
  have wf: "wf_key_row k ?row" "wf_key_row k row"
    using unpack_update [OF row(2), of "Some resp"] \<open>pg_live db k t = Some r\<close> row
    by (auto simp: wf_key_row_def pg_live_def split: if_splits)
  have "pg_live ?db k' u = (if k' = k then if is_expired r u then None else Some (r\<lparr>ir_response := Some resp\<rparr>) else pg_live db k' u)" for k' u
    using unpack_update [OF row(2), of "Some resp"] wf by (simp add: pg_live_def)
  moreover have "pg_admissible cr secret ?db q = pg_admissible cr secret db q" for q
    using wf row by (auto simp: pg_admissible_def)
  ultimately show "\<exists>s'. pg_idem_save k resp t db = (Inr (r\<lparr>ir_response := Some resp\<rparr>), s') \<and>
     (\<forall>k' u. pg_live s' k' u = (if k' = k then if is_expired r u then None else Some (r\<lparr>ir_response := Some resp\<rparr>) else pg_live db k' u)) \<and>
     (\<forall>q. pg_admissible cr secret s' q = pg_admissible cr secret db q)" using save by blast
next
  fix db k t r resp
  assume "pg_live db k t = Some r" "ir_response r \<noteq> None"
  then show "pg_idem_save k resp t db = (Inr r, db)"
    by (auto simp: pg_live_def pg_idem_save_def pg_transaction_def bind_s_def sres_defs split: option.splits sum.splits if_splits)
qed simp_all

text \<open>
  C33: a request whose response was saved is answered with it by the PostgreSQL store for as long as the record is kept, through any
  serializable response, however often it is retried; what is kept of the record is cut to whole seconds.
\<close>

theorem pg_replays_saved_response:
  assumes "pg_admissible cr secret db r" "pg_live db (ir_key r) t = None" "ir_response r = None" "plain_json (PDict resp)"
    and "pg_idem_reserve cr secret t r db = (Inr r1, db1)" "pg_idem_save (ir_key r1) resp t1 db1 = (Inr r2, db2)"
    and "ir_key r' = ir_key r" "same_request r r'" "pg_admissible cr secret db r'" "\<not> is_expired r t1" "\<not> is_expired r t2"
  shows "pg_idem_reserve cr secret t2 r' db2 = (Inr ((pg_stored t r)\<lparr>ir_response := Some resp\<rparr>), db2)"
  by (rule pg_idem.replay [OF assms])

text \<open>
  C34: the recursion of the store ends after one further round: a claim over an expired row deletes it and inserts the new record
  in its place, and returns.
\<close>

theorem pg_reserve_recurses_once:
  assumes "pg_admissible cr secret db r" "pg_live db (ir_key r) t = None"
  shows "\<exists>db'. pg_idem_reserve cr secret t r db = (Inr (pg_stored t r), db')
     \<and> dict_get (pg_keys db') (ir_key r) = Some (key_row_of t r (pack_document r))
     \<and> (\<forall>k. k \<noteq> ir_key r \<longrightarrow> dict_get (pg_keys db') k = dict_get (pg_keys db) k)"
  using pg_reserve_new [OF assms] by metis

definition empty_pg :: pgdb where
  "empty_pg = \<lparr>pg_counters = [], pg_keys = [], pg_outbox = [], pg_mandates = [], pg_purchases = []\<rparr>"

lemma sample_admissible:
  "pg_admissible sample_crypto ''key'' empty_pg (sample_record u)" "pg_live empty_pg k t = None"
  by (simp_all add: pg_admissible_def sample_record_def sample_crypto_def derive_idempotency_key_def secret_bytes_def check_record_def
      plain_json_def pack_document_def opt_str_def empty_pg_def pg_live_def)

definition sample_keyed :: pgdb where
  "sample_keyed = empty_pg\<lparr>pg_keys := [(''key:i1'', key_row_of 0 (sample_record ''u1'') (pack_document (sample_record ''u1'')))]\<rparr>"

lemma sample_keyed_reserve: "pg_idem_reserve sample_crypto ''key'' 0 (sample_record ''u1'') empty_pg = (Inr (pg_stored 0 (sample_record ''u1'')), sample_keyed)"
  using pg_reserve_free [OF sample_admissible(1), of "''u1''" 0] by (simp add: empty_pg_def sample_keyed_def sample_record_def)

lemma sample_keyed_wf: "wf_key_row ''key:i1'' (key_row_of 0 (sample_record ''u1'') (pack_document (sample_record ''u1'')))"
  using wf_packed [of "sample_record ''u1''" 0] sample_admissible(1) [of "''u1''"] by (simp add: pg_admissible_def sample_record_def)

theorem pg_replays_saved_response_witness:
  "\<exists>db. pg_idem_save ''key:i1'' [(''status'', PStr ''ok'')] 10 sample_keyed =
      (Inr ((pg_stored 0 (sample_record ''u1''))\<lparr>ir_response := Some [(''status'', PStr ''ok'')]\<rparr>), db) \<and>
     pg_idem_reserve sample_crypto ''key'' 20 (sample_record ''u2'') db =
      (Inr ((pg_stored 0 (sample_record ''u1''))\<lparr>ir_response := Some [(''status'', PStr ''ok'')]\<rparr>), db)"
proof -
  let ?r = "sample_record ''u1''"
  have live: "pg_live sample_keyed ''key:i1'' 10 = Some (pg_stored 0 ?r)"
    using sample_keyed_wf unpack_packed [of ?r 0]
    by (simp add: sample_keyed_def pg_live_def sample_record_def check_record_def is_expired_def pg_stored_def)
  have plain: "plain_json (PDict [(''status'', PStr ''ok'')])" by (simp add: plain_json_def)
  from pg_save_first [OF plain live] obtain db where
    save: "pg_idem_save ''key:i1'' [(''status'', PStr ''ok'')] 10 sample_keyed =
      (Inr ((pg_stored 0 ?r)\<lparr>ir_response := Some [(''status'', PStr ''ok'')]\<rparr>), db)"
    by (auto simp: sample_record_def)
  have "pg_idem_reserve sample_crypto ''key'' 20 (sample_record ''u2'') db =
      (Inr ((pg_stored 0 ?r)\<lparr>ir_response := Some [(''status'', PStr ''ok'')]\<rparr>), db)"
    by (rule pg_replays_saved_response [OF sample_admissible(1) sample_admissible(2) _ plain sample_keyed_reserve, where ?t1.0 = 10 and ?r2.0 = "_"])
       (use save sample_admissible(1) in \<open>simp_all add: sample_record_def same_request_def is_expired_def pg_stored_def\<close>)
  with save show ?thesis by blast
qed

theorem pg_reserve_recurses_once_witness:
  "\<exists>db r. r = (sample_record ''u2'')\<lparr>ir_created_at := Some 4000000000000, ir_expires_at := 8000000000000\<rparr> \<and>
     pg_idem_reserve sample_crypto ''key'' 4000000000000 r sample_keyed = (Inr (pg_stored 4000000000000 r), db)"
proof -
  let ?r = "(sample_record ''u2'')\<lparr>ir_created_at := Some 4000000000000, ir_expires_at := 8000000000000\<rparr>"
  have "pg_admissible sample_crypto ''key'' sample_keyed ?r"
    using sample_keyed_wf
    by (simp add: pg_admissible_def sample_keyed_def sample_crypto_def derive_idempotency_key_def secret_bytes_def check_record_def
        plain_json_def pack_document_def opt_str_def sample_record_def)
  moreover have "pg_live sample_keyed (ir_key ?r) 4000000000000 = None"
    using sample_keyed_wf unpack_packed [of "sample_record ''u1''" 0]
    by (simp add: sample_keyed_def pg_live_def sample_record_def check_record_def is_expired_def pg_stored_def)
  ultimately show ?thesis using pg_reserve_recurses_once [of sample_crypto "''key''" sample_keyed ?r 4000000000000] by blast
qed

section \<open>Reservations\<close>

text \<open>
  Any number of connections: each reads a plan and writes it later, if the row is still what was read. Purchases change at will.
  \<open>bud\<close> is the budget of each mandate, which the callers pass along.
\<close>

type_synonym pg_world = "pgdb \<times> pg_plan list"

inductive pg_step :: "(string \<Rightarrow> cents) \<Rightarrow> pg_world \<Rightarrow> pg_world \<Rightarrow> bool" for bud :: "string \<Rightarrow> cents" where
  read_reserve: "amount_decimal amount = Inr a \<Longrightarrow> pg_read_reserve mid a (bud mid) max_txn db = Inr (Some p) \<Longrightarrow> pg_step bud (db, ps) (db, p # ps)"
| read_release: "amount_decimal amount = Inr a \<Longrightarrow> pg_read_release mid a db = Inr (Some p) \<Longrightarrow> pg_step bud (db, ps) (db, p # ps)"
| swap_row: "p \<in> set ps \<Longrightarrow> pg_swap p db = (Inr won, db') \<Longrightarrow> pg_step bud (db, ps) (db', ps)"
| purchase: "pg_step bud (db, ps) (db\<lparr>pg_purchases := rows\<rparr>, ps)"

definition pg_row_sound :: "cents \<Rightarrow> pg_mandate \<Rightarrow> bool" where
  "pg_row_sound b m \<longleftrightarrow> (\<exists>r sp. pm_reserved m = cents_str r \<and> pm_spent m = cents_str sp \<and> valid_cents r \<and> valid_cents sp \<and> r + sp \<le> b)"

text \<open>A plan is sound if its write keeps every row sound that it matches.\<close>

definition plan_sound :: "cents \<Rightarrow> pg_plan \<Rightarrow> bool" where
  "plan_sound b p \<longleftrightarrow> (\<forall>m. pg_row_sound b m \<longrightarrow> plan_matches p m \<longrightarrow> pg_row_sound b (m\<lparr>pm_reserved := pl_new_reserved p, pm_txn := pl_new_txn p\<rparr>))"

definition pg_ok :: "(string \<Rightarrow> cents) \<Rightarrow> pg_world \<Rightarrow> bool" where
  "pg_ok bud w \<longleftrightarrow> (\<forall>mid. valid_cents (bud mid)) \<and> (\<forall>mid m. dict_get (pg_mandates (fst w)) mid = Some m \<longrightarrow> pg_row_sound (bud mid) m)
     \<and> (\<forall>p \<in> set (snd w). plan_sound (bud (pl_mandate p)) p)"

definition text_cents :: "string \<Rightarrow> cents" where
  "text_cents t = (case amount_decimal (PStr t) of Inr c \<Rightarrow> c | Inl _ \<Rightarrow> 0)"

definition pg_committed :: "pg_world \<Rightarrow> string \<Rightarrow> cents" where
  "pg_committed w mid = (case dict_get (pg_mandates (fst w)) mid of
     Some m \<Rightarrow> text_cents (pm_reserved m) + text_cents (pm_spent m) | None \<Rightarrow> 0)"

definition pg_known :: "pg_world \<Rightarrow> string \<Rightarrow> bool" where
  "pg_known w mid \<longleftrightarrow> dict_get (pg_mandates (fst w)) mid \<noteq> None"

lemma text_cents_str [simp]: "valid_cents c \<Longrightarrow> text_cents (cents_str c) = c"
  by (simp add: text_cents_def)

lemma valid_cents_le: "valid_cents b \<Longrightarrow> 0 \<le> c \<Longrightarrow> c \<le> b \<Longrightarrow> valid_cents c"
  by (simp add: valid_cents_def)

lemma fmt_money_cents [simp]: "valid_cents c \<Longrightarrow> fmt_money (cents_dec c) = Inr (cents_str c)"
  by (simp add: fmt_money_def)

lemma row_money:
  assumes "pg_row_sound b m"
  obtains r sp where "pm_reserved m = cents_str r" "pm_spent m = cents_str sp" "valid_cents r" "valid_cents sp" "r + sp \<le> b"
    "amount_decimal (PStr (pm_reserved m)) = Inr r" "amount_decimal (PStr (pm_spent m)) = Inr sp"
  using assms by (auto simp: pg_row_sound_def)

lemma read_reserve_plan:
  assumes "valid_cents b" "pg_row_sound b m" "dict_get (pg_mandates db) mid = Some m" "valid_cents a"
    "pg_read_reserve mid a b max_txn db = Inr (Some p)"
  shows "\<exists>r sp. pl_mandate p = mid \<and> pl_reserved p = cents_str r \<and> pl_spent p = Some (cents_str sp) \<and> valid_cents r \<and> valid_cents sp
     \<and> r + sp + a \<le> b \<and> pl_new_reserved p = cents_str (r + a) \<and> pl_txn p = pm_txn m \<and> pl_new_txn p = pm_txn m + 1 \<and> pl_active p
     \<and> pm_status m = ''active''"
proof -
  obtain r sp where m: "pm_reserved m = cents_str r" "pm_spent m = cents_str sp" "valid_cents r" "valid_cents sp" "r + sp \<le> b"
    "amount_decimal (PStr (pm_reserved m)) = Inr r" "amount_decimal (PStr (pm_spent m)) = Inr sp"
    by (rule row_money [OF assms(2)])
  have less: "dec_less (cents_dec b) (dec_add (dec_add (cents_dec r) (cents_dec sp)) (cents_dec a)) \<longleftrightarrow> b < r + sp + a"
    using assms(1,4) m(3,4) by (simp add: dec_sum3_exceeds_iff)
  have le: "r + sp + a \<le> b" using assms(3,5) m(6,7) less by (auto simp: pg_read_reserve_def bind_res_Inr_iff split: if_splits)
  then have valid: "valid_cents (r + a)" using assms(1,4) m(3,4) by (auto simp: valid_cents_def)
  then have "dec_add (cents_dec r) (cents_dec a) = cents_dec (r + a)" by (simp add: dec_add_cents dec_fix_small valid_cents_def)
  then show ?thesis
    using assms(3,5) m less le valid
    by (intro exI [of _ r] exI [of _ sp]) (auto simp: pg_read_reserve_def bind_res_Inr_iff split: if_splits)
qed

lemma read_release_plan:
  assumes "pg_row_sound b m" "dict_get (pg_mandates db) mid = Some m" "valid_cents a" "pg_read_release mid a db = Inr (Some p)"
  shows "\<exists>r. pl_mandate p = mid \<and> pl_reserved p = cents_str r \<and> pl_spent p = None \<and> valid_cents r \<and> a \<le> r \<and> pl_new_reserved p = cents_str (r - a)
     \<and> pl_txn p = pm_txn m \<and> pm_reserved m = cents_str r \<and> pl_active p = False \<and> pl_new_txn p = max 0 (pm_txn m - 1)"
proof -
  obtain r sp where m: "pm_reserved m = cents_str r" "valid_cents r" "amount_decimal (PStr (pm_reserved m)) = Inr r"
    by (rule row_money [OF assms(1)])
  have le: "a \<le> r" using assms(2,4) m(3) by (auto simp: pg_read_release_def bind_res_Inr_iff split: if_splits)
  then have valid: "valid_cents (r - a)" using assms(3) m(2) by (auto simp: valid_cents_def)
  then have "dec_sub (cents_dec r) (cents_dec a) = cents_dec (r - a)"
    by (simp add: dec_sub_def dec_scale_def dec_fix_small valid_cents_def)
  then show ?thesis
    using assms(2,4) m le valid by (intro exI [of _ r]) (auto simp: pg_read_release_def bind_res_Inr_iff split: if_splits)
qed

lemma reserve_plan_sound:
  assumes "valid_cents b" "pg_row_sound b m" "dict_get (pg_mandates db) mid = Some m" "valid_cents a"
    "pg_read_reserve mid a b max_txn db = Inr (Some p)"
  shows "plan_sound b p"
proof -
  obtain r sp where p: "pl_reserved p = cents_str r" "pl_spent p = Some (cents_str sp)" "valid_cents r" "valid_cents sp"
    "r + sp + a \<le> b" "pl_new_reserved p = cents_str (r + a)" using read_reserve_plan [OF assms] by blast
  have "valid_cents (r + a)" using p(3-5) assms(1,4) by (auto simp: valid_cents_def)
  then have "pg_row_sound b (n\<lparr>pm_reserved := pl_new_reserved p, pm_txn := pl_new_txn p\<rparr>)" if "plan_matches p n" for n
    using p that unfolding pg_row_sound_def by (intro exI [of _ "r + a"] exI [of _ sp]) (auto simp: plan_matches_def)
  then show ?thesis by (simp add: plan_sound_def)
qed

lemma release_plan_sound:
  assumes "pg_row_sound b m" "dict_get (pg_mandates db) mid = Some m" "valid_cents a" "pg_read_release mid a db = Inr (Some p)"
  shows "plan_sound b p"
proof -
  obtain r where p: "pl_reserved p = cents_str r" "valid_cents r" "a \<le> r" "pl_new_reserved p = cents_str (r - a)"
    using read_release_plan [OF assms] by blast
  have valid: "valid_cents (r - a)" using p(2,3) assms(3) by (auto simp: valid_cents_def)
  show ?thesis unfolding plan_sound_def
  proof (intro allI impI)
    fix n
    assume "pg_row_sound b n" "plan_matches p n"
    then obtain sp where "pm_spent n = cents_str sp" "valid_cents sp" "r + sp \<le> b"
      using p(1,2) by (auto simp: pg_row_sound_def plan_matches_def cents_str_inject)
    then show "pg_row_sound b (n\<lparr>pm_reserved := pl_new_reserved p, pm_txn := pl_new_txn p\<rparr>)"
      using p(4) valid assms(3) unfolding pg_row_sound_def by (intro exI [of _ "r - a"] exI [of _ sp]) (auto simp: valid_cents_def)
  qed
qed

lemma pg_step_ok: "pg_ok bud w \<Longrightarrow> pg_step bud w w' \<Longrightarrow> pg_ok bud w'"
proof (erule pg_step.cases)
  fix amount a mid max_txn db p ps
  assume ok: "pg_ok bud w" and w: "w = (db, ps)" "w' = (db, p # ps)" and a: "amount_decimal amount = Inr a"
    and read: "pg_read_reserve mid a (bud mid) max_txn db = Inr (Some p)"
  then obtain m where m: "dict_get (pg_mandates db) mid = Some m" by (auto simp: pg_read_reserve_def split: option.splits)
  then have sound: "pg_row_sound (bud mid) m" "valid_cents (bud mid)" using ok w by (auto simp: pg_ok_def)
  have "plan_sound (bud mid) p" "pl_mandate p = mid"
    using reserve_plan_sound [OF sound(2,1) m amount_decimal_valid [OF a] read] read_reserve_plan [OF sound(2,1) m amount_decimal_valid [OF a] read] by auto
  with ok w show ?thesis by (auto simp: pg_ok_def)
next
  fix amount a mid db p ps
  assume ok: "pg_ok bud w" and w: "w = (db, ps)" "w' = (db, p # ps)" and a: "amount_decimal amount = Inr a"
    and read: "pg_read_release mid a db = Inr (Some p)"
  then obtain m where m: "dict_get (pg_mandates db) mid = Some m" by (auto simp: pg_read_release_def split: option.splits)
  then have sound: "pg_row_sound (bud mid) m" using ok w by (auto simp: pg_ok_def)
  have "plan_sound (bud mid) p" "pl_mandate p = mid"
    using release_plan_sound [OF sound m amount_decimal_valid [OF a] read] read_release_plan [OF sound m amount_decimal_valid [OF a] read] by auto
  with ok w show ?thesis by (auto simp: pg_ok_def)
next
  fix p ps db won db'
  assume ok: "pg_ok bud w" and w: "w = (db, ps)" "w' = (db', ps)" and p: "p \<in> set ps" and swap: "pg_swap p db = (Inr won, db')"
  then have "plan_sound (bud (pl_mandate p)) p" by (auto simp: pg_ok_def)
  with ok w swap show ?thesis by (auto simp: pg_ok_def pg_swap_def plan_sound_def split: option.splits if_splits)
next
  fix db ps rows
  assume "pg_ok bud w" "w = (db, ps)" "w' = (db\<lparr>pg_purchases := rows\<rparr>, ps)"
  then show ?thesis by (simp add: pg_ok_def)
qed

interpretation pg_ledger: budget_ledger "pg_ok bud" pg_known pg_committed "\<lambda>_. bud" "pg_step bud" for bud
proof unfold_locales
  fix w mid
  assume "pg_ok bud w" "pg_known w mid"
  then obtain m where m: "dict_get (pg_mandates (fst w)) mid = Some m" "pg_row_sound (bud mid) m" by (auto simp: pg_ok_def pg_known_def)
  then obtain r sp where "pm_reserved m = cents_str r" "pm_spent m = cents_str sp" "valid_cents r" "valid_cents sp" "r + sp \<le> bud mid"
    by (auto simp: pg_row_sound_def)
  with m(1) show "pg_committed w mid \<le> bud mid" by (simp add: pg_committed_def)
next
  fix w w'
  assume "pg_ok bud w" "pg_step bud w w'"
  then show "pg_ok bud w'" by (rule pg_step_ok)
next
  fix w w' mid
  assume "pg_step bud w w'" "pg_known w mid"
  then show "pg_known w' mid \<and> bud mid = bud mid"
    by (auto elim!: pg_step.cases simp: pg_known_def pg_swap_def split: option.splits if_splits)
qed

text \<open>
  C32: any number of connections that read and write in any order, with reservations and releases, commit no more than the budget of a
  mandate: the guard on the texts that were read makes every lost update a refused one.
\<close>

theorem pg_reservations_keep_budget:
  assumes "(pg_step bud)\<^sup>*\<^sup>* w w'" "pg_ok bud w" "pg_known w mid"
  shows "pg_known w' mid \<and> pg_committed w' mid \<le> bud mid"
  using pg_ledger.run_within_budget [OF assms] by blast

definition sample_pg :: pgdb where
  "sample_pg = empty_pg\<lparr>pg_mandates := [(''m1'', \<lparr>pm_reserved = cents_str 6000, pm_spent = cents_str 2000, pm_txn = 2, pm_status = ''active''\<rparr>)],
     pg_purchases := [(''p1'', \<lparr>pp_mandate = ''m1'', pp_status = ''pending_capture'', pp_reservation = Some ''r1''\<rparr>),
                      (''p2'', \<lparr>pp_mandate = ''m1'', pp_status = ''pending_capture'', pp_reservation = Some ''r2''\<rparr>)]\<rparr>"

lemma sample_amounts: "amount_decimal (PStr (cents_str 2000)) = Inr 2000" "amount_decimal (PStr (cents_str 3000)) = Inr 3000"
  "amount_decimal (PStr (cents_str 6000)) = Inr 6000"
  by (simp_all add: valid_cents_def)

lemma sample_pg_ok: "pg_ok (\<lambda>_. 10000) (sample_pg, [])"
proof -
  have "pg_row_sound 10000 \<lparr>pm_reserved = cents_str 6000, pm_spent = cents_str 2000, pm_txn = 2, pm_status = ''active''\<rparr>"
    unfolding pg_row_sound_def by (intro exI [of _ 6000] exI [of _ 2000]) (simp add: valid_cents_def)
  then show ?thesis by (simp add: pg_ok_def sample_pg_def valid_cents_def)
qed

text \<open>Two connections read the same row; the second write is refused.\<close>

theorem pg_reservations_keep_budget_witness:
  "\<exists>p q db. pg_read_reserve ''m1'' 2000 10000 PNone sample_pg = Inr (Some p) \<and> pg_read_reserve ''m1'' 1000 10000 PNone sample_pg = Inr (Some q) \<and>
     pg_swap p sample_pg = (Inr True, db) \<and> pg_swap q db = (Inr False, db) \<and> pg_committed (db, [q, p]) ''m1'' \<le> 10000"
proof -
  have m: "dict_get (pg_mandates sample_pg) ''m1'' = Some \<lparr>pm_reserved = cents_str 6000, pm_spent = cents_str 2000, pm_txn = 2, pm_status = ''active''\<rparr>"
    by (simp add: sample_pg_def)
  have less: "\<not> dec_less (cents_dec 10000) (dec_add (dec_add (cents_dec 6000) (cents_dec 2000)) (cents_dec a))" if "0 \<le> a" "a \<le> 2000" for a
    using that by (simp add: dec_sum3_exceeds_iff valid_cents_def)
  have add: "dec_add (cents_dec 6000) (cents_dec a) = cents_dec (6000 + a)" if "0 \<le> a" "a \<le> 2000" for a
    using that by (simp add: dec_add_cents dec_fix_small)
  have read: "\<exists>p. pg_read_reserve ''m1'' a 10000 PNone sample_pg = Inr (Some p) \<and> pl_mandate p = ''m1'' \<and> pl_reserved p = cents_str 6000 \<and>
      pl_spent p = Some (cents_str 2000) \<and> pl_txn p = 2 \<and> pl_new_reserved p = cents_str (6000 + a) \<and> pl_new_txn p = 3" if "0 \<le> a" "a \<le> 2000" for a
    using less [OF that] add [OF that] that m by (simp add: pg_read_reserve_def valid_cents_def)
  from read [of 2000] obtain p where p: "pg_read_reserve ''m1'' 2000 10000 PNone sample_pg = Inr (Some p)" "pl_mandate p = ''m1''"
    "pl_reserved p = cents_str 6000" "pl_spent p = Some (cents_str 2000)" "pl_txn p = 2" "pl_new_reserved p = cents_str 8000" "pl_new_txn p = 3" by auto
  from read [of 1000] obtain q where q: "pg_read_reserve ''m1'' 1000 10000 PNone sample_pg = Inr (Some q)" "pl_mandate q = ''m1''"
    "pl_reserved q = cents_str 6000" "pl_txn q = 2" by auto
  obtain db where db: "pg_swap p sample_pg = (Inr True, db)"
    "dict_get (pg_mandates db) ''m1'' = Some \<lparr>pm_reserved = cents_str 8000, pm_spent = cents_str 2000, pm_txn = 3, pm_status = ''active''\<rparr>"
    using m p by (auto simp: pg_swap_def plan_matches_def)
  have swap: "pg_swap q db = (Inr False, db)" using db(2) q by (simp add: pg_swap_def plan_matches_def)
  have amt: "amount_decimal (PStr (cents_str 2000)) = Inr 2000" "amount_decimal (PStr (cents_str 1000)) = Inr 1000"
    by (simp_all add: sample_amounts valid_cents_def)
  have "(pg_step (\<lambda>_. 10000))\<^sup>*\<^sup>* (sample_pg, []) (db, [q, p])"
  proof -
    have "pg_step (\<lambda>_. 10000) (sample_pg, []) (sample_pg, [p])" by (rule read_reserve [OF amt(1) p(1)])
    moreover have "pg_step (\<lambda>_. 10000) (sample_pg, [p]) (sample_pg, [q, p])" by (rule read_reserve [OF amt(2) q(1)])
    moreover have "pg_step (\<lambda>_. 10000) (sample_pg, [q, p]) (db, [q, p])" by (rule swap_row [OF _ db(1)]) simp
    ultimately show ?thesis by (meson rtranclp.rtrancl_into_rtrancl rtranclp.rtrancl_refl)
  qed
  from pg_reservations_keep_budget [OF this sample_pg_ok, of "''m1''"] have "pg_committed (db, [q, p]) ''m1'' \<le> 10000"
    using m by (simp add: pg_known_def)
  with p(1) q(1) db(1) swap show ?thesis by blast
qed

text \<open>
  C40: a release is not remembered. Nothing that a release writes keeps the same reservation from being released again, as long as
  the mandate holds enough reserved money: the second release succeeds and takes off the amount once more, that of another purchase.
\<close>

theorem pg_release_repeats:
  assumes "pg_release_budget mid amount (Some rid) db = (Inr True, db')" "amount_decimal amount = Inr a" "pg_row_sound b m"
    "dict_get (pg_mandates db) mid = Some m" "pm_reserved m = cents_str r" "valid_cents r" "2 * a \<le> r"
  shows "\<exists>db'' m''. pg_release_budget mid amount (Some rid) db' = (Inr True, db'') \<and> dict_get (pg_mandates db'') mid = Some m''
     \<and> pm_reserved m'' = cents_str (r - 2 * a) \<and> pg_purchases db'' = pg_purchases db"
proof -
  have a: "valid_cents a" using assms(2) by (rule amount_decimal_valid)
  have step: "\<exists>n. pg_release_budget mid amount (Some rid) d = (Inr True, d\<lparr>pg_mandates := dict_set mid n (pg_mandates d)\<rparr>)
      \<and> pm_reserved n = cents_str (k - a)"
    if "reserved_purchase d rid mid" "dict_get (pg_mandates d) mid = Some n0" "pm_reserved n0 = cents_str k" "valid_cents k" "a \<le> k" for d n0 k
  proof -
    have "dec_sub (cents_dec k) (cents_dec a) = cents_dec (k - a)" "valid_cents (k - a)"
      using a that(4,5) by (simp_all add: dec_sub_def dec_scale_def dec_fix_small valid_cents_def)
    then show ?thesis
      using that assms(2)
      by (intro exI [of _ "n0\<lparr>pm_reserved := cents_str (k - a), pm_txn := max 0 (pm_txn n0 - 1)\<rparr>"]) (simp add: pg_release_budget_def pg_transaction_def bind_s_def sres_defs pg_read_release_def pg_swap_def plan_matches_def)
  qed
  have held: "reserved_purchase db rid mid"
    using assms(1,2) by (auto simp: pg_release_budget_def pg_transaction_def bind_s_def sres_defs split: if_splits)
  from step [OF held assms(4-6)] assms(7) a obtain n where n: "db' = db\<lparr>pg_mandates := dict_set mid n (pg_mandates db)\<rparr>"
    "pm_reserved n = cents_str (r - a)" using assms(1) by (auto simp: valid_cents_def)
  have "reserved_purchase db' rid mid" "valid_cents (r - a)" "a \<le> r - a"
    using held n(1) a assms(6,7) by (auto simp: reserved_purchase_def valid_cents_def)
  from step [OF this(1) _ n(2) this(2,3)] n(1) show ?thesis by (auto simp: algebra_simps)
qed

theorem pg_release_repeats_witness:
  "\<exists>db db' m. pg_release_budget ''m1'' (PStr (cents_str 3000)) (Some ''r1'') sample_pg = (Inr True, db) \<and>
     pg_release_budget ''m1'' (PStr (cents_str 3000)) (Some ''r1'') db = (Inr True, db') \<and>
     dict_get (pg_mandates db') ''m1'' = Some m \<and> pm_reserved m = cents_str 0 \<and> reserved_purchase db' ''r2'' ''m1''"
proof -
  let ?m = "\<lparr>pm_reserved = cents_str 6000, pm_spent = cents_str 2000, pm_txn = 2, pm_status = ''active''\<rparr>"
  note amt = sample_amounts(2,3)
  have m: "dict_get (pg_mandates sample_pg) ''m1'' = Some ?m" by (simp add: sample_pg_def)
  have sub: "dec_sub (cents_dec 6000) (cents_dec 3000) = cents_dec 3000" "valid_cents 3000"
    by (simp_all add: dec_sub_def dec_scale_def dec_fix_small valid_cents_def)
  have "reserved_purchase sample_pg ''r1'' ''m1''" by (simp add: sample_pg_def reserved_purchase_def)
  then obtain db where db: "pg_release_budget ''m1'' (PStr (cents_str 3000)) (Some ''r1'') sample_pg = (Inr True, db)"
    using amt sub m by (simp add: pg_release_budget_def pg_transaction_def bind_s_def sres_defs pg_read_release_def pg_swap_def plan_matches_def)
  from pg_release_repeats [OF db amt(1), of 10000 ?m 6000] sample_pg_ok m
  obtain db' m' where "pg_release_budget ''m1'' (PStr (cents_str 3000)) (Some ''r1'') db = (Inr True, db')" "dict_get (pg_mandates db') ''m1'' = Some m'"
    "pm_reserved m' = cents_str 0" "pg_purchases db' = pg_purchases sample_pg" by (auto simp: pg_ok_def valid_cents_def)
  with db show ?thesis by (auto simp: reserved_purchase_def sample_pg_def)
qed

section \<open>Velocity\<close>

definition intent_history :: "string \<Rightarrow> (instant \<times> pyval) list \<Rightarrow> pgdb \<Rightarrow> pgdb" where
  "intent_history mid hist db = fold (\<lambda>(t, a) d. snd (pg_increment_intent mid a t d)) hist db"

definition counters_distinct :: "pgdb \<Rightarrow> bool" where
  "counters_distinct db \<longleftrightarrow> distinct (map fst (pg_counters db))"

lemma pg_sum_dict: "pg_sum db mid c w a b = sum_list (map (\<lambda>(k, v). if in_window mid c w a b k then v else 0) (pg_counters db))"
proof -
  have "sum_list (map snd (filter (\<lambda>(k, v). P k) d)) = sum_list (map (\<lambda>(k, v). if P k then v else (0::int)) d)" for P and d :: "(bucket_key, cents) dict"
    by (induction d) auto
  then show ?thesis by (simp add: pg_sum_def)
qed

lemma pg_sum_add:
  assumes "counters_distinct db"
  shows "pg_sum (pg_add key v db) mid c w a b = pg_sum db mid c w a b + (if in_window mid c w a b key then v else 0)"
    "counters_distinct (pg_add key v db)"
proof -
  have "sum_list (map (\<lambda>(k, v). if P k then v else 0) (dict_set key (x + v) d)) =
      sum_list (map (\<lambda>(k, v). if P k then v else (0::int)) d) + (if P key then v else 0)"
    if "distinct (map fst d)" "x = (case dict_get d key of Some y \<Rightarrow> y | None \<Rightarrow> 0)" for P x and d :: "(bucket_key, cents) dict"
    using that by (induction d) (auto split: option.splits simp: map_of_eq_None_iff)
  with assms show "pg_sum (pg_add key v db) mid c w a b = pg_sum db mid c w a b + (if in_window mid c w a b key then v else 0)"
    by (simp add: pg_sum_dict pg_add_def counter_of_def counters_distinct_def dict_get_or_def)
  show "counters_distinct (pg_add key v db)" using assms by (simp add: counters_distinct_def pg_add_def distinct_dict_set)
qed

lemma increment_sum:
  assumes "counters_distinct db" "amount_decimal x = Inr y"
  shows "pg_sum (snd (pg_increment_intent mid x t db)) mid ''intents'' ''1m'' a b =
      pg_sum db mid ''intents'' ''1m'' a b + (if a \<le> floor_minute t \<and> floor_minute t \<le> b then 100 else 0)"
    "counters_distinct (snd (pg_increment_intent mid x t db))"
  using assms pg_sum_add [OF pg_sum_add(2)] pg_sum_add by (simp_all add: pg_increment_intent_def in_window_def)

lemma history_sum:
  assumes "counters_distinct db" "\<forall>(t, x) \<in> set hist. \<not> isl (amount_decimal x)"
  shows "pg_sum (intent_history mid hist db) mid ''intents'' ''1m'' a b =
      pg_sum db mid ''intents'' ''1m'' a b + 100 * int (length (filter (\<lambda>(t, x). a \<le> floor_minute t \<and> floor_minute t \<le> b) hist))"
  using assms
proof (induction hist arbitrary: db)
  case Nil
  then show ?case by (simp add: intent_history_def)
next
  case (Cons e hist)
  obtain t x where e: "e = (t, x)" by (cases e)
  with Cons.prems obtain y where "amount_decimal x = Inr y" by (cases "amount_decimal x") auto
  note inc = increment_sum [OF Cons.prems(1) this]
  have "intent_history mid (e # hist) db = intent_history mid hist (snd (pg_increment_intent mid x t db))"
    by (simp add: intent_history_def e)
  with Cons.IH [OF inc(2)] Cons.prems(2) inc(1) e show ?case by simp
qed

text \<open>
  C35: the burst window of the PostgreSQL counters, which only knows minutes, is never too short and at most a minute too long on either side.
  After any history of intents the count for the last 60 seconds contains every intent of those 60 seconds and none
  that is 120 seconds old or a minute ahead.
\<close>

theorem pg_velocity_window:
  assumes "\<forall>(t, x) \<in> set hist. \<not> isl (amount_decimal x)" "in_range (now - seconds 60)"
  shows "\<exists>n. pg_count_intents (intent_history mid hist empty_pg) mid now (seconds 60) = Inr (int n)
     \<and> length (filter (\<lambda>(t, x). now - seconds 60 \<le> t \<and> t \<le> now) hist) \<le> n
     \<and> n \<le> length (filter (\<lambda>(t, x). now - seconds 120 < t \<and> t < now + seconds 60) hist)"
proof -
  let ?P = "\<lambda>t. floor_minute (now - seconds 60) \<le> floor_minute t \<and> floor_minute t \<le> floor_minute now"
  let ?n = "length (filter (\<lambda>(t, x). ?P t) hist)"
  have sum: "pg_sum (intent_history mid hist empty_pg) mid ''intents'' ''1m'' (floor_minute (now - seconds 60)) (floor_minute now) = 100 * int ?n"
    using history_sum [OF _ assms(1), of empty_pg] by (simp add: counters_distinct_def empty_pg_def pg_sum_def)
  have count: "pg_count_intents (intent_history mid hist empty_pg) mid now (seconds 60) = Inr (int ?n)"
    using assms(2) sum by (simp add: pg_count_intents_def dt_add_def numeric_int_def)
  have inside: "?P t" if "now - seconds 60 \<le> t" "t \<le> now" for t
    using that floor_minute_mono by blast
  have outside: "now - seconds 120 < t \<and> t < now + seconds 60" if "?P t" for t
    using that floor_minute_gt [of t] floor_minute_gt [of "now - seconds 60"] floor_minute_le [of t] floor_minute_le [of now]
      floor_minute_le [of "now - seconds 60"] by auto
  have mono: "length (filter p xs) \<le> length (filter q xs)" if "\<And>e. p e \<Longrightarrow> q e" for p q and xs :: "(instant \<times> pyval) list"
    using that by (induction xs) auto
  have "length (filter (\<lambda>(t, x). now - seconds 60 \<le> t \<and> t \<le> now) hist) \<le> ?n" by (rule mono) (use inside in auto)
  moreover have "?n \<le> length (filter (\<lambda>(t, x). now - seconds 120 < t \<and> t < now + seconds 60) hist)" by (rule mono) (use outside in auto)
  ultimately show ?thesis using count by blast
qed

theorem pg_velocity_window_witness:
  "\<exists>n. pg_count_intents (intent_history ''m1'' [(63900000001000001, PInt 5), (63900000061000000, PInt 7)] empty_pg) ''m1'' 63900000061000000 (seconds 60)
     = Inr (int n) \<and> 2 \<le> n"
proof -
  have "\<forall>(t, x) \<in> set [(63900000001000001 :: instant, PInt 5), (63900000061000000, PInt 7)]. \<not> isl (amount_decimal x)"
    by (simp add: amount_decimal_def is_PStr_def check_amount_def dec_quantize_cent_def dec_eq_def dec_scale_def)
  from pg_velocity_window [OF this, of 63900000061000000 "''m1''"] show ?thesis by (auto simp: in_range_def)
qed

end
