(* ===== verification/Pg_Ledger.thy ===== *)
theory Pg_Ledger
  imports Pg_Stores Audit_Verification Outbox_Relay
begin

text \<open>
  The other PostgreSQL adapters of the API: the audit ledger (\<^verbatim>\<open>src/src/api/audit/repository_postgres.py\<close>) and the outbox store of the
  relay (\<^verbatim>\<open>src/src/api/events/relay.py\<close>). The table of audit events is shared with the agent lane: every insertion of either lane
  takes the next number of one sequence, and an insertion that is rolled back uses its number up. An append holds the lock of its chain from
  reading the head to the commit, hence it is one step. Hashes are hexadecimal, so that stripping them changes nothing.
\<close>

section \<open>The audit table\<close>

record ledger_row =
  lr_seq :: int
  lr_chain_key :: string
  lr_chain_seq :: int
  lr_type :: string
  lr_mandate :: string
  lr_payload :: pydict
  lr_prev_hash :: string
  lr_hash :: string
  lr_root_sig :: "string option"
  lr_created_at :: instant

record ledger_table =
  lt_rows :: "ledger_row list"
  lt_next_seq :: int
  lt_chains :: "(string, string \<times> int) dict"

definition CHAIN_KEY :: string where
  "CHAIN_KEY = ''api-ledger''"

definition insert_audit :: "ledger_row \<Rightarrow> ledger_table \<Rightarrow> ledger_table" where
  "insert_audit row db = db\<lparr>lt_rows := lt_rows db @ [row\<lparr>lr_seq := lt_next_seq db\<rparr>], lt_next_seq := lt_next_seq db + 1\<rparr>"

definition row_to_event :: "ledger_row \<Rightarrow> audit_event res" where
  "row_to_event row =
     check_event \<lparr>ae_mandate_id = lr_mandate row, ae_type = lr_type row, ae_payload = lr_payload row, ae_prev_hash = lr_prev_hash row,
                  ae_hash = lr_hash row, ae_created_at = lr_created_at row, ae_seq = Some (lr_seq row),
                  ae_root_sig = or_str (lr_root_sig row) None\<rparr>"

text \<open>
  \<^verbatim>\<open>append\<close>: the time is cut to seconds before it is hashed. A payload that plain JSON cannot write raises at the insertion, which
  rolls everything back; the event that is returned is built after the commit.
\<close>

definition chain_head_of :: "ledger_table \<Rightarrow> string \<times> int" where
  "chain_head_of db = dict_get_or (lt_chains db) CHAIN_KEY (GENESIS_PREV_HASH, 0)"

definition append_row :: "hash_fun \<Rightarrow> string \<Rightarrow> string \<Rightarrow> pydict \<Rightarrow> instant \<Rightarrow> ledger_table \<Rightarrow> ledger_row res" where
  "append_row sha mid ty payload ts db =
     bind_res (compute_event_hash sha mid ty (PDict payload) (fst (chain_head_of db)) (PTime (Aware ts))) (\<lambda>h.
     if \<not> plain_json (PDict payload) then Inl TypeError
     else Inr \<lparr>lr_seq = lt_next_seq db, lr_chain_key = CHAIN_KEY, lr_chain_seq = snd (chain_head_of db) + 1, lr_type = ty,
               lr_mandate = mid, lr_payload = payload, lr_prev_hash = fst (chain_head_of db), lr_hash = h, lr_root_sig = None,
               lr_created_at = ts\<rparr>)"

definition pg_ledger_append ::
  "hash_fun \<Rightarrow> string \<Rightarrow> string \<Rightarrow> pydict \<Rightarrow> dtime option \<Rightarrow> instant \<Rightarrow> (ledger_table, audit_event) sres" where
  "pg_ledger_append sha mid ty payload created now db =
     (case (case created of Some t \<Rightarrow> t | None \<Rightarrow> Aware now) of
        Naive _ \<Rightarrow> (Inl ValueError, db)
      | Aware t \<Rightarrow>
          (case append_row sha mid ty payload (floor_second t) db of
             Inl e \<Rightarrow> (Inl e, db)
           | Inr row \<Rightarrow>
               (row_to_event row,
                (insert_audit row db)\<lparr>lt_chains := dict_set CHAIN_KEY (lr_hash row, lr_chain_seq row) (lt_chains db)\<rparr>)))"

text \<open>\<^verbatim>\<open>ORDER BY seq\<close> over the rows of this ledger.\<close>

definition own_rows :: "ledger_table \<Rightarrow> ledger_row list" where
  "own_rows db = sort_key lr_seq (filter (\<lambda>r. lr_chain_key r = CHAIN_KEY) (lt_rows db))"

definition pg_get_all :: "ledger_table \<Rightarrow> audit_event list res" where
  "pg_get_all db = map_res row_to_event (own_rows db)"

definition pg_get_range :: "ledger_table \<Rightarrow> int \<Rightarrow> int \<Rightarrow> audit_event list res" where
  "pg_get_range db a b = map_res row_to_event (filter (\<lambda>r. a \<le> lr_seq r \<and> lr_seq r \<le> b) (own_rows db))"

definition pg_get_by_mandate :: "ledger_table \<Rightarrow> string \<Rightarrow> audit_event list res" where
  "pg_get_by_mandate db mid = map_res row_to_event (filter (\<lambda>r. lr_mandate r = mid) (own_rows db))"

definition pg_get_tail :: "ledger_table \<Rightarrow> audit_event option res" where
  "pg_get_tail db = (if own_rows db = [] then Inr None else bind_res (row_to_event (last (own_rows db))) (\<lambda>e. Inr (Some e)))"

definition unannotated :: "int \<Rightarrow> int \<Rightarrow> ledger_row \<Rightarrow> bool" where
  "unannotated a b r \<longleftrightarrow> lr_chain_key r = CHAIN_KEY \<and> a \<le> lr_seq r \<and> lr_seq r \<le> b \<and> lr_root_sig r = None"

definition pg_annotate_root :: "int \<Rightarrow> int \<Rightarrow> string \<Rightarrow> (ledger_table, int) sres" where
  "pg_annotate_root a b sig db =
     (Inr (int (length (filter (unannotated a b) (lt_rows db)))),
      db\<lparr>lt_rows := map (\<lambda>r. if unannotated a b r then r\<lparr>lr_root_sig := Some sig\<rparr> else r) (lt_rows db)\<rparr>)"

section \<open>The outbox store of a relay process\<close>

text \<open>
  The table is \<open>rs_events\<close> in the order of its sequence; \<open>rs_in_flight\<close> is the set that the process keeps. The rows that a fetch locks
  are unlocked when its transaction ends, which it does before it returns, so that no fetch finds a row locked by one that has returned.
\<close>

definition pg_relay_append :: "int \<Rightarrow> relay_event \<Rightarrow> (relay_store, relay_event) sres" where
  "pg_relay_append next_seq ev st =
     (if \<not> plain_json (PDict (re_payload ev)) then (Inl TypeError, st)
      else if re_event_id ev \<in> re_event_id ` set (rs_events st) then (Inl DatabaseError, st)
      else
        (let stored = ev\<lparr>re_seq := Some next_seq\<rparr>;
             row = stored\<lparr>re_created_at := floor_second (re_created_at ev), re_relayed_at := map_option floor_second (re_relayed_at ev)\<rparr>
         in (check_relay_event stored, st\<lparr>rs_events := rs_events st @ [row]\<rparr>)))"

text \<open>The loop over the rows; the limit is tested after each event that is taken.\<close>

fun take_rows :: "int \<Rightarrow> relay_event list \<Rightarrow> string list \<Rightarrow> relay_event list \<Rightarrow> relay_event list res \<times> string list" where
  "take_rows limit taken busy [] = (Inr taken, busy)"
| "take_rows limit taken busy (r # rs) =
     (if re_event_id r \<in> set busy then take_rows limit taken busy rs
      else
        (case check_relay_event r of
           Inl e \<Rightarrow> (Inl e, in_flight_add (re_event_id r) busy)
         | Inr ev \<Rightarrow>
             if limit \<le> int (length (taken @ [ev])) then (Inr (taken @ [ev]), in_flight_add (re_event_id r) busy)
             else take_rows limit (taken @ [ev]) (in_flight_add (re_event_id r) busy) rs))"

definition pg_fetch :: "int \<Rightarrow> (relay_store, relay_event list) sres" where
  "pg_fetch limit st =
     (let n = limit + int (length (rs_in_flight st))
      in if n < 0 then (Inl DatabaseError, st)
         else
           (case take_rows limit [] (rs_in_flight st) (take (nat n) (filter (\<lambda>e. re_relayed_at e = None) (rs_events st))) of
              (r, busy) \<Rightarrow> (r, st\<lparr>rs_in_flight := busy\<rparr>)))"

definition pg_mark_relayed :: "string \<Rightarrow> instant \<Rightarrow> relay_store \<Rightarrow> relay_store" where
  "pg_mark_relayed eid now st =
     (release_in_flight eid st)\<lparr>rs_events :=
        map (\<lambda>e. if re_event_id e = eid then e\<lparr>re_relayed_at := Some (floor_second now)\<rparr> else e) (rs_events st)\<rparr>"

end
