(* ===== verification/Pg_Ledger_Props.thy ===== *)
theory Pg_Ledger_Props
  imports Pg_Ledger
begin

text \<open>
  The ledger and the outbox over PostgreSQL against their counterparts in memory: what they share, and where the table that two lanes
  share or the process that several relays are breaks what the service or the relay relies on.
\<close>

section \<open>The chain of the ledger\<close>

definition event_of :: "ledger_row \<Rightarrow> audit_event" where
  "event_of row =
     \<lparr>ae_mandate_id = lr_mandate row, ae_type = lr_type row, ae_payload = lr_payload row, ae_prev_hash = lr_prev_hash row,
      ae_hash = lr_hash row, ae_created_at = lr_created_at row, ae_seq = Some (lr_seq row), ae_root_sig = or_str (lr_root_sig row) None\<rparr>"

lemma row_to_event_eq: "row_to_event row = check_event (event_of row)"
  by (simp add: row_to_event_def event_of_def)

definition raw_rows :: "ledger_table \<Rightarrow> ledger_row list" where
  "raw_rows db = filter (\<lambda>r. lr_chain_key r = CHAIN_KEY) (lt_rows db)"

text \<open>The table is in the order of its sequence, and the rows of this ledger are a chain from the genesis to the head.\<close>

definition table_ok :: "ledger_table \<Rightarrow> bool" where
  "table_ok db \<longleftrightarrow> sorted_wrt (<) (map lr_seq (lt_rows db)) \<and> 1 \<le> lt_next_seq db \<and> (\<forall>r \<in> set (lt_rows db). 1 \<le> lr_seq r \<and> lr_seq r < lt_next_seq db)"

definition chained :: "hash_fun \<Rightarrow> ledger_table \<Rightarrow> bool" where
  "chained sha db \<longleftrightarrow>
     (\<forall>r \<in> set (raw_rows db). check_event (event_of r) = Inr (event_of r)) \<and> linked sha GENESIS_PREV_HASH (map event_of (raw_rows db))
     \<and> map lr_chain_seq (raw_rows db) = [1..int (length (raw_rows db))]
     \<and> chain_head_of db = (if raw_rows db = [] then (GENESIS_PREV_HASH, 0) else (lr_hash (last (raw_rows db)), int (length (raw_rows db))))"

lemma own_rows_raw: "table_ok db \<Longrightarrow> own_rows db = raw_rows db"
proof -
  assume "table_ok db"
  then have "sorted_wrt (<) (map lr_seq (raw_rows db))"
    by (auto simp: table_ok_def raw_rows_def sorted_wrt_map intro: sorted_wrt_filter)
  then have "sorted (map lr_seq (raw_rows db))" by (simp add: strict_sorted_imp_sorted)
  then show ?thesis unfolding own_rows_def raw_rows_def [symmetric] by (rule sort_key_id_if_sorted)
qed

lemma map_res_total: "(\<And>x. x \<in> set xs \<Longrightarrow> f x = Inr (g x)) \<Longrightarrow> map_res f xs = Inr (map g xs)"
  by (induction xs) auto

lemma get_all_chained: "table_ok db \<Longrightarrow> chained sha db \<Longrightarrow> pg_get_all db = Inr (map event_of (raw_rows db))"
  using map_res_total [of "raw_rows db" row_to_event event_of] by (simp add: pg_get_all_def own_rows_raw chained_def row_to_event_eq)

lemma insert_raw [simp]:
  "raw_rows (insert_audit row db) = raw_rows db @ (if lr_chain_key row = CHAIN_KEY then [row\<lparr>lr_seq := lt_next_seq db\<rparr>] else [])"
  by (simp add: raw_rows_def insert_audit_def)

lemma insert_table_ok: "table_ok db \<Longrightarrow> table_ok (insert_audit row db)"
  by (auto simp: table_ok_def insert_audit_def sorted_wrt_append)

lemma linked_map:
  assumes "\<And>e. ae_prev_hash (f e) = ae_prev_hash e" "\<And>e. ae_hash (f e) = ae_hash e" "\<And>e. event_hash sha (f e) = event_hash sha e"
  shows "linked sha h (map f es) = linked sha h es"
  by (induction es arbitrary: h) (simp_all add: assms)

lemma append_row_fields:
  assumes "append_row sha mid ty payload ts db = Inr row" "\<forall>t. length (sha t) = 64" "1 \<le> lt_next_seq db"
  shows "lr_chain_key row = CHAIN_KEY" "lr_seq row = lt_next_seq db" "check_event (event_of row) = Inr (event_of row)"
    "ae_prev_hash (event_of row) = fst (chain_head_of db)" "event_hash sha (event_of row) = Inr (ae_hash (event_of row))"
    "lr_chain_seq row = snd (chain_head_of db) + 1" "row\<lparr>lr_seq := lt_next_seq db\<rparr> = row"
  using assms
  by (auto simp: append_row_def bind_res_Inr_iff compute_event_hash_def event_of_def event_hash_def check_event_def or_str_def split: if_splits)

lemma append_chained:
  assumes "\<forall>t. length (sha t) = 64" "table_ok db" "chained sha db" "append_row sha mid ty payload ts db = Inr row"
  shows "table_ok ((insert_audit row db)\<lparr>lt_chains := dict_set CHAIN_KEY (lr_hash row, lr_chain_seq row) (lt_chains db)\<rparr>)"
    "chained sha ((insert_audit row db)\<lparr>lt_chains := dict_set CHAIN_KEY (lr_hash row, lr_chain_seq row) (lt_chains db)\<rparr>)"
proof -
  have one: "1 \<le> lt_next_seq db" using assms(2) by (simp add: table_ok_def)
  note row = append_row_fields [OF assms(4,1) one]
  let ?db = "(insert_audit row db)\<lparr>lt_chains := dict_set CHAIN_KEY (lr_hash row, lr_chain_seq row) (lt_chains db)\<rparr>"
  have raw: "raw_rows ?db = raw_rows db @ [row]" using row(1,7) by (simp add: raw_rows_def insert_audit_def)
  show "table_ok ?db" using insert_table_ok [OF assms(2), of row] by (simp add: table_ok_def)
  have "linked sha GENESIS_PREV_HASH (map event_of (raw_rows db @ [row]))"
    using assms(3) row(4,5) by (auto simp: chained_def linked_append last_map event_of_def split: if_splits)
  moreover have "map lr_chain_seq (raw_rows db @ [row]) = [1..int (length (raw_rows db @ [row]))]"
    using assms(3) row(6) by (auto simp: chained_def upto_rec2 split: if_splits)
  moreover have "chain_head_of ?db = (lr_hash row, int (length (raw_rows db @ [row])))"
    using assms(3) row(6) by (auto simp: chained_def chain_head_of_def dict_get_or_def insert_audit_def split: if_splits)
  ultimately show "chained sha ?db" using assms(3) row(3) by (simp add: chained_def raw)
qed

section \<open>Runs\<close>

text \<open>
  What happens to the table: appends of this ledger, insertions of the other lane, insertions that are rolled back and leave a hole in the
  sequence, and the annotation of a root.
\<close>

inductive audit_table_step :: "hash_fun \<Rightarrow> ledger_table \<Rightarrow> ledger_table \<Rightarrow> bool" for sha :: hash_fun where
  own: "pg_ledger_append sha mid ty payload created now db = (r, db') \<Longrightarrow> audit_table_step sha db db'"
| other_lane: "lr_chain_key row \<noteq> CHAIN_KEY \<Longrightarrow> audit_table_step sha db (insert_audit row db)"
| rolled_back: "audit_table_step sha db (db\<lparr>lt_next_seq := lt_next_seq db + 1\<rparr>)"
| annotated: "pg_annotate_root a b sig db = (Inr n, db') \<Longrightarrow> audit_table_step sha db db'"

definition empty_table :: ledger_table where
  "empty_table = \<lparr>lt_rows = [], lt_next_seq = 1, lt_chains = []\<rparr>"

lemma annotate_chained:
  assumes "table_ok db" "chained sha db" "pg_annotate_root a b sig db = (Inr n, db')"
  shows "table_ok db' \<and> chained sha db'"
proof -
  let ?f = "\<lambda>r. if unannotated a b r then r\<lparr>lr_root_sig := Some sig\<rparr> else r"
  have db': "db' = db\<lparr>lt_rows := map ?f (lt_rows db)\<rparr>" using assms(3) by (simp add: pg_annotate_root_def)
  have seq: "lr_seq (?f r) = lr_seq r" for r by simp
  have raw: "raw_rows db' = map ?f (raw_rows db)" unfolding db' raw_rows_def by (simp add: filter_map comp_def if_distrib cong: if_cong)
  have hash: "ae_prev_hash (event_of (?f r)) = ae_prev_hash (event_of r)" "ae_hash (event_of (?f r)) = ae_hash (event_of r)"
    "event_hash sha (event_of (?f r)) = event_hash sha (event_of r)" for r by (simp_all add: event_of_def event_hash_def)
  have link: "linked sha h (map (event_of \<circ> ?f) rs) = linked sha h (map event_of rs)" for h rs
    by (induction rs arbitrary: h) (use hash in \<open>simp_all\<close>)
  have check: "check_event (event_of (?f r)) = Inr (event_of (?f r))" if "check_event (event_of r) = Inr (event_of r)" for r
    using that by (auto simp: check_event_def event_of_def split: if_splits)
  have "table_ok db'" using assms(1) by (auto simp: table_ok_def db' comp_def seq)
  moreover have "chained sha db'"
  proof -
    have head: "chain_head_of db' = chain_head_of db" by (simp add: chain_head_of_def db')
    have nums: "map lr_chain_seq (map ?f (raw_rows db)) = map lr_chain_seq (raw_rows db)" by simp
    have lst: "raw_rows db \<noteq> [] \<Longrightarrow> lr_hash (last (map ?f (raw_rows db))) = lr_hash (last (raw_rows db))" by (simp add: last_map)
    have "\<forall>r \<in> set (map ?f (raw_rows db)). check_event (event_of r) = Inr (event_of r)"
      using assms(2) check unfolding chained_def by (metis (no_types, lifting) imageE list.set_map)
    moreover have "linked sha GENESIS_PREV_HASH (map event_of (map ?f (raw_rows db)))"
      using assms(2) link [of GENESIS_PREV_HASH "raw_rows db"] unfolding chained_def map_map by blast
    ultimately show ?thesis
      using assms(2) nums lst unfolding chained_def raw head by (simp del: list.map_comp)
  qed
  ultimately show ?thesis by simp
qed

lemma audit_step_ok:
  assumes "\<forall>t. length (sha t) = 64" "table_ok db" "chained sha db" "audit_table_step sha db db'"
  shows "table_ok db' \<and> chained sha db'"
  using assms(4)
proof cases
  case (own mid ty payload created now r)
  then show ?thesis
    using append_chained [OF assms(1-3)] assms(2,3) by (auto simp: pg_ledger_append_def split: dtime.splits option.splits sum.splits)
next
  case (other_lane row)
  then show ?thesis
    using assms(2,3) insert_table_ok by (auto simp: chained_def chain_head_of_def) (auto simp: insert_audit_def)
next
  case rolled_back
  then show ?thesis using assms(2,3) by (auto simp: table_ok_def chained_def raw_rows_def chain_head_of_def)
next
  case (annotated a b sig n)
  then show ?thesis using annotate_chained [OF assms(2,3)] by blast
qed

lemma audit_runs_ok:
  assumes "\<forall>t. length (sha t) = 64" "(audit_table_step sha)\<^sup>*\<^sup>* empty_table db"
  shows "table_ok db \<and> chained sha db"
  using assms(2)
proof (induction rule: rtranclp_induct)
  case base
  then show ?case by (simp add: table_ok_def chained_def empty_table_def raw_rows_def chain_head_of_def dict_get_or_def)
next
  case (step db db')
  then show ?case using audit_step_ok [OF assms(1)] by blast
qed

lemma chain_loop_unnumbered:
  assumes "linked sha h es" "case prev of Some p \<Rightarrow> ae_hash p = h | None \<Rightarrow> (\<forall>e \<in> set (take 1 es). expected_prev start None e = h)"
  shows "\<exists>c. chain_loop sha start False i prev es = Inr c \<and> cr_ok c"
  using assms
proof (induction es arbitrary: h prev i)
  case Nil
  then show ?case by simp
next
  case (Cons e es)
  have gap: "sequence_gap False prev e = None" by (simp add: sequence_gap_def)
  have "expected_prev start prev e = h" using Cons.prems(2) by (cases prev) (auto simp: expected_prev_def)
  then have "validate_event sha e (expected_prev start prev e) = Inr (True, None)"
    using Cons.prems(1) by (simp add: validate_event_ok)
  with gap Cons.IH [of "ae_hash e" "Some e" "i + 1"] Cons.prems show ?case by simp
qed

text \<open>
  C36: whatever the two lanes do to the shared table, interleaved or rolled back, the events of this ledger remain a chain from the genesis:
  read back in the order of the sequence they are linked hash by hash, and pass validation if gaps in the sequence are not counted.
\<close>

theorem pg_ledger_stays_linked:
  assumes "\<forall>t. length (sha t) = 64" "(audit_table_step sha)\<^sup>*\<^sup>* empty_table db"
  shows "\<exists>es c. pg_get_all db = Inr es \<and> linked sha GENESIS_PREV_HASH es
     \<and> validate_chain sha es (Some GENESIS_PREV_HASH) False = Inr c \<and> cr_ok c"
proof -
  from audit_runs_ok [OF assms] have ok: "table_ok db" "chained sha db" by auto
  have link: "linked sha GENESIS_PREV_HASH (map event_of (raw_rows db))" using ok(2) by (simp add: chained_def)
  from chain_loop_unnumbered [OF this, where prev = None and start = "Some GENESIS_PREV_HASH" and i = 0] get_all_chained [OF ok] link show ?thesis
    by (auto simp: validate_chain_def expected_prev_def)
qed

section \<open>Gaps in the sequence\<close>

lemma chain_loop_total:
  assumes "\<And>e. e \<in> set es \<Longrightarrow> event_hash sha e = Inr (ae_hash e)"
  shows "\<exists>c. chain_loop sha start check i prev es = Inr c"
  using assms
proof (induction es arbitrary: i prev)
  case (Cons e es)
  have "\<exists>b. validate_event sha e h = Inr b" for h using Cons.prems [of e] by (auto simp: validate_event_def)
  then obtain b where "validate_event sha e (expected_prev start prev e) = Inr b" by blast
  with Cons.IH [of "i + 1" "Some e"] Cons.prems show ?case by (cases b) (auto split: option.splits)
qed simp

lemma chain_loop_numbered:
  assumes "chain_loop sha start True i prev es = Inr c" "cr_ok c" "\<And>e. e \<in> set es \<Longrightarrow> ae_seq e \<noteq> None"
    "case prev of Some p \<Rightarrow> ae_seq p = Some (m - 1) | None \<Rightarrow> (case es of e # _ \<Rightarrow> ae_seq e = Some m | [] \<Rightarrow> True)"
  shows "numbered m es"
  using assms
proof (induction es arbitrary: i prev m)
  case (Cons e es)
  have gap: "sequence_gap True prev e = None" using Cons.prems(1,2) by (auto split: option.splits)
  have seq: "ae_seq e = Some m"
    using gap Cons.prems(3) [of e] Cons.prems(4) by (cases prev) (auto simp: sequence_gap_def split: option.splits if_splits)
  have "chain_loop sha start True (i + 1) (Some e) es = Inr c"
    using Cons.prems(1,2) gap by (auto simp: bind_res_Inr_iff split: if_splits)
  from Cons.IH [OF this Cons.prems(2), of "m + 1"] Cons.prems(3) seq show ?case by simp
qed simp

lemma numbered_all: "numbered m es \<Longrightarrow> m \<le> k \<Longrightarrow> k < m + int (length es) \<Longrightarrow> \<exists>e \<in> set es. ae_seq e = Some k"
proof (induction es arbitrary: m)
  case (Cons e es)
  then show ?case by (cases "k = m") auto
qed simp

text \<open>A list that misses a number between two of its events is never accepted.\<close>

lemma gap_refused:
  assumes "\<And>e. e \<in> set es \<Longrightarrow> event_hash sha e = Inr (ae_hash e) \<and> ae_seq e \<noteq> None \<and> ae_seq e \<noteq> Some k"
    "e1 \<in> set es" "ae_seq e1 = Some a" "a < k" "e2 \<in> set es" "ae_seq e2 = Some b" "k < b"
  shows "\<exists>c. validate_chain sha es start True = Inr c \<and> \<not> cr_ok c"
proof -
  obtain c where c: "validate_chain sha es start True = Inr c"
    using chain_loop_total [of es sha start True 0 None] assms(1) by (auto simp: validate_chain_def)
  obtain e es' where es: "es = e # es'" using assms(2) by (cases es) auto
  then obtain m where m: "ae_seq e = Some m" using assms(1) [of e] by auto
  have "\<not> cr_ok c"
  proof
    assume "cr_ok c"
    then have num: "numbered m es"
      using chain_loop_numbered [of sha start 0 None es c m] c assms(1) m es by (auto simp: validate_chain_def)
    from numbered_in [OF num assms(2)] numbered_in [OF num assms(5)] assms(3,4,6,7) have "m \<le> k" "k < m + int (length es)" by auto
    from numbered_all [OF num this] assms(1) show False by auto
  qed
  with c show ?thesis by blast
qed

text \<open>
  C37: the ledger fails its own verification as soon as the other lane writes between two of its events. The sequence is shared and the
  service demands consecutive numbers: the whole chain is reported as broken, and no root over a range with both events can be signed.
\<close>

theorem shared_sequence_stops_ledger:
  assumes sha: "\<forall>t. length (sha t) = 64" and runs: "(audit_table_step sha)\<^sup>*\<^sup>* empty_table db"
    and first: "pg_ledger_append sha mid ty payload created now db = (Inr e1, db1)" and other: "lr_chain_key row \<noteq> CHAIN_KEY"
    and second: "pg_ledger_append sha mid' ty' payload' created' now' (insert_audit row db1) = (Inr e2, db2)"
  shows "\<exists>es c. pg_get_all db2 = Inr es \<and> verify_chain sha sg None None \<lparr>ls_repo = es, ls_witness = w\<rparr> = Inr c \<and> \<not> cr_ok c
     \<and> (\<forall>a b t. a \<le> the (ae_seq e1) \<and> the (ae_seq e2) \<le> b \<longrightarrow> make_root sha sg es a b t = Inl RuntimeError)"
proof -
  from audit_runs_ok [OF sha runs] have ok: "table_ok db" "chained sha db" by auto
  from audit_step_ok [OF sha ok own [OF first]] have ok1: "table_ok db1" "chained sha db1" by auto
  from audit_step_ok [OF sha ok1 other_lane [OF other]] have ok2: "table_ok (insert_audit row db1)" "chained sha (insert_audit row db1)" by auto
  from audit_step_ok [OF sha ok2 own [OF second]] have ok3: "table_ok db2" "chained sha db2" by auto
  let ?n = "lt_next_seq db"
  have append: "\<exists>r. lr_seq r = lt_next_seq d \<and> lr_chain_key r = CHAIN_KEY \<and> raw_rows d' = raw_rows d @ [r] \<and> lt_next_seq d' = lt_next_seq d + 1 \<and> e = event_of r"
    if "pg_ledger_append sha m y p cr nw d = (Inr e, d')" "1 \<le> lt_next_seq d" for m y p cr nw d e d'
  proof -
    from that(1) obtain t r where r: "append_row sha m y p (floor_second t) d = Inr r" "row_to_event r = Inr e"
      "d' = (insert_audit r d)\<lparr>lt_chains := dict_set CHAIN_KEY (lr_hash r, lr_chain_seq r) (lt_chains d)\<rparr>"
      by (auto simp: pg_ledger_append_def split: dtime.splits option.splits sum.splits)
    note f = append_row_fields [OF r(1) sha that(2)]
    have "raw_rows d' = raw_rows d @ [r]" using r(3) f(1,7) by (simp add: raw_rows_def insert_audit_def)
    moreover have "e = event_of r" using r(2) f(3) by (simp add: row_to_event_eq)
    ultimately show ?thesis using f(1,2) r(3) by (intro exI [of _ r]) (simp add: insert_audit_def)
  qed
  have pos: "1 \<le> ?n" using ok(1) by (simp add: table_ok_def)
  from append [OF first pos] obtain r1 where r1: "lr_seq r1 = ?n" "raw_rows db1 = raw_rows db @ [r1]" "lt_next_seq db1 = ?n + 1" "e1 = event_of r1" by auto
  have nxt: "lt_next_seq (insert_audit row db1) = ?n + 2" using r1(3) by (simp add: insert_audit_def)
  from append [OF second] nxt pos obtain r2 where r2: "lr_seq r2 = ?n + 2" "raw_rows db2 = raw_rows db1 @ [r2]" "e2 = event_of r2"
    using other by (auto simp: algebra_simps)
  let ?es = "map event_of (raw_rows db2)"
  have all: "pg_get_all db2 = Inr ?es" by (rule get_all_chained [OF ok3])
  have "linked sha GENESIS_PREV_HASH ?es" using ok3(2) by (simp add: chained_def)
  then have hashes: "event_hash sha e = Inr (ae_hash e)" if "e \<in> set ?es" for e
    using that by (induction ?es arbitrary: e rule: list.induct) (auto simp: in_set_conv_decomp linked_append)
  have old: "lr_seq r \<noteq> ?n + 1" if "r \<in> set (raw_rows db)" for r using that ok(1) by (auto simp: table_ok_def raw_rows_def)
  have good: "event_hash sha e = Inr (ae_hash e) \<and> ae_seq e \<noteq> None \<and> ae_seq e \<noteq> Some (?n + 1)" if "e \<in> set ?es" for e
    using that hashes [OF that] r1(1,2) r2(1,2) old by (auto simp: event_of_def)
  have mem: "e1 \<in> set ?es" "ae_seq e1 = Some ?n" "e2 \<in> set ?es" "ae_seq e2 = Some (?n + 2)"
    using r1 r2 by (simp_all add: event_of_def)
  from gap_refused [OF good mem(1,2) _ mem(3,4), of None] obtain c where c: "validate_chain sha ?es None True = Inr c" "\<not> cr_ok c" by auto
  have "verify_chain sha sg None None \<lparr>ls_repo = ?es, ls_witness = w\<rparr> = Inr c"
    using c mem(1) by (simp add: verify_chain_def Let_def) auto
  moreover have "make_root sha sg ?es a b t = Inl RuntimeError" if "a \<le> the (ae_seq e1)" "the (ae_seq e2) \<le> b" for a b t
  proof -
    have in_range: "e1 \<in> set (get_range ?es a b)" "e2 \<in> set (get_range ?es a b)" using mem that by (auto simp: get_range_def seq_between_def)
    have "\<exists>v. validate_chain sha (get_range ?es a b) (Some (ae_prev_hash (hd (get_range ?es a b)))) True = Inr v \<and> \<not> cr_ok v"
      by (rule gap_refused [OF _ in_range(1) mem(2) _ in_range(2) mem(4)]) (use good in \<open>auto simp: get_range_def\<close>)
    with in_range(1) mem that show ?thesis by (auto simp: make_root_def Let_def)
  qed
  ultimately show ?thesis using all c(2) by blast
qed

section \<open>The ledger in memory\<close>

text \<open>The table as the repository in memory has it: this ledger alone, numbered from one.\<close>

definition mirrors :: "hash_fun \<Rightarrow> ledger_table \<Rightarrow> ledger_repo \<Rightarrow> bool" where
  "mirrors sha db es \<longleftrightarrow> table_ok db \<and> chained sha db \<and> raw_rows db = lt_rows db \<and> es = map event_of (lt_rows db) \<and> lt_next_seq db = int (length es) + 1"

text \<open>
  C38: as long as no other lane writes and nothing is rolled back, an append to the PostgreSQL ledger of a payload that plain JSON can write
  is an append to the ledger in memory at the time cut to seconds: the same event or the same error, and again the same ledger.
\<close>

theorem pg_append_refines_memory:
  assumes "\<forall>t. length (sha t) = 64" "mirrors sha db es" "plain_json (PDict payload)"
  shows "\<exists>r db' es'. pg_ledger_append sha mid ty payload (Some (Aware t)) now db = (r, db')
     \<and> ledger_append sha mid ty payload (Some (Aware (floor_second t))) now es = (r, es') \<and> mirrors sha db' es'"
proof -
  have m: "table_ok db" "chained sha db" "raw_rows db = lt_rows db" "es = map event_of (lt_rows db)" "lt_next_seq db = int (length es) + 1"
    using assms(2) by (auto simp: mirrors_def)
  have head: "fst (chain_head_of db) = (if es = [] then GENESIS_PREV_HASH else ae_hash (last es))"
    using m by (auto simp: chained_def last_map event_of_def)
  show ?thesis
  proof (cases "append_row sha mid ty payload (floor_second t) db")
    case (Inl x)
    then have "compute_event_hash sha mid ty (PDict payload) (fst (chain_head_of db)) (PTime (Aware (floor_second t))) = Inl x"
      using assms(3) by (auto simp: append_row_def bind_res_Inl_iff)
    then show ?thesis using Inl assms(2) head by (auto simp: pg_ledger_append_def ledger_append_def Let_def)
  next
    case (Inr row)
    note f = append_row_fields [OF Inr assms(1)] append_chained [OF assms(1) m(1,2) Inr]
    let ?db = "(insert_audit row db)\<lparr>lt_chains := dict_set CHAIN_KEY (lr_hash row, lr_chain_seq row) (lt_chains db)\<rparr>"
    have one: "1 \<le> lt_next_seq db" using m(1) by (simp add: table_ok_def)
    have pg: "pg_ledger_append sha mid ty payload (Some (Aware t)) now db = (Inr (event_of row), ?db)"
      using Inr f(3) [OF one] by (simp add: pg_ledger_append_def row_to_event_eq)
    have "compute_event_hash sha mid ty (PDict payload) (fst (chain_head_of db)) (PTime (Aware (floor_second t))) = Inr (lr_hash row)"
      "event_of row = \<lparr>ae_mandate_id = mid, ae_type = ty, ae_payload = payload, ae_prev_hash = fst (chain_head_of db), ae_hash = lr_hash row,
         ae_created_at = floor_second t, ae_seq = Some (int (length es) + 1), ae_root_sig = None\<rparr>"
      using Inr m(5) by (auto simp: append_row_def bind_res_Inr_iff event_of_def or_str_def split: if_splits)
    then have mem: "ledger_append sha mid ty payload (Some (Aware (floor_second t))) now es = (Inr (event_of row), es @ [event_of row])"
      using head f(3) [OF one] by (simp add: ledger_append_def Let_def)
    have "lt_rows ?db = lt_rows db @ [row]" "raw_rows ?db = lt_rows db @ [row]" using f(1,7) [OF one] m(3)
      by (simp_all add: insert_audit_def raw_rows_def)
    then have "mirrors sha ?db (es @ [event_of row])" using f(8,9) m(4,5) by (simp add: mirrors_def insert_audit_def)
    with pg mem show ?thesis by blast
  qed
qed

section \<open>The outbox\<close>

lemma take_filter_all:
  assumes "length (filter (\<lambda>x. \<not> P x) xs) \<le> k"
  shows "take n (filter P (take (n + k) xs)) = take n (filter P xs)"
proof (cases "length xs \<le> n + k")
  case False
  have "filter P xs = filter P (take (n + k) xs) @ filter P (drop (n + k) xs)" by (metis append_take_drop_id filter_append)
  moreover have "n \<le> length (filter P (take (n + k) xs))"
  proof -
    have "length (filter (\<lambda>x. \<not> P x) (take (n + k) xs)) \<le> length (filter (\<lambda>x. \<not> P x) xs)"
      by (metis append_take_drop_id filter_append length_append le_add1)
    moreover have "length (filter P (take (n + k) xs)) + length (filter (\<lambda>x. \<not> P x) (take (n + k) xs)) = n + k"
      using False sum_length_filter_compl [of P "take (n + k) xs"] by simp
    ultimately show ?thesis using assms by linarith
  qed
  ultimately show ?thesis by simp
qed simp

lemma take_rows_eq:
  assumes "distinct (map re_event_id rs)" "\<forall>r \<in> set rs. check_relay_event r = Inr r" "int (length taken) < limit"
  shows "take_rows limit taken busy rs =
    (let new = take (nat (limit - int (length taken))) (filter (\<lambda>r. re_event_id r \<notin> set busy) rs)
     in (Inr (taken @ new), fold (\<lambda>e. in_flight_add (re_event_id e)) new busy))"
  using assms
proof (induction rs arbitrary: taken busy)
  case Nil
  then show ?case by simp
next
  case (Cons r rs)
  have IH: "distinct (map re_event_id rs)" "\<forall>r \<in> set rs. check_relay_event r = Inr r" using Cons.prems by auto
  show ?case
  proof (cases "re_event_id r \<in> set busy")
    case True
    then show ?thesis using Cons.IH [OF IH Cons.prems(3)] by simp
  next
    case False
    have same: "filter (\<lambda>x. re_event_id x \<notin> set (in_flight_add (re_event_id r) busy)) rs = filter (\<lambda>x. re_event_id x \<notin> set busy) rs"
      using Cons.prems(1) by (intro filter_cong) (auto simp: in_flight_add_def image_iff)
    have step: "nat (limit - int (length taken)) = Suc (nat (limit - int (length (taken @ [r]))))" using Cons.prems(3) by simp
    show ?thesis
    proof (cases "limit \<le> int (length (taken @ [r]))")
      case True
      then have "nat (limit - int (length (taken @ [r]))) = 0" by simp
      then show ?thesis using False True Cons.prems(2) step by (simp add: Let_def)
    next
      case more: False
      then show ?thesis
        using False Cons.prems(2) Cons.IH [OF IH, of "taken @ [r]" "in_flight_add (re_event_id r) busy"] same step by (simp add: Let_def)
    qed
  qed
qed

definition relay_table_ok :: "relay_store \<Rightarrow> bool" where
  "relay_table_ok st \<longleftrightarrow> distinct (map re_event_id (rs_events st)) \<and> (\<forall>r \<in> set (rs_events st). check_relay_event r = Inr r)"

text \<open>
  C39: one relay process over the PostgreSQL table fetches what it would fetch from the store in memory, and marks as in flight the same
  events: reading ahead by the number of events in flight is enough to fill the batch.
\<close>

theorem pg_fetch_agrees:
  assumes "relay_table_ok st" "0 < limit"
  shows "pg_fetch limit st = (case fetch_unrelayed limit st of (batch, st') \<Rightarrow> (Inr batch, st'))"
proof -
  let ?us = "filter (\<lambda>e. re_relayed_at e = None) (rs_events st)"
  let ?free = "\<lambda>e. re_event_id e \<notin> set (rs_in_flight st)"
  let ?k = "length (rs_in_flight st)"
  have dist: "distinct (map re_event_id ?us)" using assms(1) by (simp add: relay_table_ok_def distinct_map_filter)
  have "length (filter (\<lambda>e. \<not> ?free e) ?us) \<le> ?k"
  proof -
    have "distinct (map re_event_id (filter (\<lambda>e. \<not> ?free e) ?us))" using dist by (rule distinct_map_filter)
    from distinct_card [OF this]
    have "length (filter (\<lambda>e. \<not> ?free e) ?us) = card (set (map re_event_id (filter (\<lambda>e. \<not> ?free e) ?us)))" by (simp only: length_map)
    also have "\<dots> \<le> card (set (rs_in_flight st))" by (rule card_mono [OF finite_set]) (simp add: image_subset_iff)
    also have "\<dots> \<le> ?k" by (rule card_length)
    finally show ?thesis .
  qed
  from take_filter_all [OF this, of "nat limit"]
  have batch: "take (nat limit) (filter ?free (take (nat limit + ?k) ?us)) = take (nat limit) (filter ?free ?us)" .
  have n: "nat (limit + int ?k) = nat limit + ?k" using assms(2) by simp
  have d: "distinct (map re_event_id (take (nat limit + ?k) ?us))" using distinct_take [OF dist, of "nat limit + ?k"] by (simp only: take_map)
  have ok: "\<forall>r \<in> set (take (nat limit + ?k) ?us). check_relay_event r = Inr r" using assms(1) by (auto simp: relay_table_ok_def dest: in_set_takeD)
  have cand: "filter ?free ?us = filter (\<lambda>e. re_relayed_at e = None \<and> re_event_id e \<notin> set (rs_in_flight st)) (rs_events st)"
    by (simp only: filter_filter)
  show ?thesis
    using assms(2) take_rows_eq [OF d ok, of "[]" limit "rs_in_flight st"] batch n cand
    by (simp add: pg_fetch_def fetch_unrelayed_def slice_to_def Let_def)
qed

text \<open>
  Relay processes do not skip each other's events. The rows are only locked while they are read, and the events in flight are known to one
  process only: a second process that starts fetches the very events that the first has fetched and not yet marked.
\<close>

theorem relay_processes_share_events:
  assumes "relay_table_ok \<lparr>rs_events = es, rs_in_flight = []\<rparr>" "0 < limit" "pg_fetch limit \<lparr>rs_events = es, rs_in_flight = []\<rparr> = (r, first)"
  shows "\<exists>batch second. r = Inr batch \<and> pg_fetch limit \<lparr>rs_events = rs_events first, rs_in_flight = []\<rparr> = (Inr batch, second)
     \<and> (batch = [] \<longleftrightarrow> (\<forall>e \<in> set es. re_relayed_at e \<noteq> None))"
proof -
  have "rs_events first = es" using assms(3) pg_fetch_agrees [OF assms(1,2)] by (auto simp: fetch_unrelayed_def Let_def)
  then show ?thesis
    using assms(2,3) pg_fetch_agrees [OF assms(1,2)] by (auto simp: fetch_unrelayed_def Let_def slice_to_def filter_empty_conv)
qed

section \<open>Concrete tables\<close>

lemma empty_table_ok [simp]: "table_ok empty_table" "chained sha empty_table" "raw_rows empty_table = []"
  by (simp_all add: table_ok_def chained_def empty_table_def raw_rows_def chain_head_of_def dict_get_or_def)

text \<open>An append with an identifier as its payload succeeds.\<close>

lemma append_writes:
  assumes "\<forall>t. length (sha t) = 64" "table_ok db" "chained sha db" "mid \<noteq> []" "ty \<noteq> []"
  shows "\<exists>e db'. pg_ledger_append sha mid ty [(''purchase_id'', PStr x)] (Some (Aware t)) now db = (Inr e, db')"
proof -
  have "length (fst (chain_head_of db)) = 64"
    using assms(3) last_in_set [of "raw_rows db"]
    by (auto simp: chained_def GENESIS_PREV_HASH_def check_event_def event_of_def split: if_splits)
  moreover have "\<exists>u. audit_canonical_json (PDict (event_envelope at mid ty (PDict [(''purchase_id'', PStr x)]) prev)) = Inr u" for at prev
    by (simp add: envelope_text)
  ultimately have "\<exists>row. append_row sha mid ty [(''purchase_id'', PStr x)] (floor_second t) db = Inr row"
    using assms(4,5) by (simp add: append_row_def compute_event_hash_def normalize_utc_def plain_json_def bind_res_Inr_iff)
  then obtain row where row: "append_row sha mid ty [(''purchase_id'', PStr x)] (floor_second t) db = Inr row" by blast
  have "1 \<le> lt_next_seq db" using assms(2) by (simp add: table_ok_def)
  from append_row_fields(3) [OF row assms(1) this] row show ?thesis by (simp add: pg_ledger_append_def row_to_event_eq)
qed

lemma sample_sha_long: "\<forall>t. length (sample_sha t) = 64"
  by (simp add: sample_sha_def min_def)

definition foreign_row :: ledger_row where
  "foreign_row = \<lparr>lr_seq = 0, lr_chain_key = ''m1'', lr_chain_seq = 1, lr_type = ''gate.decision'', lr_mandate = ''m1'', lr_payload = [],
     lr_prev_hash = GENESIS_PREV_HASH, lr_hash = GENESIS_PREV_HASH, lr_root_sig = None, lr_created_at = 0\<rparr>"

theorem pg_ledger_stays_linked_witness:
  "\<exists>e db es c. pg_ledger_append sample_sha ''m1'' ''purchase.verified'' [(''purchase_id'', PStr ''p1'')] (Some (Aware 0)) 0 empty_table = (Inr e, db)
     \<and> pg_get_all (insert_audit foreign_row db) = Inr es \<and> linked sample_sha GENESIS_PREV_HASH es
     \<and> validate_chain sample_sha es (Some GENESIS_PREV_HASH) False = Inr c \<and> cr_ok c"
proof -
  obtain e db where first: "pg_ledger_append sample_sha ''m1'' ''purchase.verified'' [(''purchase_id'', PStr ''p1'')] (Some (Aware 0)) 0 empty_table = (Inr e, db)"
    using append_writes [OF sample_sha_long empty_table_ok(1,2), of "''m1''" "''purchase.verified''"] by blast
  have "audit_table_step sample_sha db (insert_audit foreign_row db)"
    by (rule other_lane) (simp add: foreign_row_def CHAIN_KEY_def)
  with own [OF first] have "(audit_table_step sample_sha)\<^sup>*\<^sup>* empty_table (insert_audit foreign_row db)"
    by (meson r_into_rtranclp rtranclp.rtrancl_into_rtrancl)
  from pg_ledger_stays_linked [OF sample_sha_long this] first show ?thesis by blast
qed

theorem shared_sequence_stops_ledger_witness:
  "\<exists>e1 db1 e2 db2 es c. pg_ledger_append sample_sha ''m1'' ''t'' [(''purchase_id'', PStr ''p1'')] (Some (Aware 0)) 0 empty_table = (Inr e1, db1)
     \<and> pg_ledger_append sample_sha ''m1'' ''t'' [(''purchase_id'', PStr ''p2'')] (Some (Aware 0)) 0 (insert_audit foreign_row db1) = (Inr e2, db2)
     \<and> pg_get_all db2 = Inr es \<and> verify_chain sample_sha sample_signer None None \<lparr>ls_repo = es, ls_witness = []\<rparr> = Inr c \<and> \<not> cr_ok c"
proof -
  obtain e1 db1 where first: "pg_ledger_append sample_sha ''m1'' ''t'' [(''purchase_id'', PStr ''p1'')] (Some (Aware 0)) 0 empty_table = (Inr e1, db1)"
    using append_writes [OF sample_sha_long empty_table_ok(1,2), of "''m1''" "''t''"] by blast
  have foreign: "lr_chain_key foreign_row \<noteq> CHAIN_KEY" by (simp add: foreign_row_def CHAIN_KEY_def)
  have ok1: "table_ok db1" "chained sample_sha db1" using audit_step_ok [OF sample_sha_long _ _ own [OF first]] by auto
  have ok2: "table_ok (insert_audit foreign_row db1)" "chained sample_sha (insert_audit foreign_row db1)"
    using audit_step_ok [OF sample_sha_long ok1 other_lane [OF foreign]] by auto
  obtain e2 db2 where second: "pg_ledger_append sample_sha ''m1'' ''t'' [(''purchase_id'', PStr ''p2'')] (Some (Aware 0)) 0 (insert_audit foreign_row db1) = (Inr e2, db2)"
    using append_writes [OF sample_sha_long ok2, of "''m1''" "''t''"] by blast
  from shared_sequence_stops_ledger [OF sample_sha_long rtranclp.rtrancl_refl first foreign second] first second show ?thesis by blast
qed

theorem pg_append_refines_memory_witness:
  "\<exists>r db es. pg_ledger_append sample_sha ''m1'' ''t'' [(''purchase_id'', PStr ''p1'')] (Some (Aware 1500000)) 0 empty_table = (r, db)
     \<and> ledger_append sample_sha ''m1'' ''t'' [(''purchase_id'', PStr ''p1'')] (Some (Aware 1000000)) 0 [] = (r, es) \<and> mirrors sample_sha db es"
proof -
  have "mirrors sample_sha empty_table []" by (simp add: mirrors_def) (simp add: empty_table_def)
  moreover have "plain_json (PDict [(''purchase_id'', PStr ''p1'')])" by (simp add: plain_json_def)
  ultimately show ?thesis
    using pg_append_refines_memory [OF sample_sha_long, of empty_table "[]" "[(''purchase_id'', PStr ''p1'')]" "''m1''" "''t''" 1500000 0]
    by (simp add: floor_second_def)
qed

definition sample_table :: relay_store where
  "sample_table = \<lparr>rs_events = [wit_event\<lparr>re_event_id := ''e0''\<rparr>, wit_event, wit_event\<lparr>re_event_id := ''e2''\<rparr>], rs_in_flight = [''e0'']\<rparr>"

lemma sample_table_ok: "relay_table_ok sample_table" "relay_table_ok (sample_table\<lparr>rs_in_flight := []\<rparr>)"
  by (simp_all add: relay_table_ok_def sample_table_def wit_event_def check_relay_event_def)

theorem pg_fetch_agrees_witness: "pg_fetch 1 sample_table = (Inr [wit_event], sample_table\<lparr>rs_in_flight := [''e0'', ''e1'']\<rparr>)"
  using pg_fetch_agrees [OF sample_table_ok(1), of 1]
  by (simp add: sample_table_def fetch_unrelayed_def slice_to_def wit_event_def in_flight_add_def Let_def)

theorem relay_processes_share_events_witness:
  "\<exists>batch first second. pg_fetch 2 (sample_table\<lparr>rs_in_flight := []\<rparr>) = (Inr batch, first)
     \<and> pg_fetch 2 (first\<lparr>rs_in_flight := []\<rparr>) = (Inr batch, second) \<and> batch \<noteq> []"
proof -
  let ?es = "rs_events sample_table"
  have st: "sample_table\<lparr>rs_in_flight := []\<rparr> = \<lparr>rs_events = ?es, rs_in_flight = []\<rparr>" by (simp add: sample_table_def)
  obtain r first where first: "pg_fetch 2 \<lparr>rs_events = ?es, rs_in_flight = []\<rparr> = (r, first)" by (metis surj_pair)
  have start: "first\<lparr>rs_in_flight := []\<rparr> = \<lparr>rs_events = rs_events first, rs_in_flight = []\<rparr>" by simp
  have due: "\<exists>e \<in> set ?es. re_relayed_at e = None" by (simp add: sample_table_def wit_event_def)
  have "relay_table_ok \<lparr>rs_events = ?es, rs_in_flight = []\<rparr>" using sample_table_ok(2) unfolding st .
  from relay_processes_share_events [OF this _ first] obtain batch second where "r = Inr batch"
    "pg_fetch 2 (first\<lparr>rs_in_flight := []\<rparr>) = (Inr batch, second)" "batch = [] \<longleftrightarrow> (\<forall>e \<in> set ?es. re_relayed_at e \<noteq> None)"
    unfolding start by auto
  with first due show ?thesis unfolding st by blast
qed

end
