(* ===== verification/Spec2Isabelle.thy ===== *)
theory Spec2Isabelle
  imports Service_Props Audit_Verification Outbox_Relay Agent_Answers Agent_Gate_Props Identity_Props Merchant_Props
    Rappi_Runs Pg_Props Pg_Ledger_Props
begin

text \<open>
  Verification library for the Aval kernel, which lets an agent buy under a mandate that a person signed.

  \<^bold>\<open>The program.\<close> There are two lanes and two services around them. The API lane (\<^verbatim>\<open>src/src/api\<close>) verifies a purchase intent of an agent:
  a decision service claims an idempotency key, reads the mandate and the offer, runs a pure policy gate,
  reserves budget, stores the decision and writes events to an outbox, whose relay delivers them; an
  append-only audit ledger with signed roots records what happened. The agent lane (\<^verbatim>\<open>src/src/agent\<close>) is a
  self-contained kernel over SQL tables: it issues and revokes mandates, runs its own gate, reserves along the chain
  of parent mandates, settles with a merchant or compensates, asks a human where the gate escalates, and keeps a
  hash chain per mandate with signed checkpoints. Around the kernel, an identity lane of the API registers, activates and
  revokes mandates with passkeys; a merchant (\<^verbatim>\<open>src/src/merchant\<close>) quotes signed checkouts and charges; a payment rail
  (\<^verbatim>\<open>src/src/yuno_sim\<close>) keeps payment tokens, verifies the mandate that pays, captures and decides disputes. What
  they exchange are signed tokens of the trust library (\<^verbatim>\<open>src/src/trustlib\<close>). A bridge (\<^verbatim>\<open>src/src/rappi_bridge\<close>)
  buys at a third-party shop with the owner's session: it makes the one paying click of an order, unlocked by a capture
  token that the kernel signs, and an adapter of the agent lane (\<^verbatim>\<open>ports/merchants_mcp.py\<close>) drives it.

  \<^bold>\<open>Foundations.\<close> \<open>Prelude\<close>: exceptions (\<open>exn\<close>), fallible results (\<open>'a res\<close>), operations on a state that
  may raise (\<open>sres\<close>) with their frame rules, and Python dictionaries in insertion order. \<open>Py_Decimal\<close>: decimals
  with the 28-digit context. \<open>Py_Time\<close>: instants, the Gregorian calendar and ISO text. \<open>Py_Values\<close>: dynamic values,
  truth, equality, \<^verbatim>\<open>str\<close> and \<^verbatim>\<open>repr\<close>. \<open>Json_Reading\<close>: JSON text determines the value. \<open>Triples\<close>: pre- and
  postconditions of operations that may raise or roll back, partial and total.

  \<^bold>\<open>The API lane.\<close> \<open>Domain_Models\<close> is \<^verbatim>\<open>domain/models.py\<close>; \<open>Json_Logic\<close> and \<open>Policy_Gate\<close> are \<^verbatim>\<open>domain/policy.py\<close>;
  \<open>Canonical_Json\<close> is \<^verbatim>\<open>canonical.py\<close> and the serializers of the services; \<open>Idempotency\<close> is \<^verbatim>\<open>domain/idempotency.py\<close> and
  \<^verbatim>\<open>decision/idempotency.py\<close>; \<open>Reservation_Store\<close> and \<open>Decision_Stores\<close> are \<^verbatim>\<open>decision/repository_memory.py\<close> and the
  coordinator; \<open>Decision_Service\<close> is \<^verbatim>\<open>decision/service.py\<close> and \<open>Service_Props\<close> its properties; \<open>Audit_Ledger\<close> and
  \<open>Audit_Verification\<close> are \<^verbatim>\<open>audit/\<close>; \<open>Outbox_Relay\<close> is \<^verbatim>\<open>events/\<close>.

  \<^bold>\<open>PostgreSQL.\<close> \<open>Pg_Stores\<close> is \<^verbatim>\<open>decision/repository_postgres.py\<close>, with \<open>Pg_Props\<close>; \<open>Pg_Ledger\<close> is \<^verbatim>\<open>audit/repository_postgres.py\<close> and
  the store of \<^verbatim>\<open>events/relay.py\<close>, with \<open>Pg_Ledger_Props\<close>. A table is a dictionary or a list of rows, a statement a function on it, and an
  operation that raises is rolled back. Columns of JSON text hold the value, columns of time the instant, cut to seconds by those who write
  it. A reservation is read into a plan and written later under its guard, so that connections can be interleaved; the audit table is
  written by both lanes under one sequence. The locales \<open>idempotency_store\<close> and \<open>budget_ledger\<close> are interpreted on these adapters
  too, and two theorems compare ledger and relay with those in memory.

  \<^bold>\<open>The agent lane.\<close> \<open>Agent_Rules\<close> is \<^verbatim>\<open>crypto/money.py\<close>, \<^verbatim>\<open>crypto/canonical.py\<close> and \<^verbatim>\<open>jsonlogic.py\<close>; \<open>Agent_Audit\<close> is
  \<^verbatim>\<open>audit.py\<close> and \<^verbatim>\<open>scrub.py\<close>; \<open>Agent_Db\<close> holds the tables of \<^verbatim>\<open>schema.sql\<close> with \<^verbatim>\<open>mandate.py\<close>, \<^verbatim>\<open>mocks/rail.py\<close>,
  \<^verbatim>\<open>ids.py\<close> and the counters of \<^verbatim>\<open>limits.py\<close>; \<open>Agent_Kernel\<close> is the gate and the ledger of \<^verbatim>\<open>kernel.py\<close> and \<open>Agent_Saga\<close>
  its verification and saga; \<open>Agent_Merchant\<close> is \<^verbatim>\<open>mocks/merchant.py\<close> and \<^verbatim>\<open>ports/local.py\<close>; \<open>Agent_Escalation\<close> is
  \<^verbatim>\<open>escalation.py\<close>. \<open>Agent_Ledger\<close> shows what reserving, releasing and settling do to the chain of mandates;
  \<open>Agent_Saga_Props\<close> has a calculus of pre- and postconditions with exceptions and the locale \<open>merchant_ports\<close>
  of what the kernel relies on in a merchant; \<open>Agent_Lane\<close> interprets it on the in-process merchant and puts all operations
  into one step relation; \<open>Agent_Answers\<close> is about the answers of humans and revocation, and
  \<open>Agent_Gate_Props\<close> about approvals and interleaved sagas.

  \<^bold>\<open>Identity, tokens, rail and merchant.\<close> \<open>Trust_Ap2\<close> is \<^verbatim>\<open>trustlib/models.py\<close> and \<^verbatim>\<open>ap2.py\<close>; \<open>Trust_Jose\<close> is
  \<^verbatim>\<open>jose.py\<close>, \<^verbatim>\<open>sdjwt.py\<close> and the key store of \<^verbatim>\<open>api/services/keys.py\<close>, with \<open>Jose_Props\<close>; \<open>Identity_Lane\<close> is the
  state machine, the registry, the passkey ceremony and the endpoints of mandates, with \<open>Identity_Props\<close>; \<open>Yuno_Rail\<close> is
  the rail, with \<open>Yuno_Props\<close>, where a capture is two steps because it waits for the issuer between its check and its
  settlement; \<open>Merchant_Service\<close> is the merchant, composed with the rail over a network that may lose an answer, with
  \<open>Merchant_Props\<close>. A request of these services is a transaction, rolled back when it raises.

  \<^bold>\<open>The bridge.\<close> \<open>Rappi_Bridge\<close> is \<^verbatim>\<open>rappi_bridge/errors.py\<close>, \<^verbatim>\<open>config.py\<close>, \<^verbatim>\<open>guard.py\<close>, \<^verbatim>\<open>state.py\<close>, \<^verbatim>\<open>rappi.py\<close>, \<^verbatim>\<open>token.py\<close>,
  \<^verbatim>\<open>service.py\<close>, \<^verbatim>\<open>app.py\<close> and \<^verbatim>\<open>api/decision/capture_token.py\<close>; \<open>Rappi_Port\<close> is \<^verbatim>\<open>RappiBridgeMcp\<close> and the minter of
  \<^verbatim>\<open>agent/kernel.py\<close>, composed with the endpoints; \<open>Rappi_Props\<close> has the properties and \<open>Rappi_Runs\<close> concrete runs of them.
  The shop is a function of all requests sent to it, the paying click is the request \<open>is_click\<close>, and an order is a
  sequence of stages that each end in one write to the table of orders, so that workers can be interleaved between stages.

  \<^bold>\<open>What is shown.\<close> Money: the gate approves only what scope, limits, budget and conditions admit; no sequence of
  operations, with or without exceptions and in any interleaving, spends or reserves more than a budget; a
  purchase that returns leaves nothing reserved; a revoked mandate is not charged; an escalation is answered once and a
  late answer denies; the rail captures once per idempotency key and only under a verified, live mandate, and the
  merchant charges only what mandate, agent, price, cart and kernel admit. Identity: mandates follow their life cycle, are
  activated by the holder's gesture, and a token that verifies was signed. The bridge: orders one after the other click
  once per key, and only what cap, approved total, cart, address and token admit. Records: an idempotency key replays its first decision; decisions and events agree; an honest
  ledger verifies, and a signed root fixes the events under it; the relay delivers before it marks, no
  two workers of one process share an event, and retries end. Over PostgreSQL the interleaved reservations keep the budget and saved responses are
  replayed, but a release is not remembered, and a sequence shared by two lanes stops the verification of the ledger. Representation: amounts, canonical texts and timestamps are
  read back as they were written. Where the code falls short of its intent, a theorem states what it does.

  \<^bold>\<open>Parameters and hypotheses.\<close> Cryptography (SHA-256, HMAC, Ed25519 signatures, key storage) is a parameter; where
  a property needs it, collision freedom on the texts at hand is a named hypothesis. The clock, random identifiers and
  nonces come from streams of the environment or from arguments. The JOSE library, RFC 8785 and the reading of JSON are the
  record \<open>jose_env\<close>, the answers of issuer and kernel fields of the environments of rail and merchant. Merchants are the locale \<open>merchant_ports\<close>. The invariant of
  the agent lane assumes prices of at least zero, which the code does not check (\<open>negative_price_lowers_spent\<close>).

  \<^bold>\<open>Bounds.\<close> All recursion is structural or has a termination proof (chains of mandates end because no identifier is
  visited twice; the rule evaluators recurse on the rule), so that no fuel is used. Amounts are integers of cents
  below \<open>10^28\<close>, the precision of the decimal context.

  \<^bold>\<open>Simplifications.\<close> Strings are ASCII; floats are exact decimals with their text; NaN and signed zeros are refused
  where the code would read them; statements of the agent lane commit one by one; columns that no modelled code reads
  are dropped; a JSON column holds its value.

  \<^bold>\<open>Not modelled.\<close> The opening and closing of database connections, dependency wiring, login, session file,
  catalogue search and health of the Rappi bridge, webhooks, remote MCP merchants, language-model and chat code, terminals, seeds, demos and infrastructure: input and
  output, third-party services, or glue around what is modelled.
\<close>

end
